(* ===== verification/Prelude.thy ===== *)
theory Prelude
  imports Main "HOL-Library.Word" "HOL-Library.Signed_Division"
begin

text \<open>
  Shared vocabulary of the development.

  \<^item> Machine integers.  Every arithmetic operation of the modelled code is checked
    (\<open>overflow-checks = true\<close>), saturating or explicitly \<open>checked_*\<close>, so the unsigned
    types are \<open>nat\<close> and the signed ones \<open>int\<close>, with the range tests written out.
  \<^item> Fallible state passing.  A contract or host operation is a function from a state to
    \<open>error + result\<close>; an error carries no state, because the host rolls every frame back
    when it fails.  The combinators below name the control flow of the Rust code:
    \<open>steps\<close> is a statement list, \<open>reject\<close> an early \<open>return Err\<close>, \<open>ok_or\<close> the
    \<open>.ok_or(e)?\<close> idiom, \<open>read\<close> a \<open>let\<close>, \<open>bindq\<close> a call with \<open>?\<close>.
  \<^item> A small logic of steps: \<open>keeps g f\<close> (a successful \<open>f\<close> leaves the projection \<open>g\<close>
    alone) and \<open>preserves P f\<close>, with one rule per combinator.
\<close>

section \<open>Machine integers\<close>

type_synonym u8 = nat
type_synonym u32 = nat
type_synonym u64 = nat
type_synonym i64 = int
type_synonym i128 = int

definition U32_MAX :: u32 where
  "U32_MAX = 4294967295"

definition U64_MAX :: u64 where
  "U64_MAX = 18446744073709551615"

definition I64_MAX :: i64 where
  "I64_MAX = 9223372036854775807"

definition I64_MIN :: i64 where
  "I64_MIN = - 9223372036854775808"

definition I128_MAX :: i128 where
  "I128_MAX = 170141183460469231731687303715884105727"

definition I128_MIN :: i128 where
  "I128_MIN = - 170141183460469231731687303715884105728"

definition checked_add_u32 :: "u32 \<Rightarrow> u32 \<Rightarrow> u32 option" where
  "checked_add_u32 a b = (if a + b \<le> U32_MAX then Some (a + b) else None)"

definition checked_add_u64 :: "u64 \<Rightarrow> u64 \<Rightarrow> u64 option" where
  "checked_add_u64 a b = (if a + b \<le> U64_MAX then Some (a + b) else None)"

definition saturating_add_u32 :: "u32 \<Rightarrow> u32 \<Rightarrow> u32" where
  "saturating_add_u32 a b = min (a + b) U32_MAX"

definition saturating_sub_u32 :: "u32 \<Rightarrow> u32 \<Rightarrow> u32" where
  "saturating_sub_u32 a b = a - b"

definition fits_i64 :: "int \<Rightarrow> bool" where
  "fits_i64 x \<longleftrightarrow> I64_MIN \<le> x \<and> x \<le> I64_MAX"

definition fits_i128 :: "int \<Rightarrow> bool" where
  "fits_i128 x \<longleftrightarrow> I128_MIN \<le> x \<and> x \<le> I128_MAX"

definition checked_i64 :: "int \<Rightarrow> i64 option" where
  "checked_i64 x = (if fits_i64 x then Some x else None)"

definition checked_i128 :: "int \<Rightarrow> i128 option" where
  "checked_i128 x = (if fits_i128 x then Some x else None)"

lemma checked_add_u32_Some [simp]:
  "checked_add_u32 a b = Some c \<longleftrightarrow> a + b \<le> U32_MAX \<and> c = a + b"
  by (auto simp: checked_add_u32_def)

lemma checked_add_u64_Some [simp]:
  "checked_add_u64 a b = Some c \<longleftrightarrow> a + b \<le> U64_MAX \<and> c = a + b"
  by (auto simp: checked_add_u64_def)

lemma checked_i64_Some [simp]: "checked_i64 x = Some y \<longleftrightarrow> fits_i64 x \<and> y = x"
  by (auto simp: checked_i64_def)

lemma checked_i128_Some [simp]: "checked_i128 x = Some y \<longleftrightarrow> fits_i128 x \<and> y = x"
  by (auto simp: checked_i128_def)

lemma checked_i128_None [simp]: "checked_i128 x = None \<longleftrightarrow> \<not> fits_i128 x"
  by (auto simp: checked_i128_def)

lemma fits_i64_imp_fits_i128: "fits_i64 x \<Longrightarrow> fits_i128 x"
  by (simp add: fits_i64_def fits_i128_def I64_MIN_def I64_MAX_def I128_MIN_def I128_MAX_def)

lemma fits_i128_between: "fits_i128 a \<Longrightarrow> fits_i128 b \<Longrightarrow> a \<le> x \<Longrightarrow> x \<le> b \<Longrightarrow> fits_i128 x"
  by (simp add: fits_i128_def)

lemma fits_i128_0 [simp]: "fits_i128 0"
  by (simp add: fits_i128_def I128_MIN_def I128_MAX_def)

section \<open>Fallible state passing\<close>

type_synonym ('s, 'e) step = "'s \<Rightarrow> 'e + 's"
type_synonym ('s, 'e, 'a) query = "'s \<Rightarrow> 'e + ('a \<times> 's)"

definition is_ok :: "'e + 'a \<Rightarrow> bool" where
  "is_ok r = (case r of Inl _ \<Rightarrow> False | Inr _ \<Rightarrow> True)"

definition ret :: "'a \<Rightarrow> ('s, 'e, 'a) query" where
  "ret a s = Inr (a, s)"

definition skip_step :: "('s, 'e) step" where
  "skip_step s = Inr s"

definition fail :: "'e \<Rightarrow> 's \<Rightarrow> 'e + 'r" where
  "fail e s = Inl e"

definition reject :: "('s \<Rightarrow> bool) \<Rightarrow> 'e \<Rightarrow> ('s, 'e) step" where
  "reject P e s = (if P s then Inl e else Inr s)"

definition modify :: "('s \<Rightarrow> 's) \<Rightarrow> ('s, 'e) step" where
  "modify f s = Inr (f s)"

definition and_then :: "('s, 'e) step \<Rightarrow> ('s \<Rightarrow> 'e + 'r) \<Rightarrow> 's \<Rightarrow> 'e + 'r" where
  "and_then f k s = (case f s of Inl e \<Rightarrow> Inl e | Inr t \<Rightarrow> k t)"

definition bindq :: "('s, 'e, 'a) query \<Rightarrow> ('a \<Rightarrow> 's \<Rightarrow> 'e + 'r) \<Rightarrow> 's \<Rightarrow> 'e + 'r" where
  "bindq q k s = (case q s of Inl e \<Rightarrow> Inl e | Inr (a, t) \<Rightarrow> k a t)"

definition read :: "('s \<Rightarrow> 'a) \<Rightarrow> ('a \<Rightarrow> 's \<Rightarrow> 'e + 'r) \<Rightarrow> 's \<Rightarrow> 'e + 'r" where
  "read g k s = k (g s) s"

definition ok_or :: "'e \<Rightarrow> ('s \<Rightarrow> 'a option) \<Rightarrow> ('a \<Rightarrow> 's \<Rightarrow> 'e + 'r) \<Rightarrow> 's \<Rightarrow> 'e + 'r" where
  "ok_or e g k s = (case g s of None \<Rightarrow> Inl e | Some a \<Rightarrow> k a s)"

definition try_read :: "('s \<Rightarrow> 'e + 'a) \<Rightarrow> ('a \<Rightarrow> 's \<Rightarrow> 'e + 'r) \<Rightarrow> 's \<Rightarrow> 'e + 'r" where
  "try_read g k s = (case g s of Inl e \<Rightarrow> Inl e | Inr a \<Rightarrow> k a s)"

definition branch :: "('s \<Rightarrow> bool) \<Rightarrow> ('s \<Rightarrow> 'e + 'r) \<Rightarrow> ('s \<Rightarrow> 'e + 'r) \<Rightarrow> 's \<Rightarrow> 'e + 'r" where
  "branch P f g s = (if P s then f s else g s)"

fun steps :: "('s, 'e) step list \<Rightarrow> ('s, 'e) step" where
  "steps [] s = Inr s"
| "steps (f # fs) s = (case f s of Inl e \<Rightarrow> Inl e | Inr t \<Rightarrow> steps fs t)"

declare steps.simps [simp del]

named_theorems ok_simps "inversion of a successful run, one rule per combinator"
named_theorems run_simps "unfolding of the combinators, for evaluation"

lemmas [run_simps] =
  ret_def skip_step_def fail_def reject_def modify_def and_then_def bindq_def read_def
  ok_or_def try_read_def branch_def steps.simps

lemma is_ok_simps [simp]: "is_ok (Inl e) = False" "is_ok (Inr a) = True"
  by (simp_all add: is_ok_def)

lemma is_okD: "is_ok r \<Longrightarrow> \<exists>a. r = Inr a"
  by (cases r) simp_all

lemma is_ok_projr: "is_ok r \<Longrightarrow> r = Inr (projr r)"
  by (cases r) simp_all

lemma ret_ok [ok_simps]: "ret a s = Inr r \<longleftrightarrow> r = (a, s)"
  by (auto simp: ret_def)

lemma skip_ok [ok_simps]: "skip_step s = Inr t \<longleftrightarrow> t = s"
  by (auto simp: skip_step_def)

lemma fail_ok [ok_simps]: "fail e s = Inr r \<longleftrightarrow> False"
  by (simp add: fail_def)

lemma reject_ok [ok_simps]: "reject P e s = Inr t \<longleftrightarrow> \<not> P s \<and> t = s"
  by (auto simp: reject_def)

lemma modify_ok [ok_simps]: "modify f s = Inr t \<longleftrightarrow> t = f s"
  by (auto simp: modify_def)

lemma and_then_ok [ok_simps]: "and_then f k s = Inr r \<longleftrightarrow> (\<exists>t. f s = Inr t \<and> k t = Inr r)"
  by (simp add: and_then_def split: sum.splits)

lemma bindq_ok [ok_simps]: "bindq q k s = Inr r \<longleftrightarrow> (\<exists>a t. q s = Inr (a, t) \<and> k a t = Inr r)"
  by (auto simp: bindq_def split: sum.splits prod.splits)

lemma read_ok [ok_simps]: "read g k s = Inr r \<longleftrightarrow> k (g s) s = Inr r"
  by (simp add: read_def)

lemma ok_or_ok [ok_simps]: "ok_or e g k s = Inr r \<longleftrightarrow> (\<exists>a. g s = Some a \<and> k a s = Inr r)"
  by (simp add: ok_or_def split: option.splits)

lemma try_read_ok [ok_simps]: "try_read g k s = Inr r \<longleftrightarrow> (\<exists>a. g s = Inr a \<and> k a s = Inr r)"
  by (simp add: try_read_def split: sum.splits)

lemma branch_ok [ok_simps]:
  "branch P f g s = Inr r \<longleftrightarrow> (P s \<and> f s = Inr r) \<or> (\<not> P s \<and> g s = Inr r)"
  by (auto simp: branch_def)

lemma steps_Nil_ok [ok_simps]: "steps [] s = Inr t \<longleftrightarrow> t = s"
  by (auto simp: steps.simps)

lemma steps_Cons_ok [ok_simps]:
  "steps (f # fs) s = Inr t \<longleftrightarrow> (\<exists>u. f s = Inr u \<and> steps fs u = Inr t)"
  by (simp add: steps.simps split: sum.splits)

lemma steps_append: "steps (fs @ gs) s = (case steps fs s of Inl e \<Rightarrow> Inl e | Inr t \<Rightarrow> steps gs t)"
  by (induction fs arbitrary: s) (auto simp: steps.simps split: sum.splits)

section \<open>A logic of steps\<close>

definition keeps :: "('s \<Rightarrow> 'p) \<Rightarrow> ('s, 'e) step \<Rightarrow> bool" where
  "keeps g f \<longleftrightarrow> (\<forall>s t. f s = Inr t \<longrightarrow> g t = g s)"

definition keepsq :: "('s \<Rightarrow> 'p) \<Rightarrow> ('s, 'e, 'a) query \<Rightarrow> bool" where
  "keepsq g q \<longleftrightarrow> (\<forall>s a t. q s = Inr (a, t) \<longrightarrow> g t = g s)"

definition preserves :: "('s \<Rightarrow> bool) \<Rightarrow> ('s, 'e) step \<Rightarrow> bool" where
  "preserves P f \<longleftrightarrow> (\<forall>s t. f s = Inr t \<longrightarrow> P s \<longrightarrow> P t)"

named_theorems keeps_rules "frame rules, one per combinator"

lemma keepsI: "(\<And>s t. f s = Inr t \<Longrightarrow> g t = g s) \<Longrightarrow> keeps g f"
  by (simp add: keeps_def)

lemma keepsD: "keeps g f \<Longrightarrow> f s = Inr t \<Longrightarrow> g t = g s"
  by (simp add: keeps_def)

lemma keepsqI: "(\<And>s a t. q s = Inr (a, t) \<Longrightarrow> g t = g s) \<Longrightarrow> keepsq g q"
  by (simp add: keepsq_def)

lemma keepsqD: "keepsq g q \<Longrightarrow> q s = Inr (a, t) \<Longrightarrow> g t = g s"
  by (simp add: keepsq_def)

lemma preservesD: "preserves P f \<Longrightarrow> f s = Inr t \<Longrightarrow> P s \<Longrightarrow> P t"
  by (simp add: preserves_def)

lemma preservesI: "(\<And>s t. f s = Inr t \<Longrightarrow> P s \<Longrightarrow> P t) \<Longrightarrow> preserves P f"
  by (simp add: preserves_def)

lemma keeps_skip [keeps_rules]: "keeps g skip_step"
  by (simp add: keeps_def skip_step_def)

lemma keeps_fail [keeps_rules]: "keeps g (fail e)"
  by (simp add: keeps_def fail_def)

lemma keeps_reject [keeps_rules]: "keeps g (reject P e)"
  by (simp add: keeps_def reject_def)

lemma keeps_modify [keeps_rules]: "(\<And>s. g (f s) = g s) \<Longrightarrow> keeps g (modify f)"
  by (simp add: keeps_def modify_def)

lemma keeps_and_then [keeps_rules]: "keeps g f \<Longrightarrow> keeps g k \<Longrightarrow> keeps g (and_then f k)"
  by (auto simp: keeps_def ok_simps)

lemma keeps_bindq [keeps_rules]:
  "keepsq g q \<Longrightarrow> (\<And>a. keeps g (k a)) \<Longrightarrow> keeps g (bindq q k)"
  by (fastforce simp: keeps_def keepsq_def ok_simps)

lemma keeps_read [keeps_rules]: "(\<And>a. keeps g (k a)) \<Longrightarrow> keeps g (read h k)"
  by (auto simp: keeps_def ok_simps)

lemma keeps_ok_or [keeps_rules]: "(\<And>a. keeps g (k a)) \<Longrightarrow> keeps g (ok_or e h k)"
  by (auto simp: keeps_def ok_simps)

lemma keeps_try_read [keeps_rules]: "(\<And>a. keeps g (k a)) \<Longrightarrow> keeps g (try_read h k)"
  by (auto simp: keeps_def ok_simps)

lemma keeps_branch [keeps_rules]: "keeps g f \<Longrightarrow> keeps g h \<Longrightarrow> keeps g (branch P f h)"
  by (auto simp: keeps_def ok_simps)

lemma keeps_steps_Nil [keeps_rules]: "keeps g (steps [])"
  by (simp add: keeps_def steps.simps)

lemma keeps_steps_Cons [keeps_rules]: "keeps g f \<Longrightarrow> keeps g (steps fs) \<Longrightarrow> keeps g (steps (f # fs))"
  by (auto simp: keeps_def ok_simps)

lemma keepsq_ret [keeps_rules]: "keepsq g (ret a)"
  by (simp add: keepsq_def ret_def)

lemma keepsq_fail [keeps_rules]: "keepsq g (fail e)"
  by (simp add: keepsq_def fail_def)

lemma keepsq_and_then [keeps_rules]: "keeps g f \<Longrightarrow> keepsq g k \<Longrightarrow> keepsq g (and_then f k)"
  by (fastforce simp: keeps_def keepsq_def ok_simps)

lemma keepsq_bindq [keeps_rules]:
  "keepsq g q \<Longrightarrow> (\<And>a. keepsq g (k a)) \<Longrightarrow> keepsq g (bindq q k)"
  by (fastforce simp: keepsq_def ok_simps)

lemma keepsq_read [keeps_rules]: "(\<And>a. keepsq g (k a)) \<Longrightarrow> keepsq g (read h k)"
  by (auto simp: keepsq_def ok_simps)

lemma keepsq_ok_or [keeps_rules]: "(\<And>a. keepsq g (k a)) \<Longrightarrow> keepsq g (ok_or e h k)"
  by (auto simp: keepsq_def ok_simps)

lemma keepsq_try_read [keeps_rules]: "(\<And>a. keepsq g (k a)) \<Longrightarrow> keepsq g (try_read h k)"
  by (auto simp: keepsq_def ok_simps)

lemma keepsq_branch [keeps_rules]: "keepsq g f \<Longrightarrow> keepsq g h \<Longrightarrow> keepsq g (branch P f h)"
  by (auto simp: keepsq_def ok_simps)

section \<open>Sums over finite maps\<close>

definition map_sum :: "('v \<Rightarrow> int) \<Rightarrow> ('k \<rightharpoonup> 'v) \<Rightarrow> int" where
  "map_sum f m = (\<Sum>k\<in>dom m. f (the (m k)))"

lemma map_sum_empty [simp]: "map_sum f Map.empty = 0"
  by (simp add: map_sum_def)

lemma map_sum_upd:
  assumes "finite (dom m)"
  shows "map_sum f (m(k \<mapsto> v)) = map_sum f m - (case m k of None \<Rightarrow> 0 | Some u \<Rightarrow> f u) + f v"
proof -
  have rest: "(\<Sum>j\<in>dom m - {k}. f (the ((m(k \<mapsto> v)) j))) = (\<Sum>j\<in>dom m - {k}. f (the (m j)))"
    by (rule sum.cong) auto
  have new: "map_sum f (m(k \<mapsto> v)) = f v + (\<Sum>j\<in>dom m - {k}. f (the (m j)))"
    using assms by (simp add: map_sum_def sum.insert_remove rest)
  show ?thesis
  proof (cases "m k")
    case None
    then have "dom m - {k} = dom m"
      by auto
    with new None show ?thesis
      by (simp add: map_sum_def)
  next
    case (Some u)
    then have "map_sum f m = f u + (\<Sum>j\<in>dom m - {k}. f (the (m j)))"
      using assms sum.remove [of "dom m" k "\<lambda>j. f (the (m j))"] by (auto simp: map_sum_def)
    with new Some show ?thesis
      by simp
  qed
qed

lemma map_sum_nonneg: "(\<And>k v. m k = Some v \<Longrightarrow> 0 \<le> f v) \<Longrightarrow> 0 \<le> map_sum f m"
  unfolding map_sum_def by (rule sum_nonneg) auto

lemma map_sum_member_le:
  assumes "finite (dom m)" and "m k = Some v" and "\<And>j u. m j = Some u \<Longrightarrow> 0 \<le> f u"
  shows "f v \<le> map_sum f m"
proof -
  have "f (the (m k)) \<le> (\<Sum>j\<in>dom m. f (the (m j)))"
    using assms by (intro member_le_sum) auto
  with assms(2) show ?thesis
    by (simp add: map_sum_def)
qed

lemma map_sum_cong: "(\<And>k v. m k = Some v \<Longrightarrow> f v = g v) \<Longrightarrow> map_sum f m = map_sum g m"
  unfolding map_sum_def by (rule sum.cong) auto

section \<open>Invariants of interleaved runs\<close>

text \<open>A component owns a part \<open>own\<close> of the state and keeps an invariant of it with each of its steps.
  Between its steps anything may happen that leaves the part alone: calls of other components,
  other transactions, the passing of time.\<close>

locale component =
  fixes step :: "'s \<Rightarrow> 's \<Rightarrow> bool" and own :: "'s \<Rightarrow> 'o" and invar :: "'o \<Rightarrow> bool"
  assumes step_keeps: "step s s' \<Longrightarrow> invar (own s) \<Longrightarrow> invar (own s')"
begin

definition run :: "'s \<Rightarrow> 's \<Rightarrow> bool" where
  "run = (\<lambda>u v. step u v \<or> own v = own u)\<^sup>*\<^sup>*"

lemma run_keeps: "run s s' \<Longrightarrow> invar (own s) \<Longrightarrow> invar (own s')"
  unfolding run_def by (induction rule: rtranclp_induct) (auto dest: step_keeps)

lemma run_step: "step s s' \<Longrightarrow> run s s'"
  by (auto simp: run_def)

end

end
