(* ===== verification/Host_Types.thy ===== *)
theory Host_Types
  imports Prelude "HOL-Library.List_Lexorder"
begin

text \<open>
  The values the Soroban host and the contracts exchange: addresses, assets, host errors,
  contract values, ledger parameters (\<open>src/soroban-env-host-patch/src/ledger_info.rs\<close>)
  and the life cycle of one ledger entry (\<open>storage.rs\<close>, \<open>host/data_helper.rs\<close>).
  A 32-byte key or hash is the number its bytes spell, which keeps the byte order of XDR.
\<close>

type_synonym key32 = nat
type_synonym hash32 = nat
type_synonym bytes = "nat list"

section \<open>Errors\<close>

datatype sc_error_type =
  SCE_WasmVm | SCE_Context | SCE_Storage | SCE_Object | SCE_Crypto | SCE_Events
  | SCE_Budget | SCE_Value | SCE_Auth

datatype sc_error_code =
  ArithDomain | IndexBounds | InvalidInput | MissingValue | ExistingValue
  | ExceededLimit | InvalidAction | InternalError | UnexpectedType | UnexpectedSize

text \<open>
  A failed host call carries an error: of type \<open>Contract\<close> with a number a contract chose,
  or of a host type with a code.  An error of a called contract reaches the caller's frame
  unchanged (\<open>vm.rs\<close>, \<open>vm/dispatch.rs\<close>), so one type serves every layer.
\<close>

datatype host_error = ContractErr u32 | HostErr sc_error_type sc_error_code

text \<open>A panic of contract code (an \<open>unwrap\<close> of \<open>None\<close>, an arithmetic overflow) is a
  trap of the Wasm machine.\<close>

definition wasm_trap :: host_error where
  "wasm_trap = HostErr SCE_WasmVm InvalidAction"

datatype ContractError =
  CE_InternalError | OperationNotSupportedError | AlreadyInitializedError
  | UnauthorizedError | AuthenticationError | AccountMissingError | AccountIsNotClassic
  | NegativeAmountError | AllowanceError | BalanceError | BalanceDeauthorizedError
  | OverflowError | TrustlineMissingError

fun contract_error_code :: "ContractError \<Rightarrow> u32" where
  "contract_error_code CE_InternalError = 1"
| "contract_error_code OperationNotSupportedError = 2"
| "contract_error_code AlreadyInitializedError = 3"
| "contract_error_code UnauthorizedError = 4"
| "contract_error_code AuthenticationError = 5"
| "contract_error_code AccountMissingError = 6"
| "contract_error_code AccountIsNotClassic = 7"
| "contract_error_code NegativeAmountError = 8"
| "contract_error_code AllowanceError = 9"
| "contract_error_code BalanceError = 10"
| "contract_error_code BalanceDeauthorizedError = 11"
| "contract_error_code OverflowError = 12"
| "contract_error_code TrustlineMissingError = 13"

definition builtin_err :: "ContractError \<Rightarrow> host_error" where
  "builtin_err e = ContractErr (contract_error_code e)"

section \<open>Addresses, assets and values\<close>

datatype address = Account key32 | Contract hash32

datatype asset =
  Native
| CreditAlphanum4 (code4: bytes) (issuer4: key32)
| CreditAlphanum12 (code12: bytes) (issuer12: key32)

datatype sc_val =
  SVoid | SBool bool | SU32 u32 | SU64 u64 | SI128 i128 | SSymbol string
| SString bytes | SBytes bytes | SAddress address | SVec "sc_val list"

text \<open>Contract code: the three contracts of this repository, other Wasm code by its hash, or
  the built-in asset contract.\<close>

datatype wasm_code = CampaignEscrow | ContributorPool | ReputationAnchor | OtherWasm hash32

datatype executable = Wasm wasm_code | StellarAsset

datatype contract_id_preimage = PreimageAddress address bytes | PreimageAsset asset

fun sc_option_address :: "address option \<Rightarrow> sc_val" where
  "sc_option_address None = SVoid"
| "sc_option_address (Some a) = SAddress a"

text \<open>The order of addresses: accounts before contracts, then by key.\<close>

fun address_rank :: "address \<Rightarrow> nat list" where
  "address_rank (Account k) = [0, k]"
| "address_rank (Contract h) = [1, h]"

lemma address_rank_inject [simp]: "address_rank a = address_rank b \<longleftrightarrow> a = b"
  by (cases a; cases b) auto

instantiation address :: linorder
begin

definition less_eq_address :: "address \<Rightarrow> address \<Rightarrow> bool" where
  "less_eq_address a b \<longleftrightarrow> address_rank a \<le> address_rank b"

definition less_address :: "address \<Rightarrow> address \<Rightarrow> bool" where
  "less_address a b \<longleftrightarrow> address_rank a < address_rank b"

instance
proof
  fix a b c :: address
  show "a < b \<longleftrightarrow> a \<le> b \<and> \<not> b \<le> a"
    by (simp only: less_eq_address_def less_address_def less_le_not_le)
  show "a \<le> a"
    by (simp add: less_eq_address_def)
  show "a \<le> b \<Longrightarrow> b \<le> c \<Longrightarrow> a \<le> c"
    by (auto simp: less_eq_address_def)
  show "a \<le> b \<Longrightarrow> b \<le> a \<Longrightarrow> a = b"
    by (simp add: less_eq_address_def)
  show "a \<le> b \<or> b \<le> a"
    by (auto simp: less_eq_address_def)
qed

end

section \<open>Ledger parameters\<close>

record ledger_info =
  protocol_version :: u32
  sequence_number :: u32
  timestamp :: u64
  network_id :: bytes
  base_reserve :: u32
  min_temp_entry_ttl :: u32
  min_persistent_entry_ttl :: u32
  max_entry_ttl :: u32

datatype durability = Temporary | Persistent

definition min_live_until_ledger_checked :: "ledger_info \<Rightarrow> durability \<Rightarrow> u32 option" where
  "min_live_until_ledger_checked li d =
     (let min_live_until =
        (case d of Temporary \<Rightarrow> min_temp_entry_ttl li | Persistent \<Rightarrow> min_persistent_entry_ttl li)
      in checked_add_u32 (sequence_number li) (saturating_sub_u32 min_live_until 1))"

definition max_live_until_ledger_checked :: "ledger_info \<Rightarrow> u32 option" where
  "max_live_until_ledger_checked li =
     checked_add_u32 (sequence_number li) (saturating_sub_u32 (max_entry_ttl li) 1)"

definition get_min_live_until_ledger :: "ledger_info \<Rightarrow> durability \<Rightarrow> host_error + u32" where
  "get_min_live_until_ledger li d =
     (case min_live_until_ledger_checked li d of
        None \<Rightarrow> Inl (HostErr SCE_Context InternalError) | Some l \<Rightarrow> Inr l)"

definition max_live_until_ledger :: "ledger_info \<Rightarrow> host_error + u32" where
  "max_live_until_ledger li =
     (case max_live_until_ledger_checked li of
        None \<Rightarrow> Inl (HostErr SCE_Context InternalError) | Some l \<Rightarrow> Inr l)"

section \<open>One ledger entry\<close>

text \<open>
  The typed stores of the contracts keep, per key, the value and its \<open>live_until\<close> ledger.
  The functions below are what the host does to the slot of one key: reading checks that
  the entry is live (\<open>check_if_entry_is_live\<close>; on the network a transaction that touches
  an archived entry is not run at all), writing keeps the \<open>live_until\<close> of an existing
  entry, and extending moves it forward.
\<close>

type_synonym 'v entry = "'v \<times> u32"

definition try_get_entry :: "ledger_info \<Rightarrow> durability \<Rightarrow> 'v entry option \<Rightarrow> host_error + 'v entry option" where
  "try_get_entry li d slot =
     (case slot of
        None \<Rightarrow> Inr None
      | Some (v, live_until) \<Rightarrow>
          if sequence_number li \<le> live_until then Inr (Some (v, live_until))
          else (case d of Temporary \<Rightarrow> Inr None
                | Persistent \<Rightarrow> Inl (HostErr SCE_Storage InternalError)))"

definition has_entry :: "ledger_info \<Rightarrow> durability \<Rightarrow> 'v entry option \<Rightarrow> host_error + bool" where
  "has_entry li d slot =
     (case try_get_entry li d slot of Inl e \<Rightarrow> Inl e | Inr r \<Rightarrow> Inr (r \<noteq> None))"

definition get_entry :: "ledger_info \<Rightarrow> durability \<Rightarrow> 'v entry option \<Rightarrow> host_error + 'v" where
  "get_entry li d slot =
     (case try_get_entry li d slot of
        Inl e \<Rightarrow> Inl e
      | Inr None \<Rightarrow> Inl (HostErr SCE_Storage MissingValue)
      | Inr (Some (v, _)) \<Rightarrow> Inr v)"

text \<open>The SDK's \<open>get\<close> is \<open>has_contract_data\<close> followed by \<open>get_contract_data\<close>, as is
  \<open>try_get_contract_data\<close> of the built-in contracts.\<close>

definition lookup_entry :: "ledger_info \<Rightarrow> durability \<Rightarrow> 'v entry option \<Rightarrow> host_error + 'v option" where
  "lookup_entry li d slot =
     (case has_entry li d slot of
        Inl e \<Rightarrow> Inl e
      | Inr False \<Rightarrow> Inr None
      | Inr True \<Rightarrow> (case get_entry li d slot of Inl e \<Rightarrow> Inl e | Inr v \<Rightarrow> Inr (Some v)))"

definition put_entry :: "ledger_info \<Rightarrow> durability \<Rightarrow> 'v entry option \<Rightarrow> 'v \<Rightarrow> host_error + 'v entry" where
  "put_entry li d slot v =
     (case try_get_entry li d slot of
        Inl e \<Rightarrow> Inl e
      | Inr (Some (_, live_until)) \<Rightarrow> Inr (v, live_until)
      | Inr None \<Rightarrow>
          (case get_min_live_until_ledger li d of Inl e \<Rightarrow> Inl e | Inr l \<Rightarrow> Inr (v, l)))"

definition extend_entry ::
  "ledger_info \<Rightarrow> durability \<Rightarrow> u32 \<Rightarrow> u32 \<Rightarrow> 'v entry option \<Rightarrow> host_error + 'v entry" where
  "extend_entry li d threshold extend_to slot =
     (if threshold > extend_to then Inl (HostErr SCE_Storage InvalidInput)
      else case try_get_entry li d slot of
        Inl e \<Rightarrow> Inl e
      | Inr None \<Rightarrow> Inl (HostErr SCE_Storage MissingValue)
      | Inr (Some (v, old_live_until)) \<Rightarrow>
          if old_live_until < sequence_number li then Inl (HostErr SCE_Storage InternalError)
          else case checked_add_u32 (sequence_number li) extend_to of
            None \<Rightarrow> Inl (HostErr SCE_Context InternalError)
          | Some new_live_until \<Rightarrow>
            (case max_live_until_ledger li of
               Inl e \<Rightarrow> Inl e
             | Inr max_live_until \<Rightarrow>
                 if new_live_until > max_live_until \<and> d = Temporary
                 then Inl (HostErr SCE_Storage InvalidAction)
                 else let new_live_until = min new_live_until max_live_until in
                   Inr (if new_live_until > old_live_until
                           \<and> saturating_sub_u32 old_live_until (sequence_number li) \<le> threshold
                        then (v, new_live_until) else (v, old_live_until))))"

subsection \<open>What a successful access says\<close>

lemma min_live_ok:
  "get_min_live_until_ledger li d = Inr l \<Longrightarrow> sequence_number li \<le> l"
  by (auto simp: get_min_live_until_ledger_def min_live_until_ledger_checked_def Let_def
      split: option.splits)

lemma max_live_ok:
  "max_live_until_ledger li = Inr l \<Longrightarrow> l = sequence_number li + (max_entry_ttl li - 1)"
  by (auto simp: max_live_until_ledger_def max_live_until_ledger_checked_def
      saturating_sub_u32_def split: option.splits)

lemma try_get_entry_Some:
  "try_get_entry li d slot = Inr (Some (v, l)) \<longleftrightarrow> slot = Some (v, l) \<and> sequence_number li \<le> l"
  by (auto simp: try_get_entry_def split: option.splits durability.splits if_splits)

lemma try_get_entry_None:
  "try_get_entry li Persistent slot = Inr None \<longleftrightarrow> slot = None"
  by (auto simp: try_get_entry_def split: option.splits if_splits)

lemma has_entry_ok:
  "has_entry li Persistent slot = Inr b \<Longrightarrow> b \<longleftrightarrow> slot \<noteq> None"
  by (cases "try_get_entry li Persistent slot")
    (auto simp: has_entry_def try_get_entry_def split: option.splits if_splits)

lemma lookup_entry_Some:
  "lookup_entry li d slot = Inr (Some v) \<longleftrightarrow> (\<exists>l. slot = Some (v, l) \<and> sequence_number li \<le> l)"
  by (auto simp: lookup_entry_def has_entry_def get_entry_def try_get_entry_def
      split: option.splits durability.splits if_splits bool.splits)

lemma lookup_entry_None:
  "lookup_entry li Persistent slot = Inr None \<longleftrightarrow> slot = None"
  by (auto simp: lookup_entry_def has_entry_def get_entry_def try_get_entry_def
      split: option.splits if_splits bool.splits)

lemma put_entry_ok:
  "put_entry li d slot v = Inr e \<Longrightarrow> fst e = v \<and> sequence_number li \<le> snd e"
  by (auto simp: put_entry_def try_get_entry_def dest: min_live_ok
      split: option.splits sum.splits durability.splits if_splits)

lemma extend_entry_ok:
  assumes "extend_entry li d threshold extend_to slot = Inr e"
  shows "\<exists>l. slot = Some (fst e, l) \<and> l \<le> snd e \<and> sequence_number li \<le> l"
  using assms
  by (auto simp: extend_entry_def try_get_entry_def Let_def
      split: option.splits sum.splits durability.splits if_splits)

text \<open>Extending with \<open>threshold = extend_to\<close>, as all three contracts do, makes the entry
  live for \<open>extend_to\<close> more ledgers, or up to the network's maximum.\<close>

lemma extend_entry_lives:
  assumes "extend_entry li d n n slot = Inr e"
  shows "min (sequence_number li + n) (sequence_number li + (max_entry_ttl li - 1)) \<le> snd e"
proof -
  from assms obtain v l where slot: "slot = Some (v, l)" and live: "sequence_number li \<le> l"
    by (auto simp: extend_entry_def try_get_entry_def split: option.splits durability.splits if_splits)
  from assms slot live obtain m where m: "max_live_until_ledger li = Inr m"
    by (auto simp: extend_entry_def try_get_entry_def split: option.splits sum.splits)
  note meq = max_live_ok [OF m]
  show ?thesis
    using assms slot live m meq
    by (auto simp: extend_entry_def try_get_entry_def Let_def saturating_sub_u32_def
        split: option.splits if_splits)
qed

end
