(* ===== verification/Account_Auth.thy ===== *)
theory Account_Auth
  imports Host_Types
begin

text \<open>
  Classic account entries and their multi-signature authentication:
  \<open>check_account_authentication\<close> of \<open>builtin_contracts/account_contract.rs\<close> and
  \<open>get_signer_weight_from_account\<close> of \<open>host/data_helper.rs\<close>.  Ed25519 verification is a
  parameter \<open>verify\<close>.  The settlement authority of the escrow is such an account with a
  2-of-3 policy; \<open>check_account_authentication_char\<close> states exactly which signature
  lists an account accepts.
\<close>

section \<open>Account entries\<close>

datatype signer_key = SignerEd25519 key32 | SignerOther

datatype account_ext_v1 = ExtV1V0 | ExtV1V2 (num_sponsored: u32) (num_sponsoring: u32)

datatype account_ext =
  AccountExtV0
| AccountExtV1 (liabilities_buying: i64) (liabilities_selling: i64) (ext_v1: account_ext_v1)

record account_entry =
  account_id :: key32
  balance :: i64
  num_sub_entries :: u32
  flags :: "32 word"
  thresholds :: "u8 list"
  signers :: "(signer_key \<times> u32) list"
  ext :: account_ext

type_synonym accounts = "key32 \<rightharpoonup> account_entry"

definition load_account :: "accounts \<Rightarrow> key32 \<Rightarrow> host_error + account_entry" where
  "load_account accs k =
     (case accs k of None \<Rightarrow> Inl (HostErr SCE_Storage MissingValue) | Some ae \<Rightarrow> Inr ae)"

section \<open>Signer weights\<close>

fun search_signers :: "key32 \<Rightarrow> (signer_key \<times> u32) list \<Rightarrow> u8" where
  "search_signers target [] = 0"
| "search_signers target ((SignerEd25519 k, w) # rest) =
     (if target = k then min w 255 else search_signers target rest)"
| "search_signers target ((SignerOther, w) # rest) = search_signers target rest"

definition get_signer_weight_from_account :: "key32 \<Rightarrow> account_entry \<Rightarrow> host_error + u8" where
  "get_signer_weight_from_account target account =
     (if account_id account = target then
        (case thresholds account of
           [] \<Rightarrow> Inl (HostErr SCE_Value InternalError)
         | master # _ \<Rightarrow> Inr master)
      else Inr (search_signers target (signers account)))"

lemma search_signers_bound: "search_signers k ss \<le> 255"
  by (induction k ss rule: search_signers.induct) auto

section \<open>Multi-signature authentication\<close>

definition MAX_ACCOUNT_SIGNATURES :: u32 where
  "MAX_ACCOUNT_SIGNATURES = 20"

type_synonym account_signature = "key32 \<times> bytes"

fun check_signatures ::
  "(key32 \<Rightarrow> hash32 \<Rightarrow> bytes \<Rightarrow> bool) \<Rightarrow> account_entry \<Rightarrow> hash32 \<Rightarrow> key32 option \<Rightarrow> u32
   \<Rightarrow> account_signature list \<Rightarrow> host_error + u32" where
  "check_signatures verify account payload prev_pk weight [] = Inr weight"
| "check_signatures verify account payload prev_pk weight ((pk, signature) # sigs) =
     (if (case prev_pk of None \<Rightarrow> False | Some prev \<Rightarrow> \<not> prev < pk)
      then Inl (builtin_err AuthenticationError)
      else if \<not> verify pk payload signature then Inl (HostErr SCE_Crypto InvalidInput)
      else case get_signer_weight_from_account pk account of
        Inl e \<Rightarrow> Inl e
      | Inr signer_weight \<Rightarrow>
          if signer_weight = 0 then Inl (builtin_err AuthenticationError)
          else check_signatures verify account payload (Some pk)
                 (saturating_add_u32 weight signer_weight) sigs)"

definition check_account_authentication ::
  "(key32 \<Rightarrow> hash32 \<Rightarrow> bytes \<Rightarrow> bool) \<Rightarrow> accounts \<Rightarrow> key32 \<Rightarrow> hash32 \<Rightarrow> account_signature list
   \<Rightarrow> host_error + unit" where
  "check_account_authentication verify accs acc_id payload signatures =
     (if length signatures > MAX_ACCOUNT_SIGNATURES then Inl (builtin_err AuthenticationError)
      else if length signatures = 0 then Inl (builtin_err AuthenticationError)
      else case load_account accs acc_id of
        Inl e \<Rightarrow> Inl e
      | Inr account \<Rightarrow>
          (case check_signatures verify account payload None 0 signatures of
             Inl e \<Rightarrow> Inl e
           | Inr weight \<Rightarrow>
               if length (thresholds account) \<le> 2 then Inl (HostErr SCE_Auth InternalError)
               else if weight < thresholds account ! 2 then Inl (builtin_err AuthenticationError)
               else Inr ()))"

subsection \<open>What an accepted signature list looks like\<close>

definition signer_weight :: "account_entry \<Rightarrow> key32 \<Rightarrow> u8" where
  "signer_weight account k =
     (case get_signer_weight_from_account k account of Inl _ \<Rightarrow> 0 | Inr w \<Rightarrow> w)"

definition total_weight :: "account_entry \<Rightarrow> account_signature list \<Rightarrow> u32" where
  "total_weight account sigs = sum_list (map (\<lambda>s. signer_weight account (fst s)) sigs)"

text \<open>Weights are bytes on the ledger, so twenty of them cannot saturate the \<open>u32\<close> sum.\<close>

definition byte_thresholds :: "account_entry \<Rightarrow> bool" where
  "byte_thresholds account \<longleftrightarrow> (\<forall>t\<in>set (thresholds account). t \<le> 255)"

lemma signer_weight_bound: "byte_thresholds account \<Longrightarrow> signer_weight account k \<le> 255"
  by (auto simp: signer_weight_def get_signer_weight_from_account_def byte_thresholds_def
      search_signers_bound split: list.splits)

definition increasing_after :: "key32 option \<Rightarrow> account_signature list \<Rightarrow> bool" where
  "increasing_after prev sigs \<longleftrightarrow>
     sorted_wrt (<) ((case prev of None \<Rightarrow> [] | Some p \<Rightarrow> [p]) @ map fst sigs)"

lemma increasing_after_Cons:
  "increasing_after prev (s # sigs) \<longleftrightarrow>
     (case prev of None \<Rightarrow> True | Some p \<Rightarrow> p < fst s) \<and> increasing_after (Some (fst s)) sigs"
  by (auto simp: increasing_after_def split: option.splits)

lemma check_signatures_iff:
  assumes "byte_thresholds account" and "weight + 255 * length sigs \<le> U32_MAX"
  shows "check_signatures verify account payload prev weight sigs = Inr w \<longleftrightarrow>
    increasing_after prev sigs
    \<and> (\<forall>s\<in>set sigs. verify (fst s) payload (snd s) \<and> 0 < signer_weight account (fst s))
    \<and> w = weight + total_weight account sigs"
  using assms(2)
proof (induction sigs arbitrary: prev weight)
  case Nil
  then show ?case
    by (auto simp: increasing_after_def total_weight_def split: option.splits)
next
  case (Cons s sigs)
  obtain pk sg where s: "s = (pk, sg)"
    by (cases s)
  have bound: "weight + signer_weight account pk + 255 * length sigs \<le> U32_MAX"
    using Cons.prems signer_weight_bound [OF assms(1), of pk] by simp
  then have sat: "saturating_add_u32 weight (signer_weight account pk) = weight + signer_weight account pk"
    by (simp add: saturating_add_u32_def)
  have weight: "get_signer_weight_from_account pk account = Inr (signer_weight account pk)"
    if "0 < signer_weight account pk"
    using that by (simp add: signer_weight_def split: sum.splits)
  show ?case
  proof (cases "0 < signer_weight account pk")
    case True
    with weight sat Cons.IH [OF bound, of "Some pk"] show ?thesis
      by (auto simp: s increasing_after_Cons total_weight_def split: option.splits)
  next
    case False
    then show ?thesis
      by (auto simp: s signer_weight_def split: sum.splits)
  qed
qed

lemma check_account_authentication_char:
  assumes "accs acc_id = Some account" and "byte_thresholds account" and "length (thresholds account) = 4"
  shows "check_account_authentication verify accs acc_id payload sigs = Inr () \<longleftrightarrow>
    0 < length sigs \<and> length sigs \<le> 20 \<and> sorted_wrt (<) (map fst sigs)
    \<and> (\<forall>s\<in>set sigs. verify (fst s) payload (snd s) \<and> 0 < signer_weight account (fst s))
    \<and> thresholds account ! 2 \<le> total_weight account sigs"
proof (cases "length sigs \<le> 20")
  case True
  then have bound: "0 + 255 * length sigs \<le> U32_MAX"
    by (simp add: U32_MAX_def)
  note iff = check_signatures_iff [OF assms(2) bound, of verify payload None]
  show ?thesis
  proof (cases "check_signatures verify account payload None 0 sigs")
    case (Inl e)
    with iff have "\<not> (increasing_after None sigs
        \<and> (\<forall>s\<in>set sigs. verify (fst s) payload (snd s) \<and> 0 < signer_weight account (fst s)))"
      by auto
    with Inl True assms(1) show ?thesis
      by (auto simp: check_account_authentication_def load_account_def MAX_ACCOUNT_SIGNATURES_def
          increasing_after_def)
  next
    case (Inr w)
    with iff have "increasing_after None sigs"
      and "\<forall>s\<in>set sigs. verify (fst s) payload (snd s) \<and> 0 < signer_weight account (fst s)"
      and "w = total_weight account sigs"
      by auto
    with Inr True assms show ?thesis
      by (auto simp: check_account_authentication_def load_account_def MAX_ACCOUNT_SIGNATURES_def
          increasing_after_def)
  qed
next
  case False
  then show ?thesis
    by (simp add: check_account_authentication_def MAX_ACCOUNT_SIGNATURES_def)
qed

subsection \<open>The 2-of-3 policy\<close>

text \<open>An account with three member keys of weight one, a disabled master key and a medium
  threshold of two, as the settlement role is configured.\<close>

definition two_of_three :: "account_entry \<Rightarrow> key32 \<Rightarrow> key32 \<Rightarrow> key32 \<Rightarrow> bool" where
  "two_of_three account a b c \<longleftrightarrow>
     thresholds account = [0, 2, 2, 2]
     \<and> signers account = [(SignerEd25519 a, 1), (SignerEd25519 b, 1), (SignerEd25519 c, 1)]
     \<and> distinct [account_id account, a, b, c]"

lemma two_of_three_weight:
  "two_of_three account a b c \<Longrightarrow> signer_weight account k = (if k \<in> {a, b, c} then 1 else 0)"
  by (auto simp: two_of_three_def signer_weight_def get_signer_weight_from_account_def)

lemma two_of_three_bytes:
  "two_of_three account a b c \<Longrightarrow> byte_thresholds account \<and> length (thresholds account) = 4"
  by (simp add: two_of_three_def byte_thresholds_def)

lemma sum_list_ones: "\<forall>x\<in>set xs. f x = (1::nat) \<Longrightarrow> sum_list (map f xs) = length xs"
  by (induction xs) auto

lemma two_of_three_accepts_iff:
  assumes policy: "two_of_three account a b c" and acc: "accs acc_id = Some account"
  shows "check_account_authentication verify accs acc_id payload sigs = Inr () \<longleftrightarrow>
    2 \<le> length sigs \<and> sorted_wrt (<) (map fst sigs)
    \<and> (\<forall>s\<in>set sigs. fst s \<in> {a, b, c} \<and> verify (fst s) payload (snd s))"
    (is "?lhs \<longleftrightarrow> ?rhs")
proof -
  note bytes = two_of_three_bytes [OF policy]
  note weight = two_of_three_weight [OF policy]
  have member: "0 < signer_weight account k \<longleftrightarrow> k \<in> {a, b, c}" for k
    using weight by simp
  have threshold: "thresholds account ! 2 = 2"
    using policy by (simp add: two_of_three_def)
  have char: "?lhs \<longleftrightarrow> 0 < length sigs \<and> length sigs \<le> 20 \<and> sorted_wrt (<) (map fst sigs)
    \<and> (\<forall>s\<in>set sigs. verify (fst s) payload (snd s) \<and> fst s \<in> {a, b, c})
    \<and> 2 \<le> total_weight account sigs"
    using check_account_authentication_char [where accs = accs and acc_id = acc_id, OF acc] bytes
    by (simp only: member threshold simp_thms)
  have total: "total_weight account sigs = length sigs" if "\<forall>s\<in>set sigs. fst s \<in> {a, b, c}"
    unfolding total_weight_def using that weight by (intro sum_list_ones) auto
  have few: "length sigs \<le> 3"
    if "sorted_wrt (<) (map fst sigs)" and "\<forall>s\<in>set sigs. fst s \<in> {a, b, c}"
  proof -
    have "distinct (map fst sigs)"
      using that(1) by (simp add: strict_sorted_iff)
    then have "length sigs = card (fst ` set sigs)"
      by (metis distinct_card length_map set_map)
    also have "\<dots> \<le> card {a, b, c}"
      by (rule card_mono) (use that(2) in auto)
    also have "\<dots> \<le> 3"
      by (simp add: card_insert_if)
    finally show ?thesis .
  qed
  show ?thesis
  proof (cases "sorted_wrt (<) (map fst sigs) \<and> (\<forall>s\<in>set sigs. fst s \<in> {a, b, c})")
    case True
    with total few have "total_weight account sigs = length sigs" and "length sigs \<le> 3"
      by blast+
    then show ?thesis
      unfolding char by auto
  next
    case False
    then show ?thesis
      unfolding char by blast
  qed
qed

end
