(* ===== verification/Auth_Manager.thy ===== *)
theory Auth_Manager
  imports Account_Auth
begin

text \<open>
  The authorization framework of the host, \<open>src/soroban-env-host-patch/src/auth.rs\<close>, in its
  enforcing mode (the recording mode exists for simulation and tests only), and the
  conversion of contract-issued authorizations in \<open>builtin_contracts/invoker_contract_auth.rs\<close>.
  Code outside the repository is a parameter, one field of \<open>externals\<close> each: Ed25519
  verification, the hash of the signed payload, the \<open>__check_auth\<close> of custom account
  contracts and the hash that names a contract.
\<close>

section \<open>Code outside the repository\<close>

datatype authorized_function =
  ContractFn address string "sc_val list"
| CreateContractHostFn contract_id_preimage executable

datatype authorized_invocation =
  AuthInv (inv_function: authorized_function) (sub_invocations: "authorized_invocation list")
    (is_exhausted: bool)

datatype signature = AccountSignatures "account_signature list" | OtherSignature sc_val

record externals =
  x_verify_sig :: "key32 \<Rightarrow> hash32 \<Rightarrow> bytes \<Rightarrow> bool"
  x_payload_hash :: "bytes \<Rightarrow> i64 \<Rightarrow> u32 \<Rightarrow> authorized_invocation \<Rightarrow> hash32"
  x_check_auth :: "hash32 \<Rightarrow> hash32 \<Rightarrow> signature \<Rightarrow> authorized_function list \<Rightarrow> bool"
  x_contract_id :: "contract_id_preimage \<Rightarrow> hash32"
  x_strkey :: "key32 \<Rightarrow> bytes"

section \<open>Matching calls against an authorized tree\<close>

datatype match_state = Unmatched | RootMatch | SubMatch nat

fun is_matched :: "match_state \<Rightarrow> bool" where
  "is_matched Unmatched = False"
| "is_matched RootMatch = True"
| "is_matched (SubMatch _) = True"

record invocation_tracker =
  root_authorized_invocation :: authorized_invocation
  match_stack :: "match_state list"
  root_exhausted_frame :: "nat option"
  is_fully_processed :: bool

definition new_invocation_tracker :: "authorized_invocation \<Rightarrow> invocation_tracker" where
  "new_invocation_tracker root =
     \<lparr>root_authorized_invocation = root, match_stack = [], root_exhausted_frame = None,
      is_fully_processed = False\<rparr>"

text \<open>The node a mutable reference of the code points at is a path of child positions.\<close>

fun node_at :: "nat list \<Rightarrow> authorized_invocation \<Rightarrow> authorized_invocation option" where
  "node_at [] t = Some t"
| "node_at (i # p) (AuthInv f ss e) = (if i < length ss then node_at p (ss ! i) else None)"

fun exhaust_at :: "nat list \<Rightarrow> authorized_invocation \<Rightarrow> authorized_invocation" where
  "exhaust_at [] (AuthInv f ss e) = AuthInv f ss True"
| "exhaust_at (i # p) (AuthInv f ss e) =
     (if i < length ss then AuthInv f (ss[i := exhaust_at p (ss ! i)]) e else AuthInv f ss e)"

fun last_authorized_in_tree :: "match_state list \<Rightarrow> authorized_invocation \<Rightarrow> host_error + nat list" where
  "last_authorized_in_tree [] t = Inr []"
| "last_authorized_in_tree (Unmatched # ms) t = last_authorized_in_tree ms t"
| "last_authorized_in_tree (RootMatch # ms) t = Inl (HostErr SCE_Auth InternalError)"
| "last_authorized_in_tree (SubMatch i # ms) t =
     (if i < length (sub_invocations t) then
        (case last_authorized_in_tree ms (sub_invocations t ! i) of
           Inl e \<Rightarrow> Inl e | Inr p \<Rightarrow> Inr (i # p))
      else Inl (HostErr SCE_Auth InternalError))"

fun last_authorized_path :: "match_state list \<Rightarrow> authorized_invocation \<Rightarrow> host_error + nat list option" where
  "last_authorized_path [] t = Inr None"
| "last_authorized_path (Unmatched # ms) t = last_authorized_path ms t"
| "last_authorized_path (RootMatch # ms) t =
     (case last_authorized_in_tree ms t of Inl e \<Rightarrow> Inl e | Inr p \<Rightarrow> Inr (Some p))"
| "last_authorized_path (SubMatch i # ms) t = Inl (HostErr SCE_Auth InternalError)"

definition tracker_push_frame :: "invocation_tracker \<Rightarrow> invocation_tracker" where
  "tracker_push_frame t = t\<lparr>match_stack := match_stack t @ [Unmatched]\<rparr>"

definition tracker_pop_frame :: "invocation_tracker \<Rightarrow> invocation_tracker" where
  "tracker_pop_frame t =
     (let ms = butlast (match_stack t) in
      t\<lparr>match_stack := ms,
        is_fully_processed :=
          (case root_exhausted_frame t of
             None \<Rightarrow> is_fully_processed t
           | Some r \<Rightarrow> (if r \<ge> length ms then True else is_fully_processed t))\<rparr>)"

definition tracker_is_active :: "invocation_tracker \<Rightarrow> bool" where
  "tracker_is_active t \<longleftrightarrow> is_exhausted (root_authorized_invocation t) \<and> \<not> is_fully_processed t"

definition current_frame_is_already_matched :: "invocation_tracker \<Rightarrow> bool" where
  "current_frame_is_already_matched t \<longleftrightarrow> match_stack t \<noteq> [] \<and> is_matched (last (match_stack t))"

fun find_unexhausted :: "authorized_function \<Rightarrow> authorized_invocation list \<Rightarrow> nat option" where
  "find_unexhausted f [] = None"
| "find_unexhausted f (s # ss) =
     (if \<not> is_exhausted s \<and> inv_function s = f then Some 0
      else map_option Suc (find_unexhausted f ss))"

definition set_last :: "match_state \<Rightarrow> match_state list \<Rightarrow> match_state list" where
  "set_last m ms = butlast ms @ [m]"

definition maybe_extend_invocation_match ::
  "invocation_tracker \<Rightarrow> authorized_function \<Rightarrow> bool \<Rightarrow> host_error + (bool \<times> invocation_tracker)" where
  "maybe_extend_invocation_match t f allow_matching_root =
     (if current_frame_is_already_matched t then Inr (False, t)
      else case last_authorized_path (match_stack t) (root_authorized_invocation t) of
        Inl e \<Rightarrow> Inl e
      | Inr (Some p) \<Rightarrow>
          (case node_at p (root_authorized_invocation t) of
             None \<Rightarrow> Inl (HostErr SCE_Auth InternalError)
           | Some cur \<Rightarrow>
               (case find_unexhausted f (sub_invocations cur) of
                  None \<Rightarrow> Inr (False, t)
                | Some i \<Rightarrow>
                    if match_stack t = [] then Inl (HostErr SCE_Auth InternalError)
                    else Inr (True, t\<lparr>root_authorized_invocation :=
                                        exhaust_at (p @ [i]) (root_authorized_invocation t),
                                      match_stack := set_last (SubMatch i) (match_stack t)\<rparr>)))
      | Inr None \<Rightarrow>
          if \<not> is_exhausted (root_authorized_invocation t) \<and> allow_matching_root
             \<and> inv_function (root_authorized_invocation t) = f
          then (if match_stack t = [] then Inl wasm_trap
                else Inr (True, t\<lparr>root_authorized_invocation :=
                                    exhaust_at [] (root_authorized_invocation t),
                                  match_stack := set_last RootMatch (match_stack t),
                                  root_exhausted_frame := Some (length (match_stack t) - 1)\<rparr>))
          else Inr (False, t))"

subsection \<open>Snapshots\<close>

datatype invocation_snapshot = InvSnapshot bool "invocation_snapshot list"

fun inv_snapshot :: "authorized_invocation \<Rightarrow> invocation_snapshot" where
  "inv_snapshot (AuthInv f ss e) = InvSnapshot e (map inv_snapshot ss)"

fun inv_rollback :: "authorized_invocation \<Rightarrow> invocation_snapshot \<Rightarrow> host_error + authorized_invocation"
  and inv_rollbacks :: "authorized_invocation list \<Rightarrow> invocation_snapshot list
    \<Rightarrow> host_error + authorized_invocation list" where
  "inv_rollback (AuthInv f ss e) (InvSnapshot e' snaps) =
     (if length ss \<noteq> length snaps then Inl (HostErr SCE_Auth InternalError)
      else case inv_rollbacks ss snaps of Inl err \<Rightarrow> Inl err | Inr ss' \<Rightarrow> Inr (AuthInv f ss' e'))"
| "inv_rollbacks (s # ss) (n # ns) =
     (case inv_rollback s n of
        Inl err \<Rightarrow> Inl err
      | Inr s' \<Rightarrow> (case inv_rollbacks ss ns of Inl err \<Rightarrow> Inl err | Inr ss' \<Rightarrow> Inr (s' # ss')))"
| "inv_rollbacks _ _ = Inr []"

definition tracker_rollback :: "invocation_tracker \<Rightarrow> invocation_snapshot \<Rightarrow> host_error + invocation_tracker" where
  "tracker_rollback t snap =
     (case inv_rollback (root_authorized_invocation t) snap of
        Inl e \<Rightarrow> Inl e
      | Inr restored \<Rightarrow>
          Inr (if is_exhausted restored then t\<lparr>root_authorized_invocation := restored\<rparr>
               else t\<lparr>root_authorized_invocation := restored, root_exhausted_frame := None,
                      is_fully_processed := False\<rparr>))"

section \<open>Trackers of addresses\<close>

record account_tracker =
  at_address :: address
  at_tracker :: invocation_tracker
  at_signature :: signature
  at_is_transaction_source_account :: bool
  at_verified :: bool
  at_nonce :: "(i64 \<times> u32) option"

record invoker_tracker =
  it_contract_address :: address
  it_tracker :: invocation_tracker

datatype auth_stack_frame = ContractInvocation address string
  | CreateContractFrame contract_id_preimage executable

fun to_authorized_function :: "auth_stack_frame \<Rightarrow> sc_val list \<Rightarrow> authorized_function" where
  "to_authorized_function (ContractInvocation a fn) args = ContractFn a fn args"
| "to_authorized_function (CreateContractFrame p x) args = CreateContractHostFn p x"

record auth_manager =
  account_trackers :: "account_tracker list"
  invoker_contract_trackers :: "invoker_tracker list"
  call_stack :: "auth_stack_frame list"

type_synonym nonces = "address \<times> i64 \<Rightarrow> unit entry option"

subsection \<open>Authenticating an address\<close>

text \<open>The signed form of a tree has no exhaustion flags.\<close>

fun inv_to_xdr :: "authorized_invocation \<Rightarrow> authorized_invocation" where
  "inv_to_xdr (AuthInv f ss e) = AuthInv f (map inv_to_xdr ss) False"

fun from_authorized_fn :: "authorized_function \<Rightarrow> host_error + authorized_function" where
  "from_authorized_fn (ContractFn c fn args) = Inr (ContractFn c fn args)"
| "from_authorized_fn (CreateContractHostFn preimage x) =
     (case x of
        StellarAsset \<Rightarrow> Inl (HostErr SCE_Auth InvalidInput)
      | Wasm _ \<Rightarrow>
          (case preimage of
             PreimageAddress _ _ \<Rightarrow> Inr (CreateContractHostFn preimage x)
           | PreimageAsset _ \<Rightarrow> Inl (HostErr SCE_Auth InvalidInput)))"

fun invocation_tree_to_auth_contexts :: "authorized_invocation \<Rightarrow> host_error + authorized_function list"
  and invocation_trees_to_auth_contexts ::
    "authorized_invocation list \<Rightarrow> host_error + authorized_function list" where
  "invocation_tree_to_auth_contexts (AuthInv f ss e) =
     (case from_authorized_fn f of
        Inl err \<Rightarrow> Inl err
      | Inr ctx \<Rightarrow> (case invocation_trees_to_auth_contexts ss of
                     Inl err \<Rightarrow> Inl err | Inr ctxs \<Rightarrow> Inr (ctx # ctxs)))"
| "invocation_trees_to_auth_contexts [] = Inr []"
| "invocation_trees_to_auth_contexts (t # ts) =
     (case invocation_tree_to_auth_contexts t of
        Inl err \<Rightarrow> Inl err
      | Inr xs \<Rightarrow> (case invocation_trees_to_auth_contexts ts of
                    Inl err \<Rightarrow> Inl err | Inr ys \<Rightarrow> Inr (xs @ ys)))"

text \<open>The \<open>__check_auth\<close> of a custom account is code of that account.  Its verdict is the parameter
  \<open>x_check_auth\<close>; what else it may do to the host (storage of its own, events, calls, further
  authorizations) is not modelled.\<close>

definition check_account_contract_auth ::
  "externals \<Rightarrow> hash32 \<Rightarrow> hash32 \<Rightarrow> signature \<Rightarrow> authorized_invocation \<Rightarrow> host_error + unit" where
  "check_account_contract_auth X account_contract payload sig root =
     (case invocation_tree_to_auth_contexts root of
        Inl e \<Rightarrow> Inl e
      | Inr contexts \<Rightarrow>
          if x_check_auth X account_contract payload sig contexts then Inr ()
          else Inl (HostErr SCE_Auth InvalidAction))"

definition consume_nonce ::
  "ledger_info \<Rightarrow> address \<Rightarrow> i64 \<Rightarrow> u32 \<Rightarrow> nonces \<Rightarrow> host_error + nonces" where
  "consume_nonce li addr nonce live_until ns =
     (case get_min_live_until_ledger li Temporary of
        Inl e \<Rightarrow> Inl e
      | Inr min_live \<Rightarrow>
          (case has_entry li Temporary (ns (addr, nonce)) of
             Inl e \<Rightarrow> Inl e
           | Inr True \<Rightarrow> Inl (HostErr SCE_Auth ExistingValue)
           | Inr False \<Rightarrow> Inr (ns((addr, nonce) \<mapsto> ((), max live_until min_live)))))"

definition verify_and_consume_nonce ::
  "ledger_info \<Rightarrow> account_tracker \<Rightarrow> nonces \<Rightarrow> host_error + nonces" where
  "verify_and_consume_nonce li t ns =
     (if at_is_transaction_source_account t then Inr ns
      else case at_nonce t of
        None \<Rightarrow> Inl (HostErr SCE_Auth InternalError)
      | Some (nonce, live_until) \<Rightarrow>
          if sequence_number li > live_until then Inl (HostErr SCE_Auth InvalidInput)
          else case max_live_until_ledger li of
            Inl e \<Rightarrow> Inl e
          | Inr max_live \<Rightarrow>
              if live_until > max_live then Inl (HostErr SCE_Auth InvalidInput)
              else consume_nonce li (at_address t) nonce live_until ns)"

definition authenticate ::
  "externals \<Rightarrow> accounts \<Rightarrow> ledger_info \<Rightarrow> account_tracker \<Rightarrow> host_error + unit" where
  "authenticate X accs li t =
     (if at_is_transaction_source_account t then Inr ()
      else case at_nonce t of
        None \<Rightarrow> Inl (HostErr SCE_Auth InternalError)
      | Some (nonce, live_until) \<Rightarrow>
          (let root = root_authorized_invocation (at_tracker t);
               payload = x_payload_hash X (network_id li) nonce live_until (inv_to_xdr root) in
           case at_address t of
             Account acc \<Rightarrow>
               (case at_signature t of
                  AccountSignatures sigs \<Rightarrow>
                    check_account_authentication (x_verify_sig X) accs acc payload sigs
                | OtherSignature _ \<Rightarrow> Inl (HostErr SCE_Value UnexpectedType))
           | Contract c \<Rightarrow> check_account_contract_auth X c payload (at_signature t) root))"

definition is_recoverable :: "host_error \<Rightarrow> bool" where
  "is_recoverable e =
     (case e of
        ContractErr _ \<Rightarrow> True
      | HostErr ty code \<Rightarrow>
          code \<noteq> InternalError \<and> \<not> (code = ExceededLimit \<and> (ty = SCE_Storage \<or> ty = SCE_Budget)))"

definition at_maybe_authorize_invocation ::
  "externals \<Rightarrow> accounts \<Rightarrow> ledger_info \<Rightarrow> account_tracker \<Rightarrow> authorized_function \<Rightarrow> bool \<Rightarrow> nonces
   \<Rightarrow> host_error + (bool \<times> account_tracker \<times> nonces)" where
  "at_maybe_authorize_invocation X accs li t f allow_matching_root ns =
     (case maybe_extend_invocation_match (at_tracker t) f allow_matching_root of
        Inl e \<Rightarrow> Inl e
      | Inr (False, it) \<Rightarrow> Inr (False, t\<lparr>at_tracker := it\<rparr>, ns)
      | Inr (True, it) \<Rightarrow>
          (let t' = t\<lparr>at_tracker := it\<rparr> in
           if at_verified t then Inr (True, t', ns)
           else case authenticate X accs li t' of
             Inl e \<Rightarrow> Inl (if is_recoverable e then HostErr SCE_Auth InvalidAction else e)
           | Inr () \<Rightarrow>
               (case verify_and_consume_nonce li t' ns of
                  Inl e \<Rightarrow> Inl e
                | Inr ns' \<Rightarrow> Inr (True, t'\<lparr>at_verified := True\<rparr>, ns'))))"

section \<open>The authorization manager\<close>

fun scan_invoker_trackers ::
  "address \<Rightarrow> authorized_function \<Rightarrow> invoker_tracker list \<Rightarrow> host_error + (bool \<times> invoker_tracker list)" where
  "scan_invoker_trackers addr f [] = Inr (False, [])"
| "scan_invoker_trackers addr f (t # ts) =
     (case (if it_contract_address t = addr
            then maybe_extend_invocation_match (it_tracker t) f True
            else Inr (False, it_tracker t)) of
        Inl e \<Rightarrow> Inl e
      | Inr (True, it) \<Rightarrow> Inr (True, t\<lparr>it_tracker := it\<rparr> # ts)
      | Inr (False, it) \<Rightarrow>
          (case scan_invoker_trackers addr f ts of
             Inl e \<Rightarrow> Inl e
           | Inr (b, ts') \<Rightarrow> Inr (b, t\<lparr>it_tracker := it\<rparr> # ts')))"

definition direct_invoker :: "auth_manager \<Rightarrow> address option" where
  "direct_invoker m =
     (let cs = call_stack m in
      if length cs < 2 then None
      else case cs ! (length cs - 2) of
        ContractInvocation a _ \<Rightarrow> Some a
      | CreateContractFrame _ _ \<Rightarrow> None)"

definition maybe_check_invoker_contract_auth ::
  "auth_manager \<Rightarrow> address \<Rightarrow> authorized_function \<Rightarrow> host_error + (bool \<times> auth_manager)" where
  "maybe_check_invoker_contract_auth m addr f =
     (if length (call_stack m) < 2 then Inr (False, m)
      else if direct_invoker m = Some addr then Inr (True, m)
      else case scan_invoker_trackers addr f (invoker_contract_trackers m) of
        Inl e \<Rightarrow> Inl e
      | Inr (b, ts) \<Rightarrow> Inr (b, m\<lparr>invoker_contract_trackers := ts\<rparr>))"

fun scan_account_trackers ::
  "externals \<Rightarrow> accounts \<Rightarrow> ledger_info \<Rightarrow> address \<Rightarrow> authorized_function \<Rightarrow> bool
   \<Rightarrow> account_tracker list \<Rightarrow> nonces \<Rightarrow> host_error + (account_tracker list \<times> nonces)" where
  "scan_account_trackers X accs li addr f allow [] ns = Inl (HostErr SCE_Auth InvalidAction)"
| "scan_account_trackers X accs li addr f allow (t # ts) ns =
     (if at_address t \<noteq> addr then
        (case scan_account_trackers X accs li addr f allow ts ns of
           Inl e \<Rightarrow> Inl e | Inr (ts', ns') \<Rightarrow> Inr (t # ts', ns'))
      else case at_maybe_authorize_invocation X accs li t f allow ns of
        Inl e \<Rightarrow> Inl e
      | Inr (True, t', ns') \<Rightarrow> Inr (t' # ts, ns')
      | Inr (False, t', _) \<Rightarrow>
          (case scan_account_trackers X accs li addr f allow ts ns of
             Inl e \<Rightarrow> Inl e | Inr (ts', ns') \<Rightarrow> Inr (t' # ts', ns')))"

definition has_active_tracker :: "auth_manager \<Rightarrow> address \<Rightarrow> bool" where
  "has_active_tracker m addr =
     (\<exists>t\<in>set (account_trackers m). at_address t = addr \<and> tracker_is_active (at_tracker t)
        \<and> \<not> current_frame_is_already_matched (at_tracker t))"

definition require_auth_enforcing ::
  "externals \<Rightarrow> accounts \<Rightarrow> ledger_info \<Rightarrow> address \<Rightarrow> authorized_function \<Rightarrow> auth_manager \<Rightarrow> nonces
   \<Rightarrow> host_error + (auth_manager \<times> nonces)" where
  "require_auth_enforcing X accs li addr f m ns =
     (case scan_account_trackers X accs li addr f (\<not> has_active_tracker m addr)
             (account_trackers m) ns of
        Inl e \<Rightarrow> Inl e
      | Inr (ts, ns') \<Rightarrow> Inr (m\<lparr>account_trackers := ts\<rparr>, ns'))"

definition require_auth_internal ::
  "externals \<Rightarrow> accounts \<Rightarrow> ledger_info \<Rightarrow> address \<Rightarrow> authorized_function \<Rightarrow> auth_manager \<Rightarrow> nonces
   \<Rightarrow> host_error + (auth_manager \<times> nonces)" where
  "require_auth_internal X accs li addr f m ns =
     (case maybe_check_invoker_contract_auth m addr f of
        Inl e \<Rightarrow> Inl e
      | Inr (True, m') \<Rightarrow> Inr (m', ns)
      | Inr (False, m') \<Rightarrow> require_auth_enforcing X accs li addr f m' ns)"

definition am_require_auth ::
  "externals \<Rightarrow> accounts \<Rightarrow> ledger_info \<Rightarrow> address \<Rightarrow> sc_val list \<Rightarrow> auth_manager \<Rightarrow> nonces
   \<Rightarrow> host_error + (auth_manager \<times> nonces)" where
  "am_require_auth X accs li addr args m ns =
     (if call_stack m = [] then Inl (HostErr SCE_Auth InternalError)
      else require_auth_internal X accs li addr
             (to_authorized_function (last (call_stack m)) args) m ns)"

subsection \<open>Frames\<close>

definition am_push_frame :: "auth_stack_frame \<Rightarrow> auth_manager \<Rightarrow> auth_manager" where
  "am_push_frame fr m =
     m\<lparr>call_stack := call_stack m @ [fr],
       account_trackers :=
         map (\<lambda>t. t\<lparr>at_tracker := tracker_push_frame (at_tracker t)\<rparr>) (account_trackers m),
       invoker_contract_trackers :=
         map (\<lambda>t. t\<lparr>it_tracker := tracker_push_frame (it_tracker t)\<rparr>) (invoker_contract_trackers m)\<rparr>"

definition drop_out_of_scope :: "invoker_tracker list \<Rightarrow> invoker_tracker list" where
  "drop_out_of_scope ts = rev (dropWhile (\<lambda>t. match_stack (it_tracker t) = []) (rev ts))"

definition am_pop_frame :: "auth_manager \<Rightarrow> auth_manager" where
  "am_pop_frame m =
     (if call_stack m = [] then m
      else m\<lparr>call_stack := butlast (call_stack m),
             account_trackers :=
               map (\<lambda>t. t\<lparr>at_tracker := tracker_pop_frame (at_tracker t)\<rparr>) (account_trackers m),
             invoker_contract_trackers :=
               drop_out_of_scope
                 (map (\<lambda>t. t\<lparr>it_tracker := tracker_pop_frame (it_tracker t)\<rparr>)
                    (invoker_contract_trackers m))\<rparr>)"

subsection \<open>Authorizations a contract issues for its callees\<close>

datatype invoker_auth_entry =
  EntryContract address string "sc_val list" "invoker_auth_entry list"
| EntryCreateContract executable bytes

fun to_authorized_invocation :: "address \<Rightarrow> invoker_auth_entry \<Rightarrow> host_error + authorized_invocation"
  and to_authorized_invocations ::
    "address \<Rightarrow> invoker_auth_entry list \<Rightarrow> host_error + authorized_invocation list" where
  "to_authorized_invocation invoker (EntryContract c fn args entries) =
     (case to_authorized_invocations invoker entries of
        Inl e \<Rightarrow> Inl e | Inr subs \<Rightarrow> Inr (AuthInv (ContractFn c fn args) subs False))"
| "to_authorized_invocation invoker (EntryCreateContract x salt) =
     (case x of
        StellarAsset \<Rightarrow> Inl (HostErr SCE_Auth InternalError)
      | Wasm w \<Rightarrow> Inr (AuthInv (CreateContractHostFn (PreimageAddress invoker salt) x) [] False))"
| "to_authorized_invocations invoker [] = Inr []"
| "to_authorized_invocations invoker (e # es) =
     (case to_authorized_invocation invoker e of
        Inl err \<Rightarrow> Inl err
      | Inr t \<Rightarrow> (case to_authorized_invocations invoker es of
                   Inl err \<Rightarrow> Inl err | Inr ts \<Rightarrow> Inr (t # ts)))"

definition add_invoker_contract_auth ::
  "address \<Rightarrow> invoker_auth_entry list \<Rightarrow> auth_manager \<Rightarrow> host_error + auth_manager" where
  "add_invoker_contract_auth current entries m =
     (case to_authorized_invocations current entries of
        Inl e \<Rightarrow> Inl e
      | Inr ts \<Rightarrow>
          Inr (m\<lparr>invoker_contract_trackers := invoker_contract_trackers m
                   @ map (\<lambda>t. \<lparr>it_contract_address = current, it_tracker = new_invocation_tracker t\<rparr>) ts\<rparr>))"

datatype credentials = SourceAccount | AddressCredentials address i64 u32 signature

fun from_authorization_entry ::
  "address option \<Rightarrow> credentials \<Rightarrow> authorized_invocation \<Rightarrow> host_error + account_tracker" where
  "from_authorization_entry source SourceAccount root =
     (case source of
        None \<Rightarrow> Inl (HostErr SCE_Auth InternalError)
      | Some a \<Rightarrow> Inr \<lparr>at_address = a, at_tracker = new_invocation_tracker root,
                       at_signature = OtherSignature SVoid,
                       at_is_transaction_source_account = True, at_verified = False,
                       at_nonce = None\<rparr>)"
| "from_authorization_entry source (AddressCredentials a nonce expiration sig) root =
     Inr \<lparr>at_address = a, at_tracker = new_invocation_tracker root, at_signature = sig,
          at_is_transaction_source_account = False, at_verified = False,
          at_nonce = Some (nonce, expiration)\<rparr>"

section \<open>Each authorized node is used once\<close>

fun tree_size :: "authorized_invocation \<Rightarrow> nat" where
  "tree_size (AuthInv f ss e) = Suc (sum_list (map tree_size ss))"

fun exhausted_count :: "authorized_invocation \<Rightarrow> nat" where
  "exhausted_count (AuthInv f ss e) = (if e then 1 else 0) + sum_list (map exhausted_count ss)"

lemma exhausted_count_le_size: "exhausted_count t \<le> tree_size t"
proof (induction t)
  case (AuthInv f ss e)
  then have "sum_list (map exhausted_count ss) \<le> sum_list (map tree_size ss)"
    by (intro sum_list_mono) auto
  then show ?case
    by simp
qed

lemma sum_list_update_nat:
  "i < length xs \<Longrightarrow> sum_list (xs[i := x]) + xs ! i = sum_list xs + (x :: nat)"
  by (induction xs arbitrary: i) (auto split: nat.splits)

lemma exhaust_at_counts:
  "node_at p t = Some s \<Longrightarrow> \<not> is_exhausted s \<Longrightarrow> exhausted_count (exhaust_at p t) = Suc (exhausted_count t)"
proof (induction p t rule: node_at.induct)
  case (1 t)
  then show ?case
    by (cases t) auto
next
  case (2 i p f ss e)
  then have i: "i < length ss" and IH: "exhausted_count (exhaust_at p (ss ! i)) = Suc (exhausted_count (ss ! i))"
    by (auto split: if_splits)
  then show ?case
    using sum_list_update_nat [of i "map exhausted_count ss" "exhausted_count (exhaust_at p (ss ! i))"]
    by (simp add: map_update)
qed

lemma node_at_append: "node_at (p @ q) t = (case node_at p t of None \<Rightarrow> None | Some s \<Rightarrow> node_at q s)"
  by (induction p t rule: node_at.induct) auto

lemma find_unexhausted_Some:
  "find_unexhausted f ss = Some i \<Longrightarrow> i < length ss \<and> \<not> is_exhausted (ss ! i) \<and> inv_function (ss ! i) = f"
  by (induction ss arbitrary: i) (auto split: if_splits)

lemma node_at_child:
  "i < length (sub_invocations s) \<Longrightarrow> node_at [i] s = Some (sub_invocations s ! i)"
  by (cases s) auto

text \<open>A successful match picks a node that carries exactly the called function and was still
  unused, and uses it up.\<close>

lemma extend_match_ok:
  assumes "maybe_extend_invocation_match t f allow = Inr (True, t')"
  shows "\<exists>p s. node_at p (root_authorized_invocation t) = Some s \<and> \<not> is_exhausted s \<and> inv_function s = f
    \<and> root_authorized_invocation t' = exhaust_at p (root_authorized_invocation t)"
proof (cases "last_authorized_path (match_stack t) (root_authorized_invocation t)")
  case (Inl e)
  with assms show ?thesis
    by (simp add: maybe_extend_invocation_match_def split: if_splits)
next
  case (Inr r)
  show ?thesis
  proof (cases r)
    case None
    with assms Inr show ?thesis
      by (intro exI [of _ "[]"] exI [of _ "root_authorized_invocation t"])
        (auto simp: maybe_extend_invocation_match_def split: if_splits)
  next
    case (Some p)
    with assms Inr obtain s i where s: "node_at p (root_authorized_invocation t) = Some s"
      and i: "find_unexhausted f (sub_invocations s) = Some i"
      and root: "root_authorized_invocation t' = exhaust_at (p @ [i]) (root_authorized_invocation t)"
      by (auto simp: maybe_extend_invocation_match_def split: if_splits option.splits)
    have "node_at (p @ [i]) (root_authorized_invocation t) = Some (sub_invocations s ! i)"
      using s find_unexhausted_Some [OF i] by (simp add: node_at_append node_at_child del: node_at.simps)
    with root find_unexhausted_Some [OF i] show ?thesis
      by blast
  qed
qed

lemma extend_match_count:
  assumes "maybe_extend_invocation_match t f allow = Inr (True, t')"
  shows "exhausted_count (root_authorized_invocation t') = Suc (exhausted_count (root_authorized_invocation t))"
  using extend_match_ok [OF assms] by (auto simp: exhaust_at_counts)

lemma extend_match_no:
  "maybe_extend_invocation_match t f allow = Inr (False, t') \<Longrightarrow> t' = t"
  by (auto simp: maybe_extend_invocation_match_def split: if_splits sum.splits option.splits)

section \<open>Rolling back\<close>

text \<open>Trees of the same shape differ in their exhaustion flags only.\<close>

fun same_shape :: "authorized_invocation \<Rightarrow> authorized_invocation \<Rightarrow> bool" where
  "same_shape (AuthInv f ss e) (AuthInv g ts d) \<longleftrightarrow> f = g \<and> list_all2 same_shape ss ts"

lemma same_shape_refl: "same_shape t t"
proof (induction t)
  case (AuthInv f ss e)
  then show ?case
    by (simp add: list_all2_same)
qed

lemma exhaust_at_shape: "same_shape (exhaust_at p t) t"
proof (induction p t rule: exhaust_at.induct)
  case (1 f ss e)
  then show ?case
    using same_shape_refl [of "AuthInv f ss e"] by simp
next
  case (2 i p f ss e)
  then show ?case
    using same_shape_refl [of "AuthInv f ss e"]
    by (auto simp: list_all2_conv_all_nth nth_list_update same_shape_refl)
qed

lemma inv_rollbacks_snapshot:
  assumes "list_all2 same_shape ss ts"
    and "\<And>s t. t \<in> set ts \<Longrightarrow> same_shape s t \<Longrightarrow> inv_rollback s (inv_snapshot t) = Inr t"
  shows "inv_rollbacks ss (map inv_snapshot ts) = Inr ts"
  using assms by (induction rule: list_all2_induct) auto

lemma inv_rollback_snapshot: "same_shape s t \<Longrightarrow> inv_rollback s (inv_snapshot t) = Inr t"
proof (induction t arbitrary: s)
  case (AuthInv f ts e)
  obtain ss d where s: "s = AuthInv f ss d" and shape: "list_all2 same_shape ss ts"
    using AuthInv.prems by (cases s) auto
  have "inv_rollbacks ss (map inv_snapshot ts) = Inr ts"
    using shape AuthInv.IH by (rule inv_rollbacks_snapshot)
  then show ?case
    using list_all2_lengthD [OF shape] by (simp add: s)
qed

text \<open>The signed form does not depend on what has been used, so neither does authentication.\<close>

lemma inv_to_xdr_shape: "same_shape s t \<Longrightarrow> inv_to_xdr s = inv_to_xdr t"
proof (induction t arbitrary: s)
  case (AuthInv f ts e)
  obtain ss d where s: "s = AuthInv f ss d" and shape: "list_all2 same_shape ss ts"
    using AuthInv.prems by (cases s) auto
  have "map inv_to_xdr ss = map inv_to_xdr ts"
    using shape AuthInv.IH by (induction rule: list_all2_induct) auto
  then show ?case
    by (simp add: s)
qed

lemma auth_contexts_map:
  "map invocation_tree_to_auth_contexts ss = map invocation_tree_to_auth_contexts ts \<Longrightarrow>
     invocation_trees_to_auth_contexts ss = invocation_trees_to_auth_contexts ts"
proof (induction ss arbitrary: ts)
  case (Cons s ss)
  then show ?case
    by (cases ts) (auto split: sum.splits)
qed simp

lemma auth_contexts_shape:
  "same_shape s t \<Longrightarrow> invocation_tree_to_auth_contexts s = invocation_tree_to_auth_contexts t"
proof (induction t arbitrary: s)
  case (AuthInv f ts e)
  obtain ss d where s: "s = AuthInv f ss d" and shape: "list_all2 same_shape ss ts"
    using AuthInv.prems by (cases s) auto
  have "map invocation_tree_to_auth_contexts ss = map invocation_tree_to_auth_contexts ts"
    using shape AuthInv.IH by (induction rule: list_all2_induct) auto
  then have "invocation_trees_to_auth_contexts ss = invocation_trees_to_auth_contexts ts"
    by (rule auth_contexts_map)
  then show ?case
    by (simp add: s split: sum.split)
qed

lemma authenticate_shape:
  assumes "same_shape (root_authorized_invocation it) (root_authorized_invocation (at_tracker t))"
  shows "authenticate X accs li (t\<lparr>at_tracker := it\<rparr>) = authenticate X accs li t"
  using inv_to_xdr_shape [OF assms] auth_contexts_shape [OF assms]
  by (auto simp: authenticate_def check_account_contract_auth_def Let_def
      split: option.splits address.splits signature.splits)

section \<open>What a granted authorization rests on\<close>

definition offers :: "invocation_tracker \<Rightarrow> authorized_function \<Rightarrow> bool" where
  "offers t f \<longleftrightarrow> (\<exists>p s. node_at p (root_authorized_invocation t) = Some s
     \<and> \<not> is_exhausted s \<and> inv_function s = f)"

text \<open>
  Three ways to authorize a call \<open>f\<close> on behalf of an address: being the contract that made
  the call, an unused authorization this contract issued higher up the stack, or an unused
  node of a tree the address signed.
\<close>

inductive authorized ::
  "externals \<Rightarrow> accounts \<Rightarrow> ledger_info \<Rightarrow> address \<Rightarrow> authorized_function \<Rightarrow> auth_manager \<Rightarrow> bool"
  for X accs li addr f m where
  by_invoker: "direct_invoker m = Some addr \<Longrightarrow> authorized X accs li addr f m"
| by_contract: "t \<in> set (invoker_contract_trackers m) \<Longrightarrow> it_contract_address t = addr \<Longrightarrow>
    offers (it_tracker t) f \<Longrightarrow> authorized X accs li addr f m"
| by_signature: "t \<in> set (account_trackers m) \<Longrightarrow> at_address t = addr \<Longrightarrow>
    offers (at_tracker t) f \<Longrightarrow> at_verified t \<or> authenticate X accs li t = Inr () \<Longrightarrow>
    authorized X accs li addr f m"

lemma scan_invoker_offers:
  "scan_invoker_trackers addr f ts = Inr (True, ts') \<Longrightarrow>
     \<exists>t\<in>set ts. it_contract_address t = addr \<and> offers (it_tracker t) f"
proof (induction ts arbitrary: ts')
  case (Cons t ts)
  show ?case
  proof (cases "\<exists>it. it_contract_address t = addr
      \<and> maybe_extend_invocation_match (it_tracker t) f True = Inr (True, it)")
    case True
    then show ?thesis
      using extend_match_ok by (fastforce simp: offers_def)
  next
    case False
    with Cons.prems obtain ts'' where "scan_invoker_trackers addr f ts = Inr (True, ts'')"
      by (auto split: if_splits sum.splits bool.splits prod.splits)
    with Cons.IH show ?thesis
      by fastforce
  qed
qed simp

lemma at_authorize_offers:
  assumes "at_maybe_authorize_invocation X accs li t f allow ns = Inr (True, t', ns')"
  shows "offers (at_tracker t) f \<and> (at_verified t \<or> authenticate X accs li t = Inr ())"
proof -
  obtain it where it: "maybe_extend_invocation_match (at_tracker t) f allow = Inr (True, it)"
    using assms
    by (auto simp: at_maybe_authorize_invocation_def split: sum.splits bool.splits prod.splits)
  then obtain p s where p: "node_at p (root_authorized_invocation (at_tracker t)) = Some s"
    "\<not> is_exhausted s" "inv_function s = f"
    and root: "root_authorized_invocation it = exhaust_at p (root_authorized_invocation (at_tracker t))"
    using extend_match_ok by blast
  have "authenticate X accs li (t\<lparr>at_tracker := it\<rparr>) = authenticate X accs li t"
    by (rule authenticate_shape) (simp add: root exhaust_at_shape)
  with assms it p show ?thesis
    by (auto simp: at_maybe_authorize_invocation_def offers_def Let_def
        split: sum.splits if_splits unit.splits)
qed

lemma scan_account_offers:
  "scan_account_trackers X accs li addr f allow ts ns = Inr r \<Longrightarrow>
     \<exists>t\<in>set ts. at_address t = addr \<and> offers (at_tracker t) f
       \<and> (at_verified t \<or> authenticate X accs li t = Inr ())"
proof (induction ts arbitrary: r)
  case (Cons t ts)
  show ?case
  proof (cases "\<exists>t' ns'. at_address t = addr
      \<and> at_maybe_authorize_invocation X accs li t f allow ns = Inr (True, t', ns')")
    case True
    then show ?thesis
      using at_authorize_offers by fastforce
  next
    case False
    with Cons.prems obtain r' where "scan_account_trackers X accs li addr f allow ts ns = Inr r'"
      by (auto split: if_splits sum.splits bool.splits prod.splits)
    with Cons.IH show ?thesis
      by fastforce
  qed
qed simp

lemma require_auth_internal_authorized:
  assumes "require_auth_internal X accs li addr f m ns = Inr (m', ns')"
  shows "authorized X accs li addr f m"
proof (cases "maybe_check_invoker_contract_auth m addr f")
  case (Inl e)
  with assms show ?thesis
    by (simp add: require_auth_internal_def)
next
  case (Inr r)
  obtain b m1 where r: "r = (b, m1)"
    by (cases r)
  show ?thesis
  proof (cases b)
    case True
    with Inr r show ?thesis
      using scan_invoker_offers [of addr f "invoker_contract_trackers m"]
      by (auto simp: maybe_check_invoker_contract_auth_def intro: authorized.intros
          split: if_splits sum.splits prod.splits)
  next
    case False
    with Inr r assms have enf: "require_auth_enforcing X accs li addr f m1 ns = Inr (m', ns')"
      by (simp add: require_auth_internal_def)
    have same: "account_trackers m1 = account_trackers m"
      using Inr r by (auto simp: maybe_check_invoker_contract_auth_def split: if_splits sum.splits prod.splits)
    from enf obtain q where
      "scan_account_trackers X accs li addr f (\<not> has_active_tracker m1 addr) (account_trackers m1) ns = Inr q"
      by (auto simp: require_auth_enforcing_def split: sum.splits prod.splits)
    then show ?thesis
      using scan_account_offers same by (metis authorized.by_signature)
  qed
qed

lemma node_at_exhaust:
  "node_at p (exhaust_at q t) = Some s \<Longrightarrow> \<not> is_exhausted s \<Longrightarrow>
     \<exists>s'. node_at p t = Some s' \<and> \<not> is_exhausted s' \<and> inv_function s' = inv_function s"
proof (induction q t arbitrary: p rule: exhaust_at.induct)
  case (1 f ss e)
  then show ?case by (cases p) auto
next
  case (2 i q f ss e)
  show ?case
  proof (cases p)
    case Nil
    then show ?thesis using "2.prems" by (auto split: if_splits)
  next
    case (Cons j p')
    then show ?thesis
      using "2.prems" "2.IH" [of p'] by (cases "i < length ss"; cases "i = j") (auto split: if_splits)
  qed
qed

lemma extend_match_offers:
  assumes "maybe_extend_invocation_match t g allow = Inr (b, t')" and "offers t' f"
  shows "offers t f"
proof (cases b)
  case True
  then obtain q where "root_authorized_invocation t' = exhaust_at q (root_authorized_invocation t)"
    using extend_match_ok [of t g allow t'] assms(1) by auto
  then show ?thesis
    using assms(2) node_at_exhaust [of _ q "root_authorized_invocation t"] by (fastforce simp: offers_def)
next
  case False
  then show ?thesis
    using extend_match_no [of t g allow t'] assms by simp
qed

lemma scan_invoker_backwards:
  "scan_invoker_trackers addr g ts = Inr (b, ts') \<Longrightarrow> t' \<in> set ts' \<Longrightarrow> offers (it_tracker t') f \<Longrightarrow>
     \<exists>t\<in>set ts. it_contract_address t = it_contract_address t' \<and> offers (it_tracker t) f"
proof (induction addr g ts arbitrary: b ts' rule: scan_invoker_trackers.induct)
  case (2 addr g t ts)
  from "2.prems"(1) obtain b1 it where m: "(if it_contract_address t = addr
      then maybe_extend_invocation_match (it_tracker t) g True else Inr (False, it_tracker t)) = Inr (b1, it)"
    by (auto split: sum.splits)
  have o: "offers it f \<Longrightarrow> offers (it_tracker t) f"
    using m extend_match_offers by (auto split: if_splits)
  show ?case
  proof (cases b1)
    case True
    then show ?thesis
      using "2.prems" m o by auto
  next
    case False
    then obtain ts1 where s: "scan_invoker_trackers addr g ts = Inr (b, ts1)" and "ts' = t\<lparr>it_tracker := it\<rparr> # ts1"
      using "2.prems"(1) m by (auto split: sum.splits)
    then show ?thesis
      using "2.prems" "2.IH" [OF m, of False it b ts1] False o by fastforce
  qed
qed auto

lemma at_authorize_backwards:
  assumes "at_maybe_authorize_invocation X accs li t g allow ns = Inr (b, t', ns')"
    and "offers (at_tracker t') f" and "at_verified t' \<or> authenticate X accs li t' = Inr ()"
  shows "at_address t' = at_address t \<and> offers (at_tracker t) f \<and> (at_verified t \<or> authenticate X accs li t = Inr ())"
proof -
  from assms(1) obtain b1 it where m: "maybe_extend_invocation_match (at_tracker t) g allow = Inr (b1, it)"
    and t': "t' = t\<lparr>at_tracker := it\<rparr> \<or> t' = t\<lparr>at_tracker := it, at_verified := True\<rparr> \<and> authenticate X accs li (t\<lparr>at_tracker := it\<rparr>) = Inr ()"
    by (auto simp: at_maybe_authorize_invocation_def Let_def split: sum.splits if_splits bool.splits unit.splits)
  have "same_shape (root_authorized_invocation it) (root_authorized_invocation (at_tracker t))"
    using m extend_match_ok extend_match_no exhaust_at_shape same_shape_refl by (cases b1) metis+
  then show ?thesis
    using assms(2,3) t' extend_match_offers [OF m] authenticate_shape by auto
qed


lemma scan_account_backwards:
  "scan_account_trackers X accs li addr g allow ts ns = Inr (ts', ns') \<Longrightarrow> t' \<in> set ts' \<Longrightarrow>
     offers (at_tracker t') f \<Longrightarrow> at_verified t' \<or> authenticate X accs li t' = Inr () \<Longrightarrow>
     \<exists>t\<in>set ts. at_address t = at_address t' \<and> offers (at_tracker t) f
       \<and> (at_verified t \<or> authenticate X accs li t = Inr ())"
proof (induction ts arbitrary: ts' ns')
  case (Cons t ts)
  show ?case
  proof (cases "at_address t = addr")
    case True
    with Cons.prems(1) obtain b t1 ns1 where
      m: "at_maybe_authorize_invocation X accs li t g allow ns = Inr (b, t1, ns1)"
      by (auto split: sum.splits)
    show ?thesis
    proof (cases b)
      case True
      with Cons.prems \<open>at_address t = addr\<close> m show ?thesis
        using at_authorize_backwards [OF m, of f] by auto
    next
      case False
      with Cons.prems(1) \<open>at_address t = addr\<close> m obtain ts1 where
        "scan_account_trackers X accs li addr g allow ts ns = Inr (ts1, ns')" and "ts' = t1 # ts1"
        by (auto split: sum.splits)
      with Cons.prems Cons.IH show ?thesis
        using at_authorize_backwards [OF m, of f] by fastforce
    qed
  next
    case False
    with Cons.prems(1) obtain ts1 where
      "scan_account_trackers X accs li addr g allow ts ns = Inr (ts1, ns')" and "ts' = t # ts1"
      by (auto split: sum.splits)
    with Cons.prems Cons.IH show ?thesis
      by fastforce
  qed
qed simp

text \<open>Authorizing one address gives no other address an authorization it did not have.\<close>

lemma require_auth_backwards:
  assumes "require_auth_internal X accs li addr g m ns = Inr (m', ns')" and "authorized X accs li a f m'"
  shows "authorized X accs li a f m"
proof -
  from assms(1) obtain b m1 where c: "maybe_check_invoker_contract_auth m addr g = Inr (b, m1)"
    and e: "m' = m1 \<or> (\<exists>ts. m' = m1\<lparr>account_trackers := ts\<rparr> \<and> (\<exists>allow.
      scan_account_trackers X accs li addr g allow (account_trackers m1) ns = Inr (ts, ns')))"
    by (fastforce simp: require_auth_internal_def require_auth_enforcing_def split: sum.splits bool.splits)
  have m1: "m1 = m \<or> (\<exists>ts. m1 = m\<lparr>invoker_contract_trackers := ts\<rparr>
      \<and> scan_invoker_trackers addr g (invoker_contract_trackers m) = Inr (b, ts))"
    using c by (auto simp: maybe_check_invoker_contract_auth_def split: if_splits sum.splits)
  have d: "direct_invoker m' = direct_invoker m"
    using e m1 by (auto simp: direct_invoker_def)
  have acc: "account_trackers m1 = account_trackers m"
    using m1 by auto
  from assms(2) show ?thesis
  proof cases
    case by_invoker
    then show ?thesis
      using d by (auto intro: authorized.by_invoker)
  next
    case (by_contract t)
    then have "\<exists>u\<in>set (invoker_contract_trackers m). it_contract_address u = a \<and> offers (it_tracker u) f"
      using e m1 scan_invoker_backwards [of addr g "invoker_contract_trackers m" b _ t f] by auto
    then show ?thesis
      by (auto intro: authorized.by_contract)
  next
    case (by_signature t)
    then have "\<exists>u\<in>set (account_trackers m). at_address u = a \<and> offers (at_tracker u) f
        \<and> (at_verified u \<or> authenticate X accs li u = Inr ())"
      using e acc scan_account_backwards [of X accs li addr g _ "account_trackers m" ns _ ns' t f] by auto
    then show ?thesis
      by (auto intro: authorized.by_signature)
  qed
qed

section \<open>Replay protection\<close>

lemma consume_nonce_ok:
  "consume_nonce li addr n l ns = Inr ns' \<Longrightarrow>
     ns' (addr, n) = Some ((), max l (the (min_live_until_ledger_checked li Temporary)))
     \<and> has_entry li Temporary (ns (addr, n)) = Inr False"
  by (auto simp: consume_nonce_def get_min_live_until_ledger_def
      split: sum.splits bool.splits option.splits)

lemma consume_nonce_again:
  assumes "consume_nonce li addr n l ns = Inr ns'" and "sequence_number li' \<le> l"
    and "ns'' (addr, n) = ns' (addr, n)"
  shows "\<not> is_ok (consume_nonce li' addr n l' ns'')"
  using consume_nonce_ok [OF assms(1)] assms(2,3)
  by (auto simp: consume_nonce_def has_entry_def try_get_entry_def split: sum.splits)

section \<open>Frames\<close>

lemma tracker_pop_push_stack: "match_stack (tracker_pop_frame (tracker_push_frame t)) = match_stack t"
  by (simp add: tracker_pop_frame_def tracker_push_frame_def Let_def)

lemma am_push_pop_call_stack: "call_stack (am_pop_frame (am_push_frame fr m)) = call_stack m"
  by (simp add: am_pop_frame_def am_push_frame_def)

lemma direct_invoker_push:
  "call_stack m = cs @ [ContractInvocation a fn] \<Longrightarrow> direct_invoker (am_push_frame fr m) = Some a"
  by (simp add: direct_invoker_def am_push_frame_def nth_append Let_def)

lemma require_auth_direct_invoker:
  assumes "direct_invoker m = Some addr"
  shows "am_require_auth X accs li addr args m ns = Inr (m, ns)"
proof -
  have "2 \<le> length (call_stack m)"
    using assms by (auto simp: direct_invoker_def Let_def split: if_splits)
  moreover from this have "call_stack m \<noteq> []"
    by auto
  ultimately show ?thesis
    using assms
    by (simp add: am_require_auth_def require_auth_internal_def maybe_check_invoker_contract_auth_def)
qed

end
