(* ===== verification/Host_Env.thy ===== *)
theory Host_Env
  imports Auth_Manager
begin

text \<open>
  The host a contract runs in: ledger parameters, the frame stack of \<open>host/frame.rs\<close>, the
  authorization manager, the ledger entries shared by all contracts and the event log, with
  the host functions of \<open>host.rs\<close> the contracts call.  The record is extended by each
  contract theory with the typed stores of that contract, so every operation here is
  polymorphic in the extension and its frame condition is about \<open>host.more\<close>.

  An operation that fails yields an error and no state: \<open>with_frame\<close> rolls storage, events
  and authorizations back to the frame's entry, and no contract of the repository catches an
  error of a callee.  Budget metering is not modelled.
\<close>

section \<open>State\<close>

datatype frame = HostFunctionFrame | ContractFrame hash32 string "sc_val list"

fun frame_contract_id :: "frame \<Rightarrow> hash32 option" where
  "frame_contract_id HostFunctionFrame = None"
| "frame_contract_id (ContractFrame c _ _) = Some c"

record contract_event =
  event_contract :: hash32
  event_topics :: "sc_val list"
  event_data :: sc_val

datatype trustline_ext = TrustLineExtV0 | TrustLineExtV1 (tl_buying: i64) (tl_selling: i64)

record trustline_entry =
  tl_balance :: i64
  tl_limit :: i64
  tl_flags :: "32 word"
  tl_ext :: trustline_ext

text \<open>\<open>frames\<close> is the context stack, innermost first.\<close>

record host =
  ledger :: ledger_info
  frames :: "frame list"
  auth :: auth_manager
  nonce_entries :: nonces
  instances :: "hash32 \<Rightarrow> executable entry option"
  codes :: "wasm_code \<Rightarrow> unit entry option"
  account_entries :: accounts
  trustlines :: "key32 \<times> asset \<Rightarrow> trustline_entry option"
  events :: "contract_event list"

section \<open>Frames and calls\<close>

definition DEFAULT_HOST_DEPTH_LIMIT :: u32 where
  "DEFAULT_HOST_DEPTH_LIMIT = 100"

definition get_current_contract_id :: "'z host_scheme \<Rightarrow> hash32 option" where
  "get_current_contract_id h = (case frames h of [] \<Rightarrow> None | f # _ \<Rightarrow> frame_contract_id f)"

definition push_context :: "hash32 \<Rightarrow> string \<Rightarrow> sc_val list \<Rightarrow> ('z host_scheme, host_error) step" where
  "push_context c fn args = modify (\<lambda>h.
     h\<lparr>frames := ContractFrame c fn args # frames h,
       auth := am_push_frame (ContractInvocation (Contract c) fn) (auth h)\<rparr>)"

definition pop_context :: "('z host_scheme, host_error) step" where
  "pop_context h =
     (case frames h of
        [] \<Rightarrow> Inl (HostErr SCE_Context InternalError)
      | _ # fs \<Rightarrow> Inr (h\<lparr>frames := fs, auth := am_pop_frame (auth h)\<rparr>))"

definition retrieve_contract_instance :: "hash32 \<Rightarrow> 'z host_scheme \<Rightarrow> host_error + executable" where
  "retrieve_contract_instance c h = get_entry (ledger h) Persistent (instances h c)"

text \<open>\<open>call_n_internal\<close> with re-entry prohibited, up to the start of the callee's body: \<open>x\<close> is
  the code that exports the called function, other code has no such export.\<close>

definition enter_contract ::
  "hash32 \<Rightarrow> executable \<Rightarrow> string \<Rightarrow> sc_val list \<Rightarrow> ('z host_scheme, host_error) step" where
  "enter_contract c x fn args = steps [
     reject (\<lambda>h. take 2 fn = ''__'') (HostErr SCE_Context InvalidAction),
     reject (\<lambda>h. \<exists>f\<in>set (frames h). frame_contract_id f = Some c) (HostErr SCE_Context InvalidAction),
     try_read (retrieve_contract_instance c) (\<lambda>code. steps [
       (case code of
          Wasm w \<Rightarrow> try_read (\<lambda>h. get_entry (ledger h) Persistent (codes h w)) (\<lambda>_. skip_step)
        | StellarAsset \<Rightarrow> skip_step),
       reject (\<lambda>h. DEFAULT_HOST_DEPTH_LIMIT \<le> length (frames h)) (HostErr SCE_Context ExceededLimit),
       push_context c fn args,
       reject (\<lambda>h. code \<noteq> x) (HostErr SCE_WasmVm MissingValue)])]"

definition call_step ::
  "hash32 \<Rightarrow> executable \<Rightarrow> string \<Rightarrow> sc_val list \<Rightarrow> ('z host_scheme, host_error) step
   \<Rightarrow> ('z host_scheme, host_error) step" where
  "call_step c x fn args body = steps [enter_contract c x fn args, body, pop_context]"

definition call_query ::
  "hash32 \<Rightarrow> executable \<Rightarrow> string \<Rightarrow> sc_val list \<Rightarrow> ('z host_scheme, host_error, 'a) query
   \<Rightarrow> ('z host_scheme, host_error, 'a) query" where
  "call_query c x fn args body =
     and_then (enter_contract c x fn args) (bindq body (\<lambda>a. and_then pop_context (ret a)))"

text \<open>A call names its callee by address; only contracts can be called
  (\<open>contract_id_from_address\<close>).\<close>

fun contract_of :: "address \<Rightarrow> hash32 option" where
  "contract_of (Contract c) = Some c"
| "contract_of (Account _) = None"

text \<open>\<open>invoke_function\<close>: a transaction runs one contract function below a host-function frame.\<close>

definition invoke_function ::
  "hash32 \<Rightarrow> executable \<Rightarrow> string \<Rightarrow> sc_val list \<Rightarrow> ('z host_scheme, host_error) step
   \<Rightarrow> ('z host_scheme, host_error) step" where
  "invoke_function c x fn args body = steps [
     reject (\<lambda>h. DEFAULT_HOST_DEPTH_LIMIT \<le> length (frames h)) (HostErr SCE_Context ExceededLimit),
     modify (\<lambda>h. h\<lparr>frames := HostFunctionFrame # frames h\<rparr>),
     call_step c x fn args body,
     pop_context]"

section \<open>Authorization\<close>

definition require_auth :: "externals \<Rightarrow> address \<Rightarrow> ('z host_scheme, host_error) step" where
  "require_auth X addr h =
     (case frames h of
        ContractFrame _ _ args # _ \<Rightarrow>
          (case am_require_auth X (account_entries h) (ledger h) addr args (auth h) (nonce_entries h) of
             Inl e \<Rightarrow> Inl e
           | Inr (m, ns) \<Rightarrow> Inr (h\<lparr>auth := m, nonce_entries := ns\<rparr>))
      | _ \<Rightarrow> Inl (HostErr SCE_Context InternalError))"

definition authorize_as_curr_contract ::
  "invoker_auth_entry list \<Rightarrow> ('z host_scheme, host_error) step" where
  "authorize_as_curr_contract entries =
     ok_or (HostErr SCE_Context InternalError) get_current_contract_id (\<lambda>c.
     try_read (\<lambda>h. add_invoker_contract_auth (Contract c) entries (auth h)) (\<lambda>m.
     modify (\<lambda>h. h\<lparr>auth := m\<rparr>)))"

definition deployed_address :: "externals \<Rightarrow> address \<Rightarrow> bytes \<Rightarrow> address" where
  "deployed_address X deployer salt = Contract (x_contract_id X (PreimageAddress deployer salt))"

section \<open>Events and the life time of the instance\<close>

definition publish_event :: "sc_val list \<Rightarrow> sc_val \<Rightarrow> ('z host_scheme, host_error) step" where
  "publish_event topics data =
     ok_or (HostErr SCE_Context InternalError) get_current_contract_id (\<lambda>c.
     modify (\<lambda>h. h\<lparr>events := events h @
       [\<lparr>event_contract = c, event_topics = topics, event_data = data\<rparr>]\<rparr>))"

definition extend_contract_instance_ttl :: "hash32 \<Rightarrow> u32 \<Rightarrow> u32 \<Rightarrow> ('z host_scheme, host_error) step" where
  "extend_contract_instance_ttl c threshold extend_to =
     try_read (\<lambda>h. extend_entry (ledger h) Persistent threshold extend_to (instances h c)) (\<lambda>e.
     modify (\<lambda>h. h\<lparr>instances := (instances h)(c \<mapsto> e)\<rparr>))"

definition extend_contract_code_ttl :: "hash32 \<Rightarrow> u32 \<Rightarrow> u32 \<Rightarrow> ('z host_scheme, host_error) step" where
  "extend_contract_code_ttl c threshold extend_to =
     try_read (retrieve_contract_instance c) (\<lambda>x.
       case x of
         Wasm w \<Rightarrow>
           try_read (\<lambda>h. extend_entry (ledger h) Persistent threshold extend_to (codes h w)) (\<lambda>e.
           modify (\<lambda>h. h\<lparr>codes := (codes h)(w \<mapsto> e)\<rparr>))
       | StellarAsset \<Rightarrow> skip_step)"

definition extend_current_contract_instance_and_code_ttl ::
  "u32 \<Rightarrow> u32 \<Rightarrow> ('z host_scheme, host_error) step" where
  "extend_current_contract_instance_and_code_ttl threshold extend_to =
     ok_or (HostErr SCE_Context InternalError) get_current_contract_id (\<lambda>c. steps [
       extend_contract_instance_ttl c threshold extend_to,
       extend_contract_code_ttl c threshold extend_to])"

section \<open>What each host function may change\<close>

named_theorems shape_dest "the shape of the state after a successful host function"

lemma case_executable_ok [ok_simps]:
  "(case x of Wasm w \<Rightarrow> f w | StellarAsset \<Rightarrow> g) s = Inr t \<longleftrightarrow>
     (\<exists>w. x = Wasm w \<and> f w s = Inr t) \<or> (x = StellarAsset \<and> g s = Inr t)"
  by (cases x) auto

lemma push_context_shape [shape_dest]:
  "push_context c fn args h = Inr h' \<Longrightarrow>
     h' = h\<lparr>frames := ContractFrame c fn args # frames h,
            auth := am_push_frame (ContractInvocation (Contract c) fn) (auth h)\<rparr>"
  by (simp add: push_context_def ok_simps)

lemma pop_context_shape [shape_dest]:
  "pop_context h = Inr h' \<Longrightarrow> h' = h\<lparr>frames := tl (frames h), auth := am_pop_frame (auth h)\<rparr>"
  by (auto simp: pop_context_def split: list.splits)

lemma enter_contract_shape [shape_dest]:
  "enter_contract c x fn args h = Inr h' \<Longrightarrow>
     h' = h\<lparr>frames := ContractFrame c fn args # frames h,
            auth := am_push_frame (ContractInvocation (Contract c) fn) (auth h)\<rparr>
     \<and> retrieve_contract_instance c h = Inr x"
  by (auto simp: enter_contract_def ok_simps dest!: push_context_shape)

lemma require_auth_shape [shape_dest]:
  "require_auth X a h = Inr h' \<Longrightarrow> \<exists>m ns. h' = h\<lparr>auth := m, nonce_entries := ns\<rparr>"
  by (auto simp: require_auth_def split: list.splits frame.splits sum.splits)

lemma authorize_as_curr_contract_shape [shape_dest]:
  "authorize_as_curr_contract es h = Inr h' \<Longrightarrow> \<exists>m. h' = h\<lparr>auth := m\<rparr>"
  by (auto simp: authorize_as_curr_contract_def ok_simps)

lemma publish_event_shape [shape_dest]:
  "publish_event ts d h = Inr h' \<Longrightarrow>
     \<exists>c. get_current_contract_id h = Some c \<and> h' = h\<lparr>events := events h @
       [\<lparr>event_contract = c, event_topics = ts, event_data = d\<rparr>]\<rparr>"
  by (auto simp: publish_event_def ok_simps)

text \<open>The executables behind the instances never change, only their life time.\<close>

definition same_executables :: "'z host_scheme \<Rightarrow> 'y host_scheme \<Rightarrow> bool" where
  "same_executables h h' \<longleftrightarrow> (\<forall>c. map_option fst (instances h' c) = map_option fst (instances h c))"

lemma extend_instance_shape [shape_dest]:
  assumes "extend_current_contract_instance_and_code_ttl t e h = Inr h'"
  shows "\<exists>i k. h' = h\<lparr>instances := i, codes := k\<rparr>
    \<and> (\<forall>c. map_option fst (i c) = map_option fst (instances h c))"
proof -
  obtain c h1 where
    inst: "extend_contract_instance_ttl c t e h = Inr h1" and
    code: "extend_contract_code_ttl c t e h1 = Inr h'"
    using assms by (auto simp: extend_current_contract_instance_and_code_ttl_def ok_simps)
  from inst obtain ent where
    ext: "extend_entry (ledger h) Persistent t e (instances h c) = Inr ent" and
    h1: "h1 = h\<lparr>instances := (instances h)(c \<mapsto> ent)\<rparr>"
    by (auto simp: extend_contract_instance_ttl_def ok_simps)
  have "map_option fst (instances h1 d) = map_option fst (instances h d)" for d
    using extend_entry_ok [OF ext] h1 by auto
  moreover have "\<exists>k. h' = h1\<lparr>codes := k\<rparr>"
    using code
    by (auto simp: extend_contract_code_ttl_def ok_simps intro: exI [of _ "codes h1"])
  ultimately show ?thesis
    using h1 by auto
qed

text \<open>A call leaves the frame stack as it found it, whenever its body does.\<close>

lemma call_step_ok:
  assumes "call_step c x fn args body h = Inr h'"
  obtains h1 h2 where "enter_contract c x fn args h = Inr h1" and "body h1 = Inr h2"
    and "h' = h2\<lparr>frames := tl (frames h2), auth := am_pop_frame (auth h2)\<rparr>"
  using assms by (auto simp: call_step_def ok_simps dest!: pop_context_shape)

lemma call_query_ok:
  assumes "call_query c x fn args body h = Inr (a, h')"
  obtains h1 h2 where "enter_contract c x fn args h = Inr h1" and "body h1 = Inr (a, h2)"
    and "h' = h2\<lparr>frames := tl (frames h2), auth := am_pop_frame (auth h2)\<rparr>"
  using assms by (auto simp: call_query_def ok_simps dest!: pop_context_shape)

section \<open>What a caller can rely on across a call\<close>

text \<open>Ledger parameters, frame stack and deployed code: no operation of a contract changes
  them for its caller.\<close>

definition host_view ::
  "'z host_scheme \<Rightarrow> ledger_info \<times> frame list \<times> (hash32 \<Rightarrow> executable option)" where
  "host_view h = (ledger h, frames h, \<lambda>c. map_option fst (instances h c))"

named_theorems view_rules "frame rules of the host functions"

lemma host_view_require_auth [view_rules]: "keeps host_view (require_auth X a)"
  by (rule keepsI) (auto simp: host_view_def dest!: require_auth_shape)

lemma host_view_authorize [view_rules]: "keeps host_view (authorize_as_curr_contract es)"
  by (rule keepsI) (auto simp: host_view_def dest!: authorize_as_curr_contract_shape)

lemma host_view_publish [view_rules]: "keeps host_view (publish_event ts d)"
  by (rule keepsI) (auto simp: host_view_def dest!: publish_event_shape)

lemma host_view_extend [view_rules]:
  "keeps host_view (extend_current_contract_instance_and_code_ttl t e)"
  by (rule keepsI) (auto simp: host_view_def dest!: extend_instance_shape)

lemma host_view_modify [view_rules]: "(\<And>h. host_view (f h) = host_view h) \<Longrightarrow> keeps host_view (modify f)"
  by (rule keeps_modify)

lemma host_view_call [view_rules]:
  assumes "keeps host_view body"
  shows "keeps host_view (call_step c x fn args body)"
proof (rule keepsI)
  fix h h' :: "'a host_scheme"
  assume "call_step c x fn args body h = Inr h'"
  then show "host_view h' = host_view h"
  proof (rule call_step_ok)
    fix h1 h2
    assume "enter_contract c x fn args h = Inr h1" and "body h1 = Inr h2"
      and "h' = h2\<lparr>frames := tl (frames h2), auth := am_pop_frame (auth h2)\<rparr>"
    with keepsD [OF assms, of h1 h2] show ?thesis
      by (auto simp: host_view_def dest!: enter_contract_shape)
  qed
qed

lemma host_view_callq [view_rules]:
  assumes "keepsq host_view body"
  shows "keepsq host_view (call_query c x fn args body)"
proof (rule keepsqI)
  fix h h' :: "'a host_scheme" and a
  assume "call_query c x fn args body h = Inr (a, h')"
  then show "host_view h' = host_view h"
  proof (rule call_query_ok)
    fix h1 h2
    assume "enter_contract c x fn args h = Inr h1" and "body h1 = Inr (a, h2)"
      and "h' = h2\<lparr>frames := tl (frames h2), auth := am_pop_frame (auth h2)\<rparr>"
    with keepsqD [OF assms, of h1 a h2] show ?thesis
      by (auto simp: host_view_def dest!: enter_contract_shape)
  qed
qed

text \<open>A projection that ignores frames and authorization state survives a call when it
  survives the body.\<close>

definition call_blind :: "('z host_scheme \<Rightarrow> 'p) \<Rightarrow> bool" where
  "call_blind g \<longleftrightarrow> (\<forall>h fs m. g (h\<lparr>frames := fs, auth := m\<rparr>) = g h)"

lemma keeps_call [view_rules]:
  assumes "call_blind g" and "keeps g body"
  shows "keeps g (call_step c x fn args body)"
proof (rule keepsI)
  fix h h' assume "call_step c x fn args body h = Inr h'"
  then show "g h' = g h"
  proof (rule call_step_ok)
    fix h1 h2
    assume "enter_contract c x fn args h = Inr h1" and "body h1 = Inr h2"
      and "h' = h2\<lparr>frames := tl (frames h2), auth := am_pop_frame (auth h2)\<rparr>"
    with keepsD [OF assms(2), of h1 h2] assms(1) show ?thesis
      by (auto simp: call_blind_def dest!: enter_contract_shape)
  qed
qed

lemma keepsq_call [view_rules]:
  assumes "call_blind g" and "keepsq g body"
  shows "keepsq g (call_query c x fn args body)"
proof (rule keepsqI)
  fix h a h' assume "call_query c x fn args body h = Inr (a, h')"
  then show "g h' = g h"
  proof (rule call_query_ok)
    fix h1 h2
    assume "enter_contract c x fn args h = Inr h1" and "body h1 = Inr (a, h2)"
      and "h' = h2\<lparr>frames := tl (frames h2), auth := am_pop_frame (auth h2)\<rparr>"
    with keepsqD [OF assms(2), of h1 a h2] assms(1) show ?thesis
      by (auto simp: call_blind_def dest!: enter_contract_shape)
  qed
qed

section \<open>Authorization, seen from a contract\<close>

text \<open>The call a contract is executing, as \<open>require_auth\<close> sees it.\<close>

definition current_call :: "'z host_scheme \<Rightarrow> authorized_function option" where
  "current_call h =
     (case frames h of
        ContractFrame c fn args # _ \<Rightarrow>
          (if call_stack (auth h) = [] then None
           else Some (to_authorized_function (last (call_stack (auth h))) args))
      | _ \<Rightarrow> None)"

definition has_authorized :: "externals \<Rightarrow> address \<Rightarrow> 'z host_scheme \<Rightarrow> bool" where
  "has_authorized X a h \<longleftrightarrow>
     (\<exists>f. current_call h = Some f \<and> authorized X (account_entries h) (ledger h) a f (auth h))"

lemma require_auth_authorized:
  assumes "require_auth X a h = Inr h'"
  shows "has_authorized X a h"
proof -
  obtain c fn args fs where fr: "frames h = ContractFrame c fn args # fs"
    using assms by (auto simp: require_auth_def split: list.splits frame.splits)
  then obtain m ns where
    "am_require_auth X (account_entries h) (ledger h) a args (auth h) (nonce_entries h) = Inr (m, ns)"
    using assms by (auto simp: require_auth_def split: sum.splits)
  then show ?thesis
    using fr require_auth_internal_authorized
    by (fastforce simp: has_authorized_def current_call_def am_require_auth_def split: if_splits)
qed

lemma has_authorized_backwards:
  assumes "require_auth X b h = Inr h'" and "has_authorized X a h'"
  shows "has_authorized X a h"
proof -
  obtain c fn args fs where fr: "frames h = ContractFrame c fn args # fs"
    using assms(1) by (auto simp: require_auth_def split: list.splits frame.splits)
  then obtain m ns where r:
    "am_require_auth X (account_entries h) (ledger h) b args (auth h) (nonce_entries h) = Inr (m, ns)"
    and h': "h' = h\<lparr>auth := m, nonce_entries := ns\<rparr>"
    using assms(1) by (auto simp: require_auth_def split: sum.splits)
  have cs: "call_stack (auth h) \<noteq> []"
    and ri: "require_auth_internal X (account_entries h) (ledger h) b
      (to_authorized_function (last (call_stack (auth h))) args) (auth h) (nonce_entries h) = Inr (m, ns)"
    using r by (auto simp: am_require_auth_def split: if_splits)
  have "call_stack m = call_stack (auth h)"
    using ri by (auto simp: require_auth_internal_def require_auth_enforcing_def
        maybe_check_invoker_contract_auth_def split: sum.splits bool.splits if_splits)
  then have "current_call h' = current_call h"
    using fr h' by (simp add: current_call_def)
  then show ?thesis
    using assms(2) require_auth_backwards [OF ri] h' by (auto simp: has_authorized_def)
qed

text \<open>Inside a call made by a contract, that contract has authorized the call.\<close>

lemma require_auth_of_caller:
  assumes "frames h = ContractFrame c fn args # fs" and "direct_invoker (auth h) = Some a"
  shows "require_auth X a h = Inr h"
  using assms by (simp add: require_auth_def require_auth_direct_invoker)

text \<open>Whether an address has authorized the current call does not depend on contract data.\<close>

lemma has_authorized_cong:
  "frames h' = frames h \<Longrightarrow> auth h' = auth h \<Longrightarrow> account_entries h' = account_entries h \<Longrightarrow>
   ledger h' = ledger h \<Longrightarrow> has_authorized X a h' = has_authorized X a h"
  by (simp add: has_authorized_def current_call_def cong: list.case_cong frame.case_cong if_cong)

text \<open>
  A contract that is no custom account (it exports no \<open>__check_auth\<close>) has authorized nothing
  in a call that a transaction makes directly: it is not its own invoker, and no signature of
  it is accepted.
\<close>

lemma no_self_authorization:
  assumes "length (call_stack (auth h)) < 2" and "invoker_contract_trackers (auth h) = []"
    and "\<And>t. t \<in> set (account_trackers (auth h)) \<Longrightarrow> at_address t = Contract c \<Longrightarrow>
      \<not> at_verified t \<and> \<not> at_is_transaction_source_account t"
    and "\<And>payload sig contexts. \<not> x_check_auth X c payload sig contexts"
  shows "\<not> has_authorized X (Contract c) h"
proof
  assume "has_authorized X (Contract c) h"
  then obtain f where "authorized X (account_entries h) (ledger h) (Contract c) f (auth h)"
    by (auto simp: has_authorized_def)
  then show False
  proof cases
    case by_invoker
    then show False
      using assms(1) by (simp add: direct_invoker_def)
  next
    case (by_contract t)
    then show False
      using assms(2) by simp
  next
    case (by_signature t)
    then show False
      using assms(3) [OF by_signature(1,2)] assms(4)
      by (auto simp: authenticate_def check_account_contract_auth_def Let_def
          split: option.splits sum.splits prod.splits)
  qed
qed

end
