(* ===== verification/Token_Interface.thy ===== *)
theory Token_Interface
  imports Host_Types
begin

text \<open>
  What the contracts rely on when they hold a settlement token: the interface between
  \<open>campaign_escrow\<close>, \<open>contributor_pool\<close> and the token contract they call through
  \<open>token::Client\<close>.  \<open>bal\<close> is the ledger a token keeps, \<open>tracked\<close> the addresses whose balance
  is a stored number (the issuer of a credit asset has none).  A client reasons about a whole
  operation with \<open>moved\<close>: the list of legs (payer, payee, amount) it has moved.
\<close>

type_synonym leg = "address \<times> address \<times> i128"

fun net :: "leg list \<Rightarrow> address \<Rightarrow> int" where
  "net [] c = 0"
| "net ((a, b, n) # ls) c = (if c = b then n else 0) - (if c = a then n else 0) + net ls c"

lemma net_append [simp]: "net (xs @ ys) c = net xs c + net ys c"
  by (induction xs c rule: net.induct) simp_all

text \<open>What a contract pays out is bounded by the sum of the legs, whoever receives them.\<close>

lemma net_payer:
  "(\<And>x y n. (x, y, n) \<in> set ls \<Longrightarrow> x = a \<and> 0 \<le> n) \<Longrightarrow> - (\<Sum>(x, y, n)\<leftarrow>ls. n) \<le> net ls a"
proof (induction ls a rule: net.induct)
  case (2 x y n ls c)
  have "x = c" "0 \<le> n"
    using "2.prems" [of x y n] by auto
  moreover have "- (\<Sum>(x, y, n)\<leftarrow>ls. n) \<le> net ls c"
    using "2.prems" by (intro "2.IH") auto
  ultimately show ?case
    by auto
qed simp

locale token_ledger =
  fixes bal :: "'s \<Rightarrow> address \<Rightarrow> int"
    and tracked :: "'s \<Rightarrow> address \<Rightarrow> bool"
    and transfer :: "address \<Rightarrow> address \<Rightarrow> i128 \<Rightarrow> ('s, 'e) step"
  assumes transfer_nonneg: "transfer a b n s = Inr t \<Longrightarrow> 0 \<le> n"
    and transfer_bal: "transfer a b n s = Inr t \<Longrightarrow> tracked s c \<Longrightarrow>
      bal t c = bal s c + (if c = b then n else 0) - (if c = a then n else 0)"
    and transfer_tracked: "transfer a b n s = Inr t \<Longrightarrow> tracked t c = tracked s c"
    and transfer_covered: "transfer (Contract d) b n s = Inr t \<Longrightarrow> n \<le> max 0 (bal s (Contract d))"
    and contract_tracked: "tracked s (Contract d)"
begin

definition moved :: "leg list \<Rightarrow> 's \<Rightarrow> 's \<Rightarrow> bool" where
  "moved ls s t \<longleftrightarrow> (\<forall>c. tracked t c = tracked s c \<and> (tracked s c \<longrightarrow> bal t c = bal s c + net ls c))"

lemma moved_transfer: "transfer a b n s = Inr t \<Longrightarrow> moved [(a, b, n)] s t"
  by (auto simp: moved_def transfer_bal transfer_tracked)

lemma moved_none: "bal t = bal s \<Longrightarrow> tracked t = tracked s \<Longrightarrow> moved [] s t"
  by (simp add: moved_def)

lemma moved_trans: "moved ls s t \<Longrightarrow> moved ks t u \<Longrightarrow> moved (ls @ ks) s u"
  by (simp add: moved_def)

lemma moved_bal: "moved ls s t \<Longrightarrow> tracked s c \<Longrightarrow> bal t c = bal s c + net ls c"
  by (simp add: moved_def)

lemma moved_tracked: "moved ls s t \<Longrightarrow> tracked t c = tracked s c"
  by (simp add: moved_def)

text \<open>No token is created or destroyed: a transfer keeps the sum over any set of addresses
  that holds both ends.\<close>

lemma transfer_conserves:
  assumes "transfer a b n s = Inr t" and "finite A" and "a \<in> A" and "b \<in> A"
    and "\<And>c. c \<in> A \<Longrightarrow> tracked s c"
  shows "(\<Sum>c\<in>A. bal t c) = (\<Sum>c\<in>A. bal s c)"
proof -
  have "(\<Sum>c\<in>A. bal t c) = (\<Sum>c\<in>A. bal s c + ((if c = b then n else 0) - (if c = a then n else 0)))"
    using transfer_bal [OF assms(1)] assms(5) by (intro sum.cong) auto
  also have "\<dots> = (\<Sum>c\<in>A. bal s c)"
    using assms(2-4) by (simp add: sum.distrib sum_subtractf)
  finally show ?thesis .
qed

end

end
