(* ===== verification/Stellar_Asset.thy ===== *)
theory Stellar_Asset
  imports Host_Env Token_Interface
begin

text \<open>
  The Stellar Asset Contract, \<open>builtin_contracts/stellar_asset_contract/\<close>: the token the
  escrow and the pools hold.  Its instance data (\<open>Admin\<close>, \<open>AssetInfo\<close>, \<open>METADATA\<close>), the
  persistent balances of contracts and the temporary allowances are the record
  \<open>sac_state\<close>; balances of accounts live in account entries (native asset) and
  trustlines (credit assets).  Every function of the module has a definition of the same name
  (with \<open>sac_\<close> in front of the exported ones); \<open>c\<close> is the id of the contract whose frame runs.
  The main result interprets \<open>token_ledger\<close>: a successful \<open>transfer\<close> moves exactly its
  amount and touches no other balance.
\<close>

unbundle bit_operations_syntax

section \<open>Storage\<close>

definition DAY_IN_LEDGERS :: u32 where "DAY_IN_LEDGERS = 17280"
definition INSTANCE_EXTEND_AMOUNT :: u32 where "INSTANCE_EXTEND_AMOUNT = 7 * DAY_IN_LEDGERS"
definition INSTANCE_TTL_THRESHOLD :: u32 where
  "INSTANCE_TTL_THRESHOLD = INSTANCE_EXTEND_AMOUNT - DAY_IN_LEDGERS"
definition BALANCE_EXTEND_AMOUNT :: u32 where "BALANCE_EXTEND_AMOUNT = 30 * DAY_IN_LEDGERS"
definition BALANCE_TTL_THRESHOLD :: u32 where
  "BALANCE_TTL_THRESHOLD = BALANCE_EXTEND_AMOUNT - DAY_IN_LEDGERS"

record AllowanceValue =
  av_amount :: i128
  av_live_until_ledger :: u32

record BalanceValue =
  bv_amount :: i128
  bv_authorized :: bool
  bv_clawback :: bool

datatype AssetInfo =
  Info_Native
| Info_AlphaNum4 (info_code4: bytes) (info_issuer4: key32)
| Info_AlphaNum12 (info_code12: bytes) (info_issuer12: key32)

record StellarAssetContractMetadata =
  md_decimal :: u32
  md_name :: bytes
  md_symbol :: bytes

record sac_state =
  sac_admin_key :: "address option"
  sac_asset_info :: "AssetInfo option"
  sac_metadata :: "StellarAssetContractMetadata option"
  sac_balances :: "address \<Rightarrow> BalanceValue entry option"
  sac_allowances :: "address \<times> address \<Rightarrow> AllowanceValue entry option"

record sac_host = host +
  sacs :: "hash32 \<Rightarrow> sac_state"

definition upd_sac :: "hash32 \<Rightarrow> (sac_state \<Rightarrow> sac_state) \<Rightarrow> 'z sac_host_scheme \<Rightarrow> 'z sac_host_scheme" where
  "upd_sac c f h = h\<lparr>sacs := (sacs h)(c := f (sacs h c))\<rparr>"

text \<open>Reading a missing key of the instance storage is a host error.\<close>

definition missing_value :: host_error where
  "missing_value = HostErr SCE_Storage MissingValue"

definition get_instance :: "'v option \<Rightarrow> host_error + 'v" where
  "get_instance slot = (case slot of None \<Rightarrow> Inl missing_value | Some v \<Rightarrow> Inr v)"

text \<open>Overflow of a plain arithmetic operation of host code is a panic, which the embedder of
  the host reports as an internal error.\<close>

definition host_panic :: host_error where
  "host_panic = HostErr SCE_Context InternalError"

definition i64_op :: "int \<Rightarrow> host_error + i64" where
  "i64_op x = (case checked_i64 x of None \<Rightarrow> Inl host_panic | Some y \<Rightarrow> Inr y)"

section \<open>Administrator and asset\<close>

definition read_administrator :: "hash32 \<Rightarrow> 'z sac_host_scheme \<Rightarrow> host_error + address" where
  "read_administrator c h = get_instance (sac_admin_key (sacs h c))"

definition write_administrator :: "hash32 \<Rightarrow> address \<Rightarrow> ('z sac_host_scheme, host_error) step" where
  "write_administrator c a = modify (upd_sac c (\<lambda>s. s\<lparr>sac_admin_key := Some a\<rparr>))"

definition write_asset_info :: "hash32 \<Rightarrow> AssetInfo \<Rightarrow> ('z sac_host_scheme, host_error) step" where
  "write_asset_info c i = modify (upd_sac c (\<lambda>s. s\<lparr>sac_asset_info := Some i\<rparr>))"

definition read_asset_info :: "hash32 \<Rightarrow> 'z sac_host_scheme \<Rightarrow> host_error + AssetInfo" where
  "read_asset_info c h = get_instance (sac_asset_info (sacs h c))"

definition has_asset_info :: "hash32 \<Rightarrow> 'z sac_host_scheme \<Rightarrow> bool" where
  "has_asset_info c h \<longleftrightarrow> sac_asset_info (sacs h c) \<noteq> None"

definition string_to_array :: "nat \<Rightarrow> bytes \<Rightarrow> host_error + bytes" where
  "string_to_array n s = (if length s \<noteq> n then Inl (HostErr SCE_Value UnexpectedSize) else Inr s)"

fun asset_try_from_val :: "AssetInfo \<Rightarrow> host_error + asset" where
  "asset_try_from_val Info_Native = Inr Native"
| "asset_try_from_val (Info_AlphaNum4 code issuer) =
     (case string_to_array 4 code of Inl e \<Rightarrow> Inl e | Inr a \<Rightarrow> Inr (CreditAlphanum4 a issuer))"
| "asset_try_from_val (Info_AlphaNum12 code issuer) =
     (case string_to_array 12 code of Inl e \<Rightarrow> Inl e | Inr a \<Rightarrow> Inr (CreditAlphanum12 a issuer))"

definition read_asset :: "hash32 \<Rightarrow> 'z sac_host_scheme \<Rightarrow> host_error + asset" where
  "read_asset c h =
     (case read_asset_info c h of Inl e \<Rightarrow> Inl e | Inr i \<Rightarrow> asset_try_from_val i)"

definition is_ascii_alphanumeric :: "nat \<Rightarrow> bool" where
  "is_ascii_alphanumeric b \<longleftrightarrow>
     (48 \<le> b \<and> b \<le> 57) \<or> (65 \<le> b \<and> b \<le> 90) \<or> (97 \<le> b \<and> b \<le> 122)"

text \<open>The loop of \<open>validate_asset_code\<close>, with its two mutable variables.\<close>

fun scan_asset_code :: "bool \<Rightarrow> nat \<Rightarrow> bytes \<Rightarrow> host_error + nat" where
  "scan_asset_code had_zero non_zero_chars [] = Inr non_zero_chars"
| "scan_asset_code had_zero non_zero_chars (b # bs) =
     (if b = 0 then scan_asset_code True non_zero_chars bs
      else if had_zero then Inl (HostErr SCE_Value InvalidInput)
      else if b > 0x7f \<or> \<not> is_ascii_alphanumeric b then Inl (HostErr SCE_Value InvalidInput)
      else scan_asset_code had_zero (non_zero_chars + 1) bs)"

definition validate_asset_code :: "bytes \<Rightarrow> host_error + unit" where
  "validate_asset_code code =
     (case scan_asset_code False 0 code of
        Inl e \<Rightarrow> Inl e
      | Inr non_zero_chars \<Rightarrow>
          if non_zero_chars = 0 then Inl (HostErr SCE_Value InvalidInput)
          else if non_zero_chars \<le> 4 \<and> length code > 4 then Inl (HostErr SCE_Value InvalidInput)
          else Inr ())"

fun validate_asset :: "asset \<Rightarrow> host_error + unit" where
  "validate_asset Native = Inr ()"
| "validate_asset (CreditAlphanum4 code _) = validate_asset_code code"
| "validate_asset (CreditAlphanum12 code _) = validate_asset_code code"

section \<open>Metadata\<close>

definition DECIMAL :: u32 where "DECIMAL = 7"

definition hex_digit :: "nat \<Rightarrow> nat" where
  "hex_digit d = (if d < 10 then 48 + d else 87 + d)"

definition escape_byte :: "nat \<Rightarrow> bytes" where
  "escape_byte b = [92, 120, hex_digit (b div 16), hex_digit (b mod 16)]"

definition needs_escape :: "nat \<Rightarrow> bool" where
  "needs_escape b \<longleftrightarrow> b = 58 \<or> b = 92 \<or> b \<le> 0x20 \<or> 0x7f \<le> b"

fun render_loop :: "nat \<Rightarrow> nat \<Rightarrow> bytes \<Rightarrow> bytes" where
  "render_loop len i [] = []"
| "render_loop len i (b # bs) =
     (if b = 0 \<and> len = 4 then []
      else if b = 0 \<and> len = 12 \<and> i > 4 then []
      else if needs_escape b then escape_byte b @ render_loop len (i + 1) bs
      else b # render_loop len (i + 1) bs)"

definition render_sep0011_asset_code :: "bytes \<Rightarrow> host_error + bytes" where
  "render_sep0011_asset_code buf =
     (if length buf \<noteq> 4 \<and> length buf \<noteq> 12 then Inl (HostErr SCE_Value InvalidInput)
      else Inr (render_loop (length buf) 0 buf))"

definition render_sep0011_asset :: "externals \<Rightarrow> nat \<Rightarrow> bytes \<Rightarrow> key32 \<Rightarrow> host_error + (bytes \<times> bytes)" where
  "render_sep0011_asset X n symbol issuer =
     (case string_to_array n symbol of
        Inl e \<Rightarrow> Inl e
      | Inr symbuf \<Rightarrow>
          (case render_sep0011_asset_code symbuf of
             Inl e \<Rightarrow> Inl e
           | Inr s \<Rightarrow> Inr (s @ [58] @ x_strkey X issuer, s)))"

definition native_name :: bytes where
  "native_name = [110, 97, 116, 105, 118, 101]"

definition name_and_symbol :: "externals \<Rightarrow> AssetInfo \<Rightarrow> host_error + (bytes \<times> bytes)" where
  "name_and_symbol X i =
     (case i of
        Info_Native \<Rightarrow> Inr (native_name, native_name)
      | Info_AlphaNum4 code issuer \<Rightarrow> render_sep0011_asset X 4 code issuer
      | Info_AlphaNum12 code issuer \<Rightarrow> render_sep0011_asset X 12 code issuer)"

definition set_metadata :: "externals \<Rightarrow> hash32 \<Rightarrow> ('z sac_host_scheme, host_error) step" where
  "set_metadata X c =
     try_read (read_asset_info c) (\<lambda>i.
     try_read (\<lambda>h. name_and_symbol X i) (\<lambda>(name, symbol).
     modify (upd_sac c (\<lambda>s. s\<lparr>sac_metadata :=
       Some \<lparr>md_decimal = DECIMAL, md_name = name, md_symbol = symbol\<rparr>\<rparr>))))"

definition read_name :: "hash32 \<Rightarrow> 'z sac_host_scheme \<Rightarrow> host_error + bytes" where
  "read_name c h =
     (case get_instance (sac_metadata (sacs h c)) of Inl e \<Rightarrow> Inl e | Inr m \<Rightarrow> Inr (md_name m))"

definition read_symbol :: "hash32 \<Rightarrow> 'z sac_host_scheme \<Rightarrow> host_error + bytes" where
  "read_symbol c h =
     (case get_instance (sac_metadata (sacs h c)) of Inl e \<Rightarrow> Inl e | Inr m \<Rightarrow> Inr (md_symbol m))"

section \<open>Classic balances: accounts and trustlines\<close>

definition AUTHORIZED_FLAG :: "32 word" where "AUTHORIZED_FLAG = 1"
definition AUTHORIZED_TO_MAINTAIN_LIABILITIES_FLAG :: "32 word" where
  "AUTHORIZED_TO_MAINTAIN_LIABILITIES_FLAG = 2"
definition TRUSTLINE_CLAWBACK_ENABLED_FLAG :: "32 word" where "TRUSTLINE_CLAWBACK_ENABLED_FLAG = 4"

definition REQUIRED_FLAG :: "32 word" where "REQUIRED_FLAG = 1"
definition REVOCABLE_FLAG :: "32 word" where "REVOCABLE_FLAG = 2"
definition CLAWBACK_ENABLED_FLAG :: "32 word" where "CLAWBACK_ENABLED_FLAG = 8"

definition read_account_entry :: "key32 \<Rightarrow> 'z host_scheme \<Rightarrow> host_error + account_entry" where
  "read_account_entry k h =
     (case account_entries h k of
        None \<Rightarrow> Inl (builtin_err AccountMissingError) | Some ae \<Rightarrow> Inr ae)"

definition read_trustline_entry :: "key32 \<Rightarrow> asset \<Rightarrow> 'z host_scheme \<Rightarrow> host_error + trustline_entry" where
  "read_trustline_entry k a h =
     (case trustlines h (k, a) of
        None \<Rightarrow> Inl (builtin_err TrustlineMissingError) | Some line \<Rightarrow> Inr line)"

definition account_net_entries :: "account_entry \<Rightarrow> i64" where
  "account_net_entries ae =
     (case ext ae of
        AccountExtV1 buying selling (ExtV1V2 sponsored sponsoring) \<Rightarrow>
          2 + int (num_sub_entries ae) + int sponsoring - int sponsored
      | _ \<Rightarrow> 2 + int (num_sub_entries ae))"

definition get_min_max_account_balance :: "account_entry \<Rightarrow> 'z host_scheme \<Rightarrow> host_error + (i64 \<times> i64)" where
  "get_min_max_account_balance ae h =
     (if balance ae < 0 then Inl (builtin_err CE_InternalError)
      else case i64_op (account_net_entries ae * int (base_reserve (ledger h))) of
        Inl e \<Rightarrow> Inl e
      | Inr reserve \<Rightarrow>
          (case ext ae of
             AccountExtV1 buying selling _ \<Rightarrow>
               (case i64_op (reserve + selling) of
                  Inl e \<Rightarrow> Inl e
                | Inr min_balance \<Rightarrow>
                    (case i64_op (I64_MAX - buying) of
                       Inl e \<Rightarrow> Inl e | Inr max_balance \<Rightarrow> Inr (min_balance, max_balance)))
           | AccountExtV0 \<Rightarrow> Inr (reserve, I64_MAX)))"

definition get_min_max_trustline_balance :: "trustline_entry \<Rightarrow> host_error + (i64 \<times> i64)" where
  "get_min_max_trustline_balance line =
     (if tl_balance line < 0 then Inl (builtin_err CE_InternalError)
      else case tl_ext line of
        TrustLineExtV1 buying selling \<Rightarrow>
          (if tl_limit line < buying then Inl (builtin_err CE_InternalError)
           else case i64_op (tl_limit line - buying) of
             Inl e \<Rightarrow> Inl e | Inr max_balance \<Rightarrow> Inr (selling, max_balance))
      | TrustLineExtV0 \<Rightarrow> Inr (0, tl_limit line))"

definition new_classic_balance :: "i64 \<Rightarrow> i64 \<Rightarrow> i64 \<times> i64 \<Rightarrow> host_error + i64" where
  "new_classic_balance old amount = (\<lambda>(min_balance, max_balance).
     case checked_i64 (old + amount) of
       None \<Rightarrow> Inl (builtin_err BalanceError)
     | Some new_balance \<Rightarrow>
         if new_balance \<ge> min_balance \<and> new_balance \<le> max_balance then Inr new_balance
         else Inl (builtin_err BalanceError))"

definition transfer_account_balance :: "key32 \<Rightarrow> i64 \<Rightarrow> ('z host_scheme, host_error) step" where
  "transfer_account_balance k amount =
     try_read (read_account_entry k) (\<lambda>ae.
     try_read (get_min_max_account_balance ae) (\<lambda>bounds.
     try_read (\<lambda>h. new_classic_balance (balance ae) amount bounds) (\<lambda>new_balance.
     modify (\<lambda>h. h\<lparr>account_entries := (account_entries h)(k \<mapsto> ae\<lparr>balance := new_balance\<rparr>)\<rparr>))))"

definition transfer_trustline_balance :: "key32 \<Rightarrow> asset \<Rightarrow> i64 \<Rightarrow> ('z host_scheme, host_error) step" where
  "transfer_trustline_balance k a amount =
     try_read (read_trustline_entry k a) (\<lambda>line.
     try_read (\<lambda>h. get_min_max_trustline_balance line) (\<lambda>bounds.
     try_read (\<lambda>h. new_classic_balance (tl_balance line) amount bounds) (\<lambda>new_balance.
     modify (\<lambda>h. h\<lparr>trustlines := (trustlines h)((k, a) \<mapsto> line\<lparr>tl_balance := new_balance\<rparr>)\<rparr>))))"

definition check_classic_range :: "i64 \<Rightarrow> i64 \<times> i64 \<Rightarrow> host_error + i64" where
  "check_classic_range b = (\<lambda>(min_balance, max_balance).
     if b < min_balance then Inl (builtin_err CE_InternalError)
     else if b > max_balance then Inl (builtin_err CE_InternalError)
     else Inr b)"

definition get_account_balance :: "key32 \<Rightarrow> 'z host_scheme \<Rightarrow> host_error + i64" where
  "get_account_balance k h =
     (case read_account_entry k h of
        Inl e \<Rightarrow> Inl e
      | Inr ae \<Rightarrow>
          (case get_min_max_account_balance ae h of
             Inl e \<Rightarrow> Inl e | Inr bounds \<Rightarrow> check_classic_range (balance ae) bounds))"

definition get_trustline_balance :: "key32 \<Rightarrow> asset \<Rightarrow> 'z host_scheme \<Rightarrow> host_error + i64" where
  "get_trustline_balance k a h =
     (case read_trustline_entry k a h of
        Inl e \<Rightarrow> Inl e
      | Inr line \<Rightarrow>
          (case get_min_max_trustline_balance line of
             Inl e \<Rightarrow> Inl e | Inr bounds \<Rightarrow> check_classic_range (tl_balance line) bounds))"

definition transfer_classic_balance :: "hash32 \<Rightarrow> key32 \<Rightarrow> i64 \<Rightarrow> ('z sac_host_scheme, host_error) step" where
  "transfer_classic_balance c k amount =
     try_read (read_asset c) (\<lambda>a.
       case a of
         Native \<Rightarrow> transfer_account_balance k amount
       | CreditAlphanum4 _ issuer \<Rightarrow>
           if issuer = k then skip_step else transfer_trustline_balance k a amount
       | CreditAlphanum12 _ issuer \<Rightarrow>
           if issuer = k then skip_step else transfer_trustline_balance k a amount)"

definition get_classic_balance :: "hash32 \<Rightarrow> key32 \<Rightarrow> 'z sac_host_scheme \<Rightarrow> host_error + i64" where
  "get_classic_balance c k h =
     (case read_asset c h of
        Inl e \<Rightarrow> Inl e
      | Inr a \<Rightarrow>
          (case a of
             Native \<Rightarrow> get_account_balance k h
           | CreditAlphanum4 _ issuer \<Rightarrow>
               if issuer = k then Inr I64_MAX else get_trustline_balance k a h
           | CreditAlphanum12 _ issuer \<Rightarrow>
               if issuer = k then Inr I64_MAX else get_trustline_balance k a h))"

definition get_trustline_flags :: "key32 \<Rightarrow> asset \<Rightarrow> 'z host_scheme \<Rightarrow> host_error + 32 word" where
  "get_trustline_flags k a h =
     (case read_trustline_entry k a h of Inl e \<Rightarrow> Inl e | Inr line \<Rightarrow> Inr (tl_flags line))"

definition is_trustline_authorized :: "key32 \<Rightarrow> asset \<Rightarrow> 'z host_scheme \<Rightarrow> host_error + bool" where
  "is_trustline_authorized k a h =
     (case get_trustline_flags k a h of
        Inl e \<Rightarrow> Inl e | Inr f \<Rightarrow> Inr (f AND AUTHORIZED_FLAG \<noteq> 0))"

definition is_account_authorized :: "hash32 \<Rightarrow> key32 \<Rightarrow> 'z sac_host_scheme \<Rightarrow> host_error + bool" where
  "is_account_authorized c k h =
     (case read_asset c h of
        Inl e \<Rightarrow> Inl e
      | Inr a \<Rightarrow>
          (case a of
             Native \<Rightarrow> Inr True
           | CreditAlphanum4 _ issuer \<Rightarrow>
               if issuer = k then Inr True else is_trustline_authorized k a h
           | CreditAlphanum12 _ issuer \<Rightarrow>
               if issuer = k then Inr True else is_trustline_authorized k a h))"

definition authorize_flags :: "bool \<Rightarrow> 32 word \<Rightarrow> 32 word" where
  "authorize_flags authorize f =
     (if authorize
      then (f AND NOT AUTHORIZED_TO_MAINTAIN_LIABILITIES_FLAG) OR AUTHORIZED_FLAG
      else (f AND NOT AUTHORIZED_FLAG) OR AUTHORIZED_TO_MAINTAIN_LIABILITIES_FLAG)"

definition set_trustline_authorization ::
  "key32 \<Rightarrow> asset \<Rightarrow> bool \<Rightarrow> ('z host_scheme, host_error) step" where
  "set_trustline_authorization k a authorize =
     try_read (read_trustline_entry k a) (\<lambda>line.
       if (tl_flags line AND AUTHORIZED_FLAG \<noteq> 0) = authorize then skip_step
       else modify (\<lambda>h. h\<lparr>trustlines := (trustlines h)
              ((k, a) \<mapsto> line\<lparr>tl_flags := authorize_flags authorize (tl_flags line)\<rparr>)\<rparr>))"

definition set_authorization :: "hash32 \<Rightarrow> key32 \<Rightarrow> bool \<Rightarrow> ('z sac_host_scheme, host_error) step" where
  "set_authorization c k authorize =
     try_read (read_asset c) (\<lambda>a.
       case a of
         Native \<Rightarrow> fail (builtin_err OperationNotSupportedError)
       | CreditAlphanum4 _ issuer \<Rightarrow>
           if issuer = k then fail (builtin_err OperationNotSupportedError)
           else set_trustline_authorization k a authorize
       | CreditAlphanum12 _ issuer \<Rightarrow>
           if issuer = k then fail (builtin_err OperationNotSupportedError)
           else set_trustline_authorization k a authorize)"

definition is_issuer_flag_set :: "key32 \<Rightarrow> 32 word \<Rightarrow> 'z host_scheme \<Rightarrow> host_error + bool" where
  "is_issuer_flag_set issuer flag h =
     (case load_account (account_entries h) issuer of
        Inl e \<Rightarrow> Inl e | Inr ae \<Rightarrow> Inr (flags ae AND flag \<noteq> 0))"

definition is_asset_issuer_flag_set :: "hash32 \<Rightarrow> 32 word \<Rightarrow> 'z sac_host_scheme \<Rightarrow> host_error + bool" where
  "is_asset_issuer_flag_set c flag h =
     (case read_asset_info c h of
        Inl e \<Rightarrow> Inl e
      | Inr Info_Native \<Rightarrow> Inr False
      | Inr (Info_AlphaNum4 _ issuer) \<Rightarrow> is_issuer_flag_set issuer flag h
      | Inr (Info_AlphaNum12 _ issuer) \<Rightarrow> is_issuer_flag_set issuer flag h)"

definition is_asset_auth_required :: "hash32 \<Rightarrow> 'z sac_host_scheme \<Rightarrow> host_error + bool" where
  "is_asset_auth_required c = is_asset_issuer_flag_set c REQUIRED_FLAG"

definition is_asset_clawback_enabled :: "hash32 \<Rightarrow> 'z sac_host_scheme \<Rightarrow> host_error + bool" where
  "is_asset_clawback_enabled c = is_asset_issuer_flag_set c CLAWBACK_ENABLED_FLAG"

definition is_asset_auth_revocable :: "hash32 \<Rightarrow> 'z sac_host_scheme \<Rightarrow> host_error + bool" where
  "is_asset_auth_revocable c = is_asset_issuer_flag_set c REVOCABLE_FLAG"

section \<open>Balances of contracts\<close>

definition lookup_balance :: "hash32 \<Rightarrow> address \<Rightarrow> 'z sac_host_scheme \<Rightarrow> host_error + BalanceValue option" where
  "lookup_balance c a h = lookup_entry (ledger h) Persistent (sac_balances (sacs h c) a)"

definition extend_balance_ttl :: "hash32 \<Rightarrow> address \<Rightarrow> ('z sac_host_scheme, host_error) step" where
  "extend_balance_ttl c a =
     try_read (\<lambda>h. extend_entry (ledger h) Persistent BALANCE_TTL_THRESHOLD BALANCE_EXTEND_AMOUNT
                (sac_balances (sacs h c) a)) (\<lambda>e.
     modify (upd_sac c (\<lambda>s. s\<lparr>sac_balances := (sac_balances s)(a \<mapsto> e)\<rparr>)))"

definition read_balance :: "hash32 \<Rightarrow> address \<Rightarrow> ('z sac_host_scheme, host_error, i128) query" where
  "read_balance c addr =
     (case addr of
        Account k \<Rightarrow> try_read (get_classic_balance c k) ret
      | Contract _ \<Rightarrow>
          try_read (lookup_balance c addr) (\<lambda>r.
            case r of
              None \<Rightarrow> ret 0
            | Some b \<Rightarrow> and_then (extend_balance_ttl c addr) (ret (bv_amount b))))"

definition write_contract_balance ::
  "hash32 \<Rightarrow> address \<Rightarrow> BalanceValue \<Rightarrow> ('z sac_host_scheme, host_error) step" where
  "write_contract_balance c addr b = steps [
     try_read (\<lambda>h. put_entry (ledger h) Persistent (sac_balances (sacs h c) addr) b) (\<lambda>e.
       modify (upd_sac c (\<lambda>s. s\<lparr>sac_balances := (sac_balances s)(addr \<mapsto> e)\<rparr>))),
     extend_balance_ttl c addr]"

definition is_authorized :: "hash32 \<Rightarrow> address \<Rightarrow> 'z sac_host_scheme \<Rightarrow> host_error + bool" where
  "is_authorized c addr h =
     (case addr of
        Account k \<Rightarrow> is_account_authorized c k h
      | Contract _ \<Rightarrow>
          (case lookup_balance c addr h of
             Inl e \<Rightarrow> Inl e
           | Inr (Some b) \<Rightarrow> Inr (bv_authorized b)
           | Inr None \<Rightarrow>
               (case is_asset_auth_required c h of Inl e \<Rightarrow> Inl e | Inr r \<Rightarrow> Inr (\<not> r))))"

definition check_authorized :: "hash32 \<Rightarrow> address \<Rightarrow> ('z sac_host_scheme, host_error) step" where
  "check_authorized c addr =
     try_read (is_authorized c addr) (\<lambda>ok. reject (\<lambda>_. \<not> ok) (builtin_err BalanceDeauthorizedError))"

definition balance_or_new :: "hash32 \<Rightarrow> bool \<Rightarrow> BalanceValue option \<Rightarrow> 'z sac_host_scheme
  \<Rightarrow> host_error + BalanceValue" where
  "balance_or_new c authorize r h =
     (case r of
        Some b \<Rightarrow> Inr b
      | None \<Rightarrow>
          (case is_asset_clawback_enabled c h of
             Inl e \<Rightarrow> Inl e
           | Inr cb \<Rightarrow> Inr \<lparr>bv_amount = 0, bv_authorized = authorize, bv_clawback = cb\<rparr>))"

definition receive_balance :: "hash32 \<Rightarrow> address \<Rightarrow> i128 \<Rightarrow> ('z sac_host_scheme, host_error) step" where
  "receive_balance c addr amount = steps [
     check_authorized c addr,
     (case addr of
        Account k \<Rightarrow>
          ok_or (builtin_err OverflowError) (\<lambda>_. checked_i64 amount) (transfer_classic_balance c k)
      | Contract _ \<Rightarrow>
          try_read (lookup_balance c addr) (\<lambda>r.
          try_read (balance_or_new c True r) (\<lambda>b.
          ok_or (builtin_err OverflowError) (\<lambda>_. checked_i128 (bv_amount b + amount)) (\<lambda>new_balance.
          write_contract_balance c addr (b\<lparr>bv_amount := new_balance\<rparr>)))))]"

definition spend_balance_no_authorization_check ::
  "hash32 \<Rightarrow> address \<Rightarrow> i128 \<Rightarrow> ('z sac_host_scheme, host_error) step" where
  "spend_balance_no_authorization_check c addr amount =
     (case addr of
        Account k \<Rightarrow>
          ok_or (builtin_err OverflowError) (\<lambda>_. checked_i64 amount) (\<lambda>i64_amount.
          try_read (\<lambda>_. i64_op (- i64_amount)) (transfer_classic_balance c k))
      | Contract _ \<Rightarrow>
          try_read (lookup_balance c addr) (\<lambda>r.
            case r of
              Some b \<Rightarrow>
                if bv_amount b < amount then fail (builtin_err BalanceError)
                else ok_or (builtin_err OverflowError) (\<lambda>_. checked_i128 (bv_amount b - amount))
                  (\<lambda>new_balance. write_contract_balance c addr (b\<lparr>bv_amount := new_balance\<rparr>))
            | None \<Rightarrow> if amount > 0 then fail (builtin_err BalanceError) else skip_step))"

definition spend_balance :: "hash32 \<Rightarrow> address \<Rightarrow> i128 \<Rightarrow> ('z sac_host_scheme, host_error) step" where
  "spend_balance c addr amount = steps [
     check_authorized c addr,
     spend_balance_no_authorization_check c addr amount]"

definition write_authorization :: "hash32 \<Rightarrow> address \<Rightarrow> bool \<Rightarrow> ('z sac_host_scheme, host_error) step" where
  "write_authorization c addr authorize = steps [
     (if authorize then skip_step
      else try_read (is_asset_auth_revocable c) (\<lambda>r.
        reject (\<lambda>_. \<not> r) (builtin_err OperationNotSupportedError))),
     (case addr of
        Account k \<Rightarrow> set_authorization c k authorize
      | Contract _ \<Rightarrow>
          try_read (lookup_balance c addr) (\<lambda>r.
          try_read (balance_or_new c authorize r) (\<lambda>b.
          write_contract_balance c addr (b\<lparr>bv_authorized := authorize\<rparr>))))]"

definition validate_clawback_trustline :: "asset \<Rightarrow> key32 \<Rightarrow> key32 \<Rightarrow> ('z host_scheme, host_error) step" where
  "validate_clawback_trustline a issuer k =
     (if issuer = k then fail (builtin_err OperationNotSupportedError)
      else try_read (get_trustline_flags k a) (\<lambda>f.
        reject (\<lambda>_. f AND TRUSTLINE_CLAWBACK_ENABLED_FLAG = 0) (builtin_err BalanceError)))"

definition check_clawbackable :: "hash32 \<Rightarrow> address \<Rightarrow> ('z sac_host_scheme, host_error) step" where
  "check_clawbackable c addr =
     (case addr of
        Account k \<Rightarrow>
          try_read (read_asset c) (\<lambda>a.
            case a of
              Native \<Rightarrow> fail (builtin_err OperationNotSupportedError)
            | CreditAlphanum4 _ issuer \<Rightarrow> validate_clawback_trustline a issuer k
            | CreditAlphanum12 _ issuer \<Rightarrow> validate_clawback_trustline a issuer k)
      | Contract _ \<Rightarrow>
          try_read (lookup_balance c addr) (\<lambda>r.
            case r of
              Some b \<Rightarrow> reject (\<lambda>_. \<not> bv_clawback b) (builtin_err BalanceError)
            | None \<Rightarrow> fail (builtin_err BalanceError)))"

section \<open>Allowances\<close>

definition lookup_allowance ::
  "hash32 \<Rightarrow> address \<Rightarrow> address \<Rightarrow> 'z sac_host_scheme \<Rightarrow> host_error + AllowanceValue option" where
  "lookup_allowance c from spender h =
     lookup_entry (ledger h) Temporary (sac_allowances (sacs h c) (from, spender))"

definition read_allowance :: "hash32 \<Rightarrow> address \<Rightarrow> address \<Rightarrow> 'z sac_host_scheme \<Rightarrow> host_error + i128" where
  "read_allowance c from spender h =
     (case lookup_allowance c from spender h of
        Inl e \<Rightarrow> Inl e
      | Inr None \<Rightarrow> Inr 0
      | Inr (Some v) \<Rightarrow>
          if av_live_until_ledger v < sequence_number (ledger h) then Inr 0 else Inr (av_amount v))"

definition put_allowance ::
  "hash32 \<Rightarrow> address \<Rightarrow> address \<Rightarrow> AllowanceValue \<Rightarrow> ('z sac_host_scheme, host_error) step" where
  "put_allowance c from spender v =
     try_read (\<lambda>h. put_entry (ledger h) Temporary (sac_allowances (sacs h c) (from, spender)) v) (\<lambda>e.
     modify (upd_sac c (\<lambda>s. s\<lparr>sac_allowances := (sac_allowances s)((from, spender) \<mapsto> e)\<rparr>)))"

definition extend_allowance_ttl ::
  "hash32 \<Rightarrow> address \<Rightarrow> address \<Rightarrow> u32 \<Rightarrow> ('z sac_host_scheme, host_error) step" where
  "extend_allowance_ttl c from spender live_for =
     try_read (\<lambda>h. extend_entry (ledger h) Temporary live_for live_for
                (sac_allowances (sacs h c) (from, spender))) (\<lambda>e.
     modify (upd_sac c (\<lambda>s. s\<lparr>sac_allowances := (sac_allowances s)((from, spender) \<mapsto> e)\<rparr>)))"

definition validate_live_until :: "i128 \<Rightarrow> u32 \<Rightarrow> 'z host_scheme \<Rightarrow> host_error + u32" where
  "validate_live_until amount live_until h =
     (case max_live_until_ledger (ledger h) of
        Inl e \<Rightarrow> Inl e
      | Inr m \<Rightarrow>
          if live_until > m then Inl (builtin_err AllowanceError)
          else if amount > 0 \<and> live_until < sequence_number (ledger h)
          then Inl (builtin_err AllowanceError)
          else Inr (sequence_number (ledger h)))"

definition write_allowance ::
  "hash32 \<Rightarrow> address \<Rightarrow> address \<Rightarrow> i128 \<Rightarrow> u32 \<Rightarrow> ('z sac_host_scheme, host_error) step" where
  "write_allowance c from spender amount live_until =
     try_read (validate_live_until amount live_until) (\<lambda>ledger_seq.
     try_read (lookup_allowance c from spender) (\<lambda>old.
       case (case old of
               Some v \<Rightarrow> Some (v\<lparr>av_amount := amount, av_live_until_ledger := live_until\<rparr>,
                              Some (av_live_until_ledger v))
             | None \<Rightarrow>
                 if amount > 0
                 then Some (\<lparr>av_amount = amount, av_live_until_ledger = live_until\<rparr>, None)
                 else None) of
         None \<Rightarrow> skip_step
       | Some (v, old_live_until) \<Rightarrow> steps [
           put_allowance c from spender v,
           (if av_amount v > 0 \<and> (case old_live_until of None \<Rightarrow> 0 | Some l \<Rightarrow> l) < live_until
            then extend_allowance_ttl c from spender
              (saturating_add_u32 (saturating_sub_u32 live_until ledger_seq) 1)
            else skip_step)]))"

definition write_allowance_amount ::
  "hash32 \<Rightarrow> address \<Rightarrow> address \<Rightarrow> i128 \<Rightarrow> ('z sac_host_scheme, host_error) step" where
  "write_allowance_amount c from spender amount =
     try_read (\<lambda>h. get_entry (ledger h) Temporary (sac_allowances (sacs h c) (from, spender))) (\<lambda>v.
     write_allowance c from spender amount (av_live_until_ledger v))"

definition spend_allowance ::
  "hash32 \<Rightarrow> address \<Rightarrow> address \<Rightarrow> i128 \<Rightarrow> ('z sac_host_scheme, host_error) step" where
  "spend_allowance c from spender amount =
     try_read (read_allowance c from spender) (\<lambda>a.
       if a < amount then fail (builtin_err AllowanceError)
       else if amount > 0 then
         ok_or (builtin_err OverflowError) (\<lambda>_. checked_i128 (a - amount))
           (write_allowance_amount c from spender)
       else skip_step)"

section \<open>Events\<close>

definition sac_event :: "hash32 \<Rightarrow> string \<Rightarrow> address list \<Rightarrow> sc_val \<Rightarrow> ('z sac_host_scheme, host_error) step" where
  "sac_event c name addrs data =
     try_read (read_name c) (\<lambda>n.
     publish_event (SSymbol name # map SAddress addrs @ [SString n]) data)"

definition event_approve where
  "event_approve c from to amount live_until =
     sac_event c ''approve'' [from, to] (SVec [SI128 amount, SU32 live_until])"

definition event_transfer where
  "event_transfer c from to amount = sac_event c ''transfer'' [from, to] (SI128 amount)"

definition event_mint where
  "event_mint c admin to amount = sac_event c ''mint'' [admin, to] (SI128 amount)"

definition event_clawback where
  "event_clawback c admin from amount = sac_event c ''clawback'' [admin, from] (SI128 amount)"

definition event_set_authorized where
  "event_set_authorized c admin addr authorize =
     sac_event c ''set_authorized'' [admin, addr] (SBool authorize)"

definition event_set_admin where
  "event_set_admin c admin new_admin = sac_event c ''set_admin'' [admin] (SAddress new_admin)"

definition event_burn where
  "event_burn c from amount = sac_event c ''burn'' [from] (SI128 amount)"

section \<open>The exported functions\<close>

definition check_nonnegative_amount :: "i128 \<Rightarrow> ('s, host_error) step" where
  "check_nonnegative_amount amount = reject (\<lambda>_. amount < 0) (builtin_err NegativeAmountError)"

definition check_non_native :: "hash32 \<Rightarrow> ('z sac_host_scheme, host_error) step" where
  "check_non_native c =
     try_read (read_asset_info c) (\<lambda>i.
       reject (\<lambda>_. i = Info_Native) (builtin_err OperationNotSupportedError))"

fun info_issuer :: "AssetInfo \<Rightarrow> key32 option" where
  "info_issuer Info_Native = None"
| "info_issuer (Info_AlphaNum4 _ issuer) = Some issuer"
| "info_issuer (Info_AlphaNum12 _ issuer) = Some issuer"

definition check_not_issuer :: "hash32 \<Rightarrow> address \<Rightarrow> ('z sac_host_scheme, host_error) step" where
  "check_not_issuer c addr =
     try_read (read_asset_info c) (\<lambda>i.
       case info_issuer i of
         None \<Rightarrow> skip_step
       | Some issuer \<Rightarrow> reject (\<lambda>_. Account issuer = addr) (builtin_err OperationNotSupportedError))"

definition extend_sac_instance :: "('z sac_host_scheme, host_error) step" where
  "extend_sac_instance =
     extend_current_contract_instance_and_code_ttl INSTANCE_TTL_THRESHOLD INSTANCE_EXTEND_AMOUNT"

fun info_of_asset :: "asset \<Rightarrow> AssetInfo" where
  "info_of_asset Native = Info_Native"
| "info_of_asset (CreditAlphanum4 code issuer) = Info_AlphaNum4 code issuer"
| "info_of_asset (CreditAlphanum12 code issuer) = Info_AlphaNum12 code issuer"

text \<open>The argument of \<open>init_asset\<close> is the XDR of an asset; decoding it is the XDR library's.\<close>

definition sac_init_asset :: "externals \<Rightarrow> hash32 \<Rightarrow> asset \<Rightarrow> ('z sac_host_scheme, host_error) step" where
  "sac_init_asset X c a = steps [
     reject (has_asset_info c) (builtin_err AlreadyInitializedError),
     try_read (\<lambda>h. validate_asset a) (\<lambda>_. skip_step),
     reject (\<lambda>_. c \<noteq> x_contract_id X (PreimageAsset a)) (builtin_err CE_InternalError),
     (case info_issuer (info_of_asset a) of
        None \<Rightarrow> skip_step
      | Some issuer \<Rightarrow> write_administrator c (Account issuer)),
     write_asset_info c (info_of_asset a),
     set_metadata X c]"

definition sac_allowance :: "hash32 \<Rightarrow> address \<Rightarrow> address \<Rightarrow> ('z sac_host_scheme, host_error, i128) query" where
  "sac_allowance c from spender =
     and_then extend_sac_instance (try_read (read_allowance c from spender) ret)"

definition sac_approve ::
  "externals \<Rightarrow> hash32 \<Rightarrow> address \<Rightarrow> address \<Rightarrow> i128 \<Rightarrow> u32 \<Rightarrow> ('z sac_host_scheme, host_error) step" where
  "sac_approve X c from spender amount live_until = steps [
     check_nonnegative_amount amount,
     require_auth X from,
     extend_sac_instance,
     write_allowance c from spender amount live_until,
     event_approve c from spender amount live_until]"

definition sac_balance :: "hash32 \<Rightarrow> address \<Rightarrow> ('z sac_host_scheme, host_error, i128) query" where
  "sac_balance c addr = and_then extend_sac_instance (read_balance c addr)"

definition sac_authorized :: "hash32 \<Rightarrow> address \<Rightarrow> ('z sac_host_scheme, host_error, bool) query" where
  "sac_authorized c addr = and_then extend_sac_instance (try_read (is_authorized c addr) ret)"

definition sac_transfer ::
  "externals \<Rightarrow> hash32 \<Rightarrow> address \<Rightarrow> address \<Rightarrow> i128 \<Rightarrow> ('z sac_host_scheme, host_error) step" where
  "sac_transfer X c from to amount = steps [
     check_nonnegative_amount amount,
     require_auth X from,
     extend_sac_instance,
     spend_balance c from amount,
     receive_balance c to amount,
     event_transfer c from to amount]"

definition sac_transfer_from ::
  "externals \<Rightarrow> hash32 \<Rightarrow> address \<Rightarrow> address \<Rightarrow> address \<Rightarrow> i128 \<Rightarrow> ('z sac_host_scheme, host_error) step" where
  "sac_transfer_from X c spender from to amount = steps [
     check_nonnegative_amount amount,
     require_auth X spender,
     extend_sac_instance,
     spend_allowance c from spender amount,
     spend_balance c from amount,
     receive_balance c to amount,
     event_transfer c from to amount]"

definition sac_burn :: "externals \<Rightarrow> hash32 \<Rightarrow> address \<Rightarrow> i128 \<Rightarrow> ('z sac_host_scheme, host_error) step" where
  "sac_burn X c from amount = steps [
     check_nonnegative_amount amount,
     check_non_native c,
     check_not_issuer c from,
     require_auth X from,
     extend_sac_instance,
     spend_balance c from amount,
     event_burn c from amount]"

definition sac_burn_from ::
  "externals \<Rightarrow> hash32 \<Rightarrow> address \<Rightarrow> address \<Rightarrow> i128 \<Rightarrow> ('z sac_host_scheme, host_error) step" where
  "sac_burn_from X c spender from amount = steps [
     check_nonnegative_amount amount,
     check_non_native c,
     check_not_issuer c from,
     require_auth X spender,
     extend_sac_instance,
     spend_allowance c from spender amount,
     spend_balance c from amount,
     event_burn c from amount]"

definition sac_clawback :: "externals \<Rightarrow> hash32 \<Rightarrow> address \<Rightarrow> i128 \<Rightarrow> ('z sac_host_scheme, host_error) step" where
  "sac_clawback X c from amount = steps [
     check_nonnegative_amount amount,
     check_clawbackable c from,
     check_not_issuer c from,
     try_read (read_administrator c) (\<lambda>admin. steps [
       require_auth X admin,
       extend_sac_instance,
       spend_balance_no_authorization_check c from amount,
       event_clawback c admin from amount])]"

definition sac_set_authorized ::
  "externals \<Rightarrow> hash32 \<Rightarrow> address \<Rightarrow> bool \<Rightarrow> ('z sac_host_scheme, host_error) step" where
  "sac_set_authorized X c addr authorize =
     try_read (read_administrator c) (\<lambda>admin. steps [
       require_auth X admin,
       extend_sac_instance,
       write_authorization c addr authorize,
       event_set_authorized c admin addr authorize])"

definition sac_mint :: "externals \<Rightarrow> hash32 \<Rightarrow> address \<Rightarrow> i128 \<Rightarrow> ('z sac_host_scheme, host_error) step" where
  "sac_mint X c to amount = steps [
     check_nonnegative_amount amount,
     check_not_issuer c to,
     try_read (read_administrator c) (\<lambda>admin. steps [
       require_auth X admin,
       extend_sac_instance,
       receive_balance c to amount,
       event_mint c admin to amount])]"

definition sac_set_admin :: "externals \<Rightarrow> hash32 \<Rightarrow> address \<Rightarrow> ('z sac_host_scheme, host_error) step" where
  "sac_set_admin X c new_admin =
     try_read (read_administrator c) (\<lambda>admin. steps [
       require_auth X admin,
       extend_sac_instance,
       write_administrator c new_admin,
       event_set_admin c admin new_admin])"

definition sac_admin :: "hash32 \<Rightarrow> ('z sac_host_scheme, host_error, address) query" where
  "sac_admin c = try_read (read_administrator c) ret"

definition sac_decimals :: "('z sac_host_scheme, host_error, u32) query" where
  "sac_decimals = ret DECIMAL"

definition sac_name :: "hash32 \<Rightarrow> ('z sac_host_scheme, host_error, bytes) query" where
  "sac_name c = try_read (read_name c) ret"

definition sac_symbol :: "hash32 \<Rightarrow> ('z sac_host_scheme, host_error, bytes) query" where
  "sac_symbol c = try_read (read_symbol c) ret"

text \<open>The calls of \<open>token::Client\<close>.\<close>

definition token_transfer ::
  "externals \<Rightarrow> address \<Rightarrow> address \<Rightarrow> address \<Rightarrow> i128 \<Rightarrow> ('z sac_host_scheme, host_error) step" where
  "token_transfer X token from to amount =
     ok_or (HostErr SCE_Value InvalidInput) (\<lambda>_. contract_of token) (\<lambda>c.
     call_step c StellarAsset ''transfer'' [SAddress from, SAddress to, SI128 amount]
       (sac_transfer X c from to amount))"

definition token_balance ::
  "address \<Rightarrow> address \<Rightarrow> ('z sac_host_scheme, host_error, i128) query" where
  "token_balance token addr =
     ok_or (HostErr SCE_Value InvalidInput) (\<lambda>_. contract_of token) (\<lambda>c.
     call_query c StellarAsset ''balance'' [SAddress addr] (sac_balance c addr))"

end
