(* ===== verification/Stellar_Asset_Laws.thy ===== *)
theory Stellar_Asset_Laws
  imports Stellar_Asset
begin

text \<open>
  What the Stellar Asset Contract promises its callers: frame conditions for every function,
  the effect of each balance operation on the ledger of balances, and the interpretation
  of \<open>token_ledger\<close> on \<open>token_transfer\<close>.
\<close>

section \<open>Frame conditions\<close>

text \<open>What a token contract leaves alone: the host's view, the configuration of every asset
  contract, and all state outside the asset contracts.\<close>

definition sac_config :: "sac_state \<Rightarrow> address option \<times> AssetInfo option \<times> StellarAssetContractMetadata option" where
  "sac_config s = (sac_admin_key s, sac_asset_info s, sac_metadata s)"

definition sac_view where
  "sac_view h = (host_view h, (\<lambda>c. sac_config (sacs h c)), sac_host.more h)"

lemma sac_view_upd:
  "(\<And>s. sac_config (f s) = sac_config s) \<Longrightarrow> sac_view (upd_sac c f h) = sac_view h"
  by (auto simp: sac_view_def upd_sac_def host_view_def)

lemma sac_view_shapes [view_rules]:
  "keeps sac_view (require_auth X a)"
  "keeps sac_view (publish_event ts d)"
  "keeps sac_view (extend_current_contract_instance_and_code_ttl t e)"
  by (rule keepsI; auto simp: sac_view_def host_view_def dest!: require_auth_shape
      publish_event_shape extend_instance_shape)+

lemma sac_view_classic [view_rules]:
  "keeps sac_view (transfer_account_balance k n)"
  "keeps sac_view (transfer_trustline_balance k a n)"
  "keeps sac_view (set_trustline_authorization k a b)"
  by (rule keepsI; auto simp: transfer_account_balance_def transfer_trustline_balance_def
      set_trustline_authorization_def ok_simps sac_view_def host_view_def split: if_splits)+

lemma sac_view_balance_slots [view_rules]:
  "keeps sac_view (extend_balance_ttl c a)"
  "keeps sac_view (write_contract_balance c a b)"
  "keeps sac_view (put_allowance c a s v)"
  "keeps sac_view (extend_allowance_ttl c a s n)"
  unfolding extend_balance_ttl_def write_contract_balance_def put_allowance_def extend_allowance_ttl_def
  by (intro keeps_rules sac_view_upd; simp add: sac_config_def)+

lemma sac_view_ops [view_rules]:
  "keeps sac_view (transfer_classic_balance c k n)"
  "keeps sac_view (set_authorization c k b)"
  unfolding transfer_classic_balance_def set_authorization_def
  by (auto intro!: keeps_rules view_rules split: asset.splits)

lemma sac_view_allowance [view_rules]: "keeps sac_view (write_allowance c a s n l)"
  unfolding write_allowance_def
  by (intro keeps_rules) (auto intro!: keeps_rules view_rules split: option.splits)

lemma sac_view_spend_allowance [view_rules]: "keeps sac_view (spend_allowance c a s n)"
  unfolding spend_allowance_def write_allowance_amount_def
  by (intro keeps_rules) (auto intro!: keeps_rules view_rules)

lemma sac_view_event [view_rules]: "keeps sac_view (sac_event c n as d)"
  unfolding sac_event_def by (intro keeps_rules view_rules)

lemma sac_view_check [view_rules]: "keeps sac_view (check_authorized c a)"
  unfolding check_authorized_def by (intro keeps_rules)

lemma sac_view_spend_nocheck [view_rules]: "keeps sac_view (spend_balance_no_authorization_check c a n)"
  unfolding spend_balance_no_authorization_check_def
  by (cases a) (auto intro!: keeps_rules view_rules split: option.splits)

lemma sac_view_spend [view_rules]: "keeps sac_view (spend_balance c a n)"
  unfolding spend_balance_def by (intro keeps_rules view_rules)

lemma sac_view_receive [view_rules]: "keeps sac_view (receive_balance c a n)"
  unfolding receive_balance_def
  by (cases a) (auto intro!: keeps_rules view_rules)

lemma sac_view_read_balance [view_rules]: "keepsq sac_view (read_balance c a)"
  unfolding read_balance_def
  by (cases a) (auto intro!: keeps_rules view_rules split: option.splits)

lemma sac_view_transfer [view_rules]: "keeps sac_view (sac_transfer X c a b n)"
  unfolding sac_transfer_def check_nonnegative_amount_def extend_sac_instance_def event_transfer_def
  by (intro keeps_rules view_rules)

lemma sac_view_balance [view_rules]: "keepsq sac_view (sac_balance c a)"
  unfolding sac_balance_def extend_sac_instance_def by (intro keeps_rules view_rules)

definition sac_rest where
  "sac_rest h = ((\<lambda>c. sac_config (sacs h c)), sac_host.more h)"

lemma sac_view_split: "sac_view h = sac_view h' \<longleftrightarrow> host_view h = host_view h' \<and> sac_rest h = sac_rest h'"
  by (simp add: sac_view_def sac_rest_def)

lemma keeps_sac_view: "keeps sac_view f \<longleftrightarrow> keeps host_view f \<and> keeps sac_rest f"
  by (auto simp: keeps_def sac_view_split)

lemma keepsq_sac_view: "keepsq sac_view f \<longleftrightarrow> keepsq host_view f \<and> keepsq sac_rest f"
  by (auto simp: keepsq_def sac_view_split)

lemma sac_rest_blind: "call_blind sac_rest"
  by (simp add: call_blind_def sac_rest_def)

lemma sac_view_call [view_rules]:
  "keeps sac_view body \<Longrightarrow> keeps sac_view (call_step c x fn args body)"
  by (simp add: keeps_sac_view host_view_call keeps_call sac_rest_blind)

lemma sac_view_callq [view_rules]:
  "keepsq sac_view body \<Longrightarrow> keepsq sac_view (call_query c x fn args body)"
  by (simp add: keepsq_sac_view host_view_callq keepsq_call sac_rest_blind)

lemma sac_view_token_transfer [view_rules]: "keeps sac_view (token_transfer X tok a b n)"
  unfolding token_transfer_def by (intro keeps_rules view_rules)

lemma sac_view_token_balance [view_rules]: "keepsq sac_view (token_balance tok a)"
  unfolding token_balance_def by (intro keeps_rules view_rules)

section \<open>The ledger of balances\<close>

fun asset_issuer :: "asset \<Rightarrow> key32 option" where
  "asset_issuer Native = None"
| "asset_issuer (CreditAlphanum4 _ issuer) = Some issuer"
| "asset_issuer (CreditAlphanum12 _ issuer) = Some issuer"

definition classic_bal :: "asset \<Rightarrow> key32 \<Rightarrow> 'z host_scheme \<Rightarrow> int" where
  "classic_bal a k h =
     (case a of
        Native \<Rightarrow> (case account_entries h k of None \<Rightarrow> 0 | Some ae \<Rightarrow> balance ae)
      | _ \<Rightarrow> (case trustlines h (k, a) of None \<Rightarrow> 0 | Some line \<Rightarrow> tl_balance line))"

definition sac_bal :: "hash32 \<Rightarrow> 'z sac_host_scheme \<Rightarrow> address \<Rightarrow> int" where
  "sac_bal c h addr =
     (case addr of
        Contract _ \<Rightarrow> (case sac_balances (sacs h c) addr of None \<Rightarrow> 0 | Some (b, _) \<Rightarrow> bv_amount b)
      | Account k \<Rightarrow> (case read_asset c h of Inl _ \<Rightarrow> 0 | Inr a \<Rightarrow> classic_bal a k h))"

definition sac_tracked :: "hash32 \<Rightarrow> 'z sac_host_scheme \<Rightarrow> address \<Rightarrow> bool" where
  "sac_tracked c h addr =
     (case addr of
        Contract _ \<Rightarrow> True
      | Account k \<Rightarrow> (case read_asset c h of Inl _ \<Rightarrow> False | Inr a \<Rightarrow> asset_issuer a \<noteq> Some k))"

lemma sac_tracked_contract [simp]: "sac_tracked c h (Contract d)"
  by (simp add: sac_tracked_def)

text \<open>The asset behind a token contract is part of its configuration.\<close>

lemma sac_view_asset:
  assumes "sac_view h' = sac_view h"
  shows "read_asset c h' = read_asset c h"
proof -
  have "sac_config (sacs h' c) = sac_config (sacs h c)"
    using assms by (simp add: sac_view_def fun_eq_iff)
  then show ?thesis
    by (simp add: sac_config_def read_asset_def read_asset_info_def)
qed

lemma sac_view_tracked: "sac_view h' = sac_view h \<Longrightarrow> sac_tracked c h' = sac_tracked c h"
  using sac_view_asset [of h' h c] by (auto simp: sac_tracked_def fun_eq_iff split: address.splits)

lemma classic_bal_upd_sac [simp]: "classic_bal a k (upd_sac d f h) = classic_bal a k h"
  by (simp add: classic_bal_def upd_sac_def split: asset.splits)

lemma sacs_upd_sac [simp]: "sacs (upd_sac d f h) c = (if c = d then f (sacs h d) else sacs h c)"
  by (simp add: upd_sac_def)

lemma read_asset_upd_balances [simp]:
  "read_asset c (upd_sac d (\<lambda>s. s\<lparr>sac_balances := f s\<rparr>) h) = read_asset c h"
  by (simp add: read_asset_def read_asset_info_def)

text \<open>Writing one balance slot.\<close>

lemma sac_bal_upd_slot:
  "sac_bal c (upd_sac d (\<lambda>s. s\<lparr>sac_balances := (sac_balances s)(a \<mapsto> (b, l))\<rparr>) h) x =
     (if c = d \<and> x = a \<and> (\<exists>i. a = Contract i) then bv_amount b else sac_bal c h x)"
  by (auto simp: sac_bal_def split: address.splits sum.splits)

text \<open>Steps of the host other than the token's keep every balance.\<close>

lemma sac_bal_cong:
  assumes "sacs h' c = sacs h c" and "account_entries h' = account_entries h"
    and "trustlines h' = trustlines h"
  shows "sac_bal c h' = sac_bal c h"
  using assms
  by (auto simp: sac_bal_def read_asset_def read_asset_info_def classic_bal_def fun_eq_iff
      split: address.splits sum.splits asset.splits)

lemma sac_bal_host [view_rules]:
  "keeps (sac_bal c) (require_auth X a)"
  "keeps (sac_bal c) (publish_event ts d)"
  "keeps (sac_bal c) (extend_current_contract_instance_and_code_ttl t e)"
  "keeps (sac_bal c) (authorize_as_curr_contract es)"
  by (rule keepsI; rule sac_bal_cong; auto dest!: require_auth_shape publish_event_shape
      extend_instance_shape authorize_as_curr_contract_shape)+

lemma sac_bal_frame_updates [simp]:
  "sac_bal c (h\<lparr>frames := fs\<rparr>) = sac_bal c h"
  "sac_bal c (h\<lparr>auth := m\<rparr>) = sac_bal c h"
  "sac_bal c (h\<lparr>events := ev\<rparr>) = sac_bal c h"
  by (intro sac_bal_cong; simp)+

lemma sac_bal_blind [simp]: "call_blind (sac_bal c)"
  by (simp add: call_blind_def)

section \<open>The effect of the balance operations\<close>

lemma extend_balance_ttl_bal [view_rules]: "keeps (sac_bal c) (extend_balance_ttl d a)"
proof (rule keepsI)
  fix h h' :: "'a sac_host_scheme"
  assume "extend_balance_ttl d a h = Inr h'"
  then obtain e where
    e: "extend_entry (ledger h) Persistent BALANCE_TTL_THRESHOLD BALANCE_EXTEND_AMOUNT
       (sac_balances (sacs h d) a) = Inr e" and
    h': "h' = upd_sac d (\<lambda>s. s\<lparr>sac_balances := (sac_balances s)(a \<mapsto> e)\<rparr>) h"
    by (auto simp: extend_balance_ttl_def ok_simps)
  obtain v l m where "e = (v, l)" and "sac_balances (sacs h d) a = Some (v, m)"
    using extend_entry_ok [OF e] by (cases e) auto
  then show "sac_bal c h' = sac_bal c h"
    using h' by (intro ext) (simp add: sac_bal_upd_slot, auto simp: sac_bal_def)
qed

lemma write_contract_balance_bal:
  assumes "write_contract_balance c (Contract d) b h = Inr h'"
  shows "sac_bal c h' a = (if a = Contract d then bv_amount b else sac_bal c h a)"
proof -
  obtain e h1 where
    e: "put_entry (ledger h) Persistent (sac_balances (sacs h c) (Contract d)) b = Inr e" and
    h1: "h1 = upd_sac c (\<lambda>s. s\<lparr>sac_balances := (sac_balances s)(Contract d \<mapsto> e)\<rparr>) h" and
    ext: "extend_balance_ttl c (Contract d) h1 = Inr h'"
    using assms by (auto simp: write_contract_balance_def ok_simps)
  have "sac_bal c h' a = sac_bal c h1 a"
    using keepsD [OF extend_balance_ttl_bal ext] by simp
  moreover have "sac_bal c h1 a = (if a = Contract d then bv_amount b else sac_bal c h a)"
    using put_entry_ok [OF e] h1 by (cases e) (auto simp: sac_bal_upd_slot)
  ultimately show ?thesis
    by simp
qed

lemma lookup_balance_ok:
  "lookup_balance c (Contract d) h = Inr (Some b) \<Longrightarrow> sac_bal c h (Contract d) = bv_amount b"
  "lookup_balance c (Contract d) h = Inr None \<Longrightarrow> sac_bal c h (Contract d) = 0"
  by (auto simp: lookup_balance_def lookup_entry_Some lookup_entry_None sac_bal_def)

lemma new_classic_balance_ok:
  "new_classic_balance old n r = Inr b \<Longrightarrow> b = old + n \<and> fst r \<le> b \<and> b \<le> snd r"
  by (auto simp: new_classic_balance_def split: prod.splits option.splits if_splits)

lemma transfer_account_balance_bal:
  assumes "transfer_account_balance k n h = Inr h'"
  shows "\<exists>ae m. account_entries h k = Some ae \<and>
    h' = h\<lparr>account_entries := (account_entries h)(k \<mapsto> ae\<lparr>balance := balance ae + n\<rparr>)\<rparr>"
  using assms
  by (auto simp: transfer_account_balance_def ok_simps read_account_entry_def
      split: option.splits dest!: new_classic_balance_ok)

lemma transfer_trustline_balance_bal:
  assumes "transfer_trustline_balance k a n h = Inr h'"
  shows "\<exists>line. trustlines h (k, a) = Some line \<and>
    h' = h\<lparr>trustlines := (trustlines h)((k, a) \<mapsto> line\<lparr>tl_balance := tl_balance line + n\<rparr>)\<rparr>"
  using assms
  by (auto simp: transfer_trustline_balance_def ok_simps read_trustline_entry_def
      split: option.splits dest!: new_classic_balance_ok)

lemma transfer_classic_balance_cases:
  assumes "transfer_classic_balance c k n h = Inr h'"
  obtains (native) "read_asset c h = Inr Native" "transfer_account_balance k n h = Inr h'"
  | (issuer) a where "read_asset c h = Inr a" "asset_issuer a = Some k" "h' = h"
  | (line) a where "read_asset c h = Inr a" "a \<noteq> Native" "transfer_trustline_balance k a n h = Inr h'"
proof -
  from assms obtain a where a: "read_asset c h = Inr a"
    by (auto simp: transfer_classic_balance_def ok_simps)
  show thesis
    using assms a that
    by (cases a) (auto simp: transfer_classic_balance_def ok_simps split: if_splits)
qed

lemma transfer_classic_balance_bal:
  assumes "transfer_classic_balance c k n h = Inr h'" and "sac_tracked c h a"
  shows "sac_bal c h' a = sac_bal c h a + (if a = Account k then n else 0)"
proof -
  have asset: "read_asset c h' = read_asset c h"
    using keepsD [OF sac_view_ops(1) assms(1)] by (rule sac_view_asset)
  from assms(1) show ?thesis
  proof (cases rule: transfer_classic_balance_cases)
    case native
    then show ?thesis
      using asset transfer_account_balance_bal [OF native(2)]
      by (auto simp: sac_bal_def classic_bal_def split: address.splits)
  next
    case (issuer b)
    then show ?thesis
      using assms(2) by (auto simp: sac_tracked_def split: address.splits)
  next
    case (line b)
    then show ?thesis
      using asset transfer_trustline_balance_bal [OF line(3)]
      by (auto simp: sac_bal_def classic_bal_def split: address.splits asset.splits)
  qed
qed

lemma check_authorized_ok:
  "check_authorized c a h = Inr h' \<longleftrightarrow> h' = h \<and> is_authorized c a h = Inr True"
  by (auto simp: check_authorized_def ok_simps)

lemma spend_nocheck_bal:
  assumes "spend_balance_no_authorization_check c a n h = Inr h'" and "0 \<le> n" and "sac_tracked c h x"
  shows "sac_bal c h' x = sac_bal c h x - (if x = a then n else 0)"
proof (cases a)
  case (Account k)
  then have "transfer_classic_balance c k (- n) h = Inr h'"
    using assms(1)
    by (auto simp: spend_balance_no_authorization_check_def ok_simps i64_op_def split: option.splits)
  then show ?thesis
    using transfer_classic_balance_bal [OF _ assms(3)] Account by simp
next
  case (Contract d)
  then obtain r where r: "lookup_balance c (Contract d) h = Inr r"
    using assms(1) by (auto simp: spend_balance_no_authorization_check_def ok_simps)
  show ?thesis
  proof (cases r)
    case None
    then show ?thesis
      using assms r Contract
      by (auto simp: spend_balance_no_authorization_check_def ok_simps split: if_splits)
  next
    case (Some b)
    then have "write_contract_balance c (Contract d) (b\<lparr>bv_amount := bv_amount b - n\<rparr>) h = Inr h'"
      using assms(1) r Contract
      by (auto simp: spend_balance_no_authorization_check_def ok_simps split: if_splits)
    then show ?thesis
      using write_contract_balance_bal [of c d _ h h' x] lookup_balance_ok(1) [of c d h b] r Some Contract
      by auto
  qed
qed

lemma spend_nocheck_covered:
  assumes "spend_balance_no_authorization_check c (Contract d) n h = Inr h'"
  shows "n \<le> max 0 (sac_bal c h (Contract d))"
proof -
  obtain r where r: "lookup_balance c (Contract d) h = Inr r"
    using assms by (auto simp: spend_balance_no_authorization_check_def ok_simps)
  show ?thesis
    using assms r lookup_balance_ok [of c d h]
    by (cases r) (auto simp: spend_balance_no_authorization_check_def ok_simps split: if_splits)
qed

lemma receive_bal:
  assumes "receive_balance c a n h = Inr h'" and "sac_tracked c h x"
  shows "sac_bal c h' x = sac_bal c h x + (if x = a then n else 0)"
proof (cases a)
  case (Account k)
  then have "transfer_classic_balance c k n h = Inr h'"
    using assms(1) by (auto simp: receive_balance_def check_authorized_ok ok_simps)
  then show ?thesis
    using transfer_classic_balance_bal [OF _ assms(2)] Account by simp
next
  case (Contract d)
  then obtain r b where r: "lookup_balance c (Contract d) h = Inr r"
    and b: "balance_or_new c True r h = Inr b"
    and w: "write_contract_balance c (Contract d) (b\<lparr>bv_amount := bv_amount b + n\<rparr>) h = Inr h'"
    using assms(1) by (auto simp: receive_balance_def check_authorized_ok ok_simps)
  have "bv_amount b = sac_bal c h (Contract d)"
    using lookup_balance_ok [of c d h] r b
    by (cases r) (auto simp: balance_or_new_def split: sum.splits)
  then show ?thesis
    using write_contract_balance_bal [OF w, of x] Contract by simp
qed

text \<open>\<open>transfer\<close> and \<open>transfer_from\<close> share their last three steps.\<close>

lemma spend_receive_bal:
  assumes "spend_balance c a n h = Inr h1" and "receive_balance c b n h1 = Inr h2"
    and "0 \<le> n" and "sac_tracked c h x"
  shows "sac_bal c h2 x = sac_bal c h x + (if x = b then n else 0) - (if x = a then n else 0)"
proof -
  have sp: "spend_balance_no_authorization_check c a n h = Inr h1"
    using assms(1) by (simp add: spend_balance_def check_authorized_ok ok_simps)
  have "sac_tracked c h1 x"
    using sac_view_tracked [OF keepsD [OF sac_view_spend assms(1)]] assms(4) by metis
  then show ?thesis
    using spend_nocheck_bal [OF sp assms(3,4)] receive_bal [OF assms(2)] by simp
qed

lemma sac_transfer_ok:
  assumes "sac_transfer X c a b n h = Inr h'"
  obtains h1 h2 h3 where "0 \<le> n" and "has_authorized X a h"
    and "sac_bal c h1 = sac_bal c h" and "sac_view h1 = sac_view h"
    and "spend_balance c a n h1 = Inr h2" and "receive_balance c b n h2 = Inr h3"
    and "sac_bal c h' = sac_bal c h3"
proof -
  from assms obtain g1 h1 h2 h3 where
    n: "0 \<le> n" and auth: "require_auth X a h = Inr g1" and ext: "extend_sac_instance g1 = Inr h1" and
    sp: "spend_balance c a n h1 = Inr h2" and rc: "receive_balance c b n h2 = Inr h3" and
    ev: "event_transfer c a b n h3 = Inr h'"
    by (auto simp: sac_transfer_def check_nonnegative_amount_def ok_simps)
  have "sac_bal c h1 = sac_bal c h"
    using keepsD [OF sac_bal_host(1) auth] keepsD [OF sac_bal_host(3) ext [unfolded extend_sac_instance_def]]
    by simp
  moreover have "sac_view h1 = sac_view h"
    using keepsD [OF sac_view_shapes(1) auth]
      keepsD [OF sac_view_shapes(3) ext [unfolded extend_sac_instance_def]]
    by simp
  moreover have ev_keeps: "keeps (sac_bal c) (event_transfer c a b n)"
    unfolding event_transfer_def sac_event_def by (intro keeps_rules view_rules)
  have "sac_bal c h' = sac_bal c h3"
    by (rule keepsD [OF ev_keeps ev])
  ultimately show thesis
    using that n sp rc require_auth_authorized [OF auth] by blast
qed

lemma sac_transfer_bal:
  assumes "sac_transfer X c a b n h = Inr h'" and "sac_tracked c h x"
  shows "sac_bal c h' x = sac_bal c h x + (if x = b then n else 0) - (if x = a then n else 0)"
proof -
  from assms(1) obtain h1 h2 h3 where "0 \<le> n" and bal: "sac_bal c h1 = sac_bal c h"
    and view: "sac_view h1 = sac_view h"
    and sp: "spend_balance c a n h1 = Inr h2" and rc: "receive_balance c b n h2 = Inr h3"
    and bal': "sac_bal c h' = sac_bal c h3"
    by (rule sac_transfer_ok)
  have "sac_tracked c h1 x"
    using sac_view_tracked [OF view] assms(2) by metis
  from spend_receive_bal [OF sp rc \<open>0 \<le> n\<close> this] show ?thesis
    by (simp add: bal bal')
qed

section \<open>The asset contract is a token\<close>

lemma token_transfer_ok:
  assumes "token_transfer X (Contract c) a b n h = Inr h'"
  obtains h1 h2 where "h1 = h\<lparr>frames := ContractFrame c ''transfer'' [SAddress a, SAddress b, SI128 n] # frames h,
      auth := am_push_frame (ContractInvocation (Contract c) ''transfer'') (auth h)\<rparr>"
    and "sac_transfer X c a b n h1 = Inr h2"
    and "h' = h2\<lparr>frames := tl (frames h2), auth := am_pop_frame (auth h2)\<rparr>"
  using assms
  by (auto simp: token_transfer_def ok_simps elim!: call_step_ok dest!: enter_contract_shape)

interpretation sac: token_ledger "sac_bal c" "sac_tracked c" "token_transfer X (Contract c)" for X c
proof
  fix a b n and s t :: "'a sac_host_scheme"
  assume run: "token_transfer X (Contract c) a b n s = Inr t"
  from run obtain h1 h2 where h1: "h1 = s\<lparr>frames := ContractFrame c ''transfer'' [SAddress a, SAddress b, SI128 n] # frames s,
      auth := am_push_frame (ContractInvocation (Contract c) ''transfer'') (auth s)\<rparr>"
    and tr: "sac_transfer X c a b n h1 = Inr h2"
    and t: "t = h2\<lparr>frames := tl (frames h2), auth := am_pop_frame (auth h2)\<rparr>"
    by (rule token_transfer_ok)
  have bal1: "sac_bal c h1 = sac_bal c s" and balt: "sac_bal c t = sac_bal c h2"
    using h1 t by simp_all
  have tracked1: "sac_tracked c h1 = sac_tracked c s"
    using h1 by (auto simp: sac_tracked_def read_asset_def read_asset_info_def fun_eq_iff split: address.splits)
  show "0 \<le> n"
    using tr by (rule sac_transfer_ok)
  show "sac_tracked c t x = sac_tracked c s x" for x
    using sac_view_tracked [OF keepsD [OF sac_view_token_transfer run]] by metis
  show "sac_bal c t x = sac_bal c s x + (if x = b then n else 0) - (if x = a then n else 0)"
    if "sac_tracked c s x" for x
    using sac_transfer_bal [OF tr, of x] that by (simp add: bal1 balt tracked1)
next
  fix d b n and s t :: "'a sac_host_scheme"
  assume "token_transfer X (Contract c) (Contract d) b n s = Inr t"
  then show "n \<le> max 0 (sac_bal c s (Contract d))"
  proof (rule token_transfer_ok)
    fix h1 h2
    assume h1: "h1 = s\<lparr>frames := ContractFrame c ''transfer'' [SAddress (Contract d), SAddress b, SI128 n] # frames s,
        auth := am_push_frame (ContractInvocation (Contract c) ''transfer'') (auth s)\<rparr>"
      and tr: "sac_transfer X c (Contract d) b n h1 = Inr h2"
    have "sac_bal c h1 = sac_bal c s"
      using h1 by simp
    with tr show ?thesis
      by (auto elim!: sac_transfer_ok simp: spend_balance_def check_authorized_ok ok_simps
          dest!: spend_nocheck_covered)
  qed
qed simp

text \<open>Reading a balance returns the ledger's value and moves nothing.\<close>

lemma sac_bal_read_balance [view_rules]: "keepsq (sac_bal c) (read_balance d a)"
  unfolding read_balance_def
  by (cases a) (auto intro!: keeps_rules view_rules split: option.splits)

lemma sac_bal_balance [view_rules]: "keepsq (sac_bal c) (sac_balance d a)"
  unfolding sac_balance_def extend_sac_instance_def by (intro keeps_rules view_rules)

lemma sac_bal_token_balance [view_rules]: "keepsq (sac_bal c) (token_balance tok a)"
  unfolding token_balance_def by (intro keeps_rules view_rules sac_bal_blind)

lemma read_balance_value:
  assumes "read_balance c (Contract d) h = Inr (v, h')"
  shows "v = sac_bal c h (Contract d)"
proof -
  obtain r where r: "lookup_balance c (Contract d) h = Inr r"
    using assms by (auto simp: read_balance_def ok_simps)
  show ?thesis
    using assms r lookup_balance_ok [of c d h]
    by (cases r) (auto simp: read_balance_def ok_simps)
qed

lemma token_balance_value:
  assumes "token_balance (Contract c) (Contract d) h = Inr (v, h')"
  shows "v = sac_bal c h (Contract d)"
proof -
  obtain h1 h2 g where
    h1: "enter_contract c StellarAsset ''balance'' [SAddress (Contract d)] h = Inr h1" and
    ext: "extend_sac_instance h1 = Inr g" and rd: "read_balance c (Contract d) g = Inr (v, h2)"
    using assms
    by (auto simp: token_balance_def sac_balance_def ok_simps elim!: call_query_ok)
  have "sac_bal c h1 = sac_bal c h"
    using enter_contract_shape [OF h1] by auto
  moreover have "sac_bal c g = sac_bal c h1"
    using keepsD [OF sac_bal_host(3) ext [unfolded extend_sac_instance_def]] .
  ultimately show ?thesis
    using read_balance_value [OF rd] by simp
qed

end
