(* ===== verification/Contributor_Pool.thy ===== *)
theory Contributor_Pool
  imports Stellar_Asset_Laws
begin

text \<open>
  The contributor pool, \<open>contracts/contributor_pool/src/lib.rs\<close>.  The instance keys of
  \<open>DataKey\<close> are option fields of \<open>pool_state\<close>, the persistent keys are slots with a
  life time.  Each exported function has a definition \<open>pool_<name>\<close>, statement by
  statement; \<open>c\<close> is the id of the pool whose frame runs.  The loops over recipients are
  recursive functions over the list.  The theorems are in \<open>Contributor_Pool_Laws\<close>.
\<close>

section \<open>Data\<close>

definition MAX_ALLOCATIONS :: u32 where "MAX_ALLOCATIONS = 64"
definition DAY :: u64 where "DAY = 86400"
definition MAX_CLAIM_WINDOW :: u64 where "MAX_CLAIM_WINDOW = 30 * DAY"
definition TTL :: u32 where "TTL = 700000"

datatype ManifestStatus = ManifestActive | ManifestCompleted | ManifestExpiredStatus

record Manifest =
  manifest_hash :: bytes
  policy_hash :: bytes
  total_amount :: i128
  remaining_amount :: i128
  allocation_count :: u32
  m_expires_at :: u64
  m_status :: ManifestStatus

record Allocation =
  recipient :: address
  a_amount :: i128
  claimed :: bool

datatype PoolError =
  P_AlreadyInitialized | P_NotInitialized | P_ManifestAlreadyExists | P_ManifestNotFound
| P_InvalidManifest | P_InvalidAllocation | P_InvalidState | P_NotRecipient | P_AlreadyClaimed
| P_ManifestExpired | P_NotExpired | P_InsufficientAvailableBalance | P_Deficit | P_Paused
| P_NoPendingRole | P_RolesMustDiffer | P_CampaignAlreadyCredited | P_InvalidDeployment

fun pool_error_code :: "PoolError \<Rightarrow> u32" where
  "pool_error_code P_AlreadyInitialized = 1"
| "pool_error_code P_NotInitialized = 2"
| "pool_error_code P_ManifestAlreadyExists = 3"
| "pool_error_code P_ManifestNotFound = 4"
| "pool_error_code P_InvalidManifest = 5"
| "pool_error_code P_InvalidAllocation = 6"
| "pool_error_code P_InvalidState = 7"
| "pool_error_code P_NotRecipient = 8"
| "pool_error_code P_AlreadyClaimed = 9"
| "pool_error_code P_ManifestExpired = 10"
| "pool_error_code P_NotExpired = 11"
| "pool_error_code P_InsufficientAvailableBalance = 12"
| "pool_error_code P_Deficit = 13"
| "pool_error_code P_Paused = 14"
| "pool_error_code P_NoPendingRole = 15"
| "pool_error_code P_RolesMustDiffer = 16"
| "pool_error_code P_CampaignAlreadyCredited = 17"
| "pool_error_code P_InvalidDeployment = 18"

definition perr :: "PoolError \<Rightarrow> host_error" where
  "perr e = ContractErr (pool_error_code e)"

record pool_state =
  p_governance :: "address option"
  p_pending_governance :: "address option"
  p_eligibility :: "address option"
  p_pending_eligibility :: "address option"
  p_token :: "address option"
  p_escrow :: "address option"
  p_paused :: "bool option"
  p_total_liability :: "i128 option"
  p_total_credited :: "i128 option"
  p_total_paid :: "i128 option"
  p_latest_manifest_id :: "u64 option"
  p_credited :: "u64 \<Rightarrow> bool entry option"
  p_manifests :: "u64 \<Rightarrow> Manifest entry option"
  p_allocations :: "u64 \<times> u32 \<Rightarrow> Allocation entry option"

record pool_host = sac_host +
  pools :: "hash32 \<Rightarrow> pool_state"

definition upd_pool :: "hash32 \<Rightarrow> (pool_state \<Rightarrow> pool_state) \<Rightarrow> ('z pool_host_scheme, host_error) step" where
  "upd_pool c f = modify (\<lambda>h. h\<lparr>pools := (pools h)(c := f (pools h c))\<rparr>)"

text \<open>\<open>.unwrap_or(d)\<close>, and plain \<open>i128\<close> arithmetic, which traps on overflow.\<close>

definition unwrap_or :: "'a option \<Rightarrow> 'a \<Rightarrow> 'a" where
  "unwrap_or x d = (case x of None \<Rightarrow> d | Some v \<Rightarrow> v)"

definition i128_op :: "int \<Rightarrow> ('s \<Rightarrow> host_error + i128)" where
  "i128_op x h = (case checked_i128 x of None \<Rightarrow> Inl wasm_trap | Some y \<Rightarrow> Inr y)"

section \<open>Persistent slots\<close>

definition set_credited :: "hash32 \<Rightarrow> u64 \<Rightarrow> bool \<Rightarrow> ('z pool_host_scheme, host_error) step" where
  "set_credited c k v =
     try_read (\<lambda>h. put_entry (ledger h) Persistent (p_credited (pools h c) k) v) (\<lambda>e.
     upd_pool c (\<lambda>p. p\<lparr>p_credited := (p_credited p)(k \<mapsto> e)\<rparr>))"

definition extend_credited :: "hash32 \<Rightarrow> u64 \<Rightarrow> ('z pool_host_scheme, host_error) step" where
  "extend_credited c k =
     try_read (\<lambda>h. extend_entry (ledger h) Persistent TTL TTL (p_credited (pools h c) k)) (\<lambda>e.
     upd_pool c (\<lambda>p. p\<lparr>p_credited := (p_credited p)(k \<mapsto> e)\<rparr>))"

definition set_manifest :: "hash32 \<Rightarrow> u64 \<Rightarrow> Manifest \<Rightarrow> ('z pool_host_scheme, host_error) step" where
  "set_manifest c k v =
     try_read (\<lambda>h. put_entry (ledger h) Persistent (p_manifests (pools h c) k) v) (\<lambda>e.
     upd_pool c (\<lambda>p. p\<lparr>p_manifests := (p_manifests p)(k \<mapsto> e)\<rparr>))"

definition extend_manifest :: "hash32 \<Rightarrow> u64 \<Rightarrow> ('z pool_host_scheme, host_error) step" where
  "extend_manifest c k =
     try_read (\<lambda>h. extend_entry (ledger h) Persistent TTL TTL (p_manifests (pools h c) k)) (\<lambda>e.
     upd_pool c (\<lambda>p. p\<lparr>p_manifests := (p_manifests p)(k \<mapsto> e)\<rparr>))"

definition set_allocation :: "hash32 \<Rightarrow> u64 \<times> u32 \<Rightarrow> Allocation \<Rightarrow> ('z pool_host_scheme, host_error) step" where
  "set_allocation c k v =
     try_read (\<lambda>h. put_entry (ledger h) Persistent (p_allocations (pools h c) k) v) (\<lambda>e.
     upd_pool c (\<lambda>p. p\<lparr>p_allocations := (p_allocations p)(k \<mapsto> e)\<rparr>))"

definition extend_allocation :: "hash32 \<Rightarrow> u64 \<times> u32 \<Rightarrow> ('z pool_host_scheme, host_error) step" where
  "extend_allocation c k =
     try_read (\<lambda>h. extend_entry (ledger h) Persistent TTL TTL (p_allocations (pools h c) k)) (\<lambda>e.
     upd_pool c (\<lambda>p. p\<lparr>p_allocations := (p_allocations p)(k \<mapsto> e)\<rparr>))"

section \<open>Internal helpers\<close>

definition extend_instance :: "('z host_scheme, host_error) step" where
  "extend_instance = extend_current_contract_instance_and_code_ttl TTL TTL"

definition pool_init :: "hash32 \<Rightarrow> ('z pool_host_scheme, host_error) step" where
  "pool_init c = steps [
     reject (\<lambda>h. p_governance (pools h c) = None) (perr P_NotInitialized),
     extend_instance]"

definition pool_token :: "hash32 \<Rightarrow> 'z pool_host_scheme \<Rightarrow> address option" where
  "pool_token c h = p_token (pools h c)"

definition pool_escrow :: "hash32 \<Rightarrow> 'z pool_host_scheme \<Rightarrow> address option" where
  "pool_escrow c h = p_escrow (pools h c)"

definition pool_current_governance :: "hash32 \<Rightarrow> 'z pool_host_scheme \<Rightarrow> address option" where
  "pool_current_governance c h = p_governance (pools h c)"

definition pool_current_eligibility :: "hash32 \<Rightarrow> 'z pool_host_scheme \<Rightarrow> address option" where
  "pool_current_eligibility c h = p_eligibility (pools h c)"

definition with_manifest ::
  "hash32 \<Rightarrow> u64 \<Rightarrow> (Manifest \<Rightarrow> 'z pool_host_scheme \<Rightarrow> host_error + 'r) \<Rightarrow> 'z pool_host_scheme \<Rightarrow> host_error + 'r" where
  "with_manifest c k body =
     try_read (\<lambda>h. lookup_entry (ledger h) Persistent (p_manifests (pools h c) k)) (\<lambda>r.
       case r of None \<Rightarrow> fail (perr P_ManifestNotFound) | Some m \<Rightarrow> body m)"

definition stored_total_liability :: "hash32 \<Rightarrow> ('z pool_host_scheme, host_error, i128) query" where
  "stored_total_liability c =
     and_then (pool_init c) (read (\<lambda>h. unwrap_or (p_total_liability (pools h c)) 0) ret)"

definition total_credited :: "hash32 \<Rightarrow> ('z pool_host_scheme, host_error, i128) query" where
  "total_credited c =
     and_then (pool_init c) (read (\<lambda>h. unwrap_or (p_total_credited (pools h c)) 0) ret)"

definition total_paid :: "hash32 \<Rightarrow> ('z pool_host_scheme, host_error, i128) query" where
  "total_paid c =
     and_then (pool_init c) (read (\<lambda>h. unwrap_or (p_total_paid (pools h c)) 0) ret)"

definition pool_balance :: "hash32 \<Rightarrow> ('z pool_host_scheme, host_error, i128) query" where
  "pool_balance c =
     ok_or wasm_trap (pool_token c) (\<lambda>token. token_balance token (Contract c))"

definition pool_paused :: "hash32 \<Rightarrow> 'z pool_host_scheme \<Rightarrow> bool" where
  "pool_paused c h = unwrap_or (p_paused (pools h c)) False"

section \<open>Set-up and credits\<close>

definition pool_initialize ::
  "externals \<Rightarrow> hash32 \<Rightarrow> address \<Rightarrow> address \<Rightarrow> address \<Rightarrow> address \<Rightarrow> address \<Rightarrow> bytes
   \<Rightarrow> ('z pool_host_scheme, host_error) step" where
  "pool_initialize X c governance eligibility_authority token escrow deployer salt = steps [
     reject (\<lambda>h. p_governance (pools h c) \<noteq> None) (perr P_AlreadyInitialized),
     reject (\<lambda>h. deployed_address X deployer salt \<noteq> Contract c) (perr P_InvalidDeployment),
     require_auth X deployer,
     reject (\<lambda>h. governance = eligibility_authority) (perr P_RolesMustDiffer),
     (if governance \<noteq> deployer then require_auth X governance else skip_step),
     (if eligibility_authority \<noteq> deployer then require_auth X eligibility_authority else skip_step),
     upd_pool c (\<lambda>p. p\<lparr>p_governance := Some governance\<rparr>),
     upd_pool c (\<lambda>p. p\<lparr>p_eligibility := Some eligibility_authority\<rparr>),
     upd_pool c (\<lambda>p. p\<lparr>p_token := Some token\<rparr>),
     upd_pool c (\<lambda>p. p\<lparr>p_escrow := Some escrow\<rparr>),
     upd_pool c (\<lambda>p. p\<lparr>p_paused := Some False\<rparr>),
     upd_pool c (\<lambda>p. p\<lparr>p_total_liability := Some 0\<rparr>),
     upd_pool c (\<lambda>p. p\<lparr>p_total_credited := Some 0\<rparr>),
     upd_pool c (\<lambda>p. p\<lparr>p_total_paid := Some 0\<rparr>),
     upd_pool c (\<lambda>p. p\<lparr>p_latest_manifest_id := Some 0\<rparr>),
     extend_instance,
     publish_event [SSymbol ''init'']
       (SVec [SAddress governance, SAddress eligibility_authority, SAddress token, SAddress escrow])]"

definition pool_record_credit ::
  "externals \<Rightarrow> hash32 \<Rightarrow> u64 \<Rightarrow> i128 \<Rightarrow> ('z pool_host_scheme, host_error) step" where
  "pool_record_credit X c campaign_id amount = steps [
     pool_init c,
     reject (\<lambda>h. amount \<le> 0) (perr P_InvalidAllocation),
     ok_or (perr P_NotInitialized) (pool_escrow c) (\<lambda>escrow. steps [
       require_auth X escrow,
       try_read (\<lambda>h. has_entry (ledger h) Persistent (p_credited (pools h c) campaign_id)) (\<lambda>b.
         reject (\<lambda>h. b) (perr P_CampaignAlreadyCredited)),
       bindq (total_credited c) (\<lambda>credited.
       bindq (total_paid c) (\<lambda>paid.
       ok_or (perr P_InvalidAllocation) (\<lambda>h. checked_i128 (credited + amount)) (\<lambda>next_credited.
       ok_or (perr P_Deficit) (\<lambda>h. checked_i128 (next_credited - paid)) (\<lambda>outstanding.
       bindq (pool_balance c) (\<lambda>bal. steps [
         reject (\<lambda>h. bal < outstanding) (perr P_Deficit),
         set_credited c campaign_id True,
         extend_credited c campaign_id,
         upd_pool c (\<lambda>p. p\<lparr>p_total_credited := Some next_credited\<rparr>),
         publish_event [SSymbol ''credited'', SU64 campaign_id] (SI128 amount)])))))])]"

definition available_balance :: "hash32 \<Rightarrow> ('z pool_host_scheme, host_error, i128) query" where
  "available_balance c =
     and_then (pool_init c) (
     bindq (stored_total_liability c) (\<lambda>liability.
     bindq (total_credited c) (\<lambda>credited.
     bindq (total_paid c) (\<lambda>paid.
     ok_or (perr P_Deficit) (\<lambda>h. checked_i128 (credited - paid)) (\<lambda>outstanding.
       if outstanding < liability then fail (perr P_Deficit)
       else bindq (pool_balance c) (\<lambda>bal.
         and_then (reject (\<lambda>h. bal < outstanding) (perr P_Deficit))
         (try_read (i128_op (outstanding - liability)) ret)))))))"

section \<open>Manifests\<close>

text \<open>The first loop of \<open>publish_manifest\<close>: \<open>prior\<close> holds the recipients before the index.  The
  two vectors have the same length here, so \<open>get(index)\<close> never misses.\<close>

fun check_allocations :: "address list \<Rightarrow> i128 \<Rightarrow> (address \<times> i128) list \<Rightarrow> host_error + i128" where
  "check_allocations prior t [] = Inr t"
| "check_allocations prior t ((r, amount) # rest) =
     (if amount \<le> 0 then Inl (perr P_InvalidAllocation)
      else if r \<in> set prior then Inl (perr P_InvalidAllocation)
      else case checked_i128 (t + amount) of
        None \<Rightarrow> Inl (perr P_InvalidAllocation)
      | Some t' \<Rightarrow> check_allocations (prior @ [r]) t' rest)"

text \<open>The second loop, from index \<open>i\<close> on.\<close>

fun write_allocations ::
  "hash32 \<Rightarrow> u64 \<Rightarrow> u32 \<Rightarrow> (address \<times> i128) list \<Rightarrow> ('z pool_host_scheme, host_error) step" where
  "write_allocations c k i [] = skip_step"
| "write_allocations c k i ((r, amount) # rest) = steps [
     set_allocation c (k, i) \<lparr>recipient = r, a_amount = amount, claimed = False\<rparr>,
     extend_allocation c (k, i),
     write_allocations c k (i + 1) rest]"

definition pool_publish_manifest ::
  "externals \<Rightarrow> hash32 \<Rightarrow> u64 \<Rightarrow> bytes \<Rightarrow> bytes \<Rightarrow> u64 \<Rightarrow> address list \<Rightarrow> i128 list
   \<Rightarrow> ('z pool_host_scheme, host_error) step" where
  "pool_publish_manifest X c manifest_id mhash phash expires_at recipients amounts = steps [
     pool_init c,
     reject (pool_paused c) (perr P_Paused),
     ok_or (perr P_NotInitialized) (pool_current_governance c) (\<lambda>governance.
     ok_or (perr P_NotInitialized) (pool_current_eligibility c) (\<lambda>eligibility. steps [
       require_auth X governance,
       require_auth X eligibility,
       reject (\<lambda>h. length recipients = 0 \<or> length recipients \<noteq> length amounts
                 \<or> length recipients > MAX_ALLOCATIONS) (perr P_InvalidManifest),
       reject (\<lambda>h. expires_at \<le> timestamp (ledger h)) (perr P_ManifestExpired),
       reject (\<lambda>h. expires_at - timestamp (ledger h) > MAX_CLAIM_WINDOW) (perr P_InvalidManifest),
       try_read (\<lambda>h. has_entry (ledger h) Persistent (p_manifests (pools h c) manifest_id)) (\<lambda>b.
         reject (\<lambda>h. b) (perr P_ManifestAlreadyExists)),
       reject (\<lambda>h. manifest_id \<le> unwrap_or (p_latest_manifest_id (pools h c)) 0)
         (perr P_ManifestAlreadyExists),
       try_read (\<lambda>h. check_allocations [] 0 (zip recipients amounts)) (\<lambda>total.
       bindq (available_balance c) (\<lambda>available. steps [
         reject (\<lambda>h. available < total) (perr P_InsufficientAvailableBalance),
         bindq (stored_total_liability c) (\<lambda>liability.
         ok_or (perr P_InvalidAllocation) (\<lambda>h. checked_i128 (liability + total)) (\<lambda>required. steps [
           write_allocations c manifest_id 0 (zip recipients amounts),
           set_manifest c manifest_id
             \<lparr>manifest_hash = mhash, policy_hash = phash, total_amount = total,
              remaining_amount = total, allocation_count = length recipients,
              m_expires_at = expires_at, m_status = ManifestActive\<rparr>,
           extend_manifest c manifest_id,
           upd_pool c (\<lambda>p. p\<lparr>p_total_liability := Some required\<rparr>),
           upd_pool c (\<lambda>p. p\<lparr>p_latest_manifest_id := Some manifest_id\<rparr>),
           publish_event [SSymbol ''manifest'', SU64 manifest_id]
             (SVec [SI128 total, SU32 (length recipients), SU64 expires_at])]))]))]))]"

definition pool_claim :: "externals \<Rightarrow> hash32 \<Rightarrow> u64 \<Rightarrow> u32 \<Rightarrow> ('z pool_host_scheme, host_error) step" where
  "pool_claim X c manifest_id allocation_index = steps [
     pool_init c,
     reject (pool_paused c) (perr P_Paused),
     with_manifest c manifest_id (\<lambda>manifest. steps [
       reject (\<lambda>h. m_status manifest \<noteq> ManifestActive) (perr P_InvalidState),
       reject (\<lambda>h. timestamp (ledger h) \<ge> m_expires_at manifest) (perr P_ManifestExpired),
       reject (\<lambda>h. allocation_index \<ge> allocation_count manifest) (perr P_InvalidAllocation),
       try_read (\<lambda>h. lookup_entry (ledger h) Persistent
           (p_allocations (pools h c) (manifest_id, allocation_index))) (\<lambda>r.
       ok_or (perr P_InvalidAllocation) (\<lambda>h. r) (\<lambda>allocation. steps [
         reject (\<lambda>h. claimed allocation) (perr P_AlreadyClaimed),
         require_auth X (recipient allocation),
         bindq (stored_total_liability c) (\<lambda>liability. steps [
           reject (\<lambda>h. liability < a_amount allocation) (perr P_Deficit),
           bindq (pool_balance c) (\<lambda>bal. reject (\<lambda>h. bal < liability) (perr P_Deficit)),
           ok_or (perr P_Deficit) (\<lambda>h. checked_i128 (remaining_amount manifest - a_amount allocation))
             (\<lambda>remaining. read (\<lambda>h.
               manifest\<lparr>remaining_amount := remaining,
                        m_status := if remaining = 0 then ManifestCompleted else m_status manifest\<rparr>)
             (\<lambda>manifest'. steps [
             set_allocation c (manifest_id, allocation_index) (allocation\<lparr>claimed := True\<rparr>),
             extend_allocation c (manifest_id, allocation_index),
             set_manifest c manifest_id manifest',
             extend_manifest c manifest_id,
             try_read (i128_op (liability - a_amount allocation)) (\<lambda>l.
               upd_pool c (\<lambda>p. p\<lparr>p_total_liability := Some l\<rparr>)),
             bindq (total_paid c) (\<lambda>paid.
             ok_or (perr P_Deficit) (\<lambda>h. checked_i128 (paid + a_amount allocation)) (\<lambda>paid'.
               upd_pool c (\<lambda>p. p\<lparr>p_total_paid := Some paid'\<rparr>))),
             ok_or (perr P_NotInitialized) (pool_token c) (\<lambda>token.
               token_transfer X token (Contract c) (recipient allocation) (a_amount allocation)),
             publish_event [SSymbol ''claimed'', SU64 manifest_id, SU32 allocation_index]
               (SVec [SAddress (recipient allocation), SI128 (a_amount allocation), SI128 remaining])]))])]))])]"

definition pool_expire_manifest :: "hash32 \<Rightarrow> u64 \<Rightarrow> ('z pool_host_scheme, host_error) step" where
  "pool_expire_manifest c manifest_id = steps [
     pool_init c,
     with_manifest c manifest_id (\<lambda>manifest. steps [
       reject (\<lambda>h. m_status manifest \<noteq> ManifestActive) (perr P_InvalidState),
       reject (\<lambda>h. timestamp (ledger h) < m_expires_at manifest) (perr P_NotExpired),
       bindq (stored_total_liability c) (\<lambda>liability. steps [
         reject (\<lambda>h. liability < remaining_amount manifest) (perr P_Deficit),
         set_manifest c manifest_id
           (manifest\<lparr>remaining_amount := 0, m_status := ManifestExpiredStatus\<rparr>),
         extend_manifest c manifest_id,
         try_read (i128_op (liability - remaining_amount manifest)) (\<lambda>l.
           upd_pool c (\<lambda>p. p\<lparr>p_total_liability := Some l\<rparr>)),
         publish_event [SSymbol ''expired'', SU64 manifest_id]
           (SI128 (remaining_amount manifest))])])]"

section \<open>Roles and pausing\<close>

definition pool_propose_role ::
  "externals \<Rightarrow> hash32 \<Rightarrow> u32 \<Rightarrow> address \<Rightarrow> ('z pool_host_scheme, host_error) step" where
  "pool_propose_role X c role account = steps [
     pool_init c,
     ok_or (perr P_NotInitialized) (pool_current_governance c) (require_auth X),
     (if role = 1 then upd_pool c (\<lambda>p. p\<lparr>p_pending_governance := Some account\<rparr>)
      else upd_pool c (\<lambda>p. p\<lparr>p_pending_eligibility := Some account\<rparr>)),
     publish_event [SSymbol ''roleprop'', SU32 role] (SAddress account)]"

definition pool_accept_role :: "externals \<Rightarrow> hash32 \<Rightarrow> u32 \<Rightarrow> ('z pool_host_scheme, host_error) step" where
  "pool_accept_role X c role = steps [
     pool_init c,
     ok_or (perr P_NoPendingRole)
       (\<lambda>h. if role = 1 then p_pending_governance (pools h c) else p_pending_eligibility (pools h c))
       (\<lambda>account. steps [
       require_auth X account,
       ok_or (perr P_NotInitialized)
         (if role = 1 then pool_current_eligibility c else pool_current_governance c)
         (\<lambda>other_role. reject (\<lambda>h. account = other_role) (perr P_RolesMustDiffer)),
       (if role = 1 then upd_pool c (\<lambda>p. p\<lparr>p_governance := Some account\<rparr>)
        else upd_pool c (\<lambda>p. p\<lparr>p_eligibility := Some account\<rparr>)),
       (if role = 1 then upd_pool c (\<lambda>p. p\<lparr>p_pending_governance := None\<rparr>)
        else upd_pool c (\<lambda>p. p\<lparr>p_pending_eligibility := None\<rparr>)),
       publish_event [SSymbol ''roleacc'', SU32 role] (SAddress account)])]"

definition pool_propose_governance where
  "pool_propose_governance X c account = pool_propose_role X c 1 account"

definition pool_accept_governance where
  "pool_accept_governance X c = pool_accept_role X c 1"

definition pool_propose_eligibility_authority where
  "pool_propose_eligibility_authority X c account = pool_propose_role X c 2 account"

definition pool_accept_eligibility_authority where
  "pool_accept_eligibility_authority X c = pool_accept_role X c 2"

definition pool_pause :: "externals \<Rightarrow> hash32 \<Rightarrow> ('z pool_host_scheme, host_error) step" where
  "pool_pause X c = steps [
     pool_init c,
     ok_or (perr P_NotInitialized) (pool_current_governance c) (require_auth X),
     upd_pool c (\<lambda>p. p\<lparr>p_paused := Some True\<rparr>),
     extend_instance,
     publish_event [SSymbol ''paused''] SVoid]"

definition pool_unpause :: "externals \<Rightarrow> hash32 \<Rightarrow> ('z pool_host_scheme, host_error) step" where
  "pool_unpause X c = steps [
     pool_init c,
     ok_or (perr P_NotInitialized) (pool_current_governance c) (require_auth X),
     upd_pool c (\<lambda>p. p\<lparr>p_paused := Some False\<rparr>),
     extend_instance,
     publish_event [SSymbol ''unpaused''] SVoid]"

section \<open>Reads and life time\<close>

definition pool_get_manifest :: "hash32 \<Rightarrow> u64 \<Rightarrow> ('z pool_host_scheme, host_error, Manifest) query" where
  "pool_get_manifest c k =
     with_manifest c k (\<lambda>m. and_then (extend_manifest c k) (ret m))"

definition pool_get_allocation :: "hash32 \<Rightarrow> u64 \<Rightarrow> u32 \<Rightarrow> ('z pool_host_scheme, host_error, Allocation) query" where
  "pool_get_allocation c k i =
     try_read (\<lambda>h. lookup_entry (ledger h) Persistent (p_allocations (pools h c) (k, i))) (\<lambda>r.
     ok_or (perr P_InvalidAllocation) (\<lambda>h. r) (\<lambda>a.
     and_then (extend_allocation c (k, i)) (ret a)))"

definition pool_total_liability :: "hash32 \<Rightarrow> ('z pool_host_scheme, host_error, i128) query" where
  "pool_total_liability c = and_then (pool_init c) (stored_total_liability c)"

definition pool_is_paused :: "hash32 \<Rightarrow> ('z pool_host_scheme, host_error, bool) query" where
  "pool_is_paused c = read (pool_paused c) ret"

definition pool_governance :: "hash32 \<Rightarrow> ('z pool_host_scheme, host_error, address) query" where
  "pool_governance c = ok_or (perr P_NotInitialized) (pool_current_governance c) ret"

definition pool_eligibility_authority :: "hash32 \<Rightarrow> ('z pool_host_scheme, host_error, address) query" where
  "pool_eligibility_authority c = ok_or (perr P_NotInitialized) (pool_current_eligibility c) ret"

definition pool_escrow_contract :: "hash32 \<Rightarrow> ('z pool_host_scheme, host_error, address) query" where
  "pool_escrow_contract c = ok_or (perr P_NotInitialized) (pool_escrow c) ret"

definition pool_token_contract :: "hash32 \<Rightarrow> ('z pool_host_scheme, host_error, address) query" where
  "pool_token_contract c = ok_or (perr P_NotInitialized) (pool_token c) ret"

definition pool_extend_instance_ttl :: "hash32 \<Rightarrow> ('z pool_host_scheme, host_error) step" where
  "pool_extend_instance_ttl c = steps [pool_init c, extend_instance]"

fun extend_allocations :: "hash32 \<Rightarrow> u64 \<Rightarrow> u32 list \<Rightarrow> ('z pool_host_scheme, host_error) step" where
  "extend_allocations c k [] = skip_step"
| "extend_allocations c k (i # rest) = steps [
     try_read (\<lambda>h. has_entry (ledger h) Persistent (p_allocations (pools h c) (k, i))) (\<lambda>b.
       reject (\<lambda>h. \<not> b) (perr P_InvalidAllocation)),
     extend_allocation c (k, i),
     extend_allocations c k rest]"

definition pool_extend_manifest_ttl :: "hash32 \<Rightarrow> u64 \<Rightarrow> ('z pool_host_scheme, host_error) step" where
  "pool_extend_manifest_ttl c k =
     with_manifest c k (\<lambda>m. steps [
       extend_manifest c k,
       extend_allocations c k [0..<allocation_count m]])"

end
