(* ===== verification/Contributor_Pool_Laws.thy ===== *)
theory Contributor_Pool_Laws
  imports Contributor_Pool
begin

text \<open>
  What the contributor pool promises.  \<open>pool_abs\<close> forgets the life times of the slots; on
  that abstract state every state-changing function is a pure function (\<open>spec_credit\<close>,
  \<open>spec_publish\<close>, \<open>spec_claim\<close>, \<open>spec_expire\<close>) with a guard, and the code refines it.  The
  accounting invariant \<open>pool_inv\<close> is proved on the abstract functions and lifted.
\<close>

section \<open>Frame conditions\<close>

text \<open>The life times play no role for the values.\<close>

definition forget :: "'v entry option \<Rightarrow> 'v entry option" where
  "forget slot = map_option (\<lambda>(v, _). (v, 0)) slot"

definition forgets :: "('k \<Rightarrow> 'v entry option) \<Rightarrow> 'k \<Rightarrow> 'v entry option" where
  "forgets m k = forget (m k)"

definition pool_abs :: "pool_state \<Rightarrow> pool_state" where
  "pool_abs p = p\<lparr>p_credited := forgets (p_credited p),
                  p_manifests := forgets (p_manifests p),
                  p_allocations := forgets (p_allocations p)\<rparr>"

lemma forget_None [simp]: "forget slot = None \<longleftrightarrow> slot = None"
  by (simp add: forget_def)

lemma forget_Some [simp]: "forget (Some (v, l)) = Some (v, 0)"
  by (simp add: forget_def)

lemma forget_simps [simp]: "forget None = None" "forget (Some e) = Some (fst e, 0)"
  by (auto simp: forget_def split: prod.splits)

lemma forget_forget [simp]: "forget (forget s) = forget s"
  by (cases s) simp_all

lemma forgets_upd [simp]: "forgets (m(k \<mapsto> e)) = (forgets m)(k \<mapsto> (fst e, 0))"
  by (auto simp: fun_eq_iff forgets_def)

lemma forgets_forgets [simp]: "forgets (forgets m) = forgets m"
  by (auto simp: fun_eq_iff forgets_def)

lemma forgets_eq [simp]:
  "forgets m k = None \<longleftrightarrow> m k = None"
  "forgets m k = Some (v, l) \<longleftrightarrow> l = 0 \<and> (\<exists>l. m k = Some (v, l))"
  by (auto simp: forgets_def forget_def)

lemma pool_abs_idem [simp]: "pool_abs (pool_abs p) = pool_abs p"
  by (simp add: pool_abs_def)

text \<open>One relation describes what a step may do: the pool \<open>c\<close> goes through \<open>f\<close>, and
  nothing outside it and outside the token balances changes.\<close>

definition pool_view where
  "pool_view c h = (host_view h, (\<lambda>d. sac_config (sacs h d)), (\<lambda>d. if d = c then None else Some (pools h d)),
     pool_host.more h)"

definition pool_eff :: "hash32 \<Rightarrow> (pool_state \<Rightarrow> pool_state) \<Rightarrow> 'z pool_host_scheme \<Rightarrow> 'z pool_host_scheme \<Rightarrow> bool" where
  "pool_eff c f h h' \<longleftrightarrow> pool_view c h' = pool_view c h
     \<and> pool_abs (pools h' c) = f (pool_abs (pools h c))"

lemma pool_eff_trans: "pool_eff c f h h1 \<Longrightarrow> pool_eff c g h1 h2 \<Longrightarrow> pool_eff c (g \<circ> f) h h2"
  by (simp add: pool_eff_def)

lemma sac_view_more:
  "sac_view h' = sac_view (h :: 'z pool_host_scheme) \<Longrightarrow>
     pools h' = pools h \<and> pool_host.more h' = pool_host.more h \<and> host_view h' = host_view h
     \<and> (\<lambda>d. sac_config (sacs h' d)) = (\<lambda>d. sac_config (sacs h d))"
  by (cases h; cases h') (simp add: sac_view_def host_view_def)

text \<open>Most steps leave the pools alone altogether.\<close>

definition pool_quiet :: "'z pool_host_scheme \<Rightarrow> 'z pool_host_scheme \<Rightarrow> bool" where
  "pool_quiet h h' \<longleftrightarrow> sac_view h' = sac_view h"

lemma pool_quietD:
  "pool_quiet h h' \<Longrightarrow> pools h' = pools h \<and> ledger h' = ledger h \<and> pool_view c h' = pool_view c h"
  unfolding pool_quiet_def by (drule sac_view_more) (auto simp: pool_view_def host_view_def fun_eq_iff)

lemma pool_quiet_trans: "pool_quiet h h1 \<Longrightarrow> pool_quiet h1 h2 \<Longrightarrow> pool_quiet h h2"
  by (simp add: pool_quiet_def)

lemma pool_eff_ledger: "pool_eff c f h h' \<Longrightarrow> ledger h' = ledger h \<and> frames h' = frames h"
  by (simp add: pool_eff_def pool_view_def host_view_def)

lemma pool_eff_other: "pool_eff c f h h' \<Longrightarrow> d \<noteq> c \<Longrightarrow> pools h' d = pools h d"
  by (auto simp: pool_eff_def pool_view_def fun_eq_iff split: if_splits)

named_theorems eff_dest "effect of a successful step on a pool"

lemma upd_pool_eff:
  "upd_pool c f h = Inr h' \<Longrightarrow> pools h' c = f (pools h c) \<and> pool_view c h' = pool_view c h
     \<and> sacs h' = sacs h \<and> account_entries h' = account_entries h \<and> trustlines h' = trustlines h"
  by (auto simp: upd_pool_def ok_simps pool_view_def host_view_def)

lemma host_steps_quiet [eff_dest]:
  "require_auth X a h = Inr h' \<Longrightarrow> pool_quiet h h'"
  "publish_event ts d h = Inr h' \<Longrightarrow> pool_quiet h h'"
  "extend_instance h = Inr h' \<Longrightarrow> pool_quiet h h'"
  "token_transfer X tok a b n h = Inr h' \<Longrightarrow> pool_quiet h h'"
  "token_balance tok a h = Inr (v, h') \<Longrightarrow> pool_quiet h h'"
  by (auto simp: pool_quiet_def extend_instance_def dest: keepsD [OF sac_view_shapes(1)]
      keepsD [OF sac_view_shapes(2)] keepsD [OF sac_view_shapes(3)] keepsD [OF sac_view_token_transfer]
      keepsqD [OF sac_view_token_balance])

lemma pool_init_quiet [eff_dest]:
  "pool_init c h = Inr h' \<Longrightarrow> pool_quiet h h' \<and> p_governance (pools h c) \<noteq> None"
  by (auto simp: pool_init_def ok_simps dest!: host_steps_quiet(3))

lemma pool_balance_quiet [eff_dest]: "pool_balance c h = Inr (v, h') \<Longrightarrow> pool_quiet h h'"
  by (auto simp: pool_balance_def ok_simps dest: host_steps_quiet(5))

text \<open>Reading through \<open>pool_abs\<close>, and writing instance keys below it.\<close>

lemma pool_abs_instance:
  "p_total_liability (pool_abs p) = p_total_liability p"
  "p_total_credited (pool_abs p) = p_total_credited p"
  "p_total_paid (pool_abs p) = p_total_paid p"
  "p_governance (pool_abs p) = p_governance p"
  "p_eligibility (pool_abs p) = p_eligibility p"
  "p_pending_governance (pool_abs p) = p_pending_governance p"
  "p_pending_eligibility (pool_abs p) = p_pending_eligibility p"
  "p_latest_manifest_id (pool_abs p) = p_latest_manifest_id p"
  "p_token (pool_abs p) = p_token p"
  "p_escrow (pool_abs p) = p_escrow p"
  "p_paused (pool_abs p) = p_paused p"
  by (simp_all add: pool_abs_def)

lemma pool_abs_upd [simp]:
  "pool_abs (p\<lparr>p_governance := a\<rparr>) = (pool_abs p)\<lparr>p_governance := a\<rparr>"
  "pool_abs (p\<lparr>p_pending_governance := a\<rparr>) = (pool_abs p)\<lparr>p_pending_governance := a\<rparr>"
  "pool_abs (p\<lparr>p_eligibility := a\<rparr>) = (pool_abs p)\<lparr>p_eligibility := a\<rparr>"
  "pool_abs (p\<lparr>p_pending_eligibility := a\<rparr>) = (pool_abs p)\<lparr>p_pending_eligibility := a\<rparr>"
  "pool_abs (p\<lparr>p_token := a\<rparr>) = (pool_abs p)\<lparr>p_token := a\<rparr>"
  "pool_abs (p\<lparr>p_escrow := a\<rparr>) = (pool_abs p)\<lparr>p_escrow := a\<rparr>"
  "pool_abs (p\<lparr>p_paused := b\<rparr>) = (pool_abs p)\<lparr>p_paused := b\<rparr>"
  "pool_abs (p\<lparr>p_total_liability := n\<rparr>) = (pool_abs p)\<lparr>p_total_liability := n\<rparr>"
  "pool_abs (p\<lparr>p_total_credited := n\<rparr>) = (pool_abs p)\<lparr>p_total_credited := n\<rparr>"
  "pool_abs (p\<lparr>p_total_paid := n\<rparr>) = (pool_abs p)\<lparr>p_total_paid := n\<rparr>"
  "pool_abs (p\<lparr>p_latest_manifest_id := k\<rparr>) = (pool_abs p)\<lparr>p_latest_manifest_id := k\<rparr>"
  by (simp_all add: pool_abs_def)

lemma slot_steps_eff [eff_dest]:
  "set_credited c k b h = Inr h' \<Longrightarrow>
     pool_eff c (\<lambda>p. p\<lparr>p_credited := (p_credited p)(k \<mapsto> (b, 0))\<rparr>) h h'"
  "set_manifest c k m h = Inr h' \<Longrightarrow>
     pool_eff c (\<lambda>p. p\<lparr>p_manifests := (p_manifests p)(k \<mapsto> (m, 0))\<rparr>) h h'"
  "set_allocation c j a h = Inr h' \<Longrightarrow>
     pool_eff c (\<lambda>p. p\<lparr>p_allocations := (p_allocations p)(j \<mapsto> (a, 0))\<rparr>) h h'"
  by (auto simp: set_credited_def set_manifest_def set_allocation_def ok_simps pool_eff_def
      pool_abs_def dest!: upd_pool_eff put_entry_ok)

lemma forgets_same [simp]: "m k = Some (v, l) \<Longrightarrow> (forgets m)(k \<mapsto> (v, 0)) = forgets m"
  by (auto simp: fun_eq_iff forgets_def)

lemma extend_steps_eff [eff_dest]:
  "extend_credited c k h = Inr h' \<Longrightarrow> pool_eff c id h h'"
  "extend_manifest c k h = Inr h' \<Longrightarrow> pool_eff c id h h'"
  "extend_allocation c j h = Inr h' \<Longrightarrow> pool_eff c id h h'"
  by (auto simp: extend_credited_def extend_manifest_def extend_allocation_def ok_simps
      pool_eff_def pool_abs_def dest!: upd_pool_eff extend_entry_ok)

lemma stored_totals_ok [eff_dest]:
  "stored_total_liability c h = Inr (v, h') \<Longrightarrow>
     pool_quiet h h' \<and> v = unwrap_or (p_total_liability (pool_abs (pools h c))) 0"
  "total_credited c h = Inr (v, h') \<Longrightarrow>
     pool_quiet h h' \<and> v = unwrap_or (p_total_credited (pool_abs (pools h c))) 0"
  "total_paid c h = Inr (v, h') \<Longrightarrow>
     pool_quiet h h' \<and> v = unwrap_or (p_total_paid (pool_abs (pools h c))) 0"
  by (auto simp: stored_total_liability_def total_credited_def total_paid_def ok_simps
      pool_abs_instance dest!: pool_init_quiet dest: pool_quietD)

lemma pool_eff_quietD: "pool_quiet h h' \<Longrightarrow> pool_eff c (\<lambda>p. p) h h'"
  by (auto simp: pool_eff_def dest: pool_quietD)

lemma upd_pool_effD:
  "upd_pool c f h = Inr h' \<Longrightarrow> pool_view c h' = pool_view c h \<and> pools h' c = f (pools h c)
     \<and> ledger h' = ledger h"
  by (auto simp: upd_pool_def ok_simps pool_view_def host_view_def)

section \<open>The abstract pool\<close>

definition liability_of :: "pool_state \<Rightarrow> int" where
  "liability_of p = unwrap_or (p_total_liability p) 0"

definition credited_of :: "pool_state \<Rightarrow> int" where
  "credited_of p = unwrap_or (p_total_credited p) 0"

definition paid_of :: "pool_state \<Rightarrow> int" where
  "paid_of p = unwrap_or (p_total_paid p) 0"

definition spec_credit :: "u64 \<Rightarrow> i128 \<Rightarrow> pool_state \<Rightarrow> pool_state" where
  "spec_credit k n p = p\<lparr>p_credited := (p_credited p)(k \<mapsto> (True, 0)),
                         p_total_credited := Some (credited_of p + n)\<rparr>"

lemma pool_record_credit_ok:
  assumes "pool_record_credit X c k n h = Inr h'"
  shows "pool_eff c (spec_credit k n) h h'" and "0 < n" and "p_credited (pools h c) k = None"
    and "p_governance (pools h c) \<noteq> None"
proof -
  show "0 < n" and "p_governance (pools h c) \<noteq> None" and "p_credited (pools h c) k = None"
    using assms
    by (auto simp: pool_record_credit_def ok_simps dest!: eff_dest pool_quietD [where c = c] has_entry_ok)
  show "pool_eff c (spec_credit k n) h h'"
    using assms
    by (auto simp: pool_record_credit_def ok_simps spec_credit_def credited_of_def pool_eff_def
        dest!: eff_dest pool_quietD [where c = c] upd_pool_effD)
qed

definition spec_expire :: "u64 \<Rightarrow> Manifest \<Rightarrow> pool_state \<Rightarrow> pool_state" where
  "spec_expire k m p = p\<lparr>
     p_manifests := (p_manifests p)(k \<mapsto> (m\<lparr>remaining_amount := 0, m_status := ManifestExpiredStatus\<rparr>, 0)),
     p_total_liability := Some (liability_of p - remaining_amount m)\<rparr>"

lemma pool_expire_manifest_ok:
  assumes "pool_expire_manifest c k h = Inr h'"
  obtains m l where "p_manifests (pools h c) k = Some (m, l)" and "m_status m = ManifestActive"
    and "m_expires_at m \<le> timestamp (ledger h)"
    and "remaining_amount m \<le> liability_of (pool_abs (pools h c))"
    and "pool_eff c (spec_expire k m) h h'"
proof -
  from assms obtain m l h1 where
    m: "p_manifests (pools h c) k = Some (m, l)" and q: "pool_quiet h h1" and
    act: "m_status m = ManifestActive" "m_expires_at m \<le> timestamp (ledger h)" and
    rest: "bindq (stored_total_liability c) (\<lambda>liability. steps [
         reject (\<lambda>h. liability < remaining_amount m) (perr P_Deficit),
         set_manifest c k (m\<lparr>remaining_amount := 0, m_status := ManifestExpiredStatus\<rparr>),
         extend_manifest c k,
         try_read (i128_op (liability - remaining_amount m)) (\<lambda>l.
           upd_pool c (\<lambda>p. p\<lparr>p_total_liability := Some l\<rparr>)),
         publish_event [SSymbol ''expired'', SU64 k] (SI128 (remaining_amount m))]) h1 = Inr h'"
    by (fastforce simp: pool_expire_manifest_def with_manifest_def ok_simps lookup_entry_Some
        split: option.splits dest!: pool_init_quiet dest: pool_quietD [where c = c])
  have "remaining_amount m \<le> liability_of (pool_abs (pools h c)) \<and> pool_eff c (spec_expire k m) h h'"
    using rest q
    by (auto simp: ok_simps spec_expire_def liability_of_def pool_eff_def i128_op_def
        split: option.splits dest!: eff_dest pool_quietD [where c = c] upd_pool_effD)
  with that m act show thesis
    by blast
qed

definition claim_manifest :: "Manifest \<Rightarrow> i128 \<Rightarrow> Manifest" where
  "claim_manifest m n = m\<lparr>remaining_amount := remaining_amount m - n,
     m_status := if remaining_amount m - n = 0 then ManifestCompleted else m_status m\<rparr>"

definition spec_claim :: "u64 \<Rightarrow> u32 \<Rightarrow> Manifest \<Rightarrow> Allocation \<Rightarrow> pool_state \<Rightarrow> pool_state" where
  "spec_claim k i m a p = p\<lparr>
     p_allocations := (p_allocations p)((k, i) \<mapsto> (a\<lparr>claimed := True\<rparr>, 0)),
     p_manifests := (p_manifests p)(k \<mapsto> (claim_manifest m (a_amount a), 0)),
     p_total_liability := Some (liability_of p - a_amount a),
     p_total_paid := Some (paid_of p + a_amount a)\<rparr>"

text \<open>The part of \<open>claim\<close> after its checks.\<close>

definition claim_body where
  "claim_body X c k i m a liability = steps [
     reject (\<lambda>h. liability < a_amount a) (perr P_Deficit),
     bindq (pool_balance c) (\<lambda>bal. reject (\<lambda>h. bal < liability) (perr P_Deficit)),
     ok_or (perr P_Deficit) (\<lambda>h. checked_i128 (remaining_amount m - a_amount a)) (\<lambda>remaining.
       read (\<lambda>h. m\<lparr>remaining_amount := remaining,
                  m_status := if remaining = 0 then ManifestCompleted else m_status m\<rparr>)
       (\<lambda>m'. steps [
         set_allocation c (k, i) (a\<lparr>claimed := True\<rparr>),
         extend_allocation c (k, i),
         set_manifest c k m',
         extend_manifest c k,
         try_read (i128_op (liability - a_amount a)) (\<lambda>l.
           upd_pool c (\<lambda>p. p\<lparr>p_total_liability := Some l\<rparr>)),
         bindq (total_paid c) (\<lambda>paid.
         ok_or (perr P_Deficit) (\<lambda>h. checked_i128 (paid + a_amount a)) (\<lambda>paid'.
           upd_pool c (\<lambda>p. p\<lparr>p_total_paid := Some paid'\<rparr>))),
         ok_or (perr P_NotInitialized) (pool_token c) (\<lambda>token.
           token_transfer X token (Contract c) (recipient a) (a_amount a)),
         publish_event [SSymbol ''claimed'', SU64 k, SU32 i]
           (SVec [SAddress (recipient a), SI128 (a_amount a), SI128 remaining])]))]"

lemma claim_body_eff:
  assumes "claim_body X c k i m a (liability_of (pool_abs (pools h c))) h = Inr h'"
  shows "a_amount a \<le> liability_of (pool_abs (pools h c)) \<and> pool_eff c (spec_claim k i m a) h h'"
  using assms
  by (auto simp: claim_body_def ok_simps spec_claim_def claim_manifest_def liability_of_def paid_of_def
      pool_eff_def i128_op_def split: option.splits
      dest!: eff_dest pool_quietD [where c = c] upd_pool_effD)

lemma pool_claim_ok:
  assumes "pool_claim X c k i h = Inr h'"
  obtains m l a l' h1 h2 where "p_manifests (pools h c) k = Some (m, l)"
    and "p_allocations (pools h c) (k, i) = Some (a, l')"
    and "m_status m = ManifestActive" and "timestamp (ledger h) < m_expires_at m"
    and "i < allocation_count m" and "\<not> claimed a" and "\<not> pool_paused c h"
    and "pool_init c h = Inr h1" and "require_auth X (recipient a) h1 = Inr h2"
    and "\<exists>h3. stored_total_liability c h2 = Inr (liability_of (pool_abs (pools h c)), h3)
        \<and> claim_body X c k i m a (liability_of (pool_abs (pools h c))) h3 = Inr h'"
proof -
  from assms obtain m l a l' h1 h2 liability h3 where
    m: "p_manifests (pools h1 c) k = Some (m, l)" and
    a: "p_allocations (pools h1 c) (k, i) = Some (a, l')" and
    pre: "m_status m = ManifestActive" "timestamp (ledger h1) < m_expires_at m"
      "i < allocation_count m" "\<not> claimed a" "\<not> pool_paused c h1" and
    init: "pool_init c h = Inr h1" and auth: "require_auth X (recipient a) h1 = Inr h2" and
    sl: "stored_total_liability c h2 = Inr (liability, h3)" and
    body: "claim_body X c k i m a liability h3 = Inr h'"
    by (auto simp: pool_claim_def with_manifest_def claim_body_def ok_simps lookup_entry_Some
        not_le not_less split: option.splits)
  have q: "pool_quiet h h1"
    using pool_init_quiet [OF init] by simp
  have same: "pools h1 = pools h" "ledger h1 = ledger h" "pools h2 = pools h1"
    using pool_quietD [OF q, of c] pool_quietD [OF host_steps_quiet(1) [OF auth], of c] by auto
  then have "liability = liability_of (pool_abs (pools h c))"
    using stored_totals_ok(1) [OF sl] by (simp add: liability_of_def)
  then show thesis
    using that m a pre init auth sl body same by (simp add: pool_paused_def)
qed

lemma pool_claim_eff:
  assumes "pool_claim X c k i h = Inr h'"
    and "p_manifests (pools h c) k = Some (m, l)" and "p_allocations (pools h c) (k, i) = Some (a, l')"
  shows "a_amount a \<le> liability_of (pool_abs (pools h c)) \<and> pool_eff c (spec_claim k i m a) h h'"
  using assms(1)
proof (rule pool_claim_ok)
  fix m1 l1 a1 l1' h1 h2
  assume run: "p_manifests (pools h c) k = Some (m1, l1)"
    "p_allocations (pools h c) (k, i) = Some (a1, l1')"
    and q: "pool_init c h = Inr h1" "require_auth X (recipient a1) h1 = Inr h2"
    and "\<exists>h3. stored_total_liability c h2 = Inr (liability_of (pool_abs (pools h c)), h3)
        \<and> claim_body X c k i m1 a1 (liability_of (pool_abs (pools h c))) h3 = Inr h'"
  then obtain h3 where sl: "stored_total_liability c h2 = Inr (liability_of (pool_abs (pools h c)), h3)"
    and body: "claim_body X c k i m1 a1 (liability_of (pool_abs (pools h c))) h3 = Inr h'"
    by blast
  have "pool_quiet h h3"
    using pool_init_quiet [OF q(1)] host_steps_quiet(1) [OF q(2)] stored_totals_ok(1) [OF sl] pool_quiet_trans by blast
  then have "pools h3 = pools h" and view: "pool_view c h3 = pool_view c h"
    by (auto dest: pool_quietD)
  then show ?thesis
    using claim_body_eff [of X c k i m1 a1 h3 h'] body run assms(2,3)
    by (simp add: pool_eff_def)
qed

text \<open>Writing the allocations of a manifest.\<close>

fun spec_allocations :: "u64 \<Rightarrow> u32 \<Rightarrow> (address \<times> i128) list
  \<Rightarrow> (u64 \<times> u32 \<Rightarrow> Allocation entry option) \<Rightarrow> u64 \<times> u32 \<Rightarrow> Allocation entry option" where
  "spec_allocations k i [] m = m"
| "spec_allocations k i ((r, n) # rest) m =
     spec_allocations k (i + 1) rest (m((k, i) \<mapsto> (\<lparr>recipient = r, a_amount = n, claimed = False\<rparr>, 0)))"

lemma write_allocations_eff [eff_dest]:
  "write_allocations c k i xs h = Inr h' \<Longrightarrow>
     pool_eff c (\<lambda>p. p\<lparr>p_allocations := spec_allocations k i xs (p_allocations p)\<rparr>) h h'"
proof (induction c k i xs arbitrary: h h' rule: write_allocations.induct)
  case (1 c k i)
  then show ?case by (simp add: ok_simps pool_eff_def)
next
  case (2 c k i r n rest)
  then obtain h1 h2 where
    s: "set_allocation c (k, i) \<lparr>recipient = r, a_amount = n, claimed = False\<rparr> h = Inr h1" and
    e: "extend_allocation c (k, i) h1 = Inr h2" and
    w: "write_allocations c k (i + 1) rest h2 = Inr h'"
    by (auto simp: ok_simps)
  show ?case
    using slot_steps_eff(3) [OF s] extend_steps_eff(3) [OF e] "2.IH" [OF w] by (simp add: pool_eff_def)
qed

definition new_manifest :: "bytes \<Rightarrow> bytes \<Rightarrow> u64 \<Rightarrow> (address \<times> i128) list \<Rightarrow> Manifest" where
  "new_manifest mh ph ex xs =
     \<lparr>manifest_hash = mh, policy_hash = ph, total_amount = sum_list (map snd xs),
      remaining_amount = sum_list (map snd xs), allocation_count = length xs,
      m_expires_at = ex, m_status = ManifestActive\<rparr>"

definition spec_publish :: "u64 \<Rightarrow> bytes \<Rightarrow> bytes \<Rightarrow> u64 \<Rightarrow> (address \<times> i128) list \<Rightarrow> pool_state \<Rightarrow> pool_state" where
  "spec_publish k mh ph ex xs p = p\<lparr>
     p_allocations := spec_allocations k 0 xs (p_allocations p),
     p_manifests := (p_manifests p)(k \<mapsto> (new_manifest mh ph ex xs, 0)),
     p_total_liability := Some (liability_of p + sum_list (map snd xs)),
     p_latest_manifest_id := Some k\<rparr>"

lemma check_allocations_ok:
  "check_allocations prior t xs = Inr n \<Longrightarrow>
     n = t + sum_list (map snd xs) \<and> (\<forall>(r, a) \<in> set xs. 0 < a)
     \<and> distinct (map fst xs) \<and> set prior \<inter> fst ` set xs = {}"
proof (induction prior t xs rule: check_allocations.induct)
  case (1 prior t)
  then show ?case by simp
next
  case (2 prior t r a rest)
  then have a: "0 < a" "r \<notin> set prior" "fits_i128 (t + a)"
    and run: "check_allocations (prior @ [r]) (t + a) rest = Inr n"
    by (auto split: if_splits option.splits)
  then have "n = t + a + sum_list (map snd rest) \<and> (\<forall>(r, a)\<in>set rest. 0 < a)
     \<and> distinct (map fst rest) \<and> set (prior @ [r]) \<inter> fst ` set rest = {}"
    using "2.IH" [of "t + a"] by (auto simp: checked_i128_def)
  with a show ?case
    by auto
qed

lemma available_balance_ok [eff_dest]:
  assumes "available_balance c h = Inr (v, h')"
  shows "pool_quiet h h' \<and> v = credited_of (pool_abs (pools h c)) - paid_of (pool_abs (pools h c))
    - liability_of (pool_abs (pools h c)) \<and> 0 \<le> v"
proof -
  from assms obtain h1 h2 h3 h4 l cr pd where
    st: "pool_init c h = Inr h1" "stored_total_liability c h1 = Inr (l, h2)"
      "total_credited c h2 = Inr (cr, h3)" "total_paid c h3 = Inr (pd, h4)" and
    le: "l \<le> cr - pd" and v: "v = cr - pd - l" and rest: "\<exists>b. pool_balance c h4 = Inr (b, h')"
    by (auto simp: available_balance_def ok_simps i128_op_def not_less split: if_splits option.splits)
  have q: "pool_quiet h h1" "pool_quiet h1 h2" "pool_quiet h2 h3" "pool_quiet h3 h4" "pool_quiet h4 h'"
    using st rest by (auto dest: eff_dest)
  then have "pool_quiet h h'"
    using pool_quiet_trans by blast
  moreover have "pools h1 = pools h" "pools h2 = pools h" "pools h3 = pools h"
    using q pool_quietD by metis+
  ultimately show ?thesis
    using st(2-4) le v
    by (auto simp: liability_of_def credited_of_def paid_of_def dest!: stored_totals_ok)
qed

definition manifest_ok :: "u64 \<Rightarrow> u64 \<Rightarrow> u64 \<Rightarrow> (address \<times> i128) list \<Rightarrow> pool_state \<Rightarrow> bool" where
  "manifest_ok now k ex xs p \<longleftrightarrow>
     p_manifests p k = None \<and> unwrap_or (p_latest_manifest_id p) 0 < k
     \<and> 0 < length xs \<and> length xs \<le> MAX_ALLOCATIONS
     \<and> now < ex \<and> ex \<le> now + MAX_CLAIM_WINDOW
     \<and> (\<forall>(r, n) \<in> set xs. 0 < n) \<and> distinct (map fst xs)
     \<and> liability_of p + sum_list (map snd xs) \<le> credited_of p - paid_of p"

definition publish_body where
  "publish_body c k mh ph ex recipients amounts tot =
     bindq (available_balance c) (\<lambda>available. steps [
       reject (\<lambda>h. available < tot) (perr P_InsufficientAvailableBalance),
       bindq (stored_total_liability c) (\<lambda>liability.
       ok_or (perr P_InvalidAllocation) (\<lambda>h. checked_i128 (liability + tot)) (\<lambda>required. steps [
         write_allocations c k 0 (zip recipients amounts),
         set_manifest c k
           \<lparr>manifest_hash = mh, policy_hash = ph, total_amount = tot,
            remaining_amount = tot, allocation_count = length recipients,
            m_expires_at = ex, m_status = ManifestActive\<rparr>,
         extend_manifest c k,
         upd_pool c (\<lambda>p. p\<lparr>p_total_liability := Some required\<rparr>),
         upd_pool c (\<lambda>p. p\<lparr>p_latest_manifest_id := Some k\<rparr>),
         publish_event [SSymbol ''manifest'', SU64 k]
           (SVec [SI128 tot, SU32 (length recipients), SU64 ex])]))])"

lemma publish_body_eff:
  assumes "publish_body c k mh ph ex rs ns (sum_list (map snd (zip rs ns))) h = Inr h'"
    and "length rs = length ns"
  shows "liability_of (pool_abs (pools h c)) + sum_list (map snd (zip rs ns))
      \<le> credited_of (pool_abs (pools h c)) - paid_of (pool_abs (pools h c))
    \<and> pool_eff c (spec_publish k mh ph ex (zip rs ns)) h h'"
  using assms
  by (auto simp: publish_body_def ok_simps spec_publish_def new_manifest_def pool_eff_def liability_of_def
      not_less dest!: eff_dest pool_quietD [where c = c] upd_pool_effD)

lemma pool_publish_manifest_ok:
  assumes "pool_publish_manifest X c k mh ph ex rs ns h = Inr h'"
  obtains g e h1 h2 h3 where "pool_quiet h h1" and "\<not> pool_paused c h"
    and "p_governance (pools h c) = Some g" and "p_eligibility (pools h c) = Some e"
    and "require_auth X g h1 = Inr h2" and "require_auth X e h2 = Inr h3"
    and "length rs = length ns" and "manifest_ok (timestamp (ledger h)) k ex (zip rs ns) (pool_abs (pools h c))"
    and "pool_eff c (spec_publish k mh ph ex (zip rs ns)) h h'"
proof -
  from assms obtain g e h1 h2 h3 tot where
    q: "pool_quiet h h1" and np: "\<not> pool_paused c h1" and
    g: "p_governance (pools h1 c) = Some g" and e: "p_eligibility (pools h1 c) = Some e" and
    ra: "require_auth X g h1 = Inr h2" and rb: "require_auth X e h2 = Inr h3" and
    len: "rs \<noteq> []" "length rs = length ns" "length rs \<le> MAX_ALLOCATIONS" and
    ex: "timestamp (ledger h3) < ex" "ex - timestamp (ledger h3) \<le> MAX_CLAIM_WINDOW" and
    new: "has_entry (ledger h3) Persistent (p_manifests (pools h3 c) k) = Inr False" and
    latest: "unwrap_or (p_latest_manifest_id (pools h3 c)) 0 < k" and
    chk: "check_allocations [] 0 (zip rs ns) = Inr tot" and
    body: "publish_body c k mh ph ex rs ns tot h3 = Inr h'"
    unfolding pool_publish_manifest_def publish_body_def [symmetric]
    by (auto simp: ok_simps pool_current_governance_def pool_current_eligibility_def not_le not_less
        dest!: pool_init_quiet)
  have "pool_quiet h h3"
    using q host_steps_quiet(1) [OF ra] host_steps_quiet(1) [OF rb] pool_quiet_trans by blast
  from pool_quietD [OF this, of c] pool_quietD [OF q, of c]
  have same: "pools h3 = pools h" "ledger h3 = ledger h" "pools h1 = pools h" "pool_view c h3 = pool_view c h"
    by auto
  note chk' = check_allocations_ok [OF chk]
  have eff: "liability_of (pool_abs (pools h c)) + sum_list (map snd (zip rs ns))
      \<le> credited_of (pool_abs (pools h c)) - paid_of (pool_abs (pools h c))
    \<and> pool_eff c (spec_publish k mh ph ex (zip rs ns)) h h'"
    using publish_body_eff [of c k mh ph ex rs ns h3 h'] body chk' len same by (simp add: pool_eff_def)
  moreover have none: "p_manifests (pools h c) k = None"
    using has_entry_ok [OF new] by (cases "p_manifests (pools h c) k") (auto simp: same)
  have "manifest_ok (timestamp (ledger h)) k ex (zip rs ns) (pool_abs (pools h c))"
    using eff chk' len ex latest none
    by (auto simp: manifest_ok_def same pool_abs_def)
  ultimately show thesis
    using that [OF q _ _ _ ra rb] np g e len same by (simp add: pool_paused_def)
qed

lemma publish_eff:
  "publish_event ts d h = Inr h' \<Longrightarrow> pools h' = pools h \<and> pool_view c h' = pool_view c h"
  by (drule host_steps_quiet(2)) (auto dest: pool_quietD)

text \<open>Set-up, roles and pausing.\<close>

definition spec_initialize :: "address \<Rightarrow> address \<Rightarrow> address \<Rightarrow> address \<Rightarrow> pool_state \<Rightarrow> pool_state" where
  "spec_initialize g e tok esc p = p\<lparr>p_governance := Some g, p_eligibility := Some e, p_token := Some tok,
     p_escrow := Some esc, p_paused := Some False, p_total_liability := Some 0, p_total_credited := Some 0,
     p_total_paid := Some 0, p_latest_manifest_id := Some 0\<rparr>"

lemma keeps_quiet_if:
  "(if b then require_auth X a else skip_step) h = Inr h' \<Longrightarrow> pool_quiet h h'"
  by (auto simp: ok_simps pool_quiet_def split: if_splits dest: keepsD [OF sac_view_shapes(1)])

lemma pool_initialize_ok:
  assumes "pool_initialize X c g e tok esc dep salt h = Inr h'"
  shows "p_governance (pools h c) = None \<and> g \<noteq> e \<and> deployed_address X dep salt = Contract c
    \<and> pool_eff c (spec_initialize g e tok esc) h h'"
  using assms
  by (auto simp: pool_initialize_def ok_simps spec_initialize_def pool_eff_def
      dest!: keeps_quiet_if eff_dest pool_quietD [where c = c] upd_pool_effD)

definition spec_accept :: "u32 \<Rightarrow> address \<Rightarrow> pool_state \<Rightarrow> pool_state" where
  "spec_accept role a p =
     (if role = 1 then p\<lparr>p_governance := Some a, p_pending_governance := None\<rparr>
      else p\<lparr>p_eligibility := Some a, p_pending_eligibility := None\<rparr>)"

definition pending_role :: "u32 \<Rightarrow> pool_state \<Rightarrow> address option" where
  "pending_role role p = (if role = 1 then p_pending_governance p else p_pending_eligibility p)"

definition other_role :: "u32 \<Rightarrow> pool_state \<Rightarrow> address option" where
  "other_role role p = (if role = 1 then p_eligibility p else p_governance p)"

lemma pool_accept_role_ok:
  assumes "pool_accept_role X c role h = Inr h'"
  obtains a o' h1 h2 where "pending_role role (pools h c) = Some a" and "other_role role (pools h c) = Some o'"
    and "a \<noteq> o'" and "pool_quiet h h1" and "require_auth X a h1 = Inr h2"
    and "pool_eff c (spec_accept role a) h h'"
proof -
  from assms obtain a o' h1 h2 where
    q: "pool_quiet h h1" and a: "pending_role role (pools h1 c) = Some a" and
    ra: "require_auth X a h1 = Inr h2" and o': "other_role role (pools h2 c) = Some o'" "a \<noteq> o'" and
    eff: "pool_eff c (spec_accept role a) h2 h'"
    by (cases "role = 1")
      (auto simp: pool_accept_role_def ok_simps pending_role_def other_role_def pool_current_eligibility_def
        pool_current_governance_def spec_accept_def pool_eff_def dest!: pool_init_quiet upd_pool_effD
        publish_eff [where c = c])
  have "pool_quiet h h2"
    using q host_steps_quiet(1) [OF ra] pool_quiet_trans by blast
  from pool_quietD [OF this, of c] pool_quietD [OF q, of c] that a ra o' eff q
  show thesis
    by (auto simp: pool_eff_def)
qed

section \<open>The accounting invariant\<close>

definition owed :: "Allocation entry option \<Rightarrow> int" where
  "owed slot = (case slot of None \<Rightarrow> 0 | Some (a, _) \<Rightarrow> if claimed a then 0 else a_amount a)"

definition unclaimed :: "(u64 \<times> u32 \<Rightarrow> Allocation entry option) \<Rightarrow> u64 \<Rightarrow> u32 \<Rightarrow> int" where
  "unclaimed m k n = (\<Sum>i<n. owed (m (k, i)))"

definition manifest_inv :: "pool_state \<Rightarrow> u64 \<Rightarrow> Manifest \<Rightarrow> bool" where
  "manifest_inv p k m \<longleftrightarrow>
     k \<le> unwrap_or (p_latest_manifest_id p) 0
     \<and> (\<forall>i<allocation_count m. \<exists>a l. p_allocations p (k, i) = Some (a, l) \<and> 0 < a_amount a)
     \<and> (m_status m = ManifestActive \<longrightarrow>
          0 < remaining_amount m \<and> remaining_amount m = unclaimed (p_allocations p) k (allocation_count m))
     \<and> (m_status m \<noteq> ManifestActive \<longrightarrow> remaining_amount m = 0)"

definition pool_inv :: "pool_state \<Rightarrow> bool" where
  "pool_inv p \<longleftrightarrow>
     finite (dom (p_manifests p))
     \<and> (\<forall>k m l. p_manifests p k = Some (m, l) \<longrightarrow> manifest_inv p k m)
     \<and> liability_of p = map_sum (\<lambda>(m, _). remaining_amount m) (p_manifests p)
     \<and> liability_of p \<le> credited_of p - paid_of p
     \<and> (\<forall>g. p_governance p = Some g \<longrightarrow> (\<exists>e. p_eligibility p = Some e \<and> e \<noteq> g))
     \<and> (p_governance p = None \<longrightarrow> p_manifests p = Map.empty)"

lemma pool_invD:
  assumes "pool_inv p" and "p_manifests p k = Some (m, l)"
  shows "manifest_inv p k m"
  using assms by (auto simp: pool_inv_def)

lemma pool_inv_remaining:
  assumes "pool_inv p" and "p_manifests p k = Some (m, l)"
  shows "0 \<le> remaining_amount m \<and> remaining_amount m \<le> liability_of p"
proof -
  have nonneg: "0 \<le> remaining_amount m'" if "p_manifests p j = Some (m', l')" for j m' l'
    using pool_invD [OF assms(1) that] by (cases "m_status m' = ManifestActive") (auto simp: manifest_inv_def)
  have "(\<lambda>(m, _). remaining_amount m) (m, l) \<le> map_sum (\<lambda>(m, _). remaining_amount m) (p_manifests p)"
    using assms nonneg by (intro map_sum_member_le) (auto simp: pool_inv_def)
  with assms nonneg [OF assms(2)] show ?thesis
    by (simp add: pool_inv_def)
qed

lemma owed_nonneg:
  "(\<And>i. i < n \<Longrightarrow> \<exists>a l. m (k, i) = Some (a, l) \<and> 0 < a_amount a) \<Longrightarrow> 0 \<le> unclaimed m k n"
  unfolding unclaimed_def by (rule sum_nonneg) (force simp: owed_def)

lemma unclaimed_claim:
  assumes "m (k, i) = Some (a, l)" and "\<not> claimed a" and "i < n"
  shows "unclaimed (m((k, i) \<mapsto> (a\<lparr>claimed := True\<rparr>, l'))) k n = unclaimed m k n - a_amount a"
proof -
  let ?m = "m((k, i) \<mapsto> (a\<lparr>claimed := True\<rparr>, l'))"
  have rest: "(\<Sum>j\<in>{..<n} - {i}. owed (?m (k, j))) = (\<Sum>j\<in>{..<n} - {i}. owed (m (k, j)))"
    by (rule sum.cong) auto
  have "unclaimed ?m k n = owed (?m (k, i)) + (\<Sum>j\<in>{..<n} - {i}. owed (?m (k, j)))"
    unfolding unclaimed_def using assms(3) by (intro sum.remove) auto
  moreover have "unclaimed m k n = owed (m (k, i)) + (\<Sum>j\<in>{..<n} - {i}. owed (m (k, j)))"
    unfolding unclaimed_def using assms(3) by (intro sum.remove) auto
  ultimately show ?thesis
    using assms(1,2) rest by (simp add: owed_def)
qed

lemma unclaimed_other: "k \<noteq> k' \<Longrightarrow> unclaimed (m((k, i) \<mapsto> x)) k' n = unclaimed m k' n"
  by (simp add: unclaimed_def)

lemma spec_allocations_other: "k' \<noteq> k \<or> j < i \<Longrightarrow> spec_allocations k i xs m (k', j) = m (k', j)"
  by (induction k i xs m rule: spec_allocations.induct) auto

lemma spec_allocations_nth:
  "j < length xs \<Longrightarrow> spec_allocations k i xs m (k, i + j) =
     Some (\<lparr>recipient = fst (xs ! j), a_amount = snd (xs ! j), claimed = False\<rparr>, 0)"
proof (induction k i xs m arbitrary: j rule: spec_allocations.induct)
  case (1 k i m)
  then show ?case by simp
next
  case (2 k i r n rest m)
  show ?case
  proof (cases j)
    case 0
    then show ?thesis by (simp add: spec_allocations_other)
  next
    case (Suc j')
    then show ?thesis
      using "2.IH" [of j'] "2.prems" by (simp del: fun_upd_apply)
  qed
qed

lemma unclaimed_new: "unclaimed (spec_allocations k 0 xs m) k (length xs) = sum_list (map snd xs)"
proof -
  have "unclaimed (spec_allocations k 0 xs m) k (length xs) = (\<Sum>i<length xs. snd (xs ! i))"
    unfolding unclaimed_def
    using spec_allocations_nth [of _ xs k 0 m] by (intro sum.cong) (auto simp: owed_def)
  then show ?thesis
    by (simp add: sum_list_sum_nth atLeast0LessThan)
qed

lemma manifest_inv_cong:
  "p_allocations p' = p_allocations p \<Longrightarrow> p_latest_manifest_id p' = p_latest_manifest_id p \<Longrightarrow>
     manifest_inv p' k m = manifest_inv p k m"
  by (simp add: manifest_inv_def)

text \<open>Every abstract operation preserves the invariant.\<close>

lemma spec_credit_inv:
  assumes "pool_inv p" and "0 < n"
  shows "pool_inv (spec_credit k n p)"
proof -
  have "manifest_inv (spec_credit k n p) j m = manifest_inv p j m" for j m
    by (rule manifest_inv_cong) (simp_all add: spec_credit_def)
  with assms show ?thesis
    by (auto simp: pool_inv_def) (auto simp: spec_credit_def liability_of_def credited_of_def
        paid_of_def unwrap_or_def)
qed

lemma spec_initialize_inv:
  "pool_inv p \<Longrightarrow> p_governance p = None \<Longrightarrow> g \<noteq> e \<Longrightarrow> pool_inv (spec_initialize g e tok esc p)"
  by (auto simp: pool_inv_def spec_initialize_def liability_of_def credited_of_def paid_of_def unwrap_or_def)

lemma spec_expire_inv:
  assumes "pool_inv p" and "p_manifests p k = Some (m, l)"
  shows "pool_inv (spec_expire k m p)"
proof -
  let ?m = "m\<lparr>remaining_amount := 0, m_status := ManifestExpiredStatus\<rparr>"
  have mi: "manifest_inv (spec_expire k m p) j x = manifest_inv p j x" for j x
    by (rule manifest_inv_cong) (simp_all add: spec_expire_def)
  have "manifest_inv p k ?m"
    using pool_invD [OF assms] by (simp add: manifest_inv_def)
  moreover have "map_sum (\<lambda>(m, _). remaining_amount m) ((p_manifests p)(k \<mapsto> (?m, 0)))
      = map_sum (\<lambda>(m, _). remaining_amount m) (p_manifests p) - remaining_amount m"
    using assms by (subst map_sum_upd) (auto simp: pool_inv_def)
  moreover have "0 \<le> remaining_amount m"
    using pool_inv_remaining [OF assms] by simp
  ultimately show ?thesis
    using assms by (auto simp: pool_inv_def mi)
      (auto simp: spec_expire_def liability_of_def credited_of_def paid_of_def unwrap_or_def split: if_splits)
qed

lemma spec_publish_inv:
  assumes "pool_inv p" and "manifest_ok now k ex xs p" and "p_governance p \<noteq> None"
  shows "pool_inv (spec_publish k mh ph ex xs p)"
proof -
  let ?p = "spec_publish k mh ph ex xs p"
  let ?n = "sum_list (map snd xs)"
  have k: "p_manifests p k = None" "unwrap_or (p_latest_manifest_id p) 0 < k" "xs \<noteq> []"
    and pos: "\<And>r n. (r, n) \<in> set xs \<Longrightarrow> 0 < n"
    and fits: "liability_of p + ?n \<le> credited_of p - paid_of p"
    using assms(2) by (auto simp: manifest_ok_def)
  have snd_pos: "0 < snd (xs ! i)" if "i < length xs" for i
    using pos [of "fst (xs ! i)" "snd (xs ! i)"] that by simp
  have "0 < ?n"
  proof -
    obtain y ys where xs: "xs = y # ys"
      using k(3) by (cases xs) auto
    have "0 \<le> sum_list (map snd ys)"
      using pos xs by (intro sum_list_nonneg) force
    moreover have "0 < snd y"
      using pos [of "fst y" "snd y"] xs by simp
    ultimately show ?thesis
      using xs by simp
  qed
  then have new: "manifest_inv ?p k (new_manifest mh ph ex xs)"
    using unclaimed_new [of k xs "p_allocations p"] spec_allocations_nth [of _ xs k 0 "p_allocations p"] snd_pos
    by (simp add: manifest_inv_def spec_publish_def new_manifest_def unwrap_or_def)
  have old: "manifest_inv ?p j m" if "p_manifests p j = Some (m, l)" for j m l
  proof -
    have "j \<noteq> k"
      using that k by auto
    then show ?thesis
      using pool_invD [OF assms(1) that] k
      by (auto simp: manifest_inv_def spec_publish_def spec_allocations_other unclaimed_def unwrap_or_def)
  qed
  have "map_sum (\<lambda>(m, _). remaining_amount m) ((p_manifests p)(k \<mapsto> (new_manifest mh ph ex xs, 0)))
      = map_sum (\<lambda>(m, _). remaining_amount m) (p_manifests p) + ?n"
    using assms k by (subst map_sum_upd) (auto simp: pool_inv_def new_manifest_def)
  moreover have "manifest_inv ?p j m" if "p_manifests ?p j = Some (m, l)" for j m l
    using that new old by (auto simp: spec_publish_def split: if_splits)
  ultimately show ?thesis
    using assms(1,3) fits unfolding pool_inv_def
    by (auto simp: spec_publish_def liability_of_def credited_of_def paid_of_def unwrap_or_def)
qed

lemma spec_claim_inv:
  assumes "pool_inv p" and "p_manifests p k = Some (m, l)" and "p_allocations p (k, i) = Some (a, l')"
    and "m_status m = ManifestActive" and "i < allocation_count m" and "\<not> claimed a"
  shows "pool_inv (spec_claim k i m a p)"
proof -
  let ?p = "spec_claim k i m a p"
  note mi = pool_invD [OF assms(1,2)]
  have allocs: "\<exists>b l. p_allocations ?p (k, j) = Some (b, l) \<and> 0 < a_amount b" if "j < allocation_count m" for j
    using mi that assms(3) by (fastforce simp: manifest_inv_def spec_claim_def)
  have rem: "unclaimed (p_allocations ?p) k (allocation_count m) = remaining_amount m - a_amount a"
    using mi assms unclaimed_claim [of "p_allocations p" k i a l' "allocation_count m" 0]
    by (simp add: manifest_inv_def spec_claim_def)
  have "0 \<le> remaining_amount m - a_amount a"
    using owed_nonneg [of "allocation_count m" "p_allocations ?p" k] allocs rem by simp
  then have new: "manifest_inv ?p k (claim_manifest m (a_amount a))"
    using mi allocs rem assms(4) by (auto simp: manifest_inv_def claim_manifest_def spec_claim_def)
  have old: "manifest_inv ?p j x" if "p_manifests p j = Some (x, y)" "j \<noteq> k" for j x y
    using pool_invD [OF assms(1) that(1)] that(2)
    by (auto simp: manifest_inv_def spec_claim_def unclaimed_other)
  have "map_sum (\<lambda>(m, _). remaining_amount m) ((p_manifests p)(k \<mapsto> (claim_manifest m (a_amount a), 0)))
      = map_sum (\<lambda>(m, _). remaining_amount m) (p_manifests p) - a_amount a"
    using assms(1,2) by (subst map_sum_upd) (auto simp: pool_inv_def claim_manifest_def)
  moreover have "manifest_inv ?p j x" if "p_manifests ?p j = Some (x, y)" for j x y
    using that new old by (auto simp: spec_claim_def split: if_splits)
  ultimately show ?thesis
    using assms(1,2) unfolding pool_inv_def
    by (auto simp: spec_claim_def liability_of_def credited_of_def paid_of_def unwrap_or_def)
qed

lemma spec_accept_inv:
  assumes "pool_inv p" and "other_role role p = Some b" and "a \<noteq> b" and "p_governance p \<noteq> None"
  shows "pool_inv (spec_accept role a p)"
proof -
  have "manifest_inv (spec_accept role a p) j m = manifest_inv p j m" for j m
    by (rule manifest_inv_cong) (simp_all add: spec_accept_def)
  with assms show ?thesis
    by (auto simp: pool_inv_def) (auto simp: spec_accept_def other_role_def liability_of_def credited_of_def
        paid_of_def split: if_splits)
qed

text \<open>The invariant does not see life times.\<close>

lemma totals_abs [simp]:
  "liability_of (pool_abs p) = liability_of p"
  "credited_of (pool_abs p) = credited_of p"
  "paid_of (pool_abs p) = paid_of p"
  by (simp_all add: liability_of_def credited_of_def paid_of_def pool_abs_instance)

lemma forgets_dom [simp]: "dom (forgets m) = dom m"
  by (auto simp: dom_def forgets_def)

lemma map_sum_forgets: "map_sum (\<lambda>(v, _). f v) (forgets m) = map_sum (\<lambda>(v, _). f v) m"
  unfolding map_sum_def by (rule sum.cong) (auto simp: forgets_def)

lemma unclaimed_forgets: "unclaimed (forgets m) k n = unclaimed m k n"
  unfolding unclaimed_def by (rule sum.cong) (auto simp: forgets_def forget_def owed_def split: option.splits)

lemma manifest_inv_abs: "manifest_inv (pool_abs p) k m = manifest_inv p k m"
  by (simp add: manifest_inv_def pool_abs_def unclaimed_forgets)

lemma forgets_empty: "forgets m = Map.empty \<longleftrightarrow> m = Map.empty"
  by (auto simp: fun_eq_iff)

lemma pool_inv_abs: "pool_inv (pool_abs p) = pool_inv p"
proof -
  have "p_manifests (pool_abs p) = forgets (p_manifests p)"
    by (simp add: pool_abs_def)
  then show ?thesis
    by (simp add: pool_inv_def manifest_inv_abs pool_abs_instance map_sum_forgets forgets_empty)
qed

section \<open>The pool as a state machine\<close>

text \<open>The exported reads.  They change no value, but some of them extend life times.\<close>

inductive pool_read :: "hash32 \<Rightarrow> 'z pool_host_scheme \<Rightarrow> 'z pool_host_scheme \<Rightarrow> bool" for c where
  get_manifest: "pool_get_manifest c k h = Inr (v, h') \<Longrightarrow> pool_read c h h'"
| get_allocation: "pool_get_allocation c k i h = Inr (v, h') \<Longrightarrow> pool_read c h h'"
| total_liability: "pool_total_liability c h = Inr (v, h') \<Longrightarrow> pool_read c h h'"
| available_balance: "available_balance c h = Inr (v, h') \<Longrightarrow> pool_read c h h'"
| is_paused: "pool_is_paused c h = Inr (v, h') \<Longrightarrow> pool_read c h h'"
| governance: "pool_governance c h = Inr (v, h') \<Longrightarrow> pool_read c h h'"
| eligibility_authority: "pool_eligibility_authority c h = Inr (v, h') \<Longrightarrow> pool_read c h h'"
| escrow_contract: "pool_escrow_contract c h = Inr (v, h') \<Longrightarrow> pool_read c h h'"
| token_contract: "pool_token_contract c h = Inr (v, h') \<Longrightarrow> pool_read c h h'"

inductive pool_step :: "externals \<Rightarrow> hash32 \<Rightarrow> 'z pool_host_scheme \<Rightarrow> 'z pool_host_scheme \<Rightarrow> bool"
  for X c where
  initialize: "pool_initialize X c g e tok esc dep salt h = Inr h' \<Longrightarrow> pool_step X c h h'"
| record_credit: "pool_record_credit X c k n h = Inr h' \<Longrightarrow> pool_step X c h h'"
| publish_manifest: "pool_publish_manifest X c k mh ph ex rs ns h = Inr h' \<Longrightarrow> pool_step X c h h'"
| claim: "pool_claim X c k i h = Inr h' \<Longrightarrow> pool_step X c h h'"
| expire_manifest: "pool_expire_manifest c k h = Inr h' \<Longrightarrow> pool_step X c h h'"
| propose_role: "pool_propose_role X c role a h = Inr h' \<Longrightarrow> pool_step X c h h'"
| accept_role: "pool_accept_role X c role h = Inr h' \<Longrightarrow> pool_step X c h h'"
| pause: "pool_pause X c h = Inr h' \<Longrightarrow> pool_step X c h h'"
| unpause: "pool_unpause X c h = Inr h' \<Longrightarrow> pool_step X c h h'"
| extend_instance_ttl: "pool_extend_instance_ttl c h = Inr h' \<Longrightarrow> pool_step X c h h'"
| extend_manifest_ttl: "pool_extend_manifest_ttl c k h = Inr h' \<Longrightarrow> pool_step X c h h'"
| reads: "pool_read c h h' \<Longrightarrow> pool_step X c h h'"

lemma pool_read_eff: "pool_read c h h' \<Longrightarrow> pool_eff c id h h'"
  by (induction rule: pool_read.induct)
    (auto simp: pool_get_manifest_def pool_get_allocation_def pool_total_liability_def pool_is_paused_def pool_governance_def
      pool_eligibility_authority_def pool_escrow_contract_def pool_token_contract_def with_manifest_def ok_simps pool_eff_def
      split: option.splits dest!: eff_dest pool_quietD [where c = c])

text \<open>Hence a read keeps every view that the reads keep one by one.\<close>

lemma pool_read_keeps:
  assumes "pool_read c h h'" and "\<And>k. keepsq g (pool_get_manifest c k)" and "\<And>k i. keepsq g (pool_get_allocation c k i)"
    and "keepsq g (pool_total_liability c)" and "keepsq g (available_balance c)" and "keepsq g (pool_is_paused c)"
    and "keepsq g (pool_governance c)" and "keepsq g (pool_eligibility_authority c)"
    and "keepsq g (pool_escrow_contract c)" and "keepsq g (pool_token_contract c)"
  shows "g h' = g h"
  using assms by (induction rule: pool_read.induct) (metis keepsqD)+

lemma pool_propose_role_eff:
  "pool_propose_role X c role a h = Inr h' \<Longrightarrow>
     pool_eff c (\<lambda>p. if role = 1 then p\<lparr>p_pending_governance := Some a\<rparr>
                     else p\<lparr>p_pending_eligibility := Some a\<rparr>) h h'"
  by (cases "role = 1") (auto simp: pool_propose_role_def ok_simps pool_eff_def
      dest!: eff_dest pool_quietD [where c = c] upd_pool_effD)

lemma pool_pause_eff:
  "pool_pause X c h = Inr h' \<Longrightarrow> pool_eff c (\<lambda>p. p\<lparr>p_paused := Some True\<rparr>) h h'"
  "pool_unpause X c h = Inr h' \<Longrightarrow> pool_eff c (\<lambda>p. p\<lparr>p_paused := Some False\<rparr>) h h'"
  by (auto simp: pool_pause_def pool_unpause_def ok_simps pool_eff_def
      dest!: eff_dest pool_quietD [where c = c] upd_pool_effD)

lemma extend_allocations_eff: "extend_allocations c k is h = Inr h' \<Longrightarrow> pool_eff c id h h'"
proof (induction c k "is" arbitrary: h h' rule: extend_allocations.induct)
  case (1 c k)
  then show ?case by (simp add: ok_simps pool_eff_def)
next
  case (2 c k i rest)
  then obtain h1 where e: "extend_allocation c (k, i) h = Inr h1"
    and r: "extend_allocations c k rest h1 = Inr h'"
    by (auto simp: ok_simps)
  show ?case
    using extend_steps_eff(3) [OF e] "2.IH" [OF r] by (simp add: pool_eff_def)
qed

lemma pool_extend_ttl_eff:
  "pool_extend_instance_ttl c h = Inr h' \<Longrightarrow> pool_eff c id h h'"
  "pool_extend_manifest_ttl c k h = Inr h' \<Longrightarrow> pool_eff c id h h'"
  by (auto simp: pool_extend_instance_ttl_def pool_extend_manifest_ttl_def with_manifest_def ok_simps
      pool_eff_def split: option.splits
      dest!: eff_dest extend_allocations_eff pool_quietD [where c = c])

lemma pool_inv_field_upd [simp]:
  "pool_inv (p\<lparr>p_pending_governance := x\<rparr>) = pool_inv p"
  "pool_inv (p\<lparr>p_pending_eligibility := x\<rparr>) = pool_inv p"
  "pool_inv (p\<lparr>p_paused := y\<rparr>) = pool_inv p"
  by (simp_all add: pool_inv_def manifest_inv_def liability_of_def credited_of_def paid_of_def)

lemma pool_eff_inv:
  assumes "pool_eff c f h h'" and "pool_inv (f (pool_abs (pools h c)))"
  shows "pool_inv (pools h' c)"
  using assms pool_inv_abs [of "pools h' c"] by (simp add: pool_eff_def)

lemma pool_step_inv:
  assumes "pool_step X c h h'" and "pool_inv (pools h c)"
  shows "pool_inv (pools h' c)"
  using assms(1)
proof cases
  case (initialize g e tok esc dep salt)
  then show ?thesis
    using pool_initialize_ok [OF initialize] assms(2)
    by (auto intro!: pool_eff_inv spec_initialize_inv simp: pool_inv_abs pool_abs_instance)
next
  case (record_credit k n)
  then show ?thesis
    using pool_record_credit_ok [OF record_credit] assms(2)
    by (auto intro!: pool_eff_inv spec_credit_inv simp: pool_inv_abs)
next
  case (publish_manifest k mh ph ex rs ns)
  then show ?thesis
    using assms(2)
    by (auto elim!: pool_publish_manifest_ok intro!: pool_eff_inv spec_publish_inv
        simp: pool_inv_abs pool_abs_instance)
next
  case (claim k i)
  then obtain m l a l' where ma: "p_manifests (pools h c) k = Some (m, l)"
    "p_allocations (pools h c) (k, i) = Some (a, l')"
    and pre: "m_status m = ManifestActive" "i < allocation_count m" "\<not> claimed a"
    by (rule pool_claim_ok)
  have "pool_inv (spec_claim k i m a (pool_abs (pools h c)))"
    using assms(2) ma pre by (intro spec_claim_inv [where l = 0 and l' = 0])
      (simp_all add: pool_inv_abs, simp_all add: pool_abs_def)
  then show ?thesis
    using pool_claim_eff [OF claim ma] by (auto intro: pool_eff_inv)
next
  case (expire_manifest k)
  then show ?thesis
    using assms(2)
    by (auto elim!: pool_expire_manifest_ok intro!: pool_eff_inv spec_expire_inv [where l = 0]
        simp: pool_inv_abs) (auto simp: pool_abs_def)
next
  case (propose_role role a)
  then show ?thesis
    using assms(2) pool_eff_inv [OF pool_propose_role_eff [OF propose_role]]
    by (cases "role = 1") (auto simp: pool_inv_abs)
next
  case (accept_role role)
  have "p_governance (pools h c) \<noteq> None"
    using accept_role by (auto simp: pool_accept_role_def ok_simps dest!: pool_init_quiet)
  with accept_role show ?thesis
    using assms(2)
    by (auto elim!: pool_accept_role_ok intro!: pool_eff_inv spec_accept_inv
        simp: pool_inv_abs other_role_def pool_abs_instance)
next
  case pause
  then show ?thesis
    using pool_eff_inv [OF pool_pause_eff(1)] assms(2) by (auto simp: pool_inv_abs)
next
  case unpause
  then show ?thesis
    using pool_eff_inv [OF pool_pause_eff(2)] assms(2) by (auto simp: pool_inv_abs)
next
  case extend_instance_ttl
  then show ?thesis
    using pool_eff_inv [OF pool_extend_ttl_eff(1)] assms(2) by (auto simp: pool_inv_abs)
next
  case (extend_manifest_ttl k)
  then show ?thesis
    using pool_eff_inv [OF pool_extend_ttl_eff(2)] assms(2) by (auto simp: pool_inv_abs)
next
  case reads
  then show ?thesis
    using pool_eff_inv [OF pool_read_eff] assms(2) by (auto simp: pool_inv_abs)
qed

section \<open>Token balances\<close>

text \<open>Token, escrow and the balances of a token: what the steps of a pool keep, the
  payment of a claim apart.\<close>

definition tok_view where
  "tok_view t c h = (p_token (pools h c), sac_bal t h, sac_tracked t h)"

lemma tok_view_upd_pool [view_rules]:
  assumes "\<And>p. p_token (f p) = p_token p"
  shows "keeps (tok_view t c) (upd_pool d f)"
proof (rule keepsI)
  fix h h' :: "'a pool_host_scheme"
  assume "upd_pool d f h = Inr h'"
  then have h': "h' = h\<lparr>pools := (pools h)(d := f (pools h d))\<rparr>"
    by (simp add: upd_pool_def ok_simps)
  have "sac_bal t h' = sac_bal t h"
    by (rule sac_bal_cong) (simp_all add: h')
  moreover have "sac_tracked t h' = sac_tracked t h"
    by (auto simp: h' sac_tracked_def read_asset_def read_asset_info_def fun_eq_iff split: address.splits)
  ultimately show "tok_view t c h' = tok_view t c h"
    using assms by (simp add: tok_view_def h')
qed

lemma tok_view_quiet:
  assumes "keeps sac_view f" and "keeps (sac_bal t) f"
  shows "keeps (tok_view t c) (f :: 'z pool_host_scheme \<Rightarrow> host_error + 'z pool_host_scheme)"
proof (rule keepsI)
  fix h h' :: "'z pool_host_scheme"
  assume run: "f h = Inr h'"
  have v: "sac_view h' = sac_view h"
    by (rule keepsD [OF assms(1) run])
  show "tok_view t c h' = tok_view t c h"
    using sac_view_more [OF v] sac_view_tracked [OF v] keepsD [OF assms(2) run] by (simp add: tok_view_def)
qed

lemma tok_view_host [view_rules]:
  "keeps (tok_view t c) (require_auth X a)"
  "keeps (tok_view t c) (publish_event ts d)"
  "keeps (tok_view t c) extend_instance"
  unfolding extend_instance_def by (intro tok_view_quiet view_rules)+

lemma tok_view_balance [view_rules]: "keepsq (tok_view t c) (token_balance tok a)"
proof (rule keepsqI)
  fix h h' :: "'z pool_host_scheme" and v
  assume run: "token_balance tok a h = Inr (v, h')"
  have view: "sac_view h' = sac_view h"
    by (rule keepsqD [OF sac_view_token_balance run])
  show "tok_view t c h' = tok_view t c h"
    using sac_view_more [OF view] sac_view_tracked [OF view] keepsqD [OF sac_bal_token_balance run]
    by (simp add: tok_view_def)
qed

lemma tok_view_slots [view_rules]:
  "keeps (tok_view t c) (set_credited d k b)"
  "keeps (tok_view t c) (extend_credited d k)"
  "keeps (tok_view t c) (set_manifest d k m)"
  "keeps (tok_view t c) (extend_manifest d k)"
  "keeps (tok_view t c) (set_allocation d j a)"
  "keeps (tok_view t c) (extend_allocation d j)"
  unfolding set_credited_def extend_credited_def set_manifest_def extend_manifest_def
    set_allocation_def extend_allocation_def
  by (intro keeps_rules view_rules; simp)+

lemma tok_view_helpers [view_rules]:
  "keeps (tok_view t c) (pool_init d)"
  "keepsq (tok_view t c) (stored_total_liability d)"
  "keepsq (tok_view t c) (total_credited d)"
  "keepsq (tok_view t c) (total_paid d)"
  "keepsq (tok_view t c) (pool_balance d)"
  unfolding pool_init_def stored_total_liability_def total_credited_def total_paid_def pool_balance_def
  by (intro keeps_rules view_rules)+

lemma tok_view_available [view_rules]: "keepsq (tok_view t c) (available_balance d)"
  unfolding available_balance_def by (auto intro!: keeps_rules view_rules)

lemma tok_view_write_allocations [view_rules]: "keeps (tok_view t c) (write_allocations d k i xs)"
  by (induction d k i xs rule: write_allocations.induct) (auto intro!: keeps_rules view_rules)

lemma tok_view_record_credit [view_rules]: "keeps (tok_view t c) (pool_record_credit X d k n)"
  unfolding pool_record_credit_def by (auto intro!: keeps_rules view_rules)

lemma tok_view_publish [view_rules]: "keeps (tok_view t c) (pool_publish_manifest X d k mh ph ex rs ns)"
  unfolding pool_publish_manifest_def by (auto intro!: keeps_rules view_rules)

lemma tok_view_expire [view_rules]: "keeps (tok_view t c) (pool_expire_manifest d k)"
  unfolding pool_expire_manifest_def with_manifest_def
  by (auto intro!: keeps_rules view_rules split: option.splits)

lemma tok_view_roles [view_rules]:
  "keeps (tok_view t c) (pool_propose_role X d role a)"
  "keeps (tok_view t c) (pool_accept_role X d role)"
  "keeps (tok_view t c) (pool_pause X d)"
  "keeps (tok_view t c) (pool_unpause X d)"
  unfolding pool_propose_role_def pool_accept_role_def pool_pause_def pool_unpause_def
  by (auto intro!: keeps_rules view_rules)

lemma tok_view_extend_allocations [view_rules]: "keeps (tok_view t c) (extend_allocations d k is)"
  by (induction d k "is" rule: extend_allocations.induct) (auto intro!: keeps_rules view_rules)

lemma tok_view_ttl [view_rules]:
  "keeps (tok_view t c) (pool_extend_instance_ttl d)"
  "keeps (tok_view t c) (pool_extend_manifest_ttl d k)"
  unfolding pool_extend_instance_ttl_def pool_extend_manifest_ttl_def with_manifest_def
  by (auto intro!: keeps_rules view_rules split: option.splits)

lemma tok_view_reads:
  "keepsq (tok_view t c) (pool_get_manifest d k)"
  "keepsq (tok_view t c) (pool_get_allocation d k i)"
  "keepsq (tok_view t c) (pool_total_liability d)"
  "keepsq (tok_view t c) (pool_is_paused d)"
  "keepsq (tok_view t c) (pool_governance d)"
  "keepsq (tok_view t c) (pool_eligibility_authority d)"
  "keepsq (tok_view t c) (pool_escrow_contract d)"
  "keepsq (tok_view t c) (pool_token_contract d)"
  unfolding pool_get_manifest_def pool_get_allocation_def pool_total_liability_def pool_is_paused_def pool_governance_def
    pool_eligibility_authority_def pool_escrow_contract_def pool_token_contract_def with_manifest_def
  by (auto intro!: keeps_rules view_rules split: option.splits)

lemma tok_view_read: "pool_read d h h' \<Longrightarrow> tok_view t c h' = tok_view t c h"
  by (erule pool_read_keeps) (rule tok_view_reads tok_view_available)+

text \<open>A claim pays exactly the stored amount to the stored recipient.\<close>

lemma claim_body_pays:
  fixes h h' :: "'z pool_host_scheme"
  assumes "claim_body X c k i m a v h = Inr h'" and "p_token (pools h c) = Some (Contract t)"
  obtains u w :: "'z pool_host_scheme" where "tok_view t c u = tok_view t c h"
    and "token_transfer X (Contract t) (Contract c) (recipient a) (a_amount a) u = Inr w"
    and "tok_view t c h' = tok_view t c w"
proof -
  let ?before = "steps [
         set_allocation c (k, i) (a\<lparr>claimed := True\<rparr>),
         extend_allocation c (k, i),
         set_manifest c k (m\<lparr>remaining_amount := remaining_amount m - a_amount a,
                  m_status := if remaining_amount m - a_amount a = 0 then ManifestCompleted else m_status m\<rparr>),
         extend_manifest c k,
         try_read (i128_op (v - a_amount a)) (\<lambda>l.
           upd_pool c (\<lambda>p. p\<lparr>p_total_liability := Some l\<rparr>)),
         bindq (total_paid c) (\<lambda>paid.
         ok_or (perr P_Deficit) (\<lambda>h. checked_i128 (paid + a_amount a)) (\<lambda>paid'.
           upd_pool c (\<lambda>p. p\<lparr>p_total_paid := Some paid'\<rparr>)))]"
  from assms(1) obtain g b u w tok ts d where
    pb: "pool_balance c h = Inr (b, g)" and before: "?before g = Inr u" and
    tok: "p_token (pools u c) = Some tok"
      "token_transfer X tok (Contract c) (recipient a) (a_amount a) u = Inr w" and
    ev: "publish_event ts d w = Inr h'"
    by (auto simp: claim_body_def ok_simps pool_token_def)
  have "keeps (tok_view t c) ?before"
    by (auto intro!: keeps_rules view_rules)
  then have view: "tok_view t c u = tok_view t c h"
    using before keepsqD [OF tok_view_helpers(5) pb] by (auto dest: keepsD)
  then have "p_token (pools u c) = Some (Contract t)"
    using assms(2) by (simp add: tok_view_def)
  then show thesis
    using that [OF view, of w] tok ev by (auto dest: keepsD [OF tok_view_host(2)])
qed

lemma pool_claim_pays:
  fixes h h' :: "'z pool_host_scheme"
  assumes "pool_claim X c k i h = Inr h'" and "p_token (pools h c) = Some (Contract t)"
    and "p_allocations (pools h c) (k, i) = Some (a, l)" and "sac_tracked t h x"
  shows "sac_bal t h' x = sac_bal t h x + (if x = recipient a then a_amount a else 0)
    - (if x = Contract c then a_amount a else 0)"
  using assms(1)
proof (rule pool_claim_ok)
  fix m l1 a1 l1' h1 h2
  assume a1: "p_allocations (pools h c) (k, i) = Some (a1, l1')"
    and init: "pool_init c h = Inr h1" and auth: "require_auth X (recipient a1) h1 = Inr h2"
    and "\<exists>h3. stored_total_liability c h2 = Inr (liability_of (pool_abs (pools h c)), h3)
        \<and> claim_body X c k i m a1 (liability_of (pool_abs (pools h c))) h3 = Inr h'"
  then obtain h3 v where sl: "stored_total_liability c h2 = Inr (v, h3)"
    and body: "claim_body X c k i m a1 v h3 = Inr h'"
    by blast
  have v3: "tok_view t c h3 = tok_view t c h"
    using keepsD [OF tok_view_helpers(1) init] keepsD [OF tok_view_host(1) auth]
      keepsqD [OF tok_view_helpers(2) sl] by metis
  then have "p_token (pools h3 c) = Some (Contract t)"
    using assms(2) by (simp add: tok_view_def)
  from body this obtain u w :: "'z pool_host_scheme" where vu: "tok_view t c u = tok_view t c h3"
    and pay: "token_transfer X (Contract t) (Contract c) (recipient a1) (a_amount a1) u = Inr w"
    and vw: "tok_view t c h' = tok_view t c w"
    by (rule claim_body_pays)
  have "sac_tracked t u x"
    using vu v3 assms(4) by (simp add: tok_view_def)
  then show ?thesis
    using sac.transfer_bal [OF pay, of x] vu v3 vw a1 assms(3) by (simp add: tok_view_def)
qed

section \<open>Solvency\<close>

definition pool_solvent :: "hash32 \<Rightarrow> hash32 \<Rightarrow> 'z pool_host_scheme \<Rightarrow> bool" where
  "pool_solvent t c h \<longleftrightarrow>
     p_token (pools h c) = Some (Contract t)
     \<and> credited_of (pools h c) - paid_of (pools h c) \<le> sac_bal t h (Contract c)"

lemma pool_solvent_covers:
  "pool_inv (pools h c) \<Longrightarrow> pool_solvent t c h \<Longrightarrow> liability_of (pools h c) \<le> sac_bal t h (Contract c)"
  by (auto simp: pool_inv_def pool_solvent_def)

lemma pool_solvent_same:
  assumes "tok_view t c h' = tok_view t c h" and "pool_eff c g h h'"
    and "credited_of (g (pool_abs (pools h c))) - paid_of (g (pool_abs (pools h c)))
      = credited_of (pools h c) - paid_of (pools h c)"
    and "pool_solvent t c h"
  shows "pool_solvent t c h'"
proof -
  have "credited_of (pools h' c) - paid_of (pools h' c) = credited_of (pools h c) - paid_of (pools h c)"
    using assms(2,3) totals_abs [of "pools h' c"] by (simp add: pool_eff_def)
  then show ?thesis
    using assms(1,4) by (simp add: pool_solvent_def tok_view_def)
qed

lemma pool_solvent_keep:
  assumes "keeps (tok_view t c) f" and "f h = Inr h'" and "pool_eff c g h h'"
    and "credited_of (g (pool_abs (pools h c))) - paid_of (g (pool_abs (pools h c)))
      = credited_of (pools h c) - paid_of (pools h c)"
    and "pool_solvent t c h"
  shows "pool_solvent t c h'"
  by (rule pool_solvent_same [OF keepsD [OF assms(1,2)] assms(3-5)])

lemma pool_balance_value:
  assumes "pool_balance c h = Inr (v, h')" and "p_token (pools h c) = Some (Contract t)"
  shows "v = sac_bal t h (Contract c)"
  using assms token_balance_value [of t c h v h'] by (auto simp: pool_balance_def ok_simps pool_token_def)

lemma pool_record_credit_covered:
  fixes h h' :: "'z pool_host_scheme"
  assumes "pool_record_credit X c k n h = Inr h'" and "p_token (pools h c) = Some (Contract t)"
  shows "credited_of (pools h c) + n - paid_of (pools h c) \<le> sac_bal t h (Contract c)"
proof -
  let ?before = "\<lambda>e. steps [pool_init c, require_auth X e]"
  from assms(1) obtain e g g1 g2 g3 cr pd b where
    before: "?before e h = Inr g" and cr: "total_credited c g = Inr (cr, g1)" and
    pd: "total_paid c g1 = Inr (pd, g2)" and b: "pool_balance c g2 = Inr (b, g3)" and
    le: "cr + n - pd \<le> b"
    by (auto simp: pool_record_credit_def ok_simps not_less)
  have "keeps (tok_view t c) (?before e)"
    by (auto intro!: keeps_rules view_rules)
  then have v: "tok_view t c g2 = tok_view t c h"
    using before keepsqD [OF tok_view_helpers(3) cr] keepsqD [OF tok_view_helpers(4) pd]
    by (auto dest: keepsD)
  have "pool_quiet h g"
    using before by (auto simp: ok_simps dest!: pool_init_quiet host_steps_quiet(1) intro: pool_quiet_trans)
  then have "cr = credited_of (pools h c)" and "pd = paid_of (pools h c)"
    using stored_totals_ok(2) [OF cr] stored_totals_ok(3) [OF pd]
    by (auto simp: credited_of_def paid_of_def pool_abs_instance dest!: pool_quietD [where c = c])
  moreover have "b = sac_bal t h (Contract c)"
    using pool_balance_value [OF b, of t] v assms(2) by (simp add: tok_view_def)
  ultimately show ?thesis
    using le by simp
qed

text \<open>Every operation of an initialized pool keeps it solvent.\<close>

lemma pool_step_solvent:
  assumes "pool_step X c h h'" and "pool_inv (pools h c)" and "pool_solvent t c h"
    and "p_governance (pools h c) \<noteq> None"
  shows "pool_solvent t c h'"
  using assms(1)
proof cases
  case (initialize g e tok esc dep salt)
  then show ?thesis
    using pool_initialize_ok [OF initialize] assms(4) by simp
next
  case (record_credit k n)
  note tok = assms(3) [unfolded pool_solvent_def, THEN conjunct1]
  have "tok_view t c h' = tok_view t c h"
    by (rule keepsD [OF tok_view_record_credit record_credit])
  moreover have "credited_of (pools h' c) = credited_of (pools h c) + n"
    and "paid_of (pools h' c) = paid_of (pools h c)"
    using pool_record_credit_ok(1) [OF record_credit] totals_abs [of "pools h' c"] totals_abs [of "pools h c"]
    by (auto simp: pool_eff_def spec_credit_def credited_of_def paid_of_def unwrap_or_def)
  ultimately show ?thesis
    using tok pool_record_credit_covered [OF record_credit tok] by (simp add: pool_solvent_def tok_view_def)
next
  case (publish_manifest k mh ph ex rs ns)
  then have eff: "pool_eff c (spec_publish k mh ph ex (zip rs ns)) h h'"
    by (rule pool_publish_manifest_ok)
  show ?thesis
    by (rule pool_solvent_keep [OF tok_view_publish publish_manifest eff _ assms(3)])
      (simp add: spec_publish_def credited_of_def paid_of_def pool_abs_instance)
next
  case (claim k i)
  then obtain m l a l' where ma: "p_manifests (pools h c) k = Some (m, l)"
    "p_allocations (pools h c) (k, i) = Some (a, l')" and "i < allocation_count m"
    by (rule pool_claim_ok)
  then have "0 < a_amount a"
    using pool_invD [OF assms(2) ma(1)] by (auto simp: manifest_inv_def)
  have tok: "p_token (pools h c) = Some (Contract t)"
    using assms(3) by (simp add: pool_solvent_def)
  have eff: "pool_eff c (spec_claim k i m a) h h'"
    using pool_claim_eff [OF claim ma] by simp
  have "p_token (pools h' c) = p_token (pools h c)"
    and "credited_of (pools h' c) = credited_of (pools h c)"
    and "paid_of (pools h' c) = paid_of (pools h c) + a_amount a"
    using eff totals_abs [of "pools h' c"] totals_abs [of "pools h c"] pool_abs_instance(9) [of "pools h' c"]
      pool_abs_instance(9) [of "pools h c"]
    by (auto simp: pool_eff_def spec_claim_def credited_of_def paid_of_def unwrap_or_def)
  then show ?thesis
    using assms(3) pool_claim_pays [OF claim tok ma(2), of "Contract c"] \<open>0 < a_amount a\<close>
    by (auto simp: pool_solvent_def split: if_splits)
next
  case (expire_manifest k)
  then obtain m where eff: "pool_eff c (spec_expire k m) h h'"
    by (rule pool_expire_manifest_ok)
  show ?thesis
    by (rule pool_solvent_keep [OF tok_view_expire expire_manifest eff _ assms(3)])
      (simp add: spec_expire_def credited_of_def paid_of_def pool_abs_instance)
next
  case (propose_role role a)
  show ?thesis
    by (rule pool_solvent_keep [OF tok_view_roles(1) propose_role pool_propose_role_eff [OF propose_role] _ assms(3)])
      (simp add: credited_of_def paid_of_def pool_abs_instance)
next
  case (accept_role role)
  then obtain a where eff: "pool_eff c (spec_accept role a) h h'"
    by (rule pool_accept_role_ok)
  show ?thesis
    by (rule pool_solvent_keep [OF tok_view_roles(2) accept_role eff _ assms(3)])
      (simp add: spec_accept_def credited_of_def paid_of_def pool_abs_instance)
next
  case pause
  show ?thesis
    by (rule pool_solvent_keep [OF tok_view_roles(3) pause pool_pause_eff(1) [OF pause] _ assms(3)])
      (simp add: credited_of_def paid_of_def pool_abs_instance)
next
  case unpause
  show ?thesis
    by (rule pool_solvent_keep [OF tok_view_roles(4) unpause pool_pause_eff(2) [OF unpause] _ assms(3)])
      (simp add: credited_of_def paid_of_def pool_abs_instance)
next
  case extend_instance_ttl
  show ?thesis
    by (rule pool_solvent_keep [OF tok_view_ttl(1) extend_instance_ttl
          pool_extend_ttl_eff(1) [OF extend_instance_ttl] _ assms(3)]) simp
next
  case (extend_manifest_ttl k)
  show ?thesis
    by (rule pool_solvent_keep [OF tok_view_ttl(2) extend_manifest_ttl
          pool_extend_ttl_eff(2) [OF extend_manifest_ttl] _ assms(3)]) simp
next
  case reads
  then show ?thesis
    using pool_solvent_same [OF tok_view_read pool_read_eff _ assms(3)] by simp
qed

section \<open>Authorization at the entry of a pool function\<close>

lemma pool_init_authorized:
  "pool_init c h = Inr h' \<Longrightarrow> has_authorized X a h' = has_authorized X a h"
  by (rule has_authorized_cong)
    (auto simp: pool_init_def extend_instance_def ok_simps dest!: extend_instance_shape)

lemma pool_require_auth_authorized:
  "pool_init c h = Inr h1 \<Longrightarrow> require_auth X a h1 = Inr h2 \<Longrightarrow> has_authorized X a h"
  using require_auth_authorized pool_init_authorized by blast


interpretation pol: component "pool_step X c" "\<lambda>h. pools h c" pool_inv for X c
  by unfold_locales (rule pool_step_inv)

end
