(* ===== verification/Campaign_Escrow.thy ===== *)
theory Campaign_Escrow
  imports Contributor_Pool_Laws
begin

text \<open>
  The campaign escrow, \<open>contracts/campaign_escrow/src/lib.rs\<close>: campaigns are funded by a
  sponsor, activated by that sponsor, and then either completed by the settlement authority,
  which splits the amount over creator, treasury, the two contributor pools and the referrer,
  or refunded after their expiry.  The instance keys of \<open>DataKey\<close> are option fields of
  \<open>escrow_state\<close>; \<open>Campaign\<close> and \<open>ConsumedOperation\<close> are slots with a life time.  Each exported
  function has a definition \<open>escrow_<name>\<close>, statement by statement; \<open>c\<close> is the id of
  the escrow whose frame runs.  The theorems are in \<open>Campaign_Escrow_Laws\<close>.
\<close>

section \<open>Data\<close>

definition EXPIRY :: u64 where "EXPIRY = 30 * DAY"
definition DENOM :: i128 where "DENOM = 10000"
definition SERVICE :: i128 where "SERVICE = 1000"
definition NFT_POOL :: i128 where "NFT_POOL = 500"
definition REVENUE :: i128 where "REVENUE = 200"
definition REFERRER :: i128 where "REFERRER = 100"
definition MINIMUM_CAMPAIGN_AMOUNT :: i128 where "MINIMUM_CAMPAIGN_AMOUNT = 100"
definition ESCROW_TTL :: u32 where "ESCROW_TTL = 700000"

datatype CampaignStatus = Funded | Active | Completed | Refunded

record Campaign =
  sponsor :: address
  amount :: i128
  creator :: address
  referrer :: "address option"
  terms_hash :: bytes
  funded_at :: u64
  expires_at :: u64
  operation_version :: u32
  status :: CampaignStatus

datatype EscrowError =
  E_AlreadyInitialized | E_NotInitialized | E_CampaignAlreadyExists | E_CampaignNotFound
| E_InvalidAmount | E_InvalidState | E_Paused | E_Expired | E_NotExpired | E_WrongVersion
| E_EmptyTerms | E_NoPendingRole | E_Deficit | E_InvalidContributorPool | E_ReferrerRequired
| E_InvalidDeployment

fun escrow_error_code :: "EscrowError \<Rightarrow> u32" where
  "escrow_error_code E_AlreadyInitialized = 1"
| "escrow_error_code E_NotInitialized = 2"
| "escrow_error_code E_CampaignAlreadyExists = 3"
| "escrow_error_code E_CampaignNotFound = 4"
| "escrow_error_code E_InvalidAmount = 5"
| "escrow_error_code E_InvalidState = 6"
| "escrow_error_code E_Paused = 7"
| "escrow_error_code E_Expired = 8"
| "escrow_error_code E_NotExpired = 9"
| "escrow_error_code E_WrongVersion = 10"
| "escrow_error_code E_EmptyTerms = 11"
| "escrow_error_code E_NoPendingRole = 12"
| "escrow_error_code E_Deficit = 13"
| "escrow_error_code E_InvalidContributorPool = 14"
| "escrow_error_code E_ReferrerRequired = 15"
| "escrow_error_code E_InvalidDeployment = 16"

definition eerr :: "EscrowError \<Rightarrow> host_error" where
  "eerr e = ContractErr (escrow_error_code e)"

record escrow_state =
  e_governance :: "address option"
  e_pending_governance :: "address option"
  e_settlement :: "address option"
  e_pending_settlement :: "address option"
  e_token :: "address option"
  e_service_treasury :: "address option"
  e_nft_pool :: "address option"
  e_revenue_pool :: "address option"
  e_paused :: "bool option"
  e_config_version :: "u32 option"
  e_total_liability :: "i128 option"
  e_campaigns :: "u64 \<Rightarrow> Campaign entry option"
  e_consumed :: "u64 \<times> u32 \<Rightarrow> bool entry option"

record escrow_host = pool_host +
  escrows :: "hash32 \<Rightarrow> escrow_state"

type_synonym escrow_step = "(escrow_host, host_error) step"
type_synonym 'a escrow_query = "(escrow_host, host_error, 'a) query"

definition upd_escrow :: "hash32 \<Rightarrow> (escrow_state \<Rightarrow> escrow_state) \<Rightarrow> escrow_step" where
  "upd_escrow c f = modify (\<lambda>h. h\<lparr>escrows := (escrows h)(c := f (escrows h c))\<rparr>)"

section \<open>Persistent slots and helpers\<close>

definition set_campaign :: "hash32 \<Rightarrow> u64 \<Rightarrow> Campaign \<Rightarrow> escrow_step" where
  "set_campaign c k v =
     try_read (\<lambda>h. put_entry (ledger h) Persistent (e_campaigns (escrows h c) k) v) (\<lambda>e.
     upd_escrow c (\<lambda>s. s\<lparr>e_campaigns := (e_campaigns s)(k \<mapsto> e)\<rparr>))"

definition extend_campaign :: "hash32 \<Rightarrow> u64 \<Rightarrow> escrow_step" where
  "extend_campaign c k =
     try_read (\<lambda>h. extend_entry (ledger h) Persistent ESCROW_TTL ESCROW_TTL (e_campaigns (escrows h c) k)) (\<lambda>e.
     upd_escrow c (\<lambda>s. s\<lparr>e_campaigns := (e_campaigns s)(k \<mapsto> e)\<rparr>))"

definition set_consumed :: "hash32 \<Rightarrow> u64 \<times> u32 \<Rightarrow> bool \<Rightarrow> escrow_step" where
  "set_consumed c k v =
     try_read (\<lambda>h. put_entry (ledger h) Persistent (e_consumed (escrows h c) k) v) (\<lambda>e.
     upd_escrow c (\<lambda>s. s\<lparr>e_consumed := (e_consumed s)(k \<mapsto> e)\<rparr>))"

definition extend_consumed :: "hash32 \<Rightarrow> u64 \<times> u32 \<Rightarrow> escrow_step" where
  "extend_consumed c k =
     try_read (\<lambda>h. extend_entry (ledger h) Persistent ESCROW_TTL ESCROW_TTL (e_consumed (escrows h c) k)) (\<lambda>e.
     upd_escrow c (\<lambda>s. s\<lparr>e_consumed := (e_consumed s)(k \<mapsto> e)\<rparr>))"

definition escrow_extend_instance :: escrow_step where
  "escrow_extend_instance = extend_current_contract_instance_and_code_ttl ESCROW_TTL ESCROW_TTL"

definition escrow_init :: "hash32 \<Rightarrow> escrow_step" where
  "escrow_init c = steps [
     reject (\<lambda>h. e_governance (escrows h c) = None) (eerr E_NotInitialized),
     escrow_extend_instance]"

definition escrow_paused :: "hash32 \<Rightarrow> escrow_host \<Rightarrow> bool" where
  "escrow_paused c h = unwrap_or (e_paused (escrows h c)) False"

definition with_campaign ::
  "hash32 \<Rightarrow> u64 \<Rightarrow> (Campaign \<Rightarrow> escrow_host \<Rightarrow> host_error + 'r) \<Rightarrow> escrow_host \<Rightarrow> host_error + 'r" where
  "with_campaign c k body =
     try_read (\<lambda>h. lookup_entry (ledger h) Persistent (e_campaigns (escrows h c) k)) (\<lambda>r.
       case r of None \<Rightarrow> fail (eerr E_CampaignNotFound) | Some x \<Rightarrow> body x)"

text \<open>\<open>ContributorPoolClient\<close>.\<close>

definition call_pool_query :: "address \<Rightarrow> string \<Rightarrow> (hash32 \<Rightarrow> 'a escrow_query) \<Rightarrow> 'a escrow_query" where
  "call_pool_query pool fn body =
     ok_or (HostErr SCE_Value InvalidInput) (\<lambda>_. contract_of pool) (\<lambda>p.
     call_query p (Wasm ContributorPool) fn [] (body p))"

definition call_record_credit :: "externals \<Rightarrow> address \<Rightarrow> u64 \<Rightarrow> i128 \<Rightarrow> escrow_step" where
  "call_record_credit X pool campaign_id n =
     ok_or (HostErr SCE_Value InvalidInput) (\<lambda>_. contract_of pool) (\<lambda>p.
     call_step p (Wasm ContributorPool) ''record_credit'' [SU64 campaign_id, SI128 n]
       (pool_record_credit X p campaign_id n))"

definition authorize_pool_credit :: "address \<Rightarrow> u64 \<Rightarrow> i128 \<Rightarrow> escrow_step" where
  "authorize_pool_credit pool campaign_id n =
     authorize_as_curr_contract
       [EntryContract pool ''record_credit'' [SU64 campaign_id, SI128 n] []]"

section \<open>Set-up\<close>

definition escrow_initialize ::
  "externals \<Rightarrow> hash32 \<Rightarrow> address \<Rightarrow> address \<Rightarrow> address \<Rightarrow> address \<Rightarrow> address \<Rightarrow> address \<Rightarrow> address \<Rightarrow> bytes
   \<Rightarrow> escrow_step" where
  "escrow_initialize X c governance settlement token treasury nft_pool revenue_pool deployer salt = steps [
     reject (\<lambda>h. e_governance (escrows h c) \<noteq> None) (eerr E_AlreadyInitialized),
     reject (\<lambda>h. deployed_address X deployer salt \<noteq> Contract c) (eerr E_InvalidDeployment),
     require_auth X deployer,
     reject (\<lambda>h. nft_pool = revenue_pool) (eerr E_InvalidContributorPool),
     bindq (call_pool_query nft_pool ''escrow_contract'' pool_escrow_contract) (\<lambda>a.
       reject (\<lambda>h. a \<noteq> Contract c) (eerr E_InvalidContributorPool)),
     bindq (call_pool_query revenue_pool ''escrow_contract'' pool_escrow_contract) (\<lambda>a.
       reject (\<lambda>h. a \<noteq> Contract c) (eerr E_InvalidContributorPool)),
     bindq (call_pool_query nft_pool ''token_contract'' pool_token_contract) (\<lambda>a.
       reject (\<lambda>h. a \<noteq> token) (eerr E_InvalidContributorPool)),
     bindq (call_pool_query revenue_pool ''token_contract'' pool_token_contract) (\<lambda>a.
       reject (\<lambda>h. a \<noteq> token) (eerr E_InvalidContributorPool)),
     (if governance \<noteq> deployer then require_auth X governance else skip_step),
     upd_escrow c (\<lambda>s. s\<lparr>e_governance := Some governance\<rparr>),
     upd_escrow c (\<lambda>s. s\<lparr>e_settlement := Some settlement\<rparr>),
     upd_escrow c (\<lambda>s. s\<lparr>e_token := Some token\<rparr>),
     upd_escrow c (\<lambda>s. s\<lparr>e_service_treasury := Some treasury\<rparr>),
     upd_escrow c (\<lambda>s. s\<lparr>e_nft_pool := Some nft_pool\<rparr>),
     upd_escrow c (\<lambda>s. s\<lparr>e_revenue_pool := Some revenue_pool\<rparr>),
     upd_escrow c (\<lambda>s. s\<lparr>e_config_version := Some 1\<rparr>),
     upd_escrow c (\<lambda>s. s\<lparr>e_paused := Some False\<rparr>),
     upd_escrow c (\<lambda>s. s\<lparr>e_total_liability := Some 0\<rparr>),
     escrow_extend_instance]"

section \<open>The life of a campaign\<close>

definition escrow_fund :: "externals \<Rightarrow> hash32 \<Rightarrow> u64 \<Rightarrow> address \<Rightarrow> i128 \<Rightarrow> escrow_step" where
  "escrow_fund X c campaign_id sp amt = steps [
     escrow_init c,
     reject (\<lambda>h. amt < MINIMUM_CAMPAIGN_AMOUNT \<or> amt > I128_MAX sdiv DENOM) (eerr E_InvalidAmount),
     reject (escrow_paused c) (eerr E_Paused),
     try_read (\<lambda>h. has_entry (ledger h) Persistent (e_campaigns (escrows h c) campaign_id)) (\<lambda>b.
       reject (\<lambda>h. b) (eerr E_CampaignAlreadyExists)),
     require_auth X sp,
     ok_or wasm_trap (\<lambda>h. e_token (escrows h c)) (\<lambda>token.
       token_transfer X token sp (Contract c) amt),
     read (\<lambda>h. unwrap_or (e_total_liability (escrows h c)) 0) (\<lambda>liability.
     try_read (i128_op (liability + amt)) (\<lambda>l.
       upd_escrow c (\<lambda>s. s\<lparr>e_total_liability := Some l\<rparr>))),
     read (\<lambda>h. timestamp (ledger h)) (\<lambda>now.
     ok_or wasm_trap (\<lambda>h. checked_add_u64 now EXPIRY) (\<lambda>expiry. steps [
       set_campaign c campaign_id
         \<lparr>sponsor = sp, amount = amt, creator = Contract c, referrer = None, terms_hash = [],
          funded_at = now, expires_at = expiry, operation_version = 0, status = Funded\<rparr>,
       extend_campaign c campaign_id,
       publish_event [SSymbol ''funded'', SU64 campaign_id]
         (SVec [SAddress sp, SI128 amt, SU64 now])]))]"

definition escrow_activate ::
  "externals \<Rightarrow> hash32 \<Rightarrow> u64 \<Rightarrow> address \<Rightarrow> address option \<Rightarrow> bytes \<Rightarrow> escrow_step" where
  "escrow_activate X c campaign_id new_creator new_referrer terms = steps [
     escrow_init c,
     reject (escrow_paused c) (eerr E_Paused),
     reject (\<lambda>h. terms = []) (eerr E_EmptyTerms),
     reject (\<lambda>h. new_referrer = None) (eerr E_ReferrerRequired),
     with_campaign c campaign_id (\<lambda>x. steps [
       reject (\<lambda>h. status x \<noteq> Funded) (eerr E_InvalidState),
       require_auth X (sponsor x),
       set_campaign c campaign_id
         (x\<lparr>creator := new_creator, referrer := new_referrer, terms_hash := terms,
            status := Active, operation_version := 1\<rparr>),
       extend_campaign c campaign_id,
       publish_event [SSymbol ''activated'', SU64 campaign_id]
         (SVec [SAddress new_creator, SBytes terms, SU64 (expires_at x)])])]"

text \<open>One leg of the split: \<open>total.checked_mul(part).ok_or(InvalidAmount)? / DENOM\<close>.\<close>

definition leg_amount :: "i128 \<Rightarrow> i128 \<Rightarrow> host_error + i128" where
  "leg_amount tot part =
     (case checked_i128 (tot * part) of
        None \<Rightarrow> Inl (eerr E_InvalidAmount) | Some x \<Rightarrow> Inr (x sdiv DENOM))"

text \<open>The two transfers out of the contract that are followed by a credit in a pool.\<close>

definition pay_pool :: "externals \<Rightarrow> hash32 \<Rightarrow> address \<Rightarrow> (escrow_state \<Rightarrow> address option) \<Rightarrow> u64 \<Rightarrow> i128
  \<Rightarrow> escrow_step" where
  "pay_pool X c token pool_key campaign_id n = steps [
     ok_or wasm_trap (\<lambda>h. pool_key (escrows h c)) (\<lambda>dest. token_transfer X token (Contract c) dest n),
     ok_or wasm_trap (\<lambda>h. pool_key (escrows h c)) (\<lambda>pool. steps [
       authorize_pool_credit pool campaign_id n,
       call_record_credit X pool campaign_id n])]"

text \<open>From the computation of the legs to the event.\<close>

definition settle :: "externals \<Rightarrow> hash32 \<Rightarrow> address \<Rightarrow> u64 \<Rightarrow> Campaign \<Rightarrow> escrow_step" where
  "settle X c token campaign_id x =
     try_read (\<lambda>h. leg_amount (amount x) SERVICE) (\<lambda>service.
     try_read (\<lambda>h. leg_amount (amount x) NFT_POOL) (\<lambda>nft.
     try_read (\<lambda>h. leg_amount (amount x) REVENUE) (\<lambda>revenue.
     try_read (\<lambda>h. leg_amount (amount x) REFERRER) (\<lambda>referral.
     ok_or (eerr E_ReferrerRequired) (\<lambda>h. referrer x) (\<lambda>referrer_address.
     try_read (i128_op (amount x - service)) (\<lambda>r1.
     try_read (i128_op (r1 - nft)) (\<lambda>r2.
     try_read (i128_op (r2 - revenue)) (\<lambda>r3.
     try_read (i128_op (r3 - referral)) (\<lambda>creator_amount. steps [
       token_transfer X token (Contract c) (creator x) creator_amount,
       ok_or wasm_trap (\<lambda>h. e_service_treasury (escrows h c)) (\<lambda>treasury.
         token_transfer X token (Contract c) treasury service),
       pay_pool X c token e_nft_pool campaign_id nft,
       pay_pool X c token e_revenue_pool campaign_id revenue,
       token_transfer X token (Contract c) referrer_address referral,
       publish_event [SSymbol ''completed'', SU64 campaign_id]
         (SVec [SAddress (creator x), SI128 (amount x), SI128 creator_amount, SI128 service,
                SI128 nft, SI128 revenue, SI128 referral])])))))))))"

text \<open>\<open>if liability < total || tc.balance(&escrow) < liability { return Err(Deficit) }\<close>.\<close>

definition check_deficit :: "hash32 \<Rightarrow> address \<Rightarrow> i128 \<Rightarrow> i128 \<Rightarrow> escrow_step" where
  "check_deficit c token liability tot = steps [
     reject (\<lambda>h. liability < tot) (eerr E_Deficit),
     bindq (token_balance token (Contract c)) (\<lambda>bal. reject (\<lambda>h. bal < liability) (eerr E_Deficit))]"

definition escrow_complete :: "externals \<Rightarrow> hash32 \<Rightarrow> u64 \<Rightarrow> u32 \<Rightarrow> escrow_step" where
  "escrow_complete X c campaign_id version = steps [
     escrow_init c,
     reject (escrow_paused c) (eerr E_Paused),
     ok_or wasm_trap (\<lambda>h. e_settlement (escrows h c)) (require_auth X),
     with_campaign c campaign_id (\<lambda>x. steps [
       reject (\<lambda>h. status x \<noteq> Active) (eerr E_InvalidState),
       reject (\<lambda>h. version \<noteq> operation_version x) (eerr E_WrongVersion),
       reject (\<lambda>h. timestamp (ledger h) \<ge> expires_at x) (eerr E_Expired),
       try_read (\<lambda>h. has_entry (ledger h) Persistent (e_consumed (escrows h c) (campaign_id, version))) (\<lambda>b.
         reject (\<lambda>h. b) (eerr E_WrongVersion)),
       set_campaign c campaign_id (x\<lparr>status := Completed\<rparr>),
       extend_campaign c campaign_id,
       set_consumed c (campaign_id, version) True,
       extend_consumed c (campaign_id, version),
       read (\<lambda>h. unwrap_or (e_total_liability (escrows h c)) 0) (\<lambda>liability.
       ok_or wasm_trap (\<lambda>h. e_token (escrows h c)) (\<lambda>token. steps [
         check_deficit c token liability (amount x),
         try_read (i128_op (liability - amount x)) (\<lambda>l.
           upd_escrow c (\<lambda>s. s\<lparr>e_total_liability := Some l\<rparr>)),
         settle X c token campaign_id x]))])]"

definition escrow_refund_expired :: "externals \<Rightarrow> hash32 \<Rightarrow> u64 \<Rightarrow> escrow_step" where
  "escrow_refund_expired X c campaign_id = steps [
     escrow_init c,
     with_campaign c campaign_id (\<lambda>x. steps [
       reject (\<lambda>h. status x \<noteq> Active \<and> status x \<noteq> Funded) (eerr E_InvalidState),
       reject (\<lambda>h. timestamp (ledger h) < expires_at x) (eerr E_NotExpired),
       read (\<lambda>h. unwrap_or (e_total_liability (escrows h c)) 0) (\<lambda>liability.
       ok_or wasm_trap (\<lambda>h. e_token (escrows h c)) (\<lambda>token. steps [
         check_deficit c token liability (amount x),
         try_read (i128_op (liability - amount x)) (\<lambda>l.
           upd_escrow c (\<lambda>s. s\<lparr>e_total_liability := Some l\<rparr>)),
         set_campaign c campaign_id (x\<lparr>status := Refunded\<rparr>),
         extend_campaign c campaign_id,
         token_transfer X token (Contract c) (sponsor x) (amount x),
         publish_event [SSymbol ''refunded'', SU64 campaign_id]
           (SVec [SAddress (sponsor x), SI128 (amount x)])]))])]"

section \<open>Roles and pausing\<close>

definition escrow_propose :: "externals \<Rightarrow> hash32 \<Rightarrow> u32 \<Rightarrow> address \<Rightarrow> escrow_step" where
  "escrow_propose X c role account = steps [
     escrow_init c,
     ok_or (eerr E_NotInitialized) (\<lambda>h. e_governance (escrows h c)) (require_auth X),
     (if role = 1 then upd_escrow c (\<lambda>s. s\<lparr>e_pending_governance := Some account\<rparr>)
      else upd_escrow c (\<lambda>s. s\<lparr>e_pending_settlement := Some account\<rparr>)),
     publish_event [SSymbol ''role_prop'', SU32 role] (SAddress account)]"

definition escrow_accept :: "externals \<Rightarrow> hash32 \<Rightarrow> u32 \<Rightarrow> escrow_step" where
  "escrow_accept X c role = steps [
     escrow_init c,
     ok_or (eerr E_NoPendingRole)
       (\<lambda>h. if role = 1 then e_pending_governance (escrows h c) else e_pending_settlement (escrows h c))
       (\<lambda>next_account. steps [
       require_auth X next_account,
       (if role = 1 then upd_escrow c (\<lambda>s. s\<lparr>e_governance := Some next_account\<rparr>)
        else upd_escrow c (\<lambda>s. s\<lparr>e_settlement := Some next_account\<rparr>)),
       (if role = 1 then upd_escrow c (\<lambda>s. s\<lparr>e_pending_governance := None\<rparr>)
        else upd_escrow c (\<lambda>s. s\<lparr>e_pending_settlement := None\<rparr>)),
       publish_event [SSymbol ''role_acc'', SU32 role] (SAddress next_account)])]"

definition escrow_propose_governance :: "externals \<Rightarrow> hash32 \<Rightarrow> address \<Rightarrow> escrow_step" where
  "escrow_propose_governance X c account = escrow_propose X c 1 account"

definition escrow_accept_governance :: "externals \<Rightarrow> hash32 \<Rightarrow> escrow_step" where
  "escrow_accept_governance X c = escrow_accept X c 1"

definition escrow_propose_settlement :: "externals \<Rightarrow> hash32 \<Rightarrow> address \<Rightarrow> escrow_step" where
  "escrow_propose_settlement X c account = escrow_propose X c 2 account"

definition escrow_accept_settlement :: "externals \<Rightarrow> hash32 \<Rightarrow> escrow_step" where
  "escrow_accept_settlement X c = escrow_accept X c 2"

definition escrow_pause :: "externals \<Rightarrow> hash32 \<Rightarrow> escrow_step" where
  "escrow_pause X c = steps [
     escrow_init c,
     ok_or (eerr E_NotInitialized) (\<lambda>h. e_governance (escrows h c)) (require_auth X),
     escrow_extend_instance,
     upd_escrow c (\<lambda>s. s\<lparr>e_paused := Some True\<rparr>),
     publish_event [SSymbol ''paused''] SVoid]"

definition escrow_unpause :: "externals \<Rightarrow> hash32 \<Rightarrow> escrow_step" where
  "escrow_unpause X c = steps [
     escrow_init c,
     ok_or (eerr E_NotInitialized) (\<lambda>h. e_governance (escrows h c)) (require_auth X),
     escrow_extend_instance,
     upd_escrow c (\<lambda>s. s\<lparr>e_paused := Some False\<rparr>),
     publish_event [SSymbol ''unpaused''] SVoid]"

section \<open>Reads and life time\<close>

definition escrow_get_campaign :: "hash32 \<Rightarrow> u64 \<Rightarrow> Campaign escrow_query" where
  "escrow_get_campaign c k = with_campaign c k (\<lambda>x. and_then (extend_campaign c k) (ret x))"

definition escrow_config_version :: "hash32 \<Rightarrow> u32 escrow_query" where
  "escrow_config_version c = and_then (steps [escrow_init c, escrow_extend_instance])
     (read (\<lambda>h. unwrap_or (e_config_version (escrows h c)) 1) ret)"

definition escrow_pool_destinations :: "hash32 \<Rightarrow> (address \<times> address) escrow_query" where
  "escrow_pool_destinations c = and_then (steps [escrow_init c, escrow_extend_instance])
     (ok_or wasm_trap (\<lambda>h. e_nft_pool (escrows h c)) (\<lambda>a.
      ok_or wasm_trap (\<lambda>h. e_revenue_pool (escrows h c)) (\<lambda>b. ret (a, b))))"

definition escrow_token_contract :: "hash32 \<Rightarrow> address escrow_query" where
  "escrow_token_contract c = and_then (steps [escrow_init c, escrow_extend_instance])
     (ok_or wasm_trap (\<lambda>h. e_token (escrows h c)) ret)"

definition escrow_service_treasury :: "hash32 \<Rightarrow> address escrow_query" where
  "escrow_service_treasury c = and_then (steps [escrow_init c, escrow_extend_instance])
     (ok_or wasm_trap (\<lambda>h. e_service_treasury (escrows h c)) ret)"

definition escrow_is_paused :: "hash32 \<Rightarrow> bool escrow_query" where
  "escrow_is_paused c = read (escrow_paused c) ret"

definition escrow_governance :: "hash32 \<Rightarrow> address escrow_query" where
  "escrow_governance c = ok_or (eerr E_NotInitialized) (\<lambda>h. e_governance (escrows h c)) ret"

definition escrow_settlement_authority :: "hash32 \<Rightarrow> address escrow_query" where
  "escrow_settlement_authority c = and_then (steps [escrow_init c, escrow_extend_instance])
     (ok_or wasm_trap (\<lambda>h. e_settlement (escrows h c)) ret)"

definition escrow_extend_instance_ttl :: "hash32 \<Rightarrow> escrow_step" where
  "escrow_extend_instance_ttl c = steps [escrow_init c, escrow_extend_instance]"

definition escrow_extend_campaign_ttl :: "hash32 \<Rightarrow> u64 \<Rightarrow> escrow_step" where
  "escrow_extend_campaign_ttl c k = with_campaign c k (\<lambda>x. extend_campaign c k)"

end
