(* ===== verification/Campaign_Escrow_Laws.thy ===== *)
theory Campaign_Escrow_Laws
  imports Campaign_Escrow
begin

text \<open>
  What the campaign escrow promises.  As for the pools, \<open>escrow_abs\<close> forgets life times and
  the code refines pure functions on the abstract state.  \<open>escrow_inv\<close> is the accounting
  invariant (the stored liability is the sum of the open campaigns), \<open>escrow_solvent\<close> says the
  escrow holds that much of the token, and \<open>settle_moves\<close> gives the exact payments of a
  settlement with the helper of the token interface.
\<close>

section \<open>Frame conditions\<close>

definition escrow_abs :: "escrow_state \<Rightarrow> escrow_state" where
  "escrow_abs s = s\<lparr>e_campaigns := forgets (e_campaigns s), e_consumed := forgets (e_consumed s)\<rparr>"

text \<open>What the callees of an escrow leave alone for it.\<close>

definition outer_view :: "escrow_host \<Rightarrow> (hash32 \<Rightarrow> address option \<times> AssetInfo option \<times> StellarAssetContractMetadata option)
  \<times> (hash32 \<Rightarrow> escrow_state)" where
  "outer_view h = ((\<lambda>d. sac_config (sacs h d)), escrows h)"

definition e_quiet :: "escrow_host \<Rightarrow> escrow_host \<Rightarrow> bool" where
  "e_quiet h h' \<longleftrightarrow> host_view h' = host_view h \<and> outer_view h' = outer_view h"

definition escrow_view where
  "escrow_view c h = (host_view h, (\<lambda>d. sac_config (sacs h d)),
     (\<lambda>d. if d = c then None else Some (escrows h d)))"

definition escrow_eff :: "hash32 \<Rightarrow> (escrow_state \<Rightarrow> escrow_state) \<Rightarrow> escrow_host \<Rightarrow> escrow_host \<Rightarrow> bool" where
  "escrow_eff c f h h' \<longleftrightarrow> escrow_view c h' = escrow_view c h
     \<and> escrow_abs (escrows h' c) = f (escrow_abs (escrows h c))"

lemma e_quietD:
  "e_quiet h h' \<Longrightarrow> escrows h' = escrows h \<and> ledger h' = ledger h \<and> escrow_view c h' = escrow_view c h"
  by (auto simp: e_quiet_def outer_view_def escrow_view_def host_view_def)

lemma e_quiet_trans: "e_quiet h h1 \<Longrightarrow> e_quiet h1 h2 \<Longrightarrow> e_quiet h h2"
  by (simp add: e_quiet_def)

lemma sac_view_escrows:
  "sac_view h' = sac_view (h :: escrow_host) \<Longrightarrow> e_quiet h h'"
  by (cases h; cases h') (simp add: sac_view_def e_quiet_def outer_view_def host_view_def)

lemma pool_view_escrows:
  "pool_view p h' = pool_view p (h :: escrow_host) \<Longrightarrow> e_quiet h h'"
  by (cases h; cases h') (simp add: pool_view_def e_quiet_def outer_view_def host_view_def)

lemma keeps_e_quiet: "(keeps host_view f \<and> keeps outer_view f) = (\<forall>h h'. f h = Inr h' \<longrightarrow> e_quiet h h')"
  by (auto simp: keeps_def e_quiet_def)

lemma outer_view_blind: "call_blind outer_view"
  by (simp add: call_blind_def outer_view_def)

named_theorems e_dest "effect of a successful step on an escrow"

lemma call_e_quiet:
  assumes "\<And>h h'. body h = Inr h' \<Longrightarrow> e_quiet h h'" and "call_step p x fn args body h = Inr h'"
  shows "e_quiet h h'"
proof -
  have "keeps host_view body \<and> keeps outer_view body"
    using assms(1) by (simp add: keeps_e_quiet)
  then have "keeps host_view (call_step p x fn args body) \<and> keeps outer_view (call_step p x fn args body)"
    using host_view_call keeps_call outer_view_blind by blast
  with assms(2) show ?thesis
    by (simp add: keeps_e_quiet)
qed

lemma host_steps_e [e_dest]:
  "require_auth X a h = Inr h' \<Longrightarrow> e_quiet h h'"
  "publish_event ts d h = Inr h' \<Longrightarrow> e_quiet h h'"
  "escrow_extend_instance h = Inr h' \<Longrightarrow> e_quiet h h'"
  "token_transfer X tok a b n h = Inr h' \<Longrightarrow> e_quiet h h'"
  "token_balance tok a h = Inr (v, h') \<Longrightarrow> e_quiet h h'"
  by (auto intro!: sac_view_escrows simp: escrow_extend_instance_def dest: keepsD [OF sac_view_shapes(1)]
      keepsD [OF sac_view_shapes(2)] keepsD [OF sac_view_shapes(3)] keepsD [OF sac_view_token_transfer]
      keepsqD [OF sac_view_token_balance])

lemma authorize_pool_credit_e [e_dest]: "authorize_pool_credit p k n h = Inr h' \<Longrightarrow> e_quiet h h'"
  by (auto simp: authorize_pool_credit_def e_quiet_def host_view_def outer_view_def
      dest!: authorize_as_curr_contract_shape)

lemma pool_record_credit_e: "pool_record_credit X p k n h = Inr h' \<Longrightarrow> e_quiet h h'"
  by (drule pool_record_credit_ok(1)) (auto simp: pool_eff_def intro: pool_view_escrows)

lemma call_record_credit_e [e_dest]: "call_record_credit X p k n h = Inr h' \<Longrightarrow> e_quiet h h'"
  by (auto simp: call_record_credit_def ok_simps intro: call_e_quiet [OF pool_record_credit_e])

lemma call_pool_query_e:
  assumes "\<And>p h v h'. body p h = Inr (v, h') \<Longrightarrow> h' = h" and "call_pool_query pool fn body h = Inr (v, h')"
  shows "e_quiet h h'"
proof -
  obtain p where p: "call_query p (Wasm ContributorPool) fn [] (body p) h = Inr (v, h')"
    using assms(2) by (auto simp: call_pool_query_def ok_simps)
  have "keepsq g (body p)" for g :: "escrow_host \<Rightarrow> 'q"
    using assms(1) by (auto simp: keepsq_def)
  then have "keepsq host_view (call_query p (Wasm ContributorPool) fn [] (body p))"
    "keepsq outer_view (call_query p (Wasm ContributorPool) fn [] (body p))"
    using host_view_callq keepsq_call outer_view_blind by blast+
  with p show ?thesis
    by (auto simp: e_quiet_def dest: keepsqD)
qed

lemma pool_queries_e [e_dest]:
  "call_pool_query pool fn pool_escrow_contract h = Inr (v, h') \<Longrightarrow> e_quiet h h'"
  "call_pool_query pool fn pool_token_contract h = Inr (v, h') \<Longrightarrow> e_quiet h h'"
  by (auto elim!: call_pool_query_e [rotated] simp: pool_escrow_contract_def pool_token_contract_def ok_simps)

lemma escrow_init_e [e_dest]:
  "escrow_init c h = Inr h' \<Longrightarrow> e_quiet h h' \<and> e_governance (escrows h c) \<noteq> None"
  by (auto simp: escrow_init_def ok_simps dest!: host_steps_e(3))

lemma check_deficit_e [e_dest]:
  "check_deficit c tok l n h = Inr h' \<Longrightarrow> e_quiet h h' \<and> n \<le> l"
  by (auto simp: check_deficit_def ok_simps dest!: host_steps_e(5))

lemma upd_escrow_e:
  "upd_escrow c f h = Inr h' \<Longrightarrow> escrow_view c h' = escrow_view c h \<and> escrows h' c = f (escrows h c)
     \<and> ledger h' = ledger h"
  by (auto simp: upd_escrow_def ok_simps escrow_view_def host_view_def)

lemma slot_steps_e [e_dest]:
  "set_campaign c k x h = Inr h' \<Longrightarrow>
     escrow_eff c (\<lambda>s. s\<lparr>e_campaigns := (e_campaigns s)(k \<mapsto> (x, 0))\<rparr>) h h' \<and> ledger h' = ledger h"
  "set_consumed c j b h = Inr h' \<Longrightarrow>
     escrow_eff c (\<lambda>s. s\<lparr>e_consumed := (e_consumed s)(j \<mapsto> (b, 0))\<rparr>) h h' \<and> ledger h' = ledger h"
  "extend_campaign c k h = Inr h' \<Longrightarrow> escrow_eff c id h h' \<and> ledger h' = ledger h"
  "extend_consumed c j h = Inr h' \<Longrightarrow> escrow_eff c id h h' \<and> ledger h' = ledger h"
  by (auto simp: set_campaign_def set_consumed_def extend_campaign_def extend_consumed_def ok_simps
      escrow_eff_def escrow_abs_def dest!: upd_escrow_e put_entry_ok extend_entry_ok)

lemma escrow_abs_instance:
  "e_governance (escrow_abs s) = e_governance s"
  "e_pending_governance (escrow_abs s) = e_pending_governance s"
  "e_settlement (escrow_abs s) = e_settlement s"
  "e_pending_settlement (escrow_abs s) = e_pending_settlement s"
  "e_token (escrow_abs s) = e_token s"
  "e_service_treasury (escrow_abs s) = e_service_treasury s"
  "e_nft_pool (escrow_abs s) = e_nft_pool s"
  "e_revenue_pool (escrow_abs s) = e_revenue_pool s"
  "e_paused (escrow_abs s) = e_paused s"
  "e_total_liability (escrow_abs s) = e_total_liability s"
  by (simp_all add: escrow_abs_def)

lemma escrow_abs_upd [simp]:
  "escrow_abs (s\<lparr>e_governance := a\<rparr>) = (escrow_abs s)\<lparr>e_governance := a\<rparr>"
  "escrow_abs (s\<lparr>e_pending_governance := a\<rparr>) = (escrow_abs s)\<lparr>e_pending_governance := a\<rparr>"
  "escrow_abs (s\<lparr>e_settlement := a\<rparr>) = (escrow_abs s)\<lparr>e_settlement := a\<rparr>"
  "escrow_abs (s\<lparr>e_pending_settlement := a\<rparr>) = (escrow_abs s)\<lparr>e_pending_settlement := a\<rparr>"
  "escrow_abs (s\<lparr>e_token := a\<rparr>) = (escrow_abs s)\<lparr>e_token := a\<rparr>"
  "escrow_abs (s\<lparr>e_service_treasury := a\<rparr>) = (escrow_abs s)\<lparr>e_service_treasury := a\<rparr>"
  "escrow_abs (s\<lparr>e_nft_pool := a\<rparr>) = (escrow_abs s)\<lparr>e_nft_pool := a\<rparr>"
  "escrow_abs (s\<lparr>e_revenue_pool := a\<rparr>) = (escrow_abs s)\<lparr>e_revenue_pool := a\<rparr>"
  "escrow_abs (s\<lparr>e_paused := b\<rparr>) = (escrow_abs s)\<lparr>e_paused := b\<rparr>"
  "escrow_abs (s\<lparr>e_config_version := v\<rparr>) = (escrow_abs s)\<lparr>e_config_version := v\<rparr>"
  "escrow_abs (s\<lparr>e_total_liability := n\<rparr>) = (escrow_abs s)\<lparr>e_total_liability := n\<rparr>"
  by (simp_all add: escrow_abs_def)

section \<open>The abstract escrow\<close>

definition e_liability :: "escrow_state \<Rightarrow> int" where
  "e_liability s = unwrap_or (e_total_liability s) 0"

lemma e_liability_abs [simp]: "e_liability (escrow_abs s) = e_liability s"
  by (simp add: e_liability_def escrow_abs_instance)

definition spec_escrow_initialize where
  "spec_escrow_initialize g st tok tr nft rvp s = s\<lparr>e_governance := Some g, e_settlement := Some st,
     e_token := Some tok, e_service_treasury := Some tr, e_nft_pool := Some nft, e_revenue_pool := Some rvp,
     e_config_version := Some 1, e_paused := Some False, e_total_liability := Some 0\<rparr>"

lemma keeps_e_if: "(if b then require_auth X a else skip_step) h = Inr h' \<Longrightarrow> e_quiet h h'"
  by (auto simp: ok_simps e_quiet_def split: if_splits dest!: host_steps_e(1))

lemma escrow_initialize_ok:
  assumes "escrow_initialize X c g st tok tr nft rvp dep salt h = Inr h'"
  shows "e_governance (escrows h c) = None \<and> nft \<noteq> rvp \<and> deployed_address X dep salt = Contract c
    \<and> escrow_eff c (spec_escrow_initialize g st tok tr nft rvp) h h'"
  using assms
  by (auto simp: escrow_initialize_def ok_simps spec_escrow_initialize_def escrow_eff_def
      dest!: keeps_e_if e_dest e_quietD [where c = c] upd_escrow_e)

definition new_campaign :: "hash32 \<Rightarrow> address \<Rightarrow> i128 \<Rightarrow> u64 \<Rightarrow> Campaign" where
  "new_campaign c sp n now =
     \<lparr>sponsor = sp, amount = n, creator = Contract c, referrer = None, terms_hash = [],
      funded_at = now, expires_at = now + EXPIRY, operation_version = 0, status = Funded\<rparr>"

definition spec_fund :: "hash32 \<Rightarrow> u64 \<Rightarrow> address \<Rightarrow> i128 \<Rightarrow> u64 \<Rightarrow> escrow_state \<Rightarrow> escrow_state" where
  "spec_fund c k sp n now s = s\<lparr>
     e_campaigns := (e_campaigns s)(k \<mapsto> (new_campaign c sp n now, 0)),
     e_total_liability := Some (e_liability s + n)\<rparr>"

lemma escrow_fund_ok:
  assumes "escrow_fund X c k sp n h = Inr h'"
  shows "e_campaigns (escrows h c) k = None" and "e_governance (escrows h c) \<noteq> None"
    and "MINIMUM_CAMPAIGN_AMOUNT \<le> n" and "n \<le> I128_MAX sdiv DENOM" and "\<not> escrow_paused c h"
    and "escrow_eff c (spec_fund c k sp n (timestamp (ledger h))) h h'"
proof -
  show "e_campaigns (escrows h c) k = None" and "e_governance (escrows h c) \<noteq> None"
    and "MINIMUM_CAMPAIGN_AMOUNT \<le> n" and "n \<le> I128_MAX sdiv DENOM" and "\<not> escrow_paused c h"
    using assms
    by (auto simp: escrow_fund_def ok_simps escrow_paused_def
        dest!: escrow_init_e e_quietD [where c = c] has_entry_ok)
  show "escrow_eff c (spec_fund c k sp n (timestamp (ledger h))) h h'"
    using assms
    by (auto simp: escrow_fund_def ok_simps spec_fund_def new_campaign_def e_liability_def escrow_eff_def
        i128_op_def escrow_abs_instance split: option.splits
        dest!: e_dest e_quietD [where c = c] upd_escrow_e)
qed

definition activated :: "address \<Rightarrow> address option \<Rightarrow> bytes \<Rightarrow> Campaign \<Rightarrow> Campaign" where
  "activated cr rf terms x = x\<lparr>creator := cr, referrer := rf, terms_hash := terms,
     status := Active, operation_version := 1\<rparr>"

lemma escrow_activate_ok:
  assumes "escrow_activate X c k cr rf terms h = Inr h'"
  obtains x l h1 h2 where "e_campaigns (escrows h c) k = Some (x, l)" and "status x = Funded"
    and "rf \<noteq> None" and "terms \<noteq> []" and "\<not> escrow_paused c h"
    and "escrow_init c h = Inr h1" and "require_auth X (sponsor x) h1 = Inr h2"
    and "escrow_eff c (\<lambda>s. s\<lparr>e_campaigns := (e_campaigns s)(k \<mapsto> (activated cr rf terms x, 0))\<rparr>) h h'"
proof -
  from assms obtain x l h1 h2 where
    x: "e_campaigns (escrows h1 c) k = Some (x, l)" and
    pre: "status x = Funded" "rf \<noteq> None" "terms \<noteq> []" "\<not> escrow_paused c h1" and
    init: "escrow_init c h = Inr h1" and auth: "require_auth X (sponsor x) h1 = Inr h2" and
    eff: "escrow_eff c (\<lambda>s. s\<lparr>e_campaigns := (e_campaigns s)(k \<mapsto> (activated cr rf terms x, 0))\<rparr>) h2 h'"
    by (fastforce simp: escrow_activate_def with_campaign_def ok_simps lookup_entry_Some escrow_eff_def activated_def
        split: option.splits dest!: slot_steps_e host_steps_e(2) dest: e_quietD [where c = c])
  have "e_quiet h h1" "e_quiet h1 h2"
    using escrow_init_e [OF init] host_steps_e(1) [OF auth] by auto
  from e_quietD [OF this(1), of c] e_quietD [OF this(2), of c]
  show thesis
    using that [of x l h1 h2] x pre init auth eff by (auto simp: escrow_eff_def escrow_paused_def)
qed

definition spec_complete :: "u64 \<Rightarrow> Campaign \<Rightarrow> escrow_state \<Rightarrow> escrow_state" where
  "spec_complete k x s = s\<lparr>
     e_campaigns := (e_campaigns s)(k \<mapsto> (x\<lparr>status := Completed\<rparr>, 0)),
     e_consumed := (e_consumed s)((k, operation_version x) \<mapsto> (True, 0)),
     e_total_liability := Some (e_liability s - amount x)\<rparr>"

definition spec_refund :: "u64 \<Rightarrow> Campaign \<Rightarrow> escrow_state \<Rightarrow> escrow_state" where
  "spec_refund k x s = s\<lparr>
     e_campaigns := (e_campaigns s)(k \<mapsto> (x\<lparr>status := Refunded\<rparr>, 0)),
     e_total_liability := Some (e_liability s - amount x)\<rparr>"

lemma pay_pool_e [e_dest]: "pay_pool X c tok key k n h = Inr h' \<Longrightarrow> e_quiet h h'"
  by (auto simp: pay_pool_def ok_simps intro: e_quiet_trans dest!: e_dest)

lemma settle_e [e_dest]: "settle X c tok k x h = Inr h' \<Longrightarrow> e_quiet h h' \<and> referrer x \<noteq> None"
  by (auto simp: settle_def ok_simps dest!: e_dest) (simp add: e_quiet_def)

text \<open>The part of \<open>complete\<close> that writes, up to the settlement.\<close>

definition complete_writes where
  "complete_writes c k x tok liability = steps [
     check_deficit c tok liability (amount x),
     try_read (i128_op (liability - amount x)) (\<lambda>l.
       upd_escrow c (\<lambda>s. s\<lparr>e_total_liability := Some l\<rparr>))]"

definition complete_marks where
  "complete_marks c k x v = steps [
     set_campaign c k (x\<lparr>status := Completed\<rparr>),
     extend_campaign c k,
     set_consumed c (k, v) True,
     extend_consumed c (k, v)]"

lemma complete_marks_e:
  "complete_marks c k x v h = Inr h' \<Longrightarrow>
     escrow_eff c (\<lambda>s. s\<lparr>e_campaigns := (e_campaigns s)(k \<mapsto> (x\<lparr>status := Completed\<rparr>, 0)),
       e_consumed := (e_consumed s)((k, v) \<mapsto> (True, 0))\<rparr>) h h'"
  by (auto simp: complete_marks_def ok_simps escrow_eff_def dest!: slot_steps_e)

lemma complete_writes_e:
  "complete_writes c k x tok l h = Inr h' \<Longrightarrow>
     escrow_eff c (\<lambda>s. s\<lparr>e_total_liability := Some (l - amount x)\<rparr>) h h' \<and> amount x \<le> l"
  by (auto simp: complete_writes_def ok_simps escrow_eff_def i128_op_def split: option.splits
      dest!: check_deficit_e e_quietD [where c = c] upd_escrow_e)

lemma escrow_complete_ok:
  assumes "escrow_complete X c k v h = Inr h'"
  obtains x l st tok h1 h2 h3 h4 where "e_campaigns (escrows h c) k = Some (x, l)"
    and "status x = Active" and "v = operation_version x" and "timestamp (ledger h) < expires_at x"
    and "e_consumed (escrows h c) (k, v) = None" and "\<not> escrow_paused c h"
    and "e_settlement (escrows h c) = Some st" and "e_token (escrows h c) = Some tok"
    and "escrow_init c h = Inr h1" and "require_auth X st h1 = Inr h2"
    and "complete_marks c k x v h2 = Inr h3"
    and "complete_writes c k x tok (e_liability (escrows h c)) h3 = Inr h4"
    and "settle X c tok k x h4 = Inr h'"
proof -
  from assms obtain x l st tok h1 h2 h3 h4 where
    x: "e_campaigns (escrows h2 c) k = Some (x, l)" and
    pre: "status x = Active" "v = operation_version x" "timestamp (ledger h2) < expires_at x" and
    cons: "has_entry (ledger h2) Persistent (e_consumed (escrows h2 c) (k, v)) = Inr False" and
    np: "\<not> escrow_paused c h1" and st: "e_settlement (escrows h1 c) = Some st" and
    init: "escrow_init c h = Inr h1" and auth: "require_auth X st h1 = Inr h2" and
    marks: "complete_marks c k x v h2 = Inr h3" and tok: "e_token (escrows h3 c) = Some tok" and
    writes: "complete_writes c k x tok (unwrap_or (e_total_liability (escrows h3 c)) 0) h3 = Inr h4" and
    settle: "settle X c tok k x h4 = Inr h'"
    by (auto simp: escrow_complete_def complete_marks_def complete_writes_def with_campaign_def ok_simps
        lookup_entry_Some not_le split: option.splits)
  have "e_quiet h h1" "e_quiet h1 h2"
    using escrow_init_e [OF init] host_steps_e(1) [OF auth] by auto
  from e_quietD [OF this(1), of c] e_quietD [OF this(2), of c]
  have same: "escrows h1 = escrows h" "escrows h2 = escrows h" "ledger h2 = ledger h"
    by auto
  have abs3: "escrow_abs (escrows h3 c) = (escrow_abs (escrows h c))\<lparr>
      e_campaigns := (e_campaigns (escrow_abs (escrows h c)))(k \<mapsto> (x\<lparr>status := Completed\<rparr>, 0)),
      e_consumed := (e_consumed (escrow_abs (escrows h c)))((k, v) \<mapsto> (True, 0))\<rparr>"
    using complete_marks_e [OF marks] same by (simp add: escrow_eff_def)
  have "e_token (escrows h c) = Some tok"
    using arg_cong [OF abs3, of e_token] tok by (simp add: escrow_abs_instance)
  moreover have "unwrap_or (e_total_liability (escrows h3 c)) 0 = e_liability (escrows h c)"
    using arg_cong [OF abs3, of e_total_liability] by (simp add: escrow_abs_instance e_liability_def)
  moreover have "e_consumed (escrows h c) (k, v) = None"
    using has_entry_ok [OF cons] same by (cases "e_consumed (escrows h c) (k, v)") auto
  ultimately show thesis
    using that x pre np st init auth marks writes settle same by (simp add: escrow_paused_def)
qed

lemma escrow_complete_eff:
  assumes "escrow_complete X c k v h = Inr h'" and "e_campaigns (escrows h c) k = Some (x, l)"
  shows "escrow_eff c (spec_complete k x) h h'" and "amount x \<le> e_liability (escrows h c)"
proof -
  from assms obtain st tok h1 h2 h3 h4 where v: "v = operation_version x" and
    st: "escrow_init c h = Inr h1" "require_auth X st h1 = Inr h2"
      "complete_marks c k x v h2 = Inr h3"
      "complete_writes c k x tok (e_liability (escrows h c)) h3 = Inr h4" "settle X c tok k x h4 = Inr h'"
    by (auto elim!: escrow_complete_ok)
  have q: "e_quiet h h1" "e_quiet h1 h2" "e_quiet h4 h'"
    using escrow_init_e [OF st(1)] host_steps_e(1) [OF st(2)] settle_e [OF st(5)] by auto
  show "amount x \<le> e_liability (escrows h c)"
    using complete_writes_e [OF st(4)] by simp
  show "escrow_eff c (spec_complete k x) h h'"
    using e_quietD [OF q(1), of c] e_quietD [OF q(2), of c] e_quietD [OF q(3), of c]
      complete_marks_e [OF st(3)] complete_writes_e [OF st(4)] v
    by (simp add: escrow_eff_def spec_complete_def)
qed

text \<open>The part of \<open>refund_expired\<close> after its checks, up to the payment.\<close>

definition refund_writes where
  "refund_writes c k x tok liability = steps [
     check_deficit c tok liability (amount x),
     try_read (i128_op (liability - amount x)) (\<lambda>l.
       upd_escrow c (\<lambda>s. s\<lparr>e_total_liability := Some l\<rparr>)),
     set_campaign c k (x\<lparr>status := Refunded\<rparr>),
     extend_campaign c k]"

lemma refund_writes_e:
  "refund_writes c k x tok l h = Inr h' \<Longrightarrow>
     escrow_eff c (\<lambda>s. s\<lparr>e_campaigns := (e_campaigns s)(k \<mapsto> (x\<lparr>status := Refunded\<rparr>, 0)),
       e_total_liability := Some (l - amount x)\<rparr>) h h' \<and> amount x \<le> l"
  by (auto simp: refund_writes_def ok_simps escrow_eff_def i128_op_def split: option.splits
      dest!: check_deficit_e e_quietD [where c = c] upd_escrow_e slot_steps_e)

lemma escrow_refund_ok:
  assumes "escrow_refund_expired X c k h = Inr h'"
  obtains x l tok h1 h2 h3 ts d where "e_campaigns (escrows h c) k = Some (x, l)"
    and "status x = Active \<or> status x = Funded" and "expires_at x \<le> timestamp (ledger h)"
    and "e_token (escrows h c) = Some tok" and "escrow_init c h = Inr h1"
    and "refund_writes c k x tok (e_liability (escrows h c)) h1 = Inr h2"
    and "token_transfer X tok (Contract c) (sponsor x) (amount x) h2 = Inr h3"
    and "publish_event ts d h3 = Inr h'"
proof -
  from assms obtain x l tok h1 h2 h3 ts d where
    x: "e_campaigns (escrows h1 c) k = Some (x, l)" and
    pre: "status x = Active \<or> status x = Funded" "expires_at x \<le> timestamp (ledger h1)" and
    tok: "e_token (escrows h1 c) = Some tok" and init: "escrow_init c h = Inr h1" and
    st: "refund_writes c k x tok (unwrap_or (e_total_liability (escrows h1 c)) 0) h1 = Inr h2"
      "token_transfer X tok (Contract c) (sponsor x) (amount x) h2 = Inr h3"
      "publish_event ts d h3 = Inr h'"
    by (auto simp: escrow_refund_expired_def refund_writes_def with_campaign_def ok_simps
        lookup_entry_Some not_less split: option.splits)
  have "e_quiet h h1"
    using escrow_init_e [OF init] by simp
  from e_quietD [OF this, of c] that x pre tok init st show thesis
    by (simp add: e_liability_def)
qed

lemma escrow_refund_eff:
  assumes "escrow_refund_expired X c k h = Inr h'" and "e_campaigns (escrows h c) k = Some (x, l)"
  shows "escrow_eff c (spec_refund k x) h h'" and "amount x \<le> e_liability (escrows h c)"
proof -
  from assms obtain tok h1 h2 h3 ts d where
    st: "escrow_init c h = Inr h1" "refund_writes c k x tok (e_liability (escrows h c)) h1 = Inr h2"
      "token_transfer X tok (Contract c) (sponsor x) (amount x) h2 = Inr h3"
      "publish_event ts d h3 = Inr h'"
    by (auto elim!: escrow_refund_ok)
  have q: "e_quiet h h1" "e_quiet h2 h3" "e_quiet h3 h'"
    using escrow_init_e [OF st(1)] host_steps_e(4) [OF st(3)] host_steps_e(2) [OF st(4)] by auto
  show "amount x \<le> e_liability (escrows h c)"
    using refund_writes_e [OF st(2)] by simp
  show "escrow_eff c (spec_refund k x) h h'"
    using e_quietD [OF q(1), of c] e_quietD [OF q(2), of c] e_quietD [OF q(3), of c] refund_writes_e [OF st(2)]
    by (simp add: escrow_eff_def spec_refund_def)
qed

lemma escrow_propose_eff:
  "escrow_propose X c role a h = Inr h' \<Longrightarrow>
     escrow_eff c (\<lambda>s. if role = 1 then s\<lparr>e_pending_governance := Some a\<rparr>
                       else s\<lparr>e_pending_settlement := Some a\<rparr>) h h'"
  by (cases "role = 1") (auto simp: escrow_propose_def ok_simps escrow_eff_def
      dest!: e_dest e_quietD [where c = c] upd_escrow_e)

definition spec_escrow_accept :: "u32 \<Rightarrow> address \<Rightarrow> escrow_state \<Rightarrow> escrow_state" where
  "spec_escrow_accept role a s =
     (if role = 1 then s\<lparr>e_governance := Some a, e_pending_governance := None\<rparr>
      else s\<lparr>e_settlement := Some a, e_pending_settlement := None\<rparr>)"

lemma escrow_accept_eff:
  assumes "escrow_accept X c role h = Inr h'"
  shows "e_governance (escrows h c) \<noteq> None \<and> (\<exists>a. (if role = 1 then e_pending_governance (escrows h c)
      else e_pending_settlement (escrows h c)) = Some a \<and> escrow_eff c (spec_escrow_accept role a) h h')"
  using assms
  by (cases "role = 1") (auto simp: escrow_accept_def ok_simps escrow_eff_def spec_escrow_accept_def
      dest!: e_dest e_quietD [where c = c] upd_escrow_e)

lemma escrow_pause_eff:
  "escrow_pause X c h = Inr h' \<Longrightarrow> escrow_eff c (\<lambda>s. s\<lparr>e_paused := Some True\<rparr>) h h'"
  "escrow_unpause X c h = Inr h' \<Longrightarrow> escrow_eff c (\<lambda>s. s\<lparr>e_paused := Some False\<rparr>) h h'"
  by (auto simp: escrow_pause_def escrow_unpause_def ok_simps escrow_eff_def
      dest!: e_dest e_quietD [where c = c] upd_escrow_e)

lemma escrow_ttl_eff:
  "escrow_extend_instance_ttl c h = Inr h' \<Longrightarrow> escrow_eff c id h h'"
  "escrow_extend_campaign_ttl c k h = Inr h' \<Longrightarrow> escrow_eff c id h h'"
  by (auto simp: escrow_extend_instance_ttl_def escrow_extend_campaign_ttl_def with_campaign_def ok_simps
      escrow_eff_def split: option.splits dest!: e_dest e_quietD [where c = c])

section \<open>The accounting invariant\<close>

definition open_amount :: "Campaign \<Rightarrow> int" where
  "open_amount x = (if status x = Funded \<or> status x = Active then amount x else 0)"

definition campaign_inv :: "escrow_state \<Rightarrow> u64 \<Rightarrow> Campaign \<Rightarrow> bool" where
  "campaign_inv s k x \<longleftrightarrow>
     MINIMUM_CAMPAIGN_AMOUNT \<le> amount x \<and> amount x \<le> I128_MAX sdiv DENOM
     \<and> expires_at x = funded_at x + EXPIRY
     \<and> (status x = Funded \<longrightarrow> operation_version x = 0)
     \<and> (status x = Active \<or> status x = Completed \<longrightarrow>
          operation_version x = 1 \<and> referrer x \<noteq> None \<and> terms_hash x \<noteq> [])
     \<and> (\<forall>v. e_consumed s (k, v) \<noteq> None \<longleftrightarrow> status x = Completed \<and> v = 1)"

definition escrow_inv :: "escrow_state \<Rightarrow> bool" where
  "escrow_inv s \<longleftrightarrow>
     finite (dom (e_campaigns s))
     \<and> (\<forall>k x l. e_campaigns s k = Some (x, l) \<longrightarrow> campaign_inv s k x)
     \<and> (\<forall>k v. e_campaigns s k = None \<longrightarrow> e_consumed s (k, v) = None)
     \<and> e_liability s = map_sum (\<lambda>(x, _). open_amount x) (e_campaigns s)
     \<and> (e_governance s = None \<longrightarrow> e_campaigns s = Map.empty)
     \<and> (e_governance s \<noteq> None \<longrightarrow> (\<exists>p q. e_nft_pool s = Some p \<and> e_revenue_pool s = Some q \<and> p \<noteq> q))"

lemma escrow_inv_abs: "escrow_inv (escrow_abs s) = escrow_inv s"
proof -
  have c: "e_campaigns (escrow_abs s) = forgets (e_campaigns s)"
    and o: "e_consumed (escrow_abs s) = forgets (e_consumed s)"
    by (simp_all add: escrow_abs_def)
  show ?thesis
    by (simp add: escrow_inv_def campaign_inv_def c o escrow_abs_instance map_sum_forgets forgets_empty)
qed

lemma campaign_inv_cong: "e_consumed s' = e_consumed s \<Longrightarrow> campaign_inv s' k x = campaign_inv s k x"
  by (simp add: campaign_inv_def)

lemma escrow_invD: "escrow_inv s \<Longrightarrow> e_campaigns s k = Some (x, l) \<Longrightarrow> campaign_inv s k x"
  by (auto simp: escrow_inv_def)

lemma map_sum_campaign:
  assumes "escrow_inv s"
  shows "map_sum (\<lambda>(x, _). open_amount x) ((e_campaigns s)(k \<mapsto> (y, l))) =
    e_liability s - (case e_campaigns s k of None \<Rightarrow> 0 | Some (x, _) \<Rightarrow> open_amount x) + open_amount y"
  using assms by (subst map_sum_upd) (auto simp: escrow_inv_def split: option.splits)

lemma spec_fund_inv:
  assumes "escrow_inv s" and "e_campaigns s k = None" and "e_governance s \<noteq> None"
    and "MINIMUM_CAMPAIGN_AMOUNT \<le> n" and "n \<le> I128_MAX sdiv DENOM"
  shows "escrow_inv (spec_fund c k sp n now s)"
proof -
  have ci: "campaign_inv (spec_fund c k sp n now s) j x = campaign_inv s j x" for j x
    by (rule campaign_inv_cong) (simp add: spec_fund_def)
  have "campaign_inv s k (new_campaign c sp n now)"
    using assms by (auto simp: campaign_inv_def new_campaign_def escrow_inv_def)
  then show ?thesis
    using assms map_sum_campaign [OF assms(1), of k "new_campaign c sp n now" 0] unfolding escrow_inv_def ci
    by (auto simp: spec_fund_def e_liability_def unwrap_or_def open_amount_def new_campaign_def)
qed

lemma spec_activate_inv:
  assumes "escrow_inv s" and "e_campaigns s k = Some (x, l)" and "status x = Funded"
    and "rf \<noteq> None" and "terms \<noteq> []" and "e_governance s \<noteq> None"
  shows "escrow_inv (s\<lparr>e_campaigns := (e_campaigns s)(k \<mapsto> (activated cr rf terms x, 0))\<rparr>)"
proof -
  let ?s = "s\<lparr>e_campaigns := (e_campaigns s)(k \<mapsto> (activated cr rf terms x, 0))\<rparr>"
  have ci: "campaign_inv ?s j y = campaign_inv s j y" for j y
    by (rule campaign_inv_cong) simp
  have "campaign_inv s k (activated cr rf terms x)"
    using escrow_invD [OF assms(1,2)] assms by (auto simp: campaign_inv_def activated_def)
  then show ?thesis
    using assms map_sum_campaign [OF assms(1), of k "activated cr rf terms x" 0] unfolding escrow_inv_def ci
    by (auto simp: e_liability_def open_amount_def activated_def)
qed

lemma spec_refund_inv:
  assumes "escrow_inv s" and "e_campaigns s k = Some (x, l)" and "status x = Active \<or> status x = Funded"
    and "e_governance s \<noteq> None"
  shows "escrow_inv (spec_refund k x s)"
proof -
  have ci: "campaign_inv (spec_refund k x s) j y = campaign_inv s j y" for j y
    by (rule campaign_inv_cong) (simp add: spec_refund_def)
  have "campaign_inv s k (x\<lparr>status := Refunded\<rparr>)"
    using escrow_invD [OF assms(1,2)] assms(3) by (auto simp: campaign_inv_def)
  then show ?thesis
    using assms map_sum_campaign [OF assms(1), of k "x\<lparr>status := Refunded\<rparr>" 0] unfolding escrow_inv_def ci
    by (auto simp: spec_refund_def e_liability_def unwrap_or_def open_amount_def)
qed

lemma spec_complete_inv:
  assumes "escrow_inv s" and "e_campaigns s k = Some (x, l)" and "status x = Active"
    and "e_governance s \<noteq> None"
  shows "escrow_inv (spec_complete k x s)"
proof -
  let ?s = "spec_complete k x s"
  have v: "operation_version x = 1"
    using escrow_invD [OF assms(1,2)] assms(3) by (auto simp: campaign_inv_def)
  have old: "campaign_inv ?s j y = campaign_inv s j y" if "j \<noteq> k" for j y
    using that by (simp add: campaign_inv_def spec_complete_def)
  have new: "campaign_inv ?s k (x\<lparr>status := Completed\<rparr>)"
    using escrow_invD [OF assms(1,2)] assms(3) v by (auto simp: campaign_inv_def spec_complete_def)
  have "campaign_inv ?s j y" if "e_campaigns ?s j = Some (y, m)" for j y m
    using that new old escrow_invD [OF assms(1)] by (cases "j = k") (auto simp: spec_complete_def)
  then show ?thesis
    using assms map_sum_campaign [OF assms(1), of k "x\<lparr>status := Completed\<rparr>" 0] unfolding escrow_inv_def
    by (auto simp: spec_complete_def e_liability_def unwrap_or_def open_amount_def)
qed

section \<open>The escrow as a state machine\<close>

text \<open>The exported reads.  They change no value, but most of them extend life times.\<close>

inductive escrow_read :: "hash32 \<Rightarrow> escrow_host \<Rightarrow> escrow_host \<Rightarrow> bool" for c where
  get_campaign: "escrow_get_campaign c k h = Inr (v, h') \<Longrightarrow> escrow_read c h h'"
| config_version: "escrow_config_version c h = Inr (v, h') \<Longrightarrow> escrow_read c h h'"
| pool_destinations: "escrow_pool_destinations c h = Inr (v, h') \<Longrightarrow> escrow_read c h h'"
| token_contract: "escrow_token_contract c h = Inr (v, h') \<Longrightarrow> escrow_read c h h'"
| service_treasury: "escrow_service_treasury c h = Inr (v, h') \<Longrightarrow> escrow_read c h h'"
| is_paused: "escrow_is_paused c h = Inr (v, h') \<Longrightarrow> escrow_read c h h'"
| governance: "escrow_governance c h = Inr (v, h') \<Longrightarrow> escrow_read c h h'"
| settlement_authority: "escrow_settlement_authority c h = Inr (v, h') \<Longrightarrow> escrow_read c h h'"

lemmas escrow_read_defs = escrow_get_campaign_def escrow_config_version_def escrow_pool_destinations_def
  escrow_token_contract_def escrow_service_treasury_def escrow_is_paused_def escrow_governance_def
  escrow_settlement_authority_def with_campaign_def

lemma escrow_read_eff: "escrow_read c h h' \<Longrightarrow> escrow_eff c id h h'"
  by (induction rule: escrow_read.induct)
    (auto simp: escrow_read_defs ok_simps escrow_eff_def split: option.splits dest!: e_dest e_quietD [where c = c])

lemma escrow_read_keeps:
  assumes "escrow_read c h h'" and "\<And>k. keepsq g (escrow_get_campaign c k)" and "keepsq g (escrow_config_version c)"
    and "keepsq g (escrow_pool_destinations c)" and "keepsq g (escrow_token_contract c)"
    and "keepsq g (escrow_service_treasury c)" and "keepsq g (escrow_is_paused c)"
    and "keepsq g (escrow_governance c)" and "keepsq g (escrow_settlement_authority c)"
  shows "g h' = g h"
  using assms by (induction rule: escrow_read.induct) (metis keepsqD)+

inductive escrow_step :: "externals \<Rightarrow> hash32 \<Rightarrow> escrow_host \<Rightarrow> escrow_host \<Rightarrow> bool" for X c where
  initialize: "escrow_initialize X c g st tok tr nft rvp dep salt h = Inr h' \<Longrightarrow> escrow_step X c h h'"
| fund: "escrow_fund X c k sp n h = Inr h' \<Longrightarrow> escrow_step X c h h'"
| activate: "escrow_activate X c k cr rf terms h = Inr h' \<Longrightarrow> escrow_step X c h h'"
| complete: "escrow_complete X c k v h = Inr h' \<Longrightarrow> escrow_step X c h h'"
| refund: "escrow_refund_expired X c k h = Inr h' \<Longrightarrow> escrow_step X c h h'"
| propose: "escrow_propose X c role a h = Inr h' \<Longrightarrow> escrow_step X c h h'"
| accept: "escrow_accept X c role h = Inr h' \<Longrightarrow> escrow_step X c h h'"
| pause: "escrow_pause X c h = Inr h' \<Longrightarrow> escrow_step X c h h'"
| unpause: "escrow_unpause X c h = Inr h' \<Longrightarrow> escrow_step X c h h'"
| extend_instance_ttl: "escrow_extend_instance_ttl c h = Inr h' \<Longrightarrow> escrow_step X c h h'"
| extend_campaign_ttl: "escrow_extend_campaign_ttl c k h = Inr h' \<Longrightarrow> escrow_step X c h h'"
| reads: "escrow_read c h h' \<Longrightarrow> escrow_step X c h h'"

text \<open>Every step is one of the abstract moves, with the guards of the code that can be said of the
  abstract state.  Who must have authorized a move is not part of it.\<close>

definition unpaused :: "escrow_state \<Rightarrow> bool" where
  "unpaused s \<longleftrightarrow> unwrap_or (e_paused s) False = False"

definition nominee :: "u32 \<Rightarrow> escrow_state \<Rightarrow> address option" where
  "nominee role s = (if role = 1 then e_pending_governance s else e_pending_settlement s)"

inductive escrow_move :: "hash32 \<Rightarrow> u64 \<Rightarrow> escrow_state \<Rightarrow> escrow_state \<Rightarrow> bool" for c now where
  m_initialize: "e_governance s = None \<Longrightarrow> nft \<noteq> rvp \<Longrightarrow>
     escrow_move c now s (spec_escrow_initialize g st tok tr nft rvp s)"
| m_fund: "e_governance s \<noteq> None \<Longrightarrow> unpaused s \<Longrightarrow> e_campaigns s k = None \<Longrightarrow> MINIMUM_CAMPAIGN_AMOUNT \<le> n \<Longrightarrow>
     n \<le> I128_MAX sdiv DENOM \<Longrightarrow> escrow_move c now s (spec_fund c k sp n now s)"
| m_activate: "e_governance s \<noteq> None \<Longrightarrow> unpaused s \<Longrightarrow> e_campaigns s k = Some (x, 0) \<Longrightarrow> status x = Funded \<Longrightarrow>
     rf \<noteq> None \<Longrightarrow> terms \<noteq> [] \<Longrightarrow>
     escrow_move c now s (s\<lparr>e_campaigns := (e_campaigns s)(k \<mapsto> (activated cr rf terms x, 0))\<rparr>)"
| m_complete: "e_governance s \<noteq> None \<Longrightarrow> unpaused s \<Longrightarrow> e_settlement s \<noteq> None \<Longrightarrow> e_campaigns s k = Some (x, 0) \<Longrightarrow>
     status x = Active \<Longrightarrow> now < expires_at x \<Longrightarrow> e_consumed s (k, operation_version x) = None \<Longrightarrow>
     amount x \<le> e_liability s \<Longrightarrow> escrow_move c now s (spec_complete k x s)"
| m_refund: "e_governance s \<noteq> None \<Longrightarrow> e_campaigns s k = Some (x, 0) \<Longrightarrow>
     status x = Active \<or> status x = Funded \<Longrightarrow> expires_at x \<le> now \<Longrightarrow> amount x \<le> e_liability s \<Longrightarrow>
     escrow_move c now s (spec_refund k x s)"
| m_propose: "e_governance s \<noteq> None \<Longrightarrow>
     escrow_move c now s (if role = (1::nat) then s\<lparr>e_pending_governance := Some a\<rparr>
     else s\<lparr>e_pending_settlement := Some a\<rparr>)"
| m_accept: "e_governance s \<noteq> None \<Longrightarrow> nominee role s = Some a \<Longrightarrow> escrow_move c now s (spec_escrow_accept role a s)"
| m_pause: "e_governance s \<noteq> None \<Longrightarrow> escrow_move c now s (s\<lparr>e_paused := Some True\<rparr>)"
| m_unpause: "e_governance s \<noteq> None \<Longrightarrow> escrow_move c now s (s\<lparr>e_paused := Some False\<rparr>)"
| m_idle: "escrow_move c now s s"

lemma escrow_init_governance: "escrow_init c h = Inr h' \<Longrightarrow> e_governance (escrows h c) \<noteq> None"
  by (auto dest: escrow_init_e)

lemma abs_campaign: "e_campaigns s k = Some (x, l) \<Longrightarrow> e_campaigns (escrow_abs s) k = Some (x, 0)"
  "e_campaigns s k = None \<Longrightarrow> e_campaigns (escrow_abs s) k = None"
  by (auto simp: escrow_abs_def)

text \<open>An effect and a guarded abstract move make a refined step.\<close>

definition moves_escrow :: "hash32 \<Rightarrow> escrow_host \<Rightarrow> escrow_host \<Rightarrow> bool" where
  "moves_escrow c h h' \<longleftrightarrow>
     escrow_move c (timestamp (ledger h)) (escrow_abs (escrows h c)) (escrow_abs (escrows h' c))
     \<and> escrow_view c h' = escrow_view c h"

lemma moves_escrowI:
  "escrow_eff c f h h' \<Longrightarrow>
   escrow_move c (timestamp (ledger h)) (escrow_abs (escrows h c)) (f (escrow_abs (escrows h c))) \<Longrightarrow>
   moves_escrow c h h'"
  by (simp add: moves_escrow_def escrow_eff_def)

lemma governance_abs: "escrow_init c h = Inr h' \<Longrightarrow> e_governance (escrow_abs (escrows h c)) \<noteq> None"
  by (auto simp: escrow_abs_instance dest: escrow_init_governance)

lemma unpaused_abs: "\<not> escrow_paused c h \<Longrightarrow> unpaused (escrow_abs (escrows h c))"
  by (simp add: unpaused_def escrow_paused_def escrow_abs_instance)

lemma escrow_fund_move:
  assumes "escrow_fund X c k sp n h = Inr h'"
  shows "moves_escrow c h h'"
proof (rule moves_escrowI)
  note f = escrow_fund_ok [OF assms]
  show "escrow_eff c (spec_fund c k sp n (timestamp (ledger h))) h h'"
    by (rule f(6))
  show "escrow_move c (timestamp (ledger h)) (escrow_abs (escrows h c))
      (spec_fund c k sp n (timestamp (ledger h)) (escrow_abs (escrows h c)))"
    using f(1-5) by (intro m_fund) (auto simp: escrow_abs_instance escrow_paused_def unpaused_def abs_campaign)
qed

lemma escrow_activate_move:
  assumes "escrow_activate X c k cr rf terms h = Inr h'"
  shows "moves_escrow c h h'"
  using assms
proof (rule escrow_activate_ok)
  fix x l h1
  assume "e_campaigns (escrows h c) k = Some (x, l)" "status x = Funded" "rf \<noteq> None" "terms \<noteq> []"
    "\<not> escrow_paused c h" "escrow_init c h = Inr h1"
    and eff: "escrow_eff c (\<lambda>s. s\<lparr>e_campaigns := (e_campaigns s)(k \<mapsto> (activated cr rf terms x, 0))\<rparr>) h h'"
  then show ?thesis
    by (intro moves_escrowI [OF eff] m_activate governance_abs unpaused_abs abs_campaign(1))
qed

lemma escrow_complete_move:
  assumes "escrow_complete X c k v h = Inr h'"
  shows "moves_escrow c h h'"
  using assms
proof (rule escrow_complete_ok)
  fix x l st h1
  assume x: "e_campaigns (escrows h c) k = Some (x, l)" and g: "status x = Active" "timestamp (ledger h) < expires_at x"
      "escrow_init c h = Inr h1" "\<not> escrow_paused c h"
    and o: "v = operation_version x" "e_consumed (escrows h c) (k, v) = None" "e_settlement (escrows h c) = Some st"
  have "amount x \<le> e_liability (escrow_abs (escrows h c))"
    using escrow_complete_eff(2) [OF assms x] by simp
  moreover have "e_consumed (escrow_abs (escrows h c)) (k, operation_version x) = None" "e_settlement (escrow_abs (escrows h c)) \<noteq> None"
    using o by (simp_all add: escrow_abs_def)
  ultimately show ?thesis
    by (intro moves_escrowI [OF escrow_complete_eff(1) [OF assms x]] m_complete governance_abs [OF g(3)] unpaused_abs [OF g(4)]
        abs_campaign(1) [OF x] g)
qed

lemma escrow_refund_move:
  assumes "escrow_refund_expired X c k h = Inr h'"
  shows "moves_escrow c h h'"
  using assms
proof (rule escrow_refund_ok)
  fix x l h1
  assume x: "e_campaigns (escrows h c) k = Some (x, l)" and g: "status x = Active \<or> status x = Funded"
    "expires_at x \<le> timestamp (ledger h)" "escrow_init c h = Inr h1"
  have "amount x \<le> e_liability (escrow_abs (escrows h c))"
    using escrow_refund_eff(2) [OF assms x] by simp
  then show ?thesis
    by (intro moves_escrowI [OF escrow_refund_eff(1) [OF assms x]] m_refund governance_abs [OF g(3)] abs_campaign(1) [OF x] g)
qed

lemma escrow_role_governance:
  "escrow_propose X c role a h = Inr h' \<Longrightarrow> e_governance (escrow_abs (escrows h c)) \<noteq> None"
  "escrow_pause X c h = Inr h' \<Longrightarrow> e_governance (escrow_abs (escrows h c)) \<noteq> None"
  "escrow_unpause X c h = Inr h' \<Longrightarrow> e_governance (escrow_abs (escrows h c)) \<noteq> None"
  by (auto simp: escrow_propose_def escrow_pause_def escrow_unpause_def ok_simps escrow_abs_instance
      dest!: escrow_init_governance)

lemma escrow_step_move:
  assumes "escrow_step X c h h'"
  shows "moves_escrow c h h'"
  using assms
proof cases
  case (initialize g st tok tr nft rvp dep salt)
  then show ?thesis
    using escrow_initialize_ok [OF initialize]
    by (intro moves_escrowI [where f = "spec_escrow_initialize g st tok tr nft rvp"])
      (auto intro: m_initialize simp: escrow_abs_instance)
next
  case (propose role a)
  then show ?thesis
    by (intro moves_escrowI [OF escrow_propose_eff m_propose] escrow_role_governance(1))
next
  case (accept role)
  then obtain a where a: "escrow_eff c (spec_escrow_accept role a) h h'" and g: "e_governance (escrows h c) \<noteq> None"
      "nominee role (escrows h c) = Some a"
    using escrow_accept_eff [OF accept] by (auto simp: nominee_def)
  show ?thesis
    by (rule moves_escrowI [OF a m_accept]) (use g in \<open>simp_all add: nominee_def escrow_abs_instance split: if_splits\<close>)
next
  case extend_instance_ttl
  then show ?thesis
    using moves_escrowI [OF escrow_ttl_eff(1)] m_idle by simp
next
  case (extend_campaign_ttl k)
  then show ?thesis
    using moves_escrowI [OF escrow_ttl_eff(2)] m_idle by simp
next
  case reads
  then show ?thesis
    using moves_escrowI [OF escrow_read_eff] m_idle by simp
next
  case pause
  then show ?thesis
    by (intro moves_escrowI [OF escrow_pause_eff(1) m_pause] escrow_role_governance(2))
next
  case unpause
  then show ?thesis
    by (intro moves_escrowI [OF escrow_pause_eff(2) m_unpause] escrow_role_governance(3))
qed (auto intro: escrow_fund_move escrow_activate_move escrow_complete_move escrow_refund_move)

lemma escrow_inv_upd [simp]:
  "escrow_inv (s\<lparr>e_pending_governance := x\<rparr>) = escrow_inv s"
  "escrow_inv (s\<lparr>e_pending_settlement := x\<rparr>) = escrow_inv s"
  "escrow_inv (s\<lparr>e_settlement := x\<rparr>) = escrow_inv s"
  "escrow_inv (s\<lparr>e_paused := b\<rparr>) = escrow_inv s"
  by (simp_all add: escrow_inv_def campaign_inv_def e_liability_def)

lemma escrow_inv_governance:
  "e_governance s \<noteq> None \<Longrightarrow> escrow_inv (s\<lparr>e_governance := Some a\<rparr>) = escrow_inv s"
  by (auto simp: escrow_inv_def campaign_inv_def e_liability_def)

lemma escrow_move_inv: "escrow_move c now s s' \<Longrightarrow> escrow_inv s \<Longrightarrow> escrow_inv s'"
proof (induction rule: escrow_move.induct)
  case (m_initialize s nft rvp g st tok tr)
  then show ?case
    by (auto simp: escrow_inv_def spec_escrow_initialize_def e_liability_def unwrap_or_def)
qed (auto intro: spec_fund_inv spec_activate_inv spec_complete_inv spec_refund_inv
    simp: spec_escrow_accept_def escrow_inv_governance)

lemma escrow_step_inv:
  assumes "escrow_step X c h h'" and "escrow_inv (escrows h c)"
  shows "escrow_inv (escrows h' c)"
  using escrow_move_inv [of c "timestamp (ledger h)" "escrow_abs (escrows h c)" "escrow_abs (escrows h' c)"]
    escrow_step_move [OF assms(1)] assms(2) by (simp add: escrow_inv_abs moves_escrow_def)

interpretation esc: component "escrow_step X c" "\<lambda>h. escrows h c" escrow_inv for X c
  by unfold_locales (rule escrow_step_inv)

text \<open>The life cycle of one campaign: what a step may do to it.\<close>

definition campaign_next :: "u64 \<Rightarrow> Campaign \<Rightarrow> Campaign \<Rightarrow> bool" where
  "campaign_next now x y \<longleftrightarrow>
     sponsor y = sponsor x \<and> amount y = amount x \<and> funded_at y = funded_at x \<and> expires_at y = expires_at x
     \<and> (y = x
        \<or> (status x = Funded \<and> status y = Active)
        \<or> (status x = Active \<and> y = x\<lparr>status := Completed\<rparr> \<and> now < expires_at x)
        \<or> ((status x = Active \<or> status x = Funded) \<and> y = x\<lparr>status := Refunded\<rparr> \<and> expires_at x \<le> now))"

lemma escrow_move_campaign:
  "escrow_move c now s s' \<Longrightarrow> e_campaigns s k = Some (x, l) \<Longrightarrow>
     \<exists>y l'. e_campaigns s' k = Some (y, l') \<and> campaign_next now x y"
  by (induction rule: escrow_move.induct)
    (auto simp: campaign_next_def spec_escrow_initialize_def spec_fund_def spec_complete_def spec_refund_def
      activated_def spec_escrow_accept_def)

lemma escrow_step_campaign:
  assumes "escrow_step X c h h'" and "e_campaigns (escrows h c) k = Some (x, l)"
  shows "\<exists>y l'. e_campaigns (escrows h' c) k = Some (y, l') \<and> campaign_next (timestamp (ledger h)) x y"
  using escrow_move_campaign [OF conjunct1 [OF escrow_step_move [OF assms(1), unfolded moves_escrow_def]] abs_campaign(1) [OF assms(2)]]
  by (auto simp: escrow_abs_def)

section \<open>Token movements\<close>

definition bal_view :: "hash32 \<Rightarrow> 'z sac_host_scheme \<Rightarrow> (address \<Rightarrow> int) \<times> (address \<Rightarrow> bool)" where
  "bal_view t h = (sac_bal t h, sac_tracked t h)"

lemma bal_view_quiet:
  "keeps sac_view f \<Longrightarrow> keeps (sac_bal t) f \<Longrightarrow> keeps (bal_view t) f"
  by (rule keepsI) (auto simp: bal_view_def dest: keepsD sac_view_tracked)

lemma bal_view_host [view_rules]:
  "keeps (bal_view t) (require_auth X a)"
  "keeps (bal_view t) (publish_event ts d)"
  "keeps (bal_view t) escrow_extend_instance"
  unfolding escrow_extend_instance_def by (intro bal_view_quiet view_rules)+

lemma bal_view_upd [simp]:
  "bal_view t (h\<lparr>auth := m\<rparr>) = bal_view t h"
  "bal_view t (h\<lparr>frames := fs\<rparr>) = bal_view t h"
  by (auto simp: bal_view_def sac_tracked_def read_asset_def read_asset_info_def fun_eq_iff split: address.splits)

lemma bal_view_upd_escrow [view_rules]: "keeps (bal_view t) (upd_escrow c f)"
proof (rule keepsI)
  fix h h' assume "upd_escrow c f h = Inr h'"
  then have h': "h' = h\<lparr>escrows := (escrows h)(c := f (escrows h c))\<rparr>"
    by (simp add: upd_escrow_def ok_simps)
  have "sac_bal t h' = sac_bal t h"
    by (rule sac_bal_cong) (simp_all add: h')
  then show "bal_view t h' = bal_view t h"
    by (auto simp: h' bal_view_def sac_tracked_def read_asset_def read_asset_info_def fun_eq_iff
        split: address.splits)
qed

lemma bal_view_token_balance [view_rules]: "keepsq (bal_view t) (token_balance tok a)"
  by (rule keepsqI) (auto simp: bal_view_def dest: keepsqD [OF sac_bal_token_balance]
      sac_view_tracked [OF keepsqD [OF sac_view_token_balance]])

lemma bal_view_steps [view_rules]:
  "keeps (bal_view t) (set_campaign c k x)"
  "keeps (bal_view t) (extend_campaign c k)"
  "keeps (bal_view t) (set_consumed c j b)"
  "keeps (bal_view t) (extend_consumed c j)"
  "keeps (bal_view t) (escrow_init c)"
  "keeps (bal_view t) (check_deficit c tok l n)"
  unfolding set_campaign_def extend_campaign_def set_consumed_def extend_consumed_def escrow_init_def
    check_deficit_def
  by (intro keeps_rules view_rules)+

lemma bal_view_authorize [view_rules]: "keeps (bal_view t) (authorize_pool_credit p k n)"
  by (rule keepsI) (auto simp: authorize_pool_credit_def dest!: authorize_as_curr_contract_shape)

lemma bal_view_record_credit: "keeps (bal_view t) (pool_record_credit X p k n)"
  by (rule keepsI) (auto simp: bal_view_def tok_view_def dest: keepsD [OF tok_view_record_credit [of t p]])

lemma bal_view_call_record_credit [view_rules]: "keeps (bal_view t) (call_record_credit X p k n)"
  unfolding call_record_credit_def
  by (intro keeps_rules keeps_call bal_view_record_credit) (simp add: call_blind_def)

lemma bal_view_marks [view_rules]:
  "keeps (bal_view t) (complete_marks c k x v)"
  "keeps (bal_view t) (complete_writes c k x tok l)"
  "keeps (bal_view t) (refund_writes c k x tok l)"
  unfolding complete_marks_def complete_writes_def refund_writes_def by (intro keeps_rules view_rules)+

text \<open>Steps that keep the balances, as movements of no leg.\<close>

lemma sac_moved_none: "bal_view t h' = bal_view t h \<Longrightarrow> sac.moved t [] h h'"
  by (rule sac.moved_none) (simp_all add: bal_view_def)

lemma sac_moved_after: "sac.moved t ls h h1 \<Longrightarrow> bal_view t h' = bal_view t h1 \<Longrightarrow> sac.moved t ls h h'"
  by (simp add: sac.moved_def bal_view_def)

lemma sac_moved_before: "bal_view t h1 = bal_view t h \<Longrightarrow> sac.moved t ls h1 h' \<Longrightarrow> sac.moved t ls h h'"
  by (simp add: sac.moved_def bal_view_def)

section \<open>The split\<close>

definition part_of :: "i128 \<Rightarrow> i128 \<Rightarrow> i128" where
  "part_of part n = (n * part) sdiv DENOM"

definition creator_part :: "i128 \<Rightarrow> i128" where
  "creator_part n = n - part_of SERVICE n - part_of NFT_POOL n - part_of REVENUE n - part_of REFERRER n"

definition settle_legs :: "address \<Rightarrow> Campaign \<Rightarrow> address \<Rightarrow> address \<Rightarrow> address \<Rightarrow> address \<Rightarrow> leg list" where
  "settle_legs self x treasury nft_pool revenue_pool referral =
     [(self, creator x, creator_part (amount x)),
      (self, treasury, part_of SERVICE (amount x)),
      (self, nft_pool, part_of NFT_POOL (amount x)),
      (self, revenue_pool, part_of REVENUE (amount x)),
      (self, referral, part_of REFERRER (amount x))]"

lemma sdiv_nonneg: "0 \<le> (n::int) \<Longrightarrow> 0 < d \<Longrightarrow> n sdiv d = n div d"
  by (cases "n = 0") (auto simp: signed_divide_int_def sgn_if)

lemma part_of_div: "0 \<le> n \<Longrightarrow> 0 \<le> p \<Longrightarrow> part_of p n = n * p div DENOM"
  by (simp add: part_of_def sdiv_nonneg DENOM_def)

lemmas split_consts = SERVICE_def NFT_POOL_def REVENUE_def REFERRER_def DENOM_def

text \<open>Every leg is positive for an amount of at least 100, and the creator has at least 82%.\<close>

lemma part_of_bounds:
  assumes "MINIMUM_CAMPAIGN_AMOUNT \<le> n" and "100 \<le> p"
  shows "0 < part_of p n" and "10000 * part_of p n \<le> n * p"
proof -
  have eq: "part_of p n = n * p div 10000"
    using assms part_of_div [of n p] by (simp add: MINIMUM_CAMPAIGN_AMOUNT_def DENOM_def)
  have "10000 \<le> n * p"
    using assms mult_mono [of 100 n 100 p] by (simp add: MINIMUM_CAMPAIGN_AMOUNT_def)
  then show "0 < part_of p n"
    by (simp add: eq pos_imp_zdiv_pos_iff)
  have "10000 * (a div 10000) \<le> a" for a :: int
    by presburger
  then show "10000 * part_of p n \<le> n * p"
    by (simp only: eq)
qed

lemma split_bounds:
  assumes "MINIMUM_CAMPAIGN_AMOUNT \<le> n"
  shows "0 < part_of SERVICE n" "0 < part_of NFT_POOL n" "0 < part_of REVENUE n" "0 < part_of REFERRER n"
    "82 * n \<le> 100 * creator_part n" "creator_part n \<le> n"
  using part_of_bounds [OF assms, of SERVICE] part_of_bounds [OF assms, of NFT_POOL]
    part_of_bounds [OF assms, of REVENUE] part_of_bounds [OF assms, of REFERRER]
  by (simp_all add: creator_part_def SERVICE_def NFT_POOL_def REVENUE_def REFERRER_def)

lemma leg_amount_ok: "leg_amount n p = Inr y \<Longrightarrow> y = part_of p n"
  by (auto simp: leg_amount_def part_of_def split: option.splits)

lemma settle_legs_sum: "(\<Sum>(x, y, n)\<leftarrow>settle_legs self c tr np rp rf. n) = amount c"
  by (simp add: settle_legs_def creator_part_def)

lemma settle_ok:
  assumes "settle X c tok k x h = Inr h'"
  obtains tr np rp rf h1 h2 h3 h4 h5 ts d where
    "e_service_treasury (escrows h c) = Some tr" and "e_nft_pool (escrows h c) = Some np"
    and "e_revenue_pool (escrows h c) = Some rp" and "referrer x = Some rf"
    and "token_transfer X tok (Contract c) (creator x) (creator_part (amount x)) h = Inr h1"
    and "token_transfer X tok (Contract c) tr (part_of SERVICE (amount x)) h1 = Inr h2"
    and "pay_pool X c tok e_nft_pool k (part_of NFT_POOL (amount x)) h2 = Inr h3"
    and "pay_pool X c tok e_revenue_pool k (part_of REVENUE (amount x)) h3 = Inr h4"
    and "token_transfer X tok (Contract c) rf (part_of REFERRER (amount x)) h4 = Inr h5"
    and "publish_event ts d h5 = Inr h'"
proof -
  from assms obtain tr rf h1 h2 h3 h4 h5 ts d where
    tr: "e_service_treasury (escrows h1 c) = Some tr" and rf: "referrer x = Some rf" and
    st: "token_transfer X tok (Contract c) (creator x) (creator_part (amount x)) h = Inr h1"
      "token_transfer X tok (Contract c) tr (part_of SERVICE (amount x)) h1 = Inr h2"
      "pay_pool X c tok e_nft_pool k (part_of NFT_POOL (amount x)) h2 = Inr h3"
      "pay_pool X c tok e_revenue_pool k (part_of REVENUE (amount x)) h3 = Inr h4"
      "token_transfer X tok (Contract c) rf (part_of REFERRER (amount x)) h4 = Inr h5"
      "publish_event ts d h5 = Inr h'"
    by (auto simp: settle_def ok_simps i128_op_def creator_part_def split: option.splits
        dest!: leg_amount_ok)
  have "e_quiet h h1" "e_quiet h1 h2" "e_quiet h2 h3"
    using st by (auto dest: e_dest)
  then have same: "escrows h1 = escrows h" "escrows h2 = escrows h" "escrows h3 = escrows h"
    by (auto simp: e_quiet_def outer_view_def)
  moreover obtain np rp where "e_nft_pool (escrows h2 c) = Some np" "e_revenue_pool (escrows h3 c) = Some rp"
    using st(3,4) by (auto simp: pay_pool_def ok_simps)
  ultimately show thesis
    using that tr rf st by simp
qed

lemma pay_pool_moved:
  assumes "pay_pool X c (Contract t) key k n h = Inr h'" and "key (escrows h c) = Some p"
  shows "sac.moved t [(Contract c, p, n)] h h'"
proof -
  from assms obtain h1 h2 where t: "token_transfer X (Contract t) (Contract c) p n h = Inr h1"
    and a: "\<exists>q. authorize_pool_credit q k n h1 = Inr h2 \<and> call_record_credit X q k n h2 = Inr h'"
    by (auto simp: pay_pool_def ok_simps)
  have "bal_view t h' = bal_view t h1"
    using a keepsD [OF bal_view_authorize] keepsD [OF bal_view_call_record_credit] by metis
  with sac.moved_transfer [OF t] show ?thesis
    by (rule sac_moved_after)
qed

lemma settle_moved:
  assumes "settle X c (Contract t) k x h = Inr h'"
    and "e_service_treasury (escrows h c) = Some tr" and "e_nft_pool (escrows h c) = Some np"
    and "e_revenue_pool (escrows h c) = Some rp" and "referrer x = Some rf"
  shows "sac.moved t (settle_legs (Contract c) x tr np rp rf) h h'"
  using assms(1)
proof (rule settle_ok)
  fix tr' np' rp' rf' h1 h2 h3 h4 h5 ts d
  assume e: "e_service_treasury (escrows h c) = Some tr'" "referrer x = Some rf'"
    and st: "token_transfer X (Contract t) (Contract c) (creator x) (creator_part (amount x)) h = Inr h1"
      "token_transfer X (Contract t) (Contract c) tr' (part_of SERVICE (amount x)) h1 = Inr h2"
      "pay_pool X c (Contract t) e_nft_pool k (part_of NFT_POOL (amount x)) h2 = Inr h3"
      "pay_pool X c (Contract t) e_revenue_pool k (part_of REVENUE (amount x)) h3 = Inr h4"
      "token_transfer X (Contract t) (Contract c) rf' (part_of REFERRER (amount x)) h4 = Inr h5"
    and ev: "publish_event ts d h5 = Inr h'"
  have "e_quiet h h1" "e_quiet h1 h2" "e_quiet h2 h3"
    using st by (auto dest: e_dest)
  then have same: "escrows h2 = escrows h" "escrows h3 = escrows h"
    by (auto simp: e_quiet_def outer_view_def)
  have m: "sac.moved t [(Contract c, np, part_of NFT_POOL (amount x))] h2 h3"
    "sac.moved t [(Contract c, rp, part_of REVENUE (amount x))] h3 h4"
    using pay_pool_moved [OF st(3)] pay_pool_moved [OF st(4)] assms(3,4) same by simp_all
  note chain = sac.moved_trans [OF sac.moved_trans [OF sac.moved_trans [OF sac.moved_trans
    [OF sac.moved_transfer [OF st(1)] sac.moved_transfer [OF st(2)]] m(1)] m(2)] sac.moved_transfer [OF st(5)]]
  have "bal_view t h' = bal_view t h5"
    by (rule keepsD [OF bal_view_host(2) ev])
  with chain have "sac.moved t ([(Contract c, creator x, creator_part (amount x))] @
      [(Contract c, tr', part_of SERVICE (amount x))] @ [(Contract c, np, part_of NFT_POOL (amount x))] @
      [(Contract c, rp, part_of REVENUE (amount x))] @ [(Contract c, rf', part_of REFERRER (amount x))]) h h'"
    using sac_moved_after by simp
  then show ?thesis
    using e assms(2,5) by (simp add: settle_legs_def)
qed

section \<open>What each operation moves\<close>

lemma escrow_complete_moved:
  assumes "escrow_complete X c k v h = Inr h'" and "e_campaigns (escrows h c) k = Some (x, l)"
    and "e_token (escrows h c) = Some (Contract t)" and "e_service_treasury (escrows h c) = Some tr"
    and "e_nft_pool (escrows h c) = Some np" and "e_revenue_pool (escrows h c) = Some rp"
    and "referrer x = Some rf"
  shows "sac.moved t (settle_legs (Contract c) x tr np rp rf) h h'"
proof -
  from assms(1-3) obtain st h1 h2 h3 h4 where
    st: "escrow_init c h = Inr h1" "require_auth X st h1 = Inr h2" "complete_marks c k x v h2 = Inr h3"
      "complete_writes c k x (Contract t) (e_liability (escrows h c)) h3 = Inr h4"
      "settle X c (Contract t) k x h4 = Inr h'"
    by (auto elim!: escrow_complete_ok)
  have bal: "bal_view t h4 = bal_view t h"
    using keepsD [OF bal_view_steps(5) st(1)] keepsD [OF bal_view_host(1) st(2)]
      keepsD [OF bal_view_marks(1) st(3)] keepsD [OF bal_view_marks(2) st(4)] by metis
  have q: "e_quiet h h1" "e_quiet h1 h2"
    using escrow_init_e [OF st(1)] host_steps_e(1) [OF st(2)] by auto
  have abs4: "escrow_abs (escrows h4 c) = spec_complete k x (escrow_abs (escrows h c))"
    using e_quietD [OF q(1), of c] e_quietD [OF q(2), of c] complete_marks_e [OF st(3)]
      complete_writes_e [OF st(4)] assms(1,2)
    by (auto simp: escrow_eff_def spec_complete_def elim!: escrow_complete_ok)
  have "e_service_treasury (escrows h4 c) = Some tr" "e_nft_pool (escrows h4 c) = Some np"
    "e_revenue_pool (escrows h4 c) = Some rp"
    using arg_cong [OF abs4, of e_service_treasury] arg_cong [OF abs4, of e_nft_pool]
      arg_cong [OF abs4, of e_revenue_pool] assms by (simp_all add: escrow_abs_instance spec_complete_def)
  then show ?thesis
    using settle_moved [OF st(5)] assms(7) sac_moved_before [OF bal] by blast
qed

lemma escrow_refund_moved:
  assumes "escrow_refund_expired X c k h = Inr h'" and "e_campaigns (escrows h c) k = Some (x, l)"
    and "e_token (escrows h c) = Some (Contract t)"
  shows "sac.moved t [(Contract c, sponsor x, amount x)] h h'"
proof -
  from assms obtain h1 h2 h3 ts d where
    st: "escrow_init c h = Inr h1" "refund_writes c k x (Contract t) (e_liability (escrows h c)) h1 = Inr h2"
      "token_transfer X (Contract t) (Contract c) (sponsor x) (amount x) h2 = Inr h3"
      "publish_event ts d h3 = Inr h'"
    by (auto elim!: escrow_refund_ok)
  have "bal_view t h2 = bal_view t h"
    using keepsD [OF bal_view_steps(5) st(1)] keepsD [OF bal_view_marks(3) st(2)] by metis
  from sac_moved_before [OF this sac.moved_transfer [OF st(3)]] show ?thesis
    using keepsD [OF bal_view_host(2) st(4)] by (rule sac_moved_after)
qed

text \<open>\<open>fund\<close> without its first and its last steps.\<close>

lemma escrow_fund_moved:
  assumes "escrow_fund X c k sp n h = Inr h'" and "e_token (escrows h c) = Some (Contract t)"
  shows "sac.moved t [(sp, Contract c, n)] h h'"
proof -
  let ?after = "steps [
     read (\<lambda>h. unwrap_or (e_total_liability (escrows h c)) 0) (\<lambda>liability.
     try_read (i128_op (liability + n)) (\<lambda>l.
       upd_escrow c (\<lambda>s. s\<lparr>e_total_liability := Some l\<rparr>))),
     read (\<lambda>h. timestamp (ledger h)) (\<lambda>now.
     ok_or wasm_trap (\<lambda>h. checked_add_u64 now EXPIRY) (\<lambda>expiry. steps [
       set_campaign c k
         \<lparr>sponsor = sp, amount = n, creator = Contract c, referrer = None, terms_hash = [],
          funded_at = now, expires_at = expiry, operation_version = 0, status = Funded\<rparr>,
       extend_campaign c k,
       publish_event [SSymbol ''funded'', SU64 k] (SVec [SAddress sp, SI128 n, SU64 now])]))]"
  from assms(1) obtain h1 h2 h3 tok where
    st: "escrow_init c h = Inr h1" "require_auth X sp h1 = Inr h2" and
    tok: "e_token (escrows h2 c) = Some tok" "token_transfer X tok sp (Contract c) n h2 = Inr h3" and
    after: "?after h3 = Inr h'"
    by (auto simp: escrow_fund_def ok_simps)
  have "e_quiet h h1" "e_quiet h1 h2"
    using escrow_init_e [OF st(1)] host_steps_e(1) [OF st(2)] by auto
  then have "tok = Contract t"
    using tok(1) assms(2) by (simp add: e_quiet_def outer_view_def)
  have "bal_view t h2 = bal_view t h"
    using keepsD [OF bal_view_steps(5) st(1)] keepsD [OF bal_view_host(1) st(2)] by metis
  from sac_moved_before [OF this sac.moved_transfer [OF tok(2) [unfolded \<open>tok = Contract t\<close>]]]
  have m: "sac.moved t [(sp, Contract c, n)] h h3" .
  have "keeps (bal_view t) ?after"
    by (intro keeps_rules view_rules)
  then have "bal_view t h' = bal_view t h3"
    using after by (rule keepsD)
  with m show ?thesis
    by (rule sac_moved_after)
qed

lemma bal_view_others [view_rules]:
  "keeps (bal_view t) (escrow_activate X c k cr rf terms)"
  "keeps (bal_view t) (escrow_propose X c role a)"
  "keeps (bal_view t) (escrow_accept X c role)"
  "keeps (bal_view t) (escrow_pause X c)"
  "keeps (bal_view t) (escrow_unpause X c)"
  "keeps (bal_view t) (escrow_extend_instance_ttl c)"
  "keeps (bal_view t) (escrow_extend_campaign_ttl c k)"
  unfolding escrow_activate_def escrow_propose_def escrow_accept_def escrow_pause_def escrow_unpause_def
    escrow_extend_instance_ttl_def escrow_extend_campaign_ttl_def with_campaign_def
  by (auto intro!: keeps_rules view_rules split: option.splits)

lemma bal_view_reads:
  "keepsq (bal_view t) (escrow_get_campaign c k)"
  "keepsq (bal_view t) (escrow_config_version c)"
  "keepsq (bal_view t) (escrow_pool_destinations c)"
  "keepsq (bal_view t) (escrow_token_contract c)"
  "keepsq (bal_view t) (escrow_service_treasury c)"
  "keepsq (bal_view t) (escrow_is_paused c)"
  "keepsq (bal_view t) (escrow_governance c)"
  "keepsq (bal_view t) (escrow_settlement_authority c)"
  unfolding escrow_read_defs by (auto intro!: keeps_rules view_rules split: option.splits)

lemma bal_view_read: "escrow_read c h h' \<Longrightarrow> bal_view t h' = bal_view t h"
  by (erule escrow_read_keeps) (rule bal_view_reads)+

section \<open>Solvency\<close>

definition escrow_solvent :: "hash32 \<Rightarrow> hash32 \<Rightarrow> escrow_host \<Rightarrow> bool" where
  "escrow_solvent t c h \<longleftrightarrow>
     e_token (escrows h c) = Some (Contract t) \<and> e_liability (escrows h c) \<le> sac_bal t h (Contract c)"

text \<open>A step whose legs take no more out of the escrow than it lowers the liability.\<close>

lemma escrow_solvent_step:
  assumes "escrow_solvent t c h" and "escrow_eff c f h h'" and "sac.moved t ls h h'"
    and "e_token (f (escrow_abs (escrows h c))) = e_token (escrow_abs (escrows h c))"
    and "e_liability (f (escrow_abs (escrows h c))) - e_liability (escrows h c) \<le> net ls (Contract c)"
  shows "escrow_solvent t c h'"
proof -
  have abs': "escrow_abs (escrows h' c) = f (escrow_abs (escrows h c))"
    using assms(2) by (simp add: escrow_eff_def)
  have "e_token (escrows h' c) = e_token (escrows h c)"
    using arg_cong [OF abs', of e_token] assms(4) by (simp add: escrow_abs_instance)
  moreover have "e_liability (escrows h' c) = e_liability (f (escrow_abs (escrows h c)))"
    using arg_cong [OF abs', of e_liability] by simp
  moreover have "sac_bal t h' (Contract c) = sac_bal t h (Contract c) + net ls (Contract c)"
    by (rule sac.moved_bal [OF assms(3)]) simp
  ultimately show ?thesis
    using assms(1,5) by (simp add: escrow_solvent_def)
qed

lemma escrow_init_authorized:
  "escrow_init c h = Inr h' \<Longrightarrow> has_authorized X a h' = has_authorized X a h"
  by (rule has_authorized_cong)
    (auto simp: escrow_init_def escrow_extend_instance_def ok_simps dest!: extend_instance_shape)

lemma escrow_fund_authorized:
  assumes "escrow_fund X c k sp n h = Inr h'"
  shows "has_authorized X sp h"
proof -
  from assms obtain h1 h2 where "escrow_init c h = Inr h1" "require_auth X sp h1 = Inr h2"
    by (auto simp: escrow_fund_def ok_simps)
  then show ?thesis
    using require_auth_authorized escrow_init_authorized by blast
qed

lemma escrow_fund_solvent:
  assumes "escrow_fund X c k sp n h = Inr h'" and "escrow_solvent t c h" and "\<not> has_authorized X (Contract c) h"
  shows "escrow_solvent t c h'"
proof (rule escrow_solvent_step [OF assms(2) escrow_fund_ok(6) [OF assms(1)] escrow_fund_moved [OF assms(1)]])
  show "e_token (escrows h c) = Some (Contract t)"
    using assms(2) by (simp add: escrow_solvent_def)
  have "sp \<noteq> Contract c"
    using escrow_fund_authorized [OF assms(1)] assms(3) by auto
  then show "e_liability (spec_fund c k sp n (timestamp (ledger h)) (escrow_abs (escrows h c)))
      - e_liability (escrows h c) \<le> net [(sp, Contract c, n)] (Contract c)"
    by (simp add: spec_fund_def e_liability_def unwrap_or_def escrow_abs_instance)
qed (simp add: spec_fund_def)

lemma escrow_refund_solvent:
  assumes "escrow_refund_expired X c k h = Inr h'" and "escrow_solvent t c h" and "escrow_inv (escrows h c)"
  shows "escrow_solvent t c h'"
proof -
  obtain x l where x: "e_campaigns (escrows h c) k = Some (x, l)"
    using assms(1) by (rule escrow_refund_ok)
  have "0 \<le> amount x"
    using escrow_invD [OF assms(3) x] by (simp add: campaign_inv_def MINIMUM_CAMPAIGN_AMOUNT_def)
  moreover have tok: "e_token (escrows h c) = Some (Contract t)"
    using assms(2) by (simp add: escrow_solvent_def)
  ultimately show ?thesis
    by (intro escrow_solvent_step [OF assms(2) escrow_refund_eff(1) [OF assms(1) x]
          escrow_refund_moved [OF assms(1) x tok]])
      (auto simp: spec_refund_def e_liability_def unwrap_or_def escrow_abs_instance)
qed

lemma escrow_complete_destinations:
  assumes "escrow_complete X c k v h = Inr h'" and "e_campaigns (escrows h c) k = Some (x, l)"
  obtains tr np rp rf where "e_service_treasury (escrows h c) = Some tr" and "e_nft_pool (escrows h c) = Some np"
    and "e_revenue_pool (escrows h c) = Some rp" and "referrer x = Some rf"
proof -
  from assms obtain tok st h1 h2 h3 h4 where
    st: "escrow_init c h = Inr h1" "require_auth X st h1 = Inr h2" "complete_marks c k x v h2 = Inr h3"
      "complete_writes c k x tok (e_liability (escrows h c)) h3 = Inr h4" "settle X c tok k x h4 = Inr h'"
    by (auto elim!: escrow_complete_ok)
  have q: "e_quiet h h1" "e_quiet h1 h2"
    using escrow_init_e [OF st(1)] host_steps_e(1) [OF st(2)] by auto
  have abs4: "e_service_treasury (escrow_abs (escrows h4 c)) = e_service_treasury (escrow_abs (escrows h c))"
    "e_nft_pool (escrow_abs (escrows h4 c)) = e_nft_pool (escrow_abs (escrows h c))"
    "e_revenue_pool (escrow_abs (escrows h4 c)) = e_revenue_pool (escrow_abs (escrows h c))"
    using e_quietD [OF q(1), of c] e_quietD [OF q(2), of c] complete_marks_e [OF st(3)] complete_writes_e [OF st(4)]
    by (simp_all add: escrow_eff_def)
  from st(5) obtain tr np rp rf where "e_service_treasury (escrows h4 c) = Some tr"
    "e_nft_pool (escrows h4 c) = Some np" "e_revenue_pool (escrows h4 c) = Some rp" "referrer x = Some rf"
    by (rule settle_ok)
  then show thesis
    using that abs4 escrow_abs_instance(6-8) by metis
qed

lemma settle_legs_payer:
  assumes "MINIMUM_CAMPAIGN_AMOUNT \<le> amount x"
  shows "- amount x \<le> net (settle_legs self x tr np rp rf) self"
proof -
  have "0 \<le> creator_part (amount x)"
    using split_bounds(5) [OF assms] assms by (simp add: MINIMUM_CAMPAIGN_AMOUNT_def)
  then have "- (\<Sum>(a, b, n)\<leftarrow>settle_legs self x tr np rp rf. n) \<le> net (settle_legs self x tr np rp rf) self"
    using split_bounds(1-4) [OF assms] by (intro net_payer) (auto simp: settle_legs_def)
  then show ?thesis
    by (simp only: settle_legs_sum)
qed

lemma escrow_complete_solvent:
  assumes "escrow_complete X c k v h = Inr h'" and "escrow_solvent t c h" and "escrow_inv (escrows h c)"
  shows "escrow_solvent t c h'"
proof -
  obtain x l where x: "e_campaigns (escrows h c) k = Some (x, l)"
    using assms(1) by (rule escrow_complete_ok)
  have tok: "e_token (escrows h c) = Some (Contract t)"
    using assms(2) by (simp add: escrow_solvent_def)
  from assms(1) x obtain tr np rp rf where d: "e_service_treasury (escrows h c) = Some tr"
    "e_nft_pool (escrows h c) = Some np" "e_revenue_pool (escrows h c) = Some rp" "referrer x = Some rf"
    by (rule escrow_complete_destinations)
  have "- amount x \<le> net (settle_legs (Contract c) x tr np rp rf) (Contract c)"
    using escrow_invD [OF assms(3) x] by (intro settle_legs_payer) (simp add: campaign_inv_def)
  then show ?thesis
    by (intro escrow_solvent_step [OF assms(2) escrow_complete_eff(1) [OF assms(1) x]
          escrow_complete_moved [OF assms(1) x tok d]])
      (auto simp: spec_complete_def e_liability_def unwrap_or_def escrow_abs_instance)
qed

lemma bal_view_moved: "keeps (bal_view t) f \<Longrightarrow> f h = Inr h' \<Longrightarrow> sac.moved t [] h h'"
  by (auto intro: sac_moved_none dest: keepsD)

text \<open>Every operation of an initialized escrow keeps it solvent.\<close>

lemma escrow_step_solvent:
  assumes "escrow_step X c h h'" and "escrow_inv (escrows h c)" and "escrow_solvent t c h"
    and "e_governance (escrows h c) \<noteq> None" and "\<not> has_authorized X (Contract c) h"
  shows "escrow_solvent t c h'"
  using assms(1)
proof cases
  case (initialize g st tok tr nft rvp dep salt)
  then show ?thesis
    using escrow_initialize_ok [OF initialize] assms(4) by simp
next
  case (fund k sp n)
  then show ?thesis
    using escrow_fund_solvent assms(3,5) by blast
next
  case (activate k cr rf terms)
  then obtain x where "escrow_eff c (\<lambda>s. s\<lparr>e_campaigns := (e_campaigns s)(k \<mapsto> (activated cr rf terms x, 0))\<rparr>) h h'"
    by (rule escrow_activate_ok)
  from escrow_solvent_step [OF assms(3) this bal_view_moved [OF bal_view_others(1) activate]]
  show ?thesis
    by (simp add: e_liability_def escrow_abs_instance)
next
  case (complete k v)
  then show ?thesis
    using escrow_complete_solvent assms(2,3) by blast
next
  case (refund k)
  then show ?thesis
    using escrow_refund_solvent assms(2,3) by blast
next
  case (propose role a)
  from escrow_solvent_step [OF assms(3) escrow_propose_eff [OF propose] bal_view_moved [OF bal_view_others(2) propose]]
  show ?thesis
    by (simp add: e_liability_def escrow_abs_instance split: if_splits)
next
  case (accept role)
  then obtain a where "escrow_eff c (spec_escrow_accept role a) h h'"
    using escrow_accept_eff by blast
  from escrow_solvent_step [OF assms(3) this bal_view_moved [OF bal_view_others(3) accept]]
  show ?thesis
    by (simp add: spec_escrow_accept_def e_liability_def escrow_abs_instance split: if_splits)
next
  case pause
  from escrow_solvent_step [OF assms(3) escrow_pause_eff(1) [OF pause] bal_view_moved [OF bal_view_others(4) pause]]
  show ?thesis
    by (simp add: e_liability_def escrow_abs_instance)
next
  case unpause
  from escrow_solvent_step [OF assms(3) escrow_pause_eff(2) [OF unpause] bal_view_moved [OF bal_view_others(5) unpause]]
  show ?thesis
    by (simp add: e_liability_def escrow_abs_instance)
next
  case extend_instance_ttl
  from escrow_solvent_step [OF assms(3) escrow_ttl_eff(1) [OF extend_instance_ttl]
      bal_view_moved [OF bal_view_others(6) extend_instance_ttl]]
  show ?thesis
    by simp
next
  case (extend_campaign_ttl k)
  from escrow_solvent_step [OF assms(3) escrow_ttl_eff(2) [OF extend_campaign_ttl]
      bal_view_moved [OF bal_view_others(7) extend_campaign_ttl]]
  show ?thesis
    by simp
next
  case reads
  from escrow_solvent_step [OF assms(3) escrow_read_eff [OF reads] sac_moved_none [OF bal_view_read [OF reads]]]
  show ?thesis
    by simp
qed

section \<open>Credits in the pools\<close>

lemma keeps_pools [view_rules]:
  "keeps pools (require_auth X a)"
  "keeps pools (publish_event ts d)"
  "keeps pools escrow_extend_instance"
  "keeps pools (token_transfer X tok a b n)"
  "keepsq pools (token_balance tok a)"
  unfolding escrow_extend_instance_def
  by (auto intro!: keepsI keepsqI dest!: keepsD [OF sac_view_shapes(1)] keepsD [OF sac_view_shapes(2)]
      keepsD [OF sac_view_shapes(3)] keepsD [OF sac_view_token_transfer] keepsqD [OF sac_view_token_balance]
      sac_view_more)

lemma keeps_pools_upd [view_rules]: "keeps pools (upd_escrow c f)"
  by (rule keepsI) (auto simp: upd_escrow_def ok_simps)

lemma keeps_pools_authorize [view_rules]: "keeps pools (authorize_pool_credit p k n)"
  by (rule keepsI) (auto simp: authorize_pool_credit_def dest!: authorize_as_curr_contract_shape)

lemma keeps_pools_steps [view_rules]:
  "keeps pools (set_campaign c k x)"
  "keeps pools (extend_campaign c k)"
  "keeps pools (set_consumed c j b)"
  "keeps pools (extend_consumed c j)"
  "keeps pools (escrow_init c)"
  "keeps pools (check_deficit c tok l n)"
  "keeps pools (complete_marks c k x v)"
  "keeps pools (complete_writes c k x tok l)"
  unfolding set_campaign_def extend_campaign_def set_consumed_def extend_consumed_def escrow_init_def
    check_deficit_def complete_marks_def complete_writes_def
  by (intro keeps_rules view_rules)+

lemma call_record_credit_pools:
  assumes "call_record_credit X (Contract p) k n h = Inr h'"
  shows "pool_abs (pools h' p) = spec_credit k n (pool_abs (pools h p)) \<and> 0 < n
    \<and> p_credited (pools h p) k = None \<and> (\<forall>q. q \<noteq> p \<longrightarrow> pools h' q = pools h q)"
proof -
  obtain h1 h2 where
    e: "enter_contract p (Wasm ContributorPool) ''record_credit'' [SU64 k, SI128 n] h = Inr h1" and
    b: "pool_record_credit X p k n h1 = Inr h2" and
    h': "h' = h2\<lparr>frames := tl (frames h2), auth := am_pop_frame (auth h2)\<rparr>"
    using assms by (auto simp: call_record_credit_def ok_simps elim!: call_step_ok)
  have "pools h1 = pools h" and "pools h' = pools h2"
    using enter_contract_shape [OF e] h' by auto
  then show ?thesis
    using pool_record_credit_ok [OF b] pool_eff_other [OF pool_record_credit_ok(1) [OF b]]
    by (simp add: pool_eff_def)
qed

lemma pay_pool_credits:
  assumes "pay_pool X c tok key k n h = Inr h'" and "key (escrows h c) = Some (Contract p)"
  shows "pool_abs (pools h' p) = spec_credit k n (pool_abs (pools h p))
    \<and> p_credited (pools h p) k = None \<and> (\<forall>q. q \<noteq> p \<longrightarrow> pools h' q = pools h q)"
proof -
  from assms(1) obtain h1 h2 pool where t: "\<exists>d. token_transfer X tok (Contract c) d n h = Inr h1"
    and key: "key (escrows h1 c) = Some pool"
    and a: "authorize_pool_credit pool k n h1 = Inr h2" and r: "call_record_credit X pool k n h2 = Inr h'"
    by (auto simp: pay_pool_def ok_simps)
  have "e_quiet h h1"
    using t host_steps_e(4) by blast
  then have "pool = Contract p"
    using key assms(2) by (simp add: e_quiet_def outer_view_def)
  moreover have "pools h2 = pools h"
    using t keepsD [OF keeps_pools(4)] keepsD [OF keeps_pools_authorize a] by metis
  ultimately show ?thesis
    using call_record_credit_pools [of X p k n h2 h'] r by simp
qed

lemma settle_credits:
  assumes "settle X c tok k x h = Inr h'" and "e_nft_pool (escrows h c) = Some (Contract p)"
    and "e_revenue_pool (escrows h c) = Some (Contract q)" and "p \<noteq> q"
  shows "pool_abs (pools h' p) = spec_credit k (part_of NFT_POOL (amount x)) (pool_abs (pools h p))
    \<and> pool_abs (pools h' q) = spec_credit k (part_of REVENUE (amount x)) (pool_abs (pools h q))
    \<and> (\<forall>r. r \<noteq> p \<longrightarrow> r \<noteq> q \<longrightarrow> pools h' r = pools h r)"
  using assms(1)
proof (rule settle_ok)
  fix tr np rp rf h1 h2 h3 h4 h5 ts d
  assume st: "token_transfer X tok (Contract c) (creator x) (creator_part (amount x)) h = Inr h1"
      "token_transfer X tok (Contract c) tr (part_of SERVICE (amount x)) h1 = Inr h2"
      "pay_pool X c tok e_nft_pool k (part_of NFT_POOL (amount x)) h2 = Inr h3"
      "pay_pool X c tok e_revenue_pool k (part_of REVENUE (amount x)) h3 = Inr h4"
      "token_transfer X tok (Contract c) rf (part_of REFERRER (amount x)) h4 = Inr h5"
      "publish_event ts d h5 = Inr h'"
  have "e_quiet h h1" "e_quiet h1 h2" "e_quiet h2 h3"
    using st by (auto dest: e_dest)
  then have same: "escrows h2 = escrows h" "escrows h3 = escrows h"
    by (auto simp: e_quiet_def outer_view_def)
  have "pools h2 = pools h" "pools h' = pools h4"
    using keepsD [OF keeps_pools(4) st(1)] keepsD [OF keeps_pools(4) st(2)] keepsD [OF keeps_pools(4) st(5)]
      keepsD [OF keeps_pools(2) st(6)] by auto
  then show ?thesis
    using pay_pool_credits [OF st(3), of p] pay_pool_credits [OF st(4), of q] assms(2-4) same by simp
qed

lemma escrow_complete_credits:
  assumes "escrow_complete X c k v h = Inr h'" and "e_campaigns (escrows h c) k = Some (x, l)"
    and "e_nft_pool (escrows h c) = Some (Contract p)" and "e_revenue_pool (escrows h c) = Some (Contract q)"
    and "p \<noteq> q"
  shows "pool_abs (pools h' p) = spec_credit k (part_of NFT_POOL (amount x)) (pool_abs (pools h p))
    \<and> pool_abs (pools h' q) = spec_credit k (part_of REVENUE (amount x)) (pool_abs (pools h q))
    \<and> (\<forall>r. r \<noteq> p \<longrightarrow> r \<noteq> q \<longrightarrow> pools h' r = pools h r)"
proof -
  from assms obtain tok st h1 h2 h3 h4 where
    st: "escrow_init c h = Inr h1" "require_auth X st h1 = Inr h2" "complete_marks c k x v h2 = Inr h3"
      "complete_writes c k x tok (e_liability (escrows h c)) h3 = Inr h4" "settle X c tok k x h4 = Inr h'"
    by (auto elim!: escrow_complete_ok)
  have q: "e_quiet h h1" "e_quiet h1 h2"
    using escrow_init_e [OF st(1)] host_steps_e(1) [OF st(2)] by auto
  have abs4: "e_nft_pool (escrow_abs (escrows h4 c)) = e_nft_pool (escrow_abs (escrows h c))"
    "e_revenue_pool (escrow_abs (escrows h4 c)) = e_revenue_pool (escrow_abs (escrows h c))"
    using e_quietD [OF q(1), of c] e_quietD [OF q(2), of c] complete_marks_e [OF st(3)] complete_writes_e [OF st(4)]
    by (simp_all add: escrow_eff_def)
  have "pools h4 = pools h"
    using keepsD [OF keeps_pools_steps(5) st(1)] keepsD [OF keeps_pools(1) st(2)]
      keepsD [OF keeps_pools_steps(7) st(3)] keepsD [OF keeps_pools_steps(8) st(4)] by simp
  then show ?thesis
    using settle_credits [OF st(5), of p q] abs4 assms(3-5) by (simp add: escrow_abs_instance)
qed

end
