(* ===== verification/Token_Steps.thy ===== *)
theory Token_Steps
  imports Stellar_Asset_Laws
begin

text \<open>
  The asset contract as a state machine, and when a contract that holds the asset is safe from it.
  \<open>token_step\<close> is a call of any exported function.  A contract \<open>d\<close> holds the asset safely
  (\<open>holds_safely\<close>) when it has given no allowance and its balance can not be clawed back; no call
  that \<open>d\<close> has not authorized changes that (\<open>token_step_safe\<close>) or takes from its balance
  (\<open>token_step_bal\<close>).
\<close>

section \<open>Allowances\<close>

definition alw :: "hash32 \<Rightarrow> 'z sac_host_scheme \<Rightarrow> _" where
  "alw c h = (ledger h, sac_allowances (sacs h c))"

lemma alw_upd_balances: "alw c (upd_sac d (\<lambda>s. s\<lparr>sac_balances := f s\<rparr>) h) = alw c h"
  by (simp add: alw_def upd_sac_def)

lemma alw_host [view_rules]:
  "keeps (alw c) (require_auth X a)" "keeps (alw c) (publish_event ts d)"
  "keeps (alw c) (extend_current_contract_instance_and_code_ttl t e)"
  by (rule keepsI; auto simp: alw_def dest!: require_auth_shape publish_event_shape extend_instance_shape)+

lemma alw_classic [view_rules]:
  "keeps (alw c) (transfer_account_balance k n)" "keeps (alw c) (transfer_trustline_balance k a n)"
  by (rule keepsI; auto simp: alw_def dest!: transfer_account_balance_bal transfer_trustline_balance_bal)+

lemma alw_slots [view_rules]:
  "keeps (alw c) (extend_balance_ttl d a)" "keeps (alw c) (write_contract_balance d a b)"
  unfolding extend_balance_ttl_def write_contract_balance_def by (intro keeps_rules alw_upd_balances)+

lemma alw_transfer_classic [view_rules]: "keeps (alw c) (transfer_classic_balance d k n)"
  unfolding transfer_classic_balance_def by (auto intro!: keeps_rules view_rules split: asset.splits)

lemma alw_check [view_rules]: "keeps (alw c) (check_authorized d a)"
  unfolding check_authorized_def by (intro keeps_rules)

lemma alw_spend_nocheck [view_rules]: "keeps (alw c) (spend_balance_no_authorization_check d a n)"
  unfolding spend_balance_no_authorization_check_def
  by (cases a) (auto intro!: keeps_rules view_rules split: option.splits)

lemma alw_spend [view_rules]: "keeps (alw c) (spend_balance d a n)"
  unfolding spend_balance_def by (intro keeps_rules view_rules)

lemma alw_receive [view_rules]: "keeps (alw c) (receive_balance d a n)"
  unfolding receive_balance_def by (cases a) (auto intro!: keeps_rules view_rules)

lemma alw_event [view_rules]: "keeps (alw c) (event_transfer d a b n)"
  unfolding event_transfer_def sac_event_def by (intro keeps_rules view_rules)

lemma alw_read: "alw c h' = alw c h \<Longrightarrow> read_allowance c a s h' = read_allowance c a s h"
  by (auto simp: alw_def read_allowance_def lookup_allowance_def split: sum.split option.split)

lemma spend_allowance_ok:
  assumes "spend_allowance c a s n h = Inr h'" and "0 \<le> n"
  shows "\<exists>v. read_allowance c a s h = Inr v \<and> n \<le> v \<and> read_allowance c a s h' = Inr (v - n)"
    and "x \<noteq> (a, s) \<Longrightarrow> sac_allowances (sacs h' c) x = sac_allowances (sacs h c) x"
proof -
  obtain v where v: "read_allowance c a s h = Inr v" "n \<le> v"
    using assms by (auto simp: spend_allowance_def ok_simps split: if_splits)
  have "read_allowance c a s h' = Inr (v - n) \<and> (x \<noteq> (a, s) \<longrightarrow> sac_allowances (sacs h' c) x = sac_allowances (sacs h c) x)"
  proof (cases "n = 0")
    case True
    then show ?thesis
      using assms v by (auto simp: spend_allowance_def ok_simps split: if_splits)
  next
    case False
    then obtain w l where w: "sac_allowances (sacs h c) (a, s) = Some (w, l)" "sequence_number (ledger h) \<le> l"
        "sequence_number (ledger h) \<le> av_live_until_ledger w" "av_amount w = v"
      using v assms(2) by (auto simp: read_allowance_def lookup_allowance_def lookup_entry_Some
          split: sum.splits option.splits if_splits)
    have "write_allowance_amount c a s (v - n) h = Inr h'"
      using assms v False by (auto simp: spend_allowance_def ok_simps split: if_splits)
    then have "write_allowance c a s (v - n) (av_live_until_ledger w) h = Inr h'"
      using w(1,2) by (auto simp: write_allowance_amount_def ok_simps get_entry_def try_get_entry_def)
    moreover have "lookup_allowance c a s h = Inr (Some w)"
      using w(1,2) by (auto simp: lookup_allowance_def lookup_entry_Some)
    ultimately have "h' = upd_sac c (\<lambda>t. t\<lparr>sac_allowances := (sac_allowances t)((a, s) \<mapsto> (w\<lparr>av_amount := v - n\<rparr>, l))\<rparr>) h"
      using w(1,2)
      by (auto simp: write_allowance_def ok_simps put_allowance_def put_entry_def try_get_entry_def split: if_splits)
    then show ?thesis
      using w by (auto simp: read_allowance_def lookup_allowance_def upd_sac_def lookup_entry_def has_entry_def
          get_entry_def try_get_entry_def)
  qed
  with v show "\<exists>v. read_allowance c a s h = Inr v \<and> n \<le> v \<and> read_allowance c a s h' = Inr (v - n)"
    and "x \<noteq> (a, s) \<Longrightarrow> sac_allowances (sacs h' c) x = sac_allowances (sacs h c) x"
    by blast+
qed

lemma sac_bal_upd_allowances: "sac_bal c (upd_sac d (\<lambda>s. s\<lparr>sac_allowances := f s\<rparr>) h) = sac_bal c h"
  by (auto simp: sac_bal_def upd_sac_def classic_bal_def read_asset_def read_asset_info_def fun_eq_iff
      split: address.splits sum.splits asset.splits)

lemma allowance_slots_bal:
  "keeps (sac_bal c) (put_allowance d a s v)" "keeps (sac_bal c) (extend_allowance_ttl d a s l)"
  unfolding put_allowance_def extend_allowance_ttl_def by (intro keeps_rules sac_bal_upd_allowances)+

lemma write_allowance_bal: "keeps (sac_bal c) (write_allowance d a s v l)"
  unfolding write_allowance_def
  by (intro keeps_rules) (auto intro!: keeps_rules allowance_slots_bal split: option.splits)

lemma spend_allowance_bal: "keeps (sac_bal c) (spend_allowance d a s n)"
  unfolding spend_allowance_def write_allowance_amount_def
  by (intro keeps_rules) (auto intro!: keeps_rules write_allowance_bal)

section \<open>Clawback\<close>

text \<open>Whether the balance of a contract can be clawed back: the flag of its balance, or, before there
  is one, the flag a new balance would have.\<close>

definition clawable :: "hash32 \<Rightarrow> hash32 \<Rightarrow> 'z sac_host_scheme \<Rightarrow> host_error + bool" where
  "clawable c d h = (case sac_balances (sacs h c) (Contract d) of
     None \<Rightarrow> is_asset_clawback_enabled c h | Some (b, _) \<Rightarrow> Inr (bv_clawback b))"

definition claw :: "hash32 \<Rightarrow> 'z sac_host_scheme \<Rightarrow> _" where
  "claw c h = (is_asset_clawback_enabled c h, (\<lambda>d. clawable c d h))"

lemma clawback_enabled_cong:
  assumes "sac_asset_info (sacs h' c) = sac_asset_info (sacs h c)"
    and "\<And>k. map_option flags (account_entries h' k) = map_option flags (account_entries h k)"
  shows "is_asset_clawback_enabled c h' = is_asset_clawback_enabled c h"
proof -
  have "is_issuer_flag_set k f h' = is_issuer_flag_set k f h" for k f
    using assms(2) [of k] by (cases "account_entries h k"; cases "account_entries h' k") (auto simp: is_issuer_flag_set_def load_account_def)
  then show ?thesis
    using assms(1) by (auto simp: is_asset_clawback_enabled_def is_asset_issuer_flag_set_def read_asset_info_def
        split: sum.splits AssetInfo.splits)
qed

lemma claw_cong:
  assumes "sac_asset_info (sacs h' c) = sac_asset_info (sacs h c)"
    and "\<And>k. map_option flags (account_entries h' k) = map_option flags (account_entries h k)"
    and "\<And>d. map_option (bv_clawback \<circ> fst) (sac_balances (sacs h' c) (Contract d)) =
      map_option (bv_clawback \<circ> fst) (sac_balances (sacs h c) (Contract d))"
  shows "claw c h' = claw c h"
proof -
  have "clawable c d h' = clawable c d h" for d
    using assms(3) [of d] clawback_enabled_cong [OF assms(1,2)] by (auto simp: clawable_def split: option.splits)
  then show ?thesis
    using clawback_enabled_cong [OF assms(1,2)] by (simp add: claw_def)
qed

lemma claw_host [view_rules]:
  "keeps (claw c) (require_auth X a)" "keeps (claw c) (publish_event ts d)"
  "keeps (claw c) (extend_current_contract_instance_and_code_ttl t e)"
  "keeps (claw c) (authorize_as_curr_contract es)"
  by (rule keepsI; rule claw_cong; auto dest!: require_auth_shape publish_event_shape extend_instance_shape
      authorize_as_curr_contract_shape)+

lemma claw_classic [view_rules]:
  "keeps (claw c) (transfer_account_balance k n)" "keeps (claw c) (transfer_trustline_balance k a n)"
  "keeps (claw c) (set_trustline_authorization k a b)"
  by (rule keepsI; rule claw_cong; auto dest!: transfer_account_balance_bal transfer_trustline_balance_bal
      simp: set_trustline_authorization_def ok_simps split: if_splits)+

lemma claw_ops [view_rules]: "keeps (claw c) (transfer_classic_balance d k n)" "keeps (claw c) (set_authorization d k b)"
  unfolding transfer_classic_balance_def set_authorization_def
  by (auto intro!: keeps_rules view_rules split: asset.splits)

lemma claw_extend [view_rules]: "keeps (claw c) (extend_balance_ttl d a)"
  by (rule keepsI, rule claw_cong) (auto simp: extend_balance_ttl_def ok_simps upd_sac_def dest!: extend_entry_ok)

lemma claw_write:
  assumes "write_contract_balance c (Contract d) b h = Inr h'" and "clawable c d h = Inr (bv_clawback b)"
  shows "claw t h' = claw t h"
proof -
  obtain e where e: "fst e = b"
    and ext: "extend_balance_ttl c (Contract d) (upd_sac c (\<lambda>s. s\<lparr>sac_balances := (sac_balances s)(Contract d \<mapsto> e)\<rparr>) h) = Inr h'"
    using assms(1) by (auto simp: write_contract_balance_def ok_simps dest!: put_entry_ok)
  let ?g = "upd_sac c (\<lambda>s. s\<lparr>sac_balances := (sac_balances s)(Contract d \<mapsto> e)\<rparr>) h"
  have en: "is_asset_clawback_enabled t ?g = is_asset_clawback_enabled t h"
    by (rule clawback_enabled_cong) (auto simp: upd_sac_def)
  then have "clawable t x ?g = clawable t x h" for x
    using assms(2) e by (cases e) (auto simp: clawable_def split: option.splits)
  then have "claw t ?g = claw t h"
    using en by (simp add: claw_def)
  then show ?thesis
    using keepsD [OF claw_extend ext, of t] by simp
qed

lemma lookup_clawable:
  "lookup_balance c (Contract d) h = Inr r \<Longrightarrow> balance_or_new c a r h = Inr b \<Longrightarrow> clawable c d h = Inr (bv_clawback b)"
  by (cases r) (auto simp: lookup_balance_def lookup_entry_Some lookup_entry_None balance_or_new_def clawable_def split: sum.splits)

lemma claw_rewrite:
  "lookup_balance c (Contract d) h = Inr r \<Longrightarrow> balance_or_new c a r h = Inr b \<Longrightarrow>
     write_contract_balance c (Contract d) b' h = Inr h' \<Longrightarrow> bv_clawback b' = bv_clawback b \<Longrightarrow> claw t h' = claw t h"
  using lookup_clawable [of c d h r a b] claw_write [of c d b' h h' t] by simp

lemma claw_check [view_rules]: "keeps (claw c) (check_authorized d a)"
  unfolding check_authorized_def by (intro keeps_rules)

lemma claw_spend_nocheck [view_rules]: "keeps (claw c) (spend_balance_no_authorization_check d a n)"
proof (cases a)
  case (Account k)
  then show ?thesis
    unfolding spend_balance_no_authorization_check_def by (auto intro!: keeps_rules view_rules)
next
  case (Contract x)
  show ?thesis
  proof (rule keepsI)
    fix h h' :: "'a sac_host_scheme"
    assume run: "spend_balance_no_authorization_check d a n h = Inr h'"
    then obtain r where r: "lookup_balance d (Contract x) h = Inr r"
      using Contract by (auto simp: spend_balance_no_authorization_check_def ok_simps)
    show "claw c h' = claw c h"
    proof (cases r)
      case (Some b)
      then have "write_contract_balance d (Contract x) (b\<lparr>bv_amount := bv_amount b - n\<rparr>) h = Inr h'"
        using run r Contract by (auto simp: spend_balance_no_authorization_check_def ok_simps split: if_splits)
      then show ?thesis
        by (rule claw_write) (use lookup_clawable [OF r, of _ b] Some in \<open>simp add: balance_or_new_def\<close>)
    qed (use run r Contract in \<open>auto simp: spend_balance_no_authorization_check_def ok_simps split: if_splits\<close>)
  qed
qed

lemma claw_receive [view_rules]: "keeps (claw c) (receive_balance d a n)"
proof (cases a)
  case (Account k)
  then show ?thesis
    unfolding receive_balance_def by (auto intro!: keeps_rules view_rules)
next
  case (Contract x)
  then show ?thesis
    by (auto intro!: keepsI elim!: claw_rewrite simp: receive_balance_def check_authorized_ok ok_simps)
qed

lemma claw_authorization [view_rules]: "keeps (claw c) (write_authorization d a b)"
proof (cases a)
  case (Account k)
  then show ?thesis
    unfolding write_authorization_def by (auto intro!: keeps_rules view_rules)
next
  case (Contract x)
  then show ?thesis
    by (auto intro!: keepsI elim!: claw_rewrite simp: write_authorization_def ok_simps split: if_splits)
qed

lemma claw_upd_allowances: "claw c (upd_sac d (\<lambda>s. s\<lparr>sac_allowances := f s\<rparr>) h) = claw c h"
  by (rule claw_cong) (auto simp: upd_sac_def)

lemma claw_allowance [view_rules]:
  "keeps (claw c) (put_allowance d a s v)" "keeps (claw c) (extend_allowance_ttl d a s l)"
  unfolding put_allowance_def extend_allowance_ttl_def by (intro keeps_rules claw_upd_allowances)+

lemma claw_write_allowance [view_rules]: "keeps (claw c) (write_allowance d a s v l)"
  unfolding write_allowance_def by (intro keeps_rules) (auto intro!: keeps_rules view_rules split: option.splits)

lemma claw_spend_allowance [view_rules]: "keeps (claw c) (spend_allowance d a s n)"
  unfolding spend_allowance_def write_allowance_amount_def by (intro keeps_rules) (auto intro!: keeps_rules view_rules)

lemma claw_admin [view_rules]: "keeps (claw c) (write_administrator d a)"
  unfolding write_administrator_def by (intro keeps_rules claw_cong) (auto simp: upd_sac_def)

lemma claw_misc [view_rules]:
  "keeps (claw c) (sac_event d n as v)" "keeps (claw c) (spend_balance d a m)"
  "keeps (claw c) extend_sac_instance" "keeps (claw c) (check_nonnegative_amount m)"
  "keeps (claw c) (check_non_native d)"
  unfolding sac_event_def spend_balance_def extend_sac_instance_def check_nonnegative_amount_def check_non_native_def
  by (intro keeps_rules view_rules)+

lemma claw_read [view_rules]: "keepsq (claw c) (read_balance d a)"
  unfolding read_balance_def by (cases a) (auto intro!: keeps_rules view_rules split: option.splits)

lemma claw_blind [view_rules]: "call_blind (claw c)"
proof -
  have "claw c (h\<lparr>frames := fs, auth := m\<rparr>) = claw c h" for h :: "'a sac_host_scheme" and fs m
    by (rule claw_cong) simp_all
  then show ?thesis
    by (simp add: call_blind_def)
qed

section \<open>The functions of the asset contract\<close>

lemma claw_not_issuer [view_rules]: "keeps (claw c) (check_not_issuer d a)"
  unfolding check_not_issuer_def by (auto intro!: keeps_rules split: option.splits)

lemma claw_clawbackable [view_rules]: "keeps (claw c) (check_clawbackable d a)"
  unfolding check_clawbackable_def validate_clawback_trustline_def
  by (cases a) (auto intro!: keeps_rules split: option.splits asset.splits)

lemmas sac_events = event_approve_def event_transfer_def event_mint_def event_clawback_def event_set_authorized_def
  event_set_admin_def event_burn_def

lemmas sac_functions = sac_approve_def sac_transfer_def sac_transfer_from_def sac_burn_def sac_burn_from_def sac_clawback_def
  sac_set_authorized_def sac_mint_def sac_set_admin_def

lemma claw_functions [view_rules]:
  "keeps (claw t) (sac_approve X c a s n l)"
  "keeps (claw t) (sac_transfer X c a b n)"
  "keeps (claw t) (sac_transfer_from X c s a b n)"
  "keeps (claw t) (sac_burn X c a n)"
  "keeps (claw t) (sac_burn_from X c s a n)"
  "keeps (claw t) (sac_clawback X c a n)"
  "keeps (claw t) (sac_set_authorized X c a z)"
  "keeps (claw t) (sac_mint X c a n)"
  "keeps (claw t) (sac_set_admin X c a)"
  unfolding sac_functions sac_events by (intro keeps_rules view_rules)+

lemma claw_reads [view_rules]:
  "keepsq (claw t) (sac_allowance c a s)"
  "keepsq (claw t) (sac_balance c a)"
  "keepsq (claw t) (sac_authorized c a)"
  "keepsq (claw t) (sac_admin c)"
  "keepsq (claw t) sac_decimals"
  "keepsq (claw t) (sac_name c)"
  "keepsq (claw t) (sac_symbol c)"
  unfolding sac_allowance_def sac_balance_def sac_authorized_def sac_admin_def sac_decimals_def sac_name_def sac_symbol_def
  by (intro keeps_rules view_rules)+

lemma claw_token [view_rules]:
  "keeps (claw t) (token_transfer X tok a b n)" "keepsq (claw t) (token_balance tok a)"
  unfolding token_transfer_def token_balance_def by (intro keeps_rules keeps_call keepsq_call view_rules)+

text \<open>What the functions leave alone.\<close>

lemma sac_view_checks [view_rules]:
  "keeps sac_view (check_nonnegative_amount n)" "keeps sac_view (check_non_native d)" "keeps sac_view extend_sac_instance"
  unfolding check_nonnegative_amount_def check_non_native_def extend_sac_instance_def by (intro keeps_rules view_rules)+

lemma sac_view_not_issuer [view_rules]: "keeps sac_view (check_not_issuer d a)"
  unfolding check_not_issuer_def by (auto intro!: keeps_rules split: option.splits)

lemma sac_view_clawbackable [view_rules]: "keeps sac_view (check_clawbackable d a)"
  unfolding check_clawbackable_def validate_clawback_trustline_def
  by (cases a) (auto intro!: keeps_rules split: option.splits asset.splits)

lemma sac_view_authorization [view_rules]: "keeps sac_view (write_authorization d a b)"
  unfolding write_authorization_def by (cases a) (auto intro!: keeps_rules view_rules)

lemma sac_view_functions:
  "keeps sac_view (sac_approve X c a s n l)"
  "keeps sac_view (sac_transfer X c a b n)"
  "keeps sac_view (sac_transfer_from X c s a b n)"
  "keeps sac_view (sac_burn X c a n)"
  "keeps sac_view (sac_burn_from X c s a n)"
  "keeps sac_view (sac_clawback X c a n)"
  "keeps sac_view (sac_set_authorized X c a z)"
  "keeps sac_view (sac_mint X c a n)"
  unfolding sac_functions sac_events by (intro keeps_rules view_rules)+

lemma sac_view_reads:
  "keepsq sac_view (sac_allowance c a s)"
  "keepsq sac_view (sac_balance c a)"
  "keepsq sac_view (sac_authorized c a)"
  "keepsq sac_view (sac_admin c)"
  "keepsq sac_view sac_decimals"
  "keepsq sac_view (sac_name c)"
  "keepsq sac_view (sac_symbol c)"
  unfolding sac_allowance_def sac_authorized_def sac_admin_def sac_decimals_def sac_name_def sac_symbol_def
  by (intro keeps_rules view_rules)+

lemma more_set_admin: "keeps sac_host.more (sac_set_admin X c a)"
proof -
  have "keeps sac_host.more f" if "keeps sac_view f" for f :: "('z sac_host_scheme, host_error) step"
    using that by (auto simp: keeps_def sac_view_def)
  note quiet = this [OF sac_view_shapes(1)] this [OF sac_view_checks(3)] this [OF sac_view_event]
  show ?thesis
    unfolding sac_set_admin_def write_administrator_def sac_events by (intro keeps_rules quiet) (simp add: upd_sac_def)
qed

lemma more_init_asset: "keeps sac_host.more (sac_init_asset X c a)"
  unfolding sac_init_asset_def write_administrator_def write_asset_info_def set_metadata_def
  by (auto intro!: keeps_rules simp: upd_sac_def split: option.splits)

text \<open>What they leave of the allowances.\<close>

lemma alw_upd: "(\<And>s. sac_allowances (f s) = sac_allowances s) \<Longrightarrow> alw c (upd_sac d f h) = alw c h"
  by (simp add: alw_def upd_sac_def)

lemma alw_checks [view_rules]:
  "keeps (alw c) (check_nonnegative_amount n)" "keeps (alw c) (check_non_native d)" "keeps (alw c) extend_sac_instance"
  "keeps (alw c) (sac_event d e as v)" "keeps (alw c) (write_administrator d a)" "keeps (alw c) (write_asset_info d i)"
  "keeps (alw c) (set_metadata X d)"
  unfolding check_nonnegative_amount_def check_non_native_def extend_sac_instance_def sac_event_def write_administrator_def
    write_asset_info_def set_metadata_def
  by (auto intro!: keeps_rules view_rules alw_upd)

lemma alw_not_issuer [view_rules]: "keeps (alw c) (check_not_issuer d a)"
  unfolding check_not_issuer_def by (auto intro!: keeps_rules split: option.splits)

lemma alw_clawbackable [view_rules]: "keeps (alw c) (check_clawbackable d a)"
  unfolding check_clawbackable_def validate_clawback_trustline_def
  by (cases a) (auto intro!: keeps_rules split: option.splits asset.splits)

lemma alw_set_trustline [view_rules]: "keeps (alw c) (set_trustline_authorization k a b)"
  by (rule keepsI) (auto simp: set_trustline_authorization_def ok_simps alw_def split: if_splits)

lemma alw_set_authorization [view_rules]: "keeps (alw c) (set_authorization d k b)"
  unfolding set_authorization_def by (auto intro!: keeps_rules view_rules split: asset.splits)

lemma alw_authorization [view_rules]: "keeps (alw c) (write_authorization d a b)"
  unfolding write_authorization_def by (cases a) (auto intro!: keeps_rules view_rules)

lemma alw_functions:
  "keeps (alw t) (sac_transfer X c a b n)"
  "keeps (alw t) (sac_burn X c a n)"
  "keeps (alw t) (sac_clawback X c a n)"
  "keeps (alw t) (sac_set_authorized X c a z)"
  "keeps (alw t) (sac_mint X c a n)"
  "keeps (alw t) (sac_set_admin X c a)"
  unfolding sac_functions sac_events by (intro keeps_rules view_rules)+

lemma alw_init_asset: "keeps (alw t) (sac_init_asset X c a)"
  unfolding sac_init_asset_def by (auto intro!: keeps_rules view_rules split: option.splits)

lemma alw_read_balance [view_rules]: "keepsq (alw c) (read_balance d a)"
  unfolding read_balance_def by (cases a) (auto intro!: keeps_rules view_rules split: option.splits)

lemma alw_reads [view_rules]:
  "keepsq (alw t) (sac_allowance c a s)"
  "keepsq (alw t) (sac_balance c a)"
  "keepsq (alw t) (sac_authorized c a)"
  "keepsq (alw t) (sac_admin c)"
  "keepsq (alw t) sac_decimals"
  "keepsq (alw t) (sac_name c)"
  "keepsq (alw t) (sac_symbol c)"
  unfolding sac_allowance_def sac_balance_def sac_authorized_def sac_admin_def sac_decimals_def sac_name_def sac_symbol_def
  by (intro keeps_rules view_rules)+

text \<open>A delegated transfer succeeds only with the spender's authorization and within a live
  allowance of the owner; it lowers exactly this allowance by exactly the amount and moves the
  amount from the owner to the payee as a transfer does.\<close>

lemma delegated_transfer_spends_allowance:
  fixes h h' :: "'z sac_host_scheme"
  assumes "sac_transfer_from X c s a b n h = Inr h'"
  shows "0 \<le> n \<and> has_authorized X s h
    \<and> (\<exists>v. read_allowance c a s h = Inr v \<and> n \<le> v \<and> read_allowance c a s h' = Inr (v - n))
    \<and> (\<forall>y. y \<noteq> (a, s) \<longrightarrow> sac_allowances (sacs h' c) y = sac_allowances (sacs h c) y)
    \<and> (\<forall>x. sac_tracked c h x \<longrightarrow> sac_bal c h' x = sac_bal c h x + net [(a, b, n)] x)"
proof -
  from assms obtain g h1 h2 h3 h4 where n: "0 \<le> n" and ra: "require_auth X s h = Inr g"
    and ext: "extend_sac_instance g = Inr h1" and al: "spend_allowance c a s n h1 = Inr h2"
    and sp: "spend_balance c a n h2 = Inr h3" and rc: "receive_balance c b n h3 = Inr h4"
    and ev: "event_transfer c a b n h4 = Inr h'"
    by (auto simp: sac_transfer_from_def check_nonnegative_amount_def ok_simps)
  note ext' = ext [unfolded extend_sac_instance_def]
  have a1: "alw c h1 = alw c h"
    using keepsD [OF alw_host(1) ra] keepsD [OF alw_host(3) ext'] by simp
  have a2: "alw c h' = alw c h2"
    using keepsD [OF alw_spend sp] keepsD [OF alw_receive rc] keepsD [OF alw_event ev] by simp
  have view: "sac_view h2 = sac_view h" and b2: "sac_bal c h2 = sac_bal c h"
    using keepsD [OF sac_view_shapes(1) ra] keepsD [OF sac_view_shapes(3) ext'] keepsD [OF sac_view_spend_allowance al]
      keepsD [OF sac_bal_host(1) ra] keepsD [OF sac_bal_host(3) ext'] keepsD [OF spend_allowance_bal al] by simp_all
  have "keeps (sac_bal c) (event_transfer c a b n :: ('z sac_host_scheme, host_error) step)"
    unfolding event_transfer_def sac_event_def by (intro keeps_rules view_rules)
  then have b4: "sac_bal c h' = sac_bal c h4"
    by (rule keepsD) (rule ev)
  have "sac_bal c h' x = sac_bal c h x + net [(a, b, n)] x" if "sac_tracked c h x" for x
    using spend_receive_bal [OF sp rc n, of x] that sac_view_tracked [OF view, of c] b2 b4 by simp
  moreover have "\<exists>v. read_allowance c a s h = Inr v \<and> n \<le> v \<and> read_allowance c a s h' = Inr (v - n)"
    using spend_allowance_ok(1) [OF al n] alw_read [OF a1] alw_read [OF a2] by simp
  moreover have "sac_allowances (sacs h' c) y = sac_allowances (sacs h c) y" if "y \<noteq> (a, s)" for y
    using spend_allowance_ok(2) [OF al n that] a1 a2 by (simp add: alw_def)
  ultimately show ?thesis
    using n require_auth_authorized [OF ra] by blast
qed

lemma alw_token [view_rules]:
  "keeps (alw t) (token_transfer X tok a b n)" "keepsq (alw t) (token_balance tok a)"
  unfolding token_transfer_def token_balance_def
  by (intro keeps_rules keeps_call keepsq_call view_rules alw_functions; simp add: call_blind_def alw_def)+

section \<open>What a call takes from a contract\<close>

lemma sac_bal_checks [view_rules]:
  "keeps (sac_bal c) (check_nonnegative_amount n)" "keeps (sac_bal c) (check_non_native d)"
  "keeps (sac_bal c) extend_sac_instance" "keeps (sac_bal c) (sac_event d e as v)"
  unfolding check_nonnegative_amount_def check_non_native_def extend_sac_instance_def sac_event_def
  by (intro keeps_rules view_rules)+

lemma sac_bal_approve: "keeps (sac_bal t) (sac_approve X c a s n l)"
  unfolding sac_approve_def sac_events by (intro keeps_rules view_rules write_allowance_bal)

lemma check_not_issuer_same: "check_not_issuer c a h = Inr h' \<Longrightarrow> h' = h"
  by (auto simp: check_not_issuer_def ok_simps split: option.splits)

lemma check_non_native_same: "check_non_native c h = Inr h' \<Longrightarrow> h' = h"
  by (auto simp: check_non_native_def ok_simps)

lemma sac_burn_ok:
  assumes "sac_burn X c a n h = Inr h'"
  shows "0 \<le> n \<and> has_authorized X a h
    \<and> sac_bal c h' (Contract d) = sac_bal c h (Contract d) - (if Contract d = a then n else 0)"
proof -
  from assms obtain g h1 h2 where n: "0 \<le> n" and st: "require_auth X a h = Inr g" "extend_sac_instance g = Inr h1"
      "spend_balance_no_authorization_check c a n h1 = Inr h2" "sac_event c ''burn'' [a] (SI128 n) h2 = Inr h'"
    by (auto simp: sac_burn_def check_nonnegative_amount_def spend_balance_def check_authorized_ok event_burn_def ok_simps
        dest!: check_not_issuer_same check_non_native_same)
  then show ?thesis
    using spend_nocheck_bal [OF st(3) n, of "Contract d"] require_auth_authorized [OF st(1)]
      keepsD [OF sac_bal_host(1) st(1)] keepsD [OF sac_bal_checks(3) st(2)] keepsD [OF sac_bal_checks(4) st(4)] by simp
qed

lemma sac_burn_from_ok:
  assumes "sac_burn_from X c s a n h = Inr h'"
  obtains v where "0 \<le> n" and "read_allowance c a s h = Inr v" and "n \<le> v"
    and "\<And>y. y \<noteq> (a, s) \<or> n = 0 \<Longrightarrow> sac_allowances (sacs h' c) y = sac_allowances (sacs h c) y"
    and "\<And>d. sac_bal c h' (Contract d) = sac_bal c h (Contract d) - (if Contract d = a then n else 0)"
proof -
  from assms obtain g h1 h2 h3 where n: "0 \<le> n" and st: "require_auth X s h = Inr g" "extend_sac_instance g = Inr h1"
      "spend_allowance c a s n h1 = Inr h2" "spend_balance_no_authorization_check c a n h2 = Inr h3"
      "sac_event c ''burn'' [a] (SI128 n) h3 = Inr h'"
    by (auto simp: sac_burn_from_def check_nonnegative_amount_def spend_balance_def check_authorized_ok event_burn_def ok_simps
        dest!: check_not_issuer_same check_non_native_same)
  have a1: "alw c h1 = alw c h" and a2: "alw c h' = alw c h2"
    using keepsD [OF alw_host(1) st(1)] keepsD [OF alw_checks(3) st(2)] keepsD [OF alw_spend_nocheck st(4)]
      keepsD [OF alw_checks(4) st(5)] by simp_all
  from spend_allowance_ok(1) [OF st(3) n] obtain v where v: "read_allowance c a s h1 = Inr v" "n \<le> v"
    by blast
  have same: "sac_allowances (sacs h2 c) y = sac_allowances (sacs h1 c) y" if "y \<noteq> (a, s) \<or> n = 0" for y
    using that spend_allowance_ok(2) [OF st(3) n] st(3) v by (auto simp: spend_allowance_def ok_simps split: if_splits)
  show thesis
  proof (rule that [OF n _ v(2)])
    show "read_allowance c a s h = Inr v"
      using v(1) alw_read [OF a1] by simp
    show "sac_allowances (sacs h' c) y = sac_allowances (sacs h c) y" if "y \<noteq> (a, s) \<or> n = 0" for y
      using same [OF that] a1 a2 by (simp add: alw_def)
    show "sac_bal c h' (Contract d) = sac_bal c h (Contract d) - (if Contract d = a then n else 0)" for d
      using spend_nocheck_bal [OF st(4) n, of "Contract d"] keepsD [OF sac_bal_host(1) st(1)] keepsD [OF sac_bal_checks(3) st(2)]
        keepsD [OF spend_allowance_bal st(3), of c] keepsD [OF sac_bal_checks(4) st(5)] by simp
  qed
qed

lemma check_clawbackable_same: "keeps (\<lambda>h. h) (check_clawbackable c a)"
  unfolding check_clawbackable_def validate_clawback_trustline_def
  by (cases a) (auto intro!: keeps_rules split: option.splits asset.splits)

lemma set_authorization_sacs: "keeps sacs (set_authorization c k z)"
  unfolding set_authorization_def set_trustline_authorization_def by (auto intro!: keeps_rules split: asset.splits)

lemma sac_clawback_ok:
  assumes "sac_clawback X c a n h = Inr h'"
  shows "0 \<le> n \<and> (a = Contract d \<longrightarrow> clawable c d h = Inr True)
    \<and> sac_bal c h' (Contract d) = sac_bal c h (Contract d) - (if Contract d = a then n else 0)"
proof -
  have claw: "g' = g \<and> (a = Contract d \<longrightarrow> clawable c d g = Inr True)" if "check_clawbackable c a g = Inr g'"
    for g g' :: "'a sac_host_scheme"
    using that keepsD [OF check_clawbackable_same that]
    by (auto simp: check_clawbackable_def ok_simps lookup_balance_def lookup_entry_Some clawable_def split: option.splits)
  from assms obtain ad g h1 h2 where n: "0 \<le> n" and c: "a = Contract d \<longrightarrow> clawable c d h = Inr True"
      and st: "require_auth X ad h = Inr g" "extend_sac_instance g = Inr h1"
      "spend_balance_no_authorization_check c a n h1 = Inr h2" "sac_event c ''clawback'' [ad, a] (SI128 n) h2 = Inr h'"
    by (auto simp: sac_clawback_def check_nonnegative_amount_def event_clawback_def ok_simps dest!: check_not_issuer_same claw)
  then show ?thesis
    using spend_nocheck_bal [OF st(3) n, of "Contract d"] keepsD [OF sac_bal_host(1) st(1)] keepsD [OF sac_bal_checks(3) st(2)]
      keepsD [OF sac_bal_checks(4) st(4)] by simp
qed

lemma sac_set_authorized_bal:
  assumes "sac_set_authorized X c a z h = Inr h'"
  shows "sac_bal c h' (Contract d) = sac_bal c h (Contract d)"
proof -
  from assms obtain ad g h1 h2 where st: "require_auth X ad h = Inr g" "extend_sac_instance g = Inr h1"
      "write_authorization c a z h1 = Inr h2" "sac_event c ''set_authorized'' [ad, a] (SBool z) h2 = Inr h'"
    by (auto simp: sac_set_authorized_def event_set_authorized_def ok_simps)
  have "sac_bal c h2 (Contract d) = sac_bal c h1 (Contract d)"
  proof (cases a)
    case (Account k)
    then have "set_authorization c k z h1 = Inr h2"
      using st(3) by (auto simp: write_authorization_def ok_simps split: if_splits)
    then have "sacs h2 = sacs h1"
      by (rule keepsD [OF set_authorization_sacs])
    then show ?thesis
      by (simp add: sac_bal_def)
  next
    case (Contract x)
    then obtain r b where r: "lookup_balance c (Contract x) h1 = Inr r" "balance_or_new c z r h1 = Inr b"
        "write_contract_balance c (Contract x) (b\<lparr>bv_authorized := z\<rparr>) h1 = Inr h2"
      using st(3) by (auto simp: write_authorization_def ok_simps split: if_splits)
    have "bv_amount b = sac_bal c h1 (Contract x)"
      using lookup_balance_ok [of c x h1] r(1,2) by (cases r) (auto simp: balance_or_new_def split: sum.splits)
    then show ?thesis
      using write_contract_balance_bal [OF r(3), of "Contract d"] by simp
  qed
  then show ?thesis
    using keepsD [OF sac_bal_host(1) st(1)] keepsD [OF sac_bal_checks(3) st(2)] keepsD [OF sac_bal_checks(4) st(4)] by simp
qed

lemma sac_mint_bal:
  assumes "sac_mint X c a n h = Inr h'"
  shows "sac_bal c h (Contract d) \<le> sac_bal c h' (Contract d)"
proof -
  from assms obtain ad h1 h2 h3 where n: "0 \<le> n" and st: "require_auth X ad h = Inr h1" "extend_sac_instance h1 = Inr h2"
      "receive_balance c a n h2 = Inr h3" "sac_event c ''mint'' [ad, a] (SI128 n) h3 = Inr h'"
    by (auto simp: sac_mint_def check_nonnegative_amount_def event_mint_def ok_simps dest!: check_not_issuer_same)
  then show ?thesis
    using receive_bal [OF st(3), of "Contract d"] keepsD [OF sac_bal_host(1) st(1)] keepsD [OF sac_bal_checks(3) st(2)]
      keepsD [OF sac_bal_checks(4) st(4)] by simp
qed

lemma sac_set_admin_bal: "keeps (\<lambda>h. sac_bal c h (Contract d)) (sac_set_admin X t a)"
proof -
  have "keeps (\<lambda>h. sac_bal c h (Contract d)) f" if "keeps (sac_bal c) f" for f :: "('z sac_host_scheme, host_error) step"
    using that by (auto simp: keeps_def)
  note quiet = this [OF sac_bal_host(1)] this [OF sac_bal_checks(3)] this [OF sac_bal_checks(4)]
  show ?thesis
    unfolding sac_set_admin_def write_administrator_def sac_events by (intro keeps_rules quiet) (simp add: sac_bal_def)
qed

lemma sac_init_asset_bal: "keeps (\<lambda>h. sac_bal c h (Contract d)) (sac_init_asset X t a)"
  unfolding sac_init_asset_def write_administrator_def write_asset_info_def set_metadata_def
  by (auto intro!: keeps_rules simp: sac_bal_def split: option.splits)

lemma sac_bal_reads:
  "keepsq (sac_bal t) (sac_allowance c a s)"
  "keepsq (sac_bal t) (sac_authorized c a)"
  "keepsq (sac_bal t) (sac_admin c)"
  "keepsq (sac_bal t) sac_decimals"
  "keepsq (sac_bal t) (sac_name c)"
  "keepsq (sac_bal t) (sac_symbol c)"
  unfolding sac_allowance_def sac_authorized_def sac_admin_def sac_decimals_def sac_name_def sac_symbol_def
  by (intro keeps_rules view_rules)+

section \<open>The asset contract as a state machine\<close>

inductive token_step :: "externals \<Rightarrow> hash32 \<Rightarrow> 'z sac_host_scheme \<Rightarrow> 'z sac_host_scheme \<Rightarrow> bool" for X c where
  init_asset: "sac_init_asset X c i h = Inr h' \<Longrightarrow> token_step X c h h'"
| approve: "sac_approve X c a s n l h = Inr h' \<Longrightarrow> token_step X c h h'"
| transfer: "sac_transfer X c a b n h = Inr h' \<Longrightarrow> token_step X c h h'"
| transfer_from: "sac_transfer_from X c s a b n h = Inr h' \<Longrightarrow> token_step X c h h'"
| burn: "sac_burn X c a n h = Inr h' \<Longrightarrow> token_step X c h h'"
| burn_from: "sac_burn_from X c s a n h = Inr h' \<Longrightarrow> token_step X c h h'"
| clawback: "sac_clawback X c a n h = Inr h' \<Longrightarrow> token_step X c h h'"
| set_authorized: "sac_set_authorized X c a z h = Inr h' \<Longrightarrow> token_step X c h h'"
| mint: "sac_mint X c a n h = Inr h' \<Longrightarrow> token_step X c h h'"
| set_admin: "sac_set_admin X c a h = Inr h' \<Longrightarrow> token_step X c h h'"
| allowance: "sac_allowance c a s h = Inr (v, h') \<Longrightarrow> token_step X c h h'"
| balance: "sac_balance c a h = Inr (v, h') \<Longrightarrow> token_step X c h h'"
| authorized: "sac_authorized c a h = Inr (w, h') \<Longrightarrow> token_step X c h h'"
| admin: "sac_admin c h = Inr (ad, h') \<Longrightarrow> token_step X c h h'"
| decimals: "sac_decimals h = Inr (u, h') \<Longrightarrow> token_step X c h h'"
| name: "sac_name c h = Inr (bs, h') \<Longrightarrow> token_step X c h h'"
| symbol: "sac_symbol c h = Inr (bs, h') \<Longrightarrow> token_step X c h h'"

lemma sac_view_rest: "sac_view h' = sac_view h \<Longrightarrow> sac_host.more h' = sac_host.more h"
  by (simp add: sac_view_def)

lemma token_step_more: "token_step X c h h' \<Longrightarrow> sac_host.more h' = sac_host.more h"
  by (induction rule: token_step.induct)
    (auto intro: sac_view_rest dest: keepsD [OF more_init_asset] keepsD [OF more_set_admin] sac_view_functions [THEN keepsD]
      sac_view_reads [THEN keepsqD])

text \<open>A contract is safe when nobody can spend for it and its balance can not be clawed back.\<close>

definition holds_safely :: "hash32 \<Rightarrow> hash32 \<Rightarrow> 'z sac_host_scheme \<Rightarrow> bool" where
  "holds_safely c d h \<longleftrightarrow> (\<forall>s. sac_allowances (sacs h c) (Contract d, s) = None) \<and> clawable c d h = Inr False"

lemma holds_safely_keep: "alw c h' = alw c h \<Longrightarrow> claw c h' = claw c h \<Longrightarrow> holds_safely c d h' = holds_safely c d h"
  by (auto simp: holds_safely_def alw_def claw_def fun_eq_iff)

lemma no_allowance_zero:
  assumes "sac_allowances (sacs h c) (a, s) = None" and "read_allowance c a s h = Inr v"
  shows "v = 0"
  using assms by (simp add: read_allowance_def lookup_allowance_def lookup_entry_def has_entry_def try_get_entry_def)

lemma init_asset_claw:
  assumes "sac_init_asset X c i h = Inr h'" and "clawable c d h = Inr False"
  shows "clawable c d h' = Inr False"
proof -
  have none: "sac_asset_info (sacs h c) = None"
    using assms(1) by (auto simp: sac_init_asset_def has_asset_info_def ok_simps)
  have "keeps (\<lambda>h. sac_balances (sacs h c) (Contract d)) (sac_init_asset X c i)"
    unfolding sac_init_asset_def write_administrator_def write_asset_info_def set_metadata_def
    by (auto intro!: keeps_rules split: option.splits)
  from keepsD [OF this assms(1)] none assms(2) show ?thesis
    by (auto simp: clawable_def is_asset_clawback_enabled_def is_asset_issuer_flag_set_def read_asset_info_def get_instance_def
        split: option.splits)
qed

lemma token_step_clawable:
  assumes "token_step X c h h'" and "clawable c d h = Inr False"
  shows "clawable c d h' = Inr False"
proof -
  have "claw c h' = claw c h \<or> (\<exists>i. sac_init_asset X c i h = Inr h')"
    using assms(1) by cases (auto dest: claw_functions [THEN keepsD] claw_reads [THEN keepsqD])
  then show ?thesis
    using init_asset_claw assms(2) by (auto simp: claw_def fun_eq_iff)
qed

text \<open>An allowance is given only with the authorization of its owner.\<close>

lemma write_allowance_other:
  assumes "write_allowance c a s n l h = Inr h'" and "y \<noteq> (a, s)"
  shows "sac_allowances (sacs h' c) y = sac_allowances (sacs h c) y"
proof -
  have "keeps (\<lambda>h. sac_allowances (sacs h c) y) (write_allowance c a s n l)"
    unfolding write_allowance_def put_allowance_def extend_allowance_ttl_def
    by (intro keeps_rules) (use assms(2) in \<open>auto intro!: keeps_rules split: option.splits\<close>)
  then show ?thesis
    using assms(1) by (rule keepsD)
qed

lemma approve_allowances:
  assumes "sac_approve X c a s n l h = Inr h'"
  shows "has_authorized X a h \<and> (\<forall>y. y \<noteq> (a, s) \<longrightarrow> sac_allowances (sacs h' c) y = sac_allowances (sacs h c) y)"
proof -
  from assms obtain g h1 h2 where st: "require_auth X a h = Inr g" "extend_sac_instance g = Inr h1"
      "write_allowance c a s n l h1 = Inr h2" "sac_event c ''approve'' [a, s] (SVec [SI128 n, SU32 l]) h2 = Inr h'"
    by (auto simp: sac_approve_def check_nonnegative_amount_def event_approve_def ok_simps)
  have "alw c h1 = alw c h" "alw c h' = alw c h2"
    using keepsD [OF alw_host(1) st(1)] keepsD [OF alw_checks(3) st(2)] keepsD [OF alw_checks(4) st(4)] by simp_all
  then show ?thesis
    using require_auth_authorized [OF st(1)] write_allowance_other [OF st(3)] by (simp add: alw_def)
qed

lemma transfer_from_none:
  assumes "sac_transfer_from X c s a b n h = Inr h'" and "sac_allowances (sacs h c) (a, s) = None"
  shows "n = 0"
  using delegated_transfer_spends_allowance [OF assms(1)] no_allowance_zero [OF assms(2)] by auto

lemma transfer_from_zero:
  assumes "sac_transfer_from X c s a b 0 h = Inr h'"
  shows "sac_allowances (sacs h' c) y = sac_allowances (sacs h c) y"
proof -
  have "spend_allowance c a s 0 g = Inr g' \<Longrightarrow> g' = g" for g g' :: "'a sac_host_scheme"
    by (auto simp: spend_allowance_def ok_simps split: if_splits)
  then have "keeps (alw c) (spend_allowance c a s 0 :: ('a sac_host_scheme, host_error) step)"
    by (auto simp: keeps_def)
  then have "keeps (alw c) (sac_transfer_from X c s a b 0 :: ('a sac_host_scheme, host_error) step)"
    unfolding sac_transfer_from_def by (intro keeps_rules view_rules)
  from keepsD [OF this assms] show ?thesis
    by (simp add: alw_def)
qed

lemma token_step_allowances:
  assumes "token_step X c h h'" and "\<not> has_authorized X a h" and none: "\<And>s. sac_allowances (sacs h c) (a, s) = None"
  shows "sac_allowances (sacs h' c) (a, s) = None"
proof -
  have keep: ?thesis if "alw c h' = alw c h"
    using that none by (simp add: alw_def)
  from assms(1) show ?thesis
  proof cases
    case (approve b s' n l)
    then show ?thesis
      using approve_allowances [OF approve] assms(2) none by fastforce
  next
    case (transfer_from s' b b' n)
    then show ?thesis
      using delegated_transfer_spends_allowance [OF transfer_from] transfer_from_none [OF transfer_from]
        transfer_from_zero [of X c s' b b' h h'] none by (cases "(a, s) = (b, s')") auto
  next
    case (burn_from s' b n)
    from burn_from obtain v where v: "0 \<le> n" "read_allowance c b s' h = Inr v" "n \<le> v"
      and same: "\<And>y. y \<noteq> (b, s') \<or> n = 0 \<Longrightarrow> sac_allowances (sacs h' c) y = sac_allowances (sacs h c) y"
      by (rule sac_burn_from_ok) blast
    have "n = 0" if "b = a"
      using no_allowance_zero [OF _ v(2)] v none that by simp
    then show ?thesis
      using same [of "(a, s)"] none by auto
  qed (auto intro!: keep dest: alw_functions [THEN keepsD] keepsD [OF alw_init_asset] alw_reads [THEN keepsqD])
qed

text \<open>No call that a safe contract has not authorized takes from its balance.\<close>

lemma token_step_bal:
  assumes "token_step X c h h'" and "holds_safely c d h" and "\<not> has_authorized X (Contract d) h"
  shows "sac_bal c h (Contract d) \<le> sac_bal c h' (Contract d)"
  using assms(1)
proof cases
  case (transfer a b n)
  have "a \<noteq> Contract d" "0 \<le> n"
    using transfer assms(3) by (auto elim!: sac_transfer_ok)
  then show ?thesis
    using sac_transfer_bal [OF transfer, of "Contract d"] by simp
next
  case (transfer_from s a b n)
  note ok = delegated_transfer_spends_allowance [OF transfer_from]
  have "n = 0" if "a = Contract d"
    using transfer_from_none [OF transfer_from] assms(2) that by (simp add: holds_safely_def)
  then show ?thesis
    using ok by auto
next
  case (burn a n)
  then show ?thesis
    using sac_burn_ok [OF burn, of d] assms(3) by (auto split: if_splits)
next
  case (burn_from s a n)
  from burn_from obtain v where v: "0 \<le> n" "read_allowance c a s h = Inr v" "n \<le> v"
    and bal: "\<And>d. sac_bal c h' (Contract d) = sac_bal c h (Contract d) - (if Contract d = a then n else 0)"
    by (rule sac_burn_from_ok) blast
  have "n = 0" if "a = Contract d"
    using no_allowance_zero [OF _ v(2)] v(1,3) assms(2) that by (simp add: holds_safely_def)
  then show ?thesis
    using bal [of d] by auto
next
  case (clawback a n)
  then show ?thesis
    using sac_clawback_ok [OF clawback, of d] assms(2) by (auto simp: holds_safely_def split: if_splits)
qed (simp_all add: sac_mint_bal sac_set_authorized_bal keepsD [OF sac_bal_approve [where t = c]]
    keepsD [OF sac_set_admin_bal [where c = c and d = d]] keepsD [OF sac_init_asset_bal [where c = c and d = d]]
    keepsqD [OF sac_bal_balance [where c = c]] sac_bal_reads [where t = c, THEN keepsqD])

lemma token_step_safe:
  assumes "token_step X c h h'" and "holds_safely c d h" and "\<not> has_authorized X (Contract d) h"
  shows "holds_safely c d h'"
  using assms token_step_clawable [OF assms(1)] token_step_allowances [OF assms(1,3)] by (simp add: holds_safely_def)

end
