(* ===== verification/Held_Tokens.thy ===== *)
theory Held_Tokens
  imports Campaign_Escrow_Laws Token_Steps
begin

text \<open>
  No function of the escrow or of a pool gives an allowance or changes what can be clawed back:
  each of them keeps the views \<open>alw\<close> and \<open>claw\<close> of \<open>Token_Steps\<close>.
\<close>

text \<open>No function of the escrow or of a pool changes an allowance or what can be clawed back.\<close>

lemma held_upd_pool [view_rules]: "keeps (alw t) (upd_pool d f)" "keeps (claw t) (upd_pool d f)"
proof -
  show "keeps (alw t) (upd_pool d f)"
    by (rule keepsI) (auto simp: upd_pool_def ok_simps alw_def)
  show "keeps (claw t) (upd_pool d f)"
    by (rule keepsI, rule claw_cong) (auto simp: upd_pool_def ok_simps)
qed

lemma held_upd_escrow [view_rules]: "keeps (alw t) (upd_escrow d f)" "keeps (claw t) (upd_escrow d f)"
proof -
  show "keeps (alw t) (upd_escrow d f)"
    by (rule keepsI) (auto simp: upd_escrow_def ok_simps alw_def)
  show "keeps (claw t) (upd_escrow d f)"
    by (rule keepsI, rule claw_cong) (auto simp: upd_escrow_def ok_simps)
qed

lemma alw_authorize [view_rules]: "keeps (alw t) (authorize_as_curr_contract es)"
  by (rule keepsI) (auto simp: alw_def dest!: authorize_as_curr_contract_shape)

lemma held_blind: "call_blind (alw t)" "call_blind (claw t)"
  by (simp_all add: call_blind_def alw_def claw_blind [unfolded call_blind_def])

lemma pool_slots_alw [view_rules]:
  "keeps (alw t) (set_credited d k b)"
  "keeps (alw t) (extend_credited d k)"
  "keeps (alw t) (set_manifest d k m)"
  "keeps (alw t) (extend_manifest d k)"
  "keeps (alw t) (set_allocation d j a)"
  "keeps (alw t) (extend_allocation d j)"
  "keeps (alw t) (pool_init d)"
  "keepsq (alw t) (stored_total_liability d)"
  "keepsq (alw t) (total_credited d)"
  "keepsq (alw t) (total_paid d)"
  "keepsq (alw t) (pool_balance d)"
  unfolding set_credited_def extend_credited_def set_manifest_def extend_manifest_def set_allocation_def
    extend_allocation_def pool_init_def extend_instance_def stored_total_liability_def total_credited_def total_paid_def
    pool_balance_def
  by (intro keeps_rules view_rules)+

lemma pool_slots_claw [view_rules]:
  "keeps (claw t) (set_credited d k b)"
  "keeps (claw t) (extend_credited d k)"
  "keeps (claw t) (set_manifest d k m)"
  "keeps (claw t) (extend_manifest d k)"
  "keeps (claw t) (set_allocation d j a)"
  "keeps (claw t) (extend_allocation d j)"
  "keeps (claw t) (pool_init d)"
  "keepsq (claw t) (stored_total_liability d)"
  "keepsq (claw t) (total_credited d)"
  "keepsq (claw t) (total_paid d)"
  "keepsq (claw t) (pool_balance d)"
  unfolding set_credited_def extend_credited_def set_manifest_def extend_manifest_def set_allocation_def
    extend_allocation_def pool_init_def extend_instance_def stored_total_liability_def total_credited_def total_paid_def
    pool_balance_def
  by (intro keeps_rules view_rules)+

lemma pool_loops_alw [view_rules]: "keeps (alw t) (write_allocations d k i xs)" "keeps (alw t) (extend_allocations d k is)"
  by (induction d k i xs rule: write_allocations.induct; auto intro!: keeps_rules view_rules)
    (induction d k "is" rule: extend_allocations.induct; auto intro!: keeps_rules view_rules)

lemma pool_available_alw [view_rules]: "keepsq (alw t) (available_balance d)"
  unfolding available_balance_def by (auto intro!: keeps_rules view_rules)

lemma pool_loops_claw [view_rules]: "keeps (claw t) (write_allocations d k i xs)" "keeps (claw t) (extend_allocations d k is)"
  by (induction d k i xs rule: write_allocations.induct; auto intro!: keeps_rules view_rules)
    (induction d k "is" rule: extend_allocations.induct; auto intro!: keeps_rules view_rules)

lemma pool_available_claw [view_rules]: "keepsq (claw t) (available_balance d)"
  unfolding available_balance_def by (auto intro!: keeps_rules view_rules)

lemma pool_functions_alw [view_rules]:
  "keeps (alw t) (pool_initialize X d g e tok esc dep salt)"
  "keeps (alw t) (pool_record_credit X d k n)"
  "keeps (alw t) (pool_publish_manifest X d k mh ph ex rs ns)"
  "keeps (alw t) (pool_claim X d k i)"
  "keeps (alw t) (pool_expire_manifest d k)"
  "keeps (alw t) (pool_propose_role X d role a)"
  "keeps (alw t) (pool_accept_role X d role)"
  "keeps (alw t) (pool_pause X d)"
  "keeps (alw t) (pool_unpause X d)"
  "keeps (alw t) (pool_extend_instance_ttl d)"
  "keeps (alw t) (pool_extend_manifest_ttl d k)"
  unfolding pool_initialize_def pool_record_credit_def pool_publish_manifest_def pool_claim_def pool_expire_manifest_def
    pool_propose_role_def pool_accept_role_def pool_pause_def pool_unpause_def pool_extend_instance_ttl_def
    pool_extend_manifest_ttl_def pool_get_manifest_def pool_get_allocation_def pool_total_liability_def pool_is_paused_def
    pool_governance_def pool_eligibility_authority_def pool_escrow_contract_def pool_token_contract_def with_manifest_def
    extend_instance_def
  by (auto intro!: keeps_rules view_rules split: option.splits)

lemma pool_reads_alw [view_rules]:
  "keepsq (alw t) (pool_get_manifest d k)"
  "keepsq (alw t) (pool_get_allocation d k i)"
  "keepsq (alw t) (pool_total_liability d)"
  "keepsq (alw t) (pool_is_paused d)"
  "keepsq (alw t) (pool_governance d)"
  "keepsq (alw t) (pool_eligibility_authority d)"
  "keepsq (alw t) (pool_escrow_contract d)"
  "keepsq (alw t) (pool_token_contract d)"
  unfolding pool_initialize_def pool_record_credit_def pool_publish_manifest_def pool_claim_def pool_expire_manifest_def
    pool_propose_role_def pool_accept_role_def pool_pause_def pool_unpause_def pool_extend_instance_ttl_def
    pool_extend_manifest_ttl_def pool_get_manifest_def pool_get_allocation_def pool_total_liability_def pool_is_paused_def
    pool_governance_def pool_eligibility_authority_def pool_escrow_contract_def pool_token_contract_def with_manifest_def
    extend_instance_def
  by (auto intro!: keeps_rules view_rules split: option.splits)

lemma pool_functions_claw [view_rules]:
  "keeps (claw t) (pool_initialize X d g e tok esc dep salt)"
  "keeps (claw t) (pool_record_credit X d k n)"
  "keeps (claw t) (pool_publish_manifest X d k mh ph ex rs ns)"
  "keeps (claw t) (pool_claim X d k i)"
  "keeps (claw t) (pool_expire_manifest d k)"
  "keeps (claw t) (pool_propose_role X d role a)"
  "keeps (claw t) (pool_accept_role X d role)"
  "keeps (claw t) (pool_pause X d)"
  "keeps (claw t) (pool_unpause X d)"
  "keeps (claw t) (pool_extend_instance_ttl d)"
  "keeps (claw t) (pool_extend_manifest_ttl d k)"
  unfolding pool_initialize_def pool_record_credit_def pool_publish_manifest_def pool_claim_def pool_expire_manifest_def
    pool_propose_role_def pool_accept_role_def pool_pause_def pool_unpause_def pool_extend_instance_ttl_def
    pool_extend_manifest_ttl_def pool_get_manifest_def pool_get_allocation_def pool_total_liability_def pool_is_paused_def
    pool_governance_def pool_eligibility_authority_def pool_escrow_contract_def pool_token_contract_def with_manifest_def
    extend_instance_def
  by (auto intro!: keeps_rules view_rules split: option.splits)

lemma pool_reads_claw [view_rules]:
  "keepsq (claw t) (pool_get_manifest d k)"
  "keepsq (claw t) (pool_get_allocation d k i)"
  "keepsq (claw t) (pool_total_liability d)"
  "keepsq (claw t) (pool_is_paused d)"
  "keepsq (claw t) (pool_governance d)"
  "keepsq (claw t) (pool_eligibility_authority d)"
  "keepsq (claw t) (pool_escrow_contract d)"
  "keepsq (claw t) (pool_token_contract d)"
  unfolding pool_initialize_def pool_record_credit_def pool_publish_manifest_def pool_claim_def pool_expire_manifest_def
    pool_propose_role_def pool_accept_role_def pool_pause_def pool_unpause_def pool_extend_instance_ttl_def
    pool_extend_manifest_ttl_def pool_get_manifest_def pool_get_allocation_def pool_total_liability_def pool_is_paused_def
    pool_governance_def pool_eligibility_authority_def pool_escrow_contract_def pool_token_contract_def with_manifest_def
    extend_instance_def
  by (auto intro!: keeps_rules view_rules split: option.splits)

lemma pool_read_held: "pool_read d h h' \<Longrightarrow> alw t h' = alw t h" "pool_read d h h' \<Longrightarrow> claw t h' = claw t h"
  by (erule pool_read_keeps; rule pool_reads_alw pool_available_alw pool_reads_claw pool_available_claw)+

lemma pool_step_held: "pool_step X d h h' \<Longrightarrow> alw t h' = alw t h \<and> claw t h' = claw t h"
  by (induction rule: pool_step.induct)
    (auto dest: pool_functions_alw [where t = t, THEN keepsD] pool_functions_claw [where t = t, THEN keepsD]
      pool_read_held [where t = t])

lemma escrow_slots_alw [view_rules]:
  "keeps (alw t) (set_campaign c k x)"
  "keeps (alw t) (extend_campaign c k)"
  "keeps (alw t) (set_consumed c j b)"
  "keeps (alw t) (extend_consumed c j)"
  "keeps (alw t) (escrow_extend_instance)"
  "keeps (alw t) (escrow_init c)"
  "keeps (alw t) (check_deficit c tok l n)"
  "keeps (alw t) (authorize_pool_credit p k n)"
  "keeps (alw t) (call_record_credit X p k n)"
  unfolding set_campaign_def extend_campaign_def set_consumed_def extend_consumed_def escrow_extend_instance_def escrow_init_def
    check_deficit_def authorize_pool_credit_def call_record_credit_def
  by (auto intro!: keeps_rules keeps_call held_blind view_rules)

lemma escrow_slots_claw [view_rules]:
  "keeps (claw t) (set_campaign c k x)"
  "keeps (claw t) (extend_campaign c k)"
  "keeps (claw t) (set_consumed c j b)"
  "keeps (claw t) (extend_consumed c j)"
  "keeps (claw t) (escrow_extend_instance)"
  "keeps (claw t) (escrow_init c)"
  "keeps (claw t) (check_deficit c tok l n)"
  "keeps (claw t) (authorize_pool_credit p k n)"
  "keeps (claw t) (call_record_credit X p k n)"
  unfolding set_campaign_def extend_campaign_def set_consumed_def extend_consumed_def escrow_extend_instance_def escrow_init_def
    check_deficit_def authorize_pool_credit_def call_record_credit_def
  by (auto intro!: keeps_rules keeps_call held_blind view_rules)

lemma escrow_pay_alw [view_rules]:
  "keeps (alw t) (pay_pool X c tok key k n)"
  unfolding pay_pool_def
  by (intro keeps_rules view_rules)+

lemma escrow_pay_claw [view_rules]:
  "keeps (claw t) (pay_pool X c tok key k n)"
  unfolding pay_pool_def
  by (intro keeps_rules view_rules)+

lemma escrow_settle_alw [view_rules]:
  "keeps (alw t) (settle X c tok k x)"
  unfolding settle_def
  by (intro keeps_rules view_rules)+

lemma escrow_settle_claw [view_rules]:
  "keeps (claw t) (settle X c tok k x)"
  unfolding settle_def
  by (intro keeps_rules view_rules)+

lemma escrow_functions_alw [view_rules]:
  "keeps (alw t) (escrow_fund X c k sp n)"
  "keeps (alw t) (escrow_activate X c k cr rf terms)"
  "keeps (alw t) (escrow_complete X c k v)"
  "keeps (alw t) (escrow_refund_expired X c k)"
  "keeps (alw t) (escrow_propose X c role a)"
  "keeps (alw t) (escrow_accept X c role)"
  "keeps (alw t) (escrow_pause X c)"
  "keeps (alw t) (escrow_unpause X c)"
  "keeps (alw t) (escrow_extend_instance_ttl c)"
  "keeps (alw t) (escrow_extend_campaign_ttl c k)"
  unfolding escrow_fund_def escrow_activate_def escrow_complete_def escrow_refund_expired_def escrow_propose_def escrow_accept_def
    escrow_pause_def escrow_unpause_def escrow_extend_instance_ttl_def escrow_extend_campaign_ttl_def escrow_read_defs
  by (auto intro!: keeps_rules view_rules split: option.splits)

lemma escrow_reads_alw [view_rules]:
  "keepsq (alw t) (escrow_get_campaign c k)"
  "keepsq (alw t) (escrow_config_version c)"
  "keepsq (alw t) (escrow_pool_destinations c)"
  "keepsq (alw t) (escrow_token_contract c)"
  "keepsq (alw t) (escrow_service_treasury c)"
  "keepsq (alw t) (escrow_is_paused c)"
  "keepsq (alw t) (escrow_governance c)"
  "keepsq (alw t) (escrow_settlement_authority c)"
  unfolding escrow_fund_def escrow_activate_def escrow_complete_def escrow_refund_expired_def escrow_propose_def escrow_accept_def
    escrow_pause_def escrow_unpause_def escrow_extend_instance_ttl_def escrow_extend_campaign_ttl_def escrow_read_defs
  by (auto intro!: keeps_rules view_rules split: option.splits)

lemma escrow_functions_claw [view_rules]:
  "keeps (claw t) (escrow_fund X c k sp n)"
  "keeps (claw t) (escrow_activate X c k cr rf terms)"
  "keeps (claw t) (escrow_complete X c k v)"
  "keeps (claw t) (escrow_refund_expired X c k)"
  "keeps (claw t) (escrow_propose X c role a)"
  "keeps (claw t) (escrow_accept X c role)"
  "keeps (claw t) (escrow_pause X c)"
  "keeps (claw t) (escrow_unpause X c)"
  "keeps (claw t) (escrow_extend_instance_ttl c)"
  "keeps (claw t) (escrow_extend_campaign_ttl c k)"
  unfolding escrow_fund_def escrow_activate_def escrow_complete_def escrow_refund_expired_def escrow_propose_def escrow_accept_def
    escrow_pause_def escrow_unpause_def escrow_extend_instance_ttl_def escrow_extend_campaign_ttl_def escrow_read_defs
  by (auto intro!: keeps_rules view_rules split: option.splits)

lemma escrow_reads_claw [view_rules]:
  "keepsq (claw t) (escrow_get_campaign c k)"
  "keepsq (claw t) (escrow_config_version c)"
  "keepsq (claw t) (escrow_pool_destinations c)"
  "keepsq (claw t) (escrow_token_contract c)"
  "keepsq (claw t) (escrow_service_treasury c)"
  "keepsq (claw t) (escrow_is_paused c)"
  "keepsq (claw t) (escrow_governance c)"
  "keepsq (claw t) (escrow_settlement_authority c)"
  unfolding escrow_fund_def escrow_activate_def escrow_complete_def escrow_refund_expired_def escrow_propose_def escrow_accept_def
    escrow_pause_def escrow_unpause_def escrow_extend_instance_ttl_def escrow_extend_campaign_ttl_def escrow_read_defs
  by (auto intro!: keeps_rules view_rules split: option.splits)

lemma call_pool_query_keeps:
  assumes "call_blind g" and "\<And>p h v h'. body p h = Inr (v, h') \<Longrightarrow> h' = h"
  shows "keepsq g (call_pool_query pool fn body)"
proof (rule keepsqI)
  fix h v h' assume "call_pool_query pool fn body h = Inr (v, h')"
  then obtain p where p: "call_query p (Wasm ContributorPool) fn [] (body p) h = Inr (v, h')"
    by (auto simp: call_pool_query_def ok_simps)
  have "keepsq g (body p)"
    using assms(2) by (auto simp: keepsq_def)
  then show "g h' = g h"
    using keepsqD [OF keepsq_call p] assms(1) by blast
qed

lemma pool_reads_only:
  "pool_escrow_contract p h = Inr (v, h') \<Longrightarrow> h' = h"
  "pool_token_contract p h = Inr (v, h') \<Longrightarrow> h' = h"
  by (auto simp: pool_escrow_contract_def pool_token_contract_def ok_simps)

lemma escrow_initialize_held:
  "keeps (alw t) (escrow_initialize X c g sa tok tr nft rvp dep salt)"
  "keeps (claw t) (escrow_initialize X c g sa tok tr nft rvp dep salt)"
  unfolding escrow_initialize_def
  by (auto intro!: keeps_rules view_rules call_pool_query_keeps held_blind dest: pool_reads_only)

lemma escrow_read_held: "escrow_read d h h' \<Longrightarrow> alw t h' = alw t h" "escrow_read d h h' \<Longrightarrow> claw t h' = claw t h"
  by (erule escrow_read_keeps; rule escrow_reads_alw escrow_reads_claw)+

lemma escrow_step_held: "escrow_step X d h h' \<Longrightarrow> alw t h' = alw t h \<and> claw t h' = claw t h"
  by (induction rule: escrow_step.induct)
    (auto dest: escrow_functions_alw [where t = t, THEN keepsD] escrow_functions_claw [where t = t, THEN keepsD]
      escrow_initialize_held [where t = t, THEN keepsD] escrow_read_held [where t = t])

text \<open>So a call of the escrow or of a pool leaves every contract as safe with the asset as it was.\<close>

lemma contracts_keep_safe:
  "escrow_step X e h h' \<Longrightarrow> holds_safely t d h' = holds_safely t d h"
  "pool_step X r g g' \<Longrightarrow> holds_safely t d g' = holds_safely t d g"
  by (rule holds_safely_keep; simp add: escrow_step_held pool_step_held)+

end
