(* ===== verification/Settlement_System.thy ===== *)
theory Settlement_System
  imports Held_Tokens
begin

text \<open>
  The escrow, its two pools and the settlement token as one system.  \<open>system_step\<close> is a call from
  outside to any of the contracts, in any order, or the passing of time; \<open>system_inv\<close> ties the
  contracts together: the escrow and both pools keep their books and hold the tokens they owe,
  and what a pool was credited is the pool's share of the campaigns the escrow has completed.
  \<open>system_step_books\<close> shows that every step keeps the books, \<open>system_step_inv\<close> that every step
  keeps the whole, as long as nobody can spend or claw back for the three contracts.  The last section shows that a refund of an
  expired campaign can only be refused by the token.
\<close>

section \<open>What a pool's step leaves alone\<close>

definition pool_frame :: "hash32 \<Rightarrow> escrow_host \<Rightarrow> escrow_host \<Rightarrow> bool" where
  "pool_frame c h h' \<longleftrightarrow> (\<exists>f. pool_eff c f h h' \<and> p_governance (f (pool_abs (pools h c))) \<noteq> None
     \<and> p_escrow (f (pool_abs (pools h c))) = p_escrow (pools h c)
     \<and> credited_of (f (pool_abs (pools h c))) = credited_of (pools h c))"

lemma pool_frameI:
  "pool_eff c f h h' \<Longrightarrow> p_governance (f (pool_abs (pools h c))) \<noteq> None \<Longrightarrow>
     p_escrow (f (pool_abs (pools h c))) = p_escrow (pools h c) \<Longrightarrow>
     credited_of (f (pool_abs (pools h c))) = credited_of (pools h c) \<Longrightarrow> pool_frame c h h'"
  by (auto simp: pool_frame_def)

lemmas frame_simps = pool_abs_instance credited_of_def unwrap_or_def

text \<open>Only the escrow can credit a pool, so a call from outside leaves the credits alone.\<close>

lemma record_credit_inside:
  assumes "pool_record_credit X c k n h = Inr h'" and "p_escrow (pools h c) = Some e"
  shows "has_authorized X e h"
proof -
  from assms(1) obtain h1 e' h2 where i: "pool_init c h = Inr h1" "p_escrow (pools h1 c) = Some e'" "require_auth X e' h1 = Inr h2"
    by (auto simp: pool_record_credit_def pool_escrow_def ok_simps)
  have "pools h1 = pools h"
    using pool_init_quiet [OF i(1)] pool_quietD by blast
  then show ?thesis
    using pool_require_auth_authorized [OF i(1,3)] i(2) assms(2) by simp
qed

lemma pool_step_frame:
  assumes "pool_step X c h h'" and g: "p_governance (pools h c) \<noteq> None"
    and "p_escrow (pools h c) = Some e" and "\<not> has_authorized X e h"
  shows "pool_frame c h h'"
  using assms(1)
proof cases
  case (initialize g e tok esc dep salt)
  then show ?thesis
    using pool_initialize_ok [OF initialize] assms(2) by simp
next
  case (record_credit k n)
  then show ?thesis
    using record_credit_inside [OF record_credit assms(3)] assms(4) by simp
next
  case (publish_manifest k mh ph ex rs ns)
  then have "pool_eff c (spec_publish k mh ph ex (zip rs ns)) h h'"
    by (rule pool_publish_manifest_ok)
  then show ?thesis
    by (rule pool_frameI) (use g in \<open>simp_all add: spec_publish_def frame_simps\<close>)
next
  case (claim k i)
  then obtain m l a l' where "p_manifests (pools h c) k = Some (m, l)" "p_allocations (pools h c) (k, i) = Some (a, l')"
    by (rule pool_claim_ok)
  then have "pool_eff c (spec_claim k i m a) h h'"
    using pool_claim_eff [OF claim] by simp
  then show ?thesis
    by (rule pool_frameI) (use g in \<open>simp_all add: spec_claim_def frame_simps\<close>)
next
  case (expire_manifest k)
  then obtain m where "pool_eff c (spec_expire k m) h h'"
    by (rule pool_expire_manifest_ok)
  then show ?thesis
    by (rule pool_frameI) (use g in \<open>simp_all add: spec_expire_def frame_simps\<close>)
next
  case (propose_role role a)
  then show ?thesis
    by (rule pool_frameI [OF pool_propose_role_eff]) (use g in \<open>simp_all add: frame_simps\<close>)
next
  case (accept_role role)
  then obtain a where "pool_eff c (spec_accept role a) h h'"
    by (rule pool_accept_role_ok)
  then show ?thesis
    by (rule pool_frameI) (use g in \<open>simp_all add: spec_accept_def frame_simps\<close>)
next
  case pause
  then show ?thesis
    by (rule pool_frameI [OF pool_pause_eff(1)]) (use g in \<open>simp_all add: frame_simps\<close>)
next
  case unpause
  then show ?thesis
    by (rule pool_frameI [OF pool_pause_eff(2)]) (use g in \<open>simp_all add: frame_simps\<close>)
next
  case extend_instance_ttl
  then show ?thesis
    by (rule pool_frameI [OF pool_extend_ttl_eff(1)]) (use g in \<open>simp_all add: frame_simps\<close>)
next
  case (extend_manifest_ttl k)
  then show ?thesis
    by (rule pool_frameI [OF pool_extend_ttl_eff(2)]) (use g in \<open>simp_all add: frame_simps\<close>)
next
  case reads
  then show ?thesis
    by (rule pool_frameI [OF pool_read_eff]) (use g in \<open>simp_all add: frame_simps\<close>)
qed

lemma pool_frameD:
  assumes "pool_frame c h h'"
  shows "escrows h' = escrows h" and "d \<noteq> c \<Longrightarrow> pools h' d = pools h d" and "p_governance (pools h' c) \<noteq> None"
    and "p_escrow (pools h' c) = p_escrow (pools h c)" and "credited_of (pools h' c) = credited_of (pools h c)"
proof -
  obtain f where f: "pool_eff c f h h'" "p_governance (f (pool_abs (pools h c))) \<noteq> None"
      "p_escrow (f (pool_abs (pools h c))) = p_escrow (pools h c)"
      "credited_of (f (pool_abs (pools h c))) = credited_of (pools h c)"
    using assms by (auto simp: pool_frame_def)
  have abs: "f (pool_abs (pools h c)) = pool_abs (pools h' c)"
    using f(1) by (simp add: pool_eff_def)
  show "d \<noteq> c \<Longrightarrow> pools h' d = pools h d"
    using f(1) by (rule pool_eff_other)
  show "p_governance (pools h' c) \<noteq> None" "p_escrow (pools h' c) = p_escrow (pools h c)"
      "credited_of (pools h' c) = credited_of (pools h c)"
    using f(2-4) unfolding abs by (simp_all add: pool_abs_instance)
  show "escrows h' = escrows h"
    using f(1) by (cases h; cases h') (simp add: pool_eff_def pool_view_def)
qed

lemma pool_step_balances:
  assumes "pool_step X c h h'" and "pool_inv (pools h c)" and "p_token (pools h c) = Some (Contract t)"
    and "p_governance (pools h c) \<noteq> None" and "d \<noteq> c"
  shows "sac_bal t h (Contract d) \<le> sac_bal t h' (Contract d)"
proof -
  have keep: "sac_bal t h (Contract d) \<le> sac_bal t h' (Contract d)" if "keeps (tok_view t c) f" "f h = Inr h'" for f
    using keepsD [OF that] by (simp add: tok_view_def)
  from assms(1) show ?thesis
  proof cases
    case (initialize g e tok esc dep salt)
    then show ?thesis
      using pool_initialize_ok [OF initialize] assms(4) by simp
  next
    case (claim k i)
    then obtain m l a l' where ma: "p_manifests (pools h c) k = Some (m, l)" "p_allocations (pools h c) (k, i) = Some (a, l')"
        "i < allocation_count m"
      by (rule pool_claim_ok)
    then have "0 < a_amount a"
      using pool_invD [OF assms(2) ma(1)] by (auto simp: manifest_inv_def)
    then show ?thesis
      using pool_claim_pays [OF claim assms(3) ma(2), of "Contract d"] assms(5) by simp
  next
    case reads
    then show ?thesis
      using tok_view_read [OF reads, of t c] by (simp add: tok_view_def)
  qed (fact keep [OF tok_view_record_credit] keep [OF tok_view_publish] keep [OF tok_view_expire]
    keep [OF tok_view_roles(1)] keep [OF tok_view_roles(2)] keep [OF tok_view_roles(3)] keep [OF tok_view_roles(4)]
    keep [OF tok_view_ttl(1)] keep [OF tok_view_ttl(2)])+
qed

section \<open>What an escrow's step leaves alone\<close>

lemma escrow_move_config:
  "escrow_move c now s s' \<Longrightarrow> e_governance s \<noteq> None \<Longrightarrow>
     e_governance s' \<noteq> None \<and> e_nft_pool s' = e_nft_pool s \<and> e_revenue_pool s' = e_revenue_pool s \<and> e_token s' = e_token s"
  by (induction rule: escrow_move.induct)
    (auto simp: spec_fund_def spec_complete_def spec_refund_def spec_escrow_accept_def)

lemma escrow_step_config:
  assumes "escrow_step X c h h'" and "e_governance (escrows h c) \<noteq> None"
  shows "e_governance (escrows h' c) \<noteq> None" and "e_nft_pool (escrows h' c) = e_nft_pool (escrows h c)"
    and "e_revenue_pool (escrows h' c) = e_revenue_pool (escrows h c)" and "e_token (escrows h' c) = e_token (escrows h c)"
  using escrow_move_config [OF conjunct1 [OF escrow_step_move [OF assms(1), unfolded moves_escrow_def]]] assms(2)
  by (simp_all add: escrow_abs_instance)

lemma escrow_pools_kept:
  "keeps pools (escrow_fund X c k sp n)"
  "keeps pools (escrow_activate X c k cr rf terms)"
  "keeps pools (escrow_refund_expired X c k)"
  "keeps pools (escrow_propose X c role a)"
  "keeps pools (escrow_accept X c role)"
  "keeps pools (escrow_pause X c)"
  "keeps pools (escrow_unpause X c)"
  "keeps pools (escrow_extend_instance_ttl c)"
  "keeps pools (escrow_extend_campaign_ttl c k)"
  unfolding escrow_fund_def escrow_activate_def escrow_refund_expired_def escrow_propose_def escrow_accept_def
    escrow_pause_def escrow_unpause_def escrow_extend_instance_ttl_def escrow_extend_campaign_ttl_def with_campaign_def
  by (auto intro!: keeps_rules view_rules split: option.splits)

lemma escrow_reads_pools:
  "keepsq pools (escrow_get_campaign c k)"
  "keepsq pools (escrow_config_version c)"
  "keepsq pools (escrow_pool_destinations c)"
  "keepsq pools (escrow_token_contract c)"
  "keepsq pools (escrow_service_treasury c)"
  "keepsq pools (escrow_is_paused c)"
  "keepsq pools (escrow_governance c)"
  "keepsq pools (escrow_settlement_authority c)"
  unfolding escrow_read_defs by (auto intro!: keeps_rules view_rules split: option.splits)

lemma escrow_read_pools: "escrow_read c h h' \<Longrightarrow> pools h' = pools h"
  by (erule escrow_read_keeps) (rule escrow_reads_pools)+

text \<open>Tokens leave only the escrow itself or an address that authorized the call.\<close>

definition pays_from :: "(address \<Rightarrow> bool) \<Rightarrow> leg list \<Rightarrow> bool" where
  "pays_from A ls \<longleftrightarrow> (\<forall>(a, b, n)\<in>set ls. A a \<and> 0 \<le> n)"

lemma net_not_payer: "pays_from A ls \<Longrightarrow> \<not> A c \<Longrightarrow> 0 \<le> net ls c"
  by (induction ls c rule: net.induct) (auto simp: pays_from_def)

text \<open>What the completed campaigns have paid under one share of the split.\<close>

definition settled :: "i128 \<Rightarrow> escrow_state \<Rightarrow> int" where
  "settled share s = map_sum (\<lambda>(x, _). if status x = Completed then part_of share (amount x) else 0) (e_campaigns s)"

lemma settled_abs: "settled share (escrow_abs s) = settled share s"
  by (simp add: settled_def escrow_abs_def map_sum_forgets)

lemma settled_upd:
  assumes "escrow_inv s" and "case e_campaigns s k of None \<Rightarrow> True | Some (x, _) \<Rightarrow> status x \<noteq> Completed"
  shows "map_sum (\<lambda>(x, _). if status x = Completed then part_of share (amount x) else 0) ((e_campaigns s)(k \<mapsto> (y, l)))
    = settled share s + (if status y = Completed then part_of share (amount y) else 0)"
  using assms by (subst map_sum_upd) (auto simp: escrow_inv_def settled_def split: option.splits)

lemma settled_eff:
  assumes "escrow_eff c f h h'" and "settled share (f (escrow_abs (escrows h c))) = settled share (escrow_abs (escrows h c)) + n"
  shows "settled share (escrows h' c) = settled share (escrows h c) + n"
  using assms settled_abs [of share "escrows h' c"] settled_abs [of share "escrows h c"] by (simp add: escrow_eff_def)

lemma settled_other:
  assumes "escrow_eff c f h h'" and "e_campaigns (f (escrow_abs (escrows h c))) = e_campaigns (escrow_abs (escrows h c))"
  shows "settled share (escrows h' c) = settled share (escrows h c)"
  using settled_eff [OF assms(1), of share 0] assms(2) by (simp add: settled_def)

lemma settled_campaign:
  assumes "escrow_eff c f h h'" and "escrow_inv (escrows h c)"
    and "e_campaigns (f (escrow_abs (escrows h c))) = (e_campaigns (escrow_abs (escrows h c)))(k \<mapsto> (y, 0))"
    and "case e_campaigns (escrows h c) k of None \<Rightarrow> True | Some (x, _) \<Rightarrow> status x \<noteq> Completed"
  shows "settled share (escrows h' c) = settled share (escrows h c)
    + (if status y = Completed then part_of share (amount y) else 0)"
proof (rule settled_eff [OF assms(1)])
  have "case e_campaigns (escrow_abs (escrows h c)) k of None \<Rightarrow> True | Some (x, _) \<Rightarrow> status x \<noteq> Completed"
    using assms(4) by (cases "e_campaigns (escrows h c) k") (auto simp: abs_campaign)
  then show "settled share (f (escrow_abs (escrows h c))) = settled share (escrow_abs (escrows h c))
      + (if status y = Completed then part_of share (amount y) else 0)"
    using settled_upd [of "escrow_abs (escrows h c)" k share y 0] assms(2,3) by (simp add: escrow_inv_abs settled_def)
qed

lemma escrow_step_cases:
  assumes "escrow_step X c h h'" and "e_governance (escrows h c) \<noteq> None" and "e_token (escrows h c) = Some (Contract t)"
    and "escrow_inv (escrows h c)"
  obtains (quiet) ls where "pools h' = pools h" and "sac.moved t ls h h'"
    and "pays_from (\<lambda>a. a = Contract c \<or> has_authorized X a h) ls"
    and "\<And>share. settled share (escrows h' c) = settled share (escrows h c)"
  | (complete) k v x l where "escrow_complete X c k v h = Inr h'" and "e_campaigns (escrows h c) k = Some (x, l)"
  using assms(1)
proof cases
  case (initialize g st tok tr nft rvp dep salt)
  then show ?thesis
    using escrow_initialize_ok [OF initialize] assms(2) by simp
next
  case (fund k sp n)
  note ok = escrow_fund_ok [OF fund]
  have "settled share (escrows h' c) = settled share (escrows h c)" for share
    using settled_campaign [OF ok(6) assms(4), of k "new_campaign c sp n (timestamp (ledger h))"] ok(1)
    by (simp add: spec_fund_def new_campaign_def)
  then show ?thesis
    using quiet [OF keepsD [OF escrow_pools_kept(1) fund] escrow_fund_moved [OF fund assms(3)]] escrow_fund_authorized [OF fund] ok(3)
    by (simp add: pays_from_def MINIMUM_CAMPAIGN_AMOUNT_def)
next
  case (refund k)
  then obtain x l where x: "e_campaigns (escrows h c) k = Some (x, l)" "status x = Active \<or> status x = Funded"
    by (rule escrow_refund_ok)
  have "settled share (escrows h' c) = settled share (escrows h c)" for share
    using settled_campaign [OF escrow_refund_eff(1) [OF refund x(1)] assms(4), of k "x\<lparr>status := Refunded\<rparr>"] x
    by (auto simp: spec_refund_def)
  then show ?thesis
    using quiet [OF keepsD [OF escrow_pools_kept(3) refund] escrow_refund_moved [OF refund x(1) assms(3)]]
      escrow_invD [OF assms(4) x(1)] by (simp add: pays_from_def campaign_inv_def MINIMUM_CAMPAIGN_AMOUNT_def)
next
  case (complete k v)
  then obtain x l where "e_campaigns (escrows h c) k = Some (x, l)"
    by (rule escrow_complete_ok)
  with complete show ?thesis
    using that(2) by blast
next
  case (activate k cr rf terms)
  then obtain x l where x: "e_campaigns (escrows h c) k = Some (x, l)" "status x = Funded"
    and eff: "escrow_eff c (\<lambda>s. s\<lparr>e_campaigns := (e_campaigns s)(k \<mapsto> (activated cr rf terms x, 0))\<rparr>) h h'"
    by (rule escrow_activate_ok)
  have "settled share (escrows h' c) = settled share (escrows h c)" for share
    using settled_campaign [OF eff assms(4), of k "activated cr rf terms x"] x by (simp add: activated_def)
  then show ?thesis
    using quiet [OF keepsD [OF escrow_pools_kept(2) activate] bal_view_moved [OF bal_view_others(1) activate]]
    by (simp add: pays_from_def)
next
  case (propose role a)
  show ?thesis
    using quiet [OF keepsD [OF escrow_pools_kept(4) propose] bal_view_moved [OF bal_view_others(2) propose]]
      settled_other [OF escrow_propose_eff [OF propose]] by (simp add: pays_from_def)
next
  case (accept role)
  then obtain a where "escrow_eff c (spec_escrow_accept role a) h h'"
    using escrow_accept_eff by blast
  then show ?thesis
    using quiet [OF keepsD [OF escrow_pools_kept(5) accept] bal_view_moved [OF bal_view_others(3) accept]]
      settled_other by (simp add: pays_from_def spec_escrow_accept_def)
next
  case pause
  show ?thesis
    using quiet [OF keepsD [OF escrow_pools_kept(6) pause] bal_view_moved [OF bal_view_others(4) pause]]
      settled_other [OF escrow_pause_eff(1) [OF pause]] by (simp add: pays_from_def)
next
  case unpause
  show ?thesis
    using quiet [OF keepsD [OF escrow_pools_kept(7) unpause] bal_view_moved [OF bal_view_others(5) unpause]]
      settled_other [OF escrow_pause_eff(2) [OF unpause]] by (simp add: pays_from_def)
next
  case extend_instance_ttl
  show ?thesis
    using quiet [OF keepsD [OF escrow_pools_kept(8) extend_instance_ttl]
        bal_view_moved [OF bal_view_others(6) extend_instance_ttl]]
      settled_other [OF escrow_ttl_eff(1) [OF extend_instance_ttl]] by (simp add: pays_from_def)
next
  case (extend_campaign_ttl k)
  show ?thesis
    using quiet [OF keepsD [OF escrow_pools_kept(9) extend_campaign_ttl]
        bal_view_moved [OF bal_view_others(7) extend_campaign_ttl]]
      settled_other [OF escrow_ttl_eff(2) [OF extend_campaign_ttl]] by (simp add: pays_from_def)
next
  case reads
  show ?thesis
    using quiet [OF escrow_read_pools [OF reads] sac_moved_none [OF bal_view_read [OF reads]]]
      settled_other [OF escrow_read_eff [OF reads]] by (simp add: pays_from_def)
qed

lemma escrow_complete_settled:
  assumes "escrow_complete X c k v h = Inr h'" and "e_campaigns (escrows h c) k = Some (x, l)" and "escrow_inv (escrows h c)"
  shows "settled share (escrows h' c) = settled share (escrows h c) + part_of share (amount x)"
proof -
  obtain x' l' where "e_campaigns (escrows h c) k = Some (x', l')" "status x' = Active"
    using assms(1) by (rule escrow_complete_ok)
  then show ?thesis
    using settled_campaign [OF escrow_complete_eff(1) [OF assms(1,2)] assms(3), of k "x\<lparr>status := Completed\<rparr>"] assms(2)
    by (simp add: spec_complete_def)
qed

section \<open>The deployed system\<close>

text \<open>A pool of the system: its invariant, its binding to the escrow, and its credits as the escrow's
  completed campaigns demand them; with \<open>pool_ok\<close>, also its solvency.\<close>

definition pool_books :: "hash32 \<Rightarrow> i128 \<Rightarrow> hash32 \<Rightarrow> escrow_host \<Rightarrow> bool" where
  "pool_books e share r h \<longleftrightarrow> pool_inv (pools h r) \<and> p_governance (pools h r) \<noteq> None
     \<and> p_escrow (pools h r) = Some (Contract e) \<and> credited_of (pools h r) = settled share (escrows h e)"

definition pool_ok :: "hash32 \<Rightarrow> hash32 \<Rightarrow> i128 \<Rightarrow> hash32 \<Rightarrow> escrow_host \<Rightarrow> bool" where
  "pool_ok t e share r h \<longleftrightarrow> pool_inv (pools h r) \<and> pool_solvent t r h \<and> p_governance (pools h r) \<noteq> None
     \<and> p_escrow (pools h r) = Some (Contract e) \<and> credited_of (pools h r) = settled share (escrows h e)"

definition system_inv :: "hash32 \<Rightarrow> hash32 \<Rightarrow> hash32 \<Rightarrow> hash32 \<Rightarrow> escrow_host \<Rightarrow> bool" where
  "system_inv t e p q h \<longleftrightarrow> distinct [e, p, q]
     \<and> escrow_inv (escrows h e) \<and> escrow_solvent t e h \<and> e_governance (escrows h e) \<noteq> None
     \<and> e_nft_pool (escrows h e) = Some (Contract p) \<and> e_revenue_pool (escrows h e) = Some (Contract q)
     \<and> pool_ok t e NFT_POOL p h \<and> pool_ok t e REVENUE q h"

text \<open>The invariant falls into two parts.  The books are kept whatever happens to the tokens; that the
  contracts hold what they owe needs that nobody can spend or claw back for them.\<close>

definition books_inv :: "hash32 \<Rightarrow> hash32 \<Rightarrow> hash32 \<Rightarrow> hash32 \<Rightarrow> escrow_host \<Rightarrow> bool" where
  "books_inv t e p q h \<longleftrightarrow> distinct [e, p, q] \<and> escrow_inv (escrows h e) \<and> e_token (escrows h e) = Some (Contract t)
     \<and> e_governance (escrows h e) \<noteq> None
     \<and> e_nft_pool (escrows h e) = Some (Contract p) \<and> e_revenue_pool (escrows h e) = Some (Contract q)
     \<and> pool_books e NFT_POOL p h \<and> pool_books e REVENUE q h"

definition solvent :: "hash32 \<Rightarrow> hash32 \<Rightarrow> hash32 \<Rightarrow> hash32 \<Rightarrow> escrow_host \<Rightarrow> bool" where
  "solvent t e p q h \<longleftrightarrow> escrow_solvent t e h \<and> pool_solvent t p h \<and> pool_solvent t q h"

lemma system_inv_split: "system_inv t e p q h \<longleftrightarrow> books_inv t e p q h \<and> solvent t e p q h"
  by (auto simp: system_inv_def books_inv_def solvent_def pool_ok_def pool_books_def escrow_solvent_def)

text \<open>A call from outside: none of the system's contracts has authorized it.  A transaction's own
  call is one as long as the contracts are no custom accounts (\<open>no_self_authorization\<close>).\<close>

definition outside :: "externals \<Rightarrow> hash32 list \<Rightarrow> escrow_host \<Rightarrow> bool" where
  "outside X cs h \<longleftrightarrow> (\<forall>c\<in>set cs. \<not> has_authorized X (Contract c) h)"

text \<open>Anybody may call any exported function of the escrow, of its pools and of the token, in any
  order; for minting it does not matter where the call comes from.  Between the calls other
  transactions run, the ledger closes, and classic operations change accounts and trustlines
  in any way that leaves the issuer's clawback flag as it is.\<close>

inductive system_step :: "externals \<Rightarrow> hash32 \<Rightarrow> hash32 \<Rightarrow> hash32 \<Rightarrow> hash32 \<Rightarrow> escrow_host \<Rightarrow> escrow_host \<Rightarrow> bool"
  for X t e p q where
  call_escrow: "outside X [e, p, q] h \<Longrightarrow> escrow_step X e h h' \<Longrightarrow> system_step X t e p q h h'"
| call_pool: "outside X [e, p, q] h \<Longrightarrow> r = p \<or> r = q \<Longrightarrow> pool_step X r h h' \<Longrightarrow> system_step X t e p q h h'"
| call_token: "outside X [e, p, q] h \<Longrightarrow> token_step X t h h' \<Longrightarrow> system_step X t e p q h h'"
| mint: "sac_mint X t a n h = Inr h' \<Longrightarrow> system_step X t e p q h h'"
| classic: "is_asset_clawback_enabled t (h\<lparr>account_entries := as, trustlines := ls\<rparr>) = is_asset_clawback_enabled t h \<Longrightarrow>
     system_step X t e p q h (h\<lparr>account_entries := as, trustlines := ls\<rparr>)"
| transaction: "system_step X t e p q h (h\<lparr>frames := fs, auth := m\<rparr>)"
| close_ledger: "system_step X t e p q h (h\<lparr>ledger := li\<rparr>)"

text \<open>The token contract and the host change neither the escrow nor a pool.\<close>

lemma more_system: "sac_host.more h' = sac_host.more (h :: escrow_host) \<Longrightarrow> escrows h' = escrows h \<and> pools h' = pools h"
  by (cases h; cases h') simp

lemma system_step_cases [consumes 1, case_names escrow pool other]:
  assumes "system_step X t e p q h h'"
  obtains (escrow) "outside X [e, p, q] h" and "escrow_step X e h h'"
  | (pool) r where "outside X [e, p, q] h" and "r = p \<or> r = q" and "pool_step X r h h'"
  | (other) "escrows h' = escrows h" and "pools h' = pools h"
  using assms by cases (auto dest: more_system [OF token_step_more] more_system [OF token_step_more [OF token_step.mint]])

lemma sac_view_system: "sac_view h' = sac_view (h :: escrow_host) \<Longrightarrow> escrows h' = escrows h \<and> pools h' = pools h"
  by (auto dest: more_system [OF sac_view_rest])

section \<open>The books\<close>

lemma pool_books_keep:
  "pool_books e share r h \<Longrightarrow> pools h' r = pools h r \<Longrightarrow> settled share (escrows h' e) = settled share (escrows h e) \<Longrightarrow>
     pool_books e share r h'"
  by (simp add: pool_books_def)

lemma pool_books_credited:
  assumes "pool_books e share r h" and "0 < n" and "pool_abs (pools h' r) = spec_credit k n (pool_abs (pools h r))"
    and "settled share (escrows h' e) = settled share (escrows h e) + n"
  shows "pool_books e share r h'"
proof -
  have "pool_inv (pools h' r)"
    using spec_credit_inv [of "pool_abs (pools h r)" n k] assms(1,2) pool_inv_abs [of "pools h' r"]
    by (simp add: pool_books_def pool_inv_abs assms(3))
  moreover have "p_governance (pool_abs (pools h' r)) \<noteq> None" "p_escrow (pool_abs (pools h' r)) = p_escrow (pools h r)"
      "credited_of (pool_abs (pools h' r)) = credited_of (pools h r) + n"
    using assms(1)
    by (simp_all add: assms(3) spec_credit_def pool_books_def credited_of_def pool_abs_instance unwrap_or_def)
  ultimately show ?thesis
    using assms(1,4) by (simp add: pool_books_def pool_abs_instance)
qed

lemma complete_books:
  assumes "books_inv t e p q h" and "escrow_complete X e k v h = Inr h'" and x: "e_campaigns (escrows h e) k = Some (x, l)"
  shows "pool_books e NFT_POOL p h' \<and> pool_books e REVENUE q h'"
proof -
  have i: "escrow_inv (escrows h e)" "pool_books e NFT_POOL p h" "pool_books e REVENUE q h"
      "e_nft_pool (escrows h e) = Some (Contract p)" "e_revenue_pool (escrows h e) = Some (Contract q)" "p \<noteq> q"
    using assms(1) by (simp_all add: books_inv_def)
  have min: "MINIMUM_CAMPAIGN_AMOUNT \<le> amount x"
    using escrow_invD [OF i(1) x] by (simp add: campaign_inv_def)
  show ?thesis
    using pool_books_credited [OF i(2) split_bounds(2) [OF min], of h' k] pool_books_credited [OF i(3) split_bounds(3) [OF min], of h' k]
      escrow_complete_credits [OF assms(2) x i(4-6)] escrow_complete_settled [OF assms(2) x i(1)] by simp
qed

lemma escrow_call_books:
  assumes "books_inv t e p q h" and "escrow_step X e h h'"
  shows "books_inv t e p q h'"
proof -
  have i: "escrow_inv (escrows h e)" "e_governance (escrows h e) \<noteq> None" "e_token (escrows h e) = Some (Contract t)"
      "pool_books e NFT_POOL p h" "pool_books e REVENUE q h"
    using assms(1) by (simp_all add: books_inv_def)
  have "pool_books e NFT_POOL p h' \<and> pool_books e REVENUE q h'"
    using assms(2) i(2,3,1)
  proof (cases rule: escrow_step_cases)
    case (quiet ls)
    then show ?thesis
      using pool_books_keep [OF i(4)] pool_books_keep [OF i(5)] by simp
  qed (rule complete_books [OF assms(1)])
  then show ?thesis
    using assms(1) escrow_step_inv [OF assms(2) i(1)] escrow_step_config [OF assms(2) i(2)] by (simp add: books_inv_def)
qed

lemma pool_call_books:
  assumes "books_inv t e p q h" and "outside X [e, p, q] h" and "r = p \<or> r = q" and "pool_step X r h h'"
  shows "books_inv t e p q h'"
proof -
  have i: "pool_books e NFT_POOL p h" "pool_books e REVENUE q h" "distinct [e, p, q]" "\<not> has_authorized X (Contract e) h"
    using assms(1,2) by (simp_all add: books_inv_def outside_def)
  have r: "pool_inv (pools h r)" "p_governance (pools h r) \<noteq> None" "p_escrow (pools h r) = Some (Contract e)"
    using i(1,2) assms(3) by (auto simp: pool_books_def)
  note frame = pool_frameD [OF pool_step_frame [OF assms(4) r(2,3) i(4)]]
  have "pool_books e share r h'" if "pool_books e share r h" for share
    using that frame pool_step_inv [OF assms(4) r(1)] by (simp add: pool_books_def)
  moreover have "pool_books e share c h'" if "pool_books e share c h" "c \<noteq> r" for share c
    using pool_books_keep [OF that(1)] that(2) frame(1,2) by simp
  ultimately have "pool_books e NFT_POOL p h' \<and> pool_books e REVENUE q h'"
    using i(1,2) by metis
  then show ?thesis
    using assms(1) frame(1) by (simp add: books_inv_def)
qed

lemma system_step_books:
  assumes "system_step X t e p q h h'" and "books_inv t e p q h"
  shows "books_inv t e p q h'"
  using assms(1)
proof (cases rule: system_step_cases)
  case other
  then show ?thesis
    using assms(2) by (simp add: books_inv_def pool_books_def)
qed (auto intro: escrow_call_books pool_call_books assms(2))

interpretation books: component "system_step X t e p q" "\<lambda>h. h" "books_inv t e p q" for X t e p q
  by unfold_locales (rule system_step_books)

section \<open>Solvency of the system\<close>

lemma solvent_keep:
  assumes "solvent t e p q h" and "escrows h' = escrows h" and "pools h' = pools h"
    and "\<And>c. c \<in> {e, p, q} \<Longrightarrow> sac_bal t h (Contract c) \<le> sac_bal t h' (Contract c)"
  shows "solvent t e p q h'"
  using assms by (fastforce simp: solvent_def escrow_solvent_def pool_solvent_def)

lemma pool_solvent_more:
  "pool_solvent t r h \<Longrightarrow> pools h' r = pools h r \<Longrightarrow> sac_bal t h (Contract r) \<le> sac_bal t h' (Contract r) \<Longrightarrow> pool_solvent t r h'"
  by (simp add: pool_solvent_def)

lemma pool_solvent_credited:
  assumes "pool_solvent t r h" and "pool_abs (pools h' r) = spec_credit k n (pool_abs (pools h r))"
    and "sac_bal t h (Contract r) + n \<le> sac_bal t h' (Contract r)"
  shows "pool_solvent t r h'"
proof -
  have "p_token (pool_abs (pools h' r)) = p_token (pools h r)"
      "credited_of (pool_abs (pools h' r)) = credited_of (pools h r) + n" "paid_of (pool_abs (pools h' r)) = paid_of (pools h r)"
    by (simp_all add: assms(2) spec_credit_def credited_of_def paid_of_def pool_abs_instance unwrap_or_def)
  then show ?thesis
    using assms(1,3) by (simp add: pool_solvent_def pool_abs_instance)
qed

lemma settle_legs_payee:
  assumes "MINIMUM_CAMPAIGN_AMOUNT \<le> amount x" and "np \<noteq> self" and "rp \<noteq> self" and "np \<noteq> rp"
  shows "part_of NFT_POOL (amount x) \<le> net (settle_legs self x tr np rp rf) np"
    and "part_of REVENUE (amount x) \<le> net (settle_legs self x tr np rp rf) rp"
  using split_bounds [OF assms(1)] assms by (auto simp: settle_legs_def MINIMUM_CAMPAIGN_AMOUNT_def)

lemma complete_pools_solvent:
  assumes "books_inv t e p q h" and "pool_solvent t p h" and "pool_solvent t q h"
    and "escrow_complete X e k v h = Inr h'" and x: "e_campaigns (escrows h e) k = Some (x, l)"
  shows "pool_solvent t p h' \<and> pool_solvent t q h'"
proof -
  have i: "escrow_inv (escrows h e)" "e_token (escrows h e) = Some (Contract t)"
      "e_nft_pool (escrows h e) = Some (Contract p)" "e_revenue_pool (escrows h e) = Some (Contract q)" "distinct [e, p, q]"
    using assms(1) by (simp_all add: books_inv_def)
  have min: "MINIMUM_CAMPAIGN_AMOUNT \<le> amount x"
    using escrow_invD [OF i(1) x] by (simp add: campaign_inv_def)
  from assms(4) x obtain tr rf where tr: "e_service_treasury (escrows h e) = Some tr" "referrer x = Some rf"
    by (rule escrow_complete_destinations)
  have legs: "sac.moved t (settle_legs (Contract e) x tr (Contract p) (Contract q) rf) h h'"
    using escrow_complete_moved [OF assms(4) x i(2) tr(1) i(3,4) tr(2)] .
  have bal: "sac_bal t h' (Contract c) = sac_bal t h (Contract c)
      + net (settle_legs (Contract e) x tr (Contract p) (Contract q) rf) (Contract c)" for c
    using sac.moved_bal [OF legs] by simp
  have payee: "part_of NFT_POOL (amount x) \<le> net (settle_legs (Contract e) x tr (Contract p) (Contract q) rf) (Contract p)"
      "part_of REVENUE (amount x) \<le> net (settle_legs (Contract e) x tr (Contract p) (Contract q) rf) (Contract q)"
    using settle_legs_payee [OF min, of "Contract p" "Contract e" "Contract q"] i(5) by auto
  show ?thesis
    using pool_solvent_credited [OF assms(2), of h' k] pool_solvent_credited [OF assms(3), of h' k]
      escrow_complete_credits [OF assms(4) x i(3,4)] i(5) payee bal [of p] bal [of q] by simp
qed

lemma outside_payer:
  assumes "outside X cs h" and "pays_from (\<lambda>a. a = Contract e \<or> has_authorized X a h) ls" and "c \<in> set cs" and "c \<noteq> e"
  shows "0 \<le> net ls (Contract c)"
  by (rule net_not_payer [OF assms(2)]) (use assms in \<open>auto simp: outside_def\<close>)

lemma escrow_call_solvent:
  assumes "books_inv t e p q h" and "solvent t e p q h" and "outside X [e, p, q] h" and "escrow_step X e h h'"
  shows "solvent t e p q h'"
proof -
  have i: "escrow_inv (escrows h e)" "e_governance (escrows h e) \<noteq> None" "e_token (escrows h e) = Some (Contract t)"
      "distinct [e, p, q]" "escrow_solvent t e h" "pool_solvent t p h" "pool_solvent t q h"
    using assms(1,2) by (simp_all add: books_inv_def solvent_def)
  have "pool_solvent t p h' \<and> pool_solvent t q h'"
    using assms(4) i(2,3,1)
  proof (cases rule: escrow_step_cases)
    case (quiet ls)
    have bal: "sac_bal t h (Contract c) \<le> sac_bal t h' (Contract c)" if "c = p \<or> c = q" for c
      using sac.moved_bal [OF quiet(2), of "Contract c"] outside_payer [OF assms(3) quiet(3), of c] that i(4) by auto
    show ?thesis
      using pool_solvent_more [OF i(6), of h'] pool_solvent_more [OF i(7), of h'] quiet(1) bal [of p] bal [of q] by simp
  qed (rule complete_pools_solvent [OF assms(1) i(6,7)])
  moreover have "escrow_solvent t e h'"
    using escrow_step_solvent [OF assms(4) i(1,5,2)] assms(3) by (simp add: outside_def)
  ultimately show ?thesis
    by (simp add: solvent_def)
qed

lemma pool_call_solvent:
  assumes "books_inv t e p q h" and "solvent t e p q h" and "outside X [e, p, q] h" and "r = p \<or> r = q" and "pool_step X r h h'"
  shows "solvent t e p q h'"
proof -
  have i: "distinct [e, p, q]" "escrow_solvent t e h" "pool_solvent t p h" "pool_solvent t q h" "\<not> has_authorized X (Contract e) h"
    using assms(1-3) by (simp_all add: books_inv_def solvent_def outside_def)
  have r: "pool_inv (pools h r)" "pool_solvent t r h" "p_governance (pools h r) \<noteq> None"
      "p_token (pools h r) = Some (Contract t)" "p_escrow (pools h r) = Some (Contract e)" "r \<noteq> e"
    using assms(1,4) i by (auto simp: books_inv_def pool_books_def pool_solvent_def)
  note frame = pool_frameD [OF pool_step_frame [OF assms(5) r(3,5) i(5)]]
  note bal = pool_step_balances [OF assms(5) r(1,4,3)]
  have "pool_solvent t c h'" if "pool_solvent t c h" for c
    using pool_step_solvent [OF assms(5) r(1-3)] pool_solvent_more [OF that] frame(2) bal by (cases "c = r") auto
  moreover have "escrow_solvent t e h'"
    using i(2) frame(1) bal [of e] r(6) by (simp add: escrow_solvent_def)
  ultimately show ?thesis
    using i(3,4) by (simp add: solvent_def)
qed

text \<open>Nobody can spend or claw back for the three contracts, and that stays so.\<close>

definition all_safe :: "hash32 \<Rightarrow> hash32 list \<Rightarrow> escrow_host \<Rightarrow> bool" where
  "all_safe t cs h \<longleftrightarrow> (\<forall>c\<in>set cs. holds_safely t c h)"

lemma holds_safely_cong:
  assumes "sacs h' t = sacs h t" and "is_asset_clawback_enabled t h' = is_asset_clawback_enabled t h"
  shows "holds_safely t c h' = holds_safely t c h"
  using assms by (auto simp: holds_safely_def clawable_def split: option.splits)

lemma system_step_safe:
  assumes "system_step X t e p q h h'" and "all_safe t [e, p, q] h"
  shows "all_safe t [e, p, q] h'"
proof -
  have "holds_safely t c h'" if "c \<in> {e, p, q}" for c
  proof -
    have c: "holds_safely t c h"
      using assms(2) that by (auto simp: all_safe_def)
    have keep: "holds_safely t c h'" if "sacs h' t = sacs h t" "account_entries h' = account_entries h"
      using that c holds_safely_cong [of h' t h c] clawback_enabled_cong [of h' t h] by simp
    from assms(1) show ?thesis
    proof cases
      case call_token
      then show ?thesis
        using token_step_safe [OF call_token(2) c] \<open>c \<in> {e, p, q}\<close> by (auto simp: outside_def)
    next
      case (mint a n)
      then show ?thesis
        using c holds_safely_keep [OF keepsD [OF alw_functions(5) mint] keepsD [OF claw_functions(8) mint]] by simp
    next
      case (classic as ls)
      then show ?thesis
        using c holds_safely_cong [of h' t h c] by simp
    next
      case call_escrow
      then show ?thesis
        using c contracts_keep_safe(1) by blast
    next
      case (call_pool r)
      then show ?thesis
        using c contracts_keep_safe(2) by blast
    qed (rule keep; simp)+
  qed
  then show ?thesis
    by (auto simp: all_safe_def)
qed

lemma system_step_solvent:
  assumes "system_step X t e p q h h'" and "books_inv t e p q h" and "solvent t e p q h" and "all_safe t [e, p, q] h"
  shows "solvent t e p q h'"
proof -
  have keep: "solvent t e p q h'" if "escrows h' = escrows h" "pools h' = pools h" "sacs h' t = sacs h t"
    using that assms(3) by (simp add: solvent_def escrow_solvent_def pool_solvent_def sac_bal_def)
  from assms(1) show ?thesis
  proof cases
    case call_token
    have "sac_bal t h (Contract c) \<le> sac_bal t h' (Contract c)" if "c \<in> {e, p, q}" for c
      using token_step_bal [OF call_token(2), of c] assms(4) call_token(1) that by (auto simp: all_safe_def outside_def)
    then show ?thesis
      using solvent_keep [OF assms(3)] more_system [OF token_step_more [OF call_token(2)]] by blast
  next
    case (mint a n)
    then show ?thesis
      using solvent_keep [OF assms(3)] more_system [OF token_step_more [OF token_step.mint [OF mint]]] sac_mint_bal [OF mint] by blast
  next
    case call_escrow
    then show ?thesis
      using escrow_call_solvent assms(2,3) by blast
  next
    case (call_pool r)
    then show ?thesis
      using pool_call_solvent assms(2,3) by blast
  qed (rule keep; simp)+
qed

lemma system_step_inv:
  assumes "system_step X t e p q h h'" and "system_inv t e p q h \<and> all_safe t [e, p, q] h"
  shows "system_inv t e p q h' \<and> all_safe t [e, p, q] h'"
  using assms system_step_books system_step_solvent system_step_safe by (auto simp: system_inv_split)

interpretation sys: component "system_step X t e p q" "\<lambda>h. h" "\<lambda>h. system_inv t e p q h \<and> all_safe t [e, p, q] h" for X t e p q
  by unfold_locales (rule system_step_inv)

lemma system_reach_inv:
  "(system_step X t e p q)\<^sup>*\<^sup>* h h' \<Longrightarrow> system_inv t e p q h \<Longrightarrow> all_safe t [e, p, q] h \<Longrightarrow> system_inv t e p q h'"
  by (rule conjunct1 [OF sys.run_keeps]) (auto simp: sys.run_def elim: rtranclp_mono [THEN predicate2D, rotated])

lemma system_reach_books:
  "(system_step X t e p q)\<^sup>*\<^sup>* h h' \<Longrightarrow> books_inv t e p q h \<Longrightarrow> books_inv t e p q h'"
  by (rule books.run_keeps) (auto simp: books.run_def elim: rtranclp_mono [THEN predicate2D, rotated])

section \<open>Setting the system up\<close>

lemma escrow_initialize_frame:
  "keeps pools (escrow_initialize X c g sa tok tr nft rvp dep salt)"
  "keeps (bal_view t) (escrow_initialize X c g sa tok tr nft rvp dep salt)"
  unfolding escrow_initialize_def
  by (auto intro!: keeps_rules view_rules call_pool_query_keeps dest: pool_reads_only simp: call_blind_def)

text \<open>An escrow that initializes on two pools which have no credits yet is a system.\<close>

definition new_pool :: "hash32 \<Rightarrow> hash32 \<Rightarrow> hash32 \<Rightarrow> escrow_host \<Rightarrow> bool" where
  "new_pool t e r h \<longleftrightarrow> pool_inv (pools h r) \<and> pool_solvent t r h \<and> p_governance (pools h r) \<noteq> None
     \<and> p_escrow (pools h r) = Some (Contract e) \<and> credited_of (pools h r) = 0"

lemma system_starts:
  assumes run: "escrow_initialize X e g sa (Contract t) tr (Contract p) (Contract q) dep salt h = Inr h'"
    and inv: "escrow_inv (escrows h e)" and d: "e \<noteq> p" "e \<noteq> q" and held: "0 \<le> sac_bal t h (Contract e)"
    and pools: "new_pool t e p h" "new_pool t e q h"
  shows "system_inv t e p q h'"
proof -
  note ok = escrow_initialize_ok [OF run]
  have frame: "pools h' = pools h" "sac_bal t h' = sac_bal t h"
    using keepsD [OF escrow_initialize_frame(1) run] keepsD [OF escrow_initialize_frame(2) run] by (simp_all add: bal_view_def)
  have abs: "escrow_abs (escrows h' e) = spec_escrow_initialize g sa (Contract t) tr (Contract p) (Contract q) (escrow_abs (escrows h e))"
    using ok by (simp add: escrow_eff_def)
  have none: "e_campaigns (escrows h e) = Map.empty"
    using ok inv by (simp add: escrow_inv_def)
  then have "e_campaigns (escrow_abs (escrows h' e)) = Map.empty"
    unfolding abs by (simp add: spec_escrow_initialize_def escrow_abs_def forgets_empty)
  then have settled: "settled share (escrows h' e) = 0" for share
    using settled_abs [of share "escrows h' e"] by (simp add: settled_def)
  have inst: "e_governance (escrow_abs (escrows h' e)) = Some g" "e_token (escrow_abs (escrows h' e)) = Some (Contract t)"
      "e_nft_pool (escrow_abs (escrows h' e)) = Some (Contract p)" "e_revenue_pool (escrow_abs (escrows h' e)) = Some (Contract q)"
      "e_liability (escrow_abs (escrows h' e)) = 0"
    by (simp_all add: abs spec_escrow_initialize_def e_liability_def unwrap_or_def del: e_liability_abs)
  have "escrow_inv (escrows h' e)"
    by (rule escrow_step_inv [OF escrow_step.initialize [OF run] inv])
  moreover have "pool_ok t e share r h'" if "new_pool t e r h" for share r
    using that frame settled by (simp add: pool_ok_def new_pool_def pool_solvent_def)
  ultimately show ?thesis
    using inst d ok held frame(2) pools by (simp add: system_inv_def escrow_solvent_def escrow_abs_instance)
qed

section \<open>Refunds can not be blocked\<close>

lemma extend_live_entry:
  assumes "sequence_number li \<le> l" and "sequence_number li + n \<le> U32_MAX"
    and "sequence_number li + (max_entry_ttl li - 1) \<le> U32_MAX"
  shows "\<exists>l'. extend_entry li Persistent n n (Some (v, l)) = Inr (v, l')"
  using assms
  by (auto simp: extend_entry_def try_get_entry_def checked_add_u32_def max_live_until_ledger_def
      max_live_until_ledger_checked_def saturating_sub_u32_def Let_def)

lemma open_amount_le_liability:
  assumes inv: "escrow_inv s" and x: "e_campaigns s k = Some (x, l)" "status x = Funded \<or> status x = Active"
  shows "amount x \<le> e_liability s" and "0 \<le> amount x"
proof -
  have pos: "0 \<le> (case v of (y, _) \<Rightarrow> open_amount y)" if "e_campaigns s j = Some v" for j v
    using escrow_invD [OF inv, of j "fst v" "snd v"] that
    by (cases v) (auto simp: open_amount_def campaign_inv_def MINIMUM_CAMPAIGN_AMOUNT_def)
  have "open_amount x \<le> map_sum (\<lambda>(y, _). open_amount y) (e_campaigns s)"
    using map_sum_member_le [of "e_campaigns s" k "(x, l)" "\<lambda>(y, _). open_amount y"] inv x(1) pos
    by (auto simp: escrow_inv_def)
  then show "amount x \<le> e_liability s"
    using inv x(2) by (auto simp: escrow_inv_def open_amount_def)
  show "0 \<le> amount x"
    using escrow_invD [OF inv x(1)] by (simp add: campaign_inv_def MINIMUM_CAMPAIGN_AMOUNT_def)
qed

text \<open>The campaign whose refund is considered: open, expired and live, in an escrow that keeps its
  books and holds what it owes.\<close>

definition refundable :: "hash32 \<Rightarrow> hash32 \<Rightarrow> u64 \<Rightarrow> Campaign \<Rightarrow> escrow_host \<Rightarrow> bool" where
  "refundable t c k x h \<longleftrightarrow> escrow_inv (escrows h c) \<and> escrow_solvent t c h \<and> e_liability (escrows h c) \<le> I128_MAX
     \<and> (\<exists>l. e_campaigns (escrows h c) k = Some (x, l) \<and> sequence_number (ledger h) \<le> l)
     \<and> (status x = Funded \<or> status x = Active) \<and> expires_at x \<le> timestamp (ledger h)
     \<and> sequence_number (ledger h) + ESCROW_TTL \<le> U32_MAX
     \<and> sequence_number (ledger h) + (max_entry_ttl (ledger h) - 1) \<le> U32_MAX"

text \<open>The state after the escrow's own part of the refund, with the new live-until ledger \<open>l\<close> of the
  campaign.\<close>

definition refunded :: "hash32 \<Rightarrow> u64 \<Rightarrow> Campaign \<Rightarrow> u32 \<Rightarrow> escrow_host \<Rightarrow> escrow_host" where
  "refunded c k x l h = h\<lparr>escrows := (escrows h)(c := (escrows h c)\<lparr>
     e_total_liability := Some (e_liability (escrows h c) - amount x),
     e_campaigns := (e_campaigns (escrows h c))(k \<mapsto> (x\<lparr>status := Refunded\<rparr>, l))\<rparr>)\<rparr>"

text \<open>The payment of the token without its authorization check: a call of \<open>transfer\<close> whose payer is the
  contract that makes the call is this payment, whatever has been signed.\<close>

definition plain_payment :: "hash32 \<Rightarrow> address \<Rightarrow> address \<Rightarrow> i128 \<Rightarrow> ('z sac_host_scheme, host_error) step" where
  "plain_payment t a b n =
     call_step t StellarAsset ''transfer'' [SAddress a, SAddress b, SI128 n] (steps [
       check_nonnegative_amount n,
       extend_sac_instance,
       spend_balance t a n,
       receive_balance t b n,
       event_transfer t a b n])"

definition running :: "hash32 \<Rightarrow> 'z host_scheme \<Rightarrow> bool" where
  "running c h \<longleftrightarrow> get_current_contract_id h = Some c \<and> (\<exists>cs fn. call_stack (auth h) = cs @ [ContractInvocation (Contract c) fn])"

lemma own_payment:
  assumes "running c h"
  shows "token_transfer X (Contract t) (Contract c) b n h = plain_payment t (Contract c) b n h"
proof (cases "enter_contract t StellarAsset ''transfer'' [SAddress (Contract c), SAddress b, SI128 n] h")
  case (Inl e)
  then show ?thesis
    by (simp add: token_transfer_def plain_payment_def call_step_def run_simps)
next
  case (Inr h1)
  then have h1: "h1 = h\<lparr>frames := ContractFrame t ''transfer'' [SAddress (Contract c), SAddress b, SI128 n] # frames h,
      auth := am_push_frame (ContractInvocation (Contract t) ''transfer'') (auth h)\<rparr>"
    using enter_contract_shape by blast
  obtain cs fn where "call_stack (auth h) = cs @ [ContractInvocation (Contract c) fn]"
    using assms by (auto simp: running_def)
  then have "direct_invoker (auth h1) = Some (Contract c)"
    using direct_invoker_push [of "auth h" cs "Contract c" fn] h1 by simp
  then have auth: "require_auth X (Contract c) h1 = Inr h1"
    using require_auth_of_caller [of h1 t "''transfer''"] h1 by simp
  show ?thesis
    using Inr auth
    by (auto simp: token_transfer_def plain_payment_def call_step_def sac_transfer_def check_nonnegative_amount_def run_simps)
qed

lemma running_kept:
  "escrow_init c h = Inr h' \<Longrightarrow> running d h \<Longrightarrow> running d h'"
  "token_balance tok a h = Inr (v, h') \<Longrightarrow> running d h \<Longrightarrow> running d (h' :: escrow_host)"
proof -
  show "running d h'" if "escrow_init c h = Inr h'" "running d h"
    using that by (auto simp: escrow_init_def escrow_extend_instance_def ok_simps running_def get_current_contract_id_def
        dest!: extend_instance_shape)
  show "running d h'" if run: "token_balance tok a h = Inr (v, h')" and d: "running d h"
  proof -
    obtain t h1 h2 where e: "enter_contract t StellarAsset ''balance'' [SAddress a] h = Inr h1"
      and b: "sac_balance t a h1 = Inr (v, h2)" and h': "h' = h2\<lparr>frames := tl (frames h2), auth := am_pop_frame (auth h2)\<rparr>"
      using run by (auto simp: token_balance_def ok_simps elim!: call_query_ok)
    have "keeps (\<lambda>h. (frames h, auth h)) extend_sac_instance" "keeps (\<lambda>h. (frames h, auth h)) (extend_balance_ttl t a)"
      by (rule keepsI; auto simp: extend_sac_instance_def extend_balance_ttl_def ok_simps upd_sac_def dest!: extend_instance_shape)+
    then have "keepsq (\<lambda>h. (frames h, auth h)) (sac_balance t a)"
      unfolding sac_balance_def read_balance_def by (cases a) (auto intro!: keeps_rules split: option.splits)
    from keepsqD [OF this b] have "frames h' = frames h" "call_stack (auth h') = call_stack (auth h)"
      using enter_contract_shape [OF e] h' am_push_pop_call_stack by auto
    then show ?thesis
      using d by (simp add: running_def get_current_contract_id_def)
  qed
qed

text \<open>After the balance check, only the payment is left that can fail.\<close>

lemma refund_after_balance:
  assumes h: "refundable t c k x h" and init: "escrow_init c h = Inr h1" and c: "running c h"
    and r: "token_balance (Contract t) (Contract c) h1 = Inr (b, h2)"
  shows "\<exists>l. escrow_refund_expired X c k h = (case plain_payment t (Contract c) (sponsor x) (amount x) (refunded c k x l h2) of
      Inl e \<Rightarrow> Inl e | Inr h3 \<Rightarrow> publish_event [SSymbol ''refunded'', SU64 k] (SVec [SAddress (sponsor x), SI128 (amount x)]) h3)"
proof -
  obtain l where x: "e_campaigns (escrows h c) k = Some (x, l)" and live: "sequence_number (ledger h) \<le> l"
    using h by (auto simp: refundable_def)
  have e: "status x = Funded \<or> status x = Active" "expires_at x \<le> timestamp (ledger h)" "e_token (escrows h c) = Some (Contract t)"
      "e_liability (escrows h c) \<le> sac_bal t h (Contract c)" "e_liability (escrows h c) \<le> I128_MAX" "escrow_inv (escrows h c)"
    using h by (simp_all add: refundable_def escrow_solvent_def)
  note amt = open_amount_le_liability [OF e(6) x e(1)]
  have h1: "escrows h1 = escrows h" "ledger h1 = ledger h" "sac_bal t h1 = sac_bal t h"
    using escrow_init_e [OF init] e_quietD [of h h1] keepsD [OF bal_view_steps(5) init]
    by (simp_all add: e_quiet_def bal_view_def)
  have view: "sac_view h2 = sac_view h1"
    by (rule keepsqD [OF sac_view_token_balance r])
  have h2: "escrows h2 = escrows h" "ledger h2 = ledger h"
    using sac_view_system [OF view] view h1 by (simp_all add: sac_view_def host_view_def)
  have b: "b = sac_bal t h (Contract c)"
    using token_balance_value [OF r] h1(3) by simp
  have fits: "i128_op (unwrap_or (e_total_liability (escrows h c)) 0 - amount x) (g :: escrow_host)
      = Inr (unwrap_or (e_total_liability (escrows h c)) 0 - amount x)" for g
    using amt e(5) by (simp add: i128_op_def checked_i128_def e_liability_def fits_i128_def I128_MIN_def I128_MAX_def)
  have entry: "lookup_entry (ledger h) Persistent (Some (x, l)) = Inr (Some x)"
      "put_entry (ledger h) Persistent (Some (x, l)) y = Inr (y, l)" for y
    using live by (simp_all add: lookup_entry_Some put_entry_def try_get_entry_def)
  obtain l' where ext: "extend_entry (ledger h) Persistent ESCROW_TTL ESCROW_TTL (Some (x\<lparr>status := Refunded\<rparr>, l))
      = Inr (x\<lparr>status := Refunded\<rparr>, l')"
    using extend_live_entry [OF live, of ESCROW_TTL "x\<lparr>status := Refunded\<rparr>"] h by (auto simp: refundable_def)
  have "running c (refunded c k x l' h2)"
    using running_kept(2) [OF r running_kept(1) [OF init c]] by (simp add: running_def refunded_def get_current_contract_id_def)
  note pay = own_payment [OF this, where X = X and t = t and b = "sponsor x" and n = "amount x"]
  have "escrow_refund_expired X c k h = (case token_transfer X (Contract t) (Contract c) (sponsor x) (amount x) (refunded c k x l' h2) of
      Inl e \<Rightarrow> Inl e | Inr h3 \<Rightarrow> publish_event [SSymbol ''refunded'', SU64 k] (SVec [SAddress (sponsor x), SI128 (amount x)]) h3)"
    using e(1,2,4) amt(1)
    by (auto simp: escrow_refund_expired_def with_campaign_def run_simps init h1 entry x e(3) r b fits ext h2 refunded_def
        check_deficit_def e_liability_def set_campaign_def extend_campaign_def upd_escrow_def split: sum.split)
  then show ?thesis
    using pay by auto
qed

lemma refund_no_balance:
  assumes h: "refundable t c k x h" and init: "escrow_init c h = Inr h1"
    and r: "token_balance (Contract t) (Contract c) h1 = Inl e"
  shows "escrow_refund_expired X c k h = Inl e"
proof -
  obtain l where x: "e_campaigns (escrows h c) k = Some (x, l)" and live: "sequence_number (ledger h) \<le> l"
    using h by (auto simp: refundable_def)
  have s: "status x = Funded \<or> status x = Active" "expires_at x \<le> timestamp (ledger h)" "e_token (escrows h c) = Some (Contract t)"
      "escrow_inv (escrows h c)"
    using h by (simp_all add: refundable_def escrow_solvent_def)
  have h1: "escrows h1 = escrows h" "ledger h1 = ledger h"
    using escrow_init_e [OF init] e_quietD [of h h1] by simp_all
  have entry: "lookup_entry (ledger h) Persistent (Some (x, l)) = Inr (Some x)"
    using live by (simp add: lookup_entry_Some)
  show ?thesis
    using s(1,2) open_amount_le_liability(1) [OF s(4) x s(1)]
    by (auto simp: escrow_refund_expired_def with_campaign_def run_simps init h1 x s(3) r entry
        check_deficit_def e_liability_def)
qed

lemma refund_progress:
  assumes h: "refundable t c k x h" and init: "escrow_init c h = Inr h1" and c: "running c h"
  shows "case token_balance (Contract t) (Contract c) h1 of
      Inl e \<Rightarrow> escrow_refund_expired X c k h = Inl e
    | Inr (b, h2) \<Rightarrow> \<exists>l. (case plain_payment t (Contract c) (sponsor x) (amount x) (refunded c k x l h2) of
        Inl e \<Rightarrow> escrow_refund_expired X c k h = Inl e
      | Inr h3 \<Rightarrow> escrow_refund_expired X c k h = Inr (h3\<lparr>events := events h3 @ [\<lparr>event_contract = c,
          event_topics = [SSymbol ''refunded'', SU64 k], event_data = SVec [SAddress (sponsor x), SI128 (amount x)]\<rparr>]\<rparr>))"
proof (cases "token_balance (Contract t) (Contract c) h1")
  case (Inl e)
  then show ?thesis
    using refund_no_balance [OF h init Inl] by simp
next
  case (Inr r)
  then have r: "token_balance (Contract t) (Contract c) h1 = Inr (fst r, snd r)"
    by simp
  from refund_after_balance [OF h init c r, of X] obtain l where run: "escrow_refund_expired X c k h =
      (case plain_payment t (Contract c) (sponsor x) (amount x) (refunded c k x l (snd r)) of
      Inl e \<Rightarrow> Inl e | Inr h3 \<Rightarrow> publish_event [SSymbol ''refunded'', SU64 k] (SVec [SAddress (sponsor x), SI128 (amount x)]) h3)"
    by blast
  have c2: "running c (refunded c k x l (snd r))"
    using running_kept(2) [OF r running_kept(1) [OF init c]] by (simp add: running_def refunded_def get_current_contract_id_def)
  have "get_current_contract_id h3 = Some c"
    if "plain_payment t (Contract c) (sponsor x) (amount x) (refunded c k x l (snd r)) = Inr h3" for h3
  proof -
    have "token_transfer X (Contract t) (Contract c) (sponsor x) (amount x) (refunded c k x l (snd r)) = Inr h3"
      using that own_payment [OF c2] by simp
    from keepsD [OF sac_view_token_transfer this] show ?thesis
      using c2 by (simp add: sac_view_def host_view_def running_def get_current_contract_id_def)
  qed
  then show ?thesis
    using run r by (cases r) (auto simp: publish_event_def run_simps split: sum.splits intro!: exI [of _ l])
qed

end
