(* ===== verification/Reputation_Anchor.thy ===== *)
theory Reputation_Anchor
  imports Host_Env
begin

text \<open>
  The reputation anchor, \<open>contracts/reputation_anchor/src/lib.rs\<close>: one score record per
  profile, written by the admin only.  \<open>anchor_host\<close> extends the host with the storage of
  these contracts; \<open>c\<close> is the id of the contract whose frame runs.  The contract's \<open>log!\<close> calls
  write diagnostics only and are not modelled.
\<close>

section \<open>The contract\<close>

record ScoreRecord =
  profile_id :: u64
  sr_creator :: address
  score :: u32
  tier :: string
  arbitrum_tx_hash :: bytes
  anchored_at :: u64

datatype RepAnchorError =
  R_AlreadyInitialized | R_NotInitialized | R_ScoreNotFound | R_InvalidScore | R_InvalidDeployment

fun rep_error_code :: "RepAnchorError \<Rightarrow> u32" where
  "rep_error_code R_AlreadyInitialized = 1"
| "rep_error_code R_NotInitialized = 2"
| "rep_error_code R_ScoreNotFound = 3"
| "rep_error_code R_InvalidScore = 4"
| "rep_error_code R_InvalidDeployment = 5"

definition rerr :: "RepAnchorError \<Rightarrow> host_error" where
  "rerr e = ContractErr (rep_error_code e)"

record anchor_state =
  r_admin :: "address option"
  r_scores :: "u64 \<Rightarrow> ScoreRecord entry option"

record anchor_host = host +
  anchors :: "hash32 \<Rightarrow> anchor_state"

type_synonym anchor_step = "(anchor_host, host_error) step"
type_synonym 'a anchor_query = "(anchor_host, host_error, 'a) query"

definition upd_anchor :: "hash32 \<Rightarrow> (anchor_state \<Rightarrow> anchor_state) \<Rightarrow> anchor_step" where
  "upd_anchor c f = modify (\<lambda>h. h\<lparr>anchors := (anchors h)(c := f (anchors h c))\<rparr>)"

definition anchor_initialize :: "externals \<Rightarrow> hash32 \<Rightarrow> address \<Rightarrow> address \<Rightarrow> bytes \<Rightarrow> anchor_step" where
  "anchor_initialize X c admin deployer salt = steps [
     reject (\<lambda>h. r_admin (anchors h c) \<noteq> None) (rerr R_AlreadyInitialized),
     reject (\<lambda>h. deployed_address X deployer salt \<noteq> Contract c) (rerr R_InvalidDeployment),
     require_auth X deployer,
     (if admin \<noteq> deployer then require_auth X admin else skip_step),
     upd_anchor c (\<lambda>s. s\<lparr>r_admin := Some admin\<rparr>)]"

definition require_initialized :: "hash32 \<Rightarrow> anchor_host \<Rightarrow> address option" where
  "require_initialized c h = r_admin (anchors h c)"

definition set_score :: "hash32 \<Rightarrow> u64 \<Rightarrow> ScoreRecord \<Rightarrow> anchor_step" where
  "set_score c k v =
     try_read (\<lambda>h. put_entry (ledger h) Persistent (r_scores (anchors h c) k) v) (\<lambda>e.
     upd_anchor c (\<lambda>s. s\<lparr>r_scores := (r_scores s)(k \<mapsto> e)\<rparr>))"

definition anchor_score ::
  "externals \<Rightarrow> hash32 \<Rightarrow> u64 \<Rightarrow> address \<Rightarrow> u32 \<Rightarrow> string \<Rightarrow> bytes \<Rightarrow> anchor_step" where
  "anchor_score X c pid creator_address new_score new_tier tx_hash =
     ok_or (rerr R_NotInitialized) (require_initialized c) (\<lambda>admin. steps [
       require_auth X admin,
       reject (\<lambda>h. new_score > 1000) (rerr R_InvalidScore),
       read (\<lambda>h. timestamp (ledger h)) (\<lambda>now. steps [
         set_score c pid
           \<lparr>profile_id = pid, sr_creator = creator_address, score = new_score, tier = new_tier,
            arbitrum_tx_hash = tx_hash, anchored_at = now\<rparr>,
         publish_event [SSymbol ''rep'', SSymbol ''anchored'']
           (SVec [SU64 pid, SU32 new_score, SSymbol new_tier, SU64 now, SString tx_hash])])])"

definition get_score :: "hash32 \<Rightarrow> u64 \<Rightarrow> ScoreRecord anchor_query" where
  "get_score c pid =
     try_read (\<lambda>h. lookup_entry (ledger h) Persistent (r_scores (anchors h c) pid)) (\<lambda>r.
     ok_or (rerr R_ScoreNotFound) (\<lambda>h. r) ret)"

fun scores_batch :: "hash32 \<Rightarrow> u64 list \<Rightarrow> ScoreRecord list \<Rightarrow> ScoreRecord list anchor_query" where
  "scores_batch c [] results = ret results"
| "scores_batch c (pid # rest) results =
     try_read (\<lambda>h. lookup_entry (ledger h) Persistent (r_scores (anchors h c) pid)) (\<lambda>r.
       case r of
         None \<Rightarrow> scores_batch c rest results
       | Some v \<Rightarrow> scores_batch c rest (results @ [v]))"

definition get_scores_batch :: "hash32 \<Rightarrow> u64 list \<Rightarrow> ScoreRecord list anchor_query" where
  "get_scores_batch c profile_ids = scores_batch c profile_ids []"

section \<open>What it guarantees\<close>

text \<open>Every stored record sits under its own id and has a score of at most 1000.\<close>

definition anchor_inv :: "anchor_state \<Rightarrow> bool" where
  "anchor_inv s \<longleftrightarrow> (\<forall>k r l. r_scores s k = Some (r, l) \<longrightarrow> profile_id r = k \<and> score r \<le> 1000)"

lemma require_auth_anchors: "require_auth X a h = Inr h' \<Longrightarrow> anchors h' = anchors h \<and> ledger h' = ledger h"
  by (auto dest!: require_auth_shape)

lemma anchor_score_ok:
  assumes "anchor_score X c pid a s t x h = Inr h'"
  obtains admin h1 l where "r_admin (anchors h c) = Some admin" and "require_auth X admin h = Inr h1"
    and "s \<le> 1000" and "sequence_number (ledger h) \<le> l"
    and "anchors h' = (anchors h)(c := (anchors h c)\<lparr>r_scores := (r_scores (anchors h c))(pid \<mapsto>
      (\<lparr>profile_id = pid, sr_creator = a, score = s, tier = t, arbitrum_tx_hash = x,
        anchored_at = timestamp (ledger h)\<rparr>, l))\<rparr>)"
    and "ledger h' = ledger h"
proof -
  from assms obtain admin h1 h2 e ts d where
    ad: "r_admin (anchors h c) = Some admin" and ra: "require_auth X admin h = Inr h1" and s: "s \<le> 1000" and
    e: "put_entry (ledger h1) Persistent (r_scores (anchors h1 c) pid)
      \<lparr>profile_id = pid, sr_creator = a, score = s, tier = t, arbitrum_tx_hash = x,
        anchored_at = timestamp (ledger h1)\<rparr> = Inr e" and
    h2: "h2 = h1\<lparr>anchors := (anchors h1)(c := (anchors h1 c)\<lparr>r_scores := (r_scores (anchors h1 c))(pid \<mapsto> e)\<rparr>)\<rparr>" and
    ev: "publish_event ts d h2 = Inr h'"
    by (auto simp: anchor_score_def require_initialized_def set_score_def upd_anchor_def ok_simps not_less)
  show thesis
    using that [OF ad ra s, of "snd e"] require_auth_anchors [OF ra] put_entry_ok [OF e] h2
      publish_event_shape [OF ev] by (cases e) auto
qed

lemma scores_batch_value:
  "scores_batch c pids acc h = Inr (rs, h') \<Longrightarrow>
     h' = h \<and> rs = acc @ map (\<lambda>k. fst (the (r_scores (anchors h c) k)))
       (filter (\<lambda>k. r_scores (anchors h c) k \<noteq> None) pids)"
proof (induction c pids acc arbitrary: rs rule: scores_batch.induct)
  case (1 c acc)
  then show ?case by (simp add: ok_simps)
next
  case (2 c pid rest acc)
  then obtain r where r: "lookup_entry (ledger h) Persistent (r_scores (anchors h c) pid) = Inr r"
    by (auto simp: ok_simps)
  show ?case
  proof (cases r)
    case None
    then show ?thesis
      using "2.prems" "2.IH"(1) r None by (auto simp: ok_simps lookup_entry_None)
  next
    case (Some v)
    then show ?thesis
      using "2.prems" "2.IH"(2) [of v] r Some by (auto simp: ok_simps lookup_entry_Some)
  qed
qed

lemma scores_batch_live:
  "scores_batch c pids acc h = Inr (rs, h') \<Longrightarrow> k \<in> set pids \<Longrightarrow> r_scores (anchors h c) k = Some (r, l) \<Longrightarrow>
     sequence_number (ledger h) \<le> l"
proof (induction c pids acc arbitrary: rs rule: scores_batch.induct)
  case (2 c pid rest acc)
  then obtain q where q: "lookup_entry (ledger h) Persistent (r_scores (anchors h c) pid) = Inr q"
    by (auto simp: ok_simps)
  show ?case
  proof (cases q)
    case None
    then show ?thesis
      using "2.prems" "2.IH"(1) q by (auto simp: ok_simps lookup_entry_None)
  next
    case (Some v)
    then show ?thesis
      using "2.prems" "2.IH"(2) [of v] q by (auto simp: ok_simps lookup_entry_Some)
  qed
qed simp

lemma anchor_score_inv:
  assumes "anchor_score X c pid a s t x h = Inr h'" and "anchor_inv (anchors h c)"
  shows "anchor_inv (anchors h' c)"
  using assms(1) by (rule anchor_score_ok) (use assms(2) in \<open>auto simp: anchor_inv_def\<close>)

end
