(* ===== verification/Scenario_Runs.thy ===== *)
theory Scenario_Runs
  imports Scenario
begin

text \<open>
  Runs of the deployment of \<open>Scenario\<close>, computed step by step: a settlement with its five
  payments and two pool credits, the publication of a manifest and a claim from it.  The
  states are \<open>st ns fr au b ln ev P E\<close>: nonces, frames, authorization manager, token balances
  of contracts, trustlines, events, pools and escrows; everything else of the ledger is fixed.
  Each lemma gives the state after one operation, and the runs at the end compose them.
\<close>

declare One_nat_def [simp del]

section \<open>The states of the deployment\<close>

definition inst0 :: "hash32 \<Rightarrow> executable entry option" where
  "inst0 c = (if c = 100 then Some (Wasm CampaignEscrow, 800000)
              else if c = 101 \<or> c = 102 then Some (Wasm ContributorPool, 800000)
              else if c = 200 then Some (StellarAsset, 800000) else None)"

definition codes0 :: "wasm_code \<Rightarrow> unit entry option" where
  "codes0 w = Some ((), 800000)"

definition sacs0 where "sacs0 b = (\<lambda>c. if c = (200::nat) then token0 b else no_sac)"

definition st :: "nonces \<Rightarrow> frame list \<Rightarrow> auth_manager \<Rightarrow> (address \<Rightarrow> BalanceValue entry option)
  \<Rightarrow> (key32 \<times> asset \<Rightarrow> trustline_entry option) \<Rightarrow> contract_event list \<Rightarrow> (hash32 \<Rightarrow> pool_state)
  \<Rightarrow> (hash32 \<Rightarrow> escrow_state) \<Rightarrow> escrow_host" where
  "st ns fr au b ln ev P E = \<lparr>ledger = li0, frames = fr, auth = au, nonce_entries = ns, instances = inst0,
     codes = codes0, account_entries = (\<lambda>k. if k < 20 then Some (acct k) else None), trustlines = ln,
     events = ev, sacs = sacs0 b, pools = P, escrows = E\<rparr>"

lemma st_sel [simp]:
  "ledger (st ns fr au b ln ev P E) = li0" "frames (st ns fr au b ln ev P E) = fr"
  "auth (st ns fr au b ln ev P E) = au" "instances (st ns fr au b ln ev P E) = inst0"
  "nonce_entries (st ns fr au b ln ev P E) = ns"
  "codes (st ns fr au b ln ev P E) = codes0" "trustlines (st ns fr au b ln ev P E) = ln"
  "account_entries (st ns fr au b ln ev P E) = (\<lambda>k. if k < 20 then Some (acct k) else None)"
  "events (st ns fr au b ln ev P E) = ev" "sacs (st ns fr au b ln ev P E) = sacs0 b"
  "pools (st ns fr au b ln ev P E) = P" "escrows (st ns fr au b ln ev P E) = E"
  by (simp_all add: st_def)

lemma sacs0_upd: "(sacs0 b)(200 := token0 b') = sacs0 b'"
  by (auto simp: sacs0_def fun_eq_iff)

lemma st_upd [simp]:
  "st ns fr au b ln ev P E\<lparr>frames := fr'\<rparr> = st ns fr' au b ln ev P E"
  "st ns fr au b ln ev P E\<lparr>auth := au'\<rparr> = st ns fr au' b ln ev P E"
  "st ns fr au b ln ev P E\<lparr>instances := inst0\<rparr> = st ns fr au b ln ev P E"
  "st ns fr au b ln ev P E\<lparr>codes := codes0\<rparr> = st ns fr au b ln ev P E"
  "st ns fr au b ln ev P E\<lparr>trustlines := ln'\<rparr> = st ns fr au b ln' ev P E"
  "st ns fr au b ln ev P E\<lparr>events := ev'\<rparr> = st ns fr au b ln ev' P E"
  "st ns fr au b ln ev P E\<lparr>pools := P'\<rparr> = st ns fr au b ln ev P' E"
  "st ns fr au b ln ev P E\<lparr>escrows := E'\<rparr> = st ns fr au b ln ev P E'"
  "st ns fr au b ln ev P E\<lparr>sacs := sacs0 b'\<rparr> = st ns fr au b' ln ev P E"
  by (simp_all add: st_def)

lemma inst0_upd [simp]: "inst0(200 \<mapsto> (StellarAsset, 800000)) = inst0"
  "inst0(100 \<mapsto> (Wasm CampaignEscrow, 800000)) = inst0"
  "inst0(101 \<mapsto> (Wasm ContributorPool, 800000)) = inst0"
  "inst0(102 \<mapsto> (Wasm ContributorPool, 800000)) = inst0"
  "codes0(w \<mapsto> ((), 800000)) = codes0"
  by (auto simp: inst0_def codes0_def fun_eq_iff)

lemma li0_sel [simp]: "sequence_number li0 = 1000" "timestamp li0 = 5000" "base_reserve li0 = 10"
  "min_persistent_entry_ttl li0 = 4096"
  by (simp_all add: li0_def)

lemma li0_limits [simp]: "max_live_until_ledger li0 = Inr 3111399" "get_min_live_until_ledger li0 Persistent = Inr 5095"
  by (simp_all add: max_live_until_ledger_def max_live_until_ledger_checked_def checked_add_u32_def U32_MAX_def
      get_min_live_until_ledger_def min_live_until_ledger_checked_def li0_def saturating_sub_u32_def)

lemma ext0 [simp]:
  "extend_entry li0 Persistent 103680 120960 (Some (v, 800000)) = Inr (v, 800000)"
  "extend_entry li0 Persistent 501120 518400 (Some (w, 600000)) = Inr (w, 600000)"
  "extend_entry li0 Persistent 501120 518400 (Some (w, 5095)) = Inr (w, 519400)"
  "extend_entry li0 Persistent 700000 700000 (Some (v, 800000)) = Inr (v, 800000)"
  "extend_entry li0 Persistent 700000 700000 (Some (v, 700000)) = Inr (v, 701000)"
  "extend_entry li0 Persistent 700000 700000 (Some (v, 5095)) = Inr (v, 701000)"
  "extend_entry li0 Persistent 700000 700000 (Some (v, 701000)) = Inr (v, 701000)"
  by (simp_all add: extend_entry_def try_get_entry_def checked_add_u32_def U32_MAX_def Let_def saturating_sub_u32_def)

lemma get0 [simp]: "1000 \<le> l \<Longrightarrow> get_entry li0 d (Some (v, l)) = Inr v"
  "1000 \<le> l \<Longrightarrow> lookup_entry li0 d (Some (v, l)) = Inr (Some v)"
  "lookup_entry li0 d None = Inr None"
  "1000 \<le> l \<Longrightarrow> has_entry li0 d (Some (v, l)) = Inr True"
  "has_entry li0 d None = Inr False"
  "1000 \<le> l \<Longrightarrow> put_entry li0 Persistent (Some (v, l)) w = Inr (w, l)"
  "put_entry li0 Persistent None w = Inr (w, 5095)"
  by (auto simp: get_entry_def lookup_entry_def has_entry_def put_entry_def try_get_entry_def)

lemma inst0_get [simp]: "inst0 200 = Some (StellarAsset, 800000)" "inst0 100 = Some (Wasm CampaignEscrow, 800000)"
  "inst0 101 = Some (Wasm ContributorPool, 800000)" "inst0 102 = Some (Wasm ContributorPool, 800000)"
  "codes0 w = Some ((), 800000)"
  by (simp_all add: inst0_def codes0_def)

lemma sacs0_get [simp]: "sacs0 b 200 = token0 b" "sac_balances (token0 b) = b"
  "sac_asset_info (token0 b) = Some (Info_AlphaNum4 [85, 83, 68, 67] 8)"
  "sac_metadata (token0 b) = Some \<lparr>md_decimal = 7, md_name = [85, 83, 68, 67, 58, 71], md_symbol = [85, 83, 68, 67]\<rparr>"
  by (simp_all add: sacs0_def token0_def)

lemma upd_sac0 [simp]:
  "upd_sac 200 (\<lambda>s. s\<lparr>sac_balances := (sac_balances s)(a \<mapsto> x)\<rparr>) (st ns fr au b ln ev P E) = st ns fr au (b(a \<mapsto> x)) ln ev P E"
  by (simp add: upd_sac_def st_def, auto simp: sacs0_def token0_def fun_eq_iff)

lemma ext_sac [simp]: "extend_sac_instance (st ns (ContractFrame 200 fn args # fr) au b ln ev P E) = Inr (st ns (ContractFrame 200 fn args # fr) au b ln ev P E)"
  by (simp add: extend_sac_instance_def extend_current_contract_instance_and_code_ttl_def run_simps
      get_current_contract_id_def extend_contract_instance_ttl_def extend_contract_code_ttl_def
      retrieve_contract_instance_def INSTANCE_TTL_THRESHOLD_def INSTANCE_EXTEND_AMOUNT_def DAY_IN_LEDGERS_def
      del: fun_upd_apply)

lemma asset0 [simp]: "read_asset 200 (st ns fr au b ln ev P E) = Inr usdc"
  by (simp add: read_asset_def read_asset_info_def get_instance_def string_to_array_def usdc_def)

lemma name0 [simp]: "read_name 200 (st ns fr au b ln ev P E) = Inr [85, 83, 68, 67, 58, 71]"
  by (simp add: read_name_def get_instance_def)

definition pay_event where
  "pay_event a b n = \<lparr>event_contract = 200, event_topics = [SSymbol ''transfer'', SAddress a, SAddress b,
     SString [85, 83, 68, 67, 58, 71]], event_data = SI128 n\<rparr>"

lemma enter0:
  assumes "take 2 fn \<noteq> ''__''" and "length fr < 100" and "\<forall>f\<in>set fr. frame_contract_id f \<noteq> Some c"
    and "inst0 c = Some (x, 800000)"
  shows "enter_contract c x fn args (st ns fr au b ln ev P E) =
    Inr (st ns (ContractFrame c fn args # fr) (am_push_frame (ContractInvocation (Contract c) fn) au) b ln ev P E)"
  using assms
  by (cases x) (auto simp: enter_contract_def run_simps retrieve_contract_instance_def push_context_def
      DEFAULT_HOST_DEPTH_LIMIT_def)



text \<open>The authorization manager inside a call of \<open>fn\<close> on contract \<open>c\<close>: one tree per signer, used or
  not yet, \<open>ms\<close> and \<open>cs\<close> the frames of nested calls.\<close>

definition tracker0 :: "hash32 \<Rightarrow> string \<Rightarrow> sc_val list \<Rightarrow> bool \<Rightarrow> match_state list \<Rightarrow> invocation_tracker" where
  "tracker0 c fn args used ms =
     \<lparr>root_authorized_invocation = AuthInv (ContractFn (Contract c) fn args) [] used,
      match_stack = (if used then RootMatch else Unmatched) # ms,
      root_exhausted_frame = (if used then Some 0 else None), is_fully_processed = False\<rparr>"

definition signer0 :: "hash32 \<Rightarrow> string \<Rightarrow> sc_val list \<Rightarrow> match_state list \<Rightarrow> key32 \<times> bool \<Rightarrow> account_tracker" where
  "signer0 c fn args ms = (\<lambda>(k, used). \<lparr>at_address = Account k, at_tracker = tracker0 c fn args used ms,
      at_signature = AccountSignatures [(k, [])], at_is_transaction_source_account = False,
      at_verified = used, at_nonce = Some (int k, 2000)\<rparr>)"

definition au0 :: "hash32 \<Rightarrow> string \<Rightarrow> sc_val list \<Rightarrow> (key32 \<times> bool) list \<Rightarrow> match_state list
  \<Rightarrow> invoker_tracker list \<Rightarrow> auth_stack_frame list \<Rightarrow> auth_manager" where
  "au0 c fn args ss ms its cs =
     \<lparr>account_trackers = map (signer0 c fn args ms) ss, invoker_contract_trackers = its,
      call_stack = ContractInvocation (Contract c) fn # cs\<rparr>"

lemma au0_push [simp]:
  "am_push_frame f (au0 c fn args ss ms its cs) = au0 c fn args ss (ms @ [Unmatched])
     (map (\<lambda>t. t\<lparr>it_tracker := tracker_push_frame (it_tracker t)\<rparr>) its) (cs @ [f])"
  by (simp add: am_push_frame_def au0_def tracker_push_frame_def signer0_def tracker0_def case_prod_unfold)

lemma au0_pop:
  "am_pop_frame (au0 c fn args ss (ms @ [m]) its (cs @ [f])) = au0 c fn args ss ms
     (drop_out_of_scope (map (\<lambda>t. t\<lparr>it_tracker := tracker_pop_frame (it_tracker t)\<rparr>) its)) cs"
  by (simp add: am_pop_frame_def au0_def tracker_pop_frame_def signer0_def tracker0_def butlast_append
      case_prod_unfold)

lemma au0_pops [simp]:
  "am_pop_frame (au0 c fn args ss [m] its [f]) = au0 c fn args ss []
     (drop_out_of_scope (map (\<lambda>t. t\<lparr>it_tracker := tracker_pop_frame (it_tracker t)\<rparr>) its)) []"
  "am_pop_frame (au0 c fn args ss [m, m'] its [f, f']) = au0 c fn args ss [m]
     (drop_out_of_scope (map (\<lambda>t. t\<lparr>it_tracker := tracker_pop_frame (it_tracker t)\<rparr>) its)) [f]"
  using au0_pop [of c fn args ss "[]" m its "[]" f] au0_pop [of c fn args ss "[m]" m' its "[f]" f'] by simp_all

lemma au0_invoker [simp]:
  "direct_invoker (au0 c fn args ss ms its [f]) = Some (Contract c)"
  "direct_invoker (au0 c fn args ss ms its [ContractInvocation a g, f]) = Some a"
  by (simp_all add: au0_def direct_invoker_def)

lemma drop_nil [simp]: "drop_out_of_scope [] = []"
   "drop_out_of_scope [t] = (if match_stack (it_tracker t) = [] then [] else [t])"
  by (simp_all add: drop_out_of_scope_def)

definition accounts0 :: accounts where
  "accounts0 = (\<lambda>k. if k < 20 then Some (acct k) else None)"

lemma case_unit0: "(case u of () \<Rightarrow> x) = x"
  by (rule unit.induct [of _ u]) (rule old.unit.case)

lemma authorize0:
  assumes "k < 20" and "ns (Account k, int k) = None" and "ns' = ns((Account k, int k) \<mapsto> ((), 2000))"
  shows "at_maybe_authorize_invocation X0 accounts0 li0 (signer0 c fn args [] (k, False))
      (ContractFn (Contract c) fn args) True ns = Inr (True, signer0 c fn args [] (k, True), ns')"
proof -
  let ?t = "(signer0 c fn args [] (k, False))\<lparr>at_tracker := tracker0 c fn args True []\<rparr>"
  have m: "maybe_extend_invocation_match (at_tracker (signer0 c fn args [] (k, False)))
      (ContractFn (Contract c) fn args) True = Inr (True, tracker0 c fn args True [])"
    by (simp add: signer0_def tracker0_def maybe_extend_invocation_match_def
        current_frame_is_already_matched_def set_last_def)
  have a: "authenticate X0 accounts0 li0 ?t = Inr ()"
    using assms(1) by (simp add: authenticate_def signer0_def tracker0_def check_account_authentication_def
        MAX_ACCOUNT_SIGNATURES_def load_account_def X0_def get_signer_weight_from_account_def acct_def
        accounts0_def saturating_add_u32_def U32_MAX_def)
  have n: "verify_and_consume_nonce li0 ?t ns = Inr ns'"
    using assms(2,3) by (simp add: verify_and_consume_nonce_def signer0_def consume_nonce_def
        get_min_live_until_ledger_def min_live_until_ledger_checked_def checked_add_u32_def
        saturating_sub_u32_def U32_MAX_def li0_def max_live_until_ledger_def
        max_live_until_ledger_checked_def has_entry_def try_get_entry_def)
  have v: "\<not> at_verified (signer0 c fn args [] (k, False))" "?t\<lparr>at_verified := True\<rparr> = signer0 c fn args [] (k, True)"
    by (simp_all add: signer0_def)
  show ?thesis
    using v by (simp add: at_maybe_authorize_invocation_def m Let_def a n case_unit0 split: unit.split)
qed

definition sign :: "key32 \<Rightarrow> (key32 \<times> bool) list \<Rightarrow> (key32 \<times> bool) list" where
  "sign k = map (\<lambda>(j, u). (j, u \<or> j = k))"

lemma scan0:
  assumes "k < 20" and "ns (Account k, int k) = None" and "ns' = ns((Account k, int k) \<mapsto> ((), 2000))"
  shows "distinct (map fst ss) \<Longrightarrow> (k, False) \<in> set ss \<Longrightarrow>
    scan_account_trackers X0 accounts0 li0 (Account k) (ContractFn (Contract c) fn args) True
      (map (signer0 c fn args []) ss) ns = Inr (map (signer0 c fn args []) (sign k ss), ns')"
proof (induction ss)
  case (Cons s ss)
  obtain j u where s: "s = (j, u)" by force
  show ?case
  proof (cases "j = k")
    case True
    with Cons.prems s have u: "u = False" by force
    have "sign k ss = ss"
      using Cons.prems(1) s True by (force simp: sign_def intro: map_idI)
    moreover have "at_address (signer0 c fn args [] (k, False)) = Account k"
      by (simp add: signer0_def)
    ultimately show ?thesis
      using authorize0 [OF assms] s True u by (simp add: sign_def)
  next
    case False
    then have "at_address (signer0 c fn args [] (j, u)) \<noteq> Account k"
      by (simp add: signer0_def)
    then show ?thesis
      using Cons s False by (simp add: sign_def)
  qed
qed simp

lemma auth0:
  assumes "k < 20" and "ns (Account k, int k) = None" and "distinct (map fst ss)" and "(k, False) \<in> set ss"
  shows "require_auth X0 (Account k) (st ns (ContractFrame c fn args # fr) (au0 c fn args ss [] [] []) b ln ev P E) =
    Inr (st (ns((Account k, int k) \<mapsto> ((), 2000))) (ContractFrame c fn args # fr)
      (au0 c fn args (sign k ss) [] [] []) b ln ev P E)"
proof -
  have "\<not> has_active_tracker (au0 c fn args ss [] [] []) (Account k)"
    using assms(3,4) by (force simp: has_active_tracker_def au0_def signer0_def tracker_is_active_def tracker0_def
        current_frame_is_already_matched_def)
  moreover note scan0 [of k ns, OF assms(1,2) refl assms(3,4), of c fn args]
  moreover have "account_entries (st ns (ContractFrame c fn args # fr) (au0 c fn args ss [] [] []) b ln ev P E) = accounts0"
    by (simp add: accounts0_def)
  ultimately show ?thesis
    by (simp add: require_auth_def am_require_auth_def require_auth_internal_def
        maybe_check_invoker_contract_auth_def require_auth_enforcing_def) (simp add: au0_def st_def)
qed


section \<open>Token calls\<close>

lemma spend0:
  assumes "b (Contract q) = Some (bal0 a)" "0 \<le> n" "n \<le> a" "a \<le> 1000"
  shows "spend_balance 200 (Contract q) n (st ns fr au b ln ev P E) =
    Inr (st ns fr au (b(Contract q \<mapsto> bal0 (a - n))) ln ev P E)"
proof -
  have n: "fits_i128 (a - n)"
    using assms by (simp add: fits_i128_def I128_MIN_def I128_MAX_def)
  show ?thesis
    using assms n
    by (simp add: spend_balance_def run_simps check_authorized_def is_authorized_def lookup_balance_def bal0_def
      spend_balance_no_authorization_check_def write_contract_balance_def extend_balance_ttl_def checked_i128_def
      BALANCE_TTL_THRESHOLD_def BALANCE_EXTEND_AMOUNT_def DAY_IN_LEDGERS_def)
qed

lemma receive_account0:
  assumes "0 \<le> n" "n \<le> 1000" "ln (k, usdc) = Some (line 5000)" "k \<noteq> 8"
  shows "receive_balance 200 (Account k) n (st ns fr au b ln ev P E) =
    Inr (st ns fr au b (ln((k, usdc) \<mapsto> line (5000 + n))) ev P E)"
proof -
  have n: "fits_i64 n" "fits_i64 (5000 + n)"
    using assms by (simp_all add: fits_i64_def I64_MIN_def I64_MAX_def)
  show ?thesis
    using assms n
    by (simp add: receive_balance_def run_simps check_authorized_def is_authorized_def is_account_authorized_def
      usdc_def is_trustline_authorized_def get_trustline_flags_def read_trustline_entry_def line_def AUTHORIZED_FLAG_def
      transfer_classic_balance_def transfer_trustline_balance_def get_min_max_trustline_balance_def
      new_classic_balance_def checked_i64_def)
qed

definition new_bal0 :: "i128 \<Rightarrow> BalanceValue entry" where
  "new_bal0 n = (\<lparr>bv_amount = n, bv_authorized = True, bv_clawback = False\<rparr>, 519400)"

lemma receive_contract0:
  assumes "0 \<le> n" "n \<le> 1000" "b (Contract k) = None"
  shows "receive_balance 200 (Contract k) n (st ns fr au b ln ev P E) =
    Inr (st ns fr au (b(Contract k \<mapsto> new_bal0 n)) ln ev P E)"
proof -
  have n: "fits_i128 n"
    using assms by (simp_all add: fits_i128_def I128_MIN_def I128_MAX_def)
  show ?thesis
    using assms n
    by (simp add: receive_balance_def run_simps check_authorized_def is_authorized_def lookup_balance_def
      is_asset_auth_required_def is_asset_issuer_flag_set_def read_asset_info_def get_instance_def is_issuer_flag_set_def
      load_account_def acct_def balance_or_new_def is_asset_clawback_enabled_def write_contract_balance_def
      extend_balance_ttl_def checked_i128_def new_bal0_def
      BALANCE_TTL_THRESHOLD_def BALANCE_EXTEND_AMOUNT_def DAY_IN_LEDGERS_def)
qed

lemma transfer0:
  assumes q: "b (Contract q) = Some (bal0 a)" "0 \<le> n" "n \<le> a" "a \<le> 1000"
    and rec: "\<And>fr au. receive_balance 200 d n (st ns fr au (b(Contract q \<mapsto> bal0 (a - n))) ln ev P E) =
       Inr (st ns fr au b' ln' ev P E)"
    and fr: "fr = [ContractFrame q fn args, HostFunctionFrame]" "q \<noteq> 200"
  shows "token_transfer X (Contract 200) (Contract q) d n (st ns fr (au0 q fn args ss [] [] []) b ln ev P E) =
    Inr (st ns fr (au0 q fn args ss [] [] []) b' ln' (ev @ [pay_event (Contract q) d n]) P E)"
proof -
  let ?au = "au0 q fn args ss [Unmatched] [] [ContractInvocation (Contract 200) ''transfer'']"
  have ra: "require_auth X (Contract q) (st ns (ContractFrame 200 ''transfer'' targs # fr) ?au b ln ev P E) =
      Inr (st ns (ContractFrame 200 ''transfer'' targs # fr) ?au b ln ev P E)" for targs
    by (rule require_auth_of_caller) simp_all
  have e: "enter_contract 200 StellarAsset ''transfer'' targs (st ns fr (au0 q fn args ss [] [] []) b ln ev P E) =
    Inr (st ns (ContractFrame 200 ''transfer'' targs # fr) ?au b ln ev P E)" for targs
    using fr by (subst enter0) auto
  show ?thesis
    using q
    by (simp add: token_transfer_def call_step_def run_simps e sac_transfer_def check_nonnegative_amount_def ra
      spend0 [of b q a n, OF q] rec event_transfer_def sac_event_def publish_event_def get_current_contract_id_def
      pay_event_def pop_context_def)
qed

lemma pay_account0:
  assumes "b (Contract q) = Some (bal0 a)" "0 \<le> n" "n \<le> a" "a \<le> 1000"
    "ln (k, usdc) = Some (line 5000)" "k \<noteq> 8" "q \<noteq> 200"
  shows "token_transfer X (Contract 200) (Contract q) (Account k) n
      (st ns [ContractFrame q fn args, HostFunctionFrame] (au0 q fn args ss [] [] []) b ln ev P E) =
    Inr (st ns [ContractFrame q fn args, HostFunctionFrame] (au0 q fn args ss [] [] [])
      (b(Contract q \<mapsto> bal0 (a - n))) (ln((k, usdc) \<mapsto> line (5000 + n)))
      (ev @ [pay_event (Contract q) (Account k) n]) P E)"
  using assms(1-4) by (rule transfer0) (rule receive_account0, use assms in auto)

lemma ext_new [simp]: "extend_entry li0 Persistent 501120 518400 (Some (w, 519400)) = Inr (w, 519400)"
  by (simp add: extend_entry_def try_get_entry_def checked_add_u32_def U32_MAX_def Let_def saturating_sub_u32_def)

lemma balance0:
  assumes fr: "length fr < 100" "\<forall>f\<in>set fr. frame_contract_id f \<noteq> Some 200"
    and pop: "am_pop_frame (am_push_frame (ContractInvocation (Contract 200) ''balance'') au) = au"
    and b: "b (Contract k) = Some (v, l)" "l = 519400 \<or> l = 600000"
  shows "token_balance (Contract 200) (Contract k) (st ns fr au b ln ev P E) =
    Inr (bv_amount v, st ns fr au b ln ev P E)"
proof -
  have e: "enter_contract 200 StellarAsset ''balance'' args (st ns fr au b ln ev P E) =
    Inr (st ns (ContractFrame 200 ''balance'' args # fr)
      (am_push_frame (ContractInvocation (Contract 200) ''balance'') au) b ln ev P E)" for args
    using fr by (intro enter0) auto
  show ?thesis
    using b
    by (auto simp: token_balance_def call_query_def run_simps e sac_balance_def read_balance_def lookup_balance_def
      extend_balance_ttl_def BALANCE_TTL_THRESHOLD_def BALANCE_EXTEND_AMOUNT_def DAY_IN_LEDGERS_def fun_upd_idem
      pop_context_def pop)
qed

lemma i128s: "fits_i128 n" if "-1000 \<le> n" "n \<le> 1000000000"
  using that by (simp add: fits_i128_def I128_MIN_def I128_MAX_def)

section \<open>The pool\<close>

lemma pool_init0:
  assumes "p_governance (P p) \<noteq> None" "p = 101 \<or> p = 102"
  shows "pool_init p (st ns (ContractFrame p fn args # fr) au b ln ev P E) =
    Inr (st ns (ContractFrame p fn args # fr) au b ln ev P E)"
  using assms
  by (auto simp: pool_init_def run_simps extend_instance_def TTL_def
      extend_current_contract_instance_and_code_ttl_def
      get_current_contract_id_def extend_contract_instance_ttl_def extend_contract_code_ttl_def
      retrieve_contract_instance_def)

definition pools0 :: "pool_state \<Rightarrow> hash32 \<Rightarrow> pool_state" where
  "pools0 p = (\<lambda>c. if c = 101 then p else if c = 102 then fresh_pool else no_pool)"

lemma pools0_sel [simp]: "pools0 p 101 = p" "pools0 p 102 = fresh_pool" "(pools0 p)(101 := p') = pools0 p'"
  by (auto simp: pools0_def fun_eq_iff)

definition lines0 :: "key32 \<times> asset \<Rightarrow> trustline_entry option" where
  "lines0 = (\<lambda>(k, a). if k < 20 \<and> a = usdc then Some (line 5000) else None)"

definition escrows0 :: "escrow_state \<Rightarrow> hash32 \<Rightarrow> escrow_state" where
  "escrows0 e = (\<lambda>c. if c = 100 then e else no_escrow)"

lemma lines0_sel [simp]: "k < 20 \<Longrightarrow> lines0 (k, usdc) = Some (line 5000)"
  by (simp add: lines0_def)

lemma calling_st:
  "calling c fn args (map (\<lambda>k. (k, [])) ks) (base (token0 b) p fresh_pool e) =
     st (\<lambda>_. None) [ContractFrame c fn args, HostFunctionFrame] (au0 c fn args (map (\<lambda>k. (k, False)) ks) [] [] [])
       b lines0 [] (pools0 p) (escrows0 e)"
  by (simp add: calling_def base_def st_def pools0_def lines0_def escrows0_def sacs0_def inst0_def codes0_def
      fun_eq_iff au0_def am_push_frame_def signed_def new_invocation_tracker_def tracker_push_frame_def
      signer0_def tracker0_def case_prod_unfold)

lemmas pool_state_defs = fresh_pool_def no_pool_def pool_credited_def pool_published_def

lemma balance101:
  "token_balance (Contract 200) (Contract 101) (st ns [ContractFrame 101 fn args, HostFunctionFrame]
      (au0 101 fn args ss [] [] []) [Contract 101 \<mapsto> bal0 50] ln ev P E) =
    Inr (50, st ns [ContractFrame 101 fn args, HostFunctionFrame] (au0 101 fn args ss [] [] [])
      [Contract 101 \<mapsto> bal0 50] ln ev P E)"
  by (subst balance0) (auto simp: bal0_def)

lemma claim_ok: "is_ok (pool_claim X0 101 1 0 claim_call)"
proof -
  have c: "claim_call = st (\<lambda>_. None) [ContractFrame 101 ''claim'' [SU64 1, SU32 0], HostFunctionFrame]
     (au0 101 ''claim'' [SU64 1, SU32 0] [(4, False)] [] [] []) [Contract 101 \<mapsto> bal0 50] lines0 [] (pools0 pool_published) (escrows0 fresh_escrow)"
    using calling_st [of 101 "''claim''" _ "[4]"] by (simp add: claim_call_def with_pool_def)
  show ?thesis
    apply (simp add: c pool_claim_def run_simps pool_init0 pool_state_defs pool_paused_def unwrap_or_def with_manifest_def manifest0_def new_manifest_def auth0
     stored_total_liability_def pool_balance_def pool_token_def balance101 i128s checked_i128_def)
    apply (simp add: set_allocation_def extend_allocation_def set_manifest_def extend_manifest_def upd_pool_def run_simps TTL_def i128_op_def checked_i128_def i128s
      total_paid_def pool_init0 unwrap_or_def pool_token_def pay_account0 publish_event_def get_current_contract_id_def)
    done
qed


lemma publish_ok: "is_ok (pool_publish_manifest X0 101 1 [1] [2] 9000 [Account 4, Account 5] [30, 20] publish_call)"
proof -
  have c: "publish_call = st (\<lambda>_. None) [ContractFrame 101 ''publish_manifest'' [SU64 1], HostFunctionFrame]
     (au0 101 ''publish_manifest'' [SU64 1] [(1, False), (7, False)] [] [] []) [Contract 101 \<mapsto> bal0 50] lines0 [] (pools0 pool_credited) (escrows0 fresh_escrow)"
    using calling_st [of 101 "''publish_manifest''" _ "[1, 7]"] by (simp add: publish_call_def with_pool_def)
  show ?thesis
    apply (simp add: c pool_publish_manifest_def run_simps pool_init0 pool_state_defs pool_paused_def unwrap_or_def auth0
     pool_current_governance_def pool_current_eligibility_def MAX_ALLOCATIONS_def MAX_CLAIM_WINDOW_def DAY_def i128s checked_i128_def sign_def)
    apply (simp add: available_balance_def total_credited_def total_paid_def stored_total_liability_def pool_init0 run_simps unwrap_or_def checked_i128_def i128s
       pool_balance_def pool_token_def balance101 i128_op_def)
    apply (simp add: set_allocation_def extend_allocation_def set_manifest_def extend_manifest_def upd_pool_def run_simps TTL_def i128_op_def checked_i128_def i128s
      publish_event_def get_current_contract_id_def)
    done
qed

section \<open>Settlement\<close>

definition complete_args :: "sc_val list" where "complete_args = [SU64 1, SU32 1]"

definition invoker0 :: "hash32 \<Rightarrow> i128 \<Rightarrow> match_state list \<Rightarrow> invoker_tracker" where
  "invoker0 p n ms = \<lparr>it_contract_address = Contract 100, it_tracker =
    \<lparr>root_authorized_invocation = AuthInv (ContractFn (Contract p) ''record_credit'' [SU64 1, SI128 n]) [] False,
      match_stack = ms, root_exhausted_frame = None, is_fully_processed = False\<rparr>\<rparr>"

lemma invoker0_frames [simp]:
  "tracker_push_frame (it_tracker (invoker0 p n ms)) = it_tracker (invoker0 p n (ms @ [Unmatched]))"
  "tracker_pop_frame (it_tracker (invoker0 p n (ms @ [m]))) = it_tracker (invoker0 p n ms)"
  "tracker_pop_frame (it_tracker (invoker0 p n [m])) = it_tracker (invoker0 p n [])"
  "tracker_pop_frame (it_tracker (invoker0 p n [m, m'])) = it_tracker (invoker0 p n [m])"
  "invoker0 p n ms\<lparr>it_tracker := it_tracker (invoker0 p n ms')\<rparr> = invoker0 p n ms'"
  "match_stack (it_tracker (invoker0 p n ms)) = ms"
  by (simp_all add: invoker0_def tracker_push_frame_def tracker_pop_frame_def)

abbreviation fr100 :: "frame list" where
  "fr100 \<equiv> [ContractFrame 100 ''complete'' complete_args, HostFunctionFrame]"

abbreviation au100 :: "match_state list \<Rightarrow> invoker_tracker list \<Rightarrow> auth_stack_frame list \<Rightarrow> auth_manager" where
  "au100 \<equiv> au0 100 ''complete'' complete_args [(2, True)]"

definition credit_event :: "hash32 \<Rightarrow> i128 \<Rightarrow> contract_event" where
  "credit_event p n = \<lparr>event_contract = p, event_topics = [SSymbol ''credited'', SU64 1], event_data = SI128 n\<rparr>"

definition credited0 :: "i128 \<Rightarrow> pool_state" where
  "credited0 n = fresh_pool\<lparr>p_credited := [1 \<mapsto> (True, 701000)], p_total_credited := Some n\<rparr>"

lemma credit0:
  assumes P: "P p = fresh_pool" and p: "p = 101 \<or> p = 102" and b: "b (Contract p) = Some (new_bal0 n)"
    and n: "0 < n" "n \<le> 1000"
  shows "steps [authorize_pool_credit (Contract p) 1 n, call_record_credit X0 (Contract p) 1 n]
      (st ns fr100 (au100 [] [] []) b ln ev P E) =
    Inr (st ns fr100 (au100 [] [] []) b ln (ev @ [credit_event p n]) (P(p := credited0 n)) E)"
proof -
  let ?au = "au100 [Unmatched] [invoker0 p n [Unmatched]] [ContractInvocation (Contract p) ''record_credit'']"
  let ?fr = "\<lambda>args. ContractFrame p ''record_credit'' args # fr100"
  have a: "authorize_pool_credit (Contract p) 1 n (st ns fr100 (au100 [] [] []) b ln ev P E) =
     Inr (st ns fr100 (au100 [] [invoker0 p n []] []) b ln ev P E)"
    by (simp add: authorize_pool_credit_def authorize_as_curr_contract_def run_simps get_current_contract_id_def
       add_invoker_contract_auth_def au0_def invoker0_def new_invocation_tracker_def)
  have e: "enter_contract p (Wasm ContributorPool) ''record_credit'' args
      (st ns fr100 (au100 [] [invoker0 p n []] []) b ln ev P E) = Inr (st ns (?fr args) ?au b ln ev P E)" for args
    using p by (subst enter0) auto
  have ra: "require_auth X0 (Contract 100) (st ns (?fr args) ?au b ln ev P E) = Inr (st ns (?fr args) ?au b ln ev P E)" for args
    by (rule require_auth_of_caller) simp_all
  have tb: "token_balance (Contract 200) (Contract p) (st ns (?fr args) ?au b ln ev P E) =
      Inr (n, st ns (?fr args) ?au b ln ev P E)" for args
    using p b by (subst balance0) (auto simp: new_bal0_def)
  have g: "p_governance (P p) \<noteq> None"
    using P by (simp add: fresh_pool_def)
  show ?thesis
    using P n
    by (simp add: run_simps a call_record_credit_def call_step_def e pool_record_credit_def pool_escrow_def
      pool_init0 [of P p, OF g p] fresh_pool_def no_pool_def ra total_credited_def total_paid_def
      unwrap_or_def checked_i128_def i128s pool_balance_def pool_token_def tb set_credited_def
      extend_credited_def upd_pool_def TTL_def publish_event_def get_current_contract_id_def pop_context_def
      credited0_def credit_event_def)
qed

lemma pay_pool0:
  assumes q: "b (Contract 100) = Some (bal0 a)" "0 \<le> n" "n \<le> a" "a \<le> 1000" and n: "0 < n"
    and key: "key (E 100) = Some (Contract p)"
    and p: "b (Contract p) = None" "P p = fresh_pool" "p = 101 \<or> p = 102"
  shows "pay_pool X0 100 (Contract 200) key 1 n (st ns fr100 (au100 [] [] []) b ln ev P E) =
    Inr (st ns fr100 (au100 [] [] []) (b(Contract 100 \<mapsto> bal0 (a - n), Contract p \<mapsto> new_bal0 n)) ln
      (ev @ [pay_event (Contract 100) (Contract p) n, credit_event p n]) (P(p := credited0 n)) E)"
proof -
  let ?b = "b(Contract 100 \<mapsto> bal0 (a - n), Contract p \<mapsto> new_bal0 n)"
  let ?ev = "ev @ [pay_event (Contract 100) (Contract p) n]"
  have t: "token_transfer X0 (Contract 200) (Contract 100) (Contract p) n (st ns fr100 (au100 [] [] []) b ln ev P E) =
    Inr (st ns fr100 (au100 [] [] []) ?b ln ?ev P E)"
    using q by (rule transfer0) (rule receive_contract0, use q p in auto)
  have "steps [authorize_pool_credit (Contract p) 1 n, call_record_credit X0 (Contract p) 1 n]
      (st ns fr100 (au100 [] [] []) ?b ln ?ev P E) =
    Inr (st ns fr100 (au100 [] [] []) ?b ln (?ev @ [credit_event p n]) (P(p := credited0 n)) E)"
    using q n p by (intro credit0) auto
  then show ?thesis
    using key t by (simp add: pay_pool_def steps.simps ok_or_def)
qed

lemma legs0: "leg_amount 1000 SERVICE = Inr 100" "leg_amount 1000 NFT_POOL = Inr 50" "leg_amount 1000 REVENUE = Inr 20"
  "leg_amount 1000 REFERRER = Inr 10"
  by (simp_all add: leg_amount_def checked_i128_def i128s SERVICE_def NFT_POOL_def REVENUE_def REFERRER_def DENOM_def)

definition settled0 :: "nonces \<Rightarrow> escrow_state \<Rightarrow> escrow_host" where
  "settled0 ns e = st ns fr100 (au100 [] [] [])
    [Contract 100 \<mapsto> bal0 0, Contract 101 \<mapsto> new_bal0 50, Contract 102 \<mapsto> new_bal0 20]
    (lines0((4, usdc) \<mapsto> line 5820, (6, usdc) \<mapsto> line 5100, (5, usdc) \<mapsto> line 5010))
    [pay_event (Contract 100) (Account 4) 820, pay_event (Contract 100) (Account 6) 100,
     pay_event (Contract 100) (Contract 101) 50, credit_event 101 50,
     pay_event (Contract 100) (Contract 102) 20, credit_event 102 20,
     pay_event (Contract 100) (Account 5) 10,
     \<lparr>event_contract = 100, event_topics = [SSymbol ''completed'', SU64 1],
      event_data = SVec [SAddress (Account 4), SI128 1000, SI128 820, SI128 100, SI128 50, SI128 20, SI128 10]\<rparr>]
    ((pools0 fresh_pool)(101 := credited0 50, 102 := credited0 20)) (escrows0 e)"

lemma active0_sel: "amount active0 = 1000" "creator active0 = Account 4" "referrer active0 = Some (Account 5)"
  "status active0 = Active" "operation_version active0 = 1" "\<not> expires_at active0 \<le> 5000"
  by (simp_all add: active0_def activated_def funded0_def new_campaign_def EXPIRY_def DAY_def)

lemma escrows0_sel [simp]: "escrows0 e 100 = e" "(escrows0 e)(100 := e') = escrows0 e'"
  by (auto simp: escrows0_def fun_eq_iff)

lemma settle0:
  assumes e: "e_service_treasury e = Some (Account 6)" "e_nft_pool e = Some (Contract 101)" "e_revenue_pool e = Some (Contract 102)"
  shows "settle X0 100 (Contract 200) 1 active0
      (st ns fr100 (au100 [] [] []) [Contract 100 \<mapsto> bal0 1000] lines0 [] (pools0 fresh_pool) (escrows0 e)) =
    Inr (settled0 ns e)"
  using e
  by (simp add: settle_def run_simps active0_sel legs0 i128_op_def checked_i128_def i128s pay_account0 pay_pool0
      publish_event_def get_current_contract_id_def settled0_def fun_upd_twist)

lemma init0:
  assumes "e_governance (E 100) \<noteq> None"
  shows "escrow_init 100 (st ns (ContractFrame 100 fn args # fr) au b ln ev P E) =
    Inr (st ns (ContractFrame 100 fn args # fr) au b ln ev P E)"
  using assms
  by (auto simp: escrow_init_def run_simps escrow_extend_instance_def ESCROW_TTL_def
      extend_current_contract_instance_and_code_ttl_def get_current_contract_id_def
      extend_contract_instance_ttl_def extend_contract_code_ttl_def retrieve_contract_instance_def)

lemma complete_call_st:
  "complete_call = st (\<lambda>_. None) fr100 (au0 100 ''complete'' complete_args [(2, False)] [] [] [])
     [Contract 100 \<mapsto> bal0 1000] lines0 [] (pools0 fresh_pool) (escrows0 (escrow_with active0))"
  using calling_st [of 100 "''complete''" _ "[2]"] by (simp add: complete_call_def holding_def complete_args_def)

lemma complete_call_ok: "is_ok (escrow_complete X0 100 1 1 complete_call)"
proof -
  have d: "check_deficit 100 (Contract 200) 1000 1000 (st ns fr100 (au100 [] [] []) [Contract 100 \<mapsto> bal0 1000] ln ev P E)
    = Inr (st ns fr100 (au100 [] [] []) [Contract 100 \<mapsto> bal0 1000] ln ev P E)" for ns ln ev P E
    by (simp add: check_deficit_def run_simps, subst balance0) (auto simp: bal0_def run_simps)
  show ?thesis
    apply (simp add: complete_call_st escrow_complete_def run_simps init0 escrow_with_def fresh_escrow_def no_escrow_def
        escrow_paused_def unwrap_or_def auth0 sign_def with_campaign_def active0_sel)
    apply (simp add: set_campaign_def extend_campaign_def set_consumed_def extend_consumed_def run_simps upd_escrow_def ESCROW_TTL_def d
       i128_op_def checked_i128_def i128s settle0)
    done
qed

section \<open>The other calls\<close>

lemma fund_call_ok: "is_ok (escrow_fund X0 100 1 (Account 3) 1000 fund_call)"
  by code_simp

lemma activate_call_ok: "is_ok (escrow_activate X0 100 1 (Account 4) (Some (Account 5)) [1] activate_call)"
  by code_simp

lemma refund_call_ok: "is_ok (escrow_refund_expired X0 100 1 refund_call)"
  by code_simp

lemma accept_call_ok: "is_ok (escrow_accept X0 100 2 accept_call)"
  by code_simp

lemma expire_call_ok: "is_ok (pool_expire_manifest 101 1 expire_call)"
  by code_simp

lemma credit_call_ok: "is_ok (pool_record_credit X0 101 1 50 credit_call)"
  by code_simp

lemma init_call_ok:
  "is_ok (escrow_initialize X0 100 (Account 1) (Account 2) (Contract 200) (Account 6) (Contract 101)
     (Contract 102) (Account 1) [100] init_call)"
  by code_simp

lemmas runs = is_ok_projr [OF complete_call_ok] is_ok_projr [OF fund_call_ok] is_ok_projr [OF activate_call_ok]
  is_ok_projr [OF refund_call_ok] is_ok_projr [OF accept_call_ok] is_ok_projr [OF expire_call_ok]
  is_ok_projr [OF credit_call_ok] is_ok_projr [OF claim_ok] is_ok_projr [OF publish_ok]

section \<open>The states satisfy the invariants\<close>

lemma base_sel [simp]:
  "escrows (base t p q e) 100 = e" "pools (base t p q e) 101 = p" "pools (base t p q e) 102 = q"
  "sacs (base t p q e) 200 = t" "ledger (base t p q e) = li0"
  by (simp_all add: base_def)

lemma calling_sel [simp]:
  "escrows (calling c fn args ks h) = escrows h" "pools (calling c fn args ks h) = pools h"
  "sacs (calling c fn args ks h) = sacs h" "ledger (calling c fn args ks h) = ledger h"
  by (simp_all add: calling_def)

lemma later_sel [simp]:
  "escrows (later h) = escrows h" "pools (later h) = pools h" "sacs (later h) = sacs h"
  "timestamp (ledger (later h)) = 3000000"
  by (simp_all add: later_def)

lemmas call_defs = complete_call_def fund_call_def activate_call_def refund_call_def accept_call_def
  expire_call_def credit_call_def claim_call_def publish_call_def holding_def empty0_def with_pool_def

lemma map_sum_one: "map_sum f [k \<mapsto> v] = f v"
  by (simp add: map_sum_def)

lemma escrow_with_inv: "x = funded0 \<or> x = active0 \<Longrightarrow> escrow_inv (escrow_with x)"
  by (auto simp: escrow_inv_def escrow_with_def fresh_escrow_def no_escrow_def campaign_inv_def map_sum_one
      e_liability_def unwrap_or_def open_amount_def funded0_def active0_def activated_def new_campaign_def
      MINIMUM_CAMPAIGN_AMOUNT_def I128_MAX_def DENOM_def)

lemma escrow_with_solvent:
  "escrows h 100 = escrow_with x \<Longrightarrow> sacs h 200 = token0 [Contract 100 \<mapsto> bal0 1000] \<Longrightarrow> escrow_solvent 200 100 h"
  by (simp add: escrow_solvent_def escrow_with_def fresh_escrow_def e_liability_def unwrap_or_def sac_bal_def
      token0_def bal0_def)

lemma calling_unauthorized: "\<not> has_authorized X0 (Contract d) (calling c fn args ks h)"
  by (rule no_self_authorization) (auto simp: calling_def am_push_frame_def signed_def X0_def)

end
