(* ===== verification/Escrow_Properties.thy ===== *)
theory Escrow_Properties
  imports Scenario_Runs
begin

text \<open>
  What the campaign escrow guarantees: its books (the stored liability is the sum of the open
  campaigns), its solvency, the life cycle of a campaign, the exact split of a settlement, who
  can do what, and which calls fail.  Each theorem is followed by an instance in the deployment
  of \<open>Scenario\<close>.
\<close>

section \<open>Books and solvency\<close>

text \<open>C3: a call of any exported function of the escrow keeps it solvent: if the token balance
  of the escrow covers its stored total liability before the call, it does so after it.  The
  last hypothesis excludes that the escrow itself pays a campaign into itself: the escrow is
  not a custom account, so a transaction can never make it authorize its own call
  (\<open>no_self_authorization\<close>).\<close>

theorem escrow_stays_solvent:
  assumes "escrow_step X c h h'" and "escrow_inv (escrows h c)" and "escrow_solvent t c h"
    and "e_governance (escrows h c) \<noteq> None" and "\<not> has_authorized X (Contract c) h"
  shows "escrow_solvent t c h'"
  using assms by (rule escrow_step_solvent)

theorem escrow_stays_solvent_witness:
  "escrow_solvent 200 100 (projr (escrow_complete X0 100 1 1 complete_call))"
proof (rule escrow_stays_solvent [of X0 100 complete_call])
  show "escrow_step X0 100 complete_call (projr (escrow_complete X0 100 1 1 complete_call))"
    by (rule escrow_step.complete [OF runs(1)])
  show "escrow_inv (escrows complete_call 100)"
    by (simp add: call_defs escrow_with_inv)
  show "escrow_solvent 200 100 complete_call"
    by (rule escrow_with_solvent [of _ active0]) (simp_all add: call_defs)
  show "e_governance (escrows complete_call 100) \<noteq> None"
    by (simp add: call_defs escrow_with_def fresh_escrow_def)
  show "\<not> has_authorized X0 (Contract 100) complete_call"
    by (simp add: complete_call_def calling_unauthorized)
qed

text \<open>C5: in any sequence of calls of its exported functions, interleaved with anything that
  does not write the escrow's storage, the invariant of that storage is preserved:
  the stored liability is the sum of the amounts of the open campaigns, amounts are within
  their bounds, activation data is present exactly from activation on, an operation is
  consumed exactly when its campaign is completed, and the two pools differ.\<close>

theorem escrow_invariant:
  assumes "(\<lambda>u v. escrow_step X c u v \<or> escrows v c = escrows u c)\<^sup>*\<^sup>* h h'" and "escrow_inv (escrows h c)"
  shows "escrow_inv (escrows h' c)"
  using esc.run_keeps assms unfolding esc.run_def .

theorem escrow_invariant_witness:
  "escrow_inv (escrows (projr (escrow_refund_expired X0 100 1 refund_call)) 100)"
  by (rule escrow_invariant [OF r_into_rtranclp, OF disjI1, OF escrow_step.refund [OF runs(4)]])
    (simp add: call_defs escrow_with_inv)

text \<open>C17: the storage of the escrow refines an abstract machine of guarded moves on campaigns,
  and no call changes the storage of another escrow, the ledger parameters, the deployed code
  or a token's configuration.\<close>

theorem escrow_refines_moves:
  assumes "escrow_step X c h h'"
  shows "escrow_move c (timestamp (ledger h)) (escrow_abs (escrows h c)) (escrow_abs (escrows h' c))
    \<and> escrow_view c h' = escrow_view c h"
  using escrow_step_move [OF assms] by (simp add: moves_escrow_def)

theorem escrow_refines_moves_witness:
  "escrow_move 100 3000000 (escrow_abs (escrow_with active0))
     (escrow_abs (escrows (projr (escrow_refund_expired X0 100 1 refund_call)) 100))"
  using escrow_refines_moves [OF escrow_step.refund [OF runs(4)]]
  by (simp add: refund_call_def holding_def)

text \<open>C18: the life of a campaign.  Once funded it stays on record with its sponsor, amount and
  dates for ever; it moves only from \<open>Funded\<close> to \<open>Active\<close>, from \<open>Active\<close> to \<open>Completed\<close> before its
  expiry with every other field unchanged, and from \<open>Funded\<close> or \<open>Active\<close> to \<open>Refunded\<close> at or
  after it; \<open>Completed\<close> and \<open>Refunded\<close> are final.\<close>

theorem campaign_lifecycle:
  assumes "escrow_step X c h h'" and "e_campaigns (escrows h c) k = Some (x, l)"
  shows "\<exists>y l'. e_campaigns (escrows h' c) k = Some (y, l')
    \<and> sponsor y = sponsor x \<and> amount y = amount x \<and> funded_at y = funded_at x \<and> expires_at y = expires_at x
    \<and> (y = x
       \<or> (status x = Funded \<and> status y = Active)
       \<or> (status x = Active \<and> y = x\<lparr>status := Completed\<rparr> \<and> timestamp (ledger h) < expires_at x)
       \<or> ((status x = Active \<or> status x = Funded) \<and> y = x\<lparr>status := Refunded\<rparr>
          \<and> expires_at x \<le> timestamp (ledger h)))"
  using escrow_step_campaign [OF assms] by (simp add: campaign_next_def)

theorem campaign_lifecycle_witness:
  "\<exists>y l'. e_campaigns (escrows (projr (escrow_complete X0 100 1 1 complete_call)) 100) 1 = Some (y, l')
     \<and> sponsor y = Account 3 \<and> amount y = 1000"
proof -
  have "e_campaigns (escrows complete_call 100) 1 = Some (active0, 700000)"
    by (simp add: call_defs escrow_with_def)
  from campaign_lifecycle [OF escrow_step.complete [OF runs(1)] this] show ?thesis
    by (auto simp: active0_def activated_def funded0_def new_campaign_def)
qed

section \<open>Settlement\<close>

text \<open>C4: a successful \<open>complete\<close> moves tokens as the split says and in no other way: every
  address whose balance the token keeps ends with its old balance plus what the five legs
  (creator, treasury, the two pools, referrer, all paid by the escrow) give it, and the legs
  add up to exactly the campaign's amount.\<close>

theorem complete_pays_split:
  assumes "escrow_complete X c k v h = Inr h'" and "e_campaigns (escrows h c) k = Some (x, l)"
    and "e_token (escrows h c) = Some (Contract t)"
  shows "\<exists>tr np rp rf. e_service_treasury (escrows h c) = Some tr \<and> e_nft_pool (escrows h c) = Some np
    \<and> e_revenue_pool (escrows h c) = Some rp \<and> referrer x = Some rf
    \<and> (\<Sum>(a, b, n)\<leftarrow>settle_legs (Contract c) x tr np rp rf. n) = amount x
    \<and> (\<forall>a. sac_tracked t h a \<longrightarrow>
          sac_bal t h' a = sac_bal t h a + net (settle_legs (Contract c) x tr np rp rf) a)"
proof -
  obtain tr np rp rf where d: "e_service_treasury (escrows h c) = Some tr" "e_nft_pool (escrows h c) = Some np"
    "e_revenue_pool (escrows h c) = Some rp" "referrer x = Some rf"
    using escrow_complete_destinations [OF assms(1,2)] by metis
  show ?thesis
    using d settle_legs_sum sac.moved_bal [OF escrow_complete_moved [OF assms d]] by blast
qed

theorem complete_pays_split_witness:
  "let h' = projr (escrow_complete X0 100 1 1 complete_call) in
   sac_bal 200 h' (Account 4) = sac_bal 200 complete_call (Account 4) + 820
   \<and> sac_bal 200 h' (Contract 101) = sac_bal 200 complete_call (Contract 101) + 50
   \<and> sac_bal 200 h' (Contract 100) = sac_bal 200 complete_call (Contract 100) - 1000"
proof -
  have h: "e_campaigns (escrows complete_call 100) 1 = Some (active0, 700000)"
      "e_token (escrows complete_call 100) = Some (Contract 200)"
      "e_service_treasury (escrows complete_call 100) = Some (Account 6)"
      "e_nft_pool (escrows complete_call 100) = Some (Contract 101)"
      "e_revenue_pool (escrows complete_call 100) = Some (Contract 102)"
      "referrer active0 = Some (Account 5)"
    by (simp_all add: call_defs escrow_with_def fresh_escrow_def active0_sel)
  have t: "sac_tracked 200 complete_call (Account 4)"
    by (simp add: sac_tracked_def read_asset_def read_asset_info_def call_defs get_instance_def string_to_array_def
        token0_def)
  have parts: "part_of SERVICE 1000 = 100" "part_of NFT_POOL 1000 = 50" "part_of REVENUE 1000 = 20"
      "part_of REFERRER 1000 = 10" "creator_part 1000 = 820"
    by (simp_all add: part_of_def creator_part_def SERVICE_def NFT_POOL_def REVENUE_def REFERRER_def DENOM_def)
  show ?thesis
    using complete_pays_split [OF runs(1) h(1,2)] h(3-) t
    by (auto simp: Let_def settle_legs_def active0_sel parts)
qed

text \<open>C24: the arithmetic of the split.  For every amount a campaign can have, the four
  percentages are computed without overflow, each is at least one unit and at most its
  nominal share, the creator's remainder is at least 82 percent, and the five parts add up to
  the amount.\<close>

theorem split_is_exact:
  assumes "MINIMUM_CAMPAIGN_AMOUNT \<le> n" and "n \<le> I128_MAX sdiv DENOM"
  shows "\<exists>s f r q. leg_amount n SERVICE = Inr s \<and> leg_amount n NFT_POOL = Inr f
    \<and> leg_amount n REVENUE = Inr r \<and> leg_amount n REFERRER = Inr q
    \<and> 1 \<le> s \<and> 10 * s \<le> n \<and> 1 \<le> f \<and> 20 * f \<le> n \<and> 1 \<le> r \<and> 50 * r \<le> n \<and> 1 \<le> q \<and> 100 * q \<le> n
    \<and> 82 * n \<le> 100 * (n - s - f - r - q) \<and> (n - s - f - r - q) + s + f + r + q = n"
proof -
  have fits: "checked_i128 (n * p) = Some (n * p)" if "0 \<le> p" "p \<le> 10000" for p
  proof -
    have "n * p \<le> n * 10000"
      using assms(1) that by (intro mult_left_mono) (auto simp: MINIMUM_CAMPAIGN_AMOUNT_def)
    moreover have "n * 10000 \<le> I128_MAX"
      using assms(2) by (simp add: DENOM_def I128_MAX_def sdiv_nonneg)
    moreover have "0 \<le> n * p"
      using assms(1) that by (auto simp: MINIMUM_CAMPAIGN_AMOUNT_def)
    ultimately show ?thesis
      by (simp add: checked_i128_def fits_i128_def I128_MIN_def)
  qed
  have leg: "leg_amount n p = Inr (part_of p n)" if "0 \<le> p" "p \<le> 10000" for p
    using fits [OF that] unfolding leg_amount_def part_of_def by (simp only: option.case)
  show ?thesis
    using leg [of SERVICE] leg [of NFT_POOL] leg [of REVENUE] leg [of REFERRER] split_bounds [OF assms(1)]
      part_of_bounds(2) [OF assms(1), of SERVICE] part_of_bounds(2) [OF assms(1), of NFT_POOL]
      part_of_bounds(2) [OF assms(1), of REVENUE] part_of_bounds(2) [OF assms(1), of REFERRER]
    by (simp add: creator_part_def SERVICE_def NFT_POOL_def REVENUE_def REFERRER_def)
qed

theorem split_is_exact_witness:
  "\<exists>s f r q. leg_amount 199 SERVICE = Inr s \<and> leg_amount 199 NFT_POOL = Inr f \<and> 1 \<le> s \<and> 1 \<le> f
     \<and> (199 - s - f - r - q) + s + f + r + q = 199"
  using split_is_exact [of 199] by (auto simp: MINIMUM_CAMPAIGN_AMOUNT_def I128_MAX_def DENOM_def)

text \<open>A successful \<open>complete\<close> credits the NFT pool and the revenue pool with exactly the legs
  paid to them, once, under the campaign's id, and changes no other pool.\<close>

lemma complete_credits_pools:
  assumes "escrow_complete X c k v h = Inr h'" and "e_campaigns (escrows h c) k = Some (x, l)"
    and "e_nft_pool (escrows h c) = Some (Contract p)" and "e_revenue_pool (escrows h c) = Some (Contract q)"
    and "p \<noteq> q"
  shows "pool_abs (pools h' p) = spec_credit k (part_of NFT_POOL (amount x)) (pool_abs (pools h p))
    \<and> pool_abs (pools h' q) = spec_credit k (part_of REVENUE (amount x)) (pool_abs (pools h q))
    \<and> (\<forall>r. r \<noteq> p \<longrightarrow> r \<noteq> q \<longrightarrow> pools h' r = pools h r)"
  using assms by (rule escrow_complete_credits)

lemma complete_credits_pools_witness:
  "p_total_credited (pools (projr (escrow_complete X0 100 1 1 complete_call)) 101) = Some 50"
proof -
  have h: "e_campaigns (escrows complete_call 100) 1 = Some (active0, 700000)"
      "e_nft_pool (escrows complete_call 100) = Some (Contract 101)"
      "e_revenue_pool (escrows complete_call 100) = Some (Contract 102)"
    by (simp_all add: call_defs escrow_with_def fresh_escrow_def)
  have "pool_abs (pools complete_call 101) = pool_abs fresh_pool"
    by (simp add: call_defs)
  then have "pool_abs (pools (projr (escrow_complete X0 100 1 1 complete_call)) 101)
      = spec_credit 1 50 (pool_abs fresh_pool)"
    using complete_credits_pools [OF runs(1) h] by (simp add: active0_sel part_of_def NFT_POOL_def DENOM_def)
  then have "p_total_credited (pool_abs (pools (projr (escrow_complete X0 100 1 1 complete_call)) 101))
      = Some 50"
    by (simp add: spec_credit_def credited_of_def pool_abs_instance fresh_pool_def unwrap_or_def)
  then show ?thesis
    by (simp add: pool_abs_instance)
qed

section \<open>Who can do what\<close>

text \<open>\<open>complete\<close> succeeds only for an active campaign, before its expiry, with the campaign's
  operation version, once, while the escrow is not paused, and with the authorization of the
  settlement authority; and it then marks the campaign completed, consumes the operation and
  releases the amount from the liability.\<close>

lemma complete_guarded:
  assumes "escrow_complete X c k v h = Inr h'"
  shows "\<exists>x l st. e_campaigns (escrows h c) k = Some (x, l) \<and> status x = Active \<and> v = operation_version x
    \<and> timestamp (ledger h) < expires_at x \<and> e_consumed (escrows h c) (k, v) = None \<and> \<not> escrow_paused c h
    \<and> e_settlement (escrows h c) = Some st \<and> has_authorized X st h
    \<and> escrow_abs (escrows h' c) = spec_complete k x (escrow_abs (escrows h c))"
proof -
  from assms obtain x l st tok h1 h2 where
    x: "e_campaigns (escrows h c) k = Some (x, l)" "status x = Active" "v = operation_version x"
      "timestamp (ledger h) < expires_at x" "e_consumed (escrows h c) (k, v) = None" "\<not> escrow_paused c h"
      "e_settlement (escrows h c) = Some st" and
    i: "escrow_init c h = Inr h1" and r: "require_auth X st h1 = Inr h2"
    by (rule escrow_complete_ok) blast
  have "has_authorized X st h"
    using require_auth_authorized [OF r] escrow_init_authorized [OF i] by simp
  then show ?thesis
    using x escrow_complete_eff(1) [OF assms x(1)] by (auto simp: escrow_eff_def)
qed

lemma complete_guarded_witness: "has_authorized X0 (Account 2) complete_call"
proof -
  have "e_settlement (escrows complete_call 100) = Some (Account 2)"
    by (simp add: call_defs escrow_with_def fresh_escrow_def)
  then show ?thesis
    using complete_guarded [OF runs(1)] by auto
qed

text \<open>\<open>fund\<close> succeeds only for a new id, an amount within its bounds and an escrow that is not
  paused, and with the sponsor's authorization; it then takes exactly the amount from the
  sponsor into the escrow and records the campaign with a 30-day expiry.\<close>

lemma fund_takes_amount:
  assumes "escrow_fund X c k sp n h = Inr h'" and "e_token (escrows h c) = Some (Contract t)"
  shows "e_campaigns (escrows h c) k = None \<and> \<not> escrow_paused c h
    \<and> MINIMUM_CAMPAIGN_AMOUNT \<le> n \<and> n \<le> I128_MAX sdiv DENOM \<and> has_authorized X sp h
    \<and> (\<forall>a. sac_tracked t h a \<longrightarrow> sac_bal t h' a = sac_bal t h a + net [(sp, Contract c, n)] a)
    \<and> escrow_abs (escrows h' c) = spec_fund c k sp n (timestamp (ledger h)) (escrow_abs (escrows h c))"
  using escrow_fund_ok [OF assms(1)] escrow_fund_authorized [OF assms(1)]
    sac.moved_bal [OF escrow_fund_moved [OF assms]]
  by (auto simp: escrow_eff_def)

lemma fund_takes_amount_witness:
  "has_authorized X0 (Account 3) fund_call
   \<and> sac_bal 200 (projr (escrow_fund X0 100 1 (Account 3) 1000 fund_call)) (Contract 100)
     = sac_bal 200 fund_call (Contract 100) + 1000"
proof -
  have "e_token (escrows fund_call 100) = Some (Contract 200)"
    by (simp add: call_defs fresh_escrow_def)
  from fund_takes_amount [OF runs(2) this] show ?thesis
    by auto
qed

text \<open>Only the sponsor activates a campaign, only from \<open>Funded\<close>, and only with a referrer and
  non-empty terms; activation fixes creator, referrer and terms and nothing else.\<close>

lemma activate_by_sponsor:
  assumes "escrow_activate X c k cr rf terms h = Inr h'"
  shows "\<exists>x l. e_campaigns (escrows h c) k = Some (x, l) \<and> status x = Funded \<and> rf \<noteq> None \<and> terms \<noteq> []
    \<and> \<not> escrow_paused c h \<and> has_authorized X (sponsor x) h
    \<and> escrow_abs (escrows h' c) = (escrow_abs (escrows h c))
        \<lparr>e_campaigns := (e_campaigns (escrow_abs (escrows h c)))(k \<mapsto> (activated cr rf terms x, 0))\<rparr>"
proof -
  from assms obtain x l h1 h2 where
    x: "e_campaigns (escrows h c) k = Some (x, l)" "status x = Funded" "rf \<noteq> None" "terms \<noteq> []"
      "\<not> escrow_paused c h" and
    i: "escrow_init c h = Inr h1" and r: "require_auth X (sponsor x) h1 = Inr h2" and
    e: "escrow_eff c (\<lambda>s. s\<lparr>e_campaigns := (e_campaigns s)(k \<mapsto> (activated cr rf terms x, 0))\<rparr>) h h'"
    by (rule escrow_activate_ok) blast
  have "has_authorized X (sponsor x) h"
    using require_auth_authorized [OF r] escrow_init_authorized [OF i] by simp
  then show ?thesis
    using x e by (auto simp: escrow_eff_def)
qed

lemma activate_by_sponsor_witness: "has_authorized X0 (Account 3) activate_call"
  using activate_by_sponsor [OF runs(3)]
  by (auto simp: call_defs escrow_with_def funded0_def new_campaign_def)

text \<open>C30: where a refund goes.  \<open>refund_expired\<close> succeeds only for an open campaign at or after its
  expiry; then it pays exactly the campaign's amount to the sponsor recorded at funding, out of the escrow's
  own balance, moves no other balance that the token keeps, and in the escrow's storage marks just this campaign refunded and
  releases just its amount.\<close>

theorem refund_pays_sponsor:
  assumes "escrow_refund_expired X c k h = Inr h'" and "e_token (escrows h c) = Some (Contract t)"
  shows "\<exists>x l. e_campaigns (escrows h c) k = Some (x, l) \<and> (status x = Active \<or> status x = Funded)
    \<and> expires_at x \<le> timestamp (ledger h)
    \<and> (\<forall>a. sac_tracked t h a \<longrightarrow>
          sac_bal t h' a = sac_bal t h a + net [(Contract c, sponsor x, amount x)] a)
    \<and> escrow_abs (escrows h' c) = spec_refund k x (escrow_abs (escrows h c))"
proof -
  from assms(1) obtain x l where
    x: "e_campaigns (escrows h c) k = Some (x, l)" "status x = Active \<or> status x = Funded"
      "expires_at x \<le> timestamp (ledger h)"
    by (rule escrow_refund_ok) blast
  show ?thesis
    using x escrow_refund_eff(1) [OF assms(1) x(1)] sac.moved_bal [OF escrow_refund_moved [OF assms(1) x(1) assms(2)]]
    by (auto simp: escrow_eff_def)
qed

theorem refund_pays_sponsor_witness:
  "sac_bal 200 (projr (escrow_refund_expired X0 100 1 refund_call)) (Contract 100)
     = sac_bal 200 refund_call (Contract 100) - 1000"
proof -
  have "e_token (escrows refund_call 100) = Some (Contract 200)"
    and c: "e_campaigns (escrows refund_call 100) 1 = Some (active0, 700000)"
    and s: "sponsor active0 = Account 3"
    by (simp_all add: call_defs escrow_with_def fresh_escrow_def active0_def activated_def funded0_def
        new_campaign_def)
  from refund_pays_sponsor [OF runs(4) this(1)] show ?thesis
    by (auto simp: c s active0_sel)
qed

text \<open>A role changes hands only in two steps: \<open>accept\<close> succeeds only for the nominee that
  governance has proposed, with the nominee's own authorization, and clears the nomination.\<close>

lemma accept_by_nominee:
  assumes "escrow_accept X c role h = Inr h'"
  shows "\<exists>a. (if role = 1 then e_pending_governance (escrows h c) else e_pending_settlement (escrows h c)) = Some a
    \<and> has_authorized X a h
    \<and> escrow_abs (escrows h' c) = spec_escrow_accept role a (escrow_abs (escrows h c))"
proof -
  from assms obtain h1 a h2 where i: "escrow_init c h = Inr h1"
    and a: "(if role = 1 then e_pending_governance (escrows h1 c) else e_pending_settlement (escrows h1 c)) = Some a"
    and r: "require_auth X a h1 = Inr h2"
    by (auto simp: escrow_accept_def ok_simps)
  have "escrows h1 = escrows h"
    using i by (auto dest: escrow_init_e simp: e_quiet_def outer_view_def)
  then show ?thesis
    using a escrow_accept_eff [OF assms] require_auth_authorized [OF r] escrow_init_authorized [OF i, of X a]
    by (auto simp: escrow_eff_def)
qed

lemma accept_by_nominee_witness:
  "e_settlement (escrows (projr (escrow_accept X0 100 2 accept_call)) 100) = Some (Account 9)"
proof -
  have "e_pending_settlement (escrows accept_call 100) = Some (Account 9)"
    by (simp add: call_defs nominated_def)
  then have "e_settlement (escrow_abs (escrows (projr (escrow_accept X0 100 2 accept_call)) 100)) = Some (Account 9)"
    using accept_by_nominee [OF runs(5)] by (auto simp: spec_escrow_accept_def)
  then show ?thesis
    by (simp add: escrow_abs_instance)
qed

section \<open>Calls that fail\<close>

text \<open>Nothing happens twice.  A completed or refunded campaign can not be completed,
  refunded or activated again, and its id can not be funded again.\<close>

lemma final_states_are_final:
  assumes "e_campaigns (escrows h c) k = Some (x, l)" and "status x = Completed \<or> status x = Refunded"
  shows "\<not> is_ok (escrow_complete X c k v h) \<and> \<not> is_ok (escrow_refund_expired X c k h)
    \<and> \<not> is_ok (escrow_activate X c k cr rf terms h) \<and> \<not> is_ok (escrow_fund X c k sp n h)"
proof -
  have "\<not> is_ok (escrow_complete X c k v h)"
    using assms by (auto dest!: is_okD elim!: escrow_complete_ok)
  moreover have "\<not> is_ok (escrow_refund_expired X c k h)"
    using assms by (auto dest!: is_okD elim!: escrow_refund_ok)
  moreover have "\<not> is_ok (escrow_activate X c k cr rf terms h)"
    using assms by (auto dest!: is_okD elim!: escrow_activate_ok)
  moreover have "\<not> is_ok (escrow_fund X c k sp n h)"
    using assms escrow_fund_ok(1) by (fastforce dest!: is_okD)
  ultimately show ?thesis
    by blast
qed

text \<open>Which error a call returns.  On an initialized escrow, an amount outside the bounds is
  \<open>InvalidAmount\<close>; while paused, \<open>fund\<close> is \<open>Paused\<close>; a refund of an unknown campaign is
  \<open>CampaignNotFound\<close>; if the campaign's record is live, a refund of a closed one is \<open>InvalidState\<close>, and
  before the expiry \<open>NotExpired\<close>.\<close>

lemma escrow_error_codes:
  assumes "escrow_init c h = Inr h1"
  shows "(n < MINIMUM_CAMPAIGN_AMOUNT \<or> I128_MAX sdiv DENOM < n \<longrightarrow>
      escrow_fund X c k sp n h = Inl (eerr E_InvalidAmount))
    \<and> (MINIMUM_CAMPAIGN_AMOUNT \<le> n \<and> n \<le> I128_MAX sdiv DENOM \<and> escrow_paused c h \<longrightarrow>
      escrow_fund X c k sp n h = Inl (eerr E_Paused))
    \<and> (e_campaigns (escrows h c) k = None \<longrightarrow>
      escrow_refund_expired X c k h = Inl (eerr E_CampaignNotFound))
    \<and> (e_campaigns (escrows h c) k = Some (x, l) \<and> sequence_number (ledger h) \<le> l \<longrightarrow>
        (status x = Completed \<or> status x = Refunded \<longrightarrow>
           escrow_refund_expired X c k h = Inl (eerr E_InvalidState))
      \<and> ((status x = Active \<or> status x = Funded) \<and> timestamp (ledger h) < expires_at x \<longrightarrow>
           escrow_refund_expired X c k h = Inl (eerr E_NotExpired)))"
proof -
  have q: "escrows h1 = escrows h" "ledger h1 = ledger h"
    using escrow_init_e [OF assms] by (auto simp: e_quiet_def outer_view_def host_view_def)
  have p: "escrow_paused c h1 = escrow_paused c h"
    by (simp add: escrow_paused_def q)
  have f: "n < MINIMUM_CAMPAIGN_AMOUNT \<or> I128_MAX sdiv DENOM < n \<Longrightarrow>
      escrow_fund X c k sp n h = Inl (eerr E_InvalidAmount)"
    by (simp add: escrow_fund_def assms run_simps)
  have g: "MINIMUM_CAMPAIGN_AMOUNT \<le> n \<Longrightarrow> n \<le> I128_MAX sdiv DENOM \<Longrightarrow> escrow_paused c h \<Longrightarrow>
      escrow_fund X c k sp n h = Inl (eerr E_Paused)"
    by (simp add: escrow_fund_def assms p run_simps)
  note r = escrow_refund_expired_def with_campaign_def assms q lookup_entry_def has_entry_def get_entry_def
    try_get_entry_def run_simps
  have a: "e_campaigns (escrows h c) k = None \<Longrightarrow>
      escrow_refund_expired X c k h = Inl (eerr E_CampaignNotFound)"
    by (simp add: r)
  have b: "e_campaigns (escrows h c) k = Some (x, l) \<Longrightarrow> sequence_number (ledger h) \<le> l \<Longrightarrow>
      status x = Completed \<or> status x = Refunded \<Longrightarrow>
      escrow_refund_expired X c k h = Inl (eerr E_InvalidState)"
    by (auto simp add: r)
  have "e_campaigns (escrows h c) k = Some (x, l) \<Longrightarrow> sequence_number (ledger h) \<le> l \<Longrightarrow>
      status x = Active \<or> status x = Funded \<Longrightarrow> timestamp (ledger h) < expires_at x \<Longrightarrow>
      escrow_refund_expired X c k h = Inl (eerr E_NotExpired)"
    by (auto simp add: r)
  with f g a b show ?thesis
    by blast
qed

lemma escrow_error_codes_witness:
  "escrow_fund X0 100 2 (Account 3) 99 complete_call = Inl (eerr E_InvalidAmount)
   \<and> escrow_refund_expired X0 100 2 complete_call = Inl (eerr E_CampaignNotFound)
   \<and> escrow_refund_expired X0 100 1 complete_call = Inl (eerr E_NotExpired)"
proof -
  have "e_governance (escrows complete_call 100) \<noteq> None"
    by (simp add: call_defs escrow_with_def fresh_escrow_def)
  then have i: "escrow_init 100 complete_call = Inr complete_call"
    by (simp add: complete_call_st init0)
  have c: "e_campaigns (escrows complete_call 100) = [1 \<mapsto> (active0, 700000)]"
      "sequence_number (ledger complete_call) = 1000" "timestamp (ledger complete_call) = 5000"
    by (simp_all add: call_defs escrow_with_def)
  show ?thesis
    using escrow_error_codes [OF i, of 99 X0 2 "Account 3"] escrow_error_codes [OF i, of 99 X0 1 "Account 3" active0 700000]
      active0_sel c
    by (simp add: MINIMUM_CAMPAIGN_AMOUNT_def)
qed

section \<open>Set-up\<close>

lemma call_pool_query_value:
  assumes "call_pool_query pool fn body h = Inr (a, h')"
    and "\<And>p u v w. body p u = Inr (v, w) \<Longrightarrow> w = u \<and> val (pools u p) = Some v"
  shows "\<exists>p. pool = Contract p \<and> val (pools h p) = Some a \<and> pools h' = pools h"
proof -
  from assms(1) obtain p where p: "contract_of pool = Some p"
    and q: "call_query p (Wasm ContributorPool) fn [] (body p) h = Inr (a, h')"
    by (auto simp: call_pool_query_def ok_simps)
  from q obtain h1 h2 where e: "enter_contract p (Wasm ContributorPool) fn [] h = Inr h1"
    and b: "body p h1 = Inr (a, h2)" and h': "h' = h2\<lparr>frames := tl (frames h2), auth := am_pop_frame (auth h2)\<rparr>"
    by (rule call_query_ok)
  show ?thesis
    using p assms(2) [OF b] enter_contract_shape [OF e] h' by (cases pool) auto
qed

lemma pool_query_values:
  "call_pool_query pool fn pool_escrow_contract h = Inr (a, h') \<Longrightarrow>
     \<exists>p. pool = Contract p \<and> p_escrow (pools h p) = Some a \<and> pools h' = pools h"
  "call_pool_query pool fn pool_token_contract h = Inr (a, h') \<Longrightarrow>
     \<exists>p. pool = Contract p \<and> p_token (pools h p) = Some a \<and> pools h' = pools h"
  by (erule call_pool_query_value,
      auto simp: pool_escrow_contract_def pool_token_contract_def pool_escrow_def pool_token_def ok_simps)+

lemma initialize_pools:
  assumes "escrow_initialize X c g sa tok tr nft rvp dep salt h = Inr h'"
  shows "\<exists>p q. nft = Contract p \<and> rvp = Contract q
    \<and> p_escrow (pools h p) = Some (Contract c) \<and> p_escrow (pools h q) = Some (Contract c)
    \<and> p_token (pools h p) = Some tok \<and> p_token (pools h q) = Some tok"
proof -
  from assms obtain h1 h2 h3 h4 h5 where r: "require_auth X dep h = Inr h1"
    and q: "call_pool_query nft ''escrow_contract'' pool_escrow_contract h1 = Inr (Contract c, h2)"
      "call_pool_query rvp ''escrow_contract'' pool_escrow_contract h2 = Inr (Contract c, h3)"
      "call_pool_query nft ''token_contract'' pool_token_contract h3 = Inr (tok, h4)"
      "call_pool_query rvp ''token_contract'' pool_token_contract h4 = Inr (tok, h5)"
    by (auto simp: escrow_initialize_def ok_simps)
  have "pools h1 = pools h"
    using r keeps_pools(1) [of X dep] by (auto simp: keeps_def)
  then show ?thesis
    using pool_query_values(1) [OF q(1)] pool_query_values(1) [OF q(2)]
      pool_query_values(2) [OF q(3)] pool_query_values(2) [OF q(4)]
    by auto
qed

text \<open>An escrow is initialized at most once, only at the address that its deployer's salt
  determines and with that deployer's authorization, and only with two different pools which
  both name this escrow and this token; all roles and destinations are then fixed as given.\<close>

lemma escrow_initialized_once:
  assumes "escrow_initialize X c g sa tok tr nft rvp dep salt h = Inr h'"
  shows "e_governance (escrows h c) = None \<and> deployed_address X dep salt = Contract c \<and> has_authorized X dep h
    \<and> (\<exists>p q. nft = Contract p \<and> rvp = Contract q \<and> p \<noteq> q
         \<and> p_escrow (pools h p) = Some (Contract c) \<and> p_escrow (pools h q) = Some (Contract c)
         \<and> p_token (pools h p) = Some tok \<and> p_token (pools h q) = Some tok)
    \<and> escrow_abs (escrows h' c) = spec_escrow_initialize g sa tok tr nft rvp (escrow_abs (escrows h c))
    \<and> \<not> is_ok (escrow_initialize X c g' sa' tok' tr' nft' rvp' dep' salt' h')"
proof -
  have r: "\<exists>h2. require_auth X dep h = Inr h2"
    using assms by (auto simp: escrow_initialize_def ok_simps)
  have e: "escrow_abs (escrows h' c) = spec_escrow_initialize g sa tok tr nft rvp (escrow_abs (escrows h c))"
    using escrow_initialize_ok [OF assms] by (simp add: escrow_eff_def)
  then have "e_governance (escrow_abs (escrows h' c)) = Some g"
    by (simp add: spec_escrow_initialize_def)
  then have "e_governance (escrows h' c) \<noteq> None"
    by (simp add: escrow_abs_instance)
  then have "\<not> is_ok (escrow_initialize X c g' sa' tok' tr' nft' rvp' dep' salt' h')"
    by (auto dest!: is_okD escrow_initialize_ok)
  then show ?thesis
    using e r escrow_initialize_ok [OF assms] initialize_pools [OF assms] by (auto dest: require_auth_authorized)
qed

lemma escrow_initialized_once_witness:
  "has_authorized X0 (Account 1) init_call
   \<and> e_settlement (escrow_abs (escrows (projr (escrow_initialize X0 100 (Account 1) (Account 2) (Contract 200) (Account 6)
       (Contract 101) (Contract 102) (Account 1) [100] init_call)) 100)) = Some (Account 2)"
  using escrow_initialized_once [OF is_ok_projr [OF init_call_ok]] by (simp add: spec_escrow_initialize_def)

end
