(* ===== verification/Pool_Properties.thy ===== *)
theory Pool_Properties
  imports Scenario_Runs
begin

text \<open>
  What a contributor pool guarantees: its books and its solvency, that an allocation is paid
  once, exactly and to its recipient, that only the escrow credits it and only once per
  campaign, and that a manifest needs both roles and stays within the credited funds.  Each
  theorem is followed by an instance in the deployment of \<open>Scenario\<close>.
\<close>

section \<open>The states of the deployment\<close>

lemma unclaimed_two: "unclaimed m k (Suc (Suc 0)) = owed (m (k, 0)) + owed (m (k, 1))"
  by (simp add: unclaimed_def lessThan_Suc One_nat_def)

lemma pool_published_inv: "pool_inv pool_published"
proof -
  have "manifest_inv pool_published 1 manifest0"
    by (auto simp: manifest_inv_def manifest0_def new_manifest_def pool_published_def pool_credited_def
        unwrap_or_def unclaimed_two owed_def less_Suc_eq One_nat_def)
  then show ?thesis
    by (auto simp: pool_inv_def pool_published_def pool_credited_def fresh_pool_def liability_of_def credited_of_def
        paid_of_def unwrap_or_def map_sum_one manifest0_def new_manifest_def split: if_splits)
qed

lemma with_pool_solvent:
  "pools h 101 = p \<Longrightarrow> sacs h 200 = token0 [Contract 101 \<mapsto> bal0 50] \<Longrightarrow> p = pool_published \<Longrightarrow>
     pool_solvent 200 101 h"
  by (simp add: pool_solvent_def pool_published_def pool_credited_def fresh_pool_def credited_of_def paid_of_def
      unwrap_or_def sac_bal_def token0_def bal0_def)

lemma claim_call_slots:
  "p_manifests (pools claim_call 101) 1 = Some (manifest0, 701000)"
  "p_allocations (pools claim_call 101) (1, 0) = Some (\<lparr>recipient = Account 4, a_amount = 30, claimed = False\<rparr>, 701000)"
  "p_token (pools claim_call 101) = Some (Contract 200)"
  by (simp_all add: call_defs pool_published_def pool_credited_def fresh_pool_def)

section \<open>Books and solvency\<close>

text \<open>C7: a call of any exported function of a pool keeps it solvent: the token balance of the
  pool covers everything credited to it and not yet paid out.\<close>

theorem pool_stays_solvent:
  assumes "pool_step X c h h'" and "pool_inv (pools h c)" and "pool_solvent t c h"
    and "p_governance (pools h c) \<noteq> None"
  shows "pool_solvent t c h'"
  using assms by (rule pool_step_solvent)

theorem pool_stays_solvent_witness: "pool_solvent 200 101 (projr (pool_claim X0 101 1 0 claim_call))"
proof (rule pool_stays_solvent [OF pool_step.claim [OF runs(8)]])
  show "pool_inv (pools claim_call 101)"
    by (simp add: call_defs pool_published_inv)
  show "pool_solvent 200 101 claim_call"
    by (rule with_pool_solvent) (simp_all add: call_defs)
  show "p_governance (pools claim_call 101) \<noteq> None"
    by (simp add: call_defs pool_published_def pool_credited_def fresh_pool_def)
qed

text \<open>C8: in any sequence of calls of its exported functions, interleaved with anything that
  does not write the pool's storage, the invariant of that storage is preserved: the
  stored liability is the sum of the remaining amounts of the manifests, an active manifest's
  remaining amount is the sum of its unclaimed allocations and positive, a closed one's is
  zero, the liability is within what has been credited and not paid, and the two roles are
  held by different addresses.\<close>

theorem pool_invariant:
  assumes "(\<lambda>u v. pool_step X c u v \<or> pools v c = pools u c)\<^sup>*\<^sup>* h h'" and "pool_inv (pools h c)"
  shows "pool_inv (pools h' c)"
  using pol.run_keeps assms unfolding pol.run_def .

theorem pool_invariant_witness: "pool_inv (pools (projr (pool_expire_manifest 101 1 expire_call)) 101)"
  by (rule pool_invariant [OF r_into_rtranclp, OF disjI1, OF pool_step.expire_manifest [OF runs(6)]])
    (simp add: call_defs pool_published_inv)

section \<open>Claims\<close>

text \<open>C26: a claim succeeds only for an unclaimed allocation of an active manifest before its
  expiry, while the pool is not paused, and with the recipient's authorization; it pays
  exactly the allocation to its recipient, touches no other balance, and marks it claimed.\<close>

theorem claim_pays_recipient:
  fixes h h' :: "'z pool_host_scheme"
  assumes "pool_claim X c k i h = Inr h'" and "p_token (pools h c) = Some (Contract t)"
  shows "\<exists>m l a l'. p_manifests (pools h c) k = Some (m, l) \<and> p_allocations (pools h c) (k, i) = Some (a, l')
    \<and> m_status m = ManifestActive \<and> timestamp (ledger h) < m_expires_at m \<and> i < allocation_count m
    \<and> \<not> claimed a \<and> \<not> pool_paused c h \<and> has_authorized X (recipient a) h
    \<and> (\<forall>x. sac_tracked t h x \<longrightarrow> sac_bal t h' x = sac_bal t h x + net [(Contract c, recipient a, a_amount a)] x)
    \<and> pool_abs (pools h' c) = spec_claim k i m a (pool_abs (pools h c))"
proof -
  from assms(1) obtain m l a l' and h1 h2 :: "'z pool_host_scheme" where
    m: "p_manifests (pools h c) k = Some (m, l)" and a: "p_allocations (pools h c) (k, i) = Some (a, l')" and
    g: "m_status m = ManifestActive" "timestamp (ledger h) < m_expires_at m" "i < allocation_count m"
      "\<not> claimed a" "\<not> pool_paused c h" and
    r: "pool_init c h = Inr h1" "require_auth X (recipient a) h1 = Inr h2"
    by (rule pool_claim_ok) blast
  have "sac_bal t h' x = sac_bal t h x + net [(Contract c, recipient a, a_amount a)] x" if "sac_tracked t h x" for x
    using pool_claim_pays [OF assms a that] by simp
  then show ?thesis
    using m a g pool_require_auth_authorized [OF r] pool_claim_eff [OF assms(1) m a]
    by (auto simp: pool_eff_def)
qed

theorem claim_pays_recipient_witness:
  "has_authorized X0 (Account 4) claim_call
   \<and> sac_bal 200 (projr (pool_claim X0 101 1 0 claim_call)) (Contract 101)
     = sac_bal 200 claim_call (Contract 101) - 30"
  using claim_pays_recipient [OF runs(8) claim_call_slots(3)] claim_call_slots(2) by auto

text \<open>An allocation is paid at most once: once it is claimed, or its manifest completed or
  expired, every claim of it fails.\<close>

lemma claim_once:
  assumes "p_manifests (pools h c) k = Some (m, l)" and "p_allocations (pools h c) (k, i) = Some (a, l')"
    and "claimed a \<or> m_status m \<noteq> ManifestActive \<or> m_expires_at m \<le> timestamp (ledger h)"
  shows "\<not> is_ok (pool_claim X c k i h)"
  using assms by (auto dest!: is_okD elim!: pool_claim_ok)

section \<open>Credits\<close>

text \<open>C27: a pool is credited only with the authorization of its escrow, only once per campaign,
  only with a positive amount, and only if its token balance covers all outstanding credits
  with the new one; a second credit for the same campaign fails.\<close>

theorem credit_by_escrow_once:
  fixes h h' :: "'z pool_host_scheme"
  assumes "pool_record_credit X c k n h = Inr h'" and "p_token (pools h c) = Some (Contract t)"
  shows "(\<exists>e. p_escrow (pools h c) = Some e \<and> has_authorized X e h)
    \<and> p_credited (pools h c) k = None \<and> 0 < n
    \<and> credited_of (pools h c) + n - paid_of (pools h c) \<le> sac_bal t h (Contract c)
    \<and> pool_abs (pools h' c) = spec_credit k n (pool_abs (pools h c))
    \<and> \<not> is_ok (pool_record_credit X c k n' h')"
proof -
  from assms(1) obtain h1 e and h2 :: "'z pool_host_scheme" where i: "pool_init c h = Inr h1"
    and e: "p_escrow (pools h1 c) = Some e" and r: "require_auth X e h1 = Inr h2"
    by (auto simp: pool_record_credit_def pool_escrow_def ok_simps)
  have "pools h1 = pools h"
    using pool_init_quiet [OF i] pool_quietD by blast
  moreover have eff: "pool_abs (pools h' c) = spec_credit k n (pool_abs (pools h c))"
    using pool_record_credit_ok(1) [OF assms(1)] by (simp add: pool_eff_def)
  moreover have "p_credited (pools h' c) k \<noteq> None"
    using arg_cong [OF eff, of "\<lambda>p. p_credited p k"] by (auto simp: spec_credit_def pool_abs_def)
  then have "\<not> is_ok (pool_record_credit X c k n' h')"
    using pool_record_credit_ok(3) by (fastforce dest!: is_okD)
  ultimately show ?thesis
    using e pool_require_auth_authorized [OF i r] pool_record_credit_ok(2,3) [OF assms(1)]
      pool_record_credit_covered [OF assms] by auto
qed

theorem credit_by_escrow_once_witness:
  "has_authorized X0 (Contract 100) credit_call
   \<and> \<not> is_ok (pool_record_credit X0 101 1 50 (projr (pool_record_credit X0 101 1 50 credit_call)))"
proof -
  have "p_token (pools credit_call 101) = Some (Contract 200)" and e: "p_escrow (pools credit_call 101) = Some (Contract 100)"
    by (simp_all add: call_defs fresh_pool_def)
  from credit_by_escrow_once [OF runs(7) this(1), of 50] e show ?thesis
    by auto
qed

section \<open>Manifests\<close>

text \<open>C28: a manifest is published only with the authorization of governance and of the
  eligibility authority, under an id above every earlier one, with 1 to 64 allocations to
  different recipients, each positive, with a claim window of at most 30 days, and only within
  the credited funds that no earlier manifest claims; its allocations are stored as given.\<close>

theorem publish_needs_both_roles:
  fixes h h' :: "'z pool_host_scheme"
  assumes "pool_publish_manifest X c k mh ph ex rs ns h = Inr h'"
  shows "\<exists>g e. p_governance (pools h c) = Some g \<and> p_eligibility (pools h c) = Some e
    \<and> has_authorized X g h \<and> has_authorized X e h \<and> \<not> pool_paused c h
    \<and> length rs = length ns \<and> 0 < length rs \<and> length rs \<le> MAX_ALLOCATIONS
    \<and> distinct rs \<and> (\<forall>n\<in>set ns. 0 < n)
    \<and> p_manifests (pools h c) k = None \<and> unwrap_or (p_latest_manifest_id (pools h c)) 0 < k
    \<and> timestamp (ledger h) < ex \<and> ex \<le> timestamp (ledger h) + MAX_CLAIM_WINDOW
    \<and> liability_of (pools h c) + sum_list ns \<le> credited_of (pools h c) - paid_of (pools h c)
    \<and> pool_abs (pools h' c) = spec_publish k mh ph ex (zip rs ns) (pool_abs (pools h c))"
proof -
  from assms obtain g e and h1 h2 h3 :: "'z pool_host_scheme" where
    i: "pool_init c h = Inr h1" and ra: "require_auth X g h1 = Inr h2" and rb: "require_auth X e h2 = Inr h3" and
    g: "p_governance (pools h1 c) = Some g" and e: "p_eligibility (pools h1 c) = Some e"
    by (auto simp: pool_publish_manifest_def pool_current_governance_def pool_current_eligibility_def ok_simps)
  have same: "pools h1 = pools h"
    using pool_init_quiet [OF i] pool_quietD by blast
  have auth: "has_authorized X g h" "has_authorized X e h"
    using pool_require_auth_authorized [OF i ra] has_authorized_backwards [OF ra require_auth_authorized [OF rb]]
      pool_init_authorized [OF i] by auto
  from assms have ok: "\<not> pool_paused c h" "length rs = length ns"
      "manifest_ok (timestamp (ledger h)) k ex (zip rs ns) (pool_abs (pools h c))"
      "pool_eff c (spec_publish k mh ph ex (zip rs ns)) h h'"
    by (auto elim: pool_publish_manifest_ok)
  have pos: "\<forall>n\<in>set ns. 0 < n"
  proof
    fix n assume "n \<in> set ns"
    then obtain j where "j < length ns" "ns ! j = n"
      by (auto simp: in_set_conv_nth)
    then have "(rs ! j, n) \<in> set (zip rs ns)"
      using ok(2) by (auto simp: in_set_zip)
    then show "0 < n"
      using ok(3) by (auto simp: manifest_ok_def)
  qed
  show ?thesis
    using g e same auth ok pos
    by (auto simp: manifest_ok_def pool_eff_def pool_abs_instance liability_of_def credited_of_def paid_of_def
        pool_abs_def)
qed

theorem publish_needs_both_roles_witness:
  "has_authorized X0 (Account 1) publish_call \<and> has_authorized X0 (Account 7) publish_call"
  using publish_needs_both_roles [OF runs(9)]
  by (auto simp: call_defs pool_credited_def fresh_pool_def)

text \<open>Expiring a manifest is possible only at or after its expiry; it releases exactly the
  unclaimed rest from the liability, so that a later manifest can allocate it, and moves no
  token at all.\<close>

lemma expire_releases_rest:
  assumes "pool_expire_manifest c k h = Inr h'"
  shows "\<exists>m l. p_manifests (pools h c) k = Some (m, l) \<and> m_status m = ManifestActive
    \<and> m_expires_at m \<le> timestamp (ledger h)
    \<and> pool_abs (pools h' c) = spec_expire k m (pool_abs (pools h c))
    \<and> liability_of (pools h' c) = liability_of (pools h c) - remaining_amount m
    \<and> (\<forall>t. sac_bal t h' = sac_bal t h)"
proof -
  from assms obtain m l where m: "p_manifests (pools h c) k = Some (m, l)" "m_status m = ManifestActive"
      "m_expires_at m \<le> timestamp (ledger h)" and e: "pool_eff c (spec_expire k m) h h'"
    by (rule pool_expire_manifest_ok)
  have eff: "pool_abs (pools h' c) = spec_expire k m (pool_abs (pools h c))"
    using e by (simp add: pool_eff_def)
  moreover have "liability_of (pools h' c) = liability_of (pools h c) - remaining_amount m"
    using arg_cong [OF eff, of liability_of] by (simp add: spec_expire_def liability_of_def pool_abs_instance unwrap_or_def)
  moreover have "sac_bal t h' = sac_bal t h" for t
    using keepsD [OF tok_view_expire assms, of t c] by (simp add: tok_view_def)
  ultimately show ?thesis
    using m by blast
qed

lemma expire_releases_rest_witness:
  "liability_of (pools (projr (pool_expire_manifest 101 1 expire_call)) 101) = 0"
  using expire_releases_rest [OF runs(6)]
  by (auto simp: call_defs pool_published_def manifest0_def new_manifest_def liability_of_def unwrap_or_def)

end
