(* ===== verification/Token_Properties.thy ===== *)
theory Token_Properties
  imports Scenario_Runs Token_Steps
begin

text \<open>
  What the built-in asset contract guarantees to the contracts that hold it: a transfer moves
  exactly its amount, with the owner's authorization, and creates or destroys nothing; and no call
  takes from a contract that has given no allowance and can not be clawed back.
\<close>

section \<open>Transfers\<close>

text \<open>C31: a transfer of the asset contract succeeds only for an amount that is not negative and
  with the authorization of the payer; it adds exactly the amount to the payee, takes exactly
  the amount from the payer (who may be the payee) and touches no other balance the asset
  keeps, so that the sum over any set of holders with both of them is the same; and a contract
  can not pay more than it has.\<close>

theorem transfer_exact:
  fixes h h' :: "'z sac_host_scheme"
  assumes "sac_transfer X c a b n h = Inr h'"
  shows "0 \<le> n \<and> has_authorized X a h
    \<and> (\<forall>x. sac_tracked c h x \<longrightarrow> sac_bal c h' x = sac_bal c h x + net [(a, b, n)] x)
    \<and> (\<forall>A. finite A \<and> {a, b} \<subseteq> A \<and> (\<forall>x\<in>A. sac_tracked c h x) \<longrightarrow> sum (sac_bal c h') A = sum (sac_bal c h) A)
    \<and> (\<forall>d. a = Contract d \<longrightarrow> n \<le> max 0 (sac_bal c h a))"
proof -
  obtain h1 h2 :: "'z sac_host_scheme" where ok: "0 \<le> n" "has_authorized X a h" "sac_bal c h1 = sac_bal c h" "spend_balance c a n h1 = Inr h2"
    using assms by (rule sac_transfer_ok) blast
  note bal = sac_transfer_bal [OF assms]
  have "sum (sac_bal c h') A = sum (sac_bal c h) A"
    if A: "finite A" "{a, b} \<subseteq> A" "\<forall>x\<in>A. sac_tracked c h x" for A
  proof -
    have "sum (sac_bal c h') A = (\<Sum>x\<in>A. sac_bal c h x + ((if x = b then n else 0) - (if x = a then n else 0)))"
      using A(3) bal by (intro sum.cong) auto
    also have "\<dots> = sum (sac_bal c h) A"
      using A(1,2) by (simp add: sum.distrib sum_subtractf)
    finally show ?thesis .
  qed
  moreover have "n \<le> max 0 (sac_bal c h a)" if "a = Contract d" for d
    using spend_nocheck_covered [of c d n h1 h2] ok that
    by (simp add: spend_balance_def check_authorized_ok ok_simps)
  ultimately show ?thesis
    using ok bal by auto
qed

definition transfer_call :: escrow_host where
  "transfer_call = calling 200 ''transfer'' [SAddress (Account 3), SAddress (Contract 100), SI128 1000] [(3, [])] empty0"

theorem transfer_exact_witness:
  "has_authorized X0 (Account 3) transfer_call
   \<and> sac_bal 200 (projr (sac_transfer X0 200 (Account 3) (Contract 100) 1000 transfer_call)) (Contract 100)
     = sac_bal 200 transfer_call (Contract 100) + 1000"
proof -
  have "is_ok (sac_transfer X0 200 (Account 3) (Contract 100) 1000 transfer_call)"
    by code_simp
  from transfer_exact [OF is_ok_projr [OF this]] show ?thesis
    by simp
qed

section \<open>What a holder can rely on\<close>

definition delegated_call :: escrow_host where
  "delegated_call = calling 200 ''transfer_from'' [] [(9, [])]
     (empty0\<lparr>sacs := (sacs empty0)(200 := (sacs empty0 200)\<lparr>sac_allowances :=
        [(Account 3, Account 9) \<mapsto> (\<lparr>av_amount = 400, av_live_until_ledger = 2000\<rparr>, 2000)]\<rparr>)\<rparr>)"

lemma delegated_transfer_spends_allowance_witness:
  "read_allowance 200 (Account 3) (Account 9)
     (projr (sac_transfer_from X0 200 (Account 9) (Account 3) (Contract 100) 150 delegated_call)) = Inr 250"
proof -
  have run: "is_ok (sac_transfer_from X0 200 (Account 9) (Account 3) (Contract 100) 150 delegated_call)"
    by code_simp
  have "read_allowance 200 (Account 3) (Account 9) delegated_call = Inr 400"
    by code_simp
  with delegated_transfer_spends_allowance [OF is_ok_projr [OF run]] show ?thesis
    by simp
qed



end
