(* ===== verification/Host_Properties.thy ===== *)
theory Host_Properties
  imports Scenario
begin

text \<open>
  What the authorization framework guarantees to every contract: what a granted authorization
  rests on, that a signed invocation is used at most once and is restored when a call rolls
  back, that a nonce is not accepted twice, and which signatures the 2-of-3 role accounts
  accept.
\<close>

section \<open>Life of a tracked tree\<close>

text \<open>\<open>usage t n t'\<close>: between \<open>t\<close> and \<open>t'\<close> frames were pushed and popped and calls were
  matched, \<open>n\<close> of them successfully.\<close>

inductive usage :: "invocation_tracker \<Rightarrow> nat \<Rightarrow> invocation_tracker \<Rightarrow> bool" where
  start: "usage t 0 t"
| push: "usage t n u \<Longrightarrow> usage t n (tracker_push_frame u)"
| pop: "usage t n u \<Longrightarrow> usage t n (tracker_pop_frame u)"
| used: "usage t n u \<Longrightarrow> maybe_extend_invocation_match u f allow = Inr (True, v) \<Longrightarrow> usage t (Suc n) v"
| unused: "usage t n u \<Longrightarrow> maybe_extend_invocation_match u f allow = Inr (False, v) \<Longrightarrow> usage t n v"

lemma frame_root [simp]:
  "root_authorized_invocation (tracker_push_frame t) = root_authorized_invocation t"
  "root_authorized_invocation (tracker_pop_frame t) = root_authorized_invocation t"
  by (simp_all add: tracker_push_frame_def tracker_pop_frame_def Let_def)

lemma same_shape_trans: "same_shape s t \<Longrightarrow> same_shape t u \<Longrightarrow> same_shape s u"
proof (induction s t arbitrary: u rule: same_shape.induct)
  case (1 f ss e g ts d)
  then obtain us x where u: "u = AuthInv g us x" "list_all2 same_shape ts us"
    by (cases u) auto
  moreover have "list_all2 same_shape ss us"
    using "1.prems"(1) u(2)
    by (intro list_all2_all_nthI, auto simp: list_all2_conv_all_nth) (metis "1.IH" nth_mem)
  ultimately show ?case
    using "1.prems"(1) by simp
qed

lemma tree_size_shape: "same_shape s t \<Longrightarrow> tree_size s = tree_size t"
proof (induction s t rule: same_shape.induct)
  case (1 f ss e g ts d)
  then have "map tree_size ss = map tree_size ts"
    by (intro nth_equalityI) (auto simp: list_all2_conv_all_nth)
  then show ?case
    by simp
qed

lemma usage_shape: "usage t n u \<Longrightarrow> same_shape (root_authorized_invocation u) (root_authorized_invocation t)"
proof (induction rule: usage.induct)
  case (used t n u f allow v)
  then show ?case
    using extend_match_ok [OF used.hyps(2)] exhaust_at_shape same_shape_trans by fastforce
next
  case (unused t n u f allow v)
  then show ?case
    using extend_match_no by blast
qed (simp_all add: same_shape_refl)

lemma usage_count:
  "usage t n u \<Longrightarrow> exhausted_count (root_authorized_invocation u) = exhausted_count (root_authorized_invocation t) + n"
proof (induction rule: usage.induct)
  case (used t n u f allow v)
  then show ?case
    using extend_match_count [OF used.hyps(2)] by simp
next
  case (unused t n u f allow v)
  then show ?case
    using extend_match_no by blast
qed simp_all

section \<open>Properties\<close>

text \<open>C9: \<open>require_auth\<close> lets a call pass only if the address is the contract that made the call,
  or issued an unused authorization for exactly this contract, function and arguments higher up
  the stack, or signed a tree with an unused node for exactly this call and the signature is
  accepted.  If the address is an account or the calling contract, so that no contract code is run to
  check a signature, it changes nothing but the authorization state and the nonces.\<close>

theorem require_auth_sound:
  assumes "require_auth X a h = Inr h'"
  shows "\<exists>f. current_call h = Some f
    \<and> (direct_invoker (auth h) = Some a
       \<or> (\<exists>t\<in>set (invoker_contract_trackers (auth h)). it_contract_address t = a \<and> offers (it_tracker t) f)
       \<or> (\<exists>t\<in>set (account_trackers (auth h)). at_address t = a \<and> offers (at_tracker t) f
            \<and> (at_verified t \<or> authenticate X (account_entries h) (ledger h) t = Inr ())))
    \<and> ((\<exists>k. a = Account k) \<or> direct_invoker (auth h) = Some a \<longrightarrow>
         h' = h\<lparr>auth := auth h', nonce_entries := nonce_entries h'\<rparr>)"
proof -
  obtain f where f: "current_call h = Some f" "authorized X (account_entries h) (ledger h) a f (auth h)"
    using require_auth_authorized [OF assms] by (auto simp: has_authorized_def)
  from f(2) have "direct_invoker (auth h) = Some a
       \<or> (\<exists>t\<in>set (invoker_contract_trackers (auth h)). it_contract_address t = a \<and> offers (it_tracker t) f)
       \<or> (\<exists>t\<in>set (account_trackers (auth h)). at_address t = a \<and> offers (at_tracker t) f
            \<and> (at_verified t \<or> authenticate X (account_entries h) (ledger h) t = Inr ()))"
    by cases auto
  moreover have "h' = h\<lparr>auth := auth h', nonce_entries := nonce_entries h'\<rparr>"
    using require_auth_shape [OF assms] by auto
  ultimately show ?thesis
    using f(1) by blast
qed

definition sponsor_call :: escrow_host where
  "sponsor_call = calling 100 ''activate'' [SU64 1] [(3, [])] (holding (escrow_with funded0))"

theorem require_auth_sound_witness:
  "\<exists>t\<in>set (account_trackers (auth sponsor_call)). at_address t = Account 3
     \<and> offers (at_tracker t) (ContractFn (Contract 100) ''activate'' [SU64 1])"
proof -
  have "is_ok (require_auth X0 (Account 3) sponsor_call)"
    by code_simp
  moreover have "current_call sponsor_call = Some (ContractFn (Contract 100) ''activate'' [SU64 1])"
    "direct_invoker (auth sponsor_call) = None" "invoker_contract_trackers (auth sponsor_call) = []"
    by (simp_all add: sponsor_call_def calling_def current_call_def direct_invoker_def am_push_frame_def)
  ultimately show ?thesis
    using require_auth_sound [OF is_ok_projr, of X0 "Account 3" sponsor_call] by auto
qed

text \<open>C29: every node of a signed tree authorizes at most one call: however frames are pushed and
  popped and whatever calls are matched against a tree, the successful matches are no more than
  the nodes that were unused at the start.\<close>

theorem signed_calls_used_once:
  assumes "usage t n u"
  shows "n + exhausted_count (root_authorized_invocation t) \<le> tree_size (root_authorized_invocation t)
    \<and> exhausted_count (root_authorized_invocation u) = exhausted_count (root_authorized_invocation t) + n"
  using usage_count [OF assms] tree_size_shape [OF usage_shape [OF assms]]
    exhausted_count_le_size [of "root_authorized_invocation u"] by simp

definition one_call :: invocation_tracker where
  "one_call = tracker_push_frame (new_invocation_tracker (AuthInv (ContractFn (Contract 1) ''f'' []) [] False))"

theorem signed_calls_used_once_witness:
  "exhausted_count (root_authorized_invocation (snd (projr (maybe_extend_invocation_match one_call
      (ContractFn (Contract 1) ''f'' []) True)))) = 1"
proof -
  have "maybe_extend_invocation_match one_call (ContractFn (Contract 1) ''f'' []) True
      = Inr (True, snd (projr (maybe_extend_invocation_match one_call (ContractFn (Contract 1) ''f'' []) True)))"
    by code_simp
  from signed_calls_used_once [OF usage.used [OF usage.start this]] show ?thesis
    by (simp add: one_call_def new_invocation_tracker_def)
qed

text \<open>C39: rolling back is exact: take a snapshot of a tracked tree, let calls use it up in any
  way, then roll it back to the snapshot; this never fails, and afterwards exactly the nodes are
  unused that were unused before, so that the authorizations can be used again.\<close>

theorem rollback_restores:
  assumes "usage t n u"
  shows "\<exists>v. tracker_rollback u (inv_snapshot (root_authorized_invocation t)) = Inr v
    \<and> root_authorized_invocation v = root_authorized_invocation t
    \<and> (\<not> is_exhausted (root_authorized_invocation t) \<longrightarrow> root_exhausted_frame v = None \<and> \<not> is_fully_processed v)"
  using inv_rollback_snapshot [OF usage_shape [OF assms]] by (simp add: tracker_rollback_def)

theorem rollback_restores_witness:
  "\<exists>v. tracker_rollback (snd (projr (maybe_extend_invocation_match one_call (ContractFn (Contract 1) ''f'' []) True)))
      (inv_snapshot (root_authorized_invocation one_call)) = Inr v \<and> root_exhausted_frame v = None"
proof -
  have "maybe_extend_invocation_match one_call (ContractFn (Contract 1) ''f'' []) True
      = Inr (True, snd (projr (maybe_extend_invocation_match one_call (ContractFn (Contract 1) ''f'' []) True)))"
    by code_simp
  from rollback_restores [OF usage.used [OF usage.start this]] show ?thesis
    by (auto simp: one_call_def new_invocation_tracker_def)
qed

text \<open>C32: a signature can not be replayed: once the nonce of an authorization entry has been
  consumed, the entry is rejected in every later ledger: up to the ledger until which the
  signature is valid because the nonce is on record, and after it because it has expired.\<close>

theorem nonce_not_replayed:
  assumes "verify_and_consume_nonce li t ns = Inr ns'" and "\<not> at_is_transaction_source_account t"
    and "sequence_number li' \<le> snd (the (at_nonce t)) \<Longrightarrow>
      ns'' (at_address t, fst (the (at_nonce t))) = ns' (at_address t, fst (the (at_nonce t)))"
  shows "\<not> is_ok (verify_and_consume_nonce li' t ns'')"
proof -
  from assms(1,2) obtain n l where n: "at_nonce t = Some (n, l)" and c: "consume_nonce li (at_address t) n l ns = Inr ns'"
    by (auto simp: verify_and_consume_nonce_def split: option.splits if_splits sum.splits)
  have "sequence_number li' \<le> l \<Longrightarrow> \<not> is_ok (consume_nonce li' (at_address t) n l ns'')"
    using consume_nonce_again [OF c] assms(3) n by simp
  then show ?thesis
    using assms(2) n by (auto simp: verify_and_consume_nonce_def split: sum.splits)
qed

theorem nonce_not_replayed_witness:
  "\<not> is_ok (verify_and_consume_nonce (li0\<lparr>sequence_number := 1500\<rparr>) (signed 100 ''f'' [] (3, []))
     (projr (verify_and_consume_nonce li0 (signed 100 ''f'' [] (3, [])) (\<lambda>_. None))))"
proof (rule nonce_not_replayed [OF is_ok_projr])
  show "is_ok (verify_and_consume_nonce li0 (signed 100 ''f'' [] (3, [])) (\<lambda>_. None))"
    by code_simp
qed (simp_all add: signed_def)

text \<open>C33: a role account with three members of weight one, a disabled master key and threshold two
  accepts a list of signatures exactly if at least two different members signed the payload, in
  increasing order of their keys, every signature verifies, and nobody else signed.\<close>

theorem two_of_three_policy:
  assumes "two_of_three account a b c" and "accs acc_id = Some account"
  shows "check_account_authentication verify accs acc_id payload sigs = Inr () \<longleftrightarrow>
    2 \<le> length sigs \<and> sorted_wrt (<) (map fst sigs)
    \<and> (\<forall>s\<in>set sigs. fst s \<in> {a, b, c} \<and> verify (fst s) payload (snd s))"
  using assms by (rule two_of_three_accepts_iff)

definition role_account :: account_entry where
  "role_account = (acct 50)\<lparr>thresholds := [0, 2, 2, 2],
     signers := [(SignerEd25519 61, 1), (SignerEd25519 62, 1), (SignerEd25519 63, 1)]\<rparr>"

theorem two_of_three_policy_witness:
  "check_account_authentication (\<lambda>_ _ _. True) [50 \<mapsto> role_account] 50 7 [(61, []), (63, [])] = Inr ()
   \<and> check_account_authentication (\<lambda>_ _ _. True) [50 \<mapsto> role_account] 50 7 [(62, [])] \<noteq> Inr ()"
proof -
  have "two_of_three role_account 61 62 63"
    by (simp add: two_of_three_def role_account_def acct_def)
  from two_of_three_policy [OF this, of "[50 \<mapsto> role_account]" 50] show ?thesis
    by simp
qed

end
