(* ===== verification/Anchor_Properties.thy ===== *)
theory Anchor_Properties
  imports Scenario
begin

text \<open>
  What the reputation anchor guarantees: an anchored score is read back as written, only the
  admin writes, and a batched read is the list of the single reads.
\<close>

text \<open>A deployment of the anchor (contract 103) with account 1 as its admin, and its call.\<close>

definition anchor_base :: anchor_host where
  "anchor_base = \<lparr>ledger = li0, frames = [],
     auth = \<lparr>account_trackers = [], invoker_contract_trackers = [], call_stack = []\<rparr>,
     nonce_entries = (\<lambda>_. None), instances = (\<lambda>c. if c = 103 then Some (Wasm ReputationAnchor, 800000) else None),
     codes = (\<lambda>_. Some ((), 800000)), account_entries = (\<lambda>k. if k < 20 then Some (acct k) else None),
     trustlines = (\<lambda>_. None), events = [],
     anchors = (\<lambda>c. \<lparr>r_admin = Some (Account 1), r_scores = (\<lambda>_. None)\<rparr>)\<rparr>"

definition answer :: "'e + ('a \<times> 's) \<Rightarrow> 'e + 'a" where
  "answer r = (case r of Inl e \<Rightarrow> Inl e | Inr (a, _) \<Rightarrow> Inr a)"

definition anchor_call :: anchor_host where
  "anchor_call = calling 103 ''anchor_score'' [SU64 7] [(1, [])] anchor_base"

definition anchored_7 :: anchor_host where
  "anchored_7 = projr (anchor_score X0 103 7 (Account 4) 500 ''Gold'' [] anchor_call)"

lemma anchor_call_run: "anchor_score X0 103 7 (Account 4) 500 ''Gold'' [] anchor_call = Inr anchored_7"
  unfolding anchored_7_def by (rule is_ok_projr) code_simp

text \<open>C37: \<open>anchor_score\<close> succeeds only with the admin's authorization and a score of at most 1000;
  afterwards \<open>get_score\<close> returns exactly the record that was written, stamped with the ledger's
  time, every other profile reads as before, in this and in every other anchor contract, and
  the records stay well-formed.\<close>

theorem anchor_read_back:
  assumes "anchor_score X c pid a s t x h = Inr h'" and "anchor_inv (anchors h c)"
  shows "(\<exists>admin. r_admin (anchors h c) = Some admin \<and> has_authorized X admin h) \<and> s \<le> 1000
    \<and> get_score c pid h' = Inr (\<lparr>profile_id = pid, sr_creator = a, score = s, tier = t, arbitrum_tx_hash = x,
        anchored_at = timestamp (ledger h)\<rparr>, h')
    \<and> (\<forall>k. k \<noteq> pid \<longrightarrow> answer (get_score c k h') = answer (get_score c k h))
    \<and> (\<forall>d. d \<noteq> c \<longrightarrow> anchors h' d = anchors h d)
    \<and> r_admin (anchors h' c) = r_admin (anchors h c) \<and> anchor_inv (anchors h' c)"
proof -
  from assms(1) obtain admin h1 l where ad: "r_admin (anchors h c) = Some admin" "require_auth X admin h = Inr h1"
    and s: "s \<le> 1000" "sequence_number (ledger h) \<le> l"
    and h': "anchors h' = (anchors h)(c := (anchors h c)\<lparr>r_scores := (r_scores (anchors h c))(pid \<mapsto>
      (\<lparr>profile_id = pid, sr_creator = a, score = s, tier = t, arbitrum_tx_hash = x,
        anchored_at = timestamp (ledger h)\<rparr>, l))\<rparr>)" "ledger h' = ledger h"
    by (rule anchor_score_ok)
  have "lookup_entry (ledger h) Persistent (Some (v, l)) = Inr (Some v)" for v :: ScoreRecord
    using s(2) by (simp add: lookup_entry_Some)
  moreover have "answer (get_score c k h') = answer (get_score c k h)" if "k \<noteq> pid" for k
    using that h' by (simp add: answer_def get_score_def run_simps split: sum.split option.split)
  ultimately show ?thesis
    using ad s(1) h' require_auth_authorized assms(2)
    by (auto simp: get_score_def run_simps anchor_inv_def)
qed

theorem anchor_read_back_witness:
  "has_authorized X0 (Account 1) anchor_call \<and> is_ok (get_score 103 7 anchored_7)"
proof -
  have "r_admin (anchors anchor_call 103) = Some (Account 1)" "anchor_inv (anchors anchor_call 103)"
    by (simp_all add: anchor_call_def calling_def anchor_base_def anchor_inv_def)
  then show ?thesis
    using anchor_read_back [OF anchor_call_run] by auto
qed

text \<open>A batched read returns, in the order of the request, exactly the records of the
  requested profiles that have one, each under its own profile id, and changes nothing.\<close>

lemma batch_is_single_reads:
  assumes "get_scores_batch c pids h = Inr (rs, h')" and "anchor_inv (anchors h c)"
  shows "h' = h \<and> map profile_id rs = filter (\<lambda>k. r_scores (anchors h c) k \<noteq> None) pids
    \<and> (\<forall>r\<in>set rs. get_score c (profile_id r) h = Inr (r, h))"
proof -
  have rs: "h' = h" "rs = map (\<lambda>k. fst (the (r_scores (anchors h c) k)))
      (filter (\<lambda>k. r_scores (anchors h c) k \<noteq> None) pids)"
    using scores_batch_value [of c pids "[]" h rs h'] assms(1) by (simp_all add: get_scores_batch_def)
  have ids: "profile_id (fst (the (r_scores (anchors h c) k))) = k" if "r_scores (anchors h c) k \<noteq> None" for k
    using assms(2) that by (auto simp: anchor_inv_def)
  then have "map profile_id rs = filter (\<lambda>k. r_scores (anchors h c) k \<noteq> None) pids"
    unfolding rs(2) map_map by (intro map_idI) simp
  moreover have "get_score c (profile_id r) h = Inr (r, h)" if r: "r \<in> set rs" for r
  proof -
    obtain k l where k: "k \<in> set pids" "r_scores (anchors h c) k = Some (r, l)"
      using r by (auto simp: rs(2))
    then have "sequence_number (ledger h) \<le> l"
      using assms(1) scores_batch_live by (fastforce simp: get_scores_batch_def)
    then have "lookup_entry (ledger h) Persistent (Some (r, l)) = Inr (Some r)"
      by (simp add: lookup_entry_Some)
    then show ?thesis
      using k ids [of k] by (simp add: get_score_def run_simps)
  qed
  ultimately show ?thesis
    using rs(1) by blast
qed

lemma batch_is_single_reads_witness:
  "map profile_id (fst (projr (get_scores_batch 103 [3, 7] anchored_7))) = [7]"
proof -
  have run: "get_scores_batch 103 [3, 7] anchored_7 = Inr (projr (get_scores_batch 103 [3, 7] anchored_7))"
    unfolding anchored_7_def by (rule is_ok_projr) code_simp
  have sc: "(r_scores (anchors anchored_7 103) 3 = None, r_scores (anchors anchored_7 103) 7 = None) = (True, False)"
    unfolding anchored_7_def by code_simp
  have inv: "anchor_inv (anchors anchored_7 103)"
    using anchor_call_run by (rule anchor_score_inv) (simp add: anchor_call_def calling_def anchor_base_def anchor_inv_def)
  show ?thesis
    using batch_is_single_reads [OF _ inv, of "[3, 7]"] run sc by (metis (no_types, lifting) filter.simps prod.collapse Pair_inject)
qed

end
