(* ===== verification/Metered_Map.thy ===== *)
theory Metered_Map
  imports Host_Types
begin

text \<open>
  The sorted vector behind every map of the host,
  \<open>src/soroban-env-host-patch/src/host/metered_map.rs\<close>, with the binary search of the
  Rust standard library.  Budget charges are left out: the functions describe a run whose
  budget is not exhausted.  The interface \<open>fallible_map\<close> says what a client may rely on;
  \<open>interpretation mm\<close> discharges it for the vector.
\<close>

section \<open>The map interface\<close>

locale fallible_map =
  fixes invar :: "'m \<Rightarrow> bool"
    and lookup :: "'m \<Rightarrow> 'k \<Rightarrow> 'v option"
    and update :: "'k \<Rightarrow> 'v \<Rightarrow> 'm \<Rightarrow> 'err + 'm"
    and delete :: "'k \<Rightarrow> 'm \<Rightarrow> 'err + ('m \<times> 'v) option"
    and get_key :: "'k \<Rightarrow> 'm \<Rightarrow> 'err + 'v option"
    and room :: "'m \<Rightarrow> bool"
  assumes get_lookup: "invar m \<Longrightarrow> get_key k m = Inr (lookup m k)"
    and lookup_update: "invar m \<Longrightarrow> update k v m = Inr m' \<Longrightarrow> lookup m' = (lookup m)(k \<mapsto> v)"
    and invar_update: "invar m \<Longrightarrow> update k v m = Inr m' \<Longrightarrow> invar m'"
    and update_ok: "invar m \<Longrightarrow> room m \<Longrightarrow> \<exists>m'. update k v m = Inr m'"
    and delete_absent: "invar m \<Longrightarrow> lookup m k = None \<Longrightarrow> delete k m = Inr None"
    and delete_present: "invar m \<Longrightarrow> lookup m k = Some v \<Longrightarrow>
      \<exists>m'. delete k m = Inr (Some (m', v)) \<and> invar m' \<and> lookup m' = (lookup m)(k := None)"
begin

lemma get_after_update: "invar m \<Longrightarrow> update k v m = Inr m' \<Longrightarrow> get_key k m' = Inr (Some v)"
  by (simp add: get_lookup invar_update lookup_update)

lemma get_other_after_update:
  "invar m \<Longrightarrow> update k v m = Inr m' \<Longrightarrow> j \<noteq> k \<Longrightarrow> get_key j m' = get_key j m"
  by (simp add: get_lookup invar_update lookup_update)

lemma delete_after_update:
  assumes "invar m" and "update k v m = Inr m'"
  shows "\<exists>m''. delete k m' = Inr (Some (m'', v)) \<and> lookup m'' = (lookup m)(k := None)"
proof -
  have "invar m'" and "lookup m' k = Some v"
    using assms by (simp_all add: invar_update lookup_update)
  then obtain m'' where "delete k m' = Inr (Some (m'', v))" and "lookup m'' = (lookup m')(k := None)"
    using delete_present by blast
  then show ?thesis
    using assms by (auto simp: lookup_update)
qed

end

section \<open>The sorted vector\<close>

type_synonym ('k, 'v) metered_map = "('k \<times> 'v) list"

definition MAP_OOB :: host_error where
  "MAP_OOB = HostErr SCE_Object IndexBounds"

fun windows_increasing :: "('k::linorder \<times> 'v) list \<Rightarrow> bool" where
  "windows_increasing (a # b # xs) = (fst a < fst b \<and> windows_increasing (b # xs))"
| "windows_increasing _ = True"

definition mm_from_map :: "('k::linorder, 'v) metered_map \<Rightarrow> host_error + ('k, 'v) metered_map" where
  "mm_from_map xs =
     (if length xs > U32_MAX then Inl MAP_OOB
      else if \<not> windows_increasing xs then Inl (HostErr SCE_Object InvalidInput)
      else Inr xs)"

definition mm_from_exact_iter :: "('k::linorder \<times> 'v) list \<Rightarrow> host_error + ('k, 'v) metered_map" where
  "mm_from_exact_iter it =
     (if length it > U32_MAX then Inl MAP_OOB else mm_from_map it)"

text \<open>\<open>slice::binary_search_by\<close>: \<open>Inr i\<close> is \<open>Ok(i)\<close>, the position of the key, \<open>Inl i\<close> is
  \<open>Err(i)\<close>, the position where it would be inserted.  The versions of the standard library differ in how
  they halve the range; on a vector with increasing keys they return the same.  The keys of these maps
  are ordered by \<open>linorder\<close>, so a comparison does not fail (\<open>Host_Objects\<close> has the search with
  comparisons that may).\<close>

function bsearch :: "('k::linorder \<times> 'v) list \<Rightarrow> 'k \<Rightarrow> nat \<Rightarrow> nat \<Rightarrow> nat + nat" where
  "bsearch xs key left right =
     (if left < right then
        let mid = left + (right - left) div 2; probe = fst (xs ! mid) in
        if probe = key then Inr mid
        else if probe < key then bsearch xs key (mid + 1) right
        else bsearch xs key left mid
      else Inl left)"
  by pat_completeness auto
termination
  by (relation "measure (\<lambda>(xs, key, left, right). right - left)") auto

declare bsearch.simps [simp del]

definition mm_find :: "('k::linorder, 'v) metered_map \<Rightarrow> 'k \<Rightarrow> nat + nat" where
  "mm_find m key = bsearch m key 0 (length m)"

definition mm_insert :: "'k::linorder \<Rightarrow> 'v \<Rightarrow> ('k, 'v) metered_map \<Rightarrow> host_error + ('k, 'v) metered_map" where
  "mm_insert key v m =
     (case mm_find m key of
        Inr replace_pos \<Rightarrow>
          if replace_pos = U64_MAX - 1 then Inl MAP_OOB
          else mm_from_exact_iter (take replace_pos m @ [(key, v)] @ drop (replace_pos + 1) m)
      | Inl insert_pos \<Rightarrow>
          if length m = U32_MAX then Inl MAP_OOB
          else mm_from_exact_iter (take insert_pos m @ [(key, v)] @ drop insert_pos m))"

definition mm_get :: "'k::linorder \<Rightarrow> ('k, 'v) metered_map \<Rightarrow> host_error + 'v option" where
  "mm_get key m =
     (case mm_find m key of
        Inr found \<Rightarrow>
          if found < length m then Inr (Some (snd (m ! found)))
          else Inl (HostErr SCE_Object InternalError)
      | Inl _ \<Rightarrow> Inr None)"

definition mm_get_at_index :: "nat \<Rightarrow> ('k, 'v) metered_map \<Rightarrow> host_error + ('k \<times> 'v)" where
  "mm_get_at_index i m = (if i < length m then Inr (m ! i) else Inl (HostErr SCE_Object IndexBounds))"

definition mm_remove ::
  "'k::linorder \<Rightarrow> ('k, 'v) metered_map \<Rightarrow> host_error + (('k, 'v) metered_map \<times> 'v) option" where
  "mm_remove key m =
     (case mm_find m key of
        Inr found \<Rightarrow>
          let rest = (if found > 0 then take found m @ drop (found + 1) m else drop 1 m) in
          (case mm_from_exact_iter rest of
             Inl e \<Rightarrow> Inl e
           | Inr m' \<Rightarrow>
               if found < length m then Inr (Some (m', snd (m ! found)))
               else Inl (HostErr SCE_Object InternalError))
      | Inl _ \<Rightarrow> Inr None)"

definition mm_len :: "('k, 'v) metered_map \<Rightarrow> nat" where
  "mm_len m = length m"

definition mm_contains_key :: "'k::linorder \<Rightarrow> ('k, 'v) metered_map \<Rightarrow> bool" where
  "mm_contains_key key m = (case mm_find m key of Inr _ \<Rightarrow> True | Inl _ \<Rightarrow> False)"

definition mm_keys :: "('k, 'v) metered_map \<Rightarrow> 'k list" where
  "mm_keys m = map fst m"

definition mm_values :: "('k, 'v) metered_map \<Rightarrow> 'v list" where
  "mm_values m = map snd m"

subsection \<open>The representation invariant\<close>

definition mm_invar :: "('k::linorder, 'v) metered_map \<Rightarrow> bool" where
  "mm_invar m \<longleftrightarrow> windows_increasing m \<and> length m \<le> U32_MAX"

lemma windows_increasing_sorted: "windows_increasing xs \<longleftrightarrow> sorted_wrt (<) (map fst xs)"
proof (induction xs rule: windows_increasing.induct)
  case (1 a b xs)
  have "windows_increasing (a # b # xs) \<longleftrightarrow> fst a < fst b \<and> sorted_wrt (<) (map fst (b # xs))"
    using 1 by simp
  also have "\<dots> \<longleftrightarrow> sorted_wrt (<) (map fst (a # b # xs))"
    by (auto intro: less_trans)
  finally show ?case .
qed simp_all

lemma mm_invar_nth:
  "mm_invar m \<Longrightarrow> i < j \<Longrightarrow> j < length m \<Longrightarrow> fst (m ! i) < fst (m ! j)"
  using sorted_wrt_nth_less [of "(<)" "map fst m" i j]
  by (simp add: mm_invar_def windows_increasing_sorted)

lemma mm_invar_distinct: "mm_invar m \<Longrightarrow> distinct (map fst m)"
  by (simp add: mm_invar_def windows_increasing_sorted strict_sorted_iff)

lemma mm_from_map_ok: "mm_from_map xs = Inr m \<longleftrightarrow> m = xs \<and> mm_invar xs"
  by (auto simp: mm_from_map_def mm_invar_def)

lemma mm_from_exact_iter_ok: "mm_from_exact_iter xs = Inr m \<longleftrightarrow> m = xs \<and> mm_invar xs"
  by (auto simp: mm_from_exact_iter_def mm_from_map_ok) (auto simp: mm_invar_def)

subsection \<open>Binary search\<close>

definition before :: "('k::linorder \<times> 'v) list \<Rightarrow> 'k \<Rightarrow> nat \<Rightarrow> bool" where
  "before m key i \<longleftrightarrow> (\<forall>j<i. fst (m ! j) < key)"

definition after :: "('k::linorder \<times> 'v) list \<Rightarrow> 'k \<Rightarrow> nat \<Rightarrow> bool" where
  "after m key i \<longleftrightarrow> (\<forall>j<length m. i \<le> j \<longrightarrow> key < fst (m ! j))"

lemma bsearch_correct:
  assumes "mm_invar m" and "before m key left" and "after m key right"
    and "left \<le> right" and "right \<le> length m"
  shows "case bsearch m key left right of
      Inr i \<Rightarrow> i < length m \<and> fst (m ! i) = key
    | Inl i \<Rightarrow> i \<le> length m \<and> before m key i \<and> after m key i"
  using assms
proof (induction m key left right rule: bsearch.induct)
  case (1 m key left right)
  show ?case
  proof (cases "left < right")
    case False
    then have "bsearch m key left right = Inl left"
      by (simp add: bsearch.simps [of m key left right])
    with False 1 show ?thesis
      by simp
  next
    case True
    define mid where "mid = left + (right - left) div 2"
    have mid: "left \<le> mid" "mid < right" "mid < length m"
      using True 1 by (auto simp: mid_def)
    consider (eq) "fst (m ! mid) = key" | (less) "fst (m ! mid) < key" | (greater) "key < fst (m ! mid)"
      by fastforce
    then show ?thesis
    proof cases
      case eq
      with True mid show ?thesis
        by (simp add: bsearch.simps [of m key left right] mid_def Let_def)
    next
      case less
      have "before m key (mid + 1)"
        using less mid mm_invar_nth [OF "1.prems"(1), of _ mid]
        by (auto simp: before_def less_Suc_eq intro: less_trans)
      moreover have "bsearch m key left right = bsearch m key (mid + 1) right"
        using True less by (auto simp: bsearch.simps [of m key left right] mid_def Let_def)
      ultimately show ?thesis
        using 1 True less mid by (simp add: mid_def Let_def)
    next
      case greater
      have "after m key mid"
        using greater mid mm_invar_nth [OF "1.prems"(1), of mid]
        by (auto simp: after_def order.order_iff_strict intro: less_trans)
      moreover have "bsearch m key left right = bsearch m key left mid"
        using True greater by (auto simp: bsearch.simps [of m key left right] mid_def Let_def)
      ultimately show ?thesis
        using 1 True greater mid by (simp add: mid_def Let_def not_less_iff_gr_or_eq)
    qed
  qed
qed

lemma mm_find_found:
  "mm_invar m \<Longrightarrow> mm_find m key = Inr i \<Longrightarrow> i < length m \<and> fst (m ! i) = key"
  using bsearch_correct [of m key 0 "length m"] by (simp add: mm_find_def before_def after_def)

lemma mm_find_missing:
  "mm_invar m \<Longrightarrow> mm_find m key = Inl i \<Longrightarrow> i \<le> length m \<and> before m key i \<and> after m key i"
  using bsearch_correct [of m key 0 "length m"] by (simp add: mm_find_def before_def after_def)

lemma mm_find_missing_None:
  assumes "mm_invar m" and "mm_find m key = Inl i"
  shows "map_of m key = None"
proof -
  have "fst (m ! j) \<noteq> key" if "j < length m" for j
    using mm_find_missing [OF assms] that by (cases "j < i") (auto simp: before_def after_def)
  then show ?thesis
    by (force simp: map_of_eq_None_iff in_set_conv_nth)
qed

lemma mm_find_found_Some:
  assumes "mm_invar m" and "mm_find m key = Inr i"
  shows "map_of m key = Some (snd (m ! i))"
proof -
  have "(key, snd (m ! i)) \<in> set m"
    using mm_find_found [OF assms] by (metis nth_mem prod.collapse)
  then show ?thesis
    using assms(1) by (simp add: mm_invar_distinct)
qed

subsection \<open>The vector implements the interface\<close>

lemma mm_invar_split:
  "mm_invar (xs @ [(k, v)] @ ys) \<longleftrightarrow>
     sorted_wrt (<) (map fst xs) \<and> sorted_wrt (<) (map fst ys) \<and> length xs + length ys < U32_MAX
     \<and> (\<forall>x\<in>set xs. fst x < k) \<and> (\<forall>y\<in>set ys. k < fst y) \<and> (\<forall>x\<in>set xs. \<forall>y\<in>set ys. fst x < fst y)"
  by (auto simp: mm_invar_def windows_increasing_sorted sorted_wrt_append)

lemma map_of_replace:
  assumes "distinct (map fst (xs @ [(k, u)] @ ys))"
  shows "map_of (xs @ [(k, v)] @ ys) = (map_of (xs @ [(k, u)] @ ys))(k \<mapsto> v)"
proof
  fix j
  from assms have "map_of xs k = None" and "map_of ys k = None"
    by (auto simp: map_of_eq_None_iff)
  then show "map_of (xs @ [(k, v)] @ ys) j = ((map_of (xs @ [(k, u)] @ ys))(k \<mapsto> v)) j"
    by (auto simp: map_add_def split: option.splits)
qed

lemma map_of_insert_between:
  assumes "k \<notin> fst ` set (xs @ ys)"
  shows "map_of (xs @ [(k, v)] @ ys) = (map_of (xs @ ys))(k \<mapsto> v)"
proof
  fix j
  from assms have "map_of xs k = None" and "map_of ys k = None"
    by (auto simp: map_of_eq_None_iff)
  then show "map_of (xs @ [(k, v)] @ ys) j = ((map_of (xs @ ys))(k \<mapsto> v)) j"
    by (auto simp: map_add_def split: option.splits)
qed

lemma split_at: "i < length m \<Longrightarrow> take i m @ [(fst (m ! i), snd (m ! i))] @ drop (i + 1) m = m"
  by (simp add: id_take_nth_drop [symmetric])

lemma mm_insert_lookup:
  assumes "mm_invar m" and "mm_insert k v m = Inr m'"
  shows "map_of m' = (map_of m)(k \<mapsto> v)"
proof (cases "mm_find m k")
  case (Inr i)
  then have i: "i < length m" "fst (m ! i) = k"
    using mm_find_found [OF assms(1)] by auto
  have m': "m' = take i m @ [(k, v)] @ drop (i + 1) m"
    using assms(2) Inr by (simp add: mm_insert_def mm_from_exact_iter_ok split: if_splits)
  have split: "take i m @ [(k, snd (m ! i))] @ drop (i + 1) m = m"
    using split_at [OF i(1)] i(2) by simp
  have "map_of m' = (map_of (take i m @ [(k, snd (m ! i))] @ drop (i + 1) m))(k \<mapsto> v)"
    unfolding m' by (rule map_of_replace) (simp only: split mm_invar_distinct [OF assms(1)])
  then show ?thesis
    by (simp only: split)
next
  case (Inl i)
  have m': "m' = take i m @ [(k, v)] @ drop i m"
    using assms(2) Inl by (simp add: mm_insert_def mm_from_exact_iter_ok split: if_splits)
  have "k \<notin> fst ` set (take i m @ drop i m)"
    using mm_find_missing_None [OF assms(1) Inl]
    by (simp only: append_take_drop_id) (simp add: map_of_eq_None_iff)
  then have "map_of m' = (map_of (take i m @ drop i m))(k \<mapsto> v)"
    unfolding m' by (rule map_of_insert_between)
  then show ?thesis
    by (simp only: append_take_drop_id)
qed

lemma mm_insert_invar: "mm_insert k v m = Inr m' \<Longrightarrow> mm_invar m'"
  by (auto simp: mm_insert_def mm_from_exact_iter_ok split: sum.splits if_splits)

lemma mm_insert_ok:
  assumes "mm_invar m" and "length m < U32_MAX"
  shows "\<exists>m'. mm_insert k v m = Inr m'"
proof (cases "mm_find m k")
  case (Inr i)
  then have i: "i < length m" "fst (m ! i) = k"
    using mm_find_found [OF assms(1)] by auto
  have "i \<noteq> U64_MAX - 1"
    using i(1) assms(2) by (simp add: U32_MAX_def U64_MAX_def)
  moreover have "mm_invar (take i m @ [(k, snd (m ! i))] @ drop (i + 1) m)"
    using split_at [OF i(1)] assms(1) i(2) by simp
  then have "mm_invar (take i m @ [(k, v)] @ drop (i + 1) m)"
    unfolding mm_invar_split by blast
  ultimately show ?thesis
    using Inr by (auto simp: mm_insert_def mm_from_exact_iter_ok)
next
  case (Inl i)
  have i: "i \<le> length m" "before m k i" "after m k i"
    using mm_find_missing [OF assms(1) Inl] by auto
  have "\<forall>x\<in>set (take i m). fst x < k"
    using i by (force simp: before_def in_set_conv_nth)
  moreover have "k < fst y" if y: "y \<in> set (drop i m)" for y
  proof -
    from y obtain j where "j < length m - i" and "y = m ! (i + j)"
      by (auto simp: in_set_conv_nth)
    with i(3) show ?thesis
      by (simp add: after_def)
  qed
  moreover have "sorted_wrt (<) (map fst (take i m) @ map fst (drop i m))"
    using assms(1)
    by (simp only: mm_invar_def windows_increasing_sorted map_append [symmetric] append_take_drop_id)
  ultimately have "mm_invar (take i m @ [(k, v)] @ drop i m)"
    using assms(2) i(1) unfolding mm_invar_split sorted_wrt_append by auto
  then show ?thesis
    using Inl assms(2) by (auto simp: mm_insert_def mm_from_exact_iter_ok)
qed

lemma mm_get_lookup: "mm_invar m \<Longrightarrow> mm_get k m = Inr (map_of m k)"
  using mm_find_found [of m k] mm_find_found_Some [of m k] mm_find_missing_None [of m k]
  by (cases "mm_find m k") (auto simp: mm_get_def)

lemma mm_remove_absent: "mm_invar m \<Longrightarrow> map_of m k = None \<Longrightarrow> mm_remove k m = Inr None"
  using mm_find_found_Some [of m k] by (cases "mm_find m k") (auto simp: mm_remove_def)

lemma mm_remove_present:
  assumes "mm_invar m" and "map_of m k = Some v"
  shows "\<exists>m'. mm_remove k m = Inr (Some (m', v)) \<and> mm_invar m' \<and> map_of m' = (map_of m)(k := None)"
proof -
  obtain i where find: "mm_find m k = Inr i"
    using assms mm_find_missing_None by (cases "mm_find m k") fastforce+
  then have i: "i < length m" "fst (m ! i) = k" and v: "v = snd (m ! i)"
    using mm_find_found [OF assms(1)] mm_find_found_Some [OF assms(1)] assms(2) by auto
  let ?m = "take i m @ drop (i + 1) m"
  have split: "take i m @ [(k, v)] @ drop (i + 1) m = m"
    using split_at [OF i(1)] i(2) v by simp
  have parts: "mm_invar (take i m @ [(k, v)] @ drop (i + 1) m)"
    by (simp only: split assms(1))
  then have inv: "mm_invar ?m"
    unfolding mm_invar_split by (auto simp: mm_invar_def windows_increasing_sorted sorted_wrt_append)
  have fresh: "k \<notin> fst ` set ?m"
    using parts unfolding mm_invar_split by auto
  then have "map_of (take i m @ [(k, v)] @ drop (i + 1) m) = (map_of ?m)(k \<mapsto> v)"
    by (rule map_of_insert_between)
  then have "map_of m = (map_of ?m)(k \<mapsto> v)"
    by (simp only: split)
  moreover have "map_of ?m k = None"
    using fresh by (simp only: map_of_eq_None_iff not_False_eq_True)
  ultimately have "map_of ?m = (map_of m)(k := None)"
    by (simp only: fun_upd_upd fun_upd_idem)
  moreover have "mm_from_exact_iter ?m = Inr ?m"
    using inv by (simp only: mm_from_exact_iter_ok simp_thms)
  then have "mm_remove k m = Inr (Some (?m, v))"
    using find i v by (cases i) (simp_all add: mm_remove_def)
  ultimately show ?thesis
    using inv by blast
qed

interpretation mm: fallible_map mm_invar map_of mm_insert mm_remove mm_get "\<lambda>m. length m < U32_MAX"
  by unfold_locales
    (blast intro: mm_get_lookup mm_insert_lookup mm_insert_invar mm_insert_ok
      mm_remove_absent mm_remove_present)+

lemma mm_contains_key_lookup: "mm_invar m \<Longrightarrow> mm_contains_key k m \<longleftrightarrow> k \<in> dom (map_of m)"
  using mm_find_found_Some [of m k] mm_find_missing_None [of m k]
  by (cases "mm_find m k") (auto simp: mm_contains_key_def)

section \<open>Properties\<close>

text \<open>A map behaves as a map: after a successful insertion the key reads as the new value, every
  other key as before, the vector is still sorted and within its size limit, and removing the
  key gives back the inserted value and the map without the key.  An insertion succeeds
  whenever there is room.\<close>

lemma map_round_trip:
  assumes "mm_invar m" and "length m < U32_MAX"
  shows "\<exists>m'. mm_insert k v m = Inr m' \<and> mm_invar m' \<and> mm_get k m' = Inr (Some v)
    \<and> (\<forall>j. j \<noteq> k \<longrightarrow> mm_get j m' = mm_get j m)
    \<and> (\<exists>m''. mm_remove k m' = Inr (Some (m'', v)) \<and> map_of m'' = (map_of m)(k := None))"
proof -
  obtain m' where m': "mm_insert k v m = Inr m'"
    using mm.update_ok [OF assms] by blast
  show ?thesis
    using m' mm.invar_update [OF assms(1) m'] mm.get_after_update [OF assms(1) m']
      mm.get_other_after_update [OF assms(1) m'] mm.delete_after_update [OF assms(1) m'] by blast
qed

definition sample_map :: "(nat, string) metered_map" where
  "sample_map = [(1, ''a''), (3, ''c''), (7, ''d'')]"

lemma sample_map_ok: "mm_invar sample_map" "length sample_map = 3"
  by (simp_all add: sample_map_def mm_invar_def U32_MAX_def)

lemma map_round_trip_witness:
  "\<exists>m'. mm_insert 2 ''b'' sample_map = Inr m' \<and> mm_get 3 m' = mm_get 3 sample_map"
  using map_round_trip [OF sample_map_ok(1), of 2 "''b''"] sample_map_ok(2) by (auto simp: U32_MAX_def)

text \<open>The search loop with a bound on its rounds; \<open>None\<close> is running out of them.\<close>

fun bsearch_rounds :: "nat \<Rightarrow> ('k::linorder \<times> 'v) list \<Rightarrow> 'k \<Rightarrow> nat \<Rightarrow> nat \<Rightarrow> (nat + nat) option" where
  "bsearch_rounds 0 xs key left right = None"
| "bsearch_rounds (Suc n) xs key left right =
     (if left < right then
        let mid = left + (right - left) div 2; probe = fst (xs ! mid) in
        if probe = key then Some (Inr mid)
        else if probe < key then bsearch_rounds n xs key (mid + 1) right
        else bsearch_rounds n xs key left mid
      else Some (Inl left))"

lemma bsearch_rounds_enough:
  "right - left < 2 ^ n \<Longrightarrow> bsearch_rounds (Suc n) xs key left right = Some (bsearch xs key left right)"
proof (induction n arbitrary: left right)
  case 0
  then show ?case
    by (simp add: bsearch.simps [of xs key left right])
next
  case (Suc n)
  define mid where "mid = left + (right - left) div 2"
  have half: "right - (mid + 1) < 2 ^ n" "mid - left < 2 ^ n"
    using Suc.prems by (auto simp: mid_def)
  show ?case
    using Suc.IH [OF half(1)] Suc.IH [OF half(2)]
    by (auto simp: bsearch_rounds.simps(2) [of "Suc n"] bsearch.simps [of xs key left right] mid_def Let_def
        simp del: bsearch_rounds.simps)
qed

text \<open>C35: the search behind every map access ends within one round more than the binary logarithm of
  the map's size, and finds the key exactly where it is, or the position before which all keys
  are smaller and from which on all are greater.\<close>

theorem search_ends:
  assumes "mm_invar m" and "length m < 2 ^ n"
  shows "bsearch_rounds (Suc n) m key 0 (length m) = Some (mm_find m key)
    \<and> (case mm_find m key of
         Inr i \<Rightarrow> i < length m \<and> fst (m ! i) = key
       | Inl i \<Rightarrow> i \<le> length m \<and> (\<forall>j<i. fst (m ! j) < key) \<and> (\<forall>j<length m. i \<le> j \<longrightarrow> key < fst (m ! j)))"
  using bsearch_rounds_enough [of "length m" 0 n m key] bsearch_correct [OF assms(1), of key 0 "length m"] assms(2)
  by (simp add: mm_find_def before_def after_def split: sum.splits del: bsearch_rounds.simps)

theorem search_ends_witness:
  "bsearch_rounds (Suc 2) sample_map 7 0 (length sample_map) = Some (mm_find sample_map 7)"
  using search_ends [OF sample_map_ok(1), of 2 7] sample_map_ok(2) by (simp del: bsearch_rounds.simps)

end
