(* ===== verification/Host_Storage.thy ===== *)
theory Host_Storage
  imports Metered_Map "HOL-Library.Code_Target_Nat"
begin

text \<open>
  The transactional storage of the host, \<open>src/soroban-env-host-patch/src/storage.rs\<close>: a map
  from ledger keys to entries whose accesses are mediated by a footprint.  In recording mode
  (the preflight of a transaction) the footprint grows with the accesses and the map caches a
  snapshot of the ledger; in enforcing mode the footprint is fixed and an access outside it
  fails.  Ledger keys and entries are XDR types: they are type variables, the order of the keys
  is their \<open>linorder\<close>, and which constructor a key or an entry has is given by the two
  functions of the record \<open>xdr_types\<close>.  Both maps are the sorted vectors of \<open>Metered_Map\<close>.  An operation returns
  the state also when it fails, because a failed call leaves its trace in the footprint.
\<close>

section \<open>Data\<close>

datatype AccessType = ReadOnly | ReadWrite

datatype ledger_kind =
  LK_Account | LK_Trustline | LK_ContractData durability | LK_ContractCode | LK_Offer | LK_Data
  | LK_ClaimableBalance | LK_LiquidityPool | LK_ConfigSetting | LK_Ttl

record ('k, 'e) xdr_types =
  key_kind :: "'k \<Rightarrow> ledger_kind"
  entry_kind :: "'e \<Rightarrow> ledger_kind"

type_synonym 'e EntryWithLiveUntil = "'e \<times> u32 option"
type_synonym 'k FootprintMap = "('k, AccessType) metered_map"
type_synonym ('k, 'e) StorageMap = "('k, 'e EntryWithLiveUntil option) metered_map"
type_synonym ('k, 'e) SnapshotSource = "'k \<Rightarrow> host_error + 'e EntryWithLiveUntil option"

datatype ('k, 'e) FootprintMode = Recording "('k, 'e) SnapshotSource" | Enforcing

record ('k, 'e) Storage =
  footprint :: "'k FootprintMap"
  fp_mode :: "('k, 'e) FootprintMode"
  smap :: "('k, 'e) StorageMap"

type_synonym ('k, 'e, 'a) storage_op = "('k, 'e) Storage \<Rightarrow> (host_error + 'a) \<times> ('k, 'e) Storage"

section \<open>Footprints\<close>

definition record_access :: "'k::linorder \<Rightarrow> AccessType \<Rightarrow> 'k FootprintMap \<Rightarrow> host_error + 'k FootprintMap" where
  "record_access key ty fp =
     (case mm_get key fp of
        Inl e \<Rightarrow> Inl e
      | Inr (Some existing) \<Rightarrow>
          (case (existing, ty) of
             (ReadOnly, ReadOnly) \<Rightarrow> Inr fp
           | (ReadOnly, ReadWrite) \<Rightarrow> mm_insert key ty fp
           | (ReadWrite, ReadOnly) \<Rightarrow> Inr fp
           | (ReadWrite, ReadWrite) \<Rightarrow> Inr fp)
      | Inr None \<Rightarrow> mm_insert key ty fp)"

definition enforce_access :: "'k::linorder \<Rightarrow> AccessType \<Rightarrow> 'k FootprintMap \<Rightarrow> host_error + unit" where
  "enforce_access key ty fp =
     (case mm_get key fp of
        Inl e \<Rightarrow> Inl e
      | Inr (Some existing) \<Rightarrow>
          (case (existing, ty) of
             (ReadOnly, ReadOnly) \<Rightarrow> Inr ()
           | (ReadOnly, ReadWrite) \<Rightarrow> Inl (HostErr SCE_Storage ExceededLimit)
           | (ReadWrite, ReadOnly) \<Rightarrow> Inr ()
           | (ReadWrite, ReadWrite) \<Rightarrow> Inr ())
      | Inr None \<Rightarrow> Inl (HostErr SCE_Storage ExceededLimit))"

section \<open>Storage\<close>

fun supported_kind :: "ledger_kind \<Rightarrow> bool" where
  "supported_kind LK_Account = True"
| "supported_kind LK_Trustline = True"
| "supported_kind (LK_ContractData d) = True"
| "supported_kind LK_ContractCode = True"
| "supported_kind _ = False"

definition check_supported_ledger_entry_type :: "('k, 'e) xdr_types \<Rightarrow> 'e \<Rightarrow> host_error + unit" where
  "check_supported_ledger_entry_type T le =
     (if supported_kind (entry_kind T le) then Inr () else Inl (HostErr SCE_Storage InternalError))"

definition check_supported_ledger_key_type :: "('k, 'e) xdr_types \<Rightarrow> 'k \<Rightarrow> host_error + unit" where
  "check_supported_ledger_key_type T lk =
     (if supported_kind (key_kind T lk) then Inr () else Inl (HostErr SCE_Storage InternalError))"

definition get_key_durability :: "('k, 'e) xdr_types \<Rightarrow> 'k \<Rightarrow> durability option" where
  "get_key_durability T lk =
     (case key_kind T lk of
        LK_ContractData d \<Rightarrow> Some d
      | LK_ContractCode \<Rightarrow> Some Persistent
      | _ \<Rightarrow> None)"

definition with_enforcing_footprint_and_map ::
  "'k FootprintMap \<Rightarrow> ('k, 'e) StorageMap \<Rightarrow> ('k, 'e) Storage" where
  "with_enforcing_footprint_and_map fp m = \<lparr>footprint = fp, fp_mode = Enforcing, smap = m\<rparr>"

definition with_recording_footprint :: "('k, 'e) SnapshotSource \<Rightarrow> ('k, 'e) Storage" where
  "with_recording_footprint src = \<lparr>footprint = [], fp_mode = Recording src, smap = []\<rparr>"

text \<open>Sequencing of operations that may fail, keeping the state of a failure.\<close>

definition then_op ::
  "('k, 'e, 'a) storage_op \<Rightarrow> ('a \<Rightarrow> ('k, 'e, 'b) storage_op) \<Rightarrow> ('k, 'e, 'b) storage_op" where
  "then_op f g s = (case f s of (Inl e, s') \<Rightarrow> (Inl e, s') | (Inr a, s') \<Rightarrow> g a s')"

definition lift_res :: "(('k, 'e) Storage \<Rightarrow> host_error + 'a) \<Rightarrow> ('k, 'e, 'a) storage_op" where
  "lift_res r s = (r s, s)"

definition insert_smap :: "'k::linorder \<Rightarrow> 'e EntryWithLiveUntil option \<Rightarrow> ('k, 'e, unit) storage_op" where
  "insert_smap key v s =
     (case mm_insert key v (smap s) of Inl e \<Rightarrow> (Inl e, s) | Inr m \<Rightarrow> (Inr (), s\<lparr>smap := m\<rparr>))"

definition access_footprint :: "'k::linorder \<Rightarrow> AccessType \<Rightarrow> ('k, 'e, unit) storage_op" where
  "access_footprint key ty s =
     (case fp_mode s of
        Recording _ \<Rightarrow>
          (case record_access key ty (footprint s) of
             Inl e \<Rightarrow> (Inl e, s) | Inr fp \<Rightarrow> (Inr (), s\<lparr>footprint := fp\<rparr>))
      | Enforcing \<Rightarrow> (enforce_access key ty (footprint s), s))"

text \<open>In recording mode the map is a cache whose misses read through to the snapshot.\<close>

definition fill_cache :: "'k::linorder \<Rightarrow> ('k, 'e, unit) storage_op" where
  "fill_cache key s =
     (case fp_mode s of
        Recording src \<Rightarrow>
          if mm_contains_key key (smap s) then (Inr (), s)
          else (case src key of Inl e \<Rightarrow> (Inl e, s) | Inr value \<Rightarrow> insert_smap key value s)
      | Enforcing \<Rightarrow> (Inr (), s))"

definition prepare_read_only_access :: "'k::linorder \<Rightarrow> ('k, 'e, unit) storage_op" where
  "prepare_read_only_access key = then_op (access_footprint key ReadOnly) (\<lambda>_. fill_cache key)"

definition try_get_full ::
  "('k::linorder, 'e) xdr_types \<Rightarrow> 'k \<Rightarrow> ('k, 'e, 'e EntryWithLiveUntil option) storage_op" where
  "try_get_full T key =
     then_op (lift_res (\<lambda>_. check_supported_ledger_key_type T key)) (\<lambda>_.
     then_op (prepare_read_only_access key) (\<lambda>_.
     then_op (lift_res (\<lambda>s. mm_get key (smap s))) (\<lambda>r.
       lift_res (\<lambda>_. case r of None \<Rightarrow> Inl (HostErr SCE_Storage InternalError) | Some v \<Rightarrow> Inr v))))"

definition storage_get :: "('k::linorder, 'e) xdr_types \<Rightarrow> 'k \<Rightarrow> ('k, 'e, 'e) storage_op" where
  "storage_get T key =
     then_op (try_get_full T key) (\<lambda>r. lift_res (\<lambda>_.
       case r of None \<Rightarrow> Inl (HostErr SCE_Storage MissingValue) | Some (e, _) \<Rightarrow> Inr e))"

definition storage_try_get :: "('k::linorder, 'e) xdr_types \<Rightarrow> 'k \<Rightarrow> ('k, 'e, 'e option) storage_op" where
  "storage_try_get T key = then_op (try_get_full T key) (\<lambda>r. lift_res (\<lambda>_. Inr (map_option fst r)))"

definition get_with_live_until_ledger ::
  "('k::linorder, 'e) xdr_types \<Rightarrow> 'k \<Rightarrow> ('k, 'e, 'e EntryWithLiveUntil) storage_op" where
  "get_with_live_until_ledger T key =
     then_op (try_get_full T key) (\<lambda>r. lift_res (\<lambda>_.
       case r of None \<Rightarrow> Inl (HostErr SCE_Storage MissingValue) | Some e \<Rightarrow> Inr e))"

definition put_opt ::
  "('k::linorder, 'e) xdr_types \<Rightarrow> 'k \<Rightarrow> 'e EntryWithLiveUntil option \<Rightarrow> ('k, 'e, unit) storage_op" where
  "put_opt T key val =
     then_op (lift_res (\<lambda>_. check_supported_ledger_key_type T key)) (\<lambda>_.
     then_op (lift_res (\<lambda>_. case val of
         Some le \<Rightarrow> check_supported_ledger_entry_type T (fst le) | None \<Rightarrow> Inr ())) (\<lambda>_.
     then_op (access_footprint key ReadWrite) (\<lambda>_.
       insert_smap key val)))"

definition storage_put ::
  "('k::linorder, 'e) xdr_types \<Rightarrow> 'k \<Rightarrow> 'e \<Rightarrow> u32 option \<Rightarrow> ('k, 'e, unit) storage_op" where
  "storage_put T key val live_until_ledger = put_opt T key (Some (val, live_until_ledger))"

definition storage_del :: "('k::linorder, 'e) xdr_types \<Rightarrow> 'k \<Rightarrow> ('k, 'e, unit) storage_op" where
  "storage_del T key = put_opt T key None"

definition storage_has :: "('k::linorder, 'e) xdr_types \<Rightarrow> 'k \<Rightarrow> ('k, 'e, bool) storage_op" where
  "storage_has T key =
     then_op (lift_res (\<lambda>_. check_supported_ledger_key_type T key)) (\<lambda>_.
     then_op (prepare_read_only_access key) (\<lambda>_.
     then_op (lift_res (\<lambda>s. mm_get key (smap s))) (\<lambda>r.
       lift_res (\<lambda>_. case r of
         None \<Rightarrow> Inl (HostErr SCE_Storage InternalError) | Some v \<Rightarrow> Inr (v \<noteq> None)))))"

definition new_live_until_for ::
  "('k, 'e) xdr_types \<Rightarrow> ledger_info \<Rightarrow> 'k \<Rightarrow> u32 \<Rightarrow> u32 \<Rightarrow> host_error + u32" where
  "new_live_until_for T li key extend_to old_live_until =
     (if old_live_until < sequence_number li then Inl (HostErr SCE_Storage InternalError)
      else case checked_add_u32 (sequence_number li) extend_to of
        None \<Rightarrow> Inl (HostErr SCE_Context InternalError)
      | Some new_live_until \<Rightarrow>
          (case max_live_until_ledger li of
             Inl e \<Rightarrow> Inl e
           | Inr max_live_until \<Rightarrow>
               if new_live_until > max_live_until
               then (case get_key_durability T key of
                       Some Persistent \<Rightarrow> Inr max_live_until
                     | Some Temporary \<Rightarrow> Inl (HostErr SCE_Storage InvalidAction)
                     | None \<Rightarrow> Inl (HostErr SCE_Storage InternalError))
               else Inr new_live_until))"

definition storage_extend_ttl ::
  "('k::linorder, 'e) xdr_types \<Rightarrow> ledger_info \<Rightarrow> 'k \<Rightarrow> u32 \<Rightarrow> u32 \<Rightarrow> ('k, 'e, unit) storage_op" where
  "storage_extend_ttl T li key threshold extend_to =
     then_op (lift_res (\<lambda>_. check_supported_ledger_key_type T key)) (\<lambda>_.
     then_op (lift_res (\<lambda>_. if threshold > extend_to then Inl (HostErr SCE_Storage InvalidInput) else Inr ())) (\<lambda>_.
     then_op (get_with_live_until_ledger T key) (\<lambda>(entry, old).
     then_op (lift_res (\<lambda>_. case old of
         None \<Rightarrow> Inl (HostErr SCE_Storage InternalError) | Some old_live_until \<Rightarrow> Inr old_live_until)) (\<lambda>old_live_until.
     then_op (lift_res (\<lambda>_. new_live_until_for T li key extend_to old_live_until)) (\<lambda>new_live_until.
       if new_live_until > old_live_until
          \<and> saturating_sub_u32 old_live_until (sequence_number li) \<le> threshold
       then insert_smap key (Some (entry, Some new_live_until))
       else lift_res (\<lambda>_. Inr ()))))))"

definition get_snapshot_value :: "'k \<Rightarrow> ('k, 'e, 'e EntryWithLiveUntil option) storage_op" where
  "get_snapshot_value key =
     lift_res (\<lambda>s. case fp_mode s of
       Recording snapshot \<Rightarrow> snapshot key
     | Enforcing \<Rightarrow> Inl (HostErr SCE_Storage InternalError))"

section \<open>Runs of storage calls\<close>

datatype ('k, 'e) storage_call =
  CGet 'k | CTryGet 'k | CGetLive 'k | CHas 'k | CPut 'k 'e "u32 option" | CDel 'k | CExtend 'k u32 u32

datatype 'e storage_result =
  RUnit | RBool bool | REntry 'e | RTry "'e option" | RLive "'e EntryWithLiveUntil"

definition map_res :: "('a \<Rightarrow> 'b) \<Rightarrow> ('k, 'e, 'a) storage_op \<Rightarrow> ('k, 'e, 'b) storage_op" where
  "map_res r f = then_op f (\<lambda>a. lift_res (\<lambda>_. Inr (r a)))"

fun run_call ::
  "('k::linorder, 'e) xdr_types \<Rightarrow> ledger_info \<Rightarrow> ('k, 'e) storage_call \<Rightarrow> ('k, 'e, 'e storage_result) storage_op" where
  "run_call T li (CGet k) = map_res REntry (storage_get T k)"
| "run_call T li (CTryGet k) = map_res RTry (storage_try_get T k)"
| "run_call T li (CGetLive k) = map_res RLive (get_with_live_until_ledger T k)"
| "run_call T li (CHas k) = map_res RBool (storage_has T k)"
| "run_call T li (CPut k e l) = map_res (\<lambda>_. RUnit) (storage_put T k e l)"
| "run_call T li (CDel k) = map_res (\<lambda>_. RUnit) (storage_del T k)"
| "run_call T li (CExtend k t e) = map_res (\<lambda>_. RUnit) (storage_extend_ttl T li k t e)"

fun run_calls ::
  "('k::linorder, 'e) xdr_types \<Rightarrow> ledger_info \<Rightarrow> ('k, 'e) storage_call list \<Rightarrow> ('k, 'e) Storage \<Rightarrow>
   (host_error + 'e storage_result) list \<times> ('k, 'e) Storage" where
  "run_calls T li [] s = ([], s)"
| "run_calls T li (c # cs) s =
     (case run_call T li c s of (r, s1) \<Rightarrow> (case run_calls T li cs s1 of (rs, s2) \<Rightarrow> (r # rs, s2)))"

section \<open>Recording and enforcing, side by side\<close>

definition fp_le :: "'k::linorder FootprintMap \<Rightarrow> 'k FootprintMap \<Rightarrow> bool" where
  "fp_le f g \<longleftrightarrow> (\<forall>k a. map_of f k = Some a \<longrightarrow> (\<exists>b. map_of g k = Some b \<and> (a = ReadWrite \<longrightarrow> b = ReadWrite)))"

definition touched :: "'k::linorder \<Rightarrow> ('k, 'e) Storage \<Rightarrow> bool" where
  "touched k s \<longleftrightarrow> k \<in> dom (map_of (footprint s))"

definition cached :: "'k::linorder \<Rightarrow> ('k, 'e) Storage \<Rightarrow> bool" where
  "cached k s \<longleftrightarrow> k \<in> dom (map_of (smap s))"

definition seen :: "('k \<Rightarrow> 'e EntryWithLiveUntil option) \<Rightarrow> ('k::linorder, 'e) Storage \<Rightarrow> 'k \<Rightarrow> 'e EntryWithLiveUntil option" where
  "seen snap s k = (case map_of (smap s) k of None \<Rightarrow> snap k | Some v \<Rightarrow> v)"

definition rec_inv :: "('k \<Rightarrow> 'e EntryWithLiveUntil option) \<Rightarrow> ('k::linorder, 'e) Storage \<Rightarrow> bool" where
  "rec_inv snap s \<longleftrightarrow> fp_mode s = Recording (\<lambda>k. Inr (snap k)) \<and> mm_invar (footprint s) \<and> mm_invar (smap s)
     \<and> dom (map_of (smap s)) \<subseteq> dom (map_of (footprint s))"

definition sim ::
  "('k \<Rightarrow> 'e EntryWithLiveUntil option) \<Rightarrow> 'k FootprintMap \<Rightarrow> ('k::linorder, 'e) Storage \<Rightarrow> ('k, 'e) Storage \<Rightarrow> bool" where
  "sim snap F s t \<longleftrightarrow> rec_inv snap s \<and> fp_mode t = Enforcing \<and> footprint t = F \<and> mm_invar F \<and> length F < U32_MAX
     \<and> mm_invar (smap t) \<and> map_of (smap t) = (\<lambda>k. if k \<in> dom (map_of F) then Some (seen snap s k) else None)"

text \<open>A triple: from recording states that satisfy \<open>P\<close> the operation keeps the invariant, only
  grows the footprint and reaches \<open>Q\<close> when it succeeds; and an enforcing storage whose
  footprint covers the outcome does the same and returns the same.\<close>

definition triple where
  "triple snap F P f Q \<longleftrightarrow>
     (\<forall>s. rec_inv snap s \<longrightarrow> P s \<longrightarrow>
        rec_inv snap (snd (f s)) \<and> fp_le (footprint s) (footprint (snd (f s)))
        \<and> (\<forall>a. fst (f s) = Inr a \<longrightarrow> Q a (snd (f s))))
   \<and> (\<forall>s t. sim snap F s t \<longrightarrow> P s \<longrightarrow> fp_le (footprint (snd (f s))) F \<longrightarrow>
        fst (f t) = fst (f s) \<and> sim snap F (snd (f s)) (snd (f t)))"

named_theorems triples "triples of the storage operations"

lemma fp_le_refl [simp]: "fp_le f f"
  by (simp add: fp_le_def)

lemma fp_le_trans: "fp_le f g \<Longrightarrow> fp_le g h \<Longrightarrow> fp_le f h"
  unfolding fp_le_def by metis

lemma fp_le_dom: "fp_le f g \<Longrightarrow> dom (map_of f) \<subseteq> dom (map_of g)"
  unfolding fp_le_def by blast

lemma mm_length: "mm_invar m \<Longrightarrow> length m = card (dom (map_of m))"
  using distinct_card [of "map fst m"] by (simp add: mm_invar_distinct dom_map_of_conv_image_fst)

lemma mm_length_mono: "mm_invar m \<Longrightarrow> mm_invar n \<Longrightarrow> dom (map_of m) \<subseteq> dom (map_of n) \<Longrightarrow> length m \<le> length n"
  by (simp add: mm_length card_mono finite_dom_map_of)

lemma sim_rec: "sim snap F s t \<Longrightarrow> rec_inv snap s"
  by (simp add: sim_def)

lemma sim_room:
  assumes "sim snap F s t" and "fp_le (footprint s) F"
  shows "length (footprint s) < U32_MAX" and "length (smap s) < U32_MAX" and "length (smap t) < U32_MAX"
proof -
  have le: "length (smap s) \<le> length (footprint s)" "length (footprint s) \<le> length F" "length (smap t) \<le> length F"
    using assms fp_le_dom [OF assms(2)] by (auto simp: sim_def rec_inv_def dom_def intro!: mm_length_mono)
  then show "length (footprint s) < U32_MAX" "length (smap s) < U32_MAX" "length (smap t) < U32_MAX"
    using assms(1) by (auto simp: sim_def)
qed

lemma tripleI:
  assumes "\<And>s. rec_inv snap s \<Longrightarrow> P s \<Longrightarrow>
      rec_inv snap (snd (f s)) \<and> fp_le (footprint s) (footprint (snd (f s))) \<and> (\<forall>a. fst (f s) = Inr a \<longrightarrow> Q a (snd (f s)))"
    and "\<And>s t. sim snap F s t \<Longrightarrow> P s \<Longrightarrow> fp_le (footprint s) F \<Longrightarrow> fp_le (footprint (snd (f s))) F \<Longrightarrow>
      fst (f t) = fst (f s) \<and> sim snap F (snd (f s)) (snd (f t))"
  shows "triple snap F P f Q"
  unfolding triple_def using assms sim_rec fp_le_trans by blast

lemma triple_then [triples]:
  assumes f: "triple snap F P f Q" and g: "\<And>a. triple snap F (Q a) (g a) R"
  shows "triple snap F P (then_op f g) R"
proof (rule tripleI)
  fix s assume s: "rec_inv snap s" "P s"
  obtain r s1 where fs: "f s = (r, s1)"
    by fastforce
  have 1: "rec_inv snap s1" "fp_le (footprint s) (footprint s1)" "\<And>a. r = Inr a \<Longrightarrow> Q a s1"
    using f s fs unfolding triple_def by force+
  show "rec_inv snap (snd (then_op f g s)) \<and> fp_le (footprint s) (footprint (snd (then_op f g s)))
      \<and> (\<forall>a. fst (then_op f g s) = Inr a \<longrightarrow> R a (snd (then_op f g s)))"
  proof (cases r)
    case (Inr a)
    then have "rec_inv snap (snd (g a s1)) \<and> fp_le (footprint s1) (footprint (snd (g a s1)))
        \<and> (\<forall>b. fst (g a s1) = Inr b \<longrightarrow> R b (snd (g a s1)))"
      using g [of a] 1 unfolding triple_def by blast
    then show ?thesis
      using 1 Inr fs fp_le_trans by (auto simp: then_op_def)
  qed (use 1 fs in \<open>auto simp: then_op_def\<close>)
next
  fix s t assume st: "sim snap F s t" "P s" and le: "fp_le (footprint (snd (then_op f g s))) F"
  obtain r s1 where fs: "f s = (r, s1)"
    by fastforce
  have 1: "rec_inv snap s1" "\<And>a. r = Inr a \<Longrightarrow> Q a s1"
    using f st fs sim_rec unfolding triple_def by force+
  show "fst (then_op f g t) = fst (then_op f g s) \<and> sim snap F (snd (then_op f g s)) (snd (then_op f g t))"
  proof (cases r)
    case (Inl e)
    then have "fst (f t) = r \<and> sim snap F s1 (snd (f t))"
      using f st le fs unfolding triple_def by (force simp: then_op_def)
    then show ?thesis
      using Inl fs by (cases "f t") (auto simp: then_op_def)
  next
    case (Inr a)
    then have "fp_le (footprint s1) (footprint (snd (g a s1)))" and le': "fp_le (footprint (snd (g a s1))) F"
      using g [of a] 1 le fs unfolding triple_def by (auto simp: then_op_def)
    then have "fp_le (footprint s1) F"
      by (rule fp_le_trans)
    then have t: "fst (f t) = Inr a" "sim snap F s1 (snd (f t))"
      using f st fs Inr unfolding triple_def by force+
    then have "fst (g a (snd (f t))) = fst (g a s1) \<and> sim snap F (snd (g a s1)) (snd (g a (snd (f t))))"
      using g [of a] 1 Inr le' unfolding triple_def by blast
    then show ?thesis
      using t Inr fs by (cases "f t") (auto simp: then_op_def)
  qed
qed

lemma triple_lift [triples]: "triple snap F P (lift_res (\<lambda>_. c)) (\<lambda>_. P)"
  by (rule tripleI) (auto simp: lift_res_def)

lemma triple_weaken: "triple snap F P f Q \<Longrightarrow> (\<And>a s. Q a s \<Longrightarrow> R a s) \<Longrightarrow> triple snap F P f R"
  unfolding triple_def by blast

subsection \<open>Footprint accesses\<close>

lemma record_access_ok:
  assumes "mm_invar fp" and "record_access k ty fp = Inr fp'"
  shows "mm_invar fp' \<and> fp_le fp fp' \<and> (\<exists>b. map_of fp' k = Some b \<and> (ty = ReadWrite \<longrightarrow> b = ReadWrite))
    \<and> dom (map_of fp') = insert k (dom (map_of fp))"
proof (cases "map_of fp k")
  case None
  then have x: "mm_insert k ty fp = Inr fp'"
    using assms by (simp add: record_access_def mm.get_lookup)
  have "map_of fp' = (map_of fp)(k \<mapsto> ty)" "mm_invar fp'"
    by (rule mm.lookup_update [OF assms(1) x], rule mm.invar_update [OF assms(1) x])
  then show ?thesis
    using None by (auto simp: fp_le_def)
next
  case (Some a)
  show ?thesis
  proof (cases "a = ReadOnly \<and> ty = ReadWrite")
    case True
    then have x: "mm_insert k ty fp = Inr fp'"
      using assms Some by (simp add: record_access_def mm.get_lookup)
    have "map_of fp' = (map_of fp)(k \<mapsto> ty)" "mm_invar fp'"
      by (rule mm.lookup_update [OF assms(1) x], rule mm.invar_update [OF assms(1) x])
    then show ?thesis
      using Some True by (auto simp: fp_le_def)
  next
    case False
    then have "fp' = fp"
      using assms Some by (cases a; cases ty) (simp_all add: record_access_def mm.get_lookup)
    then show ?thesis
      using assms Some False by (cases a; cases ty) auto
  qed
qed

lemma record_access_room: "mm_invar fp \<Longrightarrow> length fp < U32_MAX \<Longrightarrow> \<exists>fp'. record_access k ty fp = Inr fp'"
  using mm.update_ok [of fp k ty]
  by (auto simp: record_access_def mm.get_lookup split: option.split AccessType.split)

lemma enforce_access_ok:
  "mm_invar F \<Longrightarrow> map_of F k = Some b \<Longrightarrow> (ty = ReadWrite \<longrightarrow> b = ReadWrite) \<Longrightarrow> enforce_access k ty F = Inr ()"
  by (auto simp: enforce_access_def mm.get_lookup split: AccessType.split)

lemma triple_access [triples]: "triple snap F (\<lambda>_. True) (access_footprint k ty) (\<lambda>_. touched k)"
proof (rule tripleI)
  fix s assume s: "rec_inv snap s"
  then show "rec_inv snap (snd (access_footprint k ty s))
      \<and> fp_le (footprint s) (footprint (snd (access_footprint k ty s)))
      \<and> (\<forall>a. fst (access_footprint k ty s) = Inr a \<longrightarrow> touched k (snd (access_footprint k ty s)))"
    using record_access_ok [of "footprint s" k ty]
    by (cases "record_access k ty (footprint s)") (auto simp: access_footprint_def rec_inv_def touched_def)
next
  fix s t assume st: "sim snap F s t" and le: "fp_le (footprint s) F"
    and le': "fp_le (footprint (snd (access_footprint k ty s))) F"
  have s: "rec_inv snap s" "mm_invar (footprint s)"
    using st by (simp_all add: sim_def rec_inv_def)
  obtain fp where fp: "record_access k ty (footprint s) = Inr fp"
    using record_access_room [OF s(2) sim_room(1) [OF st le]] by blast
  have a: "access_footprint k ty s = (Inr (), s\<lparr>footprint := fp\<rparr>)"
    using s(1) fp by (simp add: access_footprint_def rec_inv_def)
  note ok = record_access_ok [OF s(2) fp]
  then obtain b where "map_of F k = Some b" "ty = ReadWrite \<longrightarrow> b = ReadWrite"
    using le' a unfolding fp_le_def by fastforce
  then have "enforce_access k ty F = Inr ()"
    using st by (intro enforce_access_ok) (auto simp: sim_def)
  then have t: "access_footprint k ty t = (Inr (), t)"
    using st by (simp add: access_footprint_def sim_def)
  have "seen snap (s\<lparr>footprint := fp\<rparr>) = seen snap s"
    by (simp add: seen_def fun_eq_iff)
  then show "fst (access_footprint k ty t) = fst (access_footprint k ty s)
      \<and> sim snap F (snd (access_footprint k ty s)) (snd (access_footprint k ty t))"
    using st ok unfolding a t by (auto simp: sim_def rec_inv_def)
qed

subsection \<open>Accesses of the map\<close>

lemma insert_smap_run:
  assumes "mm_invar (smap s)" and "length (smap s) < U32_MAX"
  obtains m where "insert_smap k v s = (Inr (), s\<lparr>smap := m\<rparr>)" "mm_invar m" "map_of m = (map_of (smap s))(k \<mapsto> v)"
proof -
  obtain m where m: "mm_insert k v (smap s) = Inr m"
    using mm.update_ok [OF assms] by blast
  show ?thesis
    by (rule that [of m])
      (use m assms mm.lookup_update mm.invar_update in \<open>auto simp: insert_smap_def\<close>)
qed

lemma triple_insert [triples]: "triple snap F (touched k) (insert_smap k v) (\<lambda>_. cached k)"
proof (rule tripleI)
  fix s assume s: "rec_inv snap s" "touched k s"
  show "rec_inv snap (snd (insert_smap k v s)) \<and> fp_le (footprint s) (footprint (snd (insert_smap k v s)))
      \<and> (\<forall>a. fst (insert_smap k v s) = Inr a \<longrightarrow> cached k (snd (insert_smap k v s)))"
  proof (cases "mm_insert k v (smap s)")
    case (Inr m)
    then have "map_of m = (map_of (smap s))(k \<mapsto> v)" "mm_invar m"
      using s mm.lookup_update mm.invar_update by (auto simp: rec_inv_def)
    then show ?thesis
      using s Inr by (auto simp: insert_smap_def rec_inv_def touched_def cached_def)
  qed (use s in \<open>simp add: insert_smap_def\<close>)
next
  fix s t assume st: "sim snap F s t" and le: "fp_le (footprint s) F" and k: "touched k s"
  have "mm_invar (smap s)" "mm_invar (smap t)"
    using st by (simp_all add: sim_def rec_inv_def)
  then obtain m n where m: "insert_smap k v s = (Inr (), s\<lparr>smap := m\<rparr>)" "mm_invar m" "map_of m = (map_of (smap s))(k \<mapsto> v)"
    and n: "insert_smap k v t = (Inr (), t\<lparr>smap := n\<rparr>)" "mm_invar n" "map_of n = (map_of (smap t))(k \<mapsto> v)"
    using insert_smap_run sim_room [OF st le] by metis
  have kF: "k \<in> dom (map_of F)"
    using k fp_le_dom [OF le] by (auto simp: touched_def)
  have "rec_inv snap (s\<lparr>smap := m\<rparr>)"
    using st k m by (auto simp: sim_def rec_inv_def touched_def)
  moreover have "map_of n = (\<lambda>j. if j \<in> dom (map_of F) then Some (seen snap (s\<lparr>smap := m\<rparr>) j) else None)"
    using st kF m n by (auto simp: sim_def seen_def fun_eq_iff)
  ultimately show "fst (insert_smap k v t) = fst (insert_smap k v s)
      \<and> sim snap F (snd (insert_smap k v s)) (snd (insert_smap k v t))"
    using st m n by (simp add: sim_def)
qed

lemma sim_lookup:
  assumes "sim snap F s t" and "fp_le (footprint s) F" and "cached k s"
  shows "mm_get k (smap t) = mm_get k (smap s)"
proof -
  have "k \<in> dom (map_of F)"
    using assms(1,3) fp_le_dom [OF assms(2)] unfolding sim_def rec_inv_def cached_def by blast
  then have "map_of (smap t) k = map_of (smap s) k"
    using assms(1,3) by (auto simp: sim_def seen_def cached_def)
  then show ?thesis
    using assms(1) by (simp add: sim_def rec_inv_def mm.get_lookup)
qed

lemma triple_lookup [triples]:
  "triple snap F (cached k) (lift_res (\<lambda>s. mm_get k (smap s))) (\<lambda>_. cached k)"
  by (rule tripleI) (auto simp: lift_res_def sim_lookup)

lemma fill_cache_recording:
  assumes "rec_inv snap s"
  shows "fill_cache k s = (if cached k s then (Inr (), s) else insert_smap k (snap k) s)"
  using assms by (simp add: fill_cache_def rec_inv_def mm_contains_key_lookup cached_def)

lemma triple_fill [triples]: "triple snap F (touched k) (fill_cache k) (\<lambda>_. cached k)"
proof (rule tripleI)
  fix s assume s: "rec_inv snap s" "touched k s"
  then show "rec_inv snap (snd (fill_cache k s)) \<and> fp_le (footprint s) (footprint (snd (fill_cache k s)))
      \<and> (\<forall>a. fst (fill_cache k s) = Inr a \<longrightarrow> cached k (snd (fill_cache k s)))"
    using triple_insert [of snap F k "snap k"] unfolding triple_def by (simp add: fill_cache_recording)
next
  fix s t assume st: "sim snap F s t" and le: "fp_le (footprint s) F" and k: "touched k s"
  have t: "fill_cache k t = (Inr (), t)"
    using st by (simp add: fill_cache_def sim_def)
  show "fst (fill_cache k t) = fst (fill_cache k s) \<and> sim snap F (snd (fill_cache k s)) (snd (fill_cache k t))"
  proof (cases "cached k s")
    case False
    have "mm_invar (smap s)"
      using st by (simp add: sim_def rec_inv_def)
    then obtain m where m: "insert_smap k (snap k) s = (Inr (), s\<lparr>smap := m\<rparr>)" "mm_invar m"
        "map_of m = (map_of (smap s))(k \<mapsto> snap k)"
      using insert_smap_run sim_room [OF st le] by metis
    have "seen snap (s\<lparr>smap := m\<rparr>) = seen snap s"
      using False m(3) by (auto simp: seen_def cached_def fun_eq_iff split: option.splits)
    then have "sim snap F (s\<lparr>smap := m\<rparr>) t"
      using st m k by (auto simp: sim_def rec_inv_def touched_def)
    then show ?thesis
      using False m t fill_cache_recording [OF sim_rec [OF st]] by simp
  qed (use st t fill_cache_recording [OF sim_rec [OF st]] in simp)
qed

subsection \<open>Every call\<close>

lemma triple_pre:
  "triple snap F P' f Q \<Longrightarrow> (\<And>s. rec_inv snap s \<Longrightarrow> P s \<Longrightarrow> P' s) \<Longrightarrow> triple snap F P f Q"
  unfolding triple_def using sim_rec by blast

lemma triple_any: "triple snap F P f Q \<Longrightarrow> triple snap F P f (\<lambda>_ _. True)"
  by (erule triple_weaken) simp

lemma triple_prepare: "triple snap F (\<lambda>_. True) (prepare_read_only_access k) (\<lambda>_. cached k)"
  unfolding prepare_read_only_access_def by (rule triple_then [OF triple_access triple_fill])

lemma triple_try_get_full: "triple snap F (\<lambda>_. True) (try_get_full T k) (\<lambda>_. cached k)"
  unfolding try_get_full_def
  by (rule triple_then [OF triple_lift triple_then [OF triple_prepare triple_then [OF triple_lookup triple_lift]]])

lemma triple_get_live: "triple snap F (\<lambda>_. True) (get_with_live_until_ledger T k) (\<lambda>_. cached k)"
  unfolding get_with_live_until_ledger_def by (rule triple_then [OF triple_try_get_full triple_lift])

lemma triple_get: "triple snap F (\<lambda>_. True) (storage_get T k) (\<lambda>_. cached k)"
  unfolding storage_get_def by (rule triple_then [OF triple_try_get_full triple_lift])

lemma triple_try_get: "triple snap F (\<lambda>_. True) (storage_try_get T k) (\<lambda>_. cached k)"
  unfolding storage_try_get_def by (rule triple_then [OF triple_try_get_full triple_lift])

lemma triple_has: "triple snap F (\<lambda>_. True) (storage_has T k) (\<lambda>_. cached k)"
  unfolding storage_has_def
  by (rule triple_then [OF triple_lift triple_then [OF triple_prepare triple_then [OF triple_lookup triple_lift]]])

lemma triple_put_opt: "triple snap F (\<lambda>_. True) (put_opt T k v) (\<lambda>_. cached k)"
  unfolding put_opt_def
  by (rule triple_then [OF triple_lift triple_then [OF triple_lift triple_then [OF triple_access triple_insert]]])

lemma triple_insert_cached: "triple snap F (cached k) (insert_smap k v) (\<lambda>_. cached k)"
  by (rule triple_pre [OF triple_insert]) (auto simp: rec_inv_def cached_def touched_def)

lemma triple_extend: "triple snap F (\<lambda>_. True) (storage_extend_ttl T li k n m) (\<lambda>_. cached k)"
  unfolding storage_extend_ttl_def
  by (rule triple_then [OF triple_lift triple_then [OF triple_lift triple_then [OF triple_get_live]]])
    (auto intro!: triple_then [OF triple_lift triple_then [OF triple_lift]] triple_insert_cached triple_lift split: prod.split)

lemma triple_map_res: "triple snap F P f Q \<Longrightarrow> triple snap F P (map_res r f) (\<lambda>_ _. True)"
  unfolding map_res_def by (rule triple_then [OF triple_any triple_lift])

lemma triple_call: "triple snap F (\<lambda>_. True) (run_call T li c) (\<lambda>_ _. True)"
  by (cases c)
    (simp_all add: storage_put_def storage_del_def triple_map_res [OF triple_get] triple_map_res [OF triple_try_get]
      triple_map_res [OF triple_get_live] triple_map_res [OF triple_has] triple_map_res [OF triple_put_opt]
      triple_map_res [OF triple_extend])

lemma run_calls_recording:
  "rec_inv snap s \<Longrightarrow> run_calls T li cs s = (rs, s') \<Longrightarrow> rec_inv snap s' \<and> fp_le (footprint s) (footprint s')"
proof (induction cs arbitrary: s rs)
  case (Cons c cs)
  obtain r s1 where 1: "run_call T li c s = (r, s1)"
    by fastforce
  then obtain qs where 2: "run_calls T li cs s1 = (qs, s')"
    using Cons.prems by (auto split: prod.splits)
  have "rec_inv snap s1 \<and> fp_le (footprint s) (footprint s1)"
    using triple_call [of snap "[]" T li c] Cons.prems 1 unfolding triple_def by force
  then show ?case
    using Cons.IH [OF _ 2] fp_le_trans by blast
qed simp

lemma run_calls_sim:
  "sim snap F s t \<Longrightarrow> run_calls T li cs s = (rs, s') \<Longrightarrow> fp_le (footprint s') F \<Longrightarrow>
     \<exists>t'. run_calls T li cs t = (rs, t') \<and> sim snap F s' t'"
proof (induction cs arbitrary: s t rs)
  case (Cons c cs)
  obtain r s1 where 1: "run_call T li c s = (r, s1)"
    by fastforce
  then obtain qs where 2: "run_calls T li cs s1 = (qs, s')" "rs = r # qs"
    using Cons.prems(2) by (auto split: prod.splits)
  have s1: "rec_inv snap s1"
    using triple_call [of snap F T li c] sim_rec [OF Cons.prems(1)] 1 unfolding triple_def by force
  then have "fp_le (footprint s1) F"
    using run_calls_recording [OF _ 2(1)] fp_le_trans Cons.prems(3) by blast
  then have "fst (run_call T li c t) = r \<and> sim snap F s1 (snd (run_call T li c t))"
    using triple_call [of snap F T li c] Cons.prems(1) 1 unfolding triple_def by force
  then show ?case
    using Cons.IH [OF _ 2(1) Cons.prems(3), of "snd (run_call T li c t)"] 2(2)
    by (cases "run_call T li c t") (auto split: prod.splits)
qed simp

section \<open>Properties\<close>

text \<open>C25: preflight is sound.  Record any sequence of storage calls, failing ones included, on a
  snapshot of the ledger, then run the same sequence in enforcing mode with the recorded
  footprint and a map that holds the snapshot's values of exactly its keys: every call returns
  the same result or the same error, and at the end both hold the same value for every key of
  the footprint.  The footprint must stay below the \<open>u32\<close> size limit of a map.\<close>

theorem preflight_sound:
  assumes "run_calls T li cs (with_recording_footprint (\<lambda>k. Inr (snap k))) = (rs, s)"
    and "length (footprint s) < U32_MAX" and "mm_invar m"
    and "map_of m = (\<lambda>k. if k \<in> dom (map_of (footprint s)) then Some (snap k) else None)"
  shows "\<exists>t. run_calls T li cs (with_enforcing_footprint_and_map (footprint s) m) = (rs, t)
    \<and> footprint t = footprint s
    \<and> (\<forall>k\<in>dom (map_of (footprint s)). map_of (smap t) k = Some (seen snap s k))"
proof -
  have "rec_inv snap (with_recording_footprint (\<lambda>k. Inr (snap k)))"
    by (simp add: rec_inv_def with_recording_footprint_def mm_invar_def)
  moreover from this have "mm_invar (footprint s)"
    using run_calls_recording [OF _ assms(1)] by (simp add: rec_inv_def)
  ultimately have "sim snap (footprint s) (with_recording_footprint (\<lambda>k. Inr (snap k)))
      (with_enforcing_footprint_and_map (footprint s) m)"
    using assms by (auto simp: sim_def with_enforcing_footprint_and_map_def with_recording_footprint_def seen_def)
  from run_calls_sim [OF this assms(1)] show ?thesis
    by (auto simp: sim_def)
qed

definition sample_types :: "(nat, nat) xdr_types" where
  "sample_types = \<lparr>key_kind = (\<lambda>_. LK_ContractData Persistent), entry_kind = (\<lambda>_. LK_ContractData Persistent)\<rparr>"

definition sample_ledger :: ledger_info where
  "sample_ledger = \<lparr>protocol_version = 21, sequence_number = 50, timestamp = 1000, network_id = [], base_reserve = 5,
     min_temp_entry_ttl = 16, min_persistent_entry_ttl = 100, max_entry_ttl = 10000\<rparr>"

definition sample_snapshot :: "nat \<Rightarrow> nat EntryWithLiveUntil option" where
  "sample_snapshot k = (if k = 1 then Some (7, Some 100) else None)"

definition sample_calls :: "(nat, nat) storage_call list" where
  "sample_calls = [CGet 1, CPut 2 5 (Some 150), CGet 2, CGet 3, CExtend 1 500 500]"

lemma sample_run:
  "fst (run_calls sample_types sample_ledger sample_calls (with_recording_footprint (\<lambda>k. Inr (sample_snapshot k))))
     = [Inr (REntry 7), Inr RUnit, Inr (REntry 5), Inl (HostErr SCE_Storage MissingValue), Inr RUnit]"
  "footprint (snd (run_calls sample_types sample_ledger sample_calls
       (with_recording_footprint (\<lambda>k. Inr (sample_snapshot k))))) = [(1, ReadOnly), (2, ReadWrite), (3, ReadOnly)]"
  by code_simp+

theorem preflight_sound_witness:
  "\<exists>t. run_calls sample_types sample_ledger sample_calls
      (with_enforcing_footprint_and_map [(1, ReadOnly), (2, ReadWrite), (3, ReadOnly)]
        [(1, Some (7, Some 100)), (2, None), (3, None)])
    = ([Inr (REntry 7), Inr RUnit, Inr (REntry 5), Inl (HostErr SCE_Storage MissingValue), Inr RUnit], t)"
proof -
  obtain rs s where run: "run_calls sample_types sample_ledger sample_calls
      (with_recording_footprint (\<lambda>k. Inr (sample_snapshot k))) = (rs, s)"
    by fastforce
  then have s: "footprint s = [(1, ReadOnly), (2, ReadWrite), (3, ReadOnly)]"
      "rs = [Inr (REntry 7), Inr RUnit, Inr (REntry 5), Inl (HostErr SCE_Storage MissingValue), Inr RUnit]"
    using sample_run by simp_all
  have m: "mm_invar [(1::nat, Some (7::nat, Some 100)), (2, None), (3, None)]"
    by (simp add: mm_invar_def U32_MAX_def)
  show ?thesis
    using preflight_sound [OF run _ m] unfolding s
    by (force simp: U32_MAX_def sample_snapshot_def fun_eq_iff)
qed

subsection \<open>What a footprint allows\<close>

text \<open>The slot of a key that may only be read changes at most in its \<open>live_until\<close> ledger, and
  only forward.\<close>

definition slot_grows :: "'e EntryWithLiveUntil option option \<Rightarrow> 'e EntryWithLiveUntil option option \<Rightarrow> bool" where
  "slot_grows a b \<longleftrightarrow>
     a = b \<or> (\<exists>e l l'. a = Some (Some (e, Some l)) \<and> b = Some (Some (e, Some l')) \<and> l < l')"

definition within_footprint :: "('k::linorder, 'e) Storage \<Rightarrow> ('k, 'e) Storage \<Rightarrow> bool" where
  "within_footprint s t \<longleftrightarrow> footprint t = footprint s
     \<and> (\<forall>k. (map_of (footprint s) k = None \<longrightarrow> map_of (smap t) k = map_of (smap s) k)
          \<and> (map_of (footprint s) k = Some ReadOnly \<longrightarrow> slot_grows (map_of (smap s) k) (map_of (smap t) k)))"

definition enforcing :: "('k::linorder, 'e) Storage \<Rightarrow> bool" where
  "enforcing s \<longleftrightarrow> fp_mode s = Enforcing \<and> mm_invar (footprint s) \<and> mm_invar (smap s)"

lemma slot_grows_refl [simp]: "slot_grows a a"
  by (simp add: slot_grows_def)

lemma slot_grows_trans: "slot_grows a b \<Longrightarrow> slot_grows b c \<Longrightarrow> slot_grows a c"
  by (auto simp: slot_grows_def)

lemma within_refl [simp]: "within_footprint s s"
  by (simp add: within_footprint_def)

lemma within_trans: "within_footprint s t \<Longrightarrow> within_footprint t u \<Longrightarrow> within_footprint s u"
  unfolding within_footprint_def by (auto intro: slot_grows_trans)

lemma access_enforcing:
  assumes "enforcing s"
  shows "snd (access_footprint k ty s) = s"
    and "fst (access_footprint k ty s) = Inr () \<longleftrightarrow>
      (\<exists>b. map_of (footprint s) k = Some b \<and> (ty = ReadWrite \<longrightarrow> b = ReadWrite))"
  using assms
  by (cases "map_of (footprint s) k";
      auto simp: enforcing_def access_footprint_def enforce_access_def mm.get_lookup split: AccessType.splits)+

lemma prepare_enforcing:
  assumes "enforcing s"
  shows "snd (prepare_read_only_access k s) = s"
    and "fst (prepare_read_only_access k s) = Inr () \<Longrightarrow> k \<in> dom (map_of (footprint s))"
  using access_enforcing [OF assms, of k ReadOnly] assms
  by (cases "access_footprint k ReadOnly s"; cases "fst (access_footprint k ReadOnly s)";
      auto simp: prepare_read_only_access_def then_op_def fill_cache_def enforcing_def)+

lemma then_op_cases:
  "then_op f g s = (case fst (f s) of Inl e \<Rightarrow> (Inl e, snd (f s)) | Inr a \<Rightarrow> g a (snd (f s)))"
  by (cases "f s") (simp add: then_op_def split: sum.split)

lemma try_get_full_enforcing:
  assumes "enforcing s"
  shows "snd (try_get_full T k s) = s"
    and "fst (try_get_full T k s) = Inr v \<Longrightarrow> map_of (smap s) k = Some v \<and> k \<in> dom (map_of (footprint s))"
  using prepare_enforcing [OF assms, of k] assms
  by (auto simp: try_get_full_def then_op_cases lift_res_def enforcing_def mm.get_lookup split: sum.splits option.splits)

lemma insert_enforcing:
  assumes "enforcing s"
    and "map_of (footprint s) k = Some ReadWrite
      \<or> map_of (footprint s) k \<noteq> None \<and> slot_grows (map_of (smap s) k) (Some v)"
  shows "enforcing (snd (insert_smap k v s)) \<and> within_footprint s (snd (insert_smap k v s))"
proof (cases "mm_insert k v (smap s)")
  case (Inr m)
  have inv: "mm_invar (smap s)"
    using assms(1) by (simp add: enforcing_def)
  have "map_of m = (map_of (smap s))(k \<mapsto> v)" "mm_invar m"
    by (rule mm.lookup_update [OF inv Inr], rule mm.invar_update [OF inv Inr])
  then show ?thesis
    using assms Inr by (auto simp: insert_smap_def enforcing_def within_footprint_def)
qed (use assms in \<open>simp add: insert_smap_def\<close>)

lemma put_opt_enforcing:
  assumes "enforcing s"
  shows "enforcing (snd (put_opt T k v s)) \<and> within_footprint s (snd (put_opt T k v s))"
proof -
  have "enforcing (snd (insert_smap k v s)) \<and> within_footprint s (snd (insert_smap k v s))"
    if "fst (access_footprint k ReadWrite s) = Inr ()"
    using insert_enforcing [OF assms] that access_enforcing(2) [OF assms, of k ReadWrite] by auto
  then show ?thesis
    using assms access_enforcing(1) [OF assms, of k ReadWrite]
    by (auto simp: put_opt_def then_op_cases lift_res_def split: sum.splits)
qed

lemma extend_enforcing:
  assumes "enforcing s"
  shows "enforcing (snd (storage_extend_ttl T li k n m s)) \<and> within_footprint s (snd (storage_extend_ttl T li k n m s))"
proof -
  have get: "snd (get_with_live_until_ledger T k s) = s"
    using try_get_full_enforcing(1) [OF assms]
    by (auto simp: get_with_live_until_ledger_def then_op_cases lift_res_def split: sum.splits)
  have "enforcing (snd (insert_smap k (Some (e, Some l')) s)) \<and> within_footprint s (snd (insert_smap k (Some (e, Some l')) s))"
    if "fst (get_with_live_until_ledger T k s) = Inr (e, Some l)" "l < l'" for e l l'
  proof (rule insert_enforcing [OF assms])
    have "fst (try_get_full T k s) = Inr (Some (e, Some l))"
      using that(1) by (auto simp: get_with_live_until_ledger_def then_op_cases lift_res_def split: sum.splits option.splits)
    then show "map_of (footprint s) k = Some ReadWrite
        \<or> map_of (footprint s) k \<noteq> None \<and> slot_grows (map_of (smap s) k) (Some (Some (e, Some l')))"
      using try_get_full_enforcing(2) [OF assms] that(2) by (fastforce simp: slot_grows_def)
  qed
  then show ?thesis
    using assms get
    by (auto simp: storage_extend_ttl_def then_op_cases lift_res_def split: sum.splits option.splits)
qed

lemma read_enforcing:
  assumes "enforcing s"
  shows "snd (storage_get T k s) = s" "snd (storage_try_get T k s) = s" "snd (storage_has T k s) = s"
    "snd (get_with_live_until_ledger T k s) = s"
  using try_get_full_enforcing(1) [OF assms, of T k] prepare_enforcing(1) [OF assms, of k]
  by (auto simp: storage_get_def storage_try_get_def storage_has_def get_with_live_until_ledger_def
      then_op_cases lift_res_def split: sum.splits)

lemma run_call_enforcing:
  assumes "enforcing s"
  shows "enforcing (snd (run_call T li c s)) \<and> within_footprint s (snd (run_call T li c s))"
proof -
  have "snd (map_res r f s) = snd (f s)" for r and f :: "('a, 'b, 'c) storage_op"
    by (simp add: map_res_def then_op_cases lift_res_def split: sum.split)
  moreover have "snd (map_res r f s) = snd (f s)" for r and f :: "('a, 'b, unit) storage_op"
    by (simp add: map_res_def then_op_cases lift_res_def split: sum.split)
  ultimately show ?thesis
    using assms read_enforcing [OF assms] put_opt_enforcing [OF assms] extend_enforcing [OF assms]
    by (cases c) (auto simp: storage_put_def storage_del_def map_res_def then_op_cases lift_res_def split: sum.split)
qed

text \<open>C34: in enforcing mode no sequence of storage calls gets around the footprint: the footprint
  itself does not change, a key outside it is neither created, changed nor deleted, and for a
  key declared read-only the stored entry stays the same while its \<open>live_until\<close> ledger can
  only move forward.\<close>

theorem footprint_enforced:
  assumes "run_calls T li cs s = (rs, s')" and "fp_mode s = Enforcing"
    and "mm_invar (footprint s)" and "mm_invar (smap s)"
  shows "footprint s' = footprint s
    \<and> (\<forall>k. (map_of (footprint s) k = None \<longrightarrow> map_of (smap s') k = map_of (smap s) k)
         \<and> (map_of (footprint s) k = Some ReadOnly \<longrightarrow> slot_grows (map_of (smap s) k) (map_of (smap s') k)))"
proof -
  have "enforcing s \<Longrightarrow> enforcing s' \<and> within_footprint s s'"
    using assms(1)
  proof (induction cs arbitrary: s rs)
    case (Cons c cs)
    obtain r s1 where 1: "run_call T li c s = (r, s1)"
      by fastforce
    then obtain qs where 2: "run_calls T li cs s1 = (qs, s')"
      using Cons.prems by (auto split: prod.splits)
    show ?case
      using run_call_enforcing [OF Cons.prems(1), of T li c] Cons.IH [OF _ 2] 1 within_trans by auto
  qed simp
  then show ?thesis
    using assms by (simp add: enforcing_def within_footprint_def)
qed

theorem footprint_enforced_witness:
  "map_of (smap (snd (run_calls sample_types sample_ledger [CPut 1 8 None, CDel 4]
     (with_enforcing_footprint_and_map [(1, ReadOnly)] [(1, Some (7, Some 100))])))) 4 = None"
proof -
  define s0 where "s0 = with_enforcing_footprint_and_map [(1::nat, ReadOnly)] [(1, Some (7::nat, Some 100))]"
  have s0: "fp_mode s0 = Enforcing" "footprint s0 = [(1, ReadOnly)]" "smap s0 = [(1, Some (7, Some 100))]"
    by (simp_all add: s0_def with_enforcing_footprint_and_map_def)
  obtain rs s1 where run: "run_calls sample_types sample_ledger [CPut 1 8 None, CDel 4] s0 = (rs, s1)"
    by fastforce
  show ?thesis
    using footprint_enforced [OF run s0(1)] run unfolding s0_def [symmetric]
    by (simp add: s0 mm_invar_def U32_MAX_def)
qed

subsection \<open>The contracts' view of an entry\<close>

lemma get_live_enforcing:
  assumes "enforcing s" and "map_of (footprint s) k \<noteq> None" and "map_of (smap s) k = Some (Some x)"
    and "supported_kind (key_kind T k)"
  shows "get_with_live_until_ledger T k s = (Inr x, s)"
proof -
  have "fst (access_footprint k ReadOnly s) = Inr ()"
    using assms(2) access_enforcing(2) [OF assms(1)] by auto
  then have "access_footprint k ReadOnly s = (Inr (), s)"
    using access_enforcing(1) [OF assms(1), of k ReadOnly] by (metis prod.collapse)
  then show ?thesis
    using assms
    by (simp add: get_with_live_until_ledger_def try_get_full_def prepare_read_only_access_def fill_cache_def
        then_op_def lift_res_def check_supported_ledger_key_type_def enforcing_def mm.get_lookup)
qed

text \<open>The slot functions with which the contracts are modelled describe this storage: for a
  live contract entry of the footprint, extending its life in the storage fails with the same
  error as \<open>extend_entry\<close>, or leaves exactly the slot that \<open>extend_entry\<close> computes.\<close>

lemma extend_ttl_refines_slot:
  assumes "fp_mode s = Enforcing" and "mm_invar (footprint s)" and "mm_invar (smap s)" and "length (smap s) < U32_MAX"
    and "map_of (footprint s) k \<noteq> None" and "key_kind T k = LK_ContractData d"
    and "map_of (smap s) k = Some (Some (v, Some l))" and "sequence_number li \<le> l"
  shows "case extend_entry li d n m (Some (v, l)) of
      Inl e \<Rightarrow> storage_extend_ttl T li k n m s = (Inl e, s)
    | Inr (v', l') \<Rightarrow> fst (storage_extend_ttl T li k n m s) = Inr ()
        \<and> map_of (smap (snd (storage_extend_ttl T li k n m s))) k = Some (Some (v', Some l'))"
proof -
  have s: "enforcing s"
    using assms by (simp add: enforcing_def)
  have get: "get_with_live_until_ledger T k s = (Inr (v, Some l), s)"
    using get_live_enforcing [OF s assms(5,7)] assms(6) by simp
  have ins: "fst (insert_smap k x s) = Inr () \<and> map_of (smap (snd (insert_smap k x s))) k = Some x" for x
    using insert_smap_run [OF assms(3,4), of k x] by fastforce
  define new where "new = new_live_until_for T li k m l"
  have run: "storage_extend_ttl T li k n m s =
     (if n > m then (Inl (HostErr SCE_Storage InvalidInput), s)
      else case new of Inl e \<Rightarrow> (Inl e, s)
      | Inr l' \<Rightarrow> if l' > l \<and> saturating_sub_u32 l (sequence_number li) \<le> n
          then insert_smap k (Some (v, Some l')) s else (Inr (), s))"
    using get assms(6)
    by (auto simp: storage_extend_ttl_def then_op_def lift_res_def check_supported_ledger_key_type_def new_def split: sum.splits)
  have slot: "extend_entry li d n m (Some (v, l)) =
     (if n > m then Inl (HostErr SCE_Storage InvalidInput)
      else case new of Inl e \<Rightarrow> Inl e
      | Inr l' \<Rightarrow> Inr (if l' > l \<and> saturating_sub_u32 l (sequence_number li) \<le> n then (v, l') else (v, l)))"
    using assms(6,8)
    by (auto simp: extend_entry_def try_get_entry_def new_def new_live_until_for_def get_key_durability_def Let_def
        checked_add_u32_def min_def split: option.splits sum.splits durability.splits if_splits)
  show ?thesis
    unfolding run slot using assms(7) ins by (auto split: sum.splits)
qed

lemma extend_ttl_refines_slot_witness:
  "map_of (smap (snd (storage_extend_ttl sample_types sample_ledger 1 500 500
     (with_enforcing_footprint_and_map [(1, ReadOnly)] [(1, Some (7, Some 100))])))) 1 = Some (Some (7, Some 550))"
proof -
  define s0 where "s0 = with_enforcing_footprint_and_map [(1::nat, ReadOnly)] [(1, Some (7::nat, Some 100))]"
  have s0: "fp_mode s0 = Enforcing" "footprint s0 = [(1, ReadOnly)]" "smap s0 = [(1, Some (7, Some 100))]"
    by (simp_all add: s0_def with_enforcing_footprint_and_map_def)
  have "extend_entry sample_ledger Persistent 500 500 (Some (7::nat, 100)) = Inr (7, 550)"
    by code_simp
  then show ?thesis
    using extend_ttl_refines_slot [OF s0(1), of 1 sample_types Persistent 7 100 sample_ledger 500 500]
    unfolding s0_def [symmetric] by (simp add: s0 mm_invar_def U32_MAX_def sample_types_def sample_ledger_def)
qed

end
