(* ===== verification/Fees.thy ===== *)
theory Fees
  imports Prelude
begin

text \<open>
  The fee computation of \<open>fees.rs\<close>: the resource fee of a transaction, the write fee that
  grows with the bucket list, and the rent of ledger entries.  The resources and sizes are
  \<open>u32\<close>, the fees \<open>i64\<close>, with every saturating operation written out; the write fee is
  computed in \<open>i128\<close>.  The ceiled division comes from the crate \<open>num_integer\<close> and is a
  parameter \<open>div_ceil\<close>; its documented behaviour is the locale \<open>ceiled_division\<close>.
\<close>

section \<open>Saturating arithmetic\<close>

definition sat_i64 :: "int \<Rightarrow> i64" where
  "sat_i64 x = max I64_MIN (min I64_MAX x)"

definition sat_i128 :: "int \<Rightarrow> i128" where
  "sat_i128 x = max I128_MIN (min I128_MAX x)"

definition saturating_add_i64 :: "i64 \<Rightarrow> i64 \<Rightarrow> i64" where
  "saturating_add_i64 x y = sat_i64 (x + y)"

definition saturating_sub_i64 :: "i64 \<Rightarrow> i64 \<Rightarrow> i64" where
  "saturating_sub_i64 x y = sat_i64 (x - y)"

definition saturating_mul_i64 :: "i64 \<Rightarrow> i64 \<Rightarrow> i64" where
  "saturating_mul_i64 x y = sat_i64 (x * y)"

definition saturating_mul_i128 :: "i128 \<Rightarrow> i128 \<Rightarrow> i128" where
  "saturating_mul_i128 x y = sat_i128 (x * y)"

definition checked_sub_u32 :: "u32 \<Rightarrow> u32 \<Rightarrow> u32 option" where
  "checked_sub_u32 a b = (if b \<le> a then Some (a - b) else None)"

section \<open>Configuration and resources\<close>

definition TX_BASE_RESULT_SIZE :: u32 where
  "TX_BASE_RESULT_SIZE = 300"

definition TTL_ENTRY_SIZE :: u32 where
  "TTL_ENTRY_SIZE = 48"

definition INSTRUCTIONS_INCREMENT :: i64 where
  "INSTRUCTIONS_INCREMENT = 10000"

definition DATA_SIZE_1KB_INCREMENT :: i64 where
  "DATA_SIZE_1KB_INCREMENT = 1024"

definition MINIMUM_WRITE_FEE_PER_1KB :: i64 where
  "MINIMUM_WRITE_FEE_PER_1KB = 1000"

record TransactionResources =
  instructions :: u32
  read_entries :: u32
  write_entries :: u32
  read_bytes :: u32
  write_bytes :: u32
  contract_events_size_bytes :: u32
  transaction_size_bytes :: u32

record FeeConfiguration =
  fee_per_instruction_increment :: i64
  fee_per_read_entry :: i64
  fee_per_write_entry :: i64
  fee_per_read_1kb :: i64
  fee_per_write_1kb :: i64
  fee_per_historical_1kb :: i64
  fee_per_contract_event_1kb :: i64
  fee_per_transaction_size_1kb :: i64

record WriteFeeConfiguration =
  bucket_list_target_size_bytes :: i64
  write_fee_1kb_bucket_list_low :: i64
  write_fee_1kb_bucket_list_high :: i64
  bucket_list_write_fee_growth_factor :: u32

record LedgerEntryRentChange =
  is_persistent :: bool
  old_size_bytes :: u32
  new_size_bytes :: u32
  old_live_until_ledger :: u32
  new_live_until_ledger :: u32

record RentFeeConfiguration =
  rent_fee_per_write_1kb :: i64
  rent_fee_per_write_entry :: i64
  persistent_rent_rate_denominator :: i64
  temporary_rent_rate_denominator :: i64

section \<open>The resource fee of a transaction\<close>

definition compute_fee_per_increment :: "(int \<Rightarrow> int \<Rightarrow> int) \<Rightarrow> u32 \<Rightarrow> i64 \<Rightarrow> i64 \<Rightarrow> i64" where
  "compute_fee_per_increment div_ceil resource_value fee_rate increment =
     div_ceil (saturating_mul_i64 (int resource_value) fee_rate) (max increment 1)"

definition compute_transaction_resource_fee ::
  "(int \<Rightarrow> int \<Rightarrow> int) \<Rightarrow> TransactionResources \<Rightarrow> FeeConfiguration \<Rightarrow> i64 \<times> i64" where
  "compute_transaction_resource_fee div_ceil tx cfg =
     (let compute_fee = compute_fee_per_increment div_ceil (instructions tx)
            (fee_per_instruction_increment cfg) INSTRUCTIONS_INCREMENT;
          ledger_read_entry_fee = saturating_mul_i64 (fee_per_read_entry cfg)
            (int (saturating_add_u32 (read_entries tx) (write_entries tx)));
          ledger_write_entry_fee = saturating_mul_i64 (fee_per_write_entry cfg) (int (write_entries tx));
          ledger_read_bytes_fee = compute_fee_per_increment div_ceil (read_bytes tx)
            (fee_per_read_1kb cfg) DATA_SIZE_1KB_INCREMENT;
          ledger_write_bytes_fee = compute_fee_per_increment div_ceil (write_bytes tx)
            (fee_per_write_1kb cfg) DATA_SIZE_1KB_INCREMENT;
          historical_fee = compute_fee_per_increment div_ceil
            (saturating_add_u32 (transaction_size_bytes tx) TX_BASE_RESULT_SIZE)
            (fee_per_historical_1kb cfg) DATA_SIZE_1KB_INCREMENT;
          events_fee = compute_fee_per_increment div_ceil (contract_events_size_bytes tx)
            (fee_per_contract_event_1kb cfg) DATA_SIZE_1KB_INCREMENT;
          bandwidth_fee = compute_fee_per_increment div_ceil (transaction_size_bytes tx)
            (fee_per_transaction_size_1kb cfg) DATA_SIZE_1KB_INCREMENT;
          refundable_fee = events_fee;
          non_refundable_fee =
            saturating_add_i64 (saturating_add_i64 (saturating_add_i64 (saturating_add_i64
              (saturating_add_i64 (saturating_add_i64 compute_fee ledger_read_entry_fee)
                ledger_write_entry_fee) ledger_read_bytes_fee) ledger_write_bytes_fee)
              historical_fee) bandwidth_fee
      in (non_refundable_fee, refundable_fee))"

section \<open>The write fee\<close>

definition clamp_fee_i64 :: "i64 \<Rightarrow> i64" where
  "clamp_fee_i64 x = (if x < 0 then I64_MAX else x)"

definition clamp_fee_i128 :: "i128 \<Rightarrow> i64" where
  "clamp_fee_i128 x = (if x < 0 then I64_MAX else (case checked_i64 x of None \<Rightarrow> I64_MAX | Some y \<Rightarrow> y))"

definition compute_write_fee_per_1kb :: "(int \<Rightarrow> int \<Rightarrow> int) \<Rightarrow> i64 \<Rightarrow> WriteFeeConfiguration \<Rightarrow> i64" where
  "compute_write_fee_per_1kb div_ceil bucket_list_size_bytes cfg =
     (let fee_rate_multiplier = clamp_fee_i64 (saturating_sub_i64
            (write_fee_1kb_bucket_list_high cfg) (write_fee_1kb_bucket_list_low cfg));
          write_fee_per_1kb =
            (if bucket_list_size_bytes < bucket_list_target_size_bytes cfg
             then saturating_add_i64
               (clamp_fee_i128 (div_ceil
                 (saturating_mul_i128 fee_rate_multiplier bucket_list_size_bytes)
                 (max (bucket_list_target_size_bytes cfg) 1)))
               (write_fee_1kb_bucket_list_low cfg)
             else saturating_add_i64 (write_fee_1kb_bucket_list_high cfg)
               (clamp_fee_i128 (div_ceil
                 (saturating_mul_i128
                   (saturating_mul_i128 fee_rate_multiplier
                     (saturating_sub_i64 bucket_list_size_bytes (bucket_list_target_size_bytes cfg)))
                   (int (bucket_list_write_fee_growth_factor cfg)))
                 (max (bucket_list_target_size_bytes cfg) 1))))
      in max write_fee_per_1kb MINIMUM_WRITE_FEE_PER_1KB)"

section \<open>Rent\<close>

definition exclusive_ledger_diff :: "u32 \<Rightarrow> u32 \<Rightarrow> u32 option" where
  "exclusive_ledger_diff lo hi = checked_sub_u32 hi lo"

definition inclusive_ledger_diff :: "u32 \<Rightarrow> u32 \<Rightarrow> u32 option" where
  "inclusive_ledger_diff lo hi = map_option (\<lambda>diff. saturating_add_u32 diff 1) (exclusive_ledger_diff lo hi)"

definition entry_is_new :: "LedgerEntryRentChange \<Rightarrow> bool" where
  "entry_is_new e \<longleftrightarrow> old_size_bytes e = 0 \<and> old_live_until_ledger e = 0"

definition extension_ledgers :: "LedgerEntryRentChange \<Rightarrow> u32 \<Rightarrow> u32 option" where
  "extension_ledgers e current_ledger =
     (let ledger_before_extension =
        (if entry_is_new e then saturating_sub_u32 current_ledger 1 else old_live_until_ledger e)
      in exclusive_ledger_diff ledger_before_extension (new_live_until_ledger e))"

definition prepaid_ledgers :: "LedgerEntryRentChange \<Rightarrow> u32 \<Rightarrow> u32 option" where
  "prepaid_ledgers e current_ledger =
     (if entry_is_new e then None else inclusive_ledger_diff current_ledger (old_live_until_ledger e))"

definition size_increase :: "LedgerEntryRentChange \<Rightarrow> u32 option" where
  "size_increase e = checked_sub_u32 (new_size_bytes e) (old_size_bytes e)"

definition rent_fee_for_size_and_ledgers ::
  "(int \<Rightarrow> int \<Rightarrow> int) \<Rightarrow> bool \<Rightarrow> u32 \<Rightarrow> u32 \<Rightarrow> RentFeeConfiguration \<Rightarrow> i64" where
  "rent_fee_for_size_and_ledgers div_ceil persistent entry_size rent_ledgers cfg =
     (let num = saturating_mul_i64
            (saturating_mul_i64 (int entry_size) (rent_fee_per_write_1kb cfg)) (int rent_ledgers);
          storage_coef = (if persistent then persistent_rent_rate_denominator cfg
            else temporary_rent_rate_denominator cfg);
          denom = saturating_mul_i64 DATA_SIZE_1KB_INCREMENT storage_coef
      in div_ceil num (max denom 1))"

definition rent_fee_per_entry_change ::
  "(int \<Rightarrow> int \<Rightarrow> int) \<Rightarrow> LedgerEntryRentChange \<Rightarrow> RentFeeConfiguration \<Rightarrow> u32 \<Rightarrow> i64" where
  "rent_fee_per_entry_change div_ceil e cfg current_ledger =
     (let fee = (case extension_ledgers e current_ledger of
            None \<Rightarrow> 0
          | Some rent_ledgers \<Rightarrow> saturating_add_i64 0
              (rent_fee_for_size_and_ledgers div_ceil (is_persistent e) (new_size_bytes e) rent_ledgers cfg))
      in (case (prepaid_ledgers e current_ledger, size_increase e) of
            (Some rent_ledgers, Some entry_size) \<Rightarrow> saturating_add_i64 fee
              (rent_fee_for_size_and_ledgers div_ceil (is_persistent e) entry_size rent_ledgers cfg)
          | _ \<Rightarrow> fee))"

text \<open>The loop of \<open>compute_rent_fee\<close>, with its three mutable variables.\<close>

fun rent_loop ::
  "(int \<Rightarrow> int \<Rightarrow> int) \<Rightarrow> RentFeeConfiguration \<Rightarrow> u32 \<Rightarrow> LedgerEntryRentChange list \<Rightarrow>
   i64 \<times> i64 \<times> u32 \<Rightarrow> i64 \<times> i64 \<times> u32" where
  "rent_loop div_ceil cfg current_ledger [] acc = acc"
| "rent_loop div_ceil cfg current_ledger (e # es) (fee, extended_entries, key_size) =
     (let fee' = saturating_add_i64 fee (rent_fee_per_entry_change div_ceil e cfg current_ledger)
      in if old_live_until_ledger e < new_live_until_ledger e
         then rent_loop div_ceil cfg current_ledger es
           (fee', saturating_add_i64 extended_entries 1, saturating_add_u32 key_size TTL_ENTRY_SIZE)
         else rent_loop div_ceil cfg current_ledger es (fee', extended_entries, key_size))"

definition compute_rent_fee ::
  "(int \<Rightarrow> int \<Rightarrow> int) \<Rightarrow> LedgerEntryRentChange list \<Rightarrow> RentFeeConfiguration \<Rightarrow> u32 \<Rightarrow> i64" where
  "compute_rent_fee div_ceil changed_entries cfg current_ledger_seq =
     (case rent_loop div_ceil cfg current_ledger_seq changed_entries (0, 0, 0) of
        (fee, extended_entries, key_size) \<Rightarrow>
          saturating_add_i64
            (saturating_add_i64 fee (saturating_mul_i64 (rent_fee_per_write_entry cfg) extended_entries))
            (compute_fee_per_increment div_ceil key_size (rent_fee_per_write_1kb cfg) DATA_SIZE_1KB_INCREMENT))"

section \<open>Laws of saturation\<close>

lemmas i64_bounds = I64_MIN_def I64_MAX_def
lemmas i128_bounds = I128_MIN_def I128_MAX_def

lemma sat_i64_range: "I64_MIN \<le> sat_i64 x" "sat_i64 x \<le> I64_MAX"
  by (simp_all add: sat_i64_def i64_bounds)

lemma sat_i64_mono: "x \<le> y \<Longrightarrow> sat_i64 x \<le> sat_i64 y"
  by (auto simp: sat_i64_def)

lemma sat_i64_id: "fits_i64 x \<Longrightarrow> sat_i64 x = x"
  by (simp add: sat_i64_def fits_i64_def)

lemma sat_i64_nonneg: "0 \<le> x \<Longrightarrow> 0 \<le> sat_i64 x"
  by (simp add: sat_i64_def i64_bounds)

lemma sat_i128_mono: "x \<le> y \<Longrightarrow> sat_i128 x \<le> sat_i128 y"
  by (auto simp: sat_i128_def)

lemma sat_i128_nonneg: "0 \<le> x \<Longrightarrow> 0 \<le> sat_i128 x"
  by (simp add: sat_i128_def i128_bounds)

lemma sat_i128_le: "0 \<le> x \<Longrightarrow> sat_i128 x \<le> x"
  by (simp add: sat_i128_def i128_bounds)

lemma saturating_add_i64_mono:
  "x \<le> x' \<Longrightarrow> y \<le> y' \<Longrightarrow> saturating_add_i64 x y \<le> saturating_add_i64 x' y'"
  unfolding saturating_add_i64_def by (rule sat_i64_mono) simp

lemma saturating_add_i64_nonneg: "0 \<le> x \<Longrightarrow> 0 \<le> y \<Longrightarrow> 0 \<le> saturating_add_i64 x y"
  unfolding saturating_add_i64_def by (rule sat_i64_nonneg) simp

lemma sat_i64_add: "0 \<le> x \<Longrightarrow> 0 \<le> y \<Longrightarrow> sat_i64 (x + y) \<le> sat_i64 x + sat_i64 y"
  by (auto simp: sat_i64_def i64_bounds)

lemma le_saturating_add: "0 \<le> x \<Longrightarrow> x \<le> I64_MAX \<Longrightarrow> 0 \<le> y \<Longrightarrow> x \<le> saturating_add_i64 x y"
  using sat_i64_mono [of x "x + y"] by (simp add: saturating_add_i64_def sat_i64_id fits_i64_def i64_bounds)

lemma saturating_mul_i64_mono:
  "0 \<le> x \<Longrightarrow> 0 \<le> y \<Longrightarrow> x \<le> x' \<Longrightarrow> y \<le> y' \<Longrightarrow> saturating_mul_i64 x y \<le> saturating_mul_i64 x' y'"
  unfolding saturating_mul_i64_def by (rule sat_i64_mono) (rule mult_mono, auto)

lemma saturating_mul_i64_nonneg: "0 \<le> x \<Longrightarrow> 0 \<le> y \<Longrightarrow> 0 \<le> saturating_mul_i64 x y"
  unfolding saturating_mul_i64_def by (rule sat_i64_nonneg) simp

lemma saturating_add_u32_mono:
  "a \<le> a' \<Longrightarrow> b \<le> b' \<Longrightarrow> saturating_add_u32 a b \<le> saturating_add_u32 a' b'"
  by (auto simp: saturating_add_u32_def)

lemma clamp_fee_i128_mono: "0 \<le> x \<Longrightarrow> x \<le> y \<Longrightarrow> clamp_fee_i128 x \<le> clamp_fee_i128 y"
  by (auto simp: clamp_fee_i128_def checked_i64_def fits_i64_def i64_bounds)

lemma clamp_fee_i128_bounds: "0 \<le> x \<Longrightarrow> 0 \<le> clamp_fee_i128 x \<and> clamp_fee_i128 x \<le> x"
  by (auto simp: clamp_fee_i128_def checked_i64_def fits_i64_def i64_bounds)

section \<open>Ceiled division and its consequences\<close>

text \<open>What \<open>num_integer::div_ceil\<close> documents: the quotient rounded towards positive infinity.\<close>

locale ceiled_division =
  fixes div_ceil :: "int \<Rightarrow> int \<Rightarrow> int"
  assumes ceiled: "0 < y \<Longrightarrow> (div_ceil x y - 1) * y < x \<and> x \<le> div_ceil x y * y"
begin

lemma ceil_le_iff: "0 < y \<Longrightarrow> div_ceil x y \<le> q \<longleftrightarrow> x \<le> q * y"
proof
  assume y: "0 < y"
  { assume "div_ceil x y \<le> q"
    then have "div_ceil x y * y \<le> q * y"
      using y by (intro mult_right_mono) auto
    then show "x \<le> q * y"
      using ceiled [OF y, of x] by linarith }
  { assume "x \<le> q * y"
    then have "(div_ceil x y - 1) * y < q * y"
      using ceiled [OF y, of x] by linarith
    then have "div_ceil x y - 1 < q"
      using y by (simp add: mult_less_cancel_right)
    then show "div_ceil x y \<le> q"
      by simp }
qed

lemma le_ceil: "0 < y \<Longrightarrow> x \<le> div_ceil x y * y"
  using ceiled by blast

lemma ceil_mono: "0 < y \<Longrightarrow> x \<le> x' \<Longrightarrow> div_ceil x y \<le> div_ceil x' y"
  using le_ceil [of y x'] by (simp add: ceil_le_iff)

lemma ceil_nonneg: "0 < y \<Longrightarrow> 0 \<le> x \<Longrightarrow> 0 \<le> div_ceil x y"
proof -
  assume y: "0 < y" and "0 \<le> x"
  then have "0 \<le> div_ceil x y * y"
    using le_ceil [of y x] by linarith
  then show ?thesis
    using y by (simp add: zero_le_mult_iff)
qed

lemma ceil_le_self: "0 < y \<Longrightarrow> 0 \<le> x \<Longrightarrow> div_ceil x y \<le> x"
  by (simp add: ceil_le_iff) (metis mult_right_mono mult.commute mult_1 int_one_le_iff_zero_less)

lemma ceil_add: "0 < y \<Longrightarrow> div_ceil (a + b) y \<le> div_ceil a y + div_ceil b y"
  using le_ceil [of y a] le_ceil [of y b] by (simp add: ceil_le_iff distrib_right)

lemma ceil_zero: "0 < y \<Longrightarrow> div_ceil 0 y = 0"
  using ceil_nonneg [of y 0] ceil_le_self [of y 0] by simp

lemma per_increment_mono:
  assumes "n \<le> n'" "0 \<le> r" "r \<le> r'"
  shows "compute_fee_per_increment div_ceil n r k \<le> compute_fee_per_increment div_ceil n' r' k"
  unfolding compute_fee_per_increment_def
  by (rule ceil_mono, simp, rule saturating_mul_i64_mono) (use assms in auto)

lemma per_increment_bounds:
  assumes "0 \<le> r"
  shows "0 \<le> compute_fee_per_increment div_ceil n r k \<and> compute_fee_per_increment div_ceil n r k \<le> I64_MAX"
proof -
  have "0 \<le> saturating_mul_i64 (int n) r"
    using assms by (simp add: saturating_mul_i64_nonneg)
  moreover have "saturating_mul_i64 (int n) r \<le> I64_MAX"
    by (simp add: saturating_mul_i64_def sat_i64_range)
  ultimately show ?thesis
    unfolding compute_fee_per_increment_def
    using ceil_nonneg [of "max k 1" "saturating_mul_i64 (int n) r"]
      ceil_le_self [of "max k 1" "saturating_mul_i64 (int n) r"] by (simp add: less_max_iff_disj)
qed

lemma rent_nonneg:
  "0 \<le> rent_fee_per_write_1kb cfg \<Longrightarrow> 0 \<le> rent_fee_for_size_and_ledgers div_ceil p s n cfg"
  by (simp add: rent_fee_for_size_and_ledgers_def Let_def ceil_nonneg saturating_mul_i64_nonneg)

lemma rent_mono:
  "0 \<le> rent_fee_per_write_1kb cfg \<Longrightarrow> s \<le> s' \<Longrightarrow> n \<le> n' \<Longrightarrow>
     rent_fee_for_size_and_ledgers div_ceil p s n cfg \<le> rent_fee_for_size_and_ledgers div_ceil p s' n' cfg"
  unfolding rent_fee_for_size_and_ledgers_def Let_def
  by (intro ceil_mono saturating_mul_i64_mono saturating_mul_i64_nonneg) auto

lemma rent_le_max:
  "0 \<le> rent_fee_per_write_1kb cfg \<Longrightarrow> rent_fee_for_size_and_ledgers div_ceil p s n cfg \<le> I64_MAX"
  unfolding rent_fee_for_size_and_ledgers_def Let_def
  by (rule order_trans [OF ceil_le_self]) (auto simp: saturating_mul_i64_nonneg, simp add: saturating_mul_i64_def sat_i64_range)

lemma rent_zero: "rent_fee_for_size_and_ledgers div_ceil p 0 n cfg = 0"
  by (simp add: rent_fee_for_size_and_ledgers_def Let_def ceil_zero saturating_mul_i64_def sat_i64_def i64_bounds)

lemma rent_split:
  assumes "0 \<le> rent_fee_per_write_1kb cfg"
  shows "rent_fee_for_size_and_ledgers div_ceil p s (n + m) cfg
    \<le> rent_fee_for_size_and_ledgers div_ceil p s n cfg + rent_fee_for_size_and_ledgers div_ceil p s m cfg"
proof -
  define q where "q = saturating_mul_i64 (int s) (rent_fee_per_write_1kb cfg)"
  have "0 \<le> q"
    using assms by (simp add: q_def saturating_mul_i64_nonneg)
  then have "0 \<le> q * int n" "0 \<le> q * int m"
    by simp_all
  then have "saturating_mul_i64 q (int (n + m)) \<le> saturating_mul_i64 q (int n) + saturating_mul_i64 q (int m)"
    by (simp add: saturating_mul_i64_def distrib_left sat_i64_add)
  then show ?thesis
    unfolding rent_fee_for_size_and_ledgers_def Let_def q_def [symmetric]
    by (rule order_trans [OF ceil_mono ceil_add, rotated]) auto
qed

lemma rent_entry_nonneg:
  "0 \<le> rent_fee_per_write_1kb cfg \<Longrightarrow> 0 \<le> rent_fee_per_entry_change div_ceil e cfg now"
  by (auto simp: rent_fee_per_entry_change_def Let_def saturating_add_i64_nonneg rent_nonneg split: option.splits)

end

definition ceil_div :: "int \<Rightarrow> int \<Rightarrow> int" where
  "ceil_div x y = - ((- x) div y)"

interpretation cd: ceiled_division ceil_div
proof
  fix x y :: int
  assume y: "0 < y"
  define q where "q = (- x) div y"
  have q: "- x = y * q + (- x) mod y"
    by (simp add: q_def)
  have r: "0 \<le> (- x) mod y" "(- x) mod y < y"
    using y by auto
  have "(- q - 1) * y < x \<and> x \<le> (- q) * y"
    using q r by (simp add: algebra_simps)
  then show "(ceil_div x y - 1) * y < x \<and> x \<le> ceil_div x y * y"
    by (simp add: ceil_div_def q_def)
qed

section \<open>Properties\<close>

definition sane_fees :: "FeeConfiguration \<Rightarrow> bool" where
  "sane_fees cfg \<longleftrightarrow> (\<forall>r\<in>{fee_per_instruction_increment cfg, fee_per_read_entry cfg, fee_per_write_entry cfg,
      fee_per_read_1kb cfg, fee_per_write_1kb cfg, fee_per_historical_1kb cfg, fee_per_contract_event_1kb cfg,
      fee_per_transaction_size_1kb cfg}. 0 \<le> r)"

definition resources_le :: "TransactionResources \<Rightarrow> TransactionResources \<Rightarrow> bool" where
  "resources_le a b \<longleftrightarrow> instructions a \<le> instructions b \<and> read_entries a \<le> read_entries b
     \<and> write_entries a \<le> write_entries b \<and> read_bytes a \<le> read_bytes b \<and> write_bytes a \<le> write_bytes b
     \<and> contract_events_size_bytes a \<le> contract_events_size_bytes b
     \<and> transaction_size_bytes a \<le> transaction_size_bytes b"

text \<open>C38: with non-negative fee rates the two parts of the resource fee are \<open>i64\<close> values that are
  not negative, whatever resources a transaction declares, and declaring more of any resource
  never lowers either part.\<close>

theorem resource_fee_bounds:
  assumes "ceiled_division div_ceil" and "sane_fees cfg" and "resources_le a b"
  shows "0 \<le> fst (compute_transaction_resource_fee div_ceil a cfg)
    \<and> fst (compute_transaction_resource_fee div_ceil a cfg) \<le> fst (compute_transaction_resource_fee div_ceil b cfg)
    \<and> fst (compute_transaction_resource_fee div_ceil b cfg) \<le> I64_MAX
    \<and> 0 \<le> snd (compute_transaction_resource_fee div_ceil a cfg)
    \<and> snd (compute_transaction_resource_fee div_ceil a cfg) \<le> snd (compute_transaction_resource_fee div_ceil b cfg)
    \<and> snd (compute_transaction_resource_fee div_ceil b cfg) \<le> I64_MAX"
proof (intro conjI)
  note bounds = ceiled_division.per_increment_bounds [OF assms(1)]
    and mono = ceiled_division.per_increment_mono [OF assms(1)]
  let ?fee = "\<lambda>x. compute_transaction_resource_fee div_ceil x cfg"
  show "0 \<le> fst (?fee a)"
    using assms(2) unfolding compute_transaction_resource_fee_def Let_def fst_conv sane_fees_def
    by (intro saturating_add_i64_nonneg saturating_mul_i64_nonneg conjunct1 [OF bounds]) auto
  show "fst (?fee a) \<le> fst (?fee b)"
    using assms(2,3) unfolding compute_transaction_resource_fee_def Let_def fst_conv sane_fees_def resources_le_def
    by (intro saturating_add_i64_mono saturating_mul_i64_mono mono)
      (auto simp: saturating_add_u32_mono)
  show "fst (?fee b) \<le> I64_MAX"
    by (simp add: compute_transaction_resource_fee_def Let_def saturating_add_i64_def sat_i64_range)
  show "0 \<le> snd (?fee a)" "snd (?fee b) \<le> I64_MAX"
    using assms(2) bounds by (simp_all add: compute_transaction_resource_fee_def Let_def sane_fees_def)
  show "snd (?fee a) \<le> snd (?fee b)"
    using assms(2,3) mono by (simp add: compute_transaction_resource_fee_def Let_def sane_fees_def resources_le_def)
qed

theorem resource_fee_bounds_witness:
  "fst (compute_transaction_resource_fee ceil_div \<lparr>instructions = 10001, read_entries = 1, write_entries = 1,
      read_bytes = 100, write_bytes = 0, contract_events_size_bytes = 0, transaction_size_bytes = 724\<rparr>
      \<lparr>fee_per_instruction_increment = 25, fee_per_read_entry = 6, fee_per_write_entry = 10, fee_per_read_1kb = 2,
       fee_per_write_1kb = 4, fee_per_historical_1kb = 16, fee_per_contract_event_1kb = 10,
       fee_per_transaction_size_1kb = 8\<rparr>) \<le> I64_MAX"
  using resource_fee_bounds [OF cd.ceiled_division_axioms,
      of "\<lparr>fee_per_instruction_increment = 25, fee_per_read_entry = 6, fee_per_write_entry = 10, fee_per_read_1kb = 2,
          fee_per_write_1kb = 4, fee_per_historical_1kb = 16, fee_per_contract_event_1kb = 10,
          fee_per_transaction_size_1kb = 8\<rparr>"
        "\<lparr>instructions = 10001, read_entries = 1, write_entries = 1, read_bytes = 100, write_bytes = 0,
          contract_events_size_bytes = 0, transaction_size_bytes = 724\<rparr>"
        "\<lparr>instructions = 10001, read_entries = 1, write_entries = 1, read_bytes = 100, write_bytes = 0,
          contract_events_size_bytes = 0, transaction_size_bytes = 724\<rparr>"]
  by (simp add: sane_fees_def resources_le_def)

lemma write_fee_below:
  assumes "ceiled_division div_ceil" and "0 \<le> l" "l \<le> h" "0 \<le> s" "s \<le> t" "0 < t"
  shows "0 \<le> clamp_fee_i128 (div_ceil (saturating_mul_i128 (h - l) s) t)"
    and "clamp_fee_i128 (div_ceil (saturating_mul_i128 (h - l) s) t) \<le> h - l"
proof -
  have "0 \<le> saturating_mul_i128 (h - l) s" "saturating_mul_i128 (h - l) s \<le> (h - l) * s"
    using assms by (simp_all add: saturating_mul_i128_def sat_i128_nonneg sat_i128_le)
  moreover have "(h - l) * s \<le> (h - l) * t"
    using assms by (intro mult_left_mono) auto
  ultimately have "0 \<le> div_ceil (saturating_mul_i128 (h - l) s) t" "div_ceil (saturating_mul_i128 (h - l) s) t \<le> h - l"
    using assms by (auto simp: ceiled_division.ceil_nonneg ceiled_division.ceil_le_iff)
  then show "0 \<le> clamp_fee_i128 (div_ceil (saturating_mul_i128 (h - l) s) t)"
      "clamp_fee_i128 (div_ceil (saturating_mul_i128 (h - l) s) t) \<le> h - l"
    using clamp_fee_i128_bounds order_trans by blast+
qed

lemma write_fee_mono_i128:
  assumes "ceiled_division div_ceil" and "0 \<le> x" "x \<le> y" "0 < t"
  shows "clamp_fee_i128 (div_ceil x t) \<le> clamp_fee_i128 (div_ceil y t)"
  by (rule clamp_fee_i128_mono) (use assms in \<open>auto intro: ceiled_division.ceil_nonneg ceiled_division.ceil_mono\<close>)

lemma saturating_mul_i128_mono:
  "0 \<le> x \<Longrightarrow> 0 \<le> y \<Longrightarrow> x \<le> x' \<Longrightarrow> y \<le> y' \<Longrightarrow> saturating_mul_i128 x y \<le> saturating_mul_i128 x' y'"
  unfolding saturating_mul_i128_def by (rule sat_i128_mono) (rule mult_mono, auto)

lemma saturating_mul_i128_nonneg: "0 \<le> x \<Longrightarrow> 0 \<le> y \<Longrightarrow> 0 \<le> saturating_mul_i128 x y"
  by (simp add: saturating_mul_i128_def sat_i128_nonneg)

lemma saturating_mul_i128_zero: "saturating_mul_i128 x 0 = 0" "saturating_mul_i128 0 x = 0"
  by (simp_all add: saturating_mul_i128_def sat_i128_def i128_bounds)

lemma clamp_fee_i128_zero: "clamp_fee_i128 0 = 0"
  by (simp add: clamp_fee_i128_def checked_i64_def fits_i64_def i64_bounds)

lemma sub_in_range: "0 \<le> y \<Longrightarrow> y \<le> x \<Longrightarrow> x \<le> I64_MAX \<Longrightarrow> saturating_sub_i64 x y = x - y"
  by (simp add: saturating_sub_i64_def sat_i64_id fits_i64_def i64_bounds)

text \<open>The write fee.  For a configuration with \<open>0 \<le> low \<le> high\<close> and a positive target size the
  fee per kilobyte lies between the minimum fee and \<open>i64::MAX\<close>, never falls while the bucket
  list grows, across the target size too, and is at most \<open>high\<close> (or the minimum) as long as the
  list has not outgrown the target.\<close>

lemma write_fee_monotone:
  assumes "ceiled_division div_ceil"
    and "0 \<le> write_fee_1kb_bucket_list_low cfg"
    and "write_fee_1kb_bucket_list_low cfg \<le> write_fee_1kb_bucket_list_high cfg"
    and "write_fee_1kb_bucket_list_high cfg \<le> I64_MAX" and "0 < bucket_list_target_size_bytes cfg"
    and "0 \<le> s" and "s \<le> s'" and "s' \<le> I64_MAX"
  shows "MINIMUM_WRITE_FEE_PER_1KB \<le> compute_write_fee_per_1kb div_ceil s cfg
    \<and> compute_write_fee_per_1kb div_ceil s cfg \<le> compute_write_fee_per_1kb div_ceil s' cfg
    \<and> compute_write_fee_per_1kb div_ceil s' cfg \<le> I64_MAX
    \<and> (s \<le> bucket_list_target_size_bytes cfg \<longrightarrow> compute_write_fee_per_1kb div_ceil s cfg
         \<le> max (write_fee_1kb_bucket_list_high cfg) MINIMUM_WRITE_FEE_PER_1KB)"
proof -
  define l h t g where "l = write_fee_1kb_bucket_list_low cfg" and "h = write_fee_1kb_bucket_list_high cfg"
    and "t = bucket_list_target_size_bytes cfg" and "g = int (bucket_list_write_fee_growth_factor cfg)"
  define lo where "lo = (\<lambda>s. saturating_add_i64 (clamp_fee_i128 (div_ceil (saturating_mul_i128 (h - l) s) t)) l)"
  define hi where "hi = (\<lambda>s. saturating_add_i64 h (clamp_fee_i128 (div_ceil
      (saturating_mul_i128 (saturating_mul_i128 (h - l) (s - t)) g) t)))"
  have r: "0 \<le> l" "l \<le> h" "h \<le> I64_MAX" "0 < t" "0 \<le> g"
    using assms by (simp_all add: l_def h_def t_def g_def)
  have fee: "compute_write_fee_per_1kb div_ceil x cfg = max (if x < t then lo x else hi x) MINIMUM_WRITE_FEE_PER_1KB"
    if "x \<le> I64_MAX" for x
    using r that
    by (auto simp: compute_write_fee_per_1kb_def Let_def lo_def hi_def l_def h_def t_def g_def sub_in_range clamp_fee_i64_def)
  have lo_h: "lo x \<le> h" if "0 \<le> x" "x \<le> t" for x
  proof -
    have "clamp_fee_i128 (div_ceil (saturating_mul_i128 (h - l) x) t) + l \<le> h"
      using write_fee_below(2) [OF assms(1) r(1,2) that r(4)] by simp
    then show ?thesis
      using r sat_i64_mono sat_i64_id [of h] by (fastforce simp: lo_def saturating_add_i64_def fits_i64_def i64_bounds)
  qed
  have arg: "0 \<le> saturating_mul_i128 (saturating_mul_i128 (h - l) (x - t)) g" if "t \<le> x" for x
    using r that by (simp add: saturating_mul_i128_nonneg)
  have h_hi: "h \<le> hi x" if "t \<le> x" for x
    unfolding hi_def using r clamp_fee_i128_bounds [OF ceiled_division.ceil_nonneg [OF assms(1) r(4) arg [OF that]]]
    by (intro le_saturating_add) auto
  have lo_mono: "lo x \<le> lo y" if "0 \<le> x" "x \<le> y" for x y
    unfolding lo_def using r that
    by (intro saturating_add_i64_mono write_fee_mono_i128 [OF assms(1)] saturating_mul_i128_nonneg saturating_mul_i128_mono) auto
  have hi_mono: "hi x \<le> hi y" if "t \<le> x" "x \<le> y" for x y
    unfolding hi_def using r that
    by (intro saturating_add_i64_mono write_fee_mono_i128 [OF assms(1)] arg saturating_mul_i128_nonneg saturating_mul_i128_mono) auto
  have "sat_i64 h = h"
    using r by (intro sat_i64_id) (simp add: fits_i64_def i64_bounds)
  then have hi_t: "hi t = h"
    using ceiled_division.ceil_zero [OF assms(1) r(4)]
    by (simp add: hi_def saturating_mul_i128_zero clamp_fee_i128_zero saturating_add_i64_def)
  have top: "lo x \<le> I64_MAX" "hi x \<le> I64_MAX" for x
    by (simp_all add: lo_def hi_def saturating_add_i64_def sat_i64_range)
  have main: "(if s < t then lo s else hi s) \<le> (if s' < t then lo s' else hi s')"
    using lo_mono [of s s'] hi_mono [of s s'] lo_h [of s] h_hi [of s'] assms(6,7) by auto
  have "s \<le> t \<Longrightarrow> (if s < t then lo s else hi s) \<le> h"
    using lo_h [of s] hi_t assms(6) by auto
  then show ?thesis
    using main top assms(6-8) fee [of s] fee [of s'] by (auto simp: t_def h_def MINIMUM_WRITE_FEE_PER_1KB_def i64_bounds)
qed

lemma write_fee_monotone_witness:
  "compute_write_fee_per_1kb ceil_div 500 \<lparr>bucket_list_target_size_bytes = 1000, write_fee_1kb_bucket_list_low = 1000,
      write_fee_1kb_bucket_list_high = 3000, bucket_list_write_fee_growth_factor = 5\<rparr>
   \<le> compute_write_fee_per_1kb ceil_div 2000 \<lparr>bucket_list_target_size_bytes = 1000, write_fee_1kb_bucket_list_low = 1000,
      write_fee_1kb_bucket_list_high = 3000, bucket_list_write_fee_growth_factor = 5\<rparr>"
  using write_fee_monotone [OF cd.ceiled_division_axioms, of "\<lparr>bucket_list_target_size_bytes = 1000,
      write_fee_1kb_bucket_list_low = 1000, write_fee_1kb_bucket_list_high = 3000,
      bucket_list_write_fee_growth_factor = 5\<rparr>" 500 2000]
  by (simp add: I64_MAX_def)

lemma rent_steps_add:
  assumes "r \<le> r1 + r2" "0 \<le> r1" "0 \<le> r2" "0 \<le> p"
  shows "saturating_add_i64 0 r \<le> saturating_add_i64 0 r1 + r2"
    "saturating_add_i64 (saturating_add_i64 0 r) p \<le> saturating_add_i64 (saturating_add_i64 0 r1) p + r2"
  using assms by (auto simp: saturating_add_i64_def sat_i64_def i64_bounds)

text \<open>Extending the life of a ledger entry in two steps instead of one never saves rent: the
  rent of a change up to \<open>l2\<close> is at most the rent of the change up to \<open>l1\<close> plus the rent of the
  extension from \<open>l1\<close> to \<open>l2\<close>, for new and for existing entries, whenever the second step is
  made.\<close>

lemma rent_split_never_cheaper:
  assumes "ceiled_division div_ceil" and "0 \<le> rent_fee_per_write_1kb cfg"
    and "extension_ledgers e now \<noteq> None" and "new_live_until_ledger e \<le> l2"
    and "e2 = \<lparr>is_persistent = is_persistent e, old_size_bytes = new_size_bytes e, new_size_bytes = new_size_bytes e,
      old_live_until_ledger = new_live_until_ledger e, new_live_until_ledger = l2\<rparr>"
    and "\<not> entry_is_new e2"
  shows "rent_fee_per_entry_change div_ceil (e\<lparr>new_live_until_ledger := l2\<rparr>) cfg now
    \<le> rent_fee_per_entry_change div_ceil e cfg now + rent_fee_per_entry_change div_ceil e2 cfg later"
proof -
  define R where "R = (\<lambda>n. rent_fee_for_size_and_ledgers div_ceil (is_persistent e) (new_size_bytes e) n cfg)"
  obtain b where b: "b \<le> new_live_until_ledger e" "extension_ledgers e now = Some (new_live_until_ledger e - b)"
      "extension_ledgers (e\<lparr>new_live_until_ledger := l2\<rparr>) now = Some (l2 - b)"
    using assms(3,4)
    by (auto simp: extension_ledgers_def Let_def exclusive_ledger_diff_def checked_sub_u32_def entry_is_new_def split: if_splits)
  have same: "prepaid_ledgers (e\<lparr>new_live_until_ledger := l2\<rparr>) now = prepaid_ledgers e now"
      "size_increase (e\<lparr>new_live_until_ledger := l2\<rparr>) = size_increase e"
    by (simp_all add: prepaid_ledgers_def size_increase_def entry_is_new_def)
  have nonneg: "0 \<le> R n" "R n \<le> I64_MAX" for n
    using ceiled_division.rent_nonneg [OF assms(1,2)] ceiled_division.rent_le_max [OF assms(1,2)] by (simp_all add: R_def)
  have sum: "R (l2 - b) \<le> R (new_live_until_ledger e - b) + R (l2 - new_live_until_ledger e)"
    using ceiled_division.rent_split [OF assms(1,2), of _ _ "new_live_until_ledger e - b" "l2 - new_live_until_ledger e"]
      b(1) assms(4) by (simp add: R_def)
  have second: "rent_fee_per_entry_change div_ceil e2 cfg later = R (l2 - new_live_until_ledger e)"
    using assms(4,6) nonneg [of "l2 - new_live_until_ledger e"] ceiled_division.rent_zero [OF assms(1)]
    by (auto simp: assms(5) rent_fee_per_entry_change_def extension_ledgers_def exclusive_ledger_diff_def
        checked_sub_u32_def size_increase_def R_def Let_def saturating_add_i64_def sat_i64_def i64_bounds split: option.splits)
  show ?thesis
    unfolding second unfolding rent_fee_per_entry_change_def Let_def same b(2,3) option.case R_def [symmetric]
    using rent_steps_add [OF sum nonneg(1) nonneg(1)] ceiled_division.rent_nonneg [OF assms(1,2)]
    by (auto simp: R_def split: option.splits)
qed

lemma rent_split_never_cheaper_witness:
  "rent_fee_per_entry_change ceil_div \<lparr>is_persistent = True, old_size_bytes = 0, new_size_bytes = 100,
       old_live_until_ledger = 0, new_live_until_ledger = 3000\<rparr>
     \<lparr>rent_fee_per_write_1kb = 1000, rent_fee_per_write_entry = 10, persistent_rent_rate_denominator = 100,
      temporary_rent_rate_denominator = 1000\<rparr> 1000
   \<le> rent_fee_per_entry_change ceil_div \<lparr>is_persistent = True, old_size_bytes = 0, new_size_bytes = 100,
       old_live_until_ledger = 0, new_live_until_ledger = 2000\<rparr>
     \<lparr>rent_fee_per_write_1kb = 1000, rent_fee_per_write_entry = 10, persistent_rent_rate_denominator = 100,
      temporary_rent_rate_denominator = 1000\<rparr> 1000
   + rent_fee_per_entry_change ceil_div \<lparr>is_persistent = True, old_size_bytes = 100, new_size_bytes = 100,
       old_live_until_ledger = 2000, new_live_until_ledger = 3000\<rparr>
     \<lparr>rent_fee_per_write_1kb = 1000, rent_fee_per_write_entry = 10, persistent_rent_rate_denominator = 100,
      temporary_rent_rate_denominator = 1000\<rparr> 1500"
  using rent_split_never_cheaper [OF cd.ceiled_division_axioms, of
      "\<lparr>rent_fee_per_write_1kb = 1000, rent_fee_per_write_entry = 10, persistent_rent_rate_denominator = 100,
        temporary_rent_rate_denominator = 1000\<rparr>"
      "\<lparr>is_persistent = True, old_size_bytes = 0, new_size_bytes = 100, old_live_until_ledger = 0,
        new_live_until_ledger = 2000\<rparr>" 1000 3000 _ 1500]
  by (simp add: extension_ledgers_def exclusive_ledger_diff_def checked_sub_u32_def entry_is_new_def saturating_sub_u32_def)

end
