(* ===== verification/Budget.thy ===== *)
theory Budget
  imports Host_Types "HOL-Library.Multiset" "HOL-Library.Code_Target_Nat"
begin

text \<open>
  The budget that bounds every transaction, \<open>src/soroban-env-host-patch/src/budget.rs\<close> and
  \<open>budget/\<close>: linear cost models, the two dimensions (instructions and memory), the shadow
  budget for work that must not be observed, the recursion depth, and the conversion to the
  fuel of the Wasm machine (\<open>vm/fuel_refillable.rs\<close>, \<open>budget/wasmi_helper.rs\<close>).  An array over the cost
  types is a function from them.  A failed charge leaves its trace in the budget, so an
  operation returns the budget also when it fails.  The calibration table of the interpreter's
  fuel costs and the \<open>RefCell\<close> borrow checks are left out.
\<close>

section \<open>Cost models\<close>

datatype ContractCostType =
  WasmInsnExec | MemAlloc | MemCpy | MemCmp | DispatchHostFunction | VisitObject | ValSer
  | ValDeser | ComputeSha256Hash | ComputeEd25519PubKey | VerifyEd25519Sig | VmInstantiation
  | VmCachedInstantiation | InvokeVmFunction | ComputeKeccak256Hash | DecodeEcdsaCurve256Sig
  | RecoverEcdsaSecp256k1Key | Int256AddSub | Int256Mul | Int256Div | Int256Pow | Int256Shift
  | ChaCha20DrawBytes | ParseWasmInstructions | ParseWasmFunctions | ParseWasmGlobals
  | ParseWasmTableEntries | ParseWasmTypes | ParseWasmDataSegments | ParseWasmElemSegments
  | ParseWasmImports | ParseWasmExports | ParseWasmDataSegmentBytes | InstantiateWasmInstructions
  | InstantiateWasmFunctions | InstantiateWasmGlobals | InstantiateWasmTableEntries | InstantiateWasmTypes
  | InstantiateWasmDataSegments | InstantiateWasmElemSegments | InstantiateWasmImports
  | InstantiateWasmExports | InstantiateWasmDataSegmentBytes | Sec1DecodePointUncompressed
  | VerifyEcdsaSecp256r1Sig

definition saturating_add_u64 :: "u64 \<Rightarrow> u64 \<Rightarrow> u64" where
  "saturating_add_u64 a b = min (a + b) U64_MAX"

definition saturating_mul_u64 :: "u64 \<Rightarrow> u64 \<Rightarrow> u64" where
  "saturating_mul_u64 a b = min (a * b) U64_MAX"

definition COST_MODEL_LIN_TERM_SCALE_BITS :: nat where
  "COST_MODEL_LIN_TERM_SCALE_BITS = 7"

datatype ScaledU64 = ScaledU64 (scaled: u64)

text \<open>A shift to the left drops the bits above 64.\<close>

definition from_unscaled_u64 :: "u64 \<Rightarrow> ScaledU64" where
  "from_unscaled_u64 u = ScaledU64 ((u * 2 ^ COST_MODEL_LIN_TERM_SCALE_BITS) mod (U64_MAX + 1))"

definition unscale :: "ScaledU64 \<Rightarrow> u64" where
  "unscale s = scaled s div 2 ^ COST_MODEL_LIN_TERM_SCALE_BITS"

definition is_zero :: "ScaledU64 \<Rightarrow> bool" where
  "is_zero s \<longleftrightarrow> scaled s = 0"

definition scaled_mul :: "ScaledU64 \<Rightarrow> u64 \<Rightarrow> ScaledU64" where
  "scaled_mul s rhs = ScaledU64 (saturating_mul_u64 (scaled s) rhs)"

definition safe_div :: "ScaledU64 \<Rightarrow> u64 \<Rightarrow> ScaledU64" where
  "safe_div s rhs = ScaledU64 (if rhs = 0 then 0 else scaled s div rhs)"

record MeteredCostComponent =
  const_term :: u64
  lin_term :: ScaledU64

text \<open>An entry of the network configuration.\<close>

record ContractCostParamEntry =
  entry_const_term :: i64
  entry_linear_term :: i64

definition component_try_from :: "ContractCostParamEntry \<Rightarrow> host_error + MeteredCostComponent" where
  "component_try_from entry =
     (if entry_const_term entry < 0 \<or> entry_linear_term entry < 0 then Inl (HostErr SCE_Context InvalidInput)
      else Inr \<lparr>const_term = nat (entry_const_term entry), lin_term = ScaledU64 (nat (entry_linear_term entry))\<rparr>)"

definition evaluate :: "MeteredCostComponent \<Rightarrow> u64 option \<Rightarrow> host_error + u64" where
  "evaluate cm input =
     (case input of
        Some i \<Rightarrow>
          if is_zero (lin_term cm) then Inr (const_term cm)
          else Inr (saturating_add_u64 (const_term cm) (unscale (scaled_mul (lin_term cm) i)))
      | None \<Rightarrow> Inr (const_term cm))"

definition reset_component :: "MeteredCostComponent \<Rightarrow> MeteredCostComponent" where
  "reset_component cm = cm\<lparr>const_term := 0, lin_term := ScaledU64 0\<rparr>"

definition default_component :: MeteredCostComponent where
  "default_component = \<lparr>const_term = 0, lin_term = ScaledU64 0\<rparr>"

section \<open>One dimension\<close>

record BudgetDimension =
  cost_models :: "ContractCostType \<Rightarrow> MeteredCostComponent"
  limit :: u64
  total_count :: u64
  shadow_limit :: u64
  shadow_total_count :: u64

definition default_dimension :: BudgetDimension where
  "default_dimension = \<lparr>cost_models = (\<lambda>_. default_component), limit = 0, total_count = 0,
     shadow_limit = 0, shadow_total_count = 0\<rparr>"

text \<open>The loop over the configured entries; \<open>variants\<close> are the cost types the array still has room for.\<close>

fun fill_models ::
  "ContractCostType list \<Rightarrow> ContractCostParamEntry list \<Rightarrow> (ContractCostType \<Rightarrow> MeteredCostComponent)
   \<Rightarrow> host_error + (ContractCostType \<Rightarrow> MeteredCostComponent)" where
  "fill_models variants [] ms = Inr ms"
| "fill_models [] (cp # cps) ms = Inl (HostErr SCE_Budget InternalError)"
| "fill_models (ty # variants) (cp # cps) ms =
     (case component_try_from cp of
        Inl e \<Rightarrow> Inl e
      | Inr cm \<Rightarrow> fill_models variants cps (ms(ty := cm)))"

definition try_from_config ::
  "ContractCostType list \<Rightarrow> ContractCostParamEntry list \<Rightarrow> u64 \<Rightarrow> host_error + BudgetDimension" where
  "try_from_config variants cost_params lim =
     (case fill_models variants cost_params (cost_models default_dimension) of
        Inl e \<Rightarrow> Inl e
      | Inr ms \<Rightarrow> Inr (default_dimension\<lparr>cost_models := ms, limit := lim, shadow_limit := lim\<rparr>))"

definition get_remaining :: "BudgetDimension \<Rightarrow> u64" where
  "get_remaining d = limit d - total_count d"

definition reset_dimension :: "u64 \<Rightarrow> BudgetDimension \<Rightarrow> BudgetDimension" where
  "reset_dimension lim d = d\<lparr>limit := lim, total_count := 0, shadow_limit := lim, shadow_total_count := 0\<rparr>"

definition check_budget_limit :: "bool \<Rightarrow> BudgetDimension \<Rightarrow> host_error + unit" where
  "check_budget_limit is_shadow d =
     (let over_limit = (if is_shadow then shadow_total_count d > shadow_limit d else total_count d > limit d)
      in if over_limit then Inl (HostErr SCE_Budget ExceededLimit) else Inr ())"

definition dimension_charge ::
  "ContractCostType \<Rightarrow> u64 \<Rightarrow> u64 option \<Rightarrow> bool \<Rightarrow> BudgetDimension \<Rightarrow> host_error + (u64 \<times> BudgetDimension)" where
  "dimension_charge ty iterations input is_shadow d =
     (case evaluate (cost_models d ty) input of
        Inl e \<Rightarrow> Inl e
      | Inr v \<Rightarrow>
          let amount = saturating_mul_u64 v iterations in
          Inr (amount,
            if is_shadow then d\<lparr>shadow_total_count := saturating_add_u64 (shadow_total_count d) amount\<rparr>
            else d\<lparr>total_count := saturating_add_u64 (total_count d) amount\<rparr>))"

definition reset_dimension_models :: "BudgetDimension \<Rightarrow> BudgetDimension" where
  "reset_dimension_models d = d\<lparr>cost_models := (\<lambda>ty. reset_component (cost_models d ty))\<rparr>"

section \<open>The budget\<close>

record CostTracker =
  iterations :: u64
  inputs :: "u64 option"
  cpu :: u64
  mem :: u64

record BudgetTracker =
  cost_trackers :: "ContractCostType \<Rightarrow> CostTracker"
  meter_count :: u32
  time_tracker :: "ContractCostType \<Rightarrow> u64"

text \<open>Which cost types have an input: the constant ones are left without.\<close>

fun initial_input :: "ContractCostType \<Rightarrow> u64 option" where
  "initial_input WasmInsnExec = None"
| "initial_input MemAlloc = Some 0"
| "initial_input MemCpy = Some 0"
| "initial_input MemCmp = Some 0"
| "initial_input DispatchHostFunction = None"
| "initial_input VisitObject = None"
| "initial_input ValSer = Some 0"
| "initial_input ValDeser = Some 0"
| "initial_input ComputeSha256Hash = Some 0"
| "initial_input ComputeEd25519PubKey = None"
| "initial_input VerifyEd25519Sig = Some 0"
| "initial_input VmInstantiation = Some 0"
| "initial_input VmCachedInstantiation = Some 0"
| "initial_input InvokeVmFunction = None"
| "initial_input ComputeKeccak256Hash = Some 0"
| "initial_input DecodeEcdsaCurve256Sig = None"
| "initial_input RecoverEcdsaSecp256k1Key = None"
| "initial_input Int256AddSub = None"
| "initial_input Int256Mul = None"
| "initial_input Int256Div = None"
| "initial_input Int256Pow = None"
| "initial_input Int256Shift = None"
| "initial_input ChaCha20DrawBytes = Some 0"
| "initial_input ParseWasmInstructions = Some 0"
| "initial_input ParseWasmFunctions = Some 0"
| "initial_input ParseWasmGlobals = Some 0"
| "initial_input ParseWasmTableEntries = Some 0"
| "initial_input ParseWasmTypes = Some 0"
| "initial_input ParseWasmDataSegments = Some 0"
| "initial_input ParseWasmElemSegments = Some 0"
| "initial_input ParseWasmImports = Some 0"
| "initial_input ParseWasmExports = Some 0"
| "initial_input ParseWasmDataSegmentBytes = Some 0"
| "initial_input InstantiateWasmInstructions = None"
| "initial_input InstantiateWasmFunctions = Some 0"
| "initial_input InstantiateWasmGlobals = Some 0"
| "initial_input InstantiateWasmTableEntries = Some 0"
| "initial_input InstantiateWasmTypes = None"
| "initial_input InstantiateWasmDataSegments = Some 0"
| "initial_input InstantiateWasmElemSegments = Some 0"
| "initial_input InstantiateWasmImports = Some 0"
| "initial_input InstantiateWasmExports = Some 0"
| "initial_input InstantiateWasmDataSegmentBytes = Some 0"
| "initial_input Sec1DecodePointUncompressed = None"
| "initial_input VerifyEcdsaSecp256r1Sig = None"

definition default_tracker :: BudgetTracker where
  "default_tracker = \<lparr>cost_trackers = (\<lambda>ct. \<lparr>iterations = 0, inputs = initial_input ct, cpu = 0, mem = 0\<rparr>),
     meter_count = 0, time_tracker = (\<lambda>_. 0)\<rparr>"

definition reset_tracker :: "BudgetTracker \<Rightarrow> BudgetTracker" where
  "reset_tracker t = t\<lparr>meter_count := 0, cost_trackers := (\<lambda>ct.
     \<lparr>iterations = 0, inputs = map_option (\<lambda>_. 0) (inputs (cost_trackers t ct)), cpu = 0, mem = 0\<rparr>)\<rparr>"

record BudgetImpl =
  cpu_insns :: BudgetDimension
  mem_bytes :: BudgetDimension
  tracker :: BudgetTracker
  is_in_shadow_mode :: bool
  depth_limit :: u32

type_synonym 'a metered = "BudgetImpl \<Rightarrow> (host_error + 'a) \<times> BudgetImpl"

definition DEFAULT_HOST_DEPTH_LIMIT :: u32 where
  "DEFAULT_HOST_DEPTH_LIMIT = 100"

definition DEFAULT_CPU_INSN_LIMIT :: u64 where
  "DEFAULT_CPU_INSN_LIMIT = 100000000"

definition DEFAULT_MEM_BYTES_LIMIT :: u64 where
  "DEFAULT_MEM_BYTES_LIMIT = 40 * 1024 * 1024"

definition try_from_configs ::
  "ContractCostType list \<Rightarrow> u64 \<Rightarrow> u64 \<Rightarrow> ContractCostParamEntry list \<Rightarrow> ContractCostParamEntry list
   \<Rightarrow> host_error + BudgetImpl" where
  "try_from_configs variants cpu_limit mem_limit cpu_cost_params mem_cost_params =
     (case try_from_config variants cpu_cost_params cpu_limit of
        Inl e \<Rightarrow> Inl e
      | Inr c \<Rightarrow>
          (case try_from_config variants mem_cost_params mem_limit of
             Inl e \<Rightarrow> Inl e
           | Inr m \<Rightarrow> Inr \<lparr>cpu_insns = c, mem_bytes = m, tracker = default_tracker,
               is_in_shadow_mode = False, depth_limit = DEFAULT_HOST_DEPTH_LIMIT\<rparr>))"

text \<open>The reporting part of \<open>charge\<close>, skipped in shadow mode; passing an input to a type without
  one, or none to a type with one, is an error after the counters have moved.\<close>

definition track_charge :: "ContractCostType \<Rightarrow> u64 \<Rightarrow> u64 option \<Rightarrow> BudgetTracker \<Rightarrow> (host_error + unit) \<times> BudgetTracker" where
  "track_charge ty n input t =
     (let c = (cost_trackers t ty)\<lparr>iterations := saturating_add_u64 (iterations (cost_trackers t ty)) n\<rparr>;
          t' = t\<lparr>meter_count := saturating_add_u32 (meter_count t) 1\<rparr>
      in case (inputs c, input) of
           (None, None) \<Rightarrow> (Inr (), t'\<lparr>cost_trackers := (cost_trackers t)(ty := c)\<rparr>)
         | (Some x, Some i) \<Rightarrow> (Inr (), t'\<lparr>cost_trackers := (cost_trackers t)(ty :=
              c\<lparr>inputs := Some (saturating_add_u64 x (saturating_mul_u64 i n))\<rparr>)\<rparr>)
         | _ \<Rightarrow> (Inl (HostErr SCE_Budget InternalError), t'\<lparr>cost_trackers := (cost_trackers t)(ty := c)\<rparr>))"

definition track_cpu :: "ContractCostType \<Rightarrow> u64 \<Rightarrow> BudgetTracker \<Rightarrow> BudgetTracker" where
  "track_cpu ty n t = t\<lparr>cost_trackers := (cost_trackers t)(ty :=
     (cost_trackers t ty)\<lparr>cpu := saturating_add_u64 (cpu (cost_trackers t ty)) n\<rparr>)\<rparr>"

definition track_mem :: "ContractCostType \<Rightarrow> u64 \<Rightarrow> BudgetTracker \<Rightarrow> BudgetTracker" where
  "track_mem ty n t = t\<lparr>cost_trackers := (cost_trackers t)(ty :=
     (cost_trackers t ty)\<lparr>mem := saturating_add_u64 (mem (cost_trackers t ty)) n\<rparr>)\<rparr>"

definition bulk_charge :: "ContractCostType \<Rightarrow> u64 \<Rightarrow> u64 option \<Rightarrow> unit metered" where
  "bulk_charge ty n input b =
     (let shadow = is_in_shadow_mode b;
          (r, t) = (if shadow then (Inr (), tracker b) else track_charge ty n input (tracker b));
          b0 = b\<lparr>tracker := t\<rparr>
      in case r of Inl e \<Rightarrow> (Inl e, b0) | Inr _ \<Rightarrow>
         (case dimension_charge ty n input shadow (cpu_insns b0) of
            Inl e \<Rightarrow> (Inl e, b0)
          | Inr (cpu_charged, d) \<Rightarrow>
             let b1 = b0\<lparr>cpu_insns := d, tracker := (if shadow then tracker b0 else track_cpu ty cpu_charged (tracker b0))\<rparr>
             in case check_budget_limit shadow (cpu_insns b1) of Inl e \<Rightarrow> (Inl e, b1) | Inr _ \<Rightarrow>
                (case dimension_charge ty n input shadow (mem_bytes b1) of
                   Inl e \<Rightarrow> (Inl e, b1)
                 | Inr (mem_charged, m) \<Rightarrow>
                    let b2 = b1\<lparr>mem_bytes := m, tracker := (if shadow then tracker b1 else track_mem ty mem_charged (tracker b1))\<rparr>
                    in (check_budget_limit shadow (mem_bytes b2), b2))))"

definition charge :: "ContractCostType \<Rightarrow> u64 option \<Rightarrow> unit metered" where
  "charge ty input = bulk_charge ty 1 input"

definition get_wasmi_fuel_remaining :: "BudgetImpl \<Rightarrow> u64" where
  "get_wasmi_fuel_remaining b =
     (let cpu_per_fuel = max (const_term (cost_models (cpu_insns b) WasmInsnExec)) 1
      in get_remaining (cpu_insns b) div cpu_per_fuel)"

section \<open>The default parameters\<close>

definition MIN_LEDGER_VERSION :: u32 where
  "MIN_LEDGER_VERSION = 21"

fun default_cpu_model :: "u32 \<Rightarrow> ContractCostType \<Rightarrow> MeteredCostComponent" where
  "default_cpu_model proto WasmInsnExec = \<lparr>const_term = 4, lin_term = ScaledU64 0\<rparr>"
| "default_cpu_model proto MemAlloc = \<lparr>const_term = 434, lin_term = safe_div (from_unscaled_u64 1) 8\<rparr>"
| "default_cpu_model proto MemCpy = \<lparr>const_term = 42, lin_term = safe_div (from_unscaled_u64 1) 8\<rparr>"
| "default_cpu_model proto MemCmp = \<lparr>const_term = 44, lin_term = safe_div (from_unscaled_u64 1) 8\<rparr>"
| "default_cpu_model proto DispatchHostFunction = \<lparr>const_term = 310, lin_term = ScaledU64 0\<rparr>"
| "default_cpu_model proto VisitObject = \<lparr>const_term = 61, lin_term = ScaledU64 0\<rparr>"
| "default_cpu_model proto ValSer = \<lparr>const_term = 230, lin_term = ScaledU64 29\<rparr>"
| "default_cpu_model proto ValDeser = \<lparr>const_term = 59052, lin_term = ScaledU64 4001\<rparr>"
| "default_cpu_model proto ComputeSha256Hash = \<lparr>const_term = 3738, lin_term = ScaledU64 7012\<rparr>"
| "default_cpu_model proto ComputeEd25519PubKey = \<lparr>const_term = 40253, lin_term = ScaledU64 0\<rparr>"
| "default_cpu_model proto VerifyEd25519Sig = \<lparr>const_term = 377524, lin_term = ScaledU64 4068\<rparr>"
| "default_cpu_model proto VmInstantiation = \<lparr>const_term = 451626, lin_term = ScaledU64 45405\<rparr>"
| "default_cpu_model proto VmCachedInstantiation =
     (if proto < MIN_LEDGER_VERSION then \<lparr>const_term = 451626, lin_term = ScaledU64 45405\<rparr>
      else \<lparr>const_term = 41142, lin_term = ScaledU64 634\<rparr>)"
| "default_cpu_model proto InvokeVmFunction = \<lparr>const_term = 1948, lin_term = ScaledU64 0\<rparr>"
| "default_cpu_model proto ComputeKeccak256Hash = \<lparr>const_term = 3766, lin_term = ScaledU64 5969\<rparr>"
| "default_cpu_model proto DecodeEcdsaCurve256Sig = \<lparr>const_term = 710, lin_term = ScaledU64 0\<rparr>"
| "default_cpu_model proto RecoverEcdsaSecp256k1Key = \<lparr>const_term = 2315295, lin_term = ScaledU64 0\<rparr>"
| "default_cpu_model proto Int256AddSub = \<lparr>const_term = 4404, lin_term = ScaledU64 0\<rparr>"
| "default_cpu_model proto Int256Mul = \<lparr>const_term = 4947, lin_term = ScaledU64 0\<rparr>"
| "default_cpu_model proto Int256Div = \<lparr>const_term = 4911, lin_term = ScaledU64 0\<rparr>"
| "default_cpu_model proto Int256Pow = \<lparr>const_term = 4286, lin_term = ScaledU64 0\<rparr>"
| "default_cpu_model proto Int256Shift = \<lparr>const_term = 913, lin_term = ScaledU64 0\<rparr>"
| "default_cpu_model proto ChaCha20DrawBytes = \<lparr>const_term = 1058, lin_term = ScaledU64 501\<rparr>"
| "default_cpu_model proto ParseWasmInstructions = \<lparr>const_term = 73077, lin_term = ScaledU64 25410\<rparr>"
| "default_cpu_model proto ParseWasmFunctions = \<lparr>const_term = 0, lin_term = ScaledU64 540752\<rparr>"
| "default_cpu_model proto ParseWasmGlobals = \<lparr>const_term = 0, lin_term = ScaledU64 176363\<rparr>"
| "default_cpu_model proto ParseWasmTableEntries = \<lparr>const_term = 0, lin_term = ScaledU64 29989\<rparr>"
| "default_cpu_model proto ParseWasmTypes = \<lparr>const_term = 0, lin_term = ScaledU64 1061449\<rparr>"
| "default_cpu_model proto ParseWasmDataSegments = \<lparr>const_term = 0, lin_term = ScaledU64 237336\<rparr>"
| "default_cpu_model proto ParseWasmElemSegments = \<lparr>const_term = 0, lin_term = ScaledU64 328476\<rparr>"
| "default_cpu_model proto ParseWasmImports = \<lparr>const_term = 0, lin_term = ScaledU64 701845\<rparr>"
| "default_cpu_model proto ParseWasmExports = \<lparr>const_term = 0, lin_term = ScaledU64 429383\<rparr>"
| "default_cpu_model proto ParseWasmDataSegmentBytes = \<lparr>const_term = 0, lin_term = ScaledU64 28\<rparr>"
| "default_cpu_model proto InstantiateWasmInstructions = \<lparr>const_term = 43030, lin_term = ScaledU64 0\<rparr>"
| "default_cpu_model proto InstantiateWasmFunctions = \<lparr>const_term = 0, lin_term = ScaledU64 7556\<rparr>"
| "default_cpu_model proto InstantiateWasmGlobals = \<lparr>const_term = 0, lin_term = ScaledU64 10711\<rparr>"
| "default_cpu_model proto InstantiateWasmTableEntries = \<lparr>const_term = 0, lin_term = ScaledU64 3300\<rparr>"
| "default_cpu_model proto InstantiateWasmTypes = \<lparr>const_term = 0, lin_term = ScaledU64 0\<rparr>"
| "default_cpu_model proto InstantiateWasmDataSegments = \<lparr>const_term = 0, lin_term = ScaledU64 23038\<rparr>"
| "default_cpu_model proto InstantiateWasmElemSegments = \<lparr>const_term = 0, lin_term = ScaledU64 42488\<rparr>"
| "default_cpu_model proto InstantiateWasmImports = \<lparr>const_term = 0, lin_term = ScaledU64 828974\<rparr>"
| "default_cpu_model proto InstantiateWasmExports = \<lparr>const_term = 0, lin_term = ScaledU64 297100\<rparr>"
| "default_cpu_model proto InstantiateWasmDataSegmentBytes = \<lparr>const_term = 0, lin_term = ScaledU64 14\<rparr>"
| "default_cpu_model proto Sec1DecodePointUncompressed = \<lparr>const_term = 1882, lin_term = ScaledU64 0\<rparr>"
| "default_cpu_model proto VerifyEcdsaSecp256r1Sig = \<lparr>const_term = 3000906, lin_term = ScaledU64 0\<rparr>"

fun default_mem_model :: "u32 \<Rightarrow> ContractCostType \<Rightarrow> MeteredCostComponent" where
  "default_mem_model proto WasmInsnExec = \<lparr>const_term = 0, lin_term = ScaledU64 0\<rparr>"
| "default_mem_model proto MemAlloc = \<lparr>const_term = 16, lin_term = from_unscaled_u64 1\<rparr>"
| "default_mem_model proto MemCpy = \<lparr>const_term = 0, lin_term = ScaledU64 0\<rparr>"
| "default_mem_model proto MemCmp = \<lparr>const_term = 0, lin_term = ScaledU64 0\<rparr>"
| "default_mem_model proto DispatchHostFunction = \<lparr>const_term = 0, lin_term = ScaledU64 0\<rparr>"
| "default_mem_model proto VisitObject = \<lparr>const_term = 0, lin_term = ScaledU64 0\<rparr>"
| "default_mem_model proto ValSer = \<lparr>const_term = 242, lin_term = from_unscaled_u64 3\<rparr>"
| "default_mem_model proto ValDeser = \<lparr>const_term = 0, lin_term = from_unscaled_u64 3\<rparr>"
| "default_mem_model proto ComputeSha256Hash = \<lparr>const_term = 0, lin_term = ScaledU64 0\<rparr>"
| "default_mem_model proto ComputeEd25519PubKey = \<lparr>const_term = 0, lin_term = ScaledU64 0\<rparr>"
| "default_mem_model proto VerifyEd25519Sig = \<lparr>const_term = 0, lin_term = ScaledU64 0\<rparr>"
| "default_mem_model proto VmInstantiation = \<lparr>const_term = 130065, lin_term = ScaledU64 5064\<rparr>"
| "default_mem_model proto VmCachedInstantiation =
     (if proto < MIN_LEDGER_VERSION then \<lparr>const_term = 130065, lin_term = ScaledU64 5064\<rparr>
      else \<lparr>const_term = 69472, lin_term = ScaledU64 1217\<rparr>)"
| "default_mem_model proto InvokeVmFunction = \<lparr>const_term = 14, lin_term = ScaledU64 0\<rparr>"
| "default_mem_model proto ComputeKeccak256Hash = \<lparr>const_term = 0, lin_term = ScaledU64 0\<rparr>"
| "default_mem_model proto DecodeEcdsaCurve256Sig = \<lparr>const_term = 0, lin_term = ScaledU64 0\<rparr>"
| "default_mem_model proto RecoverEcdsaSecp256k1Key = \<lparr>const_term = 181, lin_term = ScaledU64 0\<rparr>"
| "default_mem_model proto Int256AddSub = \<lparr>const_term = 99, lin_term = ScaledU64 0\<rparr>"
| "default_mem_model proto Int256Mul = \<lparr>const_term = 99, lin_term = ScaledU64 0\<rparr>"
| "default_mem_model proto Int256Div = \<lparr>const_term = 99, lin_term = ScaledU64 0\<rparr>"
| "default_mem_model proto Int256Pow = \<lparr>const_term = 99, lin_term = ScaledU64 0\<rparr>"
| "default_mem_model proto Int256Shift = \<lparr>const_term = 99, lin_term = ScaledU64 0\<rparr>"
| "default_mem_model proto ChaCha20DrawBytes = \<lparr>const_term = 0, lin_term = ScaledU64 0\<rparr>"
| "default_mem_model proto ParseWasmInstructions = \<lparr>const_term = 17564, lin_term = ScaledU64 6457\<rparr>"
| "default_mem_model proto ParseWasmFunctions = \<lparr>const_term = 0, lin_term = ScaledU64 47464\<rparr>"
| "default_mem_model proto ParseWasmGlobals = \<lparr>const_term = 0, lin_term = ScaledU64 13420\<rparr>"
| "default_mem_model proto ParseWasmTableEntries = \<lparr>const_term = 0, lin_term = ScaledU64 6285\<rparr>"
| "default_mem_model proto ParseWasmTypes = \<lparr>const_term = 0, lin_term = ScaledU64 64670\<rparr>"
| "default_mem_model proto ParseWasmDataSegments = \<lparr>const_term = 0, lin_term = ScaledU64 29074\<rparr>"
| "default_mem_model proto ParseWasmElemSegments = \<lparr>const_term = 0, lin_term = ScaledU64 48095\<rparr>"
| "default_mem_model proto ParseWasmImports = \<lparr>const_term = 0, lin_term = ScaledU64 103229\<rparr>"
| "default_mem_model proto ParseWasmExports = \<lparr>const_term = 0, lin_term = ScaledU64 36394\<rparr>"
| "default_mem_model proto ParseWasmDataSegmentBytes = \<lparr>const_term = 0, lin_term = ScaledU64 257\<rparr>"
| "default_mem_model proto InstantiateWasmInstructions = \<lparr>const_term = 70704, lin_term = ScaledU64 0\<rparr>"
| "default_mem_model proto InstantiateWasmFunctions = \<lparr>const_term = 0, lin_term = ScaledU64 14613\<rparr>"
| "default_mem_model proto InstantiateWasmGlobals = \<lparr>const_term = 0, lin_term = ScaledU64 6833\<rparr>"
| "default_mem_model proto InstantiateWasmTableEntries = \<lparr>const_term = 0, lin_term = ScaledU64 1025\<rparr>"
| "default_mem_model proto InstantiateWasmTypes = \<lparr>const_term = 0, lin_term = ScaledU64 0\<rparr>"
| "default_mem_model proto InstantiateWasmDataSegments = \<lparr>const_term = 0, lin_term = ScaledU64 129632\<rparr>"
| "default_mem_model proto InstantiateWasmElemSegments = \<lparr>const_term = 0, lin_term = ScaledU64 13665\<rparr>"
| "default_mem_model proto InstantiateWasmImports = \<lparr>const_term = 0, lin_term = ScaledU64 97637\<rparr>"
| "default_mem_model proto InstantiateWasmExports = \<lparr>const_term = 0, lin_term = ScaledU64 9176\<rparr>"
| "default_mem_model proto InstantiateWasmDataSegmentBytes = \<lparr>const_term = 0, lin_term = ScaledU64 126\<rparr>"
| "default_mem_model proto Sec1DecodePointUncompressed = \<lparr>const_term = 0, lin_term = ScaledU64 0\<rparr>"
| "default_mem_model proto VerifyEcdsaSecp256r1Sig = \<lparr>const_term = 0, lin_term = ScaledU64 0\<rparr>"

definition default_budget :: "u32 \<Rightarrow> BudgetImpl" where
  "default_budget proto = \<lparr>
     cpu_insns = reset_dimension DEFAULT_CPU_INSN_LIMIT (default_dimension\<lparr>cost_models := default_cpu_model proto\<rparr>),
     mem_bytes = reset_dimension DEFAULT_MEM_BYTES_LIMIT (default_dimension\<lparr>cost_models := default_mem_model proto\<rparr>),
     tracker = default_tracker, is_in_shadow_mode = False, depth_limit = DEFAULT_HOST_DEPTH_LIMIT\<rparr>"

section \<open>Shadow mode\<close>

text \<open>Entering checks the shadow limits with the mode already switched; leaving restores the mode
  that was found.\<close>

definition enter_shadow :: "unit metered" where
  "enter_shadow b =
     (let b' = b\<lparr>is_in_shadow_mode := True\<rparr>
      in case check_budget_limit True (cpu_insns b') of Inl e \<Rightarrow> (Inl e, b')
         | Inr _ \<Rightarrow> (check_budget_limit True (mem_bytes b'), b'))"

definition with_shadow_mode :: "'a metered \<Rightarrow> BudgetImpl \<Rightarrow> BudgetImpl" where
  "with_shadow_mode f b =
     (let prev = is_in_shadow_mode b;
          (r, b1) = enter_shadow b;
          b2 = (case r of Inr _ \<Rightarrow> snd (f b1) | Inl _ \<Rightarrow> b1)
      in b2\<lparr>is_in_shadow_mode := prev\<rparr>)"

definition with_observable_shadow_mode :: "'a metered \<Rightarrow> 'a metered" where
  "with_observable_shadow_mode f b =
     (let prev = is_in_shadow_mode b;
          (should_execute, b1) = enter_shadow b;
          (rt, b2) = (case should_execute of Inr _ \<Rightarrow> f b1 | Inl e \<Rightarrow> (Inl e, b1))
      in (rt, b2\<lparr>is_in_shadow_mode := prev\<rparr>))"

definition set_shadow_limits :: "u64 \<Rightarrow> u64 \<Rightarrow> BudgetImpl \<Rightarrow> BudgetImpl" where
  "set_shadow_limits c m b = b\<lparr>cpu_insns := (cpu_insns b)\<lparr>shadow_limit := c\<rparr>,
     mem_bytes := (mem_bytes b)\<lparr>shadow_limit := m\<rparr>\<rparr>"

definition ensure_shadow_cpu_limit_factor :: "u64 \<Rightarrow> BudgetImpl \<Rightarrow> BudgetImpl" where
  "ensure_shadow_cpu_limit_factor factor b =
     b\<lparr>cpu_insns := (cpu_insns b)\<lparr>shadow_limit := saturating_mul_u64 (limit (cpu_insns b)) factor\<rparr>\<rparr>"

definition ensure_shadow_mem_limit_factor :: "u64 \<Rightarrow> BudgetImpl \<Rightarrow> BudgetImpl" where
  "ensure_shadow_mem_limit_factor factor b =
     b\<lparr>mem_bytes := (mem_bytes b)\<lparr>shadow_limit := saturating_mul_u64 (limit (mem_bytes b)) factor\<rparr>\<rparr>"

section \<open>Recursion depth\<close>

definition enter_depth :: "unit metered" where
  "enter_depth b = (if depth_limit b = 0 then (Inl (HostErr SCE_Context ExceededLimit), b)
     else (Inr (), b\<lparr>depth_limit := depth_limit b - 1\<rparr>))"

definition leave_depth :: "unit metered" where
  "leave_depth b = (case checked_add_u32 (depth_limit b) 1 of
     None \<Rightarrow> (Inl (HostErr SCE_Context InternalError), b)
   | Some d \<Rightarrow> (Inr (), b\<lparr>depth_limit := d\<rparr>))"

definition with_limited_depth :: "'a metered \<Rightarrow> 'a metered" where
  "with_limited_depth f b =
     (case enter_depth b of (Inl e, b1) \<Rightarrow> (Inl e, b1)
      | (Inr _, b1) \<Rightarrow>
         (case f b1 of (res, b2) \<Rightarrow>
            (case leave_depth b2 of (Inl e, b3) \<Rightarrow> (Inl e, b3) | (Inr _, b3) \<Rightarrow> (res, b3))))"

section \<open>Fuel of the Wasm machine\<close>

text \<open>The store of the interpreter is not part of the repository: a parameter with the four functions
  the host calls.\<close>

record 'v wasmi_store =
  ws_fuel_consumed :: "'v \<Rightarrow> host_error + u64"
  ws_fuel_total :: "'v \<Rightarrow> host_error + u64"
  ws_add_fuel :: "u64 \<Rightarrow> 'v \<Rightarrow> host_error + 'v"
  ws_reset_fuel :: "'v \<Rightarrow> host_error + 'v"

definition is_clean :: "'v wasmi_store \<Rightarrow> 'v \<Rightarrow> host_error + bool" where
  "is_clean W v =
     (case ws_fuel_consumed W v of
        Inl e \<Rightarrow> Inl e
      | Inr c \<Rightarrow> if c = 0 then (case ws_fuel_total W v of Inl e \<Rightarrow> Inl e | Inr t \<Rightarrow> Inr (t = 0)) else Inr False)"

definition add_fuel_to_vm :: "'v wasmi_store \<Rightarrow> BudgetImpl \<Rightarrow> 'v \<Rightarrow> host_error + 'v" where
  "add_fuel_to_vm W b v =
     (case is_clean W v of
        Inl e \<Rightarrow> Inl e
      | Inr False \<Rightarrow> Inl (HostErr SCE_WasmVm InternalError)
      | Inr True \<Rightarrow> ws_add_fuel W (get_wasmi_fuel_remaining b) v)"

definition return_fuel_to_host :: "'v wasmi_store \<Rightarrow> 'v \<Rightarrow> 'v metered" where
  "return_fuel_to_host W v b =
     (case ws_fuel_consumed W v of
        Inl e \<Rightarrow> (Inl e, b)
      | Inr fuel \<Rightarrow>
          (case bulk_charge WasmInsnExec fuel None b of
             (Inl e, b') \<Rightarrow> (Inl e, b')
           | (Inr _, b') \<Rightarrow> (ws_reset_fuel W v, b')))"

text \<open>The memory limiter of the interpreter; \<open>False\<close> is its error \<open>OutOfBoundsGrowth\<close>.\<close>

definition memory_growing :: "u64 \<Rightarrow> u64 \<Rightarrow> u64 option \<Rightarrow> BudgetImpl \<Rightarrow> bool \<times> BudgetImpl" where
  "memory_growing current desired maximum b =
     (let host_limit = get_remaining (mem_bytes b);
          delta = desired - current;
          allow = (if delta > host_limit then False
                   else (case maximum of Some m \<Rightarrow> desired \<le> m | None \<Rightarrow> True))
      in if allow then (case charge MemAlloc (Some delta) b of (r, b') \<Rightarrow> (is_ok r, b'))
         else (False, b))"

section \<open>Laws\<close>

lemmas saturating_u64 = saturating_add_u64_def saturating_mul_u64_def

text \<open>What one charge costs in a dimension.\<close>

definition cost :: "BudgetDimension \<Rightarrow> ContractCostType \<times> u64 \<times> u64 option \<Rightarrow> u64" where
  "cost d = (\<lambda>(ty, n, input). case evaluate (cost_models d ty) input of Inl _ \<Rightarrow> 0 | Inr v \<Rightarrow> saturating_mul_u64 v n)"

lemma evaluate_total: "\<exists>v. evaluate cm input = Inr v"
  by (cases input) (auto simp: evaluate_def)

lemma dimension_charge_eq:
  "dimension_charge ty n input shadow d = Inr (cost d (ty, n, input),
     if shadow then d\<lparr>shadow_total_count := saturating_add_u64 (shadow_total_count d) (cost d (ty, n, input))\<rparr>
     else d\<lparr>total_count := saturating_add_u64 (total_count d) (cost d (ty, n, input))\<rparr>)"
  using evaluate_total [of "cost_models d ty" input] by (auto simp: dimension_charge_def cost_def Let_def)

lemma cost_counts [simp]: "cost (d\<lparr>total_count := n\<rparr>) c = cost d c" "cost (d\<lparr>shadow_total_count := n\<rparr>) c = cost d c"
  by (simp_all add: cost_def split: prod.split)

text \<open>A program of metered work: charges, shadow sections that hide their errors or show them, and
  recursion levels.\<close>

datatype meter_prog =
  MCharge ContractCostType u64 "u64 option"
| MShadow "meter_prog list"
| MObservable "meter_prog list"
| MDepth "meter_prog list"

fun run_prog :: "meter_prog \<Rightarrow> unit metered" and run_progs :: "meter_prog list \<Rightarrow> unit metered" where
  "run_prog (MCharge ty n input) b = bulk_charge ty n input b"
| "run_prog (MShadow ps) b = (Inr (), with_shadow_mode (run_progs ps) b)"
| "run_prog (MObservable ps) b = with_observable_shadow_mode (run_progs ps) b"
| "run_prog (MDepth ps) b = with_limited_depth (run_progs ps) b"
| "run_progs [] b = (Inr (), b)"
| "run_progs (p # ps) b = (case run_prog p b of (Inl e, b') \<Rightarrow> (Inl e, b') | (Inr _, b') \<Rightarrow> run_progs ps b')"

text \<open>What is fixed while a transaction runs, and what the budget shows to the outside.\<close>

definition dim_setup :: "BudgetDimension \<Rightarrow> BudgetDimension" where
  "dim_setup d = d\<lparr>total_count := 0, shadow_total_count := 0\<rparr>"

definition config_of :: "BudgetImpl \<Rightarrow> BudgetDimension \<times> BudgetDimension \<times> bool \<times> u32" where
  "config_of b = (dim_setup (cpu_insns b), dim_setup (mem_bytes b), is_in_shadow_mode b, depth_limit b)"

definition shown :: "BudgetImpl \<Rightarrow> u64 \<times> u64 \<times> BudgetTracker" where
  "shown b = (total_count (cpu_insns b), total_count (mem_bytes b), tracker b)"

definition within :: "BudgetImpl \<Rightarrow> bool" where
  "within b \<longleftrightarrow> total_count (cpu_insns b) \<le> limit (cpu_insns b) \<and> total_count (mem_bytes b) \<le> limit (mem_bytes b)"

lemma dim_setup_counts [simp]:
  "dim_setup (d\<lparr>total_count := n\<rparr>) = dim_setup d" "dim_setup (d\<lparr>shadow_total_count := n\<rparr>) = dim_setup d"
  by (simp_all add: dim_setup_def)

lemma dim_setup_limit: "dim_setup d = dim_setup d' \<Longrightarrow> limit d = limit d' \<and> cost_models d = cost_models d'"
  by (cases d; cases d') (simp add: dim_setup_def)

lemmas budget_defs = config_of_def shown_def within_def check_budget_limit_def Let_def

lemma bulk_charge_config: "config_of (snd (bulk_charge ty n input b)) = config_of b"
  by (auto simp: bulk_charge_def dimension_charge_eq budget_defs split: prod.splits sum.splits)

lemma bulk_charge_shadow: "is_in_shadow_mode b \<Longrightarrow> shown (snd (bulk_charge ty n input b)) = shown b"
  by (auto simp: bulk_charge_def dimension_charge_eq budget_defs)

lemma bulk_charge_within:
  "\<not> is_in_shadow_mode b \<Longrightarrow> bulk_charge ty n input b = (Inr u, b') \<Longrightarrow> within b'"
  by (auto simp: bulk_charge_def dimension_charge_eq budget_defs split: prod.splits sum.splits if_splits)

lemma enter_shadow_state: "snd (enter_shadow b) = b\<lparr>is_in_shadow_mode := True\<rparr>"
  by (auto simp: enter_shadow_def Let_def split: sum.splits)

lemma enter_shadow_Pair: "enter_shadow b = (fst (enter_shadow b), b\<lparr>is_in_shadow_mode := True\<rparr>)"
  by (simp add: enter_shadow_state [symmetric])

text \<open>What a piece of metered work may do to a budget.\<close>

definition metered_ok :: "unit metered \<Rightarrow> BudgetImpl \<Rightarrow> bool" where
  "metered_ok f b \<longleftrightarrow> config_of (snd (f b)) = config_of b
     \<and> (is_in_shadow_mode b \<longrightarrow> shown (snd (f b)) = shown b)
     \<and> (within b \<longrightarrow> is_ok (fst (f b)) \<longrightarrow> within (snd (f b)))"

lemma within_shown: "config_of b = config_of b' \<Longrightarrow> shown b = shown b' \<Longrightarrow> within b = within b'"
  using dim_setup_limit [of "cpu_insns b" "cpu_insns b'"] dim_setup_limit [of "mem_bytes b" "mem_bytes b'"]
  by (simp add: config_of_def shown_def within_def)

lemma metered_okI:
  assumes "config_of (snd (f b)) = config_of b" and "is_in_shadow_mode b \<Longrightarrow> shown (snd (f b)) = shown b"
    and "\<And>u. \<not> is_in_shadow_mode b \<Longrightarrow> within b \<Longrightarrow> fst (f b) = Inr u \<Longrightarrow> within (snd (f b))"
  shows "metered_ok f b"
  using assms within_shown [of "snd (f b)" b] unfolding metered_ok_def is_ok_def by (auto split: sum.splits)

lemma metered_ok_same:
  "config_of (snd (f b)) = config_of b \<Longrightarrow> shown (snd (f b)) = shown b \<Longrightarrow> metered_ok f b"
  using within_shown [of "snd (f b)" b] by (simp add: metered_ok_def)

lemma shadow_section:
  assumes "metered_ok f (b\<lparr>is_in_shadow_mode := True\<rparr>)"
  shows "config_of (with_shadow_mode f b) = config_of b \<and> shown (with_shadow_mode f b) = shown b"
proof -
  have "config_of (snd (f (b\<lparr>is_in_shadow_mode := True\<rparr>))) = config_of (b\<lparr>is_in_shadow_mode := True\<rparr>)"
      "shown (snd (f (b\<lparr>is_in_shadow_mode := True\<rparr>))) = shown (b\<lparr>is_in_shadow_mode := True\<rparr>)"
    using assms by (auto simp: metered_ok_def)
  then show ?thesis
    unfolding with_shadow_mode_def Let_def
    by (subst (1 2) enter_shadow_Pair) (auto simp: budget_defs split: sum.split)
qed

lemma observable_section: "snd (with_observable_shadow_mode f b) = with_shadow_mode f b"
  by (auto simp: with_shadow_mode_def with_observable_shadow_mode_def Let_def split: prod.split sum.split)

lemma depth_section:
  assumes "\<And>c. depth_limit c \<le> U32_MAX \<Longrightarrow> metered_ok f c" and "depth_limit b \<le> U32_MAX"
  shows "metered_ok (with_limited_depth f) b"
proof (cases "depth_limit b = 0")
  case True
  then show ?thesis
    by (simp add: metered_ok_def with_limited_depth_def enter_depth_def is_ok_def)
next
  case False
  define c where "c = b\<lparr>depth_limit := depth_limit b - 1\<rparr>"
  have ok: "metered_ok f c"
    by (rule assms(1)) (use assms(2) in \<open>simp add: c_def\<close>)
  then have "depth_limit (snd (f c)) = depth_limit b - 1"
    by (simp add: metered_ok_def config_of_def c_def)
  then have run: "with_limited_depth f b = (fst (f c), (snd (f c))\<lparr>depth_limit := depth_limit b\<rparr>)"
    using False assms(2)
    by (auto simp: with_limited_depth_def enter_depth_def leave_depth_def c_def checked_add_u32_def split: prod.split)
  show ?thesis
    using ok by (simp add: metered_ok_def run c_def budget_defs is_ok_def)
qed

lemma run_ok:
  "depth_limit b \<le> U32_MAX \<Longrightarrow> metered_ok (run_prog p) b"
  "depth_limit c \<le> U32_MAX \<Longrightarrow> metered_ok (run_progs ps) c"
proof (induction p b and ps c rule: run_prog_run_progs.induct [case_names charge shadow observable depth nil cons])
  case (charge ty n input b)
  show ?case
    by (rule metered_okI)
      (auto simp: bulk_charge_config bulk_charge_shadow prod_eq_iff intro: bulk_charge_within [of b ty n input "()"])
next
  case (shadow ps b)
  then have "metered_ok (run_progs ps) (b\<lparr>is_in_shadow_mode := True\<rparr>)"
    by simp
  from shadow_section [OF this] show ?case
    by (intro metered_ok_same) simp_all
next
  case (observable ps b)
  then have "metered_ok (run_progs ps) (b\<lparr>is_in_shadow_mode := True\<rparr>)"
    by simp
  from shadow_section [OF this] show ?case
    by (intro metered_ok_same) (simp_all add: observable_section)
next
  case (depth ps b)
  have "metered_ok (with_limited_depth (run_progs ps)) b"
    by (rule depth_section [OF depth.IH depth.prems])
  then show ?case
    by (simp add: metered_ok_def)
next
  case (nil b)
  show ?case
    by (simp add: metered_ok_def)
next
  case (cons p ps b)
  obtain r c where r: "run_prog p b = (r, c)"
    by (cases "run_prog p b")
  have first: "metered_ok (run_prog p) b"
    by (rule cons.IH(1) [OF cons.prems])
  have "metered_ok (run_progs ps) c" if "r = Inr u" for u
    using cons.IH(2) [of r c u] first cons.prems r that by (simp add: metered_ok_def config_of_def)
  then show ?case
    using first r by (cases r) (auto simp: metered_ok_def is_ok_def config_of_def)
qed

section \<open>Sequences of charges\<close>

text \<open>Whether a charge passes an input exactly when its type has one.\<close>

definition fitting :: "BudgetImpl \<Rightarrow> ContractCostType \<times> u64 \<times> u64 option \<Rightarrow> bool" where
  "fitting b = (\<lambda>(ty, n, input). (input = None) = (inputs (cost_trackers (tracker b) ty) = None))"

abbreviation charges :: "(ContractCostType \<times> u64 \<times> u64 option) list \<Rightarrow> meter_prog list" where
  "charges cs \<equiv> map (\<lambda>(ty, n, input). MCharge ty n input) cs"

lemma track_charge_fits:
  assumes "(input = None) = (inputs (cost_trackers t ty) = None)"
  shows "fst (track_charge ty n input t) = Inr ()"
    and "(inputs (cost_trackers (snd (track_charge ty n input t)) k) = None) = (inputs (cost_trackers t k) = None)"
  using assms by (auto simp: track_charge_def Let_def split: option.split)

lemma track_keeps_inputs [simp]:
  "inputs (cost_trackers (track_cpu ty n t) k) = inputs (cost_trackers t k)"
  "inputs (cost_trackers (track_mem ty n t) k) = inputs (cost_trackers t k)"
  by (simp_all add: track_cpu_def track_mem_def)

text \<open>A charge outside shadow mode, in the terms of the ideal sum.\<close>

lemma bulk_charge_sum:
  assumes "\<not> is_in_shadow_mode b" and "fitting b (ty, n, input)" and "limit (cpu_insns b) < U64_MAX" and "limit (mem_bytes b) < U64_MAX"
  defines "r \<equiv> bulk_charge ty n input b"
  shows "is_ok (fst r) \<longleftrightarrow> total_count (cpu_insns b) + cost (cpu_insns b) (ty, n, input) \<le> limit (cpu_insns b)
      \<and> total_count (mem_bytes b) + cost (mem_bytes b) (ty, n, input) \<le> limit (mem_bytes b)"
    and "is_ok (fst r) \<Longrightarrow> total_count (cpu_insns (snd r)) = total_count (cpu_insns b) + cost (cpu_insns b) (ty, n, input)
      \<and> total_count (mem_bytes (snd r)) = total_count (mem_bytes b) + cost (mem_bytes b) (ty, n, input)
      \<and> fitting (snd r) = fitting b"
proof -
  have t: "track_charge ty n input (tracker b) = (Inr (), snd (track_charge ty n input (tracker b)))"
    using track_charge_fits(1) [of input "tracker b" ty n] assms(2) by (simp add: fitting_def prod_eq_iff)
  have fit: "(inputs (cost_trackers (snd (track_charge ty n input (tracker b))) k) = None)
      = (inputs (cost_trackers (tracker b) k) = None)" for k
    using track_charge_fits(2) assms(2) by (simp add: fitting_def)
  show "is_ok (fst r) \<longleftrightarrow> total_count (cpu_insns b) + cost (cpu_insns b) (ty, n, input) \<le> limit (cpu_insns b)
      \<and> total_count (mem_bytes b) + cost (mem_bytes b) (ty, n, input) \<le> limit (mem_bytes b)"
    using assms(1,3,4) unfolding r_def bulk_charge_def Let_def
    by (subst t) (auto simp: dimension_charge_eq check_budget_limit_def is_ok_def saturating_add_u64_def Let_def)
  show "is_ok (fst r) \<Longrightarrow> total_count (cpu_insns (snd r)) = total_count (cpu_insns b) + cost (cpu_insns b) (ty, n, input)
      \<and> total_count (mem_bytes (snd r)) = total_count (mem_bytes b) + cost (mem_bytes b) (ty, n, input)
      \<and> fitting (snd r) = fitting b"
    using assms(1,3,4) unfolding r_def bulk_charge_def Let_def
    by (subst (asm) t, subst (1 2 3) t)
      (auto simp: dimension_charge_eq check_budget_limit_def is_ok_def saturating_add_u64_def Let_def fitting_def fit split: if_splits)
qed

lemma cost_config: "dim_setup d = dim_setup d' \<Longrightarrow> cost d = cost d'"
  using dim_setup_limit [of d d'] by (auto simp: cost_def fun_eq_iff split: prod.split)

lemma charges_sum:
  assumes "\<not> is_in_shadow_mode b" and "list_all (fitting b) cs" and "limit (cpu_insns b) < U64_MAX" and "limit (mem_bytes b) < U64_MAX"
    and "within b"
  shows "(is_ok (fst (run_progs (charges cs) b)) \<longleftrightarrow>
        total_count (cpu_insns b) + sum_list (map (cost (cpu_insns b)) cs) \<le> limit (cpu_insns b)
      \<and> total_count (mem_bytes b) + sum_list (map (cost (mem_bytes b)) cs) \<le> limit (mem_bytes b))
    \<and> (is_ok (fst (run_progs (charges cs) b)) \<longrightarrow>
        total_count (cpu_insns (snd (run_progs (charges cs) b))) = total_count (cpu_insns b) + sum_list (map (cost (cpu_insns b)) cs)
      \<and> total_count (mem_bytes (snd (run_progs (charges cs) b))) = total_count (mem_bytes b) + sum_list (map (cost (mem_bytes b)) cs))"
  using assms
proof (induction cs arbitrary: b)
  case Nil
  then show ?case
    by (simp add: is_ok_def within_def)
next
  case (Cons c cs)
  obtain ty n input where c: "c = (ty, n, input)"
    by (cases c)
  obtain r b' where r: "bulk_charge ty n input b = (r, b')"
    by (cases "bulk_charge ty n input b")
  have fit: "fitting b (ty, n, input)"
    using Cons.prems(2) c by simp
  note first = bulk_charge_sum [OF Cons.prems(1) fit Cons.prems(3,4), unfolded r fst_conv snd_conv]
  show ?case
  proof (cases r)
    case (Inl e)
    then have "\<not> is_ok r"
      by (simp add: is_ok_def)
    with first(1) show ?thesis
      using Inl r c by (auto simp: is_ok_def)
  next
    case (Inr u)
    then have ok: "is_ok r"
      by (simp add: is_ok_def)
    have same: "config_of b' = config_of b"
      using bulk_charge_config [of ty n input b] r by simp
    then have cfg: "cost (cpu_insns b') = cost (cpu_insns b)" "cost (mem_bytes b') = cost (mem_bytes b)"
        "limit (cpu_insns b') = limit (cpu_insns b)" "limit (mem_bytes b') = limit (mem_bytes b)"
        "is_in_shadow_mode b' = is_in_shadow_mode b"
      using cost_config [of "cpu_insns b'" "cpu_insns b"] cost_config [of "mem_bytes b'" "mem_bytes b"]
        dim_setup_limit [of "cpu_insns b'" "cpu_insns b"] dim_setup_limit [of "mem_bytes b'" "mem_bytes b"]
      by (simp_all add: config_of_def)
    have "within b'"
      using bulk_charge_within [OF Cons.prems(1)] r Inr by blast
    then have "(is_ok (fst (run_progs (charges cs) b')) \<longleftrightarrow>
          total_count (cpu_insns b') + sum_list (map (cost (cpu_insns b)) cs) \<le> limit (cpu_insns b)
        \<and> total_count (mem_bytes b') + sum_list (map (cost (mem_bytes b)) cs) \<le> limit (mem_bytes b))
      \<and> (is_ok (fst (run_progs (charges cs) b')) \<longrightarrow>
          total_count (cpu_insns (snd (run_progs (charges cs) b'))) = total_count (cpu_insns b') + sum_list (map (cost (cpu_insns b)) cs)
        \<and> total_count (mem_bytes (snd (run_progs (charges cs) b'))) = total_count (mem_bytes b') + sum_list (map (cost (mem_bytes b)) cs))"
      using Cons.IH [of b'] Cons.prems first(2) [OF ok] unfolding cfg by simp
    then show ?thesis
      using first(2) [OF ok] r c Inr by (simp add: add.assoc)
  qed
qed

section \<open>What the budget guarantees\<close>

text \<open>Metering is exact.  Outside shadow mode, starting within the limits, a sequence of charges goes
  through exactly if the sums of their costs stay within both limits, in whatever order they are
  made, and then the two counters have grown by exactly these sums.  (A limit of \<open>u64::MAX\<close> is no
  limit, because the counters saturate there.)\<close>

lemma charges_exact:
  assumes "\<not> is_in_shadow_mode b" and "list_all (fitting b) cs" and "limit (cpu_insns b) < U64_MAX" and "limit (mem_bytes b) < U64_MAX"
    and "within b" and "mset cs' = mset cs"
  shows "(is_ok (fst (run_progs (charges cs') b)) \<longleftrightarrow>
        total_count (cpu_insns b) + (\<Sum>c\<leftarrow>cs. cost (cpu_insns b) c) \<le> limit (cpu_insns b)
      \<and> total_count (mem_bytes b) + (\<Sum>c\<leftarrow>cs. cost (mem_bytes b) c) \<le> limit (mem_bytes b))
    \<and> (is_ok (fst (run_progs (charges cs') b)) \<longrightarrow>
        total_count (cpu_insns (snd (run_progs (charges cs') b))) = total_count (cpu_insns b) + (\<Sum>c\<leftarrow>cs. cost (cpu_insns b) c)
      \<and> total_count (mem_bytes (snd (run_progs (charges cs') b))) = total_count (mem_bytes b) + (\<Sum>c\<leftarrow>cs. cost (mem_bytes b) c))"
proof -
  have "sum_list (map f cs') = sum_list (map f cs)" for f :: "ContractCostType \<times> u64 \<times> u64 option \<Rightarrow> nat"
    using assms(6) by (metis mset_map sum_mset_sum_list)
  moreover have "list_all (fitting b) cs'"
    using assms(2,6) by (metis list_all_iff set_mset_mset)
  ultimately show ?thesis
    using charges_sum [OF assms(1) _ assms(3-5), of cs'] by simp
qed

definition sample_charges :: "(ContractCostType \<times> u64 \<times> u64 option) list" where
  "sample_charges = [(MemAlloc, 2, Some 64), (VisitObject, 5, None), (ComputeSha256Hash, 1, Some 32)]"

lemma charges_exact_witness:
  "is_ok (fst (run_progs (charges (rev sample_charges)) (default_budget 21)))"
proof -
  have "list_all (fitting (default_budget 21)) sample_charges"
    by code_simp
  moreover have "within (default_budget 21)" "\<not> is_in_shadow_mode (default_budget 21)"
      "limit (cpu_insns (default_budget 21)) < U64_MAX" "limit (mem_bytes (default_budget 21)) < U64_MAX"
    by code_simp+
  moreover have "total_count (cpu_insns (default_budget 21)) + (\<Sum>c\<leftarrow>sample_charges. cost (cpu_insns (default_budget 21)) c)
      \<le> limit (cpu_insns (default_budget 21))"
    by code_simp
  moreover have "total_count (mem_bytes (default_budget 21)) + (\<Sum>c\<leftarrow>sample_charges. cost (mem_bytes (default_budget 21)) c)
      \<le> limit (mem_bytes (default_budget 21))"
    by code_simp
  ultimately show ?thesis
    using charges_exact [of "default_budget 21" sample_charges "rev sample_charges"] by simp
qed

text \<open>C11: metered work can not escape the budget and shadow work can not be seen.  Whatever program of
  charges, shadow sections and recursion levels runs, the limits, cost models, shadow mode and
  depth are as before at its end, failing or not; if it succeeds within its limits it ends within
  them; and a shadow section, however deep its programs and even if they fail, leaves the
  counters and the report unchanged.\<close>

theorem metering_sound:
  assumes "depth_limit b \<le> U32_MAX"
  shows "config_of (snd (run_progs ps b)) = config_of b
    \<and> (within b \<longrightarrow> is_ok (fst (run_progs ps b)) \<longrightarrow> within (snd (run_progs ps b)))
    \<and> shown (with_shadow_mode (run_progs ps) b) = shown b
    \<and> shown (snd (with_observable_shadow_mode (run_progs ps) b)) = shown b"
proof -
  have "metered_ok (run_progs ps) b" "metered_ok (run_progs ps) (b\<lparr>is_in_shadow_mode := True\<rparr>)"
    using assms by (auto intro: run_ok(2))
  then show ?thesis
    using shadow_section [of "run_progs ps" b] by (simp add: metered_ok_def observable_section)
qed

theorem metering_sound_witness:
  "shown (with_shadow_mode (run_progs [MCharge ValSer 1000000 (Some 1000), MDepth [MCharge VisitObject 3 None]]) (default_budget 21))
     = shown (default_budget 21)"
  using metering_sound [of "default_budget 21"] by (simp add: default_budget_def DEFAULT_HOST_DEPTH_LIMIT_def U32_MAX_def)

text \<open>The fuel given to the Wasm machine is always covered.  The machine gets at most the remaining
  instructions' worth of fuel, and if it has consumed no more than it was given, then charging
  the consumption afterwards succeeds and stays within the limits; a unit of fuel must cost no
  memory, as in the default parameters.\<close>

lemma fuel_always_covered:
  assumes "\<not> is_in_shadow_mode b" and "within b" and "limit (cpu_insns b) < U64_MAX" and "limit (mem_bytes b) < U64_MAX"
    and "inputs (cost_trackers (tracker b) WasmInsnExec) = None" and "const_term (cost_models (mem_bytes b) WasmInsnExec) = 0"
    and "ws_fuel_consumed W v = Inr used" and "used \<le> get_wasmi_fuel_remaining b"
  shows "fst (return_fuel_to_host W v b) = ws_reset_fuel W v \<and> within (snd (return_fuel_to_host W v b))
    \<and> total_count (cpu_insns (snd (return_fuel_to_host W v b)))
      = total_count (cpu_insns b) + const_term (cost_models (cpu_insns b) WasmInsnExec) * used"
proof -
  define k where "k = const_term (cost_models (cpu_insns b) WasmInsnExec)"
  have "k * used \<le> max k 1 * (get_remaining (cpu_insns b) div max k 1)"
    using assms(8) by (intro mult_mono) (auto simp: get_wasmi_fuel_remaining_def k_def Let_def)
  then have fuel: "k * used \<le> get_remaining (cpu_insns b)"
    using mult_div_mod_eq [of "max k 1" "get_remaining (cpu_insns b)"] by linarith
  have c: "cost (cpu_insns b) (WasmInsnExec, used, None) = k * used" "cost (mem_bytes b) (WasmInsnExec, used, None) = 0"
    using fuel assms(3,6) by (simp_all add: cost_def evaluate_def k_def saturating_mul_u64_def get_remaining_def)
  have fit: "fitting b (WasmInsnExec, used, None)"
    using assms(5) by (simp add: fitting_def)
  note sum = bulk_charge_sum [OF assms(1) fit assms(3,4)]
  have "is_ok (fst (bulk_charge WasmInsnExec used None b))"
    using sum(1) c fuel assms(2) by (auto simp: within_def get_remaining_def)
  moreover from this obtain u b' where b': "bulk_charge WasmInsnExec used None b = (Inr u, b')"
    by (cases "bulk_charge WasmInsnExec used None b") (auto simp: is_ok_def split: sum.splits)
  ultimately show ?thesis
    using sum(2) c bulk_charge_within [OF assms(1) b'] by (simp add: return_fuel_to_host_def assms(7) k_def)
qed

text \<open>A store that counts fuel, as an instance of the parameter.\<close>

definition counting_store :: "(u64 \<times> u64) wasmi_store" where
  "counting_store = \<lparr>ws_fuel_consumed = (\<lambda>(t, c). Inr c), ws_fuel_total = (\<lambda>(t, c). Inr t),
     ws_add_fuel = (\<lambda>n (t, c). Inr (t + n, c)), ws_reset_fuel = (\<lambda>_. Inr (0, 0))\<rparr>"

lemma fuel_always_covered_witness:
  "fst (return_fuel_to_host counting_store (25000000, 7000) (default_budget 21)) = Inr (0, 0)"
proof -
  have "within (default_budget 21)" "\<not> is_in_shadow_mode (default_budget 21)"
      "limit (cpu_insns (default_budget 21)) < U64_MAX" "limit (mem_bytes (default_budget 21)) < U64_MAX"
      "inputs (cost_trackers (tracker (default_budget 21)) WasmInsnExec) = None"
      "const_term (cost_models (mem_bytes (default_budget 21)) WasmInsnExec) = 0"
      "7000 \<le> get_wasmi_fuel_remaining (default_budget 21)"
    by code_simp+
  then show ?thesis
    using fuel_always_covered [of "default_budget 21" counting_store "(25000000, 7000)" 7000] by (simp add: counting_store_def)
qed

end
