(* ===== verification/Host_Objects.thy ===== *)
theory Host_Objects
  imports Metered_Map
begin

text \<open>
  The objects of the host and the functions on vectors, bytes, strings and symbols:
  \<open>src/soroban-env-host-patch/src/host_object.rs\<close>, \<open>host/metered_vector.rs\<close>, \<open>host/validity.rs\<close>,
  \<open>host/mem_helper.rs\<close>, the conversions of \<open>host/conversion.rs\<close> they use, and the modules \<open>vec\<close>
  and \<open>buf\<close> of \<open>host.rs\<close>.  Budget charges are left out: the functions describe a run whose
  budget is not exhausted.

  A value is a small value or a reference (tag and handle) to an object.  What the crate
  \<open>soroban-env-common\<close>, the XDR types and the Wasm machine decide is a field of \<open>common\<close>.
\<close>

section \<open>Values and objects\<close>

datatype Tag =
  VecObject | MapObject | U64Object | I64Object | TimepointObject | DurationObject | U128Object
  | I128Object | U256Object | I256Object | BytesObject | StringObject | SymbolObject | AddressObject

text \<open>The small values the modelled functions make or read are given by their content, any other
  by its payload.  An object reference is the tag and the 32-bit handle.\<close>

datatype Val =
  VoidVal | BoolVal bool | U32Val u32 | SymbolSmall bytes | OtherSmall nat | ObjVal Tag u32

datatype HostObject =
  HVec "Val list" | HMap "(Val \<times> Val) list" | HU64 u64 | HI64 i64 | HTimePoint u64 | HDuration u64
  | HU128 nat | HI128 i128 | HU256 nat | HI256 int | HBytes bytes | HString bytes | HSymbol bytes
  | HAddress address

fun tag_of :: "HostObject \<Rightarrow> Tag" where
  "tag_of (HVec _) = VecObject"
| "tag_of (HMap _) = MapObject"
| "tag_of (HU64 _) = U64Object"
| "tag_of (HI64 _) = I64Object"
| "tag_of (HTimePoint _) = TimepointObject"
| "tag_of (HDuration _) = DurationObject"
| "tag_of (HU128 _) = U128Object"
| "tag_of (HI128 _) = I128Object"
| "tag_of (HU256 _) = U256Object"
| "tag_of (HI256 _) = I256Object"
| "tag_of (HBytes _) = BytesObject"
| "tag_of (HString _) = StringObject"
| "tag_of (HSymbol _) = SymbolObject"
| "tag_of (HAddress _) = AddressObject"

datatype Ordering = Less | Equal | Greater

text \<open>The frame that runs: a Wasm contract with its table of relative objects and its memory, or a
  frame without a machine.\<close>

datatype cur_frame =
  ContractVM (relative_objects: "(Tag \<times> u32) list") (linear_memory: "bytes option")
| OtherFrame

record obj_host =
  objects :: "HostObject list"
  cur_frame :: "cur_frame option"

text \<open>What is not in the repository: the check of a value's representation, its 64-bit payload,
  the order of values, symbols, and the errors other crates return.\<close>

record common =
  check_val_integrity :: "HostObject list \<Rightarrow> Val \<Rightarrow> host_error + unit"
  get_payload :: "Val \<Rightarrow> u64"
  from_payload :: "u64 \<Rightarrow> Val"
  compare_val :: "HostObject list \<Rightarrow> Val \<Rightarrow> Val \<Rightarrow> host_error + Ordering"
  validate_byte :: "nat \<Rightarrow> bool"
  small_symbol :: "bytes \<Rightarrow> bool"
  SCSYMBOL_LIMIT :: nat
  conversion_error :: host_error
  xdr_error :: host_error
  memory_error :: host_error

type_synonym 'a host_fn = "(obj_host, host_error, 'a) query"

section \<open>Common errors and index checks\<close>

definition err_arith_overflow :: host_error where
  "err_arith_overflow = HostErr SCE_Value ArithDomain"

definition err_oob_linear_memory :: host_error where
  "err_oob_linear_memory = HostErr SCE_WasmVm IndexBounds"

definition err_oob_object_index :: host_error where
  "err_oob_object_index = HostErr SCE_Object IndexBounds"

definition validate_index_lt_bound :: "u32 \<Rightarrow> nat \<Rightarrow> host_error + unit" where
  "validate_index_lt_bound index bound = (if index \<ge> bound then Inl err_oob_object_index else Inr ())"

definition validate_index_le_bound :: "u32 \<Rightarrow> nat \<Rightarrow> host_error + unit" where
  "validate_index_le_bound index bound = (if index > bound then Inl err_oob_object_index else Inr ())"

definition valid_range_from_start_end_bound :: "u32 \<Rightarrow> u32 \<Rightarrow> nat \<Rightarrow> host_error + nat \<times> nat" where
  "valid_range_from_start_end_bound start stop bound =
     (case validate_index_le_bound start bound of
        Inl e \<Rightarrow> Inl e
      | Inr _ \<Rightarrow>
          (case validate_index_le_bound stop bound of
             Inl e \<Rightarrow> Inl e
           | Inr _ \<Rightarrow> if start > stop then Inl (HostErr SCE_Object InvalidInput) else Inr (start, stop)))"

definition validate_usize_sum_fits_in_u32 :: "nat \<Rightarrow> nat \<Rightarrow> host_error + nat" where
  "validate_usize_sum_fits_in_u32 a b =
     (if a > U32_MAX then Inl err_arith_overflow
      else if b > U32_MAX then Inl err_arith_overflow
      else case checked_add_u32 a b of None \<Rightarrow> Inl err_arith_overflow | Some u \<Rightarrow> Inr u)"

definition usize_to_u32 :: "nat \<Rightarrow> host_error + u32" where
  "usize_to_u32 u = (if u \<le> U32_MAX then Inr u else Inl (HostErr SCE_Value ArithDomain))"

definition usize_to_u32val :: "nat \<Rightarrow> host_error + Val" where
  "usize_to_u32val u = (case usize_to_u32 u of Inl e \<Rightarrow> Inl e | Inr v \<Rightarrow> Inr (U32Val v))"

definition u8_from_u32val_input :: "u32 \<Rightarrow> host_error + nat" where
  "u8_from_u32val_input u = (if u < 256 then Inr u else Inl (HostErr SCE_Value ArithDomain))"

definition u64_from_binary_search_result :: "nat + nat \<Rightarrow> host_error + u64" where
  "u64_from_binary_search_result res =
     (case res of
        Inr u \<Rightarrow> (case usize_to_u32 u of Inl e \<Rightarrow> Inl e | Inr v \<Rightarrow> Inr (v + 2 ^ 32))
      | Inl u \<Rightarrow> usize_to_u32 u)"

text \<open>\<open>slice::get\<close> on a range.\<close>

definition get_range :: "nat \<Rightarrow> nat \<Rightarrow> 'a list \<Rightarrow> 'a list option" where
  "get_range a b xs = (if a \<le> b \<and> b \<le> length xs then Some (take (b - a) (drop a xs)) else None)"

section \<open>Handles\<close>

definition is_relative_object_handle :: "u32 \<Rightarrow> bool" where
  "is_relative_object_handle handle \<longleftrightarrow> handle mod 2 = 0"

definition handle_to_index :: "u32 \<Rightarrow> nat" where
  "handle_to_index handle = handle div 2"

text \<open>\<open>checked_shl(1)\<close> fails only for a shift of 32 bits or more, so here it always succeeds and
  drops the highest bit.\<close>

definition index_to_handle :: "nat \<Rightarrow> bool \<Rightarrow> host_error + u32" where
  "index_to_handle index relative =
     (if index \<le> U32_MAX then
        let shifted = (index * 2) mod (U32_MAX + 1) in
        if relative then Inr shifted else Inr (shifted + 1)
      else Inl err_arith_overflow)"

definition with_current_frame_relative_object_table :: "obj_host \<Rightarrow> host_error + (Tag \<times> u32) list" where
  "with_current_frame_relative_object_table s =
     (case cur_frame s of
        Some (ContractVM table _) \<Rightarrow> Inr table
      | _ \<Rightarrow> Inl (HostErr SCE_Context InternalError))"

definition set_table :: "(Tag \<times> u32) list \<Rightarrow> obj_host \<Rightarrow> obj_host" where
  "set_table table s =
     s\<lparr>cur_frame := map_option (\<lambda>f. case f of ContractVM _ m \<Rightarrow> ContractVM table m | OtherFrame \<Rightarrow> OtherFrame) (cur_frame s)\<rparr>"

fun relative_to_absolute :: "Val \<Rightarrow> obj_host \<Rightarrow> host_error + Val" where
  "relative_to_absolute (ObjVal tag handle) s =
     (if is_relative_object_handle handle then
        let index = handle_to_index handle in
        case with_current_frame_relative_object_table s of
          Inl e \<Rightarrow> Inl e
        | Inr table \<Rightarrow>
            if index < length table then
              if fst (table ! index) = tag then Inr (ObjVal (fst (table ! index)) (snd (table ! index)))
              else Inl (HostErr SCE_Value InvalidInput)
            else Inl (HostErr SCE_Value InvalidInput)
      else Inl (HostErr SCE_Value InvalidInput))"
| "relative_to_absolute v s = Inr v"

fun absolute_to_relative :: "Val \<Rightarrow> Val host_fn" where
  "absolute_to_relative (ObjVal tag handle) s =
     (if is_relative_object_handle handle then Inl (HostErr SCE_Context InternalError)
      else
        case with_current_frame_relative_object_table s of
          Inl e \<Rightarrow> Inl e
        | Inr table \<Rightarrow>
            let index = length table; s' = set_table (table @ [(tag, handle)]) s in
            (case index_to_handle index True of
               Inl e \<Rightarrow> Inl e
             | Inr h \<Rightarrow> Inr (ObjVal tag h, s')))"
| "absolute_to_relative v s = Inr (v, s)"

section \<open>Adding and visiting objects\<close>

definition add_host_object :: "HostObject \<Rightarrow> Val host_fn" where
  "add_host_object hot s =
     (case index_to_handle (length (objects s)) False of
        Inl e \<Rightarrow> Inl e
      | Inr handle \<Rightarrow> Inr (ObjVal (tag_of hot) handle, s\<lparr>objects := objects s @ [hot]\<rparr>))"

definition visit_obj_untyped :: "u32 \<Rightarrow> (HostObject \<Rightarrow> host_error + 'a) \<Rightarrow> obj_host \<Rightarrow> host_error + 'a" where
  "visit_obj_untyped handle f s =
     (if is_relative_object_handle handle then Inl (HostErr SCE_Object InternalError)
      else if handle_to_index handle < length (objects s) then f (objects s ! handle_to_index handle)
      else Inl (HostErr SCE_Value InvalidInput))"

definition visit_obj ::
  "(HostObject \<Rightarrow> 'b option) \<Rightarrow> u32 \<Rightarrow> ('b \<Rightarrow> host_error + 'a) \<Rightarrow> obj_host \<Rightarrow> host_error + 'a" where
  "visit_obj try_extract obj f =
     visit_obj_untyped obj (\<lambda>hobj. case try_extract hobj of
        None \<Rightarrow> Inl (HostErr SCE_Object InternalError)
      | Some hot \<Rightarrow> f hot)"

fun as_vec :: "HostObject \<Rightarrow> Val list option" where
  "as_vec (HVec v) = Some v"
| "as_vec _ = None"

fun as_map :: "HostObject \<Rightarrow> (Val \<times> Val) list option" where
  "as_map (HMap m) = Some m"
| "as_map _ = None"

fun as_bytes :: "HostObject \<Rightarrow> bytes option" where
  "as_bytes (HBytes b) = Some b"
| "as_bytes _ = None"

fun as_string :: "HostObject \<Rightarrow> bytes option" where
  "as_string (HString b) = Some b"
| "as_string _ = None"

fun as_symbol :: "HostObject \<Rightarrow> bytes option" where
  "as_symbol (HSymbol b) = Some b"
| "as_symbol _ = None"

definition check_obj_integrity :: "Tag \<Rightarrow> u32 \<Rightarrow> obj_host \<Rightarrow> host_error + unit" where
  "check_obj_integrity tag handle =
     visit_obj_untyped handle (\<lambda>hobj. if tag_of hobj = tag then Inr () else Inl (HostErr SCE_Value InvalidInput))"

definition check_val :: "common \<Rightarrow> Val \<Rightarrow> obj_host \<Rightarrow> host_error + unit" where
  "check_val X v s = check_val_integrity X (objects s) v"

fun check_vals :: "common \<Rightarrow> Val list \<Rightarrow> obj_host \<Rightarrow> host_error + unit" where
  "check_vals X [] s = Inr ()"
| "check_vals X (v # vs) s = (case check_val X v s of Inl e \<Rightarrow> Inl e | Inr _ \<Rightarrow> check_vals X vs s)"

text \<open>A query over every element of a list, in order; the loop of \<open>collect\<close> over results.\<close>

fun map_query :: "('a \<Rightarrow> ('s, 'e, 'b) query) \<Rightarrow> 'a list \<Rightarrow> ('s, 'e, 'b list) query" where
  "map_query f [] s = Inr ([], s)"
| "map_query f (x # xs) s =
     (case f x s of
        Inl e \<Rightarrow> Inl e
      | Inr (y, s') \<Rightarrow>
          (case map_query f xs s' of Inl e \<Rightarrow> Inl e | Inr (ys, s'') \<Rightarrow> Inr (y # ys, s'')))"

section \<open>Metered vectors\<close>

definition VEC_OOB :: host_error where
  "VEC_OOB = HostErr SCE_Object IndexBounds"

definition mv_from_vec :: "'a list \<Rightarrow> host_error + 'a list" where
  "mv_from_vec v = (if length v > U32_MAX then Inl VEC_OOB else Inr v)"

definition mv_from_exact_iter :: "'a list \<Rightarrow> host_error + 'a list" where
  "mv_from_exact_iter it = (if length it > U32_MAX then Inl VEC_OOB else mv_from_vec it)"

definition mv_set :: "nat \<Rightarrow> 'a \<Rightarrow> 'a list \<Rightarrow> host_error + 'a list" where
  "mv_set index x v = (if index < length v then Inr (v[index := x]) else Inl VEC_OOB)"

definition mv_get :: "nat \<Rightarrow> 'a list \<Rightarrow> host_error + 'a" where
  "mv_get index v = (if index < length v then Inr (v ! index) else Inl VEC_OOB)"

definition mv_push_front :: "'a \<Rightarrow> 'a list \<Rightarrow> host_error + 'a list" where
  "mv_push_front x v = (if length v = U32_MAX then Inl VEC_OOB else mv_from_exact_iter ([x] @ v))"

definition mv_pop_front :: "'a list \<Rightarrow> host_error + 'a list" where
  "mv_pop_front v = (if v = [] then Inl VEC_OOB else mv_from_exact_iter (drop 1 v))"

definition mv_push_back :: "'a \<Rightarrow> 'a list \<Rightarrow> host_error + 'a list" where
  "mv_push_back x v = (if length v = U32_MAX then Inl VEC_OOB else mv_from_exact_iter (v @ [x]))"

definition mv_add_or_err :: "nat \<Rightarrow> nat \<Rightarrow> host_error + nat" where
  "mv_add_or_err x y =
     (case checked_add_u64 x y of
        None \<Rightarrow> Inl VEC_OOB
      | Some sz \<Rightarrow> if sz > U32_MAX then Inl VEC_OOB else Inr sz)"

definition mv_sub_or_err :: "nat \<Rightarrow> nat \<Rightarrow> host_error + nat" where
  "mv_sub_or_err x y = (if y \<le> x then Inr (x - y) else Inl VEC_OOB)"

definition mv_pop_back :: "'a list \<Rightarrow> host_error + 'a list" where
  "mv_pop_back v =
     (if v = [] then Inl VEC_OOB
      else case mv_sub_or_err (length v) 1 of
        Inl e \<Rightarrow> Inl e
      | Inr count \<Rightarrow> mv_from_exact_iter (take count v))"

definition mv_remove :: "nat \<Rightarrow> 'a list \<Rightarrow> host_error + 'a list" where
  "mv_remove idx v =
     (if idx \<ge> length v \<or> idx = U64_MAX - 1 then Inl VEC_OOB
      else case mv_add_or_err idx 1 of
        Inl e \<Rightarrow> Inl e
      | Inr skip \<Rightarrow> mv_from_exact_iter (take idx v @ drop skip v))"

definition mv_front :: "'a list \<Rightarrow> host_error + 'a" where
  "mv_front v = (case v of [] \<Rightarrow> Inl VEC_OOB | x # _ \<Rightarrow> Inr x)"

definition mv_back :: "'a list \<Rightarrow> host_error + 'a" where
  "mv_back v = (if v = [] then Inl VEC_OOB else Inr (last v))"

definition mv_insert :: "nat \<Rightarrow> 'a \<Rightarrow> 'a list \<Rightarrow> host_error + 'a list" where
  "mv_insert index x v =
     (if length v = U32_MAX then Inl VEC_OOB
      else if index > length v then Inl VEC_OOB
      else if index = length v then mv_push_back x v
      else if index = 0 then mv_push_front x v
      else mv_from_exact_iter (take index v @ [x] @ drop index v))"

definition mv_append :: "'a list \<Rightarrow> 'a list \<Rightarrow> host_error + 'a list" where
  "mv_append v w =
     (case mv_add_or_err (length v) (length w) of
        Inl e \<Rightarrow> Inl e
      | Inr _ \<Rightarrow> mv_from_exact_iter (v @ w))"

definition mv_slice :: "nat \<Rightarrow> nat \<Rightarrow> 'a list \<Rightarrow> host_error + 'a list" where
  "mv_slice a b v = (case get_range a b v of None \<Rightarrow> Inl VEC_OOB | Some xs \<Rightarrow> mv_from_exact_iter xs)"

fun mv_index_of :: "('a \<Rightarrow> host_error + Ordering) \<Rightarrow> (nat \<times> 'a) list \<Rightarrow> host_error + nat option" where
  "mv_index_of f [] = Inr None"
| "mv_index_of f ((i, x) # rest) =
     (case f x of
        Inl e \<Rightarrow> Inl e
      | Inr ord \<Rightarrow> if ord = Equal then Inr (Some i) else mv_index_of f rest)"

definition mv_first_index_of :: "('a \<Rightarrow> host_error + Ordering) \<Rightarrow> 'a list \<Rightarrow> host_error + nat option" where
  "mv_first_index_of f v = mv_index_of f (zip [0..<length v] v)"

definition mv_last_index_of :: "('a \<Rightarrow> host_error + Ordering) \<Rightarrow> 'a list \<Rightarrow> host_error + nat option" where
  "mv_last_index_of f v = mv_index_of f (rev (zip [0..<length v] v))"

text \<open>\<open>slice::binary_search_by\<close> with a comparison that may fail; a failure ends the search.\<close>

function bsearch_by :: "('a \<Rightarrow> host_error + Ordering) \<Rightarrow> 'a list \<Rightarrow> nat \<Rightarrow> nat \<Rightarrow> host_error + (nat + nat)" where
  "bsearch_by f xs left right =
     (if left < right then
        let mid = left + (right - left) div 2 in
        case f (xs ! mid) of
          Inl e \<Rightarrow> Inl e
        | Inr Equal \<Rightarrow> Inr (Inr mid)
        | Inr Less \<Rightarrow> bsearch_by f xs (mid + 1) right
        | Inr Greater \<Rightarrow> bsearch_by f xs left mid
      else Inr (Inl left))"
  by pat_completeness auto
termination
  by (relation "measure (\<lambda>(f, xs, left, right). right - left)") auto

declare bsearch_by.simps [simp del]

definition mv_binary_search_by :: "('a \<Rightarrow> host_error + Ordering) \<Rightarrow> 'a list \<Rightarrow> host_error + (nat + nat)" where
  "mv_binary_search_by f v = bsearch_by f v 0 (length v)"

section \<open>The vector functions\<close>

definition vec_new :: "Val host_fn" where
  "vec_new = add_host_object (HVec [])"

definition vec_put :: "u32 \<Rightarrow> u32 \<Rightarrow> Val \<Rightarrow> Val host_fn" where
  "vec_put v i x =
     try_read (visit_obj as_vec v (\<lambda>hv.
       case validate_index_lt_bound i (length hv) of Inl e \<Rightarrow> Inl e | Inr _ \<Rightarrow> mv_set i x hv))
     (\<lambda>vnew. add_host_object (HVec vnew))"

definition vec_get :: "u32 \<Rightarrow> u32 \<Rightarrow> Val host_fn" where
  "vec_get v i =
     try_read (visit_obj as_vec v (\<lambda>hv.
       case validate_index_lt_bound i (length hv) of Inl e \<Rightarrow> Inl e | Inr _ \<Rightarrow> mv_get i hv)) ret"

definition vec_del :: "u32 \<Rightarrow> u32 \<Rightarrow> Val host_fn" where
  "vec_del v i =
     try_read (visit_obj as_vec v (\<lambda>hv.
       case validate_index_lt_bound i (length hv) of Inl e \<Rightarrow> Inl e | Inr _ \<Rightarrow> mv_remove i hv))
     (\<lambda>vnew. add_host_object (HVec vnew))"

definition vec_len :: "u32 \<Rightarrow> Val host_fn" where
  "vec_len v = try_read (visit_obj as_vec v (\<lambda>hv. Inr (length hv))) (\<lambda>len. try_read (\<lambda>_. usize_to_u32val len) ret)"

definition vec_push_front :: "u32 \<Rightarrow> Val \<Rightarrow> Val host_fn" where
  "vec_push_front v x = try_read (visit_obj as_vec v (mv_push_front x)) (\<lambda>vnew. add_host_object (HVec vnew))"

definition vec_pop_front :: "u32 \<Rightarrow> Val host_fn" where
  "vec_pop_front v = try_read (visit_obj as_vec v mv_pop_front) (\<lambda>vnew. add_host_object (HVec vnew))"

definition vec_push_back :: "u32 \<Rightarrow> Val \<Rightarrow> Val host_fn" where
  "vec_push_back v x = try_read (visit_obj as_vec v (mv_push_back x)) (\<lambda>vnew. add_host_object (HVec vnew))"

definition vec_pop_back :: "u32 \<Rightarrow> Val host_fn" where
  "vec_pop_back v = try_read (visit_obj as_vec v mv_pop_back) (\<lambda>vnew. add_host_object (HVec vnew))"

definition vec_front :: "u32 \<Rightarrow> Val host_fn" where
  "vec_front v = try_read (visit_obj as_vec v mv_front) ret"

definition vec_back :: "u32 \<Rightarrow> Val host_fn" where
  "vec_back v = try_read (visit_obj as_vec v mv_back) ret"

definition vec_insert :: "u32 \<Rightarrow> u32 \<Rightarrow> Val \<Rightarrow> Val host_fn" where
  "vec_insert v i x =
     try_read (visit_obj as_vec v (\<lambda>hv.
       case validate_index_le_bound i (length hv) of Inl e \<Rightarrow> Inl e | Inr _ \<Rightarrow> mv_insert i x hv))
     (\<lambda>vnew. add_host_object (HVec vnew))"

text \<open>\<open>u32::MAX as usize - hv2.len()\<close> does not wrap: a vector has at most \<open>u32::MAX\<close> elements.\<close>

definition vec_append :: "u32 \<Rightarrow> u32 \<Rightarrow> Val host_fn" where
  "vec_append v1 v2 =
     try_read (\<lambda>s. visit_obj as_vec v1 (\<lambda>hv1. visit_obj as_vec v2 (\<lambda>hv2.
       if length hv1 > U32_MAX - length hv2 then Inl err_arith_overflow else mv_append hv1 hv2) s) s)
     (\<lambda>vnew. add_host_object (HVec vnew))"

definition vec_slice :: "u32 \<Rightarrow> u32 \<Rightarrow> u32 \<Rightarrow> Val host_fn" where
  "vec_slice v start stop =
     try_read (visit_obj as_vec v (\<lambda>hv.
       case valid_range_from_start_end_bound start stop (length hv) of
         Inl e \<Rightarrow> Inl e
       | Inr (a, b) \<Rightarrow> mv_slice a b hv))
     (\<lambda>vnew. add_host_object (HVec vnew))"

definition index_result :: "nat option \<Rightarrow> host_error + Val" where
  "index_result r = (case r of Some u \<Rightarrow> usize_to_u32val u | None \<Rightarrow> Inr VoidVal)"

definition vec_first_index_of :: "common \<Rightarrow> u32 \<Rightarrow> Val \<Rightarrow> Val host_fn" where
  "vec_first_index_of X v x =
     try_read (\<lambda>s. visit_obj as_vec v (\<lambda>hv.
       case mv_first_index_of (\<lambda>other. compare_val X (objects s) x other) hv of
         Inl e \<Rightarrow> Inl e
       | Inr r \<Rightarrow> index_result r) s) ret"

definition vec_last_index_of :: "common \<Rightarrow> u32 \<Rightarrow> Val \<Rightarrow> Val host_fn" where
  "vec_last_index_of X v x =
     try_read (\<lambda>s. visit_obj as_vec v (\<lambda>hv.
       case mv_last_index_of (\<lambda>other. compare_val X (objects s) x other) hv of
         Inl e \<Rightarrow> Inl e
       | Inr r \<Rightarrow> index_result r) s) ret"

definition vec_binary_search :: "common \<Rightarrow> u32 \<Rightarrow> Val \<Rightarrow> u64 host_fn" where
  "vec_binary_search X v x =
     try_read (\<lambda>s. visit_obj as_vec v (\<lambda>hv.
       case mv_binary_search_by (\<lambda>probe. compare_val X (objects s) probe x) hv of
         Inl e \<Rightarrow> Inl e
       | Inr res \<Rightarrow> u64_from_binary_search_result res) s) ret"

definition vec_new_from_slice :: "common \<Rightarrow> Val list \<Rightarrow> Val host_fn" where
  "vec_new_from_slice X vals =
     try_read (\<lambda>_. mv_from_exact_iter vals) (\<lambda>v.
     try_read (check_vals X v) (\<lambda>_. add_host_object (HVec v)))"

text \<open>The slice to fill is given by its length; its new content is the result.\<close>

definition vec_unpack_to_slice :: "u32 \<Rightarrow> nat \<Rightarrow> Val list host_fn" where
  "vec_unpack_to_slice v len =
     try_read (visit_obj as_vec v (\<lambda>hv.
       if length hv \<noteq> len then Inl (HostErr SCE_Object UnexpectedSize) else Inr hv)) ret"

section \<open>Linear memory\<close>

definition get_mem_fn_args :: "obj_host \<Rightarrow> host_error + bytes option" where
  "get_mem_fn_args s =
     (case cur_frame s of
        None \<Rightarrow> Inl (HostErr SCE_Context InternalError)
      | Some (ContractVM _ mem) \<Rightarrow> Inr mem
      | Some OtherFrame \<Rightarrow> Inl (HostErr SCE_WasmVm InternalError))"

definition get_memory :: "bytes option \<Rightarrow> host_error + bytes" where
  "get_memory m = (case m of Some mem \<Rightarrow> Inr mem | None \<Rightarrow> Inl (HostErr SCE_WasmVm MissingValue))"

definition set_memory :: "bytes \<Rightarrow> obj_host \<Rightarrow> obj_host" where
  "set_memory mem s =
     s\<lparr>cur_frame := map_option (\<lambda>f. case f of ContractVM t _ \<Rightarrow> ContractVM t (Some mem) | OtherFrame \<Rightarrow> OtherFrame) (cur_frame s)\<rparr>"

definition splice :: "nat \<Rightarrow> 'a list \<Rightarrow> 'a list \<Rightarrow> 'a list" where
  "splice pos bs xs = take pos xs @ bs @ drop (pos + length bs) xs"

fun to_le :: "nat \<Rightarrow> nat \<Rightarrow> bytes" where
  "to_le 0 x = []"
| "to_le (Suc n) x = (x mod 256) # to_le n (x div 256)"

fun from_le :: "bytes \<Rightarrow> nat" where
  "from_le [] = 0"
| "from_le (b # bs) = b + 256 * from_le bs"

text \<open>\<open>Memory::read\<close> and \<open>Memory::write\<close> of the machine check the bounds.\<close>

definition metered_vm_write_bytes_to_linear_memory :: "common \<Rightarrow> bytes option \<Rightarrow> u32 \<Rightarrow> bytes \<Rightarrow> host_error + bytes" where
  "metered_vm_write_bytes_to_linear_memory X m mem_pos buf =
     (case get_memory m of
        Inl e \<Rightarrow> Inl e
      | Inr mem \<Rightarrow>
          if mem_pos + length buf \<le> length mem then Inr (splice mem_pos buf mem) else Inl (memory_error X))"

definition metered_vm_read_bytes_from_linear_memory :: "common \<Rightarrow> bytes option \<Rightarrow> u32 \<Rightarrow> nat \<Rightarrow> host_error + bytes" where
  "metered_vm_read_bytes_from_linear_memory X m mem_pos len =
     (case get_memory m of
        Inl e \<Rightarrow> Inl e
      | Inr mem \<Rightarrow>
          (case get_range mem_pos (mem_pos + len) mem of None \<Rightarrow> Inl (memory_error X) | Some bs \<Rightarrow> Inr bs))"

text \<open>The end of \<open>n\<close> values of 8 bytes at a position.\<close>

definition vals_end :: "u32 \<Rightarrow> nat \<Rightarrow> host_error + u32" where
  "vals_end mem_pos n =
     (case usize_to_u32 n of
        Inl e \<Rightarrow> Inl e
      | Inr len \<Rightarrow>
          if len * 8 > U32_MAX then Inl err_arith_overflow
          else (case checked_add_u32 mem_pos (len * 8) of
                  None \<Rightarrow> Inl err_arith_overflow
                | Some mem_end \<Rightarrow> Inr mem_end))"

definition metered_vm_write_vals_to_linear_memory ::
  "bytes option \<Rightarrow> u32 \<Rightarrow> 'v list \<Rightarrow> ('v \<Rightarrow> bytes host_fn) \<Rightarrow> unit host_fn" where
  "metered_vm_write_vals_to_linear_memory m mem_pos buf to_le_bytes =
     try_read (\<lambda>_. vals_end mem_pos (length buf)) (\<lambda>mem_end.
     try_read (\<lambda>_. get_memory m) (\<lambda>mem.
     try_read (\<lambda>_. case get_range mem_pos mem_end mem of None \<Rightarrow> Inl err_oob_linear_memory | Some sl \<Rightarrow> Inr sl) (\<lambda>_.
     bindq (map_query to_le_bytes buf) (\<lambda>bss s. Inr ((), set_memory (splice mem_pos (concat bss) mem) s)))))"

fun chunks8 :: "nat \<Rightarrow> bytes \<Rightarrow> bytes list" where
  "chunks8 0 bs = []"
| "chunks8 (Suc n) bs = take 8 bs # chunks8 n (drop 8 bs)"

definition metered_vm_read_vals_from_linear_memory ::
  "bytes option \<Rightarrow> u32 \<Rightarrow> nat \<Rightarrow> (bytes \<Rightarrow> 'v host_fn) \<Rightarrow> 'v list host_fn" where
  "metered_vm_read_vals_from_linear_memory m mem_pos n from_le_bytes =
     try_read (\<lambda>_. vals_end mem_pos n) (\<lambda>mem_end.
     try_read (\<lambda>_. get_memory m) (\<lambda>mem.
     try_read (\<lambda>_. case get_range mem_pos mem_end mem of None \<Rightarrow> Inl err_oob_linear_memory | Some sl \<Rightarrow> Inr sl) (\<lambda>sl.
     map_query (\<lambda>src. if length src = 8 then from_le_bytes src else fail (HostErr SCE_Context InternalError)) (chunks8 n sl))))"

text \<open>The loop over slices stored in memory, 8 bytes (pointer, length) each; the results of the
  callback are collected.\<close>

fun scan_slices :: "bytes \<Rightarrow> u32 \<Rightarrow> nat \<Rightarrow> nat \<Rightarrow> (nat \<Rightarrow> bytes \<Rightarrow> 'a host_fn) \<Rightarrow> 'a list host_fn" where
  "scan_slices mem mem_pos i 0 callback s = Inr ([], s)"
| "scan_slices mem mem_pos i (Suc n) callback s =
     (case checked_add_u32 mem_pos 8 of
        None \<Rightarrow> Inl err_arith_overflow
      | Some next_pos \<Rightarrow>
          (case get_range mem_pos next_pos mem of
             None \<Rightarrow> Inl err_oob_linear_memory
           | Some slice_ref \<Rightarrow>
               if length slice_ref = 8 then
                 (case checked_add_u32 (from_le (take 4 slice_ref)) (from_le (drop 4 slice_ref)) of
                    None \<Rightarrow> Inl err_arith_overflow
                  | Some slice_end \<Rightarrow>
                      (case get_range (from_le (take 4 slice_ref)) slice_end mem of
                         None \<Rightarrow> Inl err_oob_linear_memory
                       | Some sl \<Rightarrow>
                           (case callback i sl s of
                              Inl e \<Rightarrow> Inl e
                            | Inr (r, s') \<Rightarrow>
                                (case scan_slices mem next_pos (i + 1) n callback s' of
                                   Inl e \<Rightarrow> Inl e
                                 | Inr (rs, s'') \<Rightarrow> Inr (r # rs, s'')))))
               else Inl (HostErr SCE_Context InternalError)))"

definition metered_vm_scan_slices_in_linear_memory ::
  "bytes option \<Rightarrow> u32 \<Rightarrow> nat \<Rightarrow> (nat \<Rightarrow> bytes \<Rightarrow> 'a host_fn) \<Rightarrow> 'a list host_fn" where
  "metered_vm_scan_slices_in_linear_memory m mem_pos num_slices callback =
     try_read (\<lambda>_. get_memory m) (\<lambda>mem. scan_slices mem mem_pos 0 num_slices callback)"

definition read_val :: "common \<Rightarrow> bytes \<Rightarrow> Val host_fn" where
  "read_val X buf = try_read (relative_to_absolute (from_payload X (from_le buf))) ret"

definition write_val :: "common \<Rightarrow> Val \<Rightarrow> bytes host_fn" where
  "write_val X v = bindq (absolute_to_relative v) (\<lambda>r. ret (to_le 8 (get_payload X r)))"

definition vec_new_from_linear_memory :: "common \<Rightarrow> u32 \<Rightarrow> u32 \<Rightarrow> Val host_fn" where
  "vec_new_from_linear_memory X vals_pos len =
     try_read get_mem_fn_args (\<lambda>m.
     bindq (metered_vm_read_vals_from_linear_memory m vals_pos len (read_val X)) (\<lambda>vals.
     try_read (check_vals X vals) (\<lambda>_.
     try_read (\<lambda>_. mv_from_vec vals) (\<lambda>v. add_host_object (HVec v)))))"

definition vec_unpack_to_linear_memory :: "common \<Rightarrow> u32 \<Rightarrow> u32 \<Rightarrow> u32 \<Rightarrow> Val host_fn" where
  "vec_unpack_to_linear_memory X v vals_pos len =
     try_read get_mem_fn_args (\<lambda>m.
     try_read (visit_obj as_vec v (\<lambda>hv.
       if length hv \<noteq> len then Inl (HostErr SCE_Object UnexpectedSize) else Inr hv)) (\<lambda>hv.
     bindq (metered_vm_write_vals_to_linear_memory m vals_pos hv (write_val X)) (\<lambda>_. ret VoidVal)))"

end
