(* ===== verification/Object_Functions.thy ===== *)
theory Object_Functions
  imports Host_Objects
begin

text \<open>
  The host functions on bytes, strings, symbols and maps: the modules \<open>buf\<close> and \<open>map\<close> of
  \<open>src/soroban-env-host-patch/src/host.rs\<close> with the shared routines of \<open>host/mem_helper.rs\<close> for
  objects that are slabs of bytes, and \<open>host/metered_map.rs\<close> at its use with values as keys,
  where a comparison looks into objects and may fail.
\<close>

section \<open>Slabs of bytes\<close>

datatype mem_kind = KBytes | KString | KSymbol

fun mem_extract :: "mem_kind \<Rightarrow> HostObject \<Rightarrow> bytes option" where
  "mem_extract KBytes = as_bytes"
| "mem_extract KString = as_string"
| "mem_extract KSymbol = as_symbol"

fun mem_inject :: "mem_kind \<Rightarrow> bytes \<Rightarrow> HostObject" where
  "mem_inject KBytes b = HBytes b"
| "mem_inject KString b = HString b"
| "mem_inject KSymbol b = HSymbol b"

text \<open>The bounded byte sequences of XDR: bytes and strings up to \<open>u32::MAX\<close>, symbols up to their limit.\<close>

definition bounded_bytes :: "common \<Rightarrow> nat \<Rightarrow> bytes \<Rightarrow> host_error + bytes" where
  "bounded_bytes X bound v = (if length v > bound then Inl (xdr_error X) else Inr v)"

definition scbytes_from_vec :: "common \<Rightarrow> bytes \<Rightarrow> host_error + bytes" where
  "scbytes_from_vec X v = bounded_bytes X U32_MAX v"

fun try_from_bytes :: "common \<Rightarrow> mem_kind \<Rightarrow> bytes \<Rightarrow> host_error + bytes" where
  "try_from_bytes X KSymbol bs =
     (if length bs > SCSYMBOL_LIMIT X then Inl (HostErr SCE_Value InvalidInput)
      else if \<exists>b\<in>set bs. \<not> validate_byte X b then Inl (HostErr SCE_Value InvalidInput)
      else bounded_bytes X (SCSYMBOL_LIMIT X) bs)"
| "try_from_bytes X _ bs = bounded_bytes X U32_MAX bs"

definition metered_copy_byte_slice :: "bytes \<Rightarrow> bytes \<Rightarrow> host_error + bytes" where
  "metered_copy_byte_slice dst src =
     (if length src \<noteq> length dst then Inl (HostErr SCE_Context InternalError) else Inr src)"

definition memobj_visit_and_copy_bytes_out ::
  "mem_kind \<Rightarrow> u32 \<Rightarrow> u32 \<Rightarrow> u32 \<Rightarrow> (bytes \<Rightarrow> host_error + 'a) \<Rightarrow> obj_host \<Rightarrow> host_error + 'a" where
  "memobj_visit_and_copy_bytes_out k obj obj_pos len copy_bytes_out =
     visit_obj (mem_extract k) obj (\<lambda>hob.
       case checked_add_u32 obj_pos len of
         None \<Rightarrow> Inl err_arith_overflow
       | Some obj_end \<Rightarrow>
           (case get_range obj_pos obj_end hob of
              None \<Rightarrow> Inl (HostErr SCE_Object IndexBounds)
            | Some obj_buf \<Rightarrow> copy_bytes_out obj_buf))"

text \<open>A Rust slice the function fills is given by its old content; the new content is the result.\<close>

definition memobj_copy_to_slice :: "mem_kind \<Rightarrow> u32 \<Rightarrow> u32 \<Rightarrow> bytes \<Rightarrow> bytes host_fn" where
  "memobj_copy_to_slice k obj obj_pos sl =
     try_read (\<lambda>_. usize_to_u32 (length sl)) (\<lambda>len.
     try_read (memobj_visit_and_copy_bytes_out k obj obj_pos len (\<lambda>obj_buf. metered_copy_byte_slice sl obj_buf)) ret)"

definition memobj_copy_to_linear_memory :: "common \<Rightarrow> mem_kind \<Rightarrow> u32 \<Rightarrow> u32 \<Rightarrow> u32 \<Rightarrow> u32 \<Rightarrow> unit host_fn" where
  "memobj_copy_to_linear_memory X k obj obj_pos lm_pos len =
     try_read get_mem_fn_args (\<lambda>m.
     try_read (memobj_visit_and_copy_bytes_out k obj obj_pos len
       (\<lambda>obj_buf. metered_vm_write_bytes_to_linear_memory X m lm_pos obj_buf))
     (\<lambda>mem s. Inr ((), set_memory mem s)))"

text \<open>The bytes that are copied in come from \<open>copy_bytes_in\<close>, applied to the old content of the range.\<close>

definition memobj_clone_resize_and_copy_bytes_in ::
  "common \<Rightarrow> mem_kind \<Rightarrow> u32 \<Rightarrow> u32 \<Rightarrow> u32 \<Rightarrow> (bytes \<Rightarrow> host_error + bytes) \<Rightarrow> Val host_fn" where
  "memobj_clone_resize_and_copy_bytes_in X k obj obj_pos len copy_bytes_in =
     try_read (visit_obj (mem_extract k) obj Inr) (\<lambda>hv.
     ok_or err_arith_overflow (\<lambda>_. checked_add_u32 obj_pos len) (\<lambda>obj_end.
     read (\<lambda>_. if length hv < obj_end then hv @ replicate (obj_end - length hv) 0 else hv) (\<lambda>obj_new.
     ok_or (HostErr SCE_Object IndexBounds) (\<lambda>_. get_range obj_pos obj_end obj_new) (\<lambda>obj_buf.
     try_read (\<lambda>_. copy_bytes_in obj_buf) (\<lambda>bs.
     try_read (\<lambda>_. try_from_bytes X k (splice obj_pos bs obj_new)) (\<lambda>v.
     add_host_object (mem_inject k v)))))))"

definition memobj_copy_from_slice :: "common \<Rightarrow> mem_kind \<Rightarrow> u32 \<Rightarrow> u32 \<Rightarrow> bytes \<Rightarrow> Val host_fn" where
  "memobj_copy_from_slice X k obj obj_pos sl =
     try_read (\<lambda>_. usize_to_u32 (length sl)) (\<lambda>len.
     memobj_clone_resize_and_copy_bytes_in X k obj obj_pos len (\<lambda>obj_buf. metered_copy_byte_slice obj_buf sl))"

definition memobj_copy_from_linear_memory :: "common \<Rightarrow> mem_kind \<Rightarrow> u32 \<Rightarrow> u32 \<Rightarrow> u32 \<Rightarrow> u32 \<Rightarrow> Val host_fn" where
  "memobj_copy_from_linear_memory X k obj obj_pos lm_pos len =
     try_read get_mem_fn_args (\<lambda>m.
     memobj_clone_resize_and_copy_bytes_in X k obj obj_pos len
       (\<lambda>obj_buf. metered_vm_read_bytes_from_linear_memory X m lm_pos (length obj_buf)))"

definition memobj_new_from_linear_memory :: "common \<Rightarrow> mem_kind \<Rightarrow> u32 \<Rightarrow> u32 \<Rightarrow> Val host_fn" where
  "memobj_new_from_linear_memory X k lm_pos len =
     try_read get_mem_fn_args (\<lambda>m.
     try_read (\<lambda>_. metered_vm_read_bytes_from_linear_memory X m lm_pos len) (\<lambda>vnew.
     try_read (\<lambda>_. try_from_bytes X k vnew) (\<lambda>v. add_host_object (mem_inject k v))))"

fun symbol_matches :: "common \<Rightarrow> bytes \<Rightarrow> Val \<Rightarrow> obj_host \<Rightarrow> host_error + bool" where
  "symbol_matches X s (SymbolSmall ss) h = Inr (ss = s)"
| "symbol_matches X s (ObjVal tag sobj) h =
     (if tag = SymbolObject then visit_obj as_symbol sobj (\<lambda>scsym. Inr (scsym = s)) h
      else Inl (conversion_error X))"
| "symbol_matches X s _ h = Inl (conversion_error X)"

definition check_symbol_matches :: "common \<Rightarrow> bytes \<Rightarrow> Val \<Rightarrow> obj_host \<Rightarrow> host_error + unit" where
  "check_symbol_matches X s sy h =
     (case symbol_matches X s sy h of
        Inl e \<Rightarrow> Inl e
      | Inr b \<Rightarrow> if b then Inr () else Inl (HostErr SCE_Value InvalidInput))"

section \<open>Bytes, strings and symbols\<close>

definition string_copy_to_linear_memory :: "common \<Rightarrow> u32 \<Rightarrow> u32 \<Rightarrow> u32 \<Rightarrow> u32 \<Rightarrow> Val host_fn" where
  "string_copy_to_linear_memory X s s_pos lm_pos len =
     bindq (memobj_copy_to_linear_memory X KString s s_pos lm_pos len) (\<lambda>_. ret VoidVal)"

definition symbol_copy_to_linear_memory :: "common \<Rightarrow> u32 \<Rightarrow> u32 \<Rightarrow> u32 \<Rightarrow> u32 \<Rightarrow> Val host_fn" where
  "symbol_copy_to_linear_memory X s s_pos lm_pos len =
     bindq (memobj_copy_to_linear_memory X KSymbol s s_pos lm_pos len) (\<lambda>_. ret VoidVal)"

definition bytes_copy_to_linear_memory :: "common \<Rightarrow> u32 \<Rightarrow> u32 \<Rightarrow> u32 \<Rightarrow> u32 \<Rightarrow> Val host_fn" where
  "bytes_copy_to_linear_memory X b b_pos lm_pos len =
     bindq (memobj_copy_to_linear_memory X KBytes b b_pos lm_pos len) (\<lambda>_. ret VoidVal)"

definition bytes_copy_from_linear_memory :: "common \<Rightarrow> u32 \<Rightarrow> u32 \<Rightarrow> u32 \<Rightarrow> u32 \<Rightarrow> Val host_fn" where
  "bytes_copy_from_linear_memory X b b_pos lm_pos len = memobj_copy_from_linear_memory X KBytes b b_pos lm_pos len"

definition bytes_new_from_linear_memory :: "common \<Rightarrow> u32 \<Rightarrow> u32 \<Rightarrow> Val host_fn" where
  "bytes_new_from_linear_memory X lm_pos len = memobj_new_from_linear_memory X KBytes lm_pos len"

definition string_new_from_linear_memory :: "common \<Rightarrow> u32 \<Rightarrow> u32 \<Rightarrow> Val host_fn" where
  "string_new_from_linear_memory X lm_pos len = memobj_new_from_linear_memory X KString lm_pos len"

definition symbol_new_from_linear_memory :: "common \<Rightarrow> u32 \<Rightarrow> u32 \<Rightarrow> Val host_fn" where
  "symbol_new_from_linear_memory X lm_pos len = memobj_new_from_linear_memory X KSymbol lm_pos len"

text \<open>Every slice is compared; the first match counts.\<close>

fun first_true :: "nat \<Rightarrow> bool list \<Rightarrow> nat option" where
  "first_true i [] = None"
| "first_true i (b # bs) = (if b then Some i else first_true (i + 1) bs)"

definition symbol_index_in_linear_memory :: "common \<Rightarrow> Val \<Rightarrow> u32 \<Rightarrow> u32 \<Rightarrow> Val host_fn" where
  "symbol_index_in_linear_memory X sy lm_pos len =
     try_read get_mem_fn_args (\<lambda>m.
     bindq (metered_vm_scan_slices_in_linear_memory m lm_pos len (\<lambda>i sl. try_read (symbol_matches X sl sy) ret)) (\<lambda>bs.
     case first_true 0 bs of
       None \<Rightarrow> fail (HostErr SCE_Value MissingValue)
     | Some idx \<Rightarrow> try_read (\<lambda>_. usize_to_u32val idx) ret))"

definition symbol_index_in_strs :: "common \<Rightarrow> Val \<Rightarrow> bytes list \<Rightarrow> Val host_fn" where
  "symbol_index_in_strs X sy slices =
     bindq (map_query (\<lambda>sl. try_read (symbol_matches X sl sy) ret) slices) (\<lambda>bs.
     case first_true 0 bs of
       None \<Rightarrow> fail (HostErr SCE_Value InvalidInput)
     | Some idx \<Rightarrow> try_read (\<lambda>_. usize_to_u32val idx) ret)"

definition bytes_new :: "common \<Rightarrow> Val host_fn" where
  "bytes_new X = try_read (\<lambda>_. scbytes_from_vec X []) (\<lambda>b. add_host_object (HBytes b))"

definition bytes_put :: "common \<Rightarrow> u32 \<Rightarrow> u32 \<Rightarrow> u32 \<Rightarrow> Val host_fn" where
  "bytes_put X b i u =
     try_read (\<lambda>_. u8_from_u32val_input u) (\<lambda>u8.
     try_read (visit_obj as_bytes b (\<lambda>hv.
       if i < length hv then scbytes_from_vec X (hv[i := u8]) else Inl (HostErr SCE_Object IndexBounds)))
     (\<lambda>vnew. add_host_object (HBytes vnew)))"

definition bytes_get :: "u32 \<Rightarrow> u32 \<Rightarrow> Val host_fn" where
  "bytes_get b i =
     try_read (visit_obj as_bytes b (\<lambda>hv.
       if i < length hv then Inr (U32Val (hv ! i)) else Inl (HostErr SCE_Object IndexBounds))) ret"

text \<open>\<open>len > i\<close> has been verified when the number of moved bytes is computed.\<close>

definition bytes_del :: "common \<Rightarrow> u32 \<Rightarrow> u32 \<Rightarrow> Val host_fn" where
  "bytes_del X b i =
     try_read (visit_obj as_bytes b (\<lambda>hv.
       case validate_index_lt_bound i (length hv) of
         Inl e \<Rightarrow> Inl e
       | Inr _ \<Rightarrow>
           if length hv < i then Inl (HostErr SCE_Context InternalError)
           else scbytes_from_vec X (take i hv @ drop (i + 1) hv)))
     (\<lambda>vnew. add_host_object (HBytes vnew))"

definition bytes_len :: "u32 \<Rightarrow> Val host_fn" where
  "bytes_len b = try_read (visit_obj as_bytes b (\<lambda>hv. Inr (length hv))) (\<lambda>len. try_read (\<lambda>_. usize_to_u32val len) ret)"

definition string_len :: "u32 \<Rightarrow> Val host_fn" where
  "string_len b = try_read (visit_obj as_string b (\<lambda>hv. Inr (length hv))) (\<lambda>len. try_read (\<lambda>_. usize_to_u32val len) ret)"

definition symbol_len :: "u32 \<Rightarrow> Val host_fn" where
  "symbol_len b = try_read (visit_obj as_symbol b (\<lambda>hv. Inr (length hv))) (\<lambda>len. try_read (\<lambda>_. usize_to_u32val len) ret)"

definition bytes_push :: "common \<Rightarrow> u32 \<Rightarrow> u32 \<Rightarrow> Val host_fn" where
  "bytes_push X b u =
     try_read (\<lambda>_. u8_from_u32val_input u) (\<lambda>u8.
     try_read (visit_obj as_bytes b (\<lambda>hv.
       case validate_usize_sum_fits_in_u32 (length hv) 1 of
         Inl e \<Rightarrow> Inl e
       | Inr len \<Rightarrow> scbytes_from_vec X (hv @ [u8])))
     (\<lambda>vnew. add_host_object (HBytes vnew)))"

definition bytes_pop :: "common \<Rightarrow> u32 \<Rightarrow> Val host_fn" where
  "bytes_pop X b =
     try_read (visit_obj as_bytes b (\<lambda>hv.
       if hv = [] then Inl (HostErr SCE_Object IndexBounds) else scbytes_from_vec X (butlast hv)))
     (\<lambda>vnew. add_host_object (HBytes vnew))"

definition bytes_front :: "u32 \<Rightarrow> Val host_fn" where
  "bytes_front b =
     try_read (visit_obj as_bytes b (\<lambda>hv.
       case hv of [] \<Rightarrow> Inl (HostErr SCE_Object IndexBounds) | u # _ \<Rightarrow> Inr (U32Val u))) ret"

definition bytes_back :: "u32 \<Rightarrow> Val host_fn" where
  "bytes_back b =
     try_read (visit_obj as_bytes b (\<lambda>hv.
       if hv = [] then Inl (HostErr SCE_Object IndexBounds) else Inr (U32Val (last hv)))) ret"

definition bytes_insert :: "common \<Rightarrow> u32 \<Rightarrow> u32 \<Rightarrow> u32 \<Rightarrow> Val host_fn" where
  "bytes_insert X b i u =
     try_read (\<lambda>_. u8_from_u32val_input u) (\<lambda>u8.
     try_read (visit_obj as_bytes b (\<lambda>hv.
       case validate_index_le_bound i (length hv) of
         Inl e \<Rightarrow> Inl e
       | Inr _ \<Rightarrow>
           (case validate_usize_sum_fits_in_u32 (length hv) 1 of
              Inl e \<Rightarrow> Inl e
            | Inr len \<Rightarrow> scbytes_from_vec X (take i hv @ [u8] @ drop i hv))))
     (\<lambda>vnew. add_host_object (HBytes vnew)))"

definition bytes_append :: "common \<Rightarrow> u32 \<Rightarrow> u32 \<Rightarrow> Val host_fn" where
  "bytes_append X b1 b2 =
     try_read (\<lambda>s. visit_obj as_bytes b1 (\<lambda>sb1. visit_obj as_bytes b2 (\<lambda>sb2.
       case validate_usize_sum_fits_in_u32 (length sb1) (length sb2) of
         Inl e \<Rightarrow> Inl e
       | Inr len \<Rightarrow> Inr (sb1 @ sb2)) s) s)
     (\<lambda>vnew. try_read (\<lambda>_. scbytes_from_vec X vnew) (\<lambda>b. add_host_object (HBytes b)))"

definition bytes_slice :: "common \<Rightarrow> u32 \<Rightarrow> u32 \<Rightarrow> u32 \<Rightarrow> Val host_fn" where
  "bytes_slice X b start stop =
     try_read (visit_obj as_bytes b (\<lambda>hv.
       case valid_range_from_start_end_bound start stop (length hv) of
         Inl e \<Rightarrow> Inl e
       | Inr (a, z) \<Rightarrow> (case get_range a z hv of None \<Rightarrow> Inl err_oob_object_index | Some bs \<Rightarrow> Inr bs)))
     (\<lambda>vnew. try_read (\<lambda>_. scbytes_from_vec X vnew) (\<lambda>v. add_host_object (HBytes v)))"

text \<open>The counterparts for contracts that run without the machine; a Rust slice is a list of bytes.\<close>

definition bytes_copy_from_slice :: "common \<Rightarrow> u32 \<Rightarrow> u32 \<Rightarrow> bytes \<Rightarrow> Val host_fn" where
  "bytes_copy_from_slice X b b_pos sl = memobj_copy_from_slice X KBytes b b_pos sl"

definition bytes_copy_to_slice :: "u32 \<Rightarrow> u32 \<Rightarrow> bytes \<Rightarrow> bytes host_fn" where
  "bytes_copy_to_slice b b_pos sl = memobj_copy_to_slice KBytes b b_pos sl"

definition string_copy_to_slice :: "u32 \<Rightarrow> u32 \<Rightarrow> bytes \<Rightarrow> bytes host_fn" where
  "string_copy_to_slice b b_pos sl = memobj_copy_to_slice KString b b_pos sl"

definition symbol_copy_to_slice :: "u32 \<Rightarrow> u32 \<Rightarrow> bytes \<Rightarrow> bytes host_fn" where
  "symbol_copy_to_slice s b_pos sl = memobj_copy_to_slice KSymbol s b_pos sl"

definition bytes_new_from_slice :: "common \<Rightarrow> bytes \<Rightarrow> Val host_fn" where
  "bytes_new_from_slice X m = try_read (\<lambda>_. scbytes_from_vec X m) (\<lambda>b. add_host_object (HBytes b))"

definition string_new_from_slice :: "common \<Rightarrow> bytes \<Rightarrow> Val host_fn" where
  "string_new_from_slice X s = try_read (\<lambda>_. bounded_bytes X U32_MAX s) (\<lambda>b. add_host_object (HString b))"

definition symbol_new_from_slice :: "common \<Rightarrow> bytes \<Rightarrow> Val host_fn" where
  "symbol_new_from_slice X s =
     and_then (reject (\<lambda>_. \<exists>b\<in>set s. \<not> validate_byte X b) (HostErr SCE_Value InvalidInput))
     (try_read (\<lambda>_. bounded_bytes X (SCSYMBOL_LIMIT X) s) (\<lambda>b. add_host_object (HSymbol b)))"

section \<open>Maps keyed by values\<close>

text \<open>The functions of \<open>MeteredOrdMap\<close> with a comparison that may fail; \<open>Metered_Map\<close> has them for
  keys with a total order.\<close>

type_synonym 'k compare = "'k \<Rightarrow> 'k \<Rightarrow> host_error + Ordering"

fun hm_check_windows :: "'k compare \<Rightarrow> ('k \<times> 'v) list \<Rightarrow> host_error + unit" where
  "hm_check_windows cmp (a # b # xs) =
     (case cmp (fst a) (fst b) of
        Inl e \<Rightarrow> Inl e
      | Inr ord \<Rightarrow> if ord = Less then hm_check_windows cmp (b # xs) else Inl (HostErr SCE_Object InvalidInput))"
| "hm_check_windows cmp _ = Inr ()"

definition hm_from_map :: "'k compare \<Rightarrow> ('k \<times> 'v) list \<Rightarrow> host_error + ('k \<times> 'v) list" where
  "hm_from_map cmp m =
     (if length m > U32_MAX then Inl MAP_OOB
      else case hm_check_windows cmp m of Inl e \<Rightarrow> Inl e | Inr _ \<Rightarrow> Inr m)"

definition hm_from_exact_iter :: "'k compare \<Rightarrow> ('k \<times> 'v) list \<Rightarrow> host_error + ('k \<times> 'v) list" where
  "hm_from_exact_iter cmp it = (if length it > U32_MAX then Inl MAP_OOB else hm_from_map cmp it)"

definition hm_find :: "'k compare \<Rightarrow> ('k \<times> 'v) list \<Rightarrow> 'k \<Rightarrow> host_error + (nat + nat)" where
  "hm_find cmp m key = bsearch_by (\<lambda>probe. cmp (fst probe) key) m 0 (length m)"

definition hm_insert :: "'k compare \<Rightarrow> 'k \<Rightarrow> 'v \<Rightarrow> ('k \<times> 'v) list \<Rightarrow> host_error + ('k \<times> 'v) list" where
  "hm_insert cmp key v m =
     (case hm_find cmp m key of
        Inl e \<Rightarrow> Inl e
      | Inr (Inr replace_pos) \<Rightarrow>
          if replace_pos = U64_MAX - 1 then Inl MAP_OOB
          else hm_from_exact_iter cmp (take replace_pos m @ [(key, v)] @ drop (replace_pos + 1) m)
      | Inr (Inl insert_pos) \<Rightarrow>
          if length m = U32_MAX then Inl MAP_OOB
          else hm_from_exact_iter cmp (take insert_pos m @ [(key, v)] @ drop insert_pos m))"

definition hm_get :: "'k compare \<Rightarrow> 'k \<Rightarrow> ('k \<times> 'v) list \<Rightarrow> host_error + 'v option" where
  "hm_get cmp key m =
     (case hm_find cmp m key of
        Inl e \<Rightarrow> Inl e
      | Inr (Inr found) \<Rightarrow>
          if found < length m then Inr (Some (snd (m ! found))) else Inl (HostErr SCE_Object InternalError)
      | Inr (Inl _) \<Rightarrow> Inr None)"

definition hm_remove :: "'k compare \<Rightarrow> 'k \<Rightarrow> ('k \<times> 'v) list \<Rightarrow> host_error + (('k \<times> 'v) list \<times> 'v) option" where
  "hm_remove cmp key m =
     (case hm_find cmp m key of
        Inl e \<Rightarrow> Inl e
      | Inr (Inr found) \<Rightarrow>
          (case hm_from_exact_iter cmp (if found > 0 then take found m @ drop (found + 1) m else drop 1 m) of
             Inl e \<Rightarrow> Inl e
           | Inr new \<Rightarrow>
               if found < length m then Inr (Some (new, snd (m ! found))) else Inl (HostErr SCE_Object InternalError))
      | Inr (Inl _) \<Rightarrow> Inr None)"

definition hm_contains_key :: "'k compare \<Rightarrow> 'k \<Rightarrow> ('k \<times> 'v) list \<Rightarrow> host_error + bool" where
  "hm_contains_key cmp key m =
     (case hm_find cmp m key of Inl e \<Rightarrow> Inl e | Inr (Inr _) \<Rightarrow> Inr True | Inr (Inl _) \<Rightarrow> Inr False)"

definition map_new :: "Val host_fn" where
  "map_new = add_host_object (HMap [])"

definition map_put :: "common \<Rightarrow> u32 \<Rightarrow> Val \<Rightarrow> Val \<Rightarrow> Val host_fn" where
  "map_put X m k v =
     try_read (\<lambda>s. visit_obj as_map m (hm_insert (compare_val X (objects s)) k v) s)
     (\<lambda>mnew. add_host_object (HMap mnew))"

definition map_get :: "common \<Rightarrow> u32 \<Rightarrow> Val \<Rightarrow> Val host_fn" where
  "map_get X m k =
     try_read (\<lambda>s. visit_obj as_map m (\<lambda>hm.
       case hm_get (compare_val X (objects s)) k hm of
         Inl e \<Rightarrow> Inl e
       | Inr None \<Rightarrow> Inl (HostErr SCE_Object MissingValue)
       | Inr (Some v) \<Rightarrow> Inr v) s) ret"

definition map_del :: "common \<Rightarrow> u32 \<Rightarrow> Val \<Rightarrow> Val host_fn" where
  "map_del X m k =
     try_read (\<lambda>s. visit_obj as_map m (hm_remove (compare_val X (objects s)) k) s) (\<lambda>r.
     case r of
       Some (mnew, _) \<Rightarrow> add_host_object (HMap mnew)
     | None \<Rightarrow> fail (HostErr SCE_Object MissingValue))"

definition map_len :: "u32 \<Rightarrow> Val host_fn" where
  "map_len m = try_read (visit_obj as_map m (\<lambda>hm. Inr (length hm))) (\<lambda>len. try_read (\<lambda>_. usize_to_u32val len) ret)"

definition map_has :: "common \<Rightarrow> u32 \<Rightarrow> Val \<Rightarrow> Val host_fn" where
  "map_has X m k =
     try_read (\<lambda>s. visit_obj as_map m (hm_contains_key (compare_val X (objects s)) k) s) (\<lambda>b. ret (BoolVal b))"

definition map_key_by_pos :: "u32 \<Rightarrow> u32 \<Rightarrow> Val host_fn" where
  "map_key_by_pos m i = try_read (visit_obj as_map m (mm_get_at_index i)) (\<lambda>r. ret (fst r))"

definition map_val_by_pos :: "u32 \<Rightarrow> u32 \<Rightarrow> Val host_fn" where
  "map_val_by_pos m i = try_read (visit_obj as_map m (mm_get_at_index i)) (\<lambda>r. ret (snd r))"

definition map_keys :: "u32 \<Rightarrow> Val host_fn" where
  "map_keys m =
     try_read (visit_obj as_map m (\<lambda>hm. mv_from_exact_iter (mm_keys hm))) (\<lambda>v. add_host_object (HVec v))"

definition map_values :: "u32 \<Rightarrow> Val host_fn" where
  "map_values m =
     try_read (visit_obj as_map m (\<lambda>hm. mv_from_exact_iter (mm_values hm))) (\<lambda>v. add_host_object (HVec v))"

text \<open>\<open>to_valid_host_val\<close> on a symbol: a small value where the conversion of \<open>soroban-env-common\<close>
  gives one, else a new object (\<open>to_host_obj\<close>); an error becomes an internal one.\<close>

definition symbol_to_valid_host_val :: "common \<Rightarrow> bytes \<Rightarrow> Val host_fn" where
  "symbol_to_valid_host_val X bs s =
     (if small_symbol X bs then Inr (SymbolSmall bs, s)
      else case try_read (\<lambda>_. try_from_bytes X KSymbol bs) (\<lambda>b. add_host_object (HSymbol b)) s of
        Inl e \<Rightarrow> Inl (case e of HostErr SCE_Budget _ \<Rightarrow> e | _ \<Rightarrow> HostErr SCE_Value InternalError)
      | Inr r \<Rightarrow> Inr r)"

definition map_new_from_linear_memory :: "common \<Rightarrow> u32 \<Rightarrow> u32 \<Rightarrow> u32 \<Rightarrow> Val host_fn" where
  "map_new_from_linear_memory X keys_pos vals_pos len =
     try_read get_mem_fn_args (\<lambda>vm.
     bindq (metered_vm_scan_slices_in_linear_memory vm keys_pos len (\<lambda>n sl.
       try_read (\<lambda>_. bounded_bytes X (SCSYMBOL_LIMIT X) sl) (symbol_to_valid_host_val X))) (\<lambda>key_syms.
     bindq (metered_vm_read_vals_from_linear_memory vm vals_pos len (read_val X)) (\<lambda>vals.
     try_read (check_vals X vals) (\<lambda>_.
     try_read (\<lambda>s. hm_from_exact_iter (compare_val X (objects s)) (zip key_syms vals)) (\<lambda>m.
     add_host_object (HMap m))))))"

definition map_unpack_to_linear_memory :: "common \<Rightarrow> u32 \<Rightarrow> u32 \<Rightarrow> u32 \<Rightarrow> u32 \<Rightarrow> Val host_fn" where
  "map_unpack_to_linear_memory X m keys_pos vals_pos len =
     try_read get_mem_fn_args (\<lambda>vm.
     try_read (visit_obj as_map m (\<lambda>mapobj.
       if length mapobj \<noteq> len then Inl (HostErr SCE_Object UnexpectedSize) else Inr mapobj)) (\<lambda>mapobj.
     bindq (metered_vm_scan_slices_in_linear_memory vm keys_pos len (\<lambda>n sl.
       try_read (\<lambda>_. mm_get_at_index n mapobj) (\<lambda>entry. try_read (check_symbol_matches X sl (fst entry)) ret))) (\<lambda>_.
     bindq (metered_vm_write_vals_to_linear_memory vm vals_pos mapobj (\<lambda>pair. write_val X (snd pair))) (\<lambda>_.
     ret VoidVal))))"

definition symbol_try_from_str :: "common \<Rightarrow> bytes \<Rightarrow> Val host_fn" where
  "symbol_try_from_str X key_str =
     (if small_symbol X key_str then ret (SymbolSmall key_str) else symbol_new_from_slice X key_str)"

definition map_new_from_slices :: "common \<Rightarrow> bytes list \<Rightarrow> Val list \<Rightarrow> Val host_fn" where
  "map_new_from_slices X keys vals =
     and_then (reject (\<lambda>_. length keys \<noteq> length vals) (HostErr SCE_Object UnexpectedSize))
     (bindq (map_query (\<lambda>(key_str, val).
        bindq (symbol_try_from_str X key_str) (\<lambda>sy. try_read (check_val X val) (\<lambda>_. ret (sy, val)))) (zip keys vals)) (\<lambda>map_vec.
      try_read (\<lambda>s. hm_from_map (compare_val X (objects s)) map_vec) (\<lambda>m. add_host_object (HMap m))))"

definition map_unpack_to_slice :: "common \<Rightarrow> u32 \<Rightarrow> bytes list \<Rightarrow> nat \<Rightarrow> Val list host_fn" where
  "map_unpack_to_slice X m keys n =
     and_then (reject (\<lambda>_. length keys \<noteq> n) (HostErr SCE_Object UnexpectedSize))
     (try_read (visit_obj as_map m (\<lambda>hm.
        if length hm \<noteq> n then Inl (HostErr SCE_Object UnexpectedSize) else Inr hm)) (\<lambda>hm.
      bindq (map_query (\<lambda>(ik, mk). try_read (check_symbol_matches X ik mk) ret) (zip keys (mm_keys hm))) (\<lambda>_.
      ret (mm_values hm))))"

end
