(* ===== verification/Object_Safety.thy ===== *)
theory Object_Safety
  imports Guest_Boundary
begin

text \<open>
  A logic for what a guest can see and do through \<open>dispatch\<close>.  Two hosts are \<^emph>\<open>alike\<close> on a set of objects if they
  agree on these objects, on the running frame and on the number of objects, every reference in
  these objects and in the frame's table is well formed and leads into the set.  A function is
  \<^emph>\<open>safe\<close> if on hosts that are alike it has the same outcome, leaves them alike, and does not end in
  an internal error.  The theory has the rules for the combinators, reading,
  memory and comparisons; \<open>Guest_Isolation\<close> applies them to the functions.
\<close>

section \<open>Well-formed references and hosts that are alike\<close>

definition ref_ok :: "HostObject list \<Rightarrow> Tag \<Rightarrow> u32 \<Rightarrow> bool" where
  "ref_ok os tag h \<longleftrightarrow>
     \<not> is_relative_object_handle h \<and> handle_to_index h < length os \<and> tag_of (os ! handle_to_index h) = tag"

definition val_ok :: "nat set \<Rightarrow> HostObject list \<Rightarrow> Val \<Rightarrow> bool" where
  "val_ok R os v \<longleftrightarrow> (\<forall>tag h. v = ObjVal tag h \<longrightarrow> ref_ok os tag h \<and> handle_to_index h \<in> R)"

fun obj_vals :: "HostObject \<Rightarrow> Val list" where
  "obj_vals (HVec vs) = vs"
| "obj_vals (HMap m) = map fst m @ map snd m"
| "obj_vals _ = []"

definition alike :: "nat set \<Rightarrow> obj_host \<Rightarrow> obj_host \<Rightarrow> bool" where
  "alike R s t \<longleftrightarrow>
     length (objects s) = length (objects t)
     \<and> (\<exists>table m. cur_frame s = Some (ContractVM table m) \<and> cur_frame t = Some (ContractVM table m) \<and> (\<forall>r\<in>set table. val_ok R (objects s) (ObjVal (fst r) (snd r))))
     \<and> (\<forall>i\<in>R. i < length (objects s) \<longrightarrow>
          objects s ! i = objects t ! i \<and> (\<forall>v\<in>set (obj_vals (objects s ! i)). val_ok R (objects s) v))
     \<and> {i. length (objects s) \<le> i} \<subseteq> R"

definition table_of :: "obj_host \<Rightarrow> (Tag \<times> u32) list" where
  "table_of s = (case cur_frame s of Some (ContractVM table _) \<Rightarrow> table | _ \<Rightarrow> [])"

text \<open>Room for \<open>n\<close> more objects and table entries, and that at most \<open>n\<close> were added.\<close>

definition room :: "nat \<Rightarrow> obj_host \<Rightarrow> bool" where
  "room n s \<longleftrightarrow> length (objects s) + n \<le> 2 ^ 31 \<and> length (table_of s) + n \<le> 2 ^ 31"

definition grown :: "nat \<Rightarrow> obj_host \<Rightarrow> obj_host \<Rightarrow> bool" where
  "grown n s s' \<longleftrightarrow>
     (\<exists>new. objects s' = objects s @ new) \<and> length (objects s') \<le> length (objects s) + n
     \<and> length (table_of s') \<le> length (table_of s) + n"

definition internal_error :: "host_error \<Rightarrow> bool" where
  "internal_error e \<longleftrightarrow> e \<in> {HostErr SCE_Object InternalError, HostErr SCE_Context InternalError, HostErr SCE_WasmVm InternalError}"

lemma internal_error_simps [simp]:
  "\<not> internal_error (ContractErr n)"
  "internal_error (HostErr t c) \<longleftrightarrow> c = InternalError \<and> t \<in> {SCE_Object, SCE_Context, SCE_WasmVm}"
  by (auto simp: internal_error_def)

lemma concat_map_Nil [simp]: "concat (map (\<lambda>_. []) xs) = []"
  by (induction xs) simp_all

definition vals_ok :: "nat set \<Rightarrow> obj_host \<Rightarrow> Val list \<Rightarrow> bool" where
  "vals_ok R s vs \<longleftrightarrow> (\<forall>v\<in>set vs. val_ok R (objects s) v)"

text \<open>The judgements: a function that adds at most \<open>n\<close> objects and is given the values \<open>vs\<close> returns
  results whose values are \<open>out r\<close>; a reader does the same without changing the state.\<close>

definition safe :: "nat set \<Rightarrow> nat \<Rightarrow> Val list \<Rightarrow> ('r \<Rightarrow> Val list) \<Rightarrow> 'r host_fn \<Rightarrow> bool" where
  "safe R n vs out q \<longleftrightarrow>
     (\<forall>s t. alike R s t \<and> room n s \<and> vals_ok R s vs \<longrightarrow>
        (\<exists>e. q s = Inl e \<and> q t = Inl e \<and> \<not> internal_error e)
        \<or> (\<exists>r s' t'. q s = Inr (r, s') \<and> q t = Inr (r, t') \<and> alike R s' t' \<and> grown n s s' \<and> vals_ok R s' (out r)))"

definition safe_read :: "nat set \<Rightarrow> Val list \<Rightarrow> ('r \<Rightarrow> Val list) \<Rightarrow> (obj_host \<Rightarrow> host_error + 'r) \<Rightarrow> bool" where
  "safe_read R vs out g \<longleftrightarrow>
     (\<forall>s t. alike R s t \<and> vals_ok R s vs \<longrightarrow>
        g s = g t \<and> (\<forall>e. g s = Inl e \<longrightarrow> \<not> internal_error e) \<and> (\<forall>r. g s = Inr r \<longrightarrow> vals_ok R s (out r)))"

named_theorems safe_rules "safety, one rule per combinator and per function"

lemma val_ok_extend: "val_ok R os v \<Longrightarrow> val_ok R (os @ new) v"
  by (auto simp: val_ok_def ref_ok_def nth_append)

lemma vals_ok_simps [simp]:
  "vals_ok R s []" "vals_ok R s (v # vs) \<longleftrightarrow> val_ok R (objects s) v \<and> vals_ok R s vs"
  "vals_ok R s (vs @ ws) \<longleftrightarrow> vals_ok R s vs \<and> vals_ok R s ws"
  by (auto simp: vals_ok_def)

lemma vals_ok_subset: "vals_ok R s vs \<Longrightarrow> set ws \<subseteq> set vs \<Longrightarrow> vals_ok R s ws"
  by (auto simp: vals_ok_def)

text \<open>Only references can be ill formed.\<close>

definition refs :: "Val list \<Rightarrow> Val set" where
  "refs vs = {v \<in> set vs. \<exists>tag h. v = ObjVal tag h}"

lemma refs_subset: "refs vs \<subseteq> set vs"
  by (auto simp: refs_def)

lemma vals_ok_refs: "vals_ok R s vs \<Longrightarrow> refs ws \<subseteq> set vs \<Longrightarrow> vals_ok R s ws"
  by (fastforce simp: vals_ok_def val_ok_def refs_def)

lemma grown_vals_ok: "grown n s s' \<Longrightarrow> vals_ok R s vs \<Longrightarrow> vals_ok R s' vs"
  by (auto simp: grown_def vals_ok_def val_ok_extend)

lemma grown_trans: "grown m s s' \<Longrightarrow> grown n s' s'' \<Longrightarrow> grown (m + n) s s''"
  by (auto simp: grown_def)

lemma grown_room: "room (m + n) s \<Longrightarrow> grown m s s' \<Longrightarrow> room n s'"
  by (auto simp: grown_def room_def)

lemma grown_refl [simp]: "grown n s s"
  by (simp add: grown_def)

lemma alike_objects:
  assumes "alike R s t" and "i \<in> R" and "i < length (objects s)"
  shows "objects t ! i = objects s ! i" and "vals_ok R s (obj_vals (objects s ! i))"
  using assms by (auto simp: alike_def vals_ok_def)

lemma alike_length: "alike R s t \<Longrightarrow> length (objects t) = length (objects s)"
  by (simp add: alike_def)

lemma alike_frame:
  assumes "alike R s t"
  obtains table m where "cur_frame s = Some (ContractVM table m)" and "cur_frame t = Some (ContractVM table m)"
    and "\<forall>r\<in>set table. val_ok R (objects s) (ObjVal (fst r) (snd r))"
  using assms unfolding alike_def by blast

lemma safe_readD:
  assumes "safe_read R vs out g" and "alike R s t" and "vals_ok R s vs"
  shows "g t = g s" and "g s = Inl e \<Longrightarrow> \<not> internal_error e" and "g s = Inr r \<Longrightarrow> vals_ok R s (out r)"
  using assms unfolding safe_read_def by metis+

lemma safe_readI:
  assumes "\<And>s t. alike R s t \<Longrightarrow> vals_ok R s vs \<Longrightarrow>
      g s = g t \<and> (\<forall>e. g s = Inl e \<longrightarrow> \<not> internal_error e) \<and> (\<forall>r. g s = Inr r \<longrightarrow> vals_ok R s (out r))"
  shows "safe_read R vs out g"
  using assms unfolding safe_read_def by blast

subsection \<open>The combinators\<close>

lemma safe_weaken: "safe R m ws out q \<Longrightarrow> m \<le> n \<Longrightarrow> set ws \<subseteq> set vs \<Longrightarrow> safe R n vs out q"
proof -
  have "room m s" if "room n s" and "m \<le> n" for s
    using that by (auto simp: room_def)
  moreover have "grown n s s'" if "grown m s s'" and "m \<le> n" for s s'
    using that by (auto simp: grown_def)
  ultimately show "safe R m ws out q \<Longrightarrow> m \<le> n \<Longrightarrow> set ws \<subseteq> set vs \<Longrightarrow> safe R n vs out q"
    unfolding safe_def by (meson vals_ok_subset)
qed

lemma safe_ret: "refs (out a) \<subseteq> set vs \<Longrightarrow> safe R n vs out (ret a)"
  by (auto simp: safe_def ret_def intro: vals_ok_refs)

lemma safe_fail: "\<not> internal_error e \<Longrightarrow> safe R n vs out (fail e)"
  by (simp add: safe_def fail_def)

lemma safe_bindq:
  assumes q: "safe R m vs mid q" and k: "\<And>a s s'. q s = Inr (a, s') \<Longrightarrow> safe R n (mid a @ vs) out (k a)"
  shows "safe R (m + n) vs out (bindq q k)"
  unfolding safe_def
proof (intro allI impI)
  fix s t
  assume st: "alike R s t \<and> room (m + n) s \<and> vals_ok R s vs"
  then have "room m s"
    by (simp add: room_def)
  then consider e where "q s = Inl e" "q t = Inl e" "\<not> internal_error e"
    | a s' t' where "q s = Inr (a, s')" "q t = Inr (a, t')" "alike R s' t'" "grown m s s'" "vals_ok R s' (mid a)"
    using q st unfolding safe_def by blast
  then show "(\<exists>e. bindq q k s = Inl e \<and> bindq q k t = Inl e \<and> \<not> internal_error e)
    \<or> (\<exists>r s' t'. bindq q k s = Inr (r, s') \<and> bindq q k t = Inr (r, t') \<and> alike R s' t' \<and> grown (m + n) s s' \<and> vals_ok R s' (out r))"
  proof cases
    case 1
    then show ?thesis by (simp add: bindq_def)
  next
    case (2 a s' t')
    then have "alike R s' t' \<and> room n s' \<and> vals_ok R s' (mid a @ vs)"
      using st by (auto intro: grown_vals_ok grown_room [of m n])
    with k [OF 2(1)] consider e where "k a s' = Inl e" "k a t' = Inl e" "\<not> internal_error e"
      | r u w where "k a s' = Inr (r, u)" "k a t' = Inr (r, w)" "alike R u w" "grown n s' u" "vals_ok R u (out r)"
      unfolding safe_def by blast
    then show ?thesis
    proof cases
      case 1
      with 2 show ?thesis by (simp add: bindq_def)
    next
      case (2 r u w)
      then have "grown (m + n) s u"
        using \<open>grown m s s'\<close> by (simp add: grown_trans)
      with 2 \<open>q s = _\<close> \<open>q t = _\<close> show ?thesis by (simp add: bindq_def)
    qed
  qed
qed

lemma safe_bindq0:
  "safe R n vs mid q \<Longrightarrow> (\<And>a. safe R 0 (mid a @ vs) out (k a)) \<Longrightarrow> safe R n vs out (bindq q k)"
  using safe_bindq [of R n vs mid q 0 out k] by simp

lemma safe_bindq_read:
  "safe R 0 vs mid q \<Longrightarrow> (\<And>a. safe R n (mid a @ vs) out (k a)) \<Longrightarrow> safe R n vs out (bindq q k)"
  using safe_bindq [of R 0 vs mid q n out k] by simp

lemma safe_try_read_that:
  assumes g: "safe_read R vs mid g" and k: "\<And>a s. g s = Inr a \<Longrightarrow> safe R n (mid a @ vs) out (k a)"
  shows "safe R n vs out (try_read g k)"
  unfolding safe_def
proof (intro allI impI)
  fix s t
  assume st: "alike R s t \<and> room n s \<and> vals_ok R s vs"
  then have gs: "g t = g s" "\<And>e. g s = Inl e \<Longrightarrow> \<not> internal_error e" "\<And>r. g s = Inr r \<Longrightarrow> vals_ok R s (mid r)"
    using g by (auto simp: safe_read_def)
  show "(\<exists>e. try_read g k s = Inl e \<and> try_read g k t = Inl e \<and> \<not> internal_error e)
    \<or> (\<exists>r s' t'. try_read g k s = Inr (r, s') \<and> try_read g k t = Inr (r, t') \<and> alike R s' t' \<and> grown n s s' \<and> vals_ok R s' (out r))"
  proof (cases "g s")
    case (Inl e)
    then show ?thesis using gs by (simp add: try_read_def)
  next
    case (Inr a)
    then have "vals_ok R s (mid a @ vs)"
      using gs st by simp
    with k [OF Inr] st Inr gs(1) show ?thesis
      unfolding safe_def by (simp add: try_read_def)
  qed
qed

lemmas safe_try_read = safe_try_read_that

lemma safe_ok_or:
  assumes "\<not> internal_error e" and "\<And>a. safe R n vs out (k a)"
  shows "safe R n vs out (ok_or e (\<lambda>_. x) k)"
  using assms by (cases x) (auto simp: safe_def ok_or_def)

lemma safe_read_const: "(\<And>a. safe R n vs out (k a)) \<Longrightarrow> safe R n vs out (read (\<lambda>_. x) k)"
  by (simp add: safe_def read_def)

lemma safe_reject:
  assumes "\<not> internal_error e" and "safe R n vs out k"
  shows "safe R n vs out (and_then (reject (\<lambda>_. b) e) k)"
  using assms by (cases b) (auto simp: safe_def and_then_def reject_def)

lemma safe_map_query:
  assumes "\<And>x. x \<in> set xs \<Longrightarrow> safe R n vs out (f x)"
  shows "safe R (n * length xs) vs (\<lambda>ys. concat (map out ys)) (map_query f xs)"
  using assms
proof (induction xs)
  case Nil
  then show ?case by (auto simp: safe_def)
next
  case (Cons x xs)
  have eq: "map_query f (x # xs) = bindq (f x) (\<lambda>y. bindq (map_query f xs) (\<lambda>ys. ret (y # ys)))"
    by (rule ext) (auto simp: bindq_def ret_def split: sum.splits)
  have "safe R (n * length xs + 0) (out y @ vs) (\<lambda>ys. concat (map out ys)) (bindq (map_query f xs) (\<lambda>ys. ret (y # ys)))" for y
    by (rule safe_bindq [where mid = "\<lambda>ys. concat (map out ys)"])
      (use Cons in \<open>auto intro: safe_weaken [of R "n * length xs" vs] safe_ret simp: refs_def\<close>)
  then have "safe R (n + n * length xs) vs (\<lambda>ys. concat (map out ys)) (map_query f (x # xs))"
    unfolding eq by (intro safe_bindq [of R n vs out] Cons.prems) auto
  then show ?case
    by (simp del: map_query.simps)
qed

subsection \<open>Reading\<close>

lemma safe_read_pure:
  assumes "\<And>e. x = Inl e \<Longrightarrow> \<not> internal_error e" and "\<And>r. x = Inr r \<Longrightarrow> refs (out r) \<subseteq> set vs"
  shows "safe_read R vs out (\<lambda>_. x)"
  using assms by (auto simp: safe_read_def intro: vals_ok_refs)

lemma safe_read_bind:
  assumes "safe_read R vs mid g" and "\<And>a. safe_read R (mid a @ vs) out (\<lambda>s. k s a)"
  shows "safe_read R vs out (\<lambda>s. case g s of Inl e \<Rightarrow> Inl e | Inr a \<Rightarrow> k s a)"
proof (rule safe_readI)
  fix s t
  assume st: "alike R s t" "vals_ok R s vs"
  show "(case g s of Inl e \<Rightarrow> Inl e | Inr a \<Rightarrow> k s a) = (case g t of Inl e \<Rightarrow> Inl e | Inr a \<Rightarrow> k t a)
    \<and> (\<forall>e. (case g s of Inl e \<Rightarrow> Inl e | Inr a \<Rightarrow> k s a) = Inl e \<longrightarrow> \<not> internal_error e)
    \<and> (\<forall>r. (case g s of Inl e \<Rightarrow> Inl e | Inr a \<Rightarrow> k s a) = Inr r \<longrightarrow> vals_ok R s (out r))"
  proof (cases "g s")
    case (Inl e)
    then show ?thesis using safe_readD(1,2) [OF assms(1) st] by simp
  next
    case (Inr a)
    then have "vals_ok R s (mid a @ vs)"
      using safe_readD(3) [OF assms(1) st] st(2) by simp
    from safe_readD [OF assms(2) st(1) this] show ?thesis
      using Inr safe_readD(1) [OF assms(1) st] by simp
  qed
qed

definition extracts :: "(HostObject \<Rightarrow> 'b option) \<Rightarrow> Tag \<Rightarrow> ('b \<Rightarrow> Val list) \<Rightarrow> bool" where
  "extracts try_extract tag content \<longleftrightarrow>
     (\<forall>ho. tag_of ho = tag \<longrightarrow> (\<exists>b. try_extract ho = Some b \<and> obj_vals ho = content b))"

lemma extractors:
  "extracts as_vec VecObject (\<lambda>v. v)" "extracts as_map MapObject (\<lambda>m. map fst m @ map snd m)"
  "extracts as_bytes BytesObject (\<lambda>_. [])" "extracts as_string StringObject (\<lambda>_. [])"
  "extracts as_symbol SymbolObject (\<lambda>_. [])"
proof -
  have "\<exists>b. as_vec ho = Some b \<and> obj_vals ho = b" if "tag_of ho = VecObject" for ho
    using that by (cases ho) auto
  moreover have "\<exists>b. as_map ho = Some b \<and> obj_vals ho = map fst b @ map snd b" if "tag_of ho = MapObject" for ho
    using that by (cases ho) auto
  moreover have "\<exists>b. as_bytes ho = Some b \<and> obj_vals ho = []" if "tag_of ho = BytesObject" for ho
    using that by (cases ho) auto
  moreover have "\<exists>b. as_string ho = Some b \<and> obj_vals ho = []" if "tag_of ho = StringObject" for ho
    using that by (cases ho) auto
  moreover have "\<exists>b. as_symbol ho = Some b \<and> obj_vals ho = []" if "tag_of ho = SymbolObject" for ho
    using that by (cases ho) auto
  ultimately show "extracts as_vec VecObject (\<lambda>v. v)" "extracts as_map MapObject (\<lambda>m. map fst m @ map snd m)"
    "extracts as_bytes BytesObject (\<lambda>_. [])" "extracts as_string StringObject (\<lambda>_. [])"
    "extracts as_symbol SymbolObject (\<lambda>_. [])"
    by (simp_all add: extracts_def)
qed

lemma safe_visit:
  assumes ex: "extracts try_extract tag content" and h: "ObjVal tag h \<in> set vs"
    and f: "\<And>b. safe_read R (content b @ vs) out (\<lambda>s. f s b)"
  shows "safe_read R vs out (\<lambda>s. visit_obj try_extract h (f s) s)"
proof (rule safe_readI)
  fix s t
  assume st: "alike R s t" "vals_ok R s vs"
  let ?i = "handle_to_index h"
  have ok: "ref_ok (objects s) tag h" "?i \<in> R"
    using st h by (auto simp: vals_ok_def val_ok_def)
  then have i: "?i < length (objects s)" "\<not> is_relative_object_handle h" "tag_of (objects s ! ?i) = tag"
    by (simp_all add: ref_ok_def)
  obtain b where b: "try_extract (objects s ! ?i) = Some b" "obj_vals (objects s ! ?i) = content b"
    using ex i(3) by (auto simp: extracts_def)
  have vs: "vals_ok R s (content b @ vs)"
    using alike_objects [of R s t ?i] st ok(2) i(1) b by simp
  have "visit_obj try_extract h (f s) s = f s b" "visit_obj try_extract h (f t) t = f t b"
    using alike_objects [of R s t ?i] alike_length [of R s t] st ok(2) i b
    by (simp_all add: visit_obj_def visit_obj_untyped_def)
  then show "visit_obj try_extract h (f s) s = visit_obj try_extract h (f t) t
      \<and> (\<forall>e. visit_obj try_extract h (f s) s = Inl e \<longrightarrow> \<not> internal_error e)
      \<and> (\<forall>r. visit_obj try_extract h (f s) s = Inr r \<longrightarrow> vals_ok R s (out r))"
    using safe_readD [OF f [of b] st(1) vs] by simp
qed

lemma safe_relative_to_absolute: "safe_read R vs (\<lambda>v. [v]) (relative_to_absolute v)"
proof (cases v)
  case (ObjVal tag h)
  show ?thesis
  proof (rule safe_readI)
    fix s t
    assume st: "alike R s t" "vals_ok R s vs"
    obtain table m where "cur_frame s = Some (ContractVM table m)" "cur_frame t = Some (ContractVM table m)"
        "\<forall>r\<in>set table. val_ok R (objects s) (ObjVal (fst r) (snd r))"
      using st(1) by (rule alike_frame)
    moreover from this(3) have "val_ok R (objects s) (ObjVal (fst (table ! i)) (snd (table ! i)))" if "i < length table" for i
      using that by simp
    ultimately show "relative_to_absolute v s = relative_to_absolute v t
        \<and> (\<forall>e. relative_to_absolute v s = Inl e \<longrightarrow> \<not> internal_error e)
        \<and> (\<forall>r. relative_to_absolute v s = Inr r \<longrightarrow> vals_ok R s [r])"
      by (auto simp: ObjVal with_current_frame_relative_object_table_def internal_error_def Let_def)
  qed
qed (auto simp: safe_read_def val_ok_def)

lemma handle_index:
  "i < 2 ^ 31 \<Longrightarrow> index_to_handle i False = Inr (i * 2 + 1)" "i < 2 ^ 31 \<Longrightarrow> index_to_handle i True = Inr (i * 2)"
  by (simp_all add: index_to_handle_def U32_MAX_def)

lemma safe_add_host_object:
  assumes "set (obj_vals ho) \<subseteq> set vs"
  shows "safe R 1 vs (\<lambda>v. [v]) (add_host_object ho)"
  unfolding safe_def
proof (intro allI impI disjI2)
  fix s t
  assume st: "alike R s t \<and> room 1 s \<and> vals_ok R s vs"
  let ?n = "length (objects s)"
  have n: "?n < 2 ^ 31" "length (objects t) = ?n" "?n \<in> R"
    using st by (auto simp: room_def alike_def)
  have "alike R (s\<lparr>objects := objects s @ [ho]\<rparr>) (t\<lparr>objects := objects t @ [ho]\<rparr>)"
    using st assms n(3) by (auto simp: alike_def nth_append vals_ok_def less_Suc_eq intro!: val_ok_extend)
  moreover have "val_ok R (objects s @ [ho]) (ObjVal (tag_of ho) (?n * 2 + 1))"
    using n(3) by (simp add: val_ok_def ref_ok_def is_relative_object_handle_def handle_to_index_def) presburger
  ultimately show "\<exists>r s' t'. add_host_object ho s = Inr (r, s') \<and> add_host_object ho t = Inr (r, t')
      \<and> alike R s' t' \<and> grown 1 s s' \<and> vals_ok R s' [r]"
    using n by (simp add: add_host_object_def handle_index grown_def table_of_def)
qed

lemma safe_absolute_to_relative:
  assumes "v \<in> set vs"
  shows "safe R 1 vs (\<lambda>_. []) (absolute_to_relative v)"
proof (cases v)
  case (ObjVal tag h)
  show ?thesis
    unfolding safe_def
  proof (intro allI impI disjI2)
    fix s t
    assume st: "alike R s t \<and> room 1 s \<and> vals_ok R s vs"
    then obtain table m where f: "cur_frame s = Some (ContractVM table m)" "cur_frame t = Some (ContractVM table m)"
        "\<forall>r\<in>set table. val_ok R (objects s) (ObjVal (fst r) (snd r))"
      using alike_frame by blast
    then have n: "length table < 2 ^ 31"
      using st by (simp add: room_def table_of_def)
    have v: "val_ok R (objects s) (ObjVal tag h)"
      using st assms ObjVal by (auto simp: vals_ok_def)
    have "alike R (set_table (table @ [(tag, h)]) s) (set_table (table @ [(tag, h)]) t)"
      using st f v by (auto simp: alike_def set_table_def)
    moreover have "\<not> is_relative_object_handle h"
      using v by (simp add: val_ok_def ref_ok_def)
    ultimately show "\<exists>r s' t'. absolute_to_relative v s = Inr (r, s') \<and> absolute_to_relative v t = Inr (r, t')
        \<and> alike R s' t' \<and> grown 1 s s' \<and> vals_ok R s' []"
      using f n by (simp add: ObjVal with_current_frame_relative_object_table_def handle_index grown_def set_table_def table_of_def)
  qed
qed (auto simp: safe_def)

lemma safe_get_mem_fn_args: "safe_read R vs (\<lambda>_. []) get_mem_fn_args"
  by (rule safe_readI, erule alike_frame) (simp add: get_mem_fn_args_def)

lemma safe_set_memory: "safe R n vs (\<lambda>_. []) (\<lambda>s. Inr ((), set_memory mem s))"
  by (auto simp: safe_def alike_def set_memory_def grown_def table_of_def)

section \<open>Comparisons\<close>

text \<open>Two comparisons that agree on some elements and fail without internal errors.\<close>

definition agree :: "('a \<Rightarrow> host_error + Ordering) \<Rightarrow> ('a \<Rightarrow> host_error + Ordering) \<Rightarrow> 'a set \<Rightarrow> bool" where
  "agree f g A \<longleftrightarrow> (\<forall>x\<in>A. g x = f x \<and> (\<forall>e. f x = Inl e \<longrightarrow> \<not> internal_error e))"

lemma index_of_agree:
  "agree f g (snd ` set ps) \<Longrightarrow> mv_index_of g ps = mv_index_of f ps \<and> (\<forall>e. mv_index_of f ps = Inl e \<longrightarrow> \<not> internal_error e)"
  by (induction f ps rule: mv_index_of.induct) (auto simp: agree_def split: sum.splits)

lemma bsearch_by_agree:
  assumes "agree f g (set xs)" and "right \<le> length xs"
  shows "bsearch_by g xs left right = bsearch_by f xs left right
    \<and> (\<forall>e. bsearch_by f xs left right = Inl e \<longrightarrow> \<not> internal_error e)
    \<and> (\<forall>i. bsearch_by f xs left right = Inr (Inr i) \<longrightarrow> i < length xs)"
  using assms
proof (induction f xs left right rule: bsearch_by.induct)
  case (1 f xs left right)
  show ?case
  proof (cases "left < right")
    case True
    let ?mid = "left + (right - left) div 2"
    have mid: "?mid < right" "?mid < length xs"
      using True 1(4) by auto
    then have eq: "g (xs ! ?mid) = f (xs ! ?mid)" "\<And>e. f (xs ! ?mid) = Inl e \<Longrightarrow> \<not> internal_error e"
      using 1(3) by (auto simp: agree_def)
    note unf = bsearch_by.simps [of f xs left right] bsearch_by.simps [of g xs left right] Let_def
    show ?thesis
    proof (cases "f (xs ! ?mid)")
      case (Inl e)
      then show ?thesis using True eq by (simp add: unf)
    next
      case (Inr ord)
      then show ?thesis
        using True eq mid 1(1) [OF True refl Inr] 1(2) [OF True refl Inr] 1(3,4) by (cases ord) (simp_all add: unf)
    qed
  qed (simp add: bsearch_by.simps [of _ xs left right])
qed

lemma windows_agree:
  assumes "\<And>a. a \<in> fst ` set m \<Longrightarrow> agree (cmp a) (cmp' a) (fst ` set m)"
  shows "hm_check_windows cmp' m = hm_check_windows cmp m \<and> (\<forall>e. hm_check_windows cmp m = Inl e \<longrightarrow> \<not> internal_error e)"
  using assms
proof (induction cmp m rule: hm_check_windows.induct)
  case (1 cmp a b xs)
  have "agree (cmp x) (cmp' x) (fst ` set (b # xs))" if "x \<in> fst ` set (b # xs)" for x
    using 1(2) [of x] that by (auto simp: agree_def)
  moreover have "cmp' (fst a) (fst b) = cmp (fst a) (fst b)" "\<And>e. cmp (fst a) (fst b) = Inl e \<Longrightarrow> \<not> internal_error e"
    using 1(2) [of "fst a"] by (auto simp: agree_def)
  ultimately show ?case
    using 1(1) by (auto simp: internal_error_def split: sum.splits)
qed simp_all

lemma from_exact_iter_agree:
  assumes "\<And>a. a \<in> fst ` set m \<Longrightarrow> agree (cmp a) (cmp' a) (fst ` set m)"
  shows "hm_from_exact_iter cmp' m = hm_from_exact_iter cmp m
    \<and> (\<forall>e. hm_from_exact_iter cmp m = Inl e \<longrightarrow> \<not> internal_error e) \<and> (\<forall>r. hm_from_exact_iter cmp m = Inr r \<longrightarrow> r = m)"
  using windows_agree [OF assms]
  by (auto simp: hm_from_exact_iter_def hm_from_map_def MAP_OOB_def internal_error_def split: sum.splits if_splits)

text \<open>Two comparisons of keys that agree on the keys of a map and one more key.\<close>

definition key_agree :: "'k compare \<Rightarrow> 'k compare \<Rightarrow> 'k \<Rightarrow> ('k \<times> 'v) list \<Rightarrow> bool" where
  "key_agree cmp cmp' k m \<longleftrightarrow> (\<forall>a\<in>insert k (fst ` set m). agree (cmp a) (cmp' a) (insert k (fst ` set m)))"

lemma find_agree:
  assumes "key_agree cmp cmp' k m"
  shows "hm_find cmp' m k = hm_find cmp m k \<and> (\<forall>e. hm_find cmp m k = Inl e \<longrightarrow> \<not> internal_error e)
    \<and> (\<forall>i. hm_find cmp m k = Inr (Inr i) \<longrightarrow> i < length m)"
  unfolding hm_find_def
  by (rule bsearch_by_agree) (use assms in \<open>auto simp: key_agree_def agree_def\<close>)

lemma iter_agree:
  assumes "key_agree cmp cmp' k m" and "set m' \<subseteq> insert (k, v) (set m)"
  shows "hm_from_exact_iter cmp' m' = hm_from_exact_iter cmp m'
    \<and> (\<forall>e. hm_from_exact_iter cmp m' = Inl e \<longrightarrow> \<not> internal_error e) \<and> (\<forall>r. hm_from_exact_iter cmp m' = Inr r \<longrightarrow> r = m')"
proof (rule from_exact_iter_agree)
  have keys: "fst ` set m' \<subseteq> insert k (fst ` set m)"
    using assms(2) by fastforce
  show "agree (cmp a) (cmp' a) (fst ` set m')" if "a \<in> fst ` set m'" for a
    using assms(1) keys that unfolding key_agree_def agree_def by blast
qed

lemma insert_agree:
  assumes "key_agree cmp cmp' k m"
  shows "hm_insert cmp' k v m = hm_insert cmp k v m \<and> (\<forall>e. hm_insert cmp k v m = Inl e \<longrightarrow> \<not> internal_error e)
    \<and> (\<forall>r. hm_insert cmp k v m = Inr r \<longrightarrow> set r \<subseteq> insert (k, v) (set m))"
proof -
  have sub: "set (take i m @ [(k, v)] @ drop j m) \<subseteq> insert (k, v) (set m)" for i j
    using set_take_subset [of i m] set_drop_subset [of j m] by auto
  have it: "hm_from_exact_iter cmp' (take i m @ [(k, v)] @ drop j m) = hm_from_exact_iter cmp (take i m @ [(k, v)] @ drop j m)"
      "hm_from_exact_iter cmp (take i m @ [(k, v)] @ drop j m) = Inl e \<Longrightarrow> \<not> internal_error e"
      "hm_from_exact_iter cmp (take i m @ [(k, v)] @ drop j m) = Inr r \<Longrightarrow> set r \<subseteq> insert (k, v) (set m)" for i j e r
    using iter_agree [OF assms sub [of i j]] sub [of i j] by auto
  have "\<not> internal_error MAP_OOB"
    by (simp add: MAP_OOB_def internal_error_def)
  then show ?thesis
    using find_agree [OF assms] it unfolding hm_insert_def by (simp split: sum.split)
qed

lemma get_agree:
  assumes "key_agree cmp cmp' k m"
  shows "hm_get cmp' k m = hm_get cmp k m \<and> (\<forall>e. hm_get cmp k m = Inl e \<longrightarrow> \<not> internal_error e)
    \<and> (\<forall>v. hm_get cmp k m = Inr (Some v) \<longrightarrow> v \<in> snd ` set m)"
  using find_agree [OF assms] by (auto simp: hm_get_def split: sum.splits)

lemma remove_agree:
  assumes "key_agree cmp cmp' k m"
  shows "hm_remove cmp' k m = hm_remove cmp k m \<and> (\<forall>e. hm_remove cmp k m = Inl e \<longrightarrow> \<not> internal_error e)
    \<and> (\<forall>r v. hm_remove cmp k m = Inr (Some (r, v)) \<longrightarrow> set r \<subseteq> set m)"
proof -
  define rest where "rest = (\<lambda>i. if i > 0 then take i m @ drop (i + 1) m else drop 1 m)"
  have sub: "set (rest i) \<subseteq> set m" for i
    using set_take_subset [of i m] set_drop_subset [of "i + 1" m] set_drop_subset [of 1 m] by (auto simp: rest_def)
  have it: "hm_from_exact_iter cmp' (rest i) = hm_from_exact_iter cmp (rest i)"
      "hm_from_exact_iter cmp (rest i) = Inl e \<Longrightarrow> \<not> internal_error e"
      "hm_from_exact_iter cmp (rest i) = Inr r \<Longrightarrow> set r \<subseteq> set m" for i e r
    using iter_agree [OF assms subset_trans [OF sub [of i] subset_insertI]] sub [of i] by simp_all
  have "hm_remove c k m =
      (case hm_find c m k of
         Inl e \<Rightarrow> Inl e
       | Inr (Inr found) \<Rightarrow>
           (case hm_from_exact_iter c (rest found) of
              Inl e \<Rightarrow> Inl e
            | Inr new \<Rightarrow>
                if found < length m then Inr (Some (new, snd (m ! found))) else Inl (HostErr SCE_Object InternalError))
       | Inr (Inl _) \<Rightarrow> Inr None)" for c
    unfolding hm_remove_def rest_def by (rule refl)
  then show ?thesis
    using find_agree [OF assms] it by (auto split: sum.splits if_splits)
qed

lemma contains_agree:
  assumes "key_agree cmp cmp' k m"
  shows "hm_contains_key cmp' k m = hm_contains_key cmp k m \<and> (\<forall>e. hm_contains_key cmp k m = Inl e \<longrightarrow> \<not> internal_error e)"
  using find_agree [OF assms] by (auto simp: hm_contains_key_def split: sum.splits)

section \<open>Patterns of the functions\<close>

lemma safe_visit_pure:
  assumes "extracts try_extract tag content" and "ObjVal tag h \<in> set vs"
    and "\<And>b e. f b = Inl e \<Longrightarrow> \<not> internal_error e"
    and "\<And>b r. f b = Inr r \<Longrightarrow> refs (out r) \<subseteq> set (content b) \<union> set vs"
  shows "safe_read R vs out (visit_obj try_extract h f)"
  by (rule safe_visit [OF assms(1,2)], rule safe_read_pure) (use assms(3,4) in auto)

lemma safe_make:
  assumes "safe_read R vs out g" and "\<And>r. set (obj_vals (mk r)) \<subseteq> set (out r) \<union> set vs"
  shows "safe R 1 vs (\<lambda>v. [v]) (try_read g (\<lambda>r. add_host_object (mk r)))"
  by (rule safe_try_read [OF assms(1)], rule safe_add_host_object) (use assms(2) in auto)

lemma safe_query: "safe_read R vs out g \<Longrightarrow> safe R 1 vs out (try_read g ret)"
  by (erule safe_try_read) (auto intro: safe_ret simp: refs_def)

lemma safe_try_pure:
  assumes "\<And>e. x = Inl e \<Longrightarrow> \<not> internal_error e" and "\<And>a. x = Inr a \<Longrightarrow> safe R n vs out (k a)"
  shows "safe R n vs out (try_read (\<lambda>_. x) k)"
  using assms by (cases x) (auto simp: safe_def try_read_def)

lemma safe_map_error:
  assumes q: "safe R n vs out q" and h: "\<And>e. \<not> internal_error (h e)"
  shows "safe R n vs out (\<lambda>s. case q s of Inl e \<Rightarrow> Inl (h e) | Inr r \<Rightarrow> Inr r)"
  unfolding safe_def
proof (intro allI impI)
  fix s t
  assume "alike R s t \<and> room n s \<and> vals_ok R s vs"
  with q consider e where "q s = Inl e" "q t = Inl e"
    | r s' t' where "q s = Inr (r, s')" "q t = Inr (r, t')" "alike R s' t'" "grown n s s'" "vals_ok R s' (out r)"
    unfolding safe_def by blast
  then show "(\<exists>e. (case q s of Inl e \<Rightarrow> Inl (h e) | Inr r \<Rightarrow> Inr r) = Inl e \<and> (case q t of Inl e \<Rightarrow> Inl (h e) | Inr r \<Rightarrow> Inr r) = Inl e \<and> \<not> internal_error e)
    \<or> (\<exists>r s' t'. (case q s of Inl e \<Rightarrow> Inl (h e) | Inr r \<Rightarrow> Inr r) = Inr (r, s') \<and> (case q t of Inl e \<Rightarrow> Inl (h e) | Inr r \<Rightarrow> Inr r) = Inr (r, t')
        \<and> alike R s' t' \<and> grown n s s' \<and> vals_ok R s' (out r))"
    using h by cases auto
qed

lemmas plain_errors =
  err_arith_overflow_def err_oob_linear_memory_def err_oob_object_index_def VEC_OOB_def MAP_OOB_def

lemmas index_defs =
  validate_index_lt_bound_def validate_index_le_bound_def valid_range_from_start_end_bound_def
  validate_usize_sum_fits_in_u32_def usize_to_u32_def usize_to_u32val_def u8_from_u32val_input_def
  u64_from_binary_search_result_def index_result_def

lemmas vector_defs =
  mv_from_vec_def mv_from_exact_iter_def mv_set_def mv_get_def mv_push_front_def mv_pop_front_def mv_push_back_def
  mv_add_or_err_def mv_sub_or_err_def mv_pop_back_def mv_remove_def mv_front_def mv_back_def mv_insert_def
  mv_append_def mv_slice_def get_range_def

lemma chunks8_length: "length bs = 8 * n \<Longrightarrow> c \<in> set (chunks8 n bs) \<Longrightarrow> length c = 8"
  by (induction n bs rule: chunks8.induct) auto

lemma get_range_length: "get_range a b xs = Some ys \<Longrightarrow> length ys = b - a"
  by (auto simp: get_range_def split: if_splits)

lemma vals_end_eq: "vals_end pos n = Inr mem_end \<Longrightarrow> mem_end = pos + n * 8"
  by (auto simp: vals_end_def usize_to_u32_def split: if_splits option.splits)

lemma plain_memory_errors:
  "vals_end pos n = Inl e \<Longrightarrow> \<not> internal_error e" "get_memory m = Inl e \<Longrightarrow> \<not> internal_error e"
  "(case x of None \<Rightarrow> Inl err_oob_linear_memory | Some sl \<Rightarrow> Inr sl) = Inl e \<Longrightarrow> \<not> internal_error e"
  by (auto simp: vals_end_def get_memory_def usize_to_u32_def plain_errors split: if_splits option.splits)

lemma safe_read_vals:
  assumes "\<And>bs. safe R 0 vs (\<lambda>v. [v]) (f bs)"
  shows "safe R 0 vs (\<lambda>ys. ys) (metered_vm_read_vals_from_linear_memory m pos n f)"
  unfolding metered_vm_read_vals_from_linear_memory_def
proof (intro safe_try_pure, goal_cases)
  case (4 mem_end mem sl)
  let ?q = "map_query (\<lambda>src. if length src = 8 then f src else fail (HostErr SCE_Context InternalError)) (chunks8 n sl)"
  from 4 have "length sl = 8 * n"
    by (auto dest!: get_range_length vals_end_eq split: option.splits)
  then have "safe R (0 * length (chunks8 n sl)) vs (\<lambda>ys. concat (map (\<lambda>v. [v]) ys)) ?q"
    by (intro safe_map_query) (simp add: chunks8_length assms)
  then show ?case
    by simp
qed (auto dest: plain_memory_errors)

lemma safe_write_vals:
  assumes "\<And>x. x \<in> set buf \<Longrightarrow> safe R 1 vs (\<lambda>_. []) (f x)"
  shows "safe R (length buf) vs (\<lambda>_. []) (metered_vm_write_vals_to_linear_memory m pos buf f)"
  unfolding metered_vm_write_vals_to_linear_memory_def
proof (intro safe_try_pure, goal_cases)
  case 4
  show ?case
    by (rule safe_bindq [of R "length buf" _ _ _ 0, simplified])
      (use safe_map_query [of buf R 1 vs "\<lambda>_. []" f, OF assms] in \<open>auto intro: safe_set_memory\<close>)
qed (auto dest: plain_memory_errors)

lemma safe_scan_slices:
  assumes "\<And>i sl. safe R n vs out (cb i sl)"
  shows "safe R (n * num) vs (\<lambda>rs. concat (map out rs)) (scan_slices mem pos i num cb)"
proof (induction num arbitrary: pos i)
  case 0
  then show ?case by (auto simp: safe_def)
next
  case (Suc num)
  have step: "safe R (n + n * num) vs (\<lambda>rs. concat (map out rs))
      (bindq (cb i sl) (\<lambda>r. bindq (scan_slices mem next (i + 1) num cb) (\<lambda>rs. ret (r # rs))))" for sl "next"
  proof (rule safe_bindq [OF assms])
    show "safe R (n * num) (out r @ vs) (\<lambda>rs. concat (map out rs)) (bindq (scan_slices mem next (i + 1) num cb) (\<lambda>rs. ret (r # rs)))" for r
      by (rule safe_bindq [of R "n * num" _ "\<lambda>rs. concat (map out rs)" _ 0, simplified])
        (auto intro: safe_weaken [OF Suc.IH] safe_ret simp: refs_def)
  qed
  have eq: "scan_slices mem pos i (Suc num) cb =
      (case checked_add_u32 pos 8 of None \<Rightarrow> fail err_arith_overflow
       | Some next \<Rightarrow> (case get_range pos next mem of None \<Rightarrow> fail err_oob_linear_memory
       | Some ref \<Rightarrow> (case checked_add_u32 (from_le (take 4 ref)) (from_le (drop 4 ref)) of None \<Rightarrow> fail err_arith_overflow
       | Some z \<Rightarrow> (case get_range (from_le (take 4 ref)) z mem of None \<Rightarrow> fail err_oob_linear_memory
       | Some sl \<Rightarrow> bindq (cb i sl) (\<lambda>r. bindq (scan_slices mem next (i + 1) num cb) (\<lambda>rs. ret (r # rs)))))))"
    by (rule ext)
      (auto simp: fail_def bindq_def ret_def checked_add_u32_def dest!: get_range_length split: option.split sum.split prod.split if_splits)
  show ?case
    unfolding eq using step by (auto simp: plain_errors intro!: safe_fail split: option.split)
qed

fun kind_tag :: "mem_kind \<Rightarrow> Tag" where
  "kind_tag KBytes = BytesObject"
| "kind_tag KString = StringObject"
| "kind_tag KSymbol = SymbolObject"

lemma mem_extracts: "extracts (mem_extract k) (kind_tag k) (\<lambda>_. [])"
  by (cases k) (simp_all add: extractors)

lemma mem_inject_vals [simp]: "obj_vals (mem_inject k b) = []"
  by (cases k) simp_all

text \<open>How many objects or table entries a call may add at most.\<close>

fun growth :: "host_function \<Rightarrow> Val list \<Rightarrow> nat" where
  "growth F_vec_unpack_to_linear_memory a = u32_arg a 2"
| "growth F_map_unpack_to_linear_memory a = u32_arg a 3"
| "growth F_map_new_from_linear_memory a = u32_arg a 2 + 1"
| "growth _ a = 1"

fun ret_vals :: "host_ret \<Rightarrow> Val list" where
  "ret_vals (RVal v) = [v]"
| "ret_vals (RU64 _) = []"

lemma safe_rval: "safe R n vs (\<lambda>v. [v]) q \<Longrightarrow> safe R n vs ret_vals (rval q)"
  unfolding rval_def by (erule safe_bindq0) (auto intro!: safe_ret simp: refs_def)

lemma typed_arg:
  assumes "list_all2 has_type ts a" and "i < length ts"
  shows "ts ! i = AObj tag \<Longrightarrow> ObjVal tag (obj_arg a i) \<in> set a" and "a ! i \<in> set a"
proof -
  have i: "has_type (ts ! i) (a ! i)" "a ! i \<in> set a"
    using assms by (auto simp: list_all2_conv_all_nth)
  then show "a ! i \<in> set a" by simp
  show "ObjVal tag (obj_arg a i) \<in> set a" if "ts ! i = AObj tag"
    using i that by (cases "a ! i") (auto simp: obj_arg_def)
qed

end
