(* ===== verification/Guest_Isolation.thy ===== *)
theory Guest_Isolation
  imports Object_Safety
begin

text \<open>
  Every host function on objects is safe in the sense of \<open>Object_Safety\<close>, hence \<open>dispatch\<close> is, and so is any
  program a guest may run: it sees only objects it can reach, the object graph stays well formed,
  existing objects never change, and no call ends in an internal error of the host.
\<close>

section \<open>Every function is safe\<close>

text \<open>What the functions rely on: the check and the comparison of well-formed values look only at
  objects reachable from them, and no error they return is an internal one.  \<open>Guest_Properties\<close> proves
  it for the host's own comparison and check.\<close>

locale common_laws =
  fixes X :: common
  assumes check_local: "alike R s t \<Longrightarrow> val_ok R (objects s) v \<Longrightarrow>
      check_val_integrity X (objects t) v = check_val_integrity X (objects s) v"
    and check_error: "alike R s t \<Longrightarrow> val_ok R (objects s) v \<Longrightarrow>
      check_val_integrity X (objects s) v = Inl e \<Longrightarrow> \<not> internal_error e"
    and compare_local: "alike R s t \<Longrightarrow> val_ok R (objects s) v \<Longrightarrow> val_ok R (objects s) w \<Longrightarrow>
      compare_val X (objects t) v w = compare_val X (objects s) v w"
    and compare_error: "alike R s t \<Longrightarrow> val_ok R (objects s) v \<Longrightarrow> val_ok R (objects s) w \<Longrightarrow>
      compare_val X (objects s) v w = Inl e \<Longrightarrow> \<not> internal_error e"
    and common_errors: "\<not> internal_error (conversion_error X)" "\<not> internal_error (xdr_error X)"
      "\<not> internal_error (memory_error X)"
begin

lemma safe_check_val: "v \<in> set vs \<Longrightarrow> safe_read R vs (\<lambda>_. []) (check_val X v)"
  by (rule safe_readI) (auto simp: vals_ok_def check_val_def check_local check_error)

lemma safe_check_vals: "set ws \<subseteq> set vs \<Longrightarrow> safe_read R vs (\<lambda>_. []) (check_vals X ws)"
proof (induction ws)
  case Nil
  then show ?case by (simp add: safe_read_def)
next
  case (Cons w ws)
  have eq: "check_vals X (w # ws) = (\<lambda>s. case check_val X w s of Inl e \<Rightarrow> Inl e | Inr a \<Rightarrow> check_vals X ws s)"
    by (rule ext) simp
  show ?case
    unfolding eq by (rule safe_read_bind [OF safe_check_val]) (use Cons in auto)
qed

lemma key_agree_compare:
  assumes "alike R s t" and "vals_ok R s (map fst m @ map snd m @ vs)" and "k \<in> set vs"
  shows "key_agree (compare_val X (objects s)) (compare_val X (objects t)) k m"
proof -
  have ok: "val_ok R (objects s) a" if "a \<in> insert k (fst ` set m)" for a
    using assms(2,3) that by (auto simp: vals_ok_def)
  show ?thesis
    unfolding key_agree_def agree_def
    by (intro ballI conjI allI impI; (erule compare_error [OF assms(1) ok ok, rotated 2] | rule compare_local [OF assms(1) ok ok]))
qed

lemma safe_read_val: "safe R 0 vs (\<lambda>v. [v]) (read_val X bs)"
  unfolding read_val_def by (rule safe_try_read [OF safe_relative_to_absolute]) (auto intro!: safe_ret simp: refs_def)

lemma safe_write_val: "v \<in> set vs \<Longrightarrow> safe R 1 vs (\<lambda>_. []) (write_val X v)"
  unfolding write_val_def
  by (rule safe_bindq0 [OF safe_absolute_to_relative]) (simp_all add: safe_ret refs_def)

subsection \<open>Vectors\<close>

lemmas visit_vec = safe_visit_pure [OF extractors(1)]

lemma safe_vec_updates:
  assumes "ObjVal VecObject v \<in> set vs" and "x \<in> set vs"
  shows "safe R 1 vs (\<lambda>v. [v]) (vec_put v i x)" "safe R 1 vs (\<lambda>v. [v]) (vec_insert v i x)"
    "safe R 1 vs (\<lambda>v. [v]) (vec_push_front v x)" "safe R 1 vs (\<lambda>v. [v]) (vec_push_back v x)"
proof -
  note make = safe_make [where out = "\<lambda>v. v", OF visit_vec [OF assms(1)]]
  show "safe R 1 vs (\<lambda>v. [v]) (vec_put v i x)"
    unfolding vec_put_def
    by (rule make) (use assms(2) in \<open>auto simp: index_defs vector_defs plain_errors refs_def split: if_splits dest!: set_update_subset_insert [THEN subsetD]\<close>)
  show "safe R 1 vs (\<lambda>v. [v]) (vec_insert v i x)"
    unfolding vec_insert_def
    by (rule make) (use assms(2) in \<open>auto simp: index_defs vector_defs plain_errors refs_def split: if_splits dest: in_set_takeD in_set_dropD\<close>)
  show "safe R 1 vs (\<lambda>v. [v]) (vec_push_front v x)" "safe R 1 vs (\<lambda>v. [v]) (vec_push_back v x)"
    unfolding vec_push_front_def vec_push_back_def
    by (rule make; use assms(2) in \<open>auto simp: vector_defs plain_errors refs_def split: if_splits\<close>)+
qed

lemma safe_vec_parts:
  assumes "ObjVal VecObject v \<in> set vs"
  shows "safe R 1 vs (\<lambda>v. [v]) (vec_del v i)" "safe R 1 vs (\<lambda>v. [v]) (vec_pop_front v)"
    "safe R 1 vs (\<lambda>v. [v]) (vec_pop_back v)" "safe R 1 vs (\<lambda>v. [v]) (vec_slice v i j)"
  unfolding vec_del_def vec_pop_front_def vec_pop_back_def vec_slice_def
  by (rule safe_make [where out = "\<lambda>v. v", OF visit_vec [OF assms]];
      auto simp: index_defs vector_defs plain_errors refs_def split: if_splits sum.splits option.splits dest: in_set_takeD in_set_dropD)+

lemma safe_vec_reads:
  assumes "ObjVal VecObject v \<in> set vs"
  shows "safe R 1 vs (\<lambda>v. [v]) (vec_get v i)" "safe R 1 vs (\<lambda>v. [v]) (vec_front v)" "safe R 1 vs (\<lambda>v. [v]) (vec_back v)"
proof -
  note query = safe_query [OF visit_vec [OF assms]]
  show "safe R 1 vs (\<lambda>v. [v]) (vec_get v i)"
    unfolding vec_get_def
    by (rule query) (auto simp: index_defs vector_defs plain_errors refs_def not_le split: if_splits dest!: nth_mem)
  show "safe R 1 vs (\<lambda>v. [v]) (vec_front v)" "safe R 1 vs (\<lambda>v. [v]) (vec_back v)"
    unfolding vec_front_def vec_back_def
    by (rule query; auto simp: vector_defs plain_errors refs_def split: if_splits list.splits dest: last_in_set)+
qed

lemma safe_len:
  assumes "extracts ext tag content" and "ObjVal tag h \<in> set vs"
  shows "safe R 1 vs (\<lambda>v. [v]) (try_read (visit_obj ext h (\<lambda>hv. Inr (length hv))) (\<lambda>len. try_read (\<lambda>_. usize_to_u32val len) ret))"
  by (rule safe_try_read [where mid = "\<lambda>_. []", OF safe_visit_pure [OF assms]])
    (auto simp: usize_to_u32val_def usize_to_u32_def plain_errors refs_def split: if_splits intro!: safe_try_pure safe_ret)

lemma safe_vec_append:
  assumes "ObjVal VecObject v \<in> set vs" and "ObjVal VecObject w \<in> set vs"
  shows "safe R 1 vs (\<lambda>v. [v]) (vec_append v w)"
  unfolding vec_append_def
proof (rule safe_make [where out = "\<lambda>v. v"])
  show "safe_read R vs (\<lambda>v. v) (\<lambda>s. visit_obj as_vec v (\<lambda>hv1. visit_obj as_vec w (\<lambda>hv2.
      if length hv1 > U32_MAX - length hv2 then Inl err_arith_overflow else mv_append hv1 hv2) s) s)"
    by (rule safe_visit [OF extractors(1) assms(1)], rule visit_vec)
      (use assms(2) in \<open>auto simp: vector_defs plain_errors refs_def split: if_splits option.splits\<close>)
qed simp

lemma compare_agree:
  assumes "alike R s t" and "vals_ok R s (ws @ vs)" and "x \<in> set vs"
  shows "agree (compare_val X (objects s) x) (compare_val X (objects t) x) (set ws)"
    and "agree (\<lambda>p. compare_val X (objects s) p x) (\<lambda>p. compare_val X (objects t) p x) (set ws)"
  using assms unfolding agree_def
  by (auto simp: vals_ok_def compare_local [OF assms(1)] dest: compare_error [OF assms(1), rotated 2])

lemma safe_vec_searches:
  assumes "ObjVal VecObject v \<in> set vs" and "x \<in> set vs"
  shows "safe R 1 vs (\<lambda>v. [v]) (vec_first_index_of X v x)" "safe R 1 vs (\<lambda>v. [v]) (vec_last_index_of X v x)"
    "safe R 1 vs (\<lambda>_. []) (vec_binary_search X v x)"
proof -
  have index: "safe_read R (hv @ vs) (\<lambda>v. [v]) (\<lambda>s. case mv_index_of (compare_val X (objects s) x) ps of
      Inl e \<Rightarrow> Inl e | Inr r \<Rightarrow> index_result r)" if "snd ` set ps \<subseteq> set hv" for hv ps
  proof (rule safe_read_bind [where mid = "\<lambda>_. []"])
    show "safe_read R (hv @ vs) (\<lambda>_. []) (\<lambda>s. mv_index_of (compare_val X (objects s) x) ps)"
    proof (rule safe_readI)
      fix s t
      assume "alike R s t" "vals_ok R s (hv @ vs)"
      from compare_agree(1) [OF this assms(2)] that
      have "agree (compare_val X (objects s) x) (compare_val X (objects t) x) (snd ` set ps)"
        unfolding agree_def by blast
      from index_of_agree [OF this]
      show "mv_index_of (compare_val X (objects s) x) ps = mv_index_of (compare_val X (objects t) x) ps
        \<and> (\<forall>e. mv_index_of (compare_val X (objects s) x) ps = Inl e \<longrightarrow> \<not> internal_error e)
        \<and> (\<forall>r. mv_index_of (compare_val X (objects s) x) ps = Inr r \<longrightarrow> vals_ok R s [])" by simp
    qed
    show "safe_read R ([] @ hv @ vs) (\<lambda>v. [v]) (\<lambda>s. index_result r)" for r
      by (rule safe_read_pure) (auto simp: index_defs plain_errors refs_def split: option.splits if_splits)
  qed
  show "safe R 1 vs (\<lambda>v. [v]) (vec_first_index_of X v x)" "safe R 1 vs (\<lambda>v. [v]) (vec_last_index_of X v x)"
    unfolding vec_first_index_of_def vec_last_index_of_def mv_first_index_of_def mv_last_index_of_def
    by (rule safe_query, rule safe_visit [OF extractors(1) assms(1)], rule index, force dest: set_zip_rightD)+
  show "safe R 1 vs (\<lambda>_. []) (vec_binary_search X v x)"
    unfolding vec_binary_search_def mv_binary_search_by_def
  proof (rule safe_query, rule safe_visit [OF extractors(1) assms(1)], rule safe_read_bind [where mid = "\<lambda>_. []"])
    show "safe_read R (hv @ vs) (\<lambda>_. []) (\<lambda>s. bsearch_by (\<lambda>p. compare_val X (objects s) p x) hv 0 (length hv))" for hv
    proof (rule safe_readI)
      fix s t
      assume "alike R s t" "vals_ok R s (hv @ vs)"
      from bsearch_by_agree [OF compare_agree(2) [OF this assms(2)] order_refl]
      show "bsearch_by (\<lambda>p. compare_val X (objects s) p x) hv 0 (length hv) = bsearch_by (\<lambda>p. compare_val X (objects t) p x) hv 0 (length hv)
        \<and> (\<forall>e. bsearch_by (\<lambda>p. compare_val X (objects s) p x) hv 0 (length hv) = Inl e \<longrightarrow> \<not> internal_error e)
        \<and> (\<forall>r. bsearch_by (\<lambda>p. compare_val X (objects s) p x) hv 0 (length hv) = Inr r \<longrightarrow> vals_ok R s [])" by auto
    qed
    show "safe_read R ([] @ hv @ vs) (\<lambda>_. []) (\<lambda>s. u64_from_binary_search_result r)" for hv r
      by (rule safe_read_pure) (auto simp: index_defs plain_errors refs_def split: sum.splits if_splits)
  qed
qed

lemma safe_vec_memory:
  shows "safe R 1 vs (\<lambda>v. [v]) (vec_new_from_linear_memory X pos len)"
    and "ObjVal VecObject v \<in> set vs \<Longrightarrow> safe R len vs (\<lambda>v. [v]) (vec_unpack_to_linear_memory X v pos len)"
proof -
  show "safe R 1 vs (\<lambda>v. [v]) (vec_new_from_linear_memory X pos len)"
    unfolding vec_new_from_linear_memory_def
    by (intro safe_try_read [OF safe_get_mem_fn_args] safe_bindq_read [OF safe_read_vals [OF safe_read_val]]
          safe_try_read [OF safe_check_vals] safe_try_pure safe_add_host_object)
      (auto simp: mv_from_vec_def plain_errors split: if_splits)
  assume v: "ObjVal VecObject v \<in> set vs"
  have wr: "safe R len (hv @ vs) (\<lambda>_. []) (metered_vm_write_vals_to_linear_memory m pos hv (write_val X))"
    if "length hv = len" for hv m
    unfolding that [symmetric] by (rule safe_write_vals, rule safe_write_val) simp
  show "safe R len vs (\<lambda>v. [v]) (vec_unpack_to_linear_memory X v pos len)"
    unfolding vec_unpack_to_linear_memory_def
  proof (intro safe_try_read [OF safe_get_mem_fn_args] safe_try_read_that [where mid = "\<lambda>hv. hv", OF visit_vec])
    fix m hv s
    assume "visit_obj as_vec v (\<lambda>hv. if length hv \<noteq> len then Inl (HostErr SCE_Object UnexpectedSize) else Inr hv) s = Inr hv"
    then have "length hv = len"
      by (auto simp: visit_obj_def visit_obj_untyped_def split: if_splits option.splits)
    from wr [OF this] show "safe R len (hv @ [] @ vs) (\<lambda>v. [v]) (bindq (metered_vm_write_vals_to_linear_memory m pos hv (write_val X)) (\<lambda>_. ret VoidVal))"
      by (intro safe_bindq0) (auto intro!: safe_ret simp: refs_def)
  qed (use v in \<open>auto simp: plain_errors refs_def split: if_splits\<close>)
qed

subsection \<open>Maps\<close>

lemmas visit_map = safe_visit_pure [OF extractors(2)]

lemma safe_map_keyed:
  assumes "ObjVal MapObject m \<in> set vs" and "k \<in> set vs"
  shows "v \<in> set vs \<Longrightarrow> safe R 1 vs (\<lambda>v. [v]) (map_put X m k v)" "safe R 1 vs (\<lambda>v. [v]) (map_get X m k)"
    "safe R 1 vs (\<lambda>v. [v]) (map_del X m k)" "safe R 1 vs (\<lambda>v. [v]) (map_has X m k)"
proof -
  note visit = safe_visit [OF extractors(2) assms(1)]
  have ka: "key_agree (compare_val X (objects s)) (compare_val X (objects t)) k hm"
    if "alike R s t" "vals_ok R s ((map fst hm @ map snd hm) @ vs)" for s t hm
    using key_agree_compare [OF that(1) _ assms(2)] that(2) by simp
  have pairs: "vals_ok R s (map fst hm' @ map snd hm')"
    if "vals_ok R s ((map fst hm @ map snd hm) @ vs)" and "set hm' \<subseteq> insert (k, w) (set hm)" and "w \<in> set vs" for s hm hm' w
    using that assms(2) by (fastforce simp: vals_ok_def)
  have sub: "set hm \<subseteq> insert (k, w) (set hm')" if "set hm \<subseteq> set hm'" for hm hm' w
    using that by blast
  show "safe R 1 vs (\<lambda>v. [v]) (map_put X m k v)" if v: "v \<in> set vs"
    unfolding map_put_def
  proof (rule safe_make [where out = "\<lambda>m. map fst m @ map snd m"], rule visit, rule safe_readI)
    fix hm s t
    assume st: "alike R s t" "vals_ok R s ((map fst hm @ map snd hm) @ vs)"
    show "hm_insert (compare_val X (objects s)) k v hm = hm_insert (compare_val X (objects t)) k v hm
      \<and> (\<forall>e. hm_insert (compare_val X (objects s)) k v hm = Inl e \<longrightarrow> \<not> internal_error e)
      \<and> (\<forall>r. hm_insert (compare_val X (objects s)) k v hm = Inr r \<longrightarrow> vals_ok R s (map fst r @ map snd r))"
      using insert_agree [OF ka [OF st], of v] pairs [OF st(2) _ v] by (simp del: vals_ok_simps)
  qed simp
  show "safe R 1 vs (\<lambda>v. [v]) (map_get X m k)"
    unfolding map_get_def
  proof (rule safe_query, rule visit, rule safe_readI)
    fix hm s t
    assume st: "alike R s t" "vals_ok R s ((map fst hm @ map snd hm) @ vs)"
    show "(case hm_get (compare_val X (objects s)) k hm of
        Inl e \<Rightarrow> Inl e | Inr None \<Rightarrow> Inl (HostErr SCE_Object MissingValue) | Inr (Some v) \<Rightarrow> Inr v) =
      (case hm_get (compare_val X (objects t)) k hm of
        Inl e \<Rightarrow> Inl e | Inr None \<Rightarrow> Inl (HostErr SCE_Object MissingValue) | Inr (Some v) \<Rightarrow> Inr v)
      \<and> (\<forall>e. (case hm_get (compare_val X (objects s)) k hm of
        Inl e \<Rightarrow> Inl e | Inr None \<Rightarrow> Inl (HostErr SCE_Object MissingValue) | Inr (Some v) \<Rightarrow> Inr v) = Inl e \<longrightarrow> \<not> internal_error e)
      \<and> (\<forall>r. (case hm_get (compare_val X (objects s)) k hm of
        Inl e \<Rightarrow> Inl e | Inr None \<Rightarrow> Inl (HostErr SCE_Object MissingValue) | Inr (Some v) \<Rightarrow> Inr v) = Inr r \<longrightarrow> vals_ok R s [r])"
      using get_agree [OF ka [OF st]] st(2)
      by (auto simp: vals_ok_def plain_errors split: sum.splits option.splits)
  qed
  show "safe R 1 vs (\<lambda>v. [v]) (map_del X m k)"
    unfolding map_del_def
  proof (rule safe_try_read [where mid = "\<lambda>r. case r of None \<Rightarrow> [] | Some (hm, _) \<Rightarrow> map fst hm @ map snd hm"], rule visit, rule safe_readI)
    fix hm s t
    assume st: "alike R s t" "vals_ok R s ((map fst hm @ map snd hm) @ vs)"
    show "hm_remove (compare_val X (objects s)) k hm = hm_remove (compare_val X (objects t)) k hm
      \<and> (\<forall>e. hm_remove (compare_val X (objects s)) k hm = Inl e \<longrightarrow> \<not> internal_error e)
      \<and> (\<forall>r. hm_remove (compare_val X (objects s)) k hm = Inr r \<longrightarrow>
          vals_ok R s (case r of None \<Rightarrow> [] | Some (hm, _) \<Rightarrow> map fst hm @ map snd hm))"
      using remove_agree [OF ka [OF st]] pairs [OF st(2) sub assms(2)] by (auto split: option.split)
  qed (auto simp: plain_errors simp del: One_nat_def split: option.split intro!: safe_fail safe_add_host_object)
  show "safe R 1 vs (\<lambda>v. [v]) (map_has X m k)"
    unfolding map_has_def
  proof (rule safe_try_read [where mid = "\<lambda>_. []"], rule visit, rule safe_readI)
    fix hm s t
    assume st: "alike R s t" "vals_ok R s ((map fst hm @ map snd hm) @ vs)"
    show "hm_contains_key (compare_val X (objects s)) k hm = hm_contains_key (compare_val X (objects t)) k hm
      \<and> (\<forall>e. hm_contains_key (compare_val X (objects s)) k hm = Inl e \<longrightarrow> \<not> internal_error e)
      \<and> (\<forall>r. hm_contains_key (compare_val X (objects s)) k hm = Inr r \<longrightarrow> vals_ok R s [])"
      using contains_agree [OF ka [OF st]] by auto
  qed (auto intro!: safe_ret simp: refs_def)
qed

lemma safe_map_parts:
  assumes "ObjVal MapObject m \<in> set vs"
  shows "safe R 1 vs (\<lambda>v. [v]) (map_key_by_pos m i)" "safe R 1 vs (\<lambda>v. [v]) (map_val_by_pos m i)"
    "safe R 1 vs (\<lambda>v. [v]) (map_keys m)" "safe R 1 vs (\<lambda>v. [v]) (map_values m)"
proof -
  have "safe_read R vs (\<lambda>r. [fst r, snd r]) (visit_obj as_map m (mm_get_at_index i))"
    by (rule visit_map [OF assms]) (auto simp: mm_get_at_index_def plain_errors refs_def split: if_splits dest!: nth_mem intro: rev_image_eqI)
  then show "safe R 1 vs (\<lambda>v. [v]) (map_key_by_pos m i)" "safe R 1 vs (\<lambda>v. [v]) (map_val_by_pos m i)"
    unfolding map_key_by_pos_def map_val_by_pos_def
    by (rule safe_try_read; auto intro!: safe_ret simp: refs_def)+
  show "safe R 1 vs (\<lambda>v. [v]) (map_keys m)" "safe R 1 vs (\<lambda>v. [v]) (map_values m)"
    unfolding map_keys_def map_values_def
    by (rule safe_make [where out = "\<lambda>v. v", OF visit_map [OF assms]];
        auto simp: mm_keys_def mm_values_def vector_defs plain_errors refs_def split: if_splits)+
qed

lemma safe_symbol_matches:
  "sy \<in> set vs \<Longrightarrow> safe_read R vs (\<lambda>_. []) (symbol_matches X bs sy)"
proof (cases sy)
  case (ObjVal tag h)
  moreover assume "sy \<in> set vs"
  ultimately have "safe_read R vs (\<lambda>_. []) (visit_obj as_symbol h (\<lambda>scsym. Inr (scsym = bs)))" if "tag = SymbolObject"
    using that by (intro safe_visit_pure [OF extractors(5)]) (auto simp: refs_def)
  then show ?thesis
    using common_errors(1) ObjVal by (auto simp: safe_read_def)
qed (auto simp: safe_read_def common_errors)

lemma safe_check_symbol_matches:
  assumes "sy \<in> set vs"
  shows "safe_read R vs (\<lambda>_. []) (check_symbol_matches X bs sy)"
  unfolding check_symbol_matches_def
  by (rule safe_read_bind [OF safe_symbol_matches [OF assms]], rule safe_read_pure) (auto simp: plain_errors refs_def split: if_splits)

lemma safe_scan:
  assumes "\<And>i sl. safe R n vs out (cb i sl)"
  shows "safe R (n * num) vs (\<lambda>rs. concat (map out rs)) (metered_vm_scan_slices_in_linear_memory m pos num cb)"
  unfolding metered_vm_scan_slices_in_linear_memory_def
  by (rule safe_try_pure) (auto dest: plain_memory_errors intro!: safe_scan_slices assms)

lemma safe_symbol_to_valid_host_val: "safe R 1 vs (\<lambda>v. [v]) (symbol_to_valid_host_val X bs)"
proof -
  let ?q = "try_read (\<lambda>_. try_from_bytes X KSymbol bs) (\<lambda>b. add_host_object (HSymbol b))"
  have q: "safe R 1 vs (\<lambda>v. [v]) ?q"
    by (intro safe_try_pure safe_add_host_object)
      (use common_errors in \<open>auto simp: bounded_bytes_def internal_error_def split: if_splits\<close>)
  have "\<not> internal_error (case e of HostErr SCE_Budget _ \<Rightarrow> e | _ \<Rightarrow> HostErr SCE_Value InternalError)" for e
    by (auto simp: internal_error_def split: host_error.split sc_error_type.split)
  note object = safe_map_error [OF q this]
  show ?thesis
  proof (cases "small_symbol X bs")
    case True
    then have "symbol_to_valid_host_val X bs = ret (SymbolSmall bs)"
      by (simp add: symbol_to_valid_host_val_def ret_def fun_eq_iff)
    then show ?thesis
      by (simp only:) (rule safe_ret, auto simp: refs_def)
  next
    case False
    then show ?thesis
      using object by (simp add: symbol_to_valid_host_val_def [abs_def])
  qed
qed

lemma safe_map_memory:
  shows "safe R (len + 1) vs (\<lambda>v. [v]) (map_new_from_linear_memory X kpos pos len)"
    and "ObjVal MapObject m \<in> set vs \<Longrightarrow> safe R len vs (\<lambda>v. [v]) (map_unpack_to_linear_memory X m kpos pos len)"
proof -
  have keys: "safe R (1 * len) vs (\<lambda>rs. concat (map (\<lambda>v. [v]) rs)) (metered_vm_scan_slices_in_linear_memory vm kpos len
      (\<lambda>n sl. try_read (\<lambda>_. bounded_bytes X (SCSYMBOL_LIMIT X) sl) (symbol_to_valid_host_val X)))" for vs vm
    by (rule safe_scan, rule safe_try_pure)
      (use common_errors in \<open>auto simp: bounded_bytes_def simp del: One_nat_def split: if_splits intro!: safe_symbol_to_valid_host_val\<close>)
  have iter: "safe_read R vs (\<lambda>m. map fst m @ map snd m) (\<lambda>s. hm_from_exact_iter (compare_val X (objects s)) ps)"
    if sub: "set (map fst ps @ map snd ps) \<subseteq> set vs" for vs ps
  proof (rule safe_readI)
    fix s t
    assume st: "alike R s t" "vals_ok R s vs"
    have "agree (compare_val X (objects s) a) (compare_val X (objects t) a) (fst ` set ps)" if "a \<in> fst ` set ps" for a
      using compare_agree(1) [OF st(1), of "map fst ps" vs a] vals_ok_subset [OF st(2), of "map fst ps"] st(2) sub that by auto
    from from_exact_iter_agree [of ps "compare_val X (objects s)" "compare_val X (objects t)", OF this] vals_ok_subset [OF st(2) sub]
    show "hm_from_exact_iter (compare_val X (objects s)) ps = hm_from_exact_iter (compare_val X (objects t)) ps
      \<and> (\<forall>e. hm_from_exact_iter (compare_val X (objects s)) ps = Inl e \<longrightarrow> \<not> internal_error e)
      \<and> (\<forall>r. hm_from_exact_iter (compare_val X (objects s)) ps = Inr r \<longrightarrow> vals_ok R s (map fst r @ map snd r))" by auto
  qed
  have pairs: "set (map fst (zip ks ws) @ map snd (zip ks ws)) \<subseteq> set (ws @ concat (map (\<lambda>v. [v]) ks) @ vs)" for ks ws vs :: "Val list"
    by (auto dest: set_zip_leftD set_zip_rightD)
  show "safe R (len + 1) vs (\<lambda>v. [v]) (map_new_from_linear_memory X kpos pos len)"
    unfolding map_new_from_linear_memory_def
    by (intro safe_try_read [OF safe_get_mem_fn_args] safe_bindq [OF keys [simplified]] safe_bindq_read [OF safe_read_vals [OF safe_read_val]]
          safe_try_read [OF safe_check_vals] safe_make [OF iter])
      (use pairs in auto)
  assume m: "ObjVal MapObject m \<in> set vs"
  show "safe R len vs (\<lambda>v. [v]) (map_unpack_to_linear_memory X m kpos pos len)"
    unfolding map_unpack_to_linear_memory_def
  proof (intro safe_try_read [OF safe_get_mem_fn_args] safe_try_read_that [where mid = "\<lambda>m. map fst m @ map snd m", OF visit_map])
    fix vm hm s
    assume "visit_obj as_map m (\<lambda>hm. if length hm \<noteq> len then Inl (HostErr SCE_Object UnexpectedSize) else Inr hm) s = Inr hm"
    then have len: "length hm = len"
      by (auto simp: visit_obj_def visit_obj_untyped_def split: if_splits option.splits)
    let ?vs = "(map fst hm @ map snd hm) @ [] @ vs"
    have cb: "safe R 0 ?vs (\<lambda>_. []) (try_read (\<lambda>_. mm_get_at_index n hm) (\<lambda>entry. try_read (check_symbol_matches X sl (fst entry)) ret))" for n sl
    proof (rule safe_try_pure)
      fix entry
      assume "mm_get_at_index n hm = Inr entry"
      then have "entry \<in> set hm"
        by (auto simp: mm_get_at_index_def split: if_splits)
      then have "fst entry \<in> set ?vs"
        by simp
      then show "safe R 0 ?vs (\<lambda>_. []) (try_read (check_symbol_matches X sl (fst entry)) ret)"
        by (intro safe_try_read [OF safe_check_symbol_matches] safe_ret) (simp_all add: refs_def)
    qed (auto simp: mm_get_at_index_def split: if_splits)
    have wr: "safe R len ?vs (\<lambda>_. []) (metered_vm_write_vals_to_linear_memory vm pos hm (\<lambda>pair. write_val X (snd pair)))"
      unfolding len [symmetric] by (rule safe_write_vals, rule safe_write_val) auto
    have sc: "safe R 0 ?vs (\<lambda>_. []) (metered_vm_scan_slices_in_linear_memory vm kpos len (\<lambda>n sl.
        try_read (\<lambda>_. mm_get_at_index n hm) (\<lambda>entry. try_read (check_symbol_matches X sl (fst entry)) ret)))"
      using safe_scan [OF cb] by simp
    show "safe R len ?vs (\<lambda>v. [v])
       (bindq (metered_vm_scan_slices_in_linear_memory vm kpos len (\<lambda>n sl.
          try_read (\<lambda>_. mm_get_at_index n hm) (\<lambda>entry. try_read (check_symbol_matches X sl (fst entry)) ret))) (\<lambda>_.
        bindq (metered_vm_write_vals_to_linear_memory vm pos hm (\<lambda>pair. write_val X (snd pair))) (\<lambda>_. ret VoidVal)))"
      by (intro safe_bindq_read [OF sc] safe_bindq0 [where mid = "\<lambda>_. []"]) (use wr in \<open>auto intro!: safe_ret simp: refs_def\<close>)
  qed (use m in \<open>auto simp: plain_errors refs_def split: if_splits\<close>)
qed

subsection \<open>Bytes, strings and symbols\<close>

lemma plain_bytes_errors:
  "bounded_bytes X b v = Inl e \<Longrightarrow> \<not> internal_error e" "scbytes_from_vec X v = Inl e \<Longrightarrow> \<not> internal_error e"
  "try_from_bytes X k v = Inl e \<Longrightarrow> \<not> internal_error e"
  "metered_vm_read_bytes_from_linear_memory X m p n = Inl e \<Longrightarrow> \<not> internal_error e"
  "metered_vm_write_bytes_to_linear_memory X m p v = Inl e \<Longrightarrow> \<not> internal_error e"
proof -
  show b: "\<not> internal_error e" if "bounded_bytes X b v = Inl e" for b v
    using that common_errors(2) by (auto simp: bounded_bytes_def split: if_splits)
  then show "scbytes_from_vec X v = Inl e \<Longrightarrow> \<not> internal_error e"
    by (auto simp: scbytes_from_vec_def)
  show "try_from_bytes X k v = Inl e \<Longrightarrow> \<not> internal_error e"
    by (cases k) (auto dest: b simp: plain_errors split: if_splits)
  show "metered_vm_read_bytes_from_linear_memory X m p n = Inl e \<Longrightarrow> \<not> internal_error e"
    "metered_vm_write_bytes_to_linear_memory X m p v = Inl e \<Longrightarrow> \<not> internal_error e"
    using common_errors(3)
    by (auto simp: metered_vm_read_bytes_from_linear_memory_def metered_vm_write_bytes_to_linear_memory_def
        dest: plain_memory_errors split: sum.splits option.splits if_splits)
qed

lemma safe_memobj_out:
  assumes "ObjVal (kind_tag k) h \<in> set vs"
  shows "safe R 1 vs (\<lambda>_. []) (memobj_copy_to_linear_memory X k h pos lpos len)"
  unfolding memobj_copy_to_linear_memory_def memobj_visit_and_copy_bytes_out_def
proof (intro safe_try_read [OF safe_get_mem_fn_args] safe_try_read [where mid = "\<lambda>_. []", OF safe_visit_pure [OF mem_extracts]] safe_set_memory)
  show "ObjVal (kind_tag k) h \<in> set ([] @ vs)"
    using assms by simp
qed (auto simp: plain_errors refs_def split: option.splits dest: plain_bytes_errors)

lemma safe_memobj_in:
  assumes "ObjVal (kind_tag k) h \<in> set vs"
  shows "safe R 1 vs (\<lambda>v. [v]) (memobj_copy_from_linear_memory X k h pos lpos len)"
proof -
  have visit: "safe_read R ([] @ vs) (\<lambda>_. []) (visit_obj (mem_extract k) h Inr)"
    by (rule safe_visit_pure [OF mem_extracts]) (use assms in \<open>auto simp: refs_def\<close>)
  show ?thesis
    unfolding memobj_copy_from_linear_memory_def memobj_clone_resize_and_copy_bytes_in_def
    by (intro safe_try_read [OF safe_get_mem_fn_args] safe_try_read [OF visit] safe_ok_or safe_read_const safe_try_pure safe_add_host_object)
      (auto dest: plain_bytes_errors simp: plain_errors)
qed

lemma safe_memobj_new: "safe R 1 vs (\<lambda>v. [v]) (memobj_new_from_linear_memory X k lpos len)"
  unfolding memobj_new_from_linear_memory_def
  by (intro safe_try_read [OF safe_get_mem_fn_args] safe_try_pure safe_add_host_object)
    (auto dest: plain_bytes_errors)

lemma safe_symbol_index:
  assumes "sy \<in> set vs"
  shows "safe R 1 vs (\<lambda>v. [v]) (symbol_index_in_linear_memory X sy pos len)"
proof -
  have "safe R 0 ([] @ vs) (\<lambda>_. []) (try_read (symbol_matches X sl sy) ret)" for sl
    by (rule safe_try_read [OF safe_symbol_matches]) (use assms in \<open>auto intro!: safe_ret simp: refs_def\<close>)
  then have scan: "safe R 0 ([] @ vs) (\<lambda>_. []) (metered_vm_scan_slices_in_linear_memory m pos len (\<lambda>i sl. try_read (symbol_matches X sl sy) ret))" for m
    using safe_scan [of R 0 "[] @ vs" "\<lambda>_. []" "\<lambda>i sl. try_read (symbol_matches X sl sy) ret" len m pos] by simp
  show ?thesis
    unfolding symbol_index_in_linear_memory_def
    by (intro safe_try_read [OF safe_get_mem_fn_args] safe_bindq_read [OF scan])
      (auto simp: plain_errors index_defs refs_def simp del: One_nat_def split: option.split if_splits intro!: safe_fail safe_try_pure safe_ret)
qed

lemmas visit_bytes = safe_visit_pure [OF extractors(3)]

lemma safe_bytes_make:
  assumes "ObjVal BytesObject b \<in> set vs" and "\<And>hv e. f hv = Inl e \<Longrightarrow> \<not> internal_error e"
  shows "safe R 1 vs (\<lambda>v. [v]) (try_read (visit_obj as_bytes b f) (\<lambda>vnew. add_host_object (HBytes vnew)))"
  by (rule safe_make [where out = "\<lambda>_. []", OF visit_bytes [OF assms(1)]]) (auto simp: refs_def dest: assms(2))

lemma safe_u8:
  assumes "\<And>u8. safe R n vs out (k u8)"
  shows "safe R n vs out (try_read (\<lambda>_. u8_from_u32val_input u) k)"
  by (rule safe_try_pure) (auto simp: u8_from_u32val_input_def split: if_splits intro: assms)

lemma safe_bytes_updates:
  assumes "ObjVal BytesObject b \<in> set vs"
  shows "safe R 1 vs (\<lambda>v. [v]) (bytes_put X b i u)" "safe R 1 vs (\<lambda>v. [v]) (bytes_del X b i)"
    "safe R 1 vs (\<lambda>v. [v]) (bytes_push X b u)" "safe R 1 vs (\<lambda>v. [v]) (bytes_pop X b)"
    "safe R 1 vs (\<lambda>v. [v]) (bytes_insert X b i u)"
  unfolding bytes_put_def bytes_del_def bytes_push_def bytes_pop_def bytes_insert_def
  by ((rule safe_u8)?, (rule safe_bytes_make [OF assms];
      auto simp: index_defs plain_errors split: if_splits option.splits dest: plain_bytes_errors(2)))+

lemma safe_bytes_reads:
  assumes "ObjVal BytesObject b \<in> set vs"
  shows "safe R 1 vs (\<lambda>v. [v]) (bytes_get b i)" "safe R 1 vs (\<lambda>v. [v]) (bytes_front b)" "safe R 1 vs (\<lambda>v. [v]) (bytes_back b)"
  unfolding bytes_get_def bytes_front_def bytes_back_def
  by (rule safe_query [OF visit_bytes [OF assms]]; auto simp: refs_def split: if_splits list.splits)+

lemma safe_bytes_append:
  assumes "ObjVal BytesObject b \<in> set vs" and "ObjVal BytesObject c \<in> set vs"
  shows "safe R 1 vs (\<lambda>v. [v]) (bytes_append X b c)"
  unfolding bytes_append_def
  by (rule safe_try_read [where mid = "\<lambda>_. []"], rule safe_visit [OF extractors(3) assms(1)], rule visit_bytes)
    (use assms(2) in \<open>auto simp: index_defs plain_errors refs_def simp del: One_nat_def split: if_splits option.splits
      dest: plain_bytes_errors(2) intro!: safe_try_pure safe_add_host_object\<close>)

lemma safe_bytes_slice:
  assumes "ObjVal BytesObject b \<in> set vs"
  shows "safe R 1 vs (\<lambda>v. [v]) (bytes_slice X b i j)"
  unfolding bytes_slice_def
  by (rule safe_try_read [where mid = "\<lambda>_. []", OF visit_bytes [OF assms]])
    (auto simp: index_defs plain_errors refs_def simp del: One_nat_def split: if_splits option.splits sum.splits
      dest: plain_bytes_errors(2) intro!: safe_try_pure safe_add_host_object)

section \<open>Dispatch is safe\<close>

lemma safe_new:
  "safe R 1 a (\<lambda>v. [v]) vec_new" "safe R 1 a (\<lambda>v. [v]) map_new" "safe R 1 a (\<lambda>v. [v]) (bytes_new X)"
  unfolding vec_new_def map_new_def bytes_new_def
  by (auto simp del: One_nat_def intro!: safe_add_host_object safe_try_pure dest: plain_bytes_errors(2))

lemma safe_void: "safe R n vs (\<lambda>_. []) q \<Longrightarrow> safe R n vs (\<lambda>v. [v]) (bindq q (\<lambda>_. ret VoidVal))"
  by (erule safe_bindq0) (auto intro!: safe_ret simp: refs_def)

lemma safe_number: "safe R n vs (\<lambda>_. []) q \<Longrightarrow> safe R n vs ret_vals (bindq q (\<lambda>n. ret (RU64 n)))"
  by (erule safe_bindq0) (auto intro!: safe_ret simp: refs_def)

lemmas length_defs = vec_len_def map_len_def bytes_len_def string_len_def symbol_len_def

lemmas slab_defs =
  string_copy_to_linear_memory_def symbol_copy_to_linear_memory_def bytes_copy_to_linear_memory_def
  bytes_copy_from_linear_memory_def bytes_new_from_linear_memory_def string_new_from_linear_memory_def
  symbol_new_from_linear_memory_def

lemmas function_rules =
  safe_new safe_vec_updates safe_vec_parts safe_vec_reads safe_vec_append safe_vec_searches safe_vec_memory
  safe_map_keyed safe_map_parts safe_map_memory safe_len [OF extractors(1)] safe_len [OF extractors(2)]
  safe_len [OF extractors(3)] safe_len [OF extractors(4)] safe_len [OF extractors(5)]
  safe_memobj_out [of KBytes, simplified kind_tag.simps] safe_memobj_out [of KString, simplified kind_tag.simps]
  safe_memobj_out [of KSymbol, simplified kind_tag.simps] safe_memobj_in [of KBytes, simplified kind_tag.simps]
  safe_memobj_new safe_symbol_index safe_bytes_updates safe_bytes_reads safe_bytes_append safe_bytes_slice

lemma safe_run_function:
  assumes "list_all2 has_type (signature f) a"
  shows "safe R (growth f a) a ret_vals (run_function X f a)"
  using assms
  by (cases f; simp only: run_function.simps growth.simps slab_defs length_defs)
    ((rule safe_rval | rule safe_number); (rule safe_void)?; (rule function_rules)?; (rule typed_arg, assumption; simp)?)+

lemma safe_marshal_arg: "safe R 0 vs (\<lambda>v. [v]) (marshal_arg X p)"
  unfolding marshal_arg_def
  by (intro safe_reject safe_try_read [OF safe_relative_to_absolute] safe_try_read [OF safe_check_val] safe_ret)
    (auto simp: refs_def common_errors)

lemma safe_marshal_ret: "safe R 1 (ret_vals r @ vs) (\<lambda>_. []) (marshal_ret X r)"
proof (cases r)
  case (RVal v)
  have "safe R 1 (v # vs) (\<lambda>_. []) (absolute_to_relative v)"
    by (rule safe_absolute_to_relative) simp
  then show ?thesis
    unfolding marshal_ret_def RVal
    by (simp only: host_ret.case, intro safe_try_read [OF safe_check_val] safe_bindq0 [where mid = "\<lambda>_. []"] safe_ret)
      (auto simp: refs_def)
qed (auto simp: marshal_ret_def refs_def intro: safe_ret)

lemma u32_of_absolute: "relative_to_absolute v s = Inr w \<Longrightarrow> u32_of w = u32_of v"
  by (cases v) (auto simp: Let_def split: if_splits sum.splits)

lemma marshal_arg_typed:
  "marshal_arg X (ty, v) s = Inr (w, s') \<Longrightarrow> has_type ty w \<and> u32_of w = u32_of v"
  by (auto simp: marshal_arg_def ok_simps dest: u32_of_absolute)

lemma marshal_args_typed:
  "map_query (marshal_arg X) (zip ts args) s = Inr (vs, s') \<Longrightarrow> length args = length ts \<Longrightarrow>
     list_all2 has_type ts vs \<and> list_all2 (\<lambda>a v. u32_of v = u32_of a) args vs"
proof (induction ts arbitrary: args s vs)
  case (Cons ty ts)
  then obtain a as where args: "args = a # as" "length as = length ts"
    by (cases args) auto
  with Cons.prems(1) obtain w u ws where "marshal_arg X (ty, a) s = Inr (w, u)"
      "map_query (marshal_arg X) (zip ts as) u = Inr (ws, s')" "vs = w # ws"
    by (auto split: sum.splits)
  with marshal_arg_typed [OF this(1)] Cons.IH [OF this(2) args(2)] show ?case
    by (simp add: args)
qed simp

lemma growth_marshalled:
  assumes "list_all2 (\<lambda>a v. u32_of v = u32_of a) args vs" and "length args = length (signature f)"
  shows "growth f vs = growth f args"
  using assms by (cases f) (auto simp: u32_arg_def list_all2_conv_all_nth)

lemma safe_dispatch:
  assumes "length args = length (signature f)"
  shows "safe R (growth f args + 1) [] (\<lambda>_. []) (dispatch X f args)"
proof -
  let ?q = "map_query (marshal_arg X) (zip (signature f) args)"
  have args: "safe R 0 [] (\<lambda>vs. vs) ?q"
    using safe_map_query [of "zip (signature f) args" R 0 "[]" "\<lambda>v. [v]" "marshal_arg X", OF safe_marshal_arg] by simp
  have "safe R (growth f args + 1) (vs @ []) (\<lambda>_. []) (bindq (run_function X f vs) (marshal_ret X))"
    if "?q s = Inr (vs, s')" for vs s s'
  proof (rule safe_bindq)
    show "safe R (growth f args) (vs @ []) ret_vals (run_function X f vs)"
      using marshal_args_typed [OF that assms] safe_run_function [of f vs R] growth_marshalled [OF _ assms] by simp
  qed (rule safe_marshal_ret)
  then have "safe R (0 + (growth f args + 1)) [] (\<lambda>_. []) (dispatch X f args)"
    unfolding dispatch_def by (rule safe_bindq [OF args])
  then show ?thesis
    by simp
qed

end

section \<open>A guest at work\<close>

text \<open>A guest is any program: from the results so far and its memory it computes a new content of its
  memory and the next call.  It stops on a trap, with an ill-typed import, or when the object
  tables are full (the memory budget is exhausted long before).\<close>

type_synonym guest = "host_ret list \<Rightarrow> bytes option \<Rightarrow> bytes \<times> host_function \<times> Val list"

definition memory_of :: "obj_host \<Rightarrow> bytes option" where
  "memory_of s = (case cur_frame s of Some (ContractVM _ m) \<Rightarrow> m | _ \<Rightarrow> None)"

definition own_memory :: "bytes \<Rightarrow> obj_host \<Rightarrow> obj_host" where
  "own_memory mem s = (case memory_of s of None \<Rightarrow> s | Some _ \<Rightarrow> set_memory mem s)"

fun run_guest :: "common \<Rightarrow> guest \<Rightarrow> nat \<Rightarrow> host_ret list \<Rightarrow> obj_host \<Rightarrow> host_error + host_ret list \<times> obj_host" where
  "run_guest X g 0 hist s = Inr (hist, s)"
| "run_guest X g (Suc n) hist s =
     (let (mem, f, args) = g hist (memory_of s); s' = own_memory mem s in
      if length args \<noteq> length (signature f) \<or> \<not> room (growth f args + 1) s' then Inr (hist, s')
      else case dispatch X f args s' of
        Inl e \<Rightarrow> Inl e
      | Inr (r, s'') \<Rightarrow> run_guest X g n (hist @ [r]) s'')"

lemma alike_memory: "alike R s t \<Longrightarrow> memory_of t = memory_of s"
  by (erule alike_frame) (simp add: memory_of_def)

lemma alike_own_memory: "alike R s t \<Longrightarrow> alike R (own_memory mem s) (own_memory mem t)"
  by (auto simp: own_memory_def alike_memory alike_def set_memory_def split: option.split)

lemma own_memory_objects [simp]: "objects (own_memory mem s) = objects s"
  by (simp add: own_memory_def set_memory_def split: option.split)

lemma own_memory_room:
  assumes "alike R s t"
  shows "room n (own_memory mem t) = room n (own_memory mem s)"
  by (rule alike_frame [OF assms], use alike_length [OF assms] in
      \<open>auto simp: room_def own_memory_def memory_of_def set_memory_def table_of_def split: option.split\<close>)

context common_laws
begin

lemma run_guest_safe:
  assumes "alike R s t"
  shows "(\<exists>e. run_guest X g n hist s = Inl e \<and> run_guest X g n hist t = Inl e \<and> \<not> internal_error e)
    \<or> (\<exists>rs s' t'. run_guest X g n hist s = Inr (rs, s') \<and> run_guest X g n hist t = Inr (rs, t') \<and> alike R s' t'
        \<and> (\<exists>new. objects s' = objects s @ new))"
  using assms
proof (induction n arbitrary: hist s t)
  case (Suc n)
  obtain mem f args where g: "g hist (memory_of s) = (mem, f, args)"
    by (cases "g hist (memory_of s)") auto
  let ?s = "own_memory mem s" and ?t = "own_memory mem t"
  let ?stop = "length args \<noteq> length (signature f) \<or> \<not> room (growth f args + 1) ?s"
  have al: "alike R ?s ?t" and gt: "g hist (memory_of t) = (mem, f, args)"
      and stop: "(length args \<noteq> length (signature f) \<or> \<not> room (growth f args + 1) ?t) = ?stop"
    using Suc.prems g by (simp_all add: alike_own_memory alike_memory own_memory_room)
  show ?case
  proof (cases ?stop)
    case True
    with stop al g gt show ?thesis by (auto simp: Let_def)
  next
    case False
    then have "length args = length (signature f)" "room (growth f args + 1) ?s"
      by simp_all
    with safe_dispatch [of args f R] al consider e where "dispatch X f args ?s = Inl e" "dispatch X f args ?t = Inl e" "\<not> internal_error e"
      | r s' t' where "dispatch X f args ?s = Inr (r, s')" "dispatch X f args ?t = Inr (r, t')" "alike R s' t'"
          "grown (growth f args + 1) ?s s'"
      unfolding safe_def by (metis vals_ok_simps(1))
    then show ?thesis
    proof cases
      case 1
      with False stop g gt show ?thesis by (simp add: Let_def)
    next
      case (2 r s' t')
      obtain new where "objects s' = objects s @ new"
        using 2(4) by (auto simp: grown_def)
      with Suc.IH [OF 2(3), of "hist @ [r]"] False stop g gt 2(1,2) show ?thesis
        by (auto simp: Let_def)
    qed
  qed
qed simp

end

subsection \<open>What a guest can reach\<close>

text \<open>The objects a frame can reach: those in its table and those inside objects it can reach.\<close>

inductive_set reachable :: "obj_host \<Rightarrow> nat set" for s where
  table: "(tag, h) \<in> set (table_of s) \<Longrightarrow> handle_to_index h \<in> reachable s"
| inside: "i \<in> reachable s \<Longrightarrow> i < length (objects s) \<Longrightarrow> ObjVal tag h \<in> set (obj_vals (objects s ! i)) \<Longrightarrow>
    handle_to_index h \<in> reachable s"

text \<open>A host with a running contract in which every reference, in the table of the frame and inside
  objects, is absolute, in range and has the tag of its object.\<close>

definition well_formed :: "obj_host \<Rightarrow> bool" where
  "well_formed s \<longleftrightarrow>
     (\<exists>table m. cur_frame s = Some (ContractVM table m))
     \<and> (\<forall>r\<in>set (table_of s). ref_ok (objects s) (fst r) (snd r))
     \<and> (\<forall>ho\<in>set (objects s). \<forall>v\<in>set (obj_vals ho). case v of ObjVal tag h \<Rightarrow> ref_ok (objects s) tag h | _ \<Rightarrow> True)"

lemma val_ok_UNIV: "val_ok UNIV os v \<longleftrightarrow> (case v of ObjVal tag h \<Rightarrow> ref_ok os tag h | _ \<Rightarrow> True)"
  by (auto simp: val_ok_def split: Val.split)

lemma alike_UNIV: "alike UNIV s s \<longleftrightarrow> well_formed s"
  by (auto simp: alike_def well_formed_def val_ok_UNIV table_of_def all_set_conv_all_nth [of "objects s"]) force

lemma alike_reachable:
  assumes wf: "well_formed s" and frame: "cur_frame t = cur_frame s" and len: "length (objects t) = length (objects s)"
    and same: "\<And>i. i \<in> reachable s \<Longrightarrow> i < length (objects s) \<Longrightarrow> objects t ! i = objects s ! i"
  shows "alike (reachable s \<union> {length (objects s)..}) s t"
proof -
  let ?R = "reachable s \<union> {length (objects s)..}"
  obtain table m where f: "cur_frame s = Some (ContractVM table m)"
    using wf by (auto simp: well_formed_def)
  have "val_ok ?R (objects s) (ObjVal tag h)" if "(tag, h) \<in> set table" for tag h
    using wf that f reachable.table [of tag h s] by (force simp: well_formed_def val_ok_def table_of_def)
  moreover have "val_ok ?R (objects s) v" if "i \<in> reachable s" "i < length (objects s)" "v \<in> set (obj_vals (objects s ! i))" for i v
    using wf that reachable.inside [OF that(1,2)] nth_mem [OF that(2)]
    by (fastforce simp: well_formed_def val_ok_def split: Val.splits)
  ultimately show ?thesis
    using f frame len same by (auto simp: alike_def)
qed

subsection \<open>A concrete instance\<close>

text \<open>One choice of what the other crates provide: values are compared by kind and number, the
  integrity check is that of objects.\<close>

fun rank :: "Val \<Rightarrow> nat \<times> nat" where
  "rank VoidVal = (0, 0)"
| "rank (BoolVal b) = (1, of_bool b)"
| "rank (U32Val n) = (2, n)"
| "rank (SymbolSmall bs) = (3, length bs)"
| "rank (OtherSmall n) = (4, n)"
| "rank (ObjVal tag h) = (5, h)"

definition compare_rank :: "Val \<Rightarrow> Val \<Rightarrow> Ordering" where
  "compare_rank a b =
     (if rank a = rank b then Equal
      else if fst (rank a) < fst (rank b) \<or> fst (rank a) = fst (rank b) \<and> snd (rank a) < snd (rank b) then Less else Greater)"

definition tags :: "Tag list" where
  "tags = [VecObject, MapObject, U64Object, I64Object, TimepointObject, DurationObject, U128Object,
     I128Object, U256Object, I256Object, BytesObject, StringObject, SymbolObject, AddressObject]"

fun tag_number :: "Tag \<Rightarrow> Tag list \<Rightarrow> nat" where
  "tag_number t [] = 0"
| "tag_number t (u # us) = (if t = u then 0 else tag_number t us + 1)"

fun plain_payload :: "Val \<Rightarrow> nat" where
  "plain_payload (U32Val n) = 2 * n"
| "plain_payload (ObjVal tag h) = 2 * (16 * h + tag_number tag tags) + 1"
| "plain_payload _ = 2 ^ 60"

definition plain_value :: "nat \<Rightarrow> Val" where
  "plain_value n =
     (if n = 2 ^ 60 then VoidVal else if even n then U32Val (n div 2)
      else ObjVal (tags ! (n div 2 mod 16)) (n div 2 div 16))"

definition plain_common :: common where
  "plain_common = \<lparr>
     check_val_integrity = (\<lambda>os v. case v of ObjVal tag h \<Rightarrow> check_obj_integrity tag h \<lparr>objects = os, cur_frame = None\<rparr> | _ \<Rightarrow> Inr ()),
     get_payload = plain_payload, from_payload = plain_value,
     compare_val = (\<lambda>os a b. Inr (compare_rank a b)),
     validate_byte = (\<lambda>b. 97 \<le> b \<and> b \<le> 122), small_symbol = (\<lambda>bs. length bs \<le> 9 \<and> (\<forall>b\<in>set bs. 97 \<le> b \<and> b \<le> 122)), SCSYMBOL_LIMIT = 32,
     conversion_error = HostErr SCE_Value UnexpectedType, xdr_error = HostErr SCE_Value InvalidInput,
     memory_error = HostErr SCE_WasmVm IndexBounds\<rparr>"

interpretation plain: common_laws plain_common
proof
  fix R s t v e
  assume "alike R s t" and v: "val_ok R (objects s) v"
  then have "check_val_integrity plain_common (objects u) v = Inr ()" if "u = s \<or> u = t" for u
    using that alike_objects(1) [of R s t] alike_length [of R s t]
    by (cases v) (auto simp: plain_common_def check_obj_integrity_def visit_obj_untyped_def val_ok_def ref_ok_def)
  then show "check_val_integrity plain_common (objects t) v = check_val_integrity plain_common (objects s) v"
    and "check_val_integrity plain_common (objects s) v = Inl e \<Longrightarrow> \<not> internal_error e"
    by simp_all
qed (simp_all add: plain_common_def)

text \<open>Two hosts that differ in an object the frame can not reach, and a guest that reads its vector.\<close>

definition host_with :: "bytes \<Rightarrow> obj_host" where
  "host_with secret = \<lparr>objects = [HVec [U32Val 7, U32Val 8], HBytes secret],
     cur_frame = Some (ContractVM [(VecObject, 1)] (Some (replicate 32 0)))\<rparr>"

definition reader :: guest where
  "reader hist m = (replicate 32 0, F_vec_get, [ObjVal VecObject 0, U32Val (length hist)])"

lemma host_with_wf: "well_formed (host_with secret)"
  by (simp add: well_formed_def host_with_def table_of_def ref_ok_def is_relative_object_handle_def handle_to_index_def)

lemma host_with_reachable: "i \<in> reachable (host_with secret) \<Longrightarrow> i = 0"
  by (induction rule: reachable.induct) (auto simp: host_with_def table_of_def handle_to_index_def)

end
