(* ===== verification/Object_Laws.thy ===== *)
theory Object_Laws
  imports Guest_Isolation
begin

text \<open>
  What the host functions on objects compute: the vector functions refine operations on lists, the
  map functions refine a finite map ordered by the comparison of values, a vector survives the way
  through linear memory, and where handles stop being unique.
\<close>

section \<open>Objects at work\<close>

text \<open>The object a handle refers to.\<close>

definition holds :: "obj_host \<Rightarrow> u32 \<Rightarrow> HostObject \<Rightarrow> bool" where
  "holds s h ho \<longleftrightarrow> \<not> is_relative_object_handle h \<and> handle_to_index h < length (objects s) \<and> objects s ! handle_to_index h = ho"

lemma visit_holds:
  "holds s h ho \<Longrightarrow> try_extract ho = Some b \<Longrightarrow> visit_obj try_extract h f s = f b"
  by (simp add: holds_def visit_obj_def visit_obj_untyped_def)

lemma add_object:
  "length (objects s) < 2 ^ 31 \<Longrightarrow>
     add_host_object ho s = Inr (ObjVal (tag_of ho) (length (objects s) * 2 + 1), s\<lparr>objects := objects s @ [ho]\<rparr>)"
  by (simp add: add_host_object_def handle_index)

lemma new_object_holds:
  "holds (s\<lparr>objects := objects s @ [ho]\<rparr>) (length (objects s) * 2 + 1) ho"
  by (simp add: holds_def is_relative_object_handle_def handle_to_index_def) presburger

lemma holds_extend: "holds s h ho \<Longrightarrow> holds (s\<lparr>objects := objects s @ new\<rparr>) h ho"
  by (auto simp: holds_def nth_append)

section \<open>Vectors refine lists\<close>

datatype vec_op =
  OpPut u32 Val | OpDel u32 | OpPushFront Val | OpPopFront | OpPushBack Val | OpPopBack
  | OpInsert u32 Val | OpSlice u32 u32

text \<open>The functions of the host, and what they mean on the list of elements.\<close>

fun vec_call :: "vec_op \<Rightarrow> u32 \<Rightarrow> Val host_fn" where
  "vec_call (OpPut i x) v = vec_put v i x"
| "vec_call (OpDel i) v = vec_del v i"
| "vec_call (OpPushFront x) v = vec_push_front v x"
| "vec_call OpPopFront v = vec_pop_front v"
| "vec_call (OpPushBack x) v = vec_push_back v x"
| "vec_call OpPopBack v = vec_pop_back v"
| "vec_call (OpInsert i x) v = vec_insert v i x"
| "vec_call (OpSlice i j) v = vec_slice v i j"

abbreviation out_of_bounds :: host_error where
  "out_of_bounds \<equiv> HostErr SCE_Object IndexBounds"

fun spec_vec :: "vec_op \<Rightarrow> Val list \<Rightarrow> host_error + Val list" where
  "spec_vec (OpPut i x) xs = (if i < length xs then Inr (xs[i := x]) else Inl out_of_bounds)"
| "spec_vec (OpDel i) xs = (if i < length xs then Inr (take i xs @ drop (i + 1) xs) else Inl out_of_bounds)"
| "spec_vec (OpPushFront x) xs = (if length xs < U32_MAX then Inr (x # xs) else Inl out_of_bounds)"
| "spec_vec OpPopFront xs = (case xs of [] \<Rightarrow> Inl out_of_bounds | y # ys \<Rightarrow> Inr ys)"
| "spec_vec (OpPushBack x) xs = (if length xs < U32_MAX then Inr (xs @ [x]) else Inl out_of_bounds)"
| "spec_vec OpPopBack xs = (if xs = [] then Inl out_of_bounds else Inr (butlast xs))"
| "spec_vec (OpInsert i x) xs =
     (if i \<le> length xs \<and> length xs < U32_MAX then Inr (take i xs @ x # drop i xs) else Inl out_of_bounds)"
| "spec_vec (OpSlice i j) xs =
     (if i > length xs \<or> j > length xs then Inl out_of_bounds
      else if i > j then Inl (HostErr SCE_Object InvalidInput)
      else Inr (take (j - i) (drop i xs)))"

lemmas vec_call_defs =
  vec_put_def vec_del_def vec_push_front_def vec_pop_front_def vec_push_back_def vec_pop_back_def vec_insert_def vec_slice_def

lemma vector_on_lists:
  assumes "holds s v (HVec xs)" and "length xs \<le> U32_MAX"
  shows "vec_call op v s = (case spec_vec op xs of Inl e \<Rightarrow> Inl e | Inr ys \<Rightarrow> add_host_object (HVec ys) s)"
proof -
  note visit = visit_holds [OF assms(1), of as_vec xs, simplified]
  have "U32_MAX < U64_MAX - 1"
    by (simp add: U32_MAX_def U64_MAX_def)
  then show ?thesis
    using assms(2)
    by (cases op)
      (auto simp: vec_call_defs try_read_def visit index_defs vector_defs plain_errors checked_add_u64_def
        butlast_conv_take drop_Suc neq_Nil_conv split: list.split)
qed

section \<open>Through linear memory and back\<close>

definition payload_ok :: "common \<Rightarrow> Val \<Rightarrow> bool" where
  "payload_ok X v \<longleftrightarrow> get_payload X v < 2 ^ 64 \<and> from_payload X (get_payload X v) = v"

text \<open>What the guest finds in its memory: references count on from the size of its table.\<close>

fun relative :: "nat \<Rightarrow> Val list \<Rightarrow> Val list" where
  "relative n [] = []"
| "relative n (ObjVal tag h # vs) = ObjVal tag (n * 2) # relative (n + 1) vs"
| "relative n (v # vs) = v # relative n vs"

fun entries :: "Val list \<Rightarrow> (Tag \<times> u32) list" where
  "entries [] = []"
| "entries (ObjVal tag h # vs) = (tag, h) # entries vs"
| "entries (v # vs) = entries vs"

lemma relative_entries_cases:
  obtains (ref) tag h where "v = ObjVal tag h" | (small) "\<And>n vs. relative n (v # vs) = v # relative n vs"
      "\<And>vs. entries (v # vs) = entries vs" "\<And>s. absolute_to_relative v s = Inr (v, s)" "\<And>s. relative_to_absolute v s = Inr v"
      "\<forall>tag h. v \<noteq> ObjVal tag h"
  by (cases v) auto

lemma relative_length [simp]: "length (relative n vs) = length vs"
  by (induction n vs rule: relative.induct) auto

lemma entries_length: "length (entries vs) \<le> length vs"
  by (induction vs rule: entries.induct) auto

lemma to_le_length [simp]: "length (to_le n x) = n"
  by (induction n x rule: to_le.induct) auto

lemma from_le_to_le: "x < 256 ^ n \<Longrightarrow> from_le (to_le n x) = x"
  by (induction n x rule: to_le.induct) (auto simp: less_mult_imp_div_less mult.commute)

definition absolute :: "Val list \<Rightarrow> bool" where
  "absolute vs \<longleftrightarrow> (\<forall>tag h. ObjVal tag h \<in> set vs \<longrightarrow> \<not> is_relative_object_handle h)"

lemma write_all:
  assumes "cur_frame s = Some (ContractVM table m)" and "absolute vs" and "length table + length vs \<le> 2 ^ 31"
  shows "map_query (write_val X) vs s =
    Inr (map (\<lambda>v. to_le 8 (get_payload X v)) (relative (length table) vs), set_table (table @ entries vs) s)"
  using assms
proof (induction vs arbitrary: s table)
  case Nil
  then show ?case by (simp add: set_table_def)
next
  case (Cons v vs)
  show ?case
  proof (cases v rule: relative_entries_cases)
    case (ref tag h)
    let ?s = "set_table (table @ [(tag, h)]) s"
    have "write_val X v s = Inr (to_le 8 (get_payload X (ObjVal tag (length table * 2))), ?s)"
      using Cons.prems ref
      by (simp add: write_val_def bindq_def ret_def with_current_frame_relative_object_table_def handle_index absolute_def)
    moreover have "cur_frame ?s = Some (ContractVM (table @ [(tag, h)]) m)"
      using Cons.prems by (simp add: set_table_def)
    from Cons.IH [OF this] have "map_query (write_val X) vs ?s =
        Inr (map (\<lambda>v. to_le 8 (get_payload X v)) (relative (length table + 1) vs), set_table ((table @ [(tag, h)]) @ entries vs) ?s)"
      using Cons.prems by (simp add: absolute_def)
    moreover have "set_table ((table @ [(tag, h)]) @ entries vs) ?s = set_table (table @ entries (v # vs)) s"
      using Cons.prems ref by (simp add: set_table_def)
    ultimately show ?thesis
      using ref by simp
  next
    case small
    have "map_query (write_val X) vs s =
        Inr (map (\<lambda>v. to_le 8 (get_payload X v)) (relative (length table) vs), set_table (table @ entries vs) s)"
      using Cons.prems by (intro Cons.IH) (auto simp: absolute_def)
    moreover have "write_val X v s = Inr (to_le 8 (get_payload X v), s)"
      using small(3) by (simp add: write_val_def bindq_def ret_def)
    ultimately show ?thesis
      using small(1,2) by simp
  qed
qed

lemma read_all:
  assumes "cur_frame s = Some (ContractVM (table @ entries vs @ rest) m)"
    and "\<forall>v\<in>set (relative (length table) vs). payload_ok X v"
  shows "map_query (read_val X) (map (\<lambda>v. to_le 8 (get_payload X v)) (relative (length table) vs)) s = Inr (vs, s)"
  using assms
proof (induction vs arbitrary: table)
  case Nil
  then show ?case by simp
next
  case (Cons v vs)
  have le: "read_val X (to_le 8 (get_payload X r)) s = (case relative_to_absolute r s of Inl e \<Rightarrow> Inl e | Inr w \<Rightarrow> Inr (w, s))"
    if "r \<in> set (relative (length table) (v # vs))" for r
    using Cons.prems(2) that by (simp add: payload_ok_def read_val_def try_read_def ret_def from_le_to_le split: sum.split)
  show ?case
  proof (cases v rule: relative_entries_cases)
    case (ref tag h)
    have "relative_to_absolute (ObjVal tag (length table * 2)) s = Inr v"
      using Cons.prems(1) ref
      by (simp add: with_current_frame_relative_object_table_def is_relative_object_handle_def handle_to_index_def Let_def nth_append)
    moreover have "map_query (read_val X) (map (\<lambda>v. to_le 8 (get_payload X v)) (relative (length (table @ [(tag, h)])) vs)) s = Inr (vs, s)"
      using Cons.prems ref by (intro Cons.IH) auto
    ultimately show ?thesis
      using ref le [of "ObjVal tag (length table * 2)"] by simp
  next
    case small
    have "map_query (read_val X) (map (\<lambda>v. to_le 8 (get_payload X v)) (relative (length table) vs)) s = Inr (vs, s)"
      using Cons.prems small(1,2) by (intro Cons.IH) auto
    then show ?thesis
      using small(1,4) le [of v] by simp
  qed
qed

lemma chunks8_concat: "\<forall>c\<in>set cs. length c = 8 \<Longrightarrow> chunks8 (length cs) (concat cs) = cs"
  by (induction cs) auto

lemma length_blocks: "length (concat (map (\<lambda>v. to_le 8 (f v)) vs)) = 8 * length vs"
  by (induction vs) auto

lemma get_splice: "pos + length bs \<le> length mem \<Longrightarrow> get_range pos (pos + length bs) (splice pos bs mem) = Some bs"
  by (simp add: get_range_def splice_def)

lemma chunks_ok:
  "\<forall>c\<in>set cs. length c = 8 \<Longrightarrow>
     map_query (\<lambda>src. if length src = 8 then f src else fail e) cs s = map_query f cs s"
  by (induction cs arbitrary: s) (auto split: sum.split)

lemma unpack_run:
  assumes "holds s v (HVec xs)" and "cur_frame s = Some (ContractVM table (Some mem))" and "absolute xs"
    and "length table + length xs \<le> 2 ^ 31" and "pos + 8 * length xs \<le> length mem" and "pos + 8 * length xs \<le> U32_MAX"
  shows "vec_unpack_to_linear_memory X v pos (length xs) s =
    Inr (VoidVal, set_memory (splice pos (concat (map (\<lambda>v. to_le 8 (get_payload X v)) (relative (length table) xs))) mem)
      (set_table (table @ entries xs) s))"
proof -
  have "vals_end pos (length xs) = Inr (pos + 8 * length xs)"
    using assms(6) by (simp add: vals_end_def usize_to_u32_def checked_add_u32_def mult.commute)
  moreover have "\<exists>sl. get_range pos (pos + 8 * length xs) mem = Some sl"
    using assms(5) by (simp add: get_range_def)
  ultimately show ?thesis
    using write_all [OF assms(2-4), of X] assms(2)
    by (auto simp: visit_holds [OF assms(1), of as_vec xs] vec_unpack_to_linear_memory_def metered_vm_write_vals_to_linear_memory_def try_read_def bindq_def ret_def
        get_mem_fn_args_def get_memory_def)
qed

lemma pack_run:
  assumes "cur_frame s = Some (ContractVM (table @ entries xs) (Some mem))"
    and "get_range pos (pos + 8 * length xs) mem = Some (concat (map (\<lambda>v. to_le 8 (get_payload X v)) (relative (length table) xs)))"
    and "\<forall>v\<in>set (relative (length table) xs). payload_ok X v" and "pos + 8 * length xs \<le> U32_MAX"
    and "\<forall>v\<in>set xs. check_val_integrity X (objects s) v = Inr ()" and "length (objects s) < 2 ^ 31"
  shows "vec_new_from_linear_memory X pos (length xs) s =
    Inr (ObjVal VecObject (length (objects s) * 2 + 1), s\<lparr>objects := objects s @ [HVec xs]\<rparr>)"
proof -
  let ?bs = "map (\<lambda>v. to_le 8 (get_payload X v)) (relative (length table) xs)"
  have "vals_end pos (length xs) = Inr (pos + 8 * length xs)"
    using assms(4) by (simp add: vals_end_def usize_to_u32_def checked_add_u32_def mult.commute)
  moreover have "chunks8 (length xs) (concat ?bs) = ?bs"
    using chunks8_concat [of ?bs] by simp
  moreover have "map_query (\<lambda>src. if length src = 8 then read_val X src else fail (HostErr SCE_Context InternalError)) ?bs s = Inr (xs, s)"
    using chunks_ok [of ?bs "read_val X"] read_all [of s table xs "[]" "Some mem" X] assms(1,3) by simp
  moreover have "check_vals X vs s = Inr ()" if "set vs \<subseteq> set xs" for vs
    using that assms(5) by (induction vs) (auto simp: check_val_def)
  ultimately show ?thesis
    using assms(1,2,4) add_object [OF assms(6)]
    by (simp add: vec_new_from_linear_memory_def metered_vm_read_vals_from_linear_memory_def try_read_def bindq_def
        get_mem_fn_args_def get_memory_def mv_from_vec_def)
qed

section \<open>Maps refine the ordered map\<close>

text \<open>The comparison orders the values of a set \<open>A\<close> (those that refer to objects of the host) by a rank in
  a linear order.  Then the functions on maps with keys in \<open>A\<close> are those of \<open>Metered_Map\<close> on the ranks.\<close>

definition ordering :: "'a::linorder \<Rightarrow> 'a \<Rightarrow> Ordering" where
  "ordering a b = (if a = b then Equal else if a < b then Less else Greater)"

definition ranked :: "('k \<Rightarrow> 'a::linorder) \<Rightarrow> ('k \<times> 'v) list \<Rightarrow> ('a \<times> 'v) list" where
  "ranked r m = map (\<lambda>(k, v). (r k, v)) m"

lemma ranked_simps [simp]:
  "ranked r [] = []" "ranked r (p # m) = (r (fst p), snd p) # ranked r m" "ranked r (m @ m') = ranked r m @ ranked r m'"
  "length (ranked r m) = length m" "ranked r (take n m) = take n (ranked r m)" "ranked r (drop n m) = drop n (ranked r m)"
  "i < length m \<Longrightarrow> ranked r m ! i = (r (fst (m ! i)), snd (m ! i))"
  by (simp_all add: ranked_def case_prod_beta take_map drop_map)

definition ranks :: "'k set \<Rightarrow> ('k \<Rightarrow> 'a::linorder) \<Rightarrow> 'k compare \<Rightarrow> bool" where
  "ranks A r cmp \<longleftrightarrow> (\<forall>a\<in>A. \<forall>b\<in>A. cmp a b = Inr (ordering (r a) (r b)))"

definition keyed :: "'k set \<Rightarrow> ('k \<times> 'v) list \<Rightarrow> bool" where
  "keyed A m \<longleftrightarrow> fst ` set m \<subseteq> A"

lemma keyed_simps [simp]:
  "keyed A []" "keyed A (p # m) \<longleftrightarrow> fst p \<in> A \<and> keyed A m" "keyed A (m @ m') \<longleftrightarrow> keyed A m \<and> keyed A m'"
  by (auto simp: keyed_def)

lemma keyed_parts: "keyed A m \<Longrightarrow> keyed A (take i m)" "keyed A m \<Longrightarrow> keyed A (drop i m)" "keyed A m \<Longrightarrow> i < length m \<Longrightarrow> fst (m ! i) \<in> A"
  using set_take_subset [of i m] set_drop_subset [of i m] by (force simp: keyed_def)+

lemma find_ranked:
  assumes "ranks A r cmp" and "keyed A m" and "k \<in> A"
  shows "hm_find cmp m k = Inr (mm_find (ranked r m) (r k))"
proof -
  have "bsearch_by (\<lambda>p. cmp (fst p) k) m left right = Inr (bsearch (ranked r m) (r k) left right)" if "right \<le> length m" for left right
    using that
  proof (induction "ranked r m" "r k" left right rule: bsearch.induct)
    case (1 left right)
    then show ?case
      using assms keyed_parts(3) [OF assms(2), of "left + (right - left) div 2"]
      by (subst bsearch_by.simps, subst bsearch.simps) (auto simp: ranks_def ordering_def Let_def)
  qed
  then show ?thesis
    by (simp add: hm_find_def mm_find_def)
qed

lemma windows_ranked:
  "ranks A r cmp \<Longrightarrow> keyed A m \<Longrightarrow> hm_check_windows cmp m = (if windows_increasing (ranked r m) then Inr () else Inl (HostErr SCE_Object InvalidInput))"
  by (induction cmp m rule: hm_check_windows.induct) (auto simp: ranks_def ordering_def)

definition on_ok :: "('a \<Rightarrow> 'b) \<Rightarrow> 'e + 'a \<Rightarrow> 'e + 'b" where
  "on_ok f x = (case x of Inl e \<Rightarrow> Inl e | Inr a \<Rightarrow> Inr (f a))"

lemma on_ok_simps [simp]: "on_ok f (Inl e) = Inl e" "on_ok f (Inr a) = Inr (f a)"
  by (simp_all add: on_ok_def)

lemma from_exact_iter_ranked:
  "ranks A r cmp \<Longrightarrow> keyed A m \<Longrightarrow> mm_from_exact_iter (ranked r m) = on_ok (ranked r) (hm_from_exact_iter cmp m)"
  by (auto simp: hm_from_exact_iter_def hm_from_map_def mm_from_exact_iter_def mm_from_map_def windows_ranked)

lemma insert_ranked:
  assumes "ranks A r cmp" and "keyed A m" and "k \<in> A"
  shows "mm_insert (r k) v (ranked r m) = on_ok (ranked r) (hm_insert cmp k v m)"
proof -
  have "mm_from_exact_iter (take i (ranked r m) @ [(r k, v)] @ drop j (ranked r m)) =
      on_ok (ranked r) (hm_from_exact_iter cmp (take i m @ [(k, v)] @ drop j m))" for i j
    using from_exact_iter_ranked [OF assms(1), of "take i m @ [(k, v)] @ drop j m"] assms(2,3) by (simp add: keyed_parts)
  then show ?thesis
    by (auto simp: hm_insert_def mm_insert_def find_ranked [OF assms] split: sum.split)
qed

lemma get_ranked: "ranks A r cmp \<Longrightarrow> keyed A m \<Longrightarrow> k \<in> A \<Longrightarrow> hm_get cmp k m = mm_get (r k) (ranked r m)"
  by (simp add: hm_get_def mm_get_def find_ranked split: sum.split)

lemma contains_ranked: "ranks A r cmp \<Longrightarrow> keyed A m \<Longrightarrow> k \<in> A \<Longrightarrow> hm_contains_key cmp k m = Inr (mm_contains_key (r k) (ranked r m))"
  by (simp add: hm_contains_key_def mm_contains_key_def find_ranked split: sum.split)

lemma remove_ranked:
  fixes r :: "'k \<Rightarrow> 'a::linorder" and m :: "('k \<times> 'v) list"
  assumes "ranks A r cmp" and "keyed A m" and "k \<in> A"
  shows "mm_remove (r k) (ranked r m) = on_ok (map_option (\<lambda>(m', v). (ranked r m', v))) (hm_remove cmp k m)"
proof -
  define rest where "rest = (\<lambda>(l :: ('k \<times> 'v) list) i. if i > 0 then take i l @ drop (i + 1) l else drop 1 l)"
  define rest' where "rest' = (\<lambda>(l :: ('a \<times> 'v) list) i. if i > 0 then take i l @ drop (i + 1) l else drop 1 l)"
  have "rest' (ranked r m) i = ranked r (rest m i)" for i
    by (simp add: rest_def rest'_def)
  then have it: "mm_from_exact_iter (rest' (ranked r m) i) = on_ok (ranked r) (hm_from_exact_iter cmp (rest m i))" for i
    using from_exact_iter_ranked [OF assms(1), of "rest m i"] assms(2) by (simp add: rest_def keyed_parts)
  have "hm_remove cmp k m =
      (case mm_find (ranked r m) (r k) of
         Inr found \<Rightarrow>
           (case hm_from_exact_iter cmp (rest m found) of
              Inl e \<Rightarrow> Inl e
            | Inr new \<Rightarrow>
                if found < length m then Inr (Some (new, snd (m ! found))) else Inl (HostErr SCE_Object InternalError))
       | Inl _ \<Rightarrow> Inr None)"
    unfolding hm_remove_def rest_def find_ranked [OF assms] by (simp only: sum.case)
  moreover have "mm_remove (r k) (ranked r m) =
      (case mm_find (ranked r m) (r k) of
         Inr found \<Rightarrow>
           (case mm_from_exact_iter (rest' (ranked r m) found) of
              Inl e \<Rightarrow> Inl e
            | Inr new \<Rightarrow>
                if found < length m then Inr (Some (new, snd (ranked r m ! found))) else Inl (HostErr SCE_Object InternalError))
       | Inl _ \<Rightarrow> Inr None)"
    unfolding mm_remove_def rest'_def by (simp only: Let_def ranked_simps)
  ultimately show ?thesis
    by (auto simp: it split: sum.split)
qed

text \<open>A vector of pairs represents a finite map on ranks.\<close>

definition represents :: "'k set \<Rightarrow> ('k \<Rightarrow> 'a::linorder) \<Rightarrow> ('k \<times> 'v) list \<Rightarrow> ('a \<rightharpoonup> 'v) \<Rightarrow> bool" where
  "represents A r m fm \<longleftrightarrow> keyed A m \<and> mm_invar (ranked r m) \<and> map_of (ranked r m) = fm"

lemma iter_result: "hm_from_exact_iter cmp m = Inr m' \<Longrightarrow> m' = m"
  by (simp add: hm_from_exact_iter_def hm_from_map_def split: sum.splits if_splits)

lemma insert_represents:
  assumes "ranks A r cmp" and "represents A r m fm" and "k \<in> A" and "length m < U32_MAX"
  shows "\<exists>m'. hm_insert cmp k v m = Inr m' \<and> represents A r m' (fm(r k \<mapsto> v))"
proof -
  have m: "keyed A m" "mm_invar (ranked r m)" "map_of (ranked r m) = fm"
    using assms(2) by (simp_all add: represents_def)
  obtain n where n: "mm_insert (r k) v (ranked r m) = Inr n"
    using mm.update_ok [OF m(2)] assms(4) by auto
  then obtain m' where m': "hm_insert cmp k v m = Inr m'" "n = ranked r m'"
    using insert_ranked [OF assms(1) m(1) assms(3)] by (cases "hm_insert cmp k v m") auto
  then have "keyed A m'"
    using m(1) assms(3) by (auto simp: hm_insert_def keyed_parts dest!: iter_result split: sum.splits if_splits)
  then show ?thesis
    using m m' n mm.lookup_update mm.invar_update by (auto simp: represents_def)
qed

lemma remove_represents:
  assumes "ranks A r cmp" and "represents A r m fm" and "k \<in> A"
  shows "case fm (r k) of
      None \<Rightarrow> hm_remove cmp k m = Inr None
    | Some v \<Rightarrow> \<exists>m'. hm_remove cmp k m = Inr (Some (m', v)) \<and> represents A r m' (fm(r k := None))"
proof -
  have m: "keyed A m" "mm_invar (ranked r m)" "map_of (ranked r m) = fm"
    using assms(2) by (simp_all add: represents_def)
  note ranked = remove_ranked [OF assms(1) m(1) assms(3)]
  show ?thesis
  proof (cases "fm (r k)")
    case None
    then show ?thesis
      using mm.delete_absent [OF m(2)] m(3) ranked by (cases "hm_remove cmp k m") auto
  next
    case (Some v)
    then obtain n where n: "mm_remove (r k) (ranked r m) = Inr (Some (n, v))" "mm_invar n" "map_of n = fm(r k := None)"
      using mm.delete_present [OF m(2)] m(3) by metis
    then obtain m' where m': "hm_remove cmp k m = Inr (Some (m', v))" "n = ranked r m'"
      using ranked by (cases "hm_remove cmp k m") auto
    then have "keyed A m'"
      using m(1) by (auto simp: hm_remove_def keyed_parts dest!: iter_result split: sum.splits if_splits)
    then show ?thesis
      using Some n m' by (auto simp: represents_def)
  qed
qed

lemma card_represents: "represents A r m fm \<Longrightarrow> card (dom fm) = length m"
proof -
  assume "represents A r m fm"
  then have "mm_invar (ranked r m)" "fm = map_of (ranked r m)"
    by (simp_all add: represents_def)
  then show ?thesis
    using distinct_card [OF mm_invar_distinct, of "ranked r m"] by (simp add: dom_map_of_conv_image_fst)
qed

section \<open>Properties\<close>

text \<open>C20: the vector functions are the operations on lists.  On a handle that holds a vector, each of
  \<open>vec_put\<close>, \<open>vec_del\<close>, \<open>vec_push_front\<close>, \<open>vec_pop_front\<close>, \<open>vec_push_back\<close>, \<open>vec_pop_back\<close>, \<open>vec_insert\<close> and \<open>vec_slice\<close>
  fails exactly where the list operation is undefined or the length would leave the 32-bit range,
  with the error of the specification; else it returns a new handle that holds the resulting
  list, and changes nothing else.\<close>

theorem vectors_refine_lists:
  assumes "holds s v (HVec xs)" and "length xs \<le> U32_MAX" and "length (objects s) < 2 ^ 31"
  shows "vec_call op v s =
    (case spec_vec op xs of
       Inl e \<Rightarrow> Inl e
     | Inr ys \<Rightarrow> Inr (ObjVal VecObject (length (objects s) * 2 + 1), s\<lparr>objects := objects s @ [HVec ys]\<rparr>))"
  using vector_on_lists [OF assms(1,2), of op] add_object [OF assms(3)] by (simp split: sum.split)

theorem vectors_refine_lists_witness:
  "vec_call (OpInsert 1 VoidVal) 1 (host_with []) =
    Inr (ObjVal VecObject 5, host_with []\<lparr>objects := objects (host_with []) @ [HVec [U32Val 7, VoidVal, U32Val 8]]\<rparr>)"
  using vectors_refine_lists [of "host_with []" 1 "[U32Val 7, U32Val 8]" "OpInsert 1 VoidVal"]
  by (simp add: holds_def host_with_def is_relative_object_handle_def handle_to_index_def U32_MAX_def)

text \<open>C21: the map functions are the operations of a finite map.  Where the comparison of values orders the
  values of a set by rank, a handle holds a map with keys from that set, and the map represents a
  finite map on ranks: \<open>map_put\<close> returns a new handle whose map represents the updated finite map;
  \<open>map_get\<close> and \<open>map_has\<close> read the finite map, \<open>map_len\<close> is its size; \<open>map_del\<close> returns a new
  handle whose map represents the finite map without the key, and fails if the key is missing.\<close>

theorem maps_refine_finite_maps:
  assumes "holds s h (HMap m)" and "represents A r m fm" and "ranks A r (compare_val X (objects s))" and "k \<in> A"
    and "length m < U32_MAX" and "length (objects s) < 2 ^ 31"
  shows "(\<exists>m'. map_put X h k v s = Inr (ObjVal MapObject (length (objects s) * 2 + 1), s\<lparr>objects := objects s @ [HMap m']\<rparr>)
        \<and> represents A r m' (fm(r k \<mapsto> v)))
    \<and> map_get X h k s = (case fm (r k) of None \<Rightarrow> Inl (HostErr SCE_Object MissingValue) | Some u \<Rightarrow> Inr (u, s))
    \<and> map_has X h k s = Inr (BoolVal (r k \<in> dom fm), s)
    \<and> map_len h s = Inr (U32Val (card (dom fm)), s)
    \<and> (case fm (r k) of
        None \<Rightarrow> map_del X h k s = Inl (HostErr SCE_Object MissingValue)
      | Some _ \<Rightarrow>
          \<exists>m'. map_del X h k s = Inr (ObjVal MapObject (length (objects s) * 2 + 1), s\<lparr>objects := objects s @ [HMap m']\<rparr>)
            \<and> represents A r m' (fm(r k := None)))" (is "?put \<and> ?get \<and> ?has \<and> ?len \<and> ?del")
proof (intro conjI)
  have m: "keyed A m" "mm_invar (ranked r m)" "map_of (ranked r m) = fm"
    using assms(2) by (simp_all add: represents_def)
  note read = visit_holds [OF assms(1)] try_read_def ret_def fail_def
  show ?put
    using insert_represents [OF assms(3,2,4,5), of v] add_object [OF assms(6)] by (auto simp: map_put_def read)
  show ?get
    using get_ranked [OF assms(3) m(1) assms(4)] mm.get_lookup [OF m(2)] m(3)
    by (simp add: map_get_def read split: option.split)
  show ?has
    using contains_ranked [OF assms(3) m(1) assms(4)] mm_contains_key_lookup [OF m(2)] m(3) by (simp add: map_has_def read)
  show ?len
    using card_represents [OF assms(2)] assms(5) by (simp add: map_len_def read usize_to_u32val_def usize_to_u32_def)
  show ?del
    using remove_represents [OF assms(3,2,4)] add_object [OF assms(6)]
    by (auto simp: map_del_def read split: option.splits)
qed

definition map_host :: obj_host where
  "map_host = \<lparr>objects = [HMap [(U32Val 2, VoidVal), (U32Val 5, BoolVal True)]], cur_frame = None\<rparr>"

theorem maps_refine_finite_maps_witness:
  "map_get plain_common 1 (U32Val 5) map_host = Inr (BoolVal True, map_host)
    \<and> (\<exists>h' s'. map_put plain_common 1 (U32Val 3) VoidVal map_host = Inr (h', s'))"
proof -
  let ?r = "\<lambda>v. snd (rank v)" and ?m = "[(U32Val 2, VoidVal), (U32Val 5, BoolVal True)]"
  have "ranks (range U32Val) ?r (compare_val plain_common (objects map_host))"
    by (auto simp: ranks_def plain_common_def compare_rank_def ordering_def)
  moreover have "represents (range U32Val) ?r ?m [2 \<mapsto> VoidVal, 5 \<mapsto> BoolVal True]"
    by (auto simp: represents_def mm_invar_def U32_MAX_def fun_eq_iff)
  moreover have "holds map_host 1 (HMap ?m)"
    by (simp add: holds_def map_host_def is_relative_object_handle_def handle_to_index_def)
  moreover have "length ?m < U32_MAX" and "length (objects map_host) < 2 ^ 31"
    by (simp_all add: map_host_def U32_MAX_def)
  ultimately show ?thesis
    using maps_refine_finite_maps [of map_host 1 ?m "range U32Val" ?r "[2 \<mapsto> VoidVal, 5 \<mapsto> BoolVal True]" plain_common "U32Val 5" VoidVal]
      maps_refine_finite_maps [of map_host 1 ?m "range U32Val" ?r "[2 \<mapsto> VoidVal, 5 \<mapsto> BoolVal True]" plain_common "U32Val 3" VoidVal]
    by auto
qed

text \<open>A vector survives the way through the memory of a contract.  If a contract unpacks a vector
  into its linear memory and makes a vector from the same memory, it gets a new vector with the
  same elements, references included, although its memory only ever held relative references;
  the old objects are unchanged.\<close>

lemma memory_round_trip:
  assumes "holds s v (HVec xs)" and "cur_frame s = Some (ContractVM table (Some mem))" and "absolute xs"
    and "length table + length xs \<le> 2 ^ 31" and "length (objects s) < 2 ^ 31"
    and "pos + 8 * length xs \<le> length mem" and "pos + 8 * length xs \<le> U32_MAX"
    and "\<forall>v\<in>set (relative (length table) xs). payload_ok X v"
    and "\<forall>v\<in>set xs. check_val_integrity X (objects s) v = Inr ()"
  shows "\<exists>s'. bindq (vec_unpack_to_linear_memory X v pos (length xs)) (\<lambda>_. vec_new_from_linear_memory X pos (length xs)) s =
      Inr (ObjVal VecObject (length (objects s) * 2 + 1), s') \<and> objects s' = objects s @ [HVec xs]"
proof -
  let ?bs = "concat (map (\<lambda>v. to_le 8 (get_payload X v)) (relative (length table) xs))"
  let ?s = "set_memory (splice pos ?bs mem) (set_table (table @ entries xs) s)"
  have len: "length ?bs = 8 * length xs"
    by (simp add: length_blocks)
  have f: "cur_frame ?s = Some (ContractVM (table @ entries xs) (Some (splice pos ?bs mem)))" and o: "objects ?s = objects s"
    using assms(2) by (simp_all add: set_memory_def set_table_def)
  have "get_range pos (pos + 8 * length xs) (splice pos ?bs mem) = Some ?bs"
    using get_splice [of pos ?bs mem] assms(6) len by simp
  from pack_run [OF f this assms(8,7)] assms(5,9) unpack_run [OF assms(1-4,6,7), of X] show ?thesis
    by (simp add: bindq_def o)
qed

lemma plain_payload_object: "h \<le> U32_MAX \<Longrightarrow> payload_ok plain_common (ObjVal tag h)"
proof -
  assume h: "h \<le> U32_MAX"
  have "tag_number tag tags < 16" "tags ! tag_number tag tags = tag"
    by (cases tag; simp add: tags_def)+
  moreover from this(1) have "(2 * (16 * h + tag_number tag tags) + 1) div 2 = 16 * h + tag_number tag tags"
      "(16 * h + tag_number tag tags) mod 16 = tag_number tag tags" "(16 * h + tag_number tag tags) div 16 = h"
    by simp_all
  moreover from calculation(1) have "2 * (16 * h + tag_number tag tags) + 1 < 2 ^ 60"
    using h by (simp add: U32_MAX_def)
  ultimately show ?thesis
    by (simp add: payload_ok_def plain_common_def plain_value_def)
qed

text \<open>A vector with a number and a reference to a byte string, unpacked at position 8.\<close>

definition packing_host :: obj_host where
  "packing_host = \<lparr>objects = [HBytes [1, 2], HVec [U32Val 7, ObjVal BytesObject 1]],
     cur_frame = Some (ContractVM [(VecObject, 3)] (Some (replicate 32 0)))\<rparr>"

lemma memory_round_trip_witness:
  "\<exists>s'. bindq (vec_unpack_to_linear_memory plain_common 3 8 2) (\<lambda>_. vec_new_from_linear_memory plain_common 8 2) packing_host =
      Inr (ObjVal VecObject 5, s') \<and> objects s' = objects packing_host @ [HVec [U32Val 7, ObjVal BytesObject 1]]"
proof -
  have "payload_ok plain_common (U32Val 7)"
    by (simp add: payload_ok_def plain_common_def plain_value_def)
  moreover have "payload_ok plain_common (ObjVal BytesObject 2)"
    by (rule plain_payload_object) (simp add: U32_MAX_def)
  moreover have "check_val_integrity plain_common (objects packing_host) v = Inr ()" if "v \<in> {U32Val 7, ObjVal BytesObject 1}" for v
    using that by (auto simp: plain_common_def packing_host_def check_obj_integrity_def visit_obj_untyped_def
        is_relative_object_handle_def handle_to_index_def)
  ultimately show ?thesis
    using memory_round_trip [of packing_host 3 "[U32Val 7, ObjVal BytesObject 1]" "[(VecObject, 3)]" "replicate 32 0" 8 plain_common]
    by (simp add: packing_host_def holds_def absolute_def is_relative_object_handle_def handle_to_index_def U32_MAX_def
        numeral_2_eq_2 [symmetric])
qed

text \<open>C40: handles are unique up to \<open>2 ^ 31\<close> objects and not beyond.  Below that bound the handle of an
  index leads back to the index and tells relative from absolute; an index from \<open>2 ^ 31\<close> on that fits in 32
  bits gets the handle of another index instead of the overflow error, because \<open>checked_shl(1)\<close> does
  not detect bits that are shifted out.\<close>

theorem handles_unique_below_bound:
  "(if i < 2 ^ 31 then
      \<exists>h. index_to_handle i rel = Inr h \<and> handle_to_index h = i \<and> is_relative_object_handle h = rel \<and> h \<le> U32_MAX
    else if i \<le> U32_MAX then index_to_handle i rel = index_to_handle (i - 2 ^ 31) rel
    else index_to_handle i rel = Inl err_arith_overflow)"
proof (cases "i < 2 ^ 31")
  case True
  then show ?thesis
    by (cases rel) (simp_all add: handle_index is_relative_object_handle_def handle_to_index_def U32_MAX_def, presburger)
next
  case False
  then obtain j where "i = j + 2 ^ 31"
    by (metis le_add_diff_inverse2 not_less)
  then show ?thesis
    by (simp add: index_to_handle_def U32_MAX_def Let_def)
qed

end
