(* ===== verification/Value_Conversion.thy ===== *)
theory Value_Conversion
  imports Object_Laws "HOL-Library.Word"
begin

text \<open>
  The conversion between values of the host and XDR values, \<open>src/soroban-env-host-patch/src/host/conversion.rs\<close>,
  and the number objects of the module \<open>int\<close> of \<open>host.rs\<close>.  An XDR value is a tree, a value of the host a
  small value or a reference into the object table; the conversion of a tree allocates one object
  per node that is not small, the conversion back follows the references.  Both count down the
  depth limit of the budget, which bounds the recursion also on a table with cycles.

  Which values are small, their conversion, and the pieces of the wide integers are decided by
  \<open>soroban-env-common\<close> and \<open>ethnum\<close>: the record \<open>conversion\<close>.
\<close>

section \<open>XDR values\<close>

type_synonym word64 = "64 word"

datatype ScVal =
  ScBool bool | ScVoid | ScError u32 u32 | ScU32 u32 | ScI32 int | ScU64 u64 | ScI64 i64 | ScTimepoint u64 | ScDuration u64
  | ScU128 word64 word64 | ScI128 word64 word64 | ScU256 word64 word64 word64 word64 | ScI256 word64 word64 word64 word64
  | ScBytes bytes | ScString bytes | ScSymbol bytes | ScVec "ScVal list option" | ScMap "(ScVal \<times> ScVal) list option"
  | ScAddress address | ScContractInstance "bytes option" "(ScVal \<times> ScVal) list option" | ScLedgerKeyContractInstance
  | ScLedgerKeyNonce i64

record conversion =
  is_object :: "ScVal \<Rightarrow> bool"
  small_to_val :: "ScVal \<Rightarrow> host_error + Val"
  small_from_val :: "Val \<Rightarrow> host_error + ScVal"
  can_represent_scval :: "ScVal \<Rightarrow> bool"
  u128_into_pieces :: "nat \<Rightarrow> word64 \<times> word64"
  u128_from_pieces :: "word64 \<times> word64 \<Rightarrow> nat"
  i128_into_pieces :: "int \<Rightarrow> word64 \<times> word64"
  i128_from_pieces :: "word64 \<times> word64 \<Rightarrow> int"
  u256_into_pieces :: "nat \<Rightarrow> word64 \<times> word64 \<times> word64 \<times> word64"
  u256_from_pieces :: "word64 \<times> word64 \<times> word64 \<times> word64 \<Rightarrow> nat"
  i256_into_pieces :: "int \<Rightarrow> word64 \<times> word64 \<times> word64 \<times> word64"
  i256_from_pieces :: "word64 \<times> word64 \<times> word64 \<times> word64 \<Rightarrow> int"

section \<open>From the host to XDR\<close>

definition try_sum :: "'e + 'a \<Rightarrow> ('a \<Rightarrow> 'e + 'b) \<Rightarrow> 'e + 'b" where
  "try_sum x f = (case x of Inl e \<Rightarrow> Inl e | Inr a \<Rightarrow> f a)"

lemma try_sum_simps [simp]: "try_sum (Inl e) f = Inl e" "try_sum (Inr a) f = f a"
  by (simp_all add: try_sum_def)

lemma try_sum_ok: "try_sum x f = Inr b \<longleftrightarrow> (\<exists>a. x = Inr a \<and> f a = Inr b)"
  by (simp add: try_sum_def split: sum.split)

text \<open>\<open>collect\<close> into a \<open>Result\<close>: the first error, or all results.\<close>

fun collect :: "('a \<Rightarrow> 'e + 'b) \<Rightarrow> 'a list \<Rightarrow> 'e + 'b list" where
  "collect f [] = Inr []"
| "collect f (x # xs) = try_sum (f x) (\<lambda>y. try_sum (collect f xs) (\<lambda>ys. Inr (y # ys)))"

definition depth_exceeded :: host_error where
  "depth_exceeded = HostErr SCE_Context ExceededLimit"

definition check_val_representable_scval :: "conversion \<Rightarrow> ScVal \<Rightarrow> host_error + unit" where
  "check_val_representable_scval V scval =
     (if can_represent_scval V scval then Inr () else Inl (HostErr SCE_Value InternalError))"

definition host_map_to_scmap ::
  "common \<Rightarrow> (Val \<Rightarrow> host_error + ScVal) \<Rightarrow> (Val \<times> Val) list \<Rightarrow> host_error + (ScVal \<times> ScVal) list" where
  "host_map_to_scmap X from_host_val m =
     try_sum (collect (\<lambda>(k, v).
       try_sum (from_host_val k) (\<lambda>key. try_sum (from_host_val v) (\<lambda>val. Inr (key, val)))) m) (\<lambda>mv.
     if length mv \<le> U32_MAX then Inr mv else Inl (xdr_error X))"

fun host_object_to_scval :: "common \<Rightarrow> conversion \<Rightarrow> (Val \<Rightarrow> host_error + ScVal) \<Rightarrow> HostObject \<Rightarrow> host_error + ScVal" where
  "host_object_to_scval X V from_host_val (HVec vv) =
     try_sum (collect from_host_val vv) (\<lambda>sv. if length sv \<le> U32_MAX then Inr (ScVec (Some sv)) else Inl (xdr_error X))"
| "host_object_to_scval X V from_host_val (HMap mm) =
     try_sum (host_map_to_scmap X from_host_val mm) (\<lambda>m. Inr (ScMap (Some m)))"
| "host_object_to_scval X V from_host_val (HU64 u) = Inr (ScU64 u)"
| "host_object_to_scval X V from_host_val (HI64 i) = Inr (ScI64 i)"
| "host_object_to_scval X V from_host_val (HTimePoint tp) = Inr (ScTimepoint tp)"
| "host_object_to_scval X V from_host_val (HDuration d) = Inr (ScDuration d)"
| "host_object_to_scval X V from_host_val (HU128 u) = Inr (case u128_into_pieces V u of (hi, lo) \<Rightarrow> ScU128 hi lo)"
| "host_object_to_scval X V from_host_val (HI128 i) = Inr (case i128_into_pieces V i of (hi, lo) \<Rightarrow> ScI128 hi lo)"
| "host_object_to_scval X V from_host_val (HU256 u) =
     Inr (case u256_into_pieces V u of (hi_hi, hi_lo, lo_hi, lo_lo) \<Rightarrow> ScU256 hi_hi hi_lo lo_hi lo_lo)"
| "host_object_to_scval X V from_host_val (HI256 i) =
     Inr (case i256_into_pieces V i of (hi_hi, hi_lo, lo_hi, lo_lo) \<Rightarrow> ScI256 hi_hi hi_lo lo_hi lo_lo)"
| "host_object_to_scval X V from_host_val (HBytes b) = Inr (ScBytes b)"
| "host_object_to_scval X V from_host_val (HString s) = Inr (ScString s)"
| "host_object_to_scval X V from_host_val (HSymbol s) = Inr (ScSymbol s)"
| "host_object_to_scval X V from_host_val (HAddress addr) = Inr (ScAddress addr)"

definition from_host_obj ::
  "common \<Rightarrow> conversion \<Rightarrow> (Val \<Rightarrow> host_error + ScVal) \<Rightarrow> u32 \<Rightarrow> obj_host \<Rightarrow> host_error + ScVal" where
  "from_host_obj X V from_host_val ob = visit_obj_untyped ob (host_object_to_scval X V from_host_val)"

text \<open>\<open>ScVal::try_from_val\<close> hands an object to \<open>from_host_obj\<close> and converts a small value itself.\<close>

fun from_host_val :: "common \<Rightarrow> conversion \<Rightarrow> obj_host \<Rightarrow> nat \<Rightarrow> Val \<Rightarrow> host_error + ScVal" where
  "from_host_val X V s 0 val = Inl depth_exceeded"
| "from_host_val X V s (Suc depth) val =
     try_sum (case val of
        ObjVal tag handle \<Rightarrow> from_host_obj X V (from_host_val X V s depth) handle s
      | _ \<Rightarrow> small_from_val V val) (\<lambda>scval.
     try_sum (check_val_representable_scval V scval) (\<lambda>_. Inr scval))"

definition vals_to_scval_vec :: "common \<Rightarrow> conversion \<Rightarrow> obj_host \<Rightarrow> nat \<Rightarrow> Val list \<Rightarrow> host_error + ScVal list" where
  "vals_to_scval_vec X V s depth vals =
     try_sum (collect (from_host_val X V s depth) vals) (\<lambda>scs.
     if length scs \<le> U32_MAX then Inr scs else Inl (HostErr SCE_Object ExceededLimit))"

definition vecobject_to_scval_vec :: "common \<Rightarrow> conversion \<Rightarrow> nat \<Rightarrow> u32 \<Rightarrow> obj_host \<Rightarrow> host_error + ScVal list" where
  "vecobject_to_scval_vec X V depth args s = visit_obj as_vec args (vals_to_scval_vec X V s depth) s"

section \<open>From XDR to the host\<close>

fun to_host_obj :: "common \<Rightarrow> conversion \<Rightarrow> (ScVal \<Rightarrow> Val host_fn) \<Rightarrow> ScVal \<Rightarrow> Val host_fn" where
  "to_host_obj X V to_host_val (ScVec (Some v)) =
     bindq (map_query to_host_val v) (\<lambda>vv. try_read (\<lambda>_. mv_from_vec vv) (\<lambda>hv. add_host_object (HVec hv)))"
| "to_host_obj X V to_host_val (ScMap (Some m)) =
     bindq (map_query (\<lambda>(key, val).
       bindq (to_host_val key) (\<lambda>k. bindq (to_host_val val) (\<lambda>v. ret (k, v)))) m) (\<lambda>mm.
     try_read (\<lambda>s. hm_from_map (compare_val X (objects s)) mm) (\<lambda>hm. add_host_object (HMap hm)))"
| "to_host_obj X V to_host_val (ScVec None) = fail (HostErr SCE_Value InvalidInput)"
| "to_host_obj X V to_host_val (ScMap None) = fail (HostErr SCE_Value InvalidInput)"
| "to_host_obj X V to_host_val (ScU64 u) = add_host_object (HU64 u)"
| "to_host_obj X V to_host_val (ScI64 i) = add_host_object (HI64 i)"
| "to_host_obj X V to_host_val (ScTimepoint t) = add_host_object (HTimePoint t)"
| "to_host_obj X V to_host_val (ScDuration d) = add_host_object (HDuration d)"
| "to_host_obj X V to_host_val (ScU128 hi lo) = add_host_object (HU128 (u128_from_pieces V (hi, lo)))"
| "to_host_obj X V to_host_val (ScI128 hi lo) = add_host_object (HI128 (i128_from_pieces V (hi, lo)))"
| "to_host_obj X V to_host_val (ScU256 hi_hi hi_lo lo_hi lo_lo) =
     add_host_object (HU256 (u256_from_pieces V (hi_hi, hi_lo, lo_hi, lo_lo)))"
| "to_host_obj X V to_host_val (ScI256 hi_hi hi_lo lo_hi lo_lo) =
     add_host_object (HI256 (i256_from_pieces V (hi_hi, hi_lo, lo_hi, lo_lo)))"
| "to_host_obj X V to_host_val (ScBytes b) = add_host_object (HBytes b)"
| "to_host_obj X V to_host_val (ScString s) = add_host_object (HString s)"
| "to_host_obj X V to_host_val (ScSymbol s) =
     try_read (\<lambda>_. try_from_bytes X KSymbol s) (\<lambda>b. add_host_object (HSymbol b))"
| "to_host_obj X V to_host_val (ScAddress addr) = add_host_object (HAddress addr)"
| "to_host_obj X V to_host_val _ = fail (HostErr SCE_Value InternalError)"

text \<open>\<open>try_into_val\<close> hands a value that needs an object to \<open>to_host_obj\<close> and converts any other itself.\<close>

fun to_host_val :: "common \<Rightarrow> conversion \<Rightarrow> nat \<Rightarrow> ScVal \<Rightarrow> Val host_fn" where
  "to_host_val X V 0 v = fail depth_exceeded"
| "to_host_val X V (Suc depth) v =
     (if is_object V v then to_host_obj X V (to_host_val X V depth) v
      else try_read (\<lambda>_. small_to_val V v) ret)"

definition to_valid_host_val :: "common \<Rightarrow> conversion \<Rightarrow> nat \<Rightarrow> ScVal \<Rightarrow> Val host_fn" where
  "to_valid_host_val X V depth v s =
     (case to_host_val X V depth v s of
        Inl e \<Rightarrow> Inl (case e of HostErr SCE_Budget _ \<Rightarrow> e | _ \<Rightarrow> HostErr SCE_Value InternalError)
      | Inr r \<Rightarrow> Inr r)"

definition scvals_to_val_vec :: "common \<Rightarrow> conversion \<Rightarrow> nat \<Rightarrow> ScVal list \<Rightarrow> Val list host_fn" where
  "scvals_to_val_vec X V depth = map_query (to_host_val X V depth)"

section \<open>Number objects\<close>

fun as_u64 :: "HostObject \<Rightarrow> u64 option" where
  "as_u64 (HU64 u) = Some u"
| "as_u64 _ = None"

fun as_i64 :: "HostObject \<Rightarrow> i64 option" where
  "as_i64 (HI64 i) = Some i"
| "as_i64 _ = None"

fun as_timepoint :: "HostObject \<Rightarrow> u64 option" where
  "as_timepoint (HTimePoint t) = Some t"
| "as_timepoint _ = None"

fun as_duration :: "HostObject \<Rightarrow> u64 option" where
  "as_duration (HDuration d) = Some d"
| "as_duration _ = None"

fun as_u128 :: "HostObject \<Rightarrow> nat option" where
  "as_u128 (HU128 u) = Some u"
| "as_u128 _ = None"

fun as_i128 :: "HostObject \<Rightarrow> int option" where
  "as_i128 (HI128 i) = Some i"
| "as_i128 _ = None"

fun as_u256 :: "HostObject \<Rightarrow> nat option" where
  "as_u256 (HU256 u) = Some u"
| "as_u256 _ = None"

fun as_i256 :: "HostObject \<Rightarrow> int option" where
  "as_i256 (HI256 i) = Some i"
| "as_i256 _ = None"

definition obj_from_u64 :: "u64 \<Rightarrow> Val host_fn" where
  "obj_from_u64 u = add_host_object (HU64 u)"

definition obj_to_u64 :: "u32 \<Rightarrow> obj_host \<Rightarrow> host_error + u64" where
  "obj_to_u64 obj = visit_obj as_u64 obj Inr"

definition obj_from_i64 :: "i64 \<Rightarrow> Val host_fn" where
  "obj_from_i64 i = add_host_object (HI64 i)"

definition obj_to_i64 :: "u32 \<Rightarrow> obj_host \<Rightarrow> host_error + i64" where
  "obj_to_i64 obj = visit_obj as_i64 obj Inr"

definition timepoint_obj_from_u64 :: "u64 \<Rightarrow> Val host_fn" where
  "timepoint_obj_from_u64 u = add_host_object (HTimePoint u)"

definition timepoint_obj_to_u64 :: "u32 \<Rightarrow> obj_host \<Rightarrow> host_error + u64" where
  "timepoint_obj_to_u64 obj = visit_obj as_timepoint obj Inr"

definition duration_obj_from_u64 :: "u64 \<Rightarrow> Val host_fn" where
  "duration_obj_from_u64 u = add_host_object (HDuration u)"

definition duration_obj_to_u64 :: "u32 \<Rightarrow> obj_host \<Rightarrow> host_error + u64" where
  "duration_obj_to_u64 obj = visit_obj as_duration obj Inr"

definition obj_from_u128_pieces :: "conversion \<Rightarrow> word64 \<Rightarrow> word64 \<Rightarrow> Val host_fn" where
  "obj_from_u128_pieces V hi lo = add_host_object (HU128 (u128_from_pieces V (hi, lo)))"

definition obj_to_u128_lo64 :: "conversion \<Rightarrow> u32 \<Rightarrow> obj_host \<Rightarrow> host_error + word64" where
  "obj_to_u128_lo64 V obj = visit_obj as_u128 obj (\<lambda>u. Inr (snd (u128_into_pieces V u)))"

definition obj_to_u128_hi64 :: "conversion \<Rightarrow> u32 \<Rightarrow> obj_host \<Rightarrow> host_error + word64" where
  "obj_to_u128_hi64 V obj = visit_obj as_u128 obj (\<lambda>u. Inr (fst (u128_into_pieces V u)))"

definition obj_from_i128_pieces :: "conversion \<Rightarrow> word64 \<Rightarrow> word64 \<Rightarrow> Val host_fn" where
  "obj_from_i128_pieces V hi lo = add_host_object (HI128 (i128_from_pieces V (hi, lo)))"

definition obj_to_i128_lo64 :: "conversion \<Rightarrow> u32 \<Rightarrow> obj_host \<Rightarrow> host_error + word64" where
  "obj_to_i128_lo64 V obj = visit_obj as_i128 obj (\<lambda>i. Inr (snd (i128_into_pieces V i)))"

definition obj_to_i128_hi64 :: "conversion \<Rightarrow> u32 \<Rightarrow> obj_host \<Rightarrow> host_error + word64" where
  "obj_to_i128_hi64 V obj = visit_obj as_i128 obj (\<lambda>i. Inr (fst (i128_into_pieces V i)))"

definition obj_from_u256_pieces :: "conversion \<Rightarrow> word64 \<Rightarrow> word64 \<Rightarrow> word64 \<Rightarrow> word64 \<Rightarrow> Val host_fn" where
  "obj_from_u256_pieces V hi_hi hi_lo lo_hi lo_lo = add_host_object (HU256 (u256_from_pieces V (hi_hi, hi_lo, lo_hi, lo_lo)))"

definition obj_to_u256_hi_hi :: "conversion \<Rightarrow> u32 \<Rightarrow> obj_host \<Rightarrow> host_error + word64" where
  "obj_to_u256_hi_hi V obj = visit_obj as_u256 obj (\<lambda>u. case u256_into_pieces V u of (hi_hi, _, _, _) \<Rightarrow> Inr hi_hi)"

definition obj_to_u256_hi_lo :: "conversion \<Rightarrow> u32 \<Rightarrow> obj_host \<Rightarrow> host_error + word64" where
  "obj_to_u256_hi_lo V obj = visit_obj as_u256 obj (\<lambda>u. case u256_into_pieces V u of (_, hi_lo, _, _) \<Rightarrow> Inr hi_lo)"

definition obj_to_u256_lo_hi :: "conversion \<Rightarrow> u32 \<Rightarrow> obj_host \<Rightarrow> host_error + word64" where
  "obj_to_u256_lo_hi V obj = visit_obj as_u256 obj (\<lambda>u. case u256_into_pieces V u of (_, _, lo_hi, _) \<Rightarrow> Inr lo_hi)"

definition obj_to_u256_lo_lo :: "conversion \<Rightarrow> u32 \<Rightarrow> obj_host \<Rightarrow> host_error + word64" where
  "obj_to_u256_lo_lo V obj = visit_obj as_u256 obj (\<lambda>u. case u256_into_pieces V u of (_, _, _, lo_lo) \<Rightarrow> Inr lo_lo)"

definition obj_from_i256_pieces :: "conversion \<Rightarrow> word64 \<Rightarrow> word64 \<Rightarrow> word64 \<Rightarrow> word64 \<Rightarrow> Val host_fn" where
  "obj_from_i256_pieces V hi_hi hi_lo lo_hi lo_lo = add_host_object (HI256 (i256_from_pieces V (hi_hi, hi_lo, lo_hi, lo_lo)))"

definition obj_to_i256_hi_hi :: "conversion \<Rightarrow> u32 \<Rightarrow> obj_host \<Rightarrow> host_error + word64" where
  "obj_to_i256_hi_hi V obj = visit_obj as_i256 obj (\<lambda>i. case i256_into_pieces V i of (hi_hi, _, _, _) \<Rightarrow> Inr hi_hi)"

definition obj_to_i256_hi_lo :: "conversion \<Rightarrow> u32 \<Rightarrow> obj_host \<Rightarrow> host_error + word64" where
  "obj_to_i256_hi_lo V obj = visit_obj as_i256 obj (\<lambda>i. case i256_into_pieces V i of (_, hi_lo, _, _) \<Rightarrow> Inr hi_lo)"

definition obj_to_i256_lo_hi :: "conversion \<Rightarrow> u32 \<Rightarrow> obj_host \<Rightarrow> host_error + word64" where
  "obj_to_i256_lo_hi V obj = visit_obj as_i256 obj (\<lambda>i. case i256_into_pieces V i of (_, _, lo_hi, _) \<Rightarrow> Inr lo_hi)"

definition obj_to_i256_lo_lo :: "conversion \<Rightarrow> u32 \<Rightarrow> obj_host \<Rightarrow> host_error + word64" where
  "obj_to_i256_lo_lo V obj = visit_obj as_i256 obj (\<lambda>i. case i256_into_pieces V i of (_, _, _, lo_lo) \<Rightarrow> Inr lo_lo)"

section \<open>Byte strings of a fixed length\<close>

definition fixed_length_bytes_from_slice :: "nat \<Rightarrow> bytes \<Rightarrow> host_error + bytes" where
  "fixed_length_bytes_from_slice n bs = (if length bs = n then Inr bs else Inl (HostErr SCE_Object UnexpectedSize))"

definition fixed_length_bytes_from_bytesobj_input :: "nat \<Rightarrow> u32 \<Rightarrow> obj_host \<Rightarrow> host_error + bytes" where
  "fixed_length_bytes_from_bytesobj_input n obj = visit_obj as_bytes obj (fixed_length_bytes_from_slice n)"

definition hash_from_bytesobj_input :: "u32 \<Rightarrow> obj_host \<Rightarrow> host_error + bytes" where
  "hash_from_bytesobj_input = fixed_length_bytes_from_bytesobj_input 32"

section \<open>Laws of the parameters\<close>

text \<open>A small value leads back to what it was made from; whatever has a representation is
  representable; the pieces of an integer are those it was put together from.\<close>

definition conversion_ok :: "conversion \<Rightarrow> bool" where
  "conversion_ok V \<longleftrightarrow>
     (\<forall>sv v. small_to_val V sv = Inr v \<longrightarrow>
        small_from_val V v = Inr sv \<and> can_represent_scval V sv \<and> (\<forall>tag h. v \<noteq> ObjVal tag h))
   \<and> (\<forall>sv. is_object V sv \<longrightarrow> can_represent_scval V sv)
   \<and> (\<forall>p. u128_into_pieces V (u128_from_pieces V p) = p) \<and> (\<forall>p. i128_into_pieces V (i128_from_pieces V p) = p)
   \<and> (\<forall>p. u256_into_pieces V (u256_from_pieces V p) = p) \<and> (\<forall>p. i256_into_pieces V (i256_from_pieces V p) = p)"

section \<open>The way there and back\<close>

definition extends :: "obj_host \<Rightarrow> obj_host \<Rightarrow> bool" where
  "extends s t \<longleftrightarrow> cur_frame t = cur_frame s \<and> (\<exists>new. objects t = objects s @ new)"

lemma extends_refl [simp]: "extends s s"
  by (simp add: extends_def)

lemma extends_trans: "extends s t \<Longrightarrow> extends t u \<Longrightarrow> extends s u"
  by (auto simp: extends_def)

lemma extends_length: "extends s t \<Longrightarrow> length (objects s) \<le> length (objects t)"
  by (auto simp: extends_def)

lemma add_extends: "add_host_object ho s = Inr (v, t) \<Longrightarrow> extends s t"
  by (auto simp: add_host_object_def extends_def split: sum.splits)

lemma map_query_extends:
  assumes "\<And>x s y t. x \<in> set xs \<Longrightarrow> f x s = Inr (y, t) \<Longrightarrow> extends s t" and "map_query f xs s = Inr (ys, t)"
  shows "extends s t"
  using assms
proof (induction xs arbitrary: s ys)
  case (Cons x xs)
  then obtain y s1 zs where "f x s = Inr (y, s1)" "map_query f xs s1 = Inr (zs, t)"
    by (auto split: sum.splits)
  then show ?case
    using Cons extends_trans by (metis list.set_intros(1,2))
qed simp

lemma to_host_extends: "to_host_val X V depth sv s = Inr (v, t) \<Longrightarrow> extends s t"
proof (induction depth arbitrary: sv s v t)
  case (Suc depth)
  have vec: "extends s b" if "map_query (to_host_val X V depth) xs s = Inr (vs, b)" for xs vs b
    by (rule map_query_extends [OF _ that]) (rule Suc.IH)
  have pairs: "extends s b"
    if "map_query (\<lambda>(key, val). bindq (to_host_val X V depth key) (\<lambda>k. bindq (to_host_val X V depth val) (\<lambda>v. ret (k, v)))) m s = Inr (vs, b)" for m vs b
    by (rule map_query_extends [OF _ that])
      (auto simp: bindq_def ret_def split: sum.splits, metis extends_trans Suc.IH)
  have obj: "extends s t" if "to_host_obj X V (to_host_val X V depth) sv s = Inr (v, t)"
    using that
    by (cases "(X, V, to_host_val X V depth, sv)" rule: to_host_obj.cases)
      (auto simp: bindq_def try_read_def fail_def split: sum.splits
        dest!: add_extends dest: extends_trans [OF vec] extends_trans [OF pairs])
  show ?case
    using Suc.prems obj by (auto simp: try_read_def ret_def split: if_splits sum.splits)
qed (simp add: fail_def)

lemma visit_extends:
  assumes "extends s t" and "visit_obj_untyped h f s = Inr r" and "\<And>ho. f ho = Inr r \<Longrightarrow> g ho = Inr r"
  shows "visit_obj_untyped h g t = Inr r"
  using assms by (auto simp: visit_obj_untyped_def extends_def nth_append split: if_splits)

lemma collect_mono:
  "collect f xs = Inr ys \<Longrightarrow> (\<And>x y. x \<in> set xs \<Longrightarrow> f x = Inr y \<Longrightarrow> g x = Inr y) \<Longrightarrow> collect g xs = Inr ys"
  by (induction xs arbitrary: ys) (auto simp: try_sum_ok)

lemma collect_set: "collect f xs = Inr ys \<Longrightarrow> y \<in> set ys \<Longrightarrow> \<exists>x\<in>set xs. f x = Inr y"
  by (induction xs arbitrary: ys) (auto simp: try_sum_ok)

lemma collect_all2: "collect f xs = Inr ys \<Longrightarrow> (\<And>x y. f x = Inr y \<Longrightarrow> P x y) \<Longrightarrow> list_all2 P xs ys"
  by (induction xs arbitrary: ys) (auto simp: try_sum_ok)

lemma collect_length: "collect f xs = Inr ys \<Longrightarrow> length ys = length xs"
  by (induction xs arbitrary: ys) (auto simp: try_sum_ok)

lemma object_mono:
  assumes "host_object_to_scval X V f ho = Inr sv" and "\<And>v sv. f v = Inr sv \<Longrightarrow> g v = Inr sv"
  shows "host_object_to_scval X V g ho = Inr sv"
proof -
  have "collect g vv = Inr sv'" if "collect f vv = Inr sv'" for vv sv'
    using that assms(2) by (rule collect_mono)
  moreover have "collect (\<lambda>(k, v). try_sum (g k) (\<lambda>key. try_sum (g v) (\<lambda>val. Inr (key, val)))) mm = Inr mv"
    if "collect (\<lambda>(k, v). try_sum (f k) (\<lambda>key. try_sum (f v) (\<lambda>val. Inr (key, val)))) mm = Inr mv" for mm mv
    using that by (rule collect_mono) (auto simp: try_sum_ok dest: assms(2))
  ultimately show ?thesis
    using assms(1) by (cases ho) (auto simp: try_sum_ok host_map_to_scmap_def split: if_splits)
qed

lemma from_host_mono:
  "extends s t \<Longrightarrow> from_host_val X V s depth v = Inr sv \<Longrightarrow> from_host_val X V t depth v = Inr sv"
proof (induction depth arbitrary: v sv)
  case (Suc depth)
  have "from_host_obj X V (from_host_val X V t depth) h t = Inr r" if "from_host_obj X V (from_host_val X V s depth) h s = Inr r" for h r
    using that unfolding from_host_obj_def
    by (rule visit_extends [OF Suc.prems(1)]) (erule object_mono, rule Suc.IH [OF Suc.prems(1)])
  then show ?case
    using Suc.prems(2) by (auto simp: try_sum_ok split: Val.splits)
qed simp

lemma collect_results:
  assumes "\<And>x s y t. x \<in> set xs \<Longrightarrow> f x s = Inr (y, t) \<Longrightarrow> extends s t"
    and "\<And>x s y t. x \<in> set xs \<Longrightarrow> f x s = Inr (y, t) \<Longrightarrow> length (objects t) \<le> B \<Longrightarrow> g t y = Inr x"
    and "\<And>s t y x. extends s t \<Longrightarrow> g s y = Inr x \<Longrightarrow> g t y = Inr x"
    and "map_query f xs s = Inr (ys, t)" and "length (objects t) \<le> B"
  shows "collect (g t) ys = Inr xs"
  using assms(1,2,4)
proof (induction xs arbitrary: s ys)
  case (Cons x xs)
  then obtain y s1 zs where 1: "f x s = Inr (y, s1)" "map_query f xs s1 = Inr (zs, t)" "ys = y # zs"
    by (auto split: sum.splits)
  have ext: "extends s1 t"
    by (rule map_query_extends [OF _ 1(2)]) (use Cons.prems(1) in auto)
  then have "length (objects s1) \<le> B"
    using extends_length [OF ext] assms(5) by simp
  then have "g t y = Inr x"
    using Cons.prems(2) [OF _ 1(1)] assms(3) [OF ext] by simp
  moreover have "collect (g t) zs = Inr xs"
    by (rule Cons.IH [OF _ _ 1(2)]) (use Cons.prems in auto)
  ultimately show ?case
    using 1(3) by simp
qed simp

lemma map_from_iter: "hm_from_map cmp m = Inr m' \<Longrightarrow> m' = m \<and> length m \<le> U32_MAX"
  by (auto simp: hm_from_map_def split: sum.splits if_splits)

lemma add_round_trip:
  assumes "add_host_object ho s = Inr (v, t)" and "length (objects t) \<le> 2 ^ 31" and "can_represent_scval V sv"
    and "host_object_to_scval X V (from_host_val X V t depth) ho = Inr sv"
  shows "from_host_val X V t (Suc depth) v = Inr sv"
proof -
  have len: "length (objects s) < 2 ^ 31"
    using assms(1,2) by (auto simp: add_host_object_def split: sum.splits)
  then have "v = ObjVal (tag_of ho) (length (objects s) * 2 + 1)" and t: "t = s\<lparr>objects := objects s @ [ho]\<rparr>"
    using assms(1) add_object [OF len, of ho] by simp_all
  moreover have "holds t (length (objects s) * 2 + 1) ho"
    unfolding t by (rule new_object_holds)
  ultimately show ?thesis
    using assms(3,4) by (simp add: from_host_obj_def visit_obj_untyped_def holds_def check_val_representable_scval_def)
qed

definition round_trips :: "common \<Rightarrow> conversion \<Rightarrow> nat \<Rightarrow> bool" where
  "round_trips X V depth \<longleftrightarrow>
     (\<forall>sv s v t. to_host_val X V depth sv s = Inr (v, t) \<longrightarrow> length (objects t) \<le> 2 ^ 31 \<longrightarrow> from_host_val X V t depth v = Inr sv)"

lemma vector_round_trip:
  assumes "round_trips X V depth" and "map_query (to_host_val X V depth) xs s = Inr (vs, t)" and "length (objects t) \<le> 2 ^ 31"
  shows "collect (from_host_val X V t depth) vs = Inr xs"
  by (rule collect_results [OF to_host_extends _ from_host_mono assms(2,3)])
    (use assms(1) in \<open>auto simp: round_trips_def\<close>)

abbreviation to_pair :: "common \<Rightarrow> conversion \<Rightarrow> nat \<Rightarrow> ScVal \<times> ScVal \<Rightarrow> (Val \<times> Val) host_fn" where
  "to_pair X V depth \<equiv> (\<lambda>(key, val). bindq (to_host_val X V depth key) (\<lambda>k. bindq (to_host_val X V depth val) (\<lambda>v. ret (k, v))))"

abbreviation from_pair :: "common \<Rightarrow> conversion \<Rightarrow> nat \<Rightarrow> obj_host \<Rightarrow> Val \<times> Val \<Rightarrow> host_error + ScVal \<times> ScVal" where
  "from_pair X V depth t \<equiv>
     (\<lambda>(k, v). try_sum (from_host_val X V t depth k) (\<lambda>key. try_sum (from_host_val X V t depth v) (\<lambda>val. Inr (key, val))))"

lemma to_pair_ok:
  "to_pair X V depth p s = Inr (q, t) \<longleftrightarrow>
     (\<exists>u. to_host_val X V depth (fst p) s = Inr (fst q, u) \<and> to_host_val X V depth (snd p) u = Inr (snd q, t))"
  by (cases p; cases q) (auto simp: bindq_def ret_def split: sum.splits)

lemma pairs_round_trip:
  assumes "round_trips X V depth" and "map_query (to_pair X V depth) m s = Inr (mm, t)" and "length (objects t) \<le> 2 ^ 31"
  shows "collect (from_pair X V depth t) mm = Inr m"
proof (rule collect_results [OF _ _ _ assms(2,3)])
  fix p s q t assume p: "to_pair X V depth p s = Inr (q, t)"
  then obtain u where u: "to_host_val X V depth (fst p) s = Inr (fst q, u)" "to_host_val X V depth (snd p) u = Inr (snd q, t)"
    by (auto simp: to_pair_ok)
  then show "extends s t"
    using extends_trans to_host_extends by blast
  assume t: "length (objects t) \<le> 2 ^ 31"
  then have "from_host_val X V u depth (fst q) = Inr (fst p)" "from_host_val X V t depth (snd q) = Inr (snd p)"
    using assms(1) u extends_length [OF to_host_extends [OF u(2)]] by (auto simp: round_trips_def)
  then show "from_pair X V depth t q = Inr p"
    using from_host_mono [OF to_host_extends [OF u(2)]] by (simp add: case_prod_beta)
next
  fix s t q p assume "extends s t" and "from_pair X V depth s q = Inr p"
  then show "from_pair X V depth t q = Inr p"
    using from_host_mono [of s t X V depth] by (auto simp: case_prod_beta try_sum_ok)
qed

lemma object_round_trip:
  assumes "conversion_ok V" and "round_trips X V depth" and "can_represent_scval V sv"
    and "to_host_obj X V (to_host_val X V depth) sv s = Inr (v, t)" and "length (objects t) \<le> 2 ^ 31"
  shows "from_host_val X V t (Suc depth) v = Inr sv"
proof -
  have simple: "add_host_object ho u = Inr (v, t) \<Longrightarrow> host_object_to_scval X V (from_host_val X V t depth) ho = Inr sv \<Longrightarrow>
      from_host_val X V t (Suc depth) v = Inr sv" for ho u
    using add_round_trip assms(3,5) by blast
  have pieces: "u128_into_pieces V (u128_from_pieces V p) = p" "i128_into_pieces V (i128_from_pieces V p) = p"
      "u256_into_pieces V (u256_from_pieces V q) = q" "i256_into_pieces V (i256_from_pieces V q) = q" for p q
    using assms(1) unfolding conversion_ok_def by blast+
  show ?thesis
  proof (cases sv)
    case (ScVec x)
    then obtain xs vs u where x: "x = Some xs" "map_query (to_host_val X V depth) xs s = Inr (vs, u)"
        "length vs \<le> U32_MAX" "add_host_object (HVec vs) u = Inr (v, t)"
      using assms(4) by (cases x) (auto simp: bindq_def try_read_def fail_def mv_from_vec_def split: sum.splits if_splits)
    have "collect (from_host_val X V u depth) vs = Inr xs"
      using vector_round_trip [OF assms(2) x(2)] extends_length [OF add_extends [OF x(4)]] assms(5) by simp
    then have "collect (from_host_val X V t depth) vs = Inr xs"
      by (rule collect_mono) (rule from_host_mono [OF add_extends [OF x(4)]])
    moreover from this have "length xs \<le> U32_MAX"
      using collect_length x(3) by metis
    ultimately show ?thesis
      using simple [OF x(4)] x(1) ScVec by simp
  next
    case (ScMap x)
    then obtain m mm u where x: "x = Some m" "map_query (to_pair X V depth) m s = Inr (mm, u)"
        "length mm \<le> U32_MAX" "add_host_object (HMap mm) u = Inr (v, t)"
      using assms(4) by (cases x) (auto simp: bindq_def try_read_def fail_def dest!: map_from_iter split: sum.splits)
    have "collect (from_pair X V depth u) mm = Inr m"
      using pairs_round_trip [OF assms(2) x(2)] extends_length [OF add_extends [OF x(4)]] assms(5) by simp
    then have "collect (from_pair X V depth t) mm = Inr m"
      by (rule collect_mono) (auto simp: try_sum_ok dest: from_host_mono [OF add_extends [OF x(4)]])
    moreover from this have "length m \<le> U32_MAX"
      using collect_length x(3) by metis
    ultimately show ?thesis
      using simple [OF x(4)] x(1) ScMap by (simp add: host_map_to_scmap_def)
  next
    case (ScSymbol b)
    then show ?thesis
      using assms(4) simple [of "HSymbol b" s] by (auto simp: try_read_def bounded_bytes_def split: sum.splits if_splits)
  qed (use assms(4) in \<open>auto simp: fail_def pieces simp del: from_host_val.simps dest!: simple\<close>)
qed

lemma all_round_trip: "conversion_ok V \<Longrightarrow> round_trips X V depth"
proof (induction depth)
  case (Suc depth)
  have "from_host_val X V t (Suc depth) v = Inr sv"
    if "to_host_val X V (Suc depth) sv s = Inr (v, t)" "length (objects t) \<le> 2 ^ 31" for sv s v t
  proof (cases "is_object V sv")
    case True
    then show ?thesis
      using object_round_trip [OF Suc.prems Suc.IH [OF Suc.prems]] that Suc.prems by (simp add: conversion_ok_def)
  next
    case False
    then have "small_to_val V sv = Inr v"
      using that(1) by (auto simp: try_read_def ret_def split: sum.splits)
    then have "small_from_val V v = Inr sv" "can_represent_scval V sv" "\<forall>tag h. v \<noteq> ObjVal tag h"
      using Suc.prems unfolding conversion_ok_def by blast+
    then show ?thesis
      by (cases v) (simp_all add: check_val_representable_scval_def)
  qed
  then show ?case
    unfolding round_trips_def by blast
qed (simp add: round_trips_def fail_def)

text \<open>The number functions give back what they were given: the pieces of a 256-bit integer, and so
  for the other widths.\<close>

lemma wide_integers_round_trip:
  assumes "conversion_ok V" and "length (objects s) < 2 ^ 31"
    and "obj_from_i256_pieces V a b c d s = Inr (v, t)"
  shows "\<exists>h. v = ObjVal I256Object h \<and> obj_to_i256_hi_hi V h t = Inr a \<and> obj_to_i256_hi_lo V h t = Inr b
    \<and> obj_to_i256_lo_hi V h t = Inr c \<and> obj_to_i256_lo_lo V h t = Inr d"
proof -
  have p: "i256_into_pieces V (i256_from_pieces V q) = q" for q
    using assms(1) unfolding conversion_ok_def by blast
  then show ?thesis
    using assms(3) add_object [OF assms(2)] new_object_holds [of s "HI256 (i256_from_pieces V (a, b, c, d))"]
    by (auto simp: holds_def visit_obj_def visit_obj_untyped_def obj_from_i256_pieces_def obj_to_i256_hi_hi_def obj_to_i256_hi_lo_def obj_to_i256_lo_hi_def obj_to_i256_lo_lo_def)
qed

section \<open>An instance of the parameters\<close>

lemma word64_range: "(18446744073709551616 :: word64) = 0"
  by transfer (simp add: take_bit_eq_mod)

lemma pieces_div: "(x * 2 ^ 64 + unat (w :: word64)) div 2 ^ 64 = x"
  using unsigned_less [of w, where ?'a = nat] by simp

lemma pieces_mod: "word_of_nat (x * 2 ^ 64 + unat w) = (w :: word64)"
  by (simp add: word64_range)

lemma signed_pieces_div: "(x * 2 ^ 64 + uint (w :: word64)) div 2 ^ 64 = x"
  using uint_lt2p [of w] by simp

lemma signed_pieces_mod: "word_of_int (x * 2 ^ 64 + uint w) = (w :: word64)"
  by (simp add: word64_range)

fun plain_object :: "ScVal \<Rightarrow> bool" where
  "plain_object (ScBool _) = False"
| "plain_object ScVoid = False"
| "plain_object (ScU32 _) = False"
| "plain_object (ScError _ _) = False"
| "plain_object (ScI32 _) = False"
| "plain_object (ScContractInstance _ _) = False"
| "plain_object ScLedgerKeyContractInstance = False"
| "plain_object (ScLedgerKeyNonce _) = False"
| "plain_object _ = True"

fun plain_to_val :: "ScVal \<Rightarrow> host_error + Val" where
  "plain_to_val (ScBool b) = Inr (BoolVal b)"
| "plain_to_val ScVoid = Inr VoidVal"
| "plain_to_val (ScU32 n) = Inr (U32Val n)"
| "plain_to_val _ = Inl (HostErr SCE_Value UnexpectedType)"

fun plain_from_val :: "Val \<Rightarrow> host_error + ScVal" where
  "plain_from_val (BoolVal b) = Inr (ScBool b)"
| "plain_from_val VoidVal = Inr ScVoid"
| "plain_from_val (U32Val n) = Inr (ScU32 n)"
| "plain_from_val _ = Inl (HostErr SCE_Value UnexpectedType)"

definition plain_conversion :: conversion where
  "plain_conversion = \<lparr>
     is_object = plain_object, small_to_val = plain_to_val, small_from_val = plain_from_val, can_represent_scval = (\<lambda>_. True),
     u128_into_pieces = (\<lambda>n. (word_of_nat (n div 2 ^ 64), word_of_nat n)),
     u128_from_pieces = (\<lambda>(hi, lo). unat hi * 2 ^ 64 + unat lo),
     i128_into_pieces = (\<lambda>i. (word_of_int (i div 2 ^ 64), word_of_int i)),
     i128_from_pieces = (\<lambda>(hi, lo). sint hi * 2 ^ 64 + uint lo),
     u256_into_pieces = (\<lambda>n. (word_of_nat (n div 2 ^ 64 div 2 ^ 64 div 2 ^ 64), word_of_nat (n div 2 ^ 64 div 2 ^ 64), word_of_nat (n div 2 ^ 64), word_of_nat n)),
     u256_from_pieces = (\<lambda>(a, b, c, d). ((unat a * 2 ^ 64 + unat b) * 2 ^ 64 + unat c) * 2 ^ 64 + unat d),
     i256_into_pieces = (\<lambda>i. (word_of_int (i div 2 ^ 64 div 2 ^ 64 div 2 ^ 64), word_of_int (i div 2 ^ 64 div 2 ^ 64), word_of_int (i div 2 ^ 64), word_of_int i)),
     i256_from_pieces = (\<lambda>(a, b, c, d). ((sint a * 2 ^ 64 + uint b) * 2 ^ 64 + uint c) * 2 ^ 64 + uint d)\<rparr>"

lemma plain_small: "plain_to_val sv = Inr v \<Longrightarrow> plain_from_val v = Inr sv \<and> (\<forall>tag h. v \<noteq> ObjVal tag h)"
  by (cases sv) auto

lemma plain_pieces:
  "u128_into_pieces plain_conversion (u128_from_pieces plain_conversion (a, b)) = (a, b)"
  "i128_into_pieces plain_conversion (i128_from_pieces plain_conversion (a, b)) = (a, b)"
  "u256_into_pieces plain_conversion (u256_from_pieces plain_conversion (a, b, c, d)) = (a, b, c, d)"
  "i256_into_pieces plain_conversion (i256_from_pieces plain_conversion (a, b, c, d)) = (a, b, c, d)"
  unfolding plain_conversion_def conversion.simps prod.case
  by (simp_all only: pieces_div pieces_mod signed_pieces_div signed_pieces_mod) simp_all

lemma plain_conversion_ok: "conversion_ok plain_conversion"
proof -
  have "plain_from_val v = Inr sv \<and> (\<forall>tag h. v \<noteq> ObjVal tag h)" if "plain_to_val sv = Inr v" for sv v
    using plain_small [OF that] .
  then show ?thesis
    unfolding conversion_ok_def split_paired_All plain_pieces
    by (simp add: plain_conversion_def)
qed

section \<open>Properties\<close>

text \<open>C22: the conversion to host values loses nothing.  If a tree of XDR values converts to a host value
  within some depth limit, then the host value converts back within the same limit to exactly
  that tree; the objects that existed before are unchanged, so values converted earlier keep
  their meaning.\<close>

theorem value_round_trip:
  assumes "conversion_ok V" and "to_host_val X V depth sv s = Inr (v, t)" and "length (objects t) \<le> 2 ^ 31"
  shows "from_host_val X V t depth v = Inr sv \<and> cur_frame t = cur_frame s \<and> (\<exists>new. objects t = objects s @ new)"
  using all_round_trip [OF assms(1), of X depth] to_host_extends [OF assms(2)] assms(2,3)
  by (auto simp: round_trips_def extends_def)

definition sample_value :: ScVal where
  "sample_value = ScVec (Some [ScU32 7, ScI128 (- 1) 5, ScMap (Some [(ScU32 1, ScVoid), (ScU32 2, ScBytes [9])])])"

lemma sample_value_converts:
  "\<exists>v t. to_host_val plain_common plain_conversion (Suc (Suc (Suc 0))) sample_value \<lparr>objects = [], cur_frame = None\<rparr> = Inr (v, t) \<and> length (objects t) = 4"
  by (simp add: sample_value_def plain_conversion_def plain_common_def bindq_def try_read_def ret_def mv_from_vec_def
      hm_from_map_def compare_rank_def add_host_object_def index_to_handle_def U32_MAX_def Let_def)

theorem value_round_trip_witness:
  "\<exists>v t. to_host_val plain_common plain_conversion (Suc (Suc (Suc 0))) sample_value \<lparr>objects = [], cur_frame = None\<rparr> = Inr (v, t)
    \<and> from_host_val plain_common plain_conversion t (Suc (Suc (Suc 0))) v = Inr sample_value"
proof -
  obtain v t where vt: "to_host_val plain_common plain_conversion (Suc (Suc (Suc 0))) sample_value \<lparr>objects = [], cur_frame = None\<rparr> = Inr (v, t)"
      "length (objects t) = 4"
    using sample_value_converts by blast
  then show ?thesis
    using value_round_trip [OF plain_conversion_ok vt(1)] by auto
qed

end
