(* ===== verification/Value_Order.thy ===== *)
theory Value_Order
  imports Value_Conversion
begin

text \<open>
  The order of values (\<open>src/soroban-env-host-patch/src/host/comparison.rs\<close>, \<open>obj_cmp\<close> of \<open>host.rs\<close> and
  \<open>try_compare_to_small\<close> of \<open>host_object.rs\<close>): XDR values are compared on the budget, host objects on the
  host, both within a depth limit.  Charges are left out.

  What \<open>soroban-env-common\<close> and the XDR crate contribute is the record \<open>value_order\<close>: the comparison of
  vectors, tuples and options over a given comparison of their elements, of values that are no objects, the numbering
  of the XDR variants and the small values of each numeric type.  Types with a derived \<open>Ord\<close> are compared field by field.
\<close>

section \<open>Comparisons\<close>

type_synonym 'a cmp = "'a \<Rightarrow> 'a \<Rightarrow> host_error + Ordering"

definition ord_cmp :: "'a::linorder cmp" where
  "ord_cmp a b = Inr (ordering a b)"

definition then_cmp :: "host_error + Ordering \<Rightarrow> host_error + Ordering \<Rightarrow> host_error + Ordering" where
  "then_cmp r r' = try_sum r (\<lambda>o1. if o1 = Equal then r' else Inr o1)"

fun lex_cmp :: "'a cmp \<Rightarrow> 'a list cmp" where
  "lex_cmp c [] [] = Inr Equal"
| "lex_cmp c [] (y # ys) = Inr Less"
| "lex_cmp c (x # xs) [] = Inr Greater"
| "lex_cmp c (x # xs) (y # ys) = then_cmp (c x y) (lex_cmp c xs ys)"

definition pair_cmp :: "'a cmp \<Rightarrow> 'b cmp \<Rightarrow> ('a \<times> 'b) cmp" where
  "pair_cmp c d p q = then_cmp (c (fst p) (fst q)) (d (snd p) (snd q))"

fun option_cmp :: "'a cmp \<Rightarrow> 'a option cmp" where
  "option_cmp c None None = Inr Equal"
| "option_cmp c None (Some b) = Inr Less"
| "option_cmp c (Some a) None = Inr Greater"
| "option_cmp c (Some a) (Some b) = c a b"

fun flip :: "Ordering \<Rightarrow> Ordering" where
  "flip Less = Greater"
| "flip Equal = Equal"
| "flip Greater = Less"

text \<open>A comparison that always answers on a set and orders it totally\<close>

definition cmp_order :: "'a set \<Rightarrow> 'a cmp \<Rightarrow> bool" where
  "cmp_order P c \<longleftrightarrow>
     (\<forall>a\<in>P. \<forall>b\<in>P. \<exists>x. c a b = Inr x \<and> c b a = Inr (flip x) \<and> (x = Equal \<longleftrightarrow> a = b))
     \<and> (\<forall>a\<in>P. \<forall>b\<in>P. \<forall>d\<in>P. c a b = Inr Less \<longrightarrow> c b d = Inr Less \<longrightarrow> c a d = Inr Less)"

lemma cmp_order_total:
  "cmp_order P c \<Longrightarrow> a \<in> P \<Longrightarrow> b \<in> P \<Longrightarrow> \<exists>x. c a b = Inr x \<and> c b a = Inr (flip x) \<and> (x = Equal \<longleftrightarrow> a = b)"
  unfolding cmp_order_def by blast

lemma cmp_order_trans: "cmp_order P c \<Longrightarrow> a \<in> P \<Longrightarrow> b \<in> P \<Longrightarrow> d \<in> P \<Longrightarrow> c a b = Inr Less \<Longrightarrow> c b d = Inr Less \<Longrightarrow> c a d = Inr Less"
  unfolding cmp_order_def by blast

lemma cmp_order_same: "cmp_order P c \<Longrightarrow> a \<in> P \<Longrightarrow> b \<in> P \<Longrightarrow> c a b = Inr Equal \<longleftrightarrow> a = b"
  using cmp_order_total [of P c a b] by auto

lemma flip_simps [simp]: "flip x = Equal \<longleftrightarrow> x = Equal" "flip x = Less \<longleftrightarrow> x = Greater" "flip x = Greater \<longleftrightarrow> x = Less"
  by (cases x; simp)+

lemma then_cmp_simps [simp]:
  "then_cmp (Inr Equal) r = r" "then_cmp (Inr Less) r = Inr Less" "then_cmp (Inr Greater) r = Inr Greater" "then_cmp (Inl e) r = Inl e"
  by (simp_all add: then_cmp_def)

lemma ordering_flip: "ordering b a = flip (ordering a b)"
  by (auto simp: ordering_def)

lemma ordering_iff [simp]: "ordering a b = Equal \<longleftrightarrow> a = b" "ordering a b = Less \<longleftrightarrow> a < b"
  by (auto simp: ordering_def)

lemma cmp_order_ord: "cmp_order P ord_cmp"
  by (auto simp: cmp_order_def ord_cmp_def ordering_flip [symmetric] intro: less_trans)

lemma cmp_order_subset: "cmp_order P c \<Longrightarrow> Q \<subseteq> P \<Longrightarrow> cmp_order Q c"
  unfolding cmp_order_def by (meson subsetD)

text \<open>The order pulled back along a constructor\<close>

lemma cmp_order_image:
  assumes "cmp_order Q d" and "\<And>x y. K x = K y \<Longrightarrow> x = y" and "\<And>x y. x \<in> Q \<Longrightarrow> y \<in> Q \<Longrightarrow> c (K x) (K y) = d x y" and "P \<subseteq> K ` Q"
  shows "cmp_order P c"
proof (rule cmp_order_subset [OF _ assms(4)])
  have eq: "K x = K y \<longleftrightarrow> x = y" for x y
    using assms(2) by blast
  show "cmp_order (K ` Q) c"
    unfolding cmp_order_def
  proof (intro conjI ballI impI)
    fix a b
    assume "a \<in> K ` Q" "b \<in> K ` Q"
    then obtain x y where xy: "a = K x" "b = K y" "x \<in> Q" "y \<in> Q"
      by blast
    then show "\<exists>x. c a b = Inr x \<and> c b a = Inr (flip x) \<and> (x = Equal \<longleftrightarrow> a = b)"
      using cmp_order_total [OF assms(1) xy(3,4)] by (simp add: assms(3) eq)
  next
    fix a b e
    assume "a \<in> K ` Q" "b \<in> K ` Q" "e \<in> K ` Q" "c a b = Inr Less" "c b e = Inr Less"
    moreover from this obtain x y z where xyz: "a = K x" "b = K y" "e = K z" "x \<in> Q" "y \<in> Q" "z \<in> Q"
      by blast
    ultimately show "c a e = Inr Less"
      using cmp_order_trans [OF assms(1) xyz(4-6)] by (simp add: assms(3))
  qed
qed

lemma then_less: "then_cmp r r' = Inr Less \<longleftrightarrow> r = Inr Less \<or> (r = Inr Equal \<and> r' = Inr Less)"
  by (auto simp: then_cmp_def try_sum_ok)

lemma then_equal: "then_cmp r r' = Inr Equal \<longleftrightarrow> r = Inr Equal \<and> r' = Inr Equal"
  by (auto simp: then_cmp_def try_sum_ok)

lemma cmp_order_pair:
  assumes "cmp_order P c" and "cmp_order Q d"
  shows "cmp_order (P \<times> Q) (pair_cmp c d)"
  unfolding cmp_order_def
proof (intro conjI ballI impI)
  fix p q
  assume pq: "p \<in> P \<times> Q" "q \<in> P \<times> Q"
  obtain x where x: "c (fst p) (fst q) = Inr x" "c (fst q) (fst p) = Inr (flip x)" "x = Equal \<longleftrightarrow> fst p = fst q"
    using cmp_order_total [OF assms(1), of "fst p" "fst q"] pq by auto
  obtain y where y: "d (snd p) (snd q) = Inr y" "d (snd q) (snd p) = Inr (flip y)" "y = Equal \<longleftrightarrow> snd p = snd q"
    using cmp_order_total [OF assms(2), of "snd p" "snd q"] pq by auto
  show "\<exists>x. pair_cmp c d p q = Inr x \<and> pair_cmp c d q p = Inr (flip x) \<and> (x = Equal \<longleftrightarrow> p = q)"
    using x y by (cases x) (auto simp: pair_cmp_def prod_eq_iff)
next
  fix p q r
  assume pqr: "p \<in> P \<times> Q" "q \<in> P \<times> Q" "r \<in> P \<times> Q" "pair_cmp c d p q = Inr Less" "pair_cmp c d q r = Inr Less"
  then have mem: "fst p \<in> P" "fst q \<in> P" "fst r \<in> P" "snd p \<in> Q" "snd q \<in> Q" "snd r \<in> Q"
    by auto
  have "c (fst p) (fst q) = Inr Less \<or> fst p = fst q \<and> d (snd p) (snd q) = Inr Less"
    "c (fst q) (fst r) = Inr Less \<or> fst q = fst r \<and> d (snd q) (snd r) = Inr Less"
    using pqr(4,5) cmp_order_same [OF assms(1)] mem by (auto simp: pair_cmp_def then_less)
  then show "pair_cmp c d p r = Inr Less"
    using cmp_order_trans [OF assms(1) mem(1-3)] cmp_order_trans [OF assms(2) mem(4-6)] cmp_order_same [OF assms(1) mem(1,3)]
    unfolding pair_cmp_def then_less by metis
qed

lemma cmp_order_option:
  assumes "cmp_order P c"
  shows "cmp_order (insert None (Some ` P)) (option_cmp c)"
  unfolding cmp_order_def
proof (intro conjI ballI impI)
  fix a b
  assume "a \<in> insert None (Some ` P)" "b \<in> insert None (Some ` P)"
  then show "\<exists>x. option_cmp c a b = Inr x \<and> option_cmp c b a = Inr (flip x) \<and> (x = Equal \<longleftrightarrow> a = b)"
    using cmp_order_total [OF assms] by auto
next
  fix a b d
  assume "a \<in> insert None (Some ` P)" "b \<in> insert None (Some ` P)" "d \<in> insert None (Some ` P)"
    "option_cmp c a b = Inr Less" "option_cmp c b d = Inr Less"
  then show "option_cmp c a d = Inr Less"
    using cmp_order_trans [OF assms, of "the a" "the b" "the d"] by (cases a; cases b; cases d) auto
qed

text \<open>A non-empty list is its head and its tail; the empty list comes first.\<close>

lemma lex_total:
  assumes "cmp_order P c"
  shows "set xs \<subseteq> P \<Longrightarrow> set ys \<subseteq> P \<Longrightarrow> \<exists>x. lex_cmp c xs ys = Inr x \<and> lex_cmp c ys xs = Inr (flip x) \<and> (x = Equal \<longleftrightarrow> xs = ys)"
proof (induction xs ys rule: list_induct2')
  case (4 x xs y ys)
  then obtain u v where "c x y = Inr u" "c y x = Inr (flip u)" "u = Equal \<longleftrightarrow> x = y"
      "lex_cmp c xs ys = Inr v" "lex_cmp c ys xs = Inr (flip v)" "v = Equal \<longleftrightarrow> xs = ys"
    using cmp_order_total [OF assms, of x y] by auto
  then show ?case
    by (cases u) auto
qed auto

lemma lex_trans:
  assumes "cmp_order P c"
  shows "set xs \<subseteq> P \<Longrightarrow> set ys \<subseteq> P \<Longrightarrow> set zs \<subseteq> P \<Longrightarrow> lex_cmp c xs ys = Inr Less \<Longrightarrow> lex_cmp c ys zs = Inr Less \<Longrightarrow> lex_cmp c xs zs = Inr Less"
proof (induction xs arbitrary: ys zs)
  case Nil
  then show ?case
    by (cases ys; cases zs) auto
next
  case (Cons x xs)
  obtain y ys' z zs' where ys: "ys = y # ys'" "zs = z # zs'"
    using Cons.prems(4,5) by (cases ys; cases zs) auto
  have mem: "x \<in> P" "y \<in> P" "z \<in> P" "set xs \<subseteq> P" "set ys' \<subseteq> P" "set zs' \<subseteq> P"
    using Cons.prems(1-3) ys by auto
  have "c x y = Inr Less \<or> x = y \<and> lex_cmp c xs ys' = Inr Less" "c y z = Inr Less \<or> y = z \<and> lex_cmp c ys' zs' = Inr Less"
    using Cons.prems(4,5) cmp_order_same [OF assms] mem by (auto simp: ys then_less)
  then show ?case
    using cmp_order_trans [OF assms mem(1-3)] Cons.IH [OF mem(4-6)] cmp_order_same [OF assms mem(1,3)]
    unfolding ys lex_cmp.simps then_less by metis
qed

lemma cmp_order_lex: "cmp_order P c \<Longrightarrow> cmp_order (lists P) (lex_cmp c)"
  unfolding cmp_order_def [of "lists P"]
  using lex_total [of P c] lex_trans [of P c] by (metis in_lists_conv_set subsetI)

text \<open>Values of different variants are ordered by the variant, those of one variant by their content.\<close>

lemma cmp_order_variants:
  assumes "\<And>n. cmp_order {a \<in> P. k a = n} c" and "\<And>a b. a \<in> P \<Longrightarrow> b \<in> P \<Longrightarrow> k a \<noteq> k b \<Longrightarrow> c a b = Inr (ordering (k a) (k b :: nat))"
  shows "cmp_order P c"
  unfolding cmp_order_def
proof (intro conjI ballI impI)
  fix a b
  assume ab: "a \<in> P" "b \<in> P"
  show "\<exists>x. c a b = Inr x \<and> c b a = Inr (flip x) \<and> (x = Equal \<longleftrightarrow> a = b)"
  proof (cases "k a = k b")
    case True
    then show ?thesis
      using ab cmp_order_total [OF assms(1), of a "k a" b] by simp
  next
    case False
    then show ?thesis
      using assms(2) ab by (auto simp: ordering_flip [symmetric])
  qed
next
  fix a b d
  assume m: "a \<in> P" "b \<in> P" "d \<in> P" and less: "c a b = Inr Less" "c b d = Inr Less"
  have "k a < k b \<or> k a = k b" "k b < k d \<or> k b = k d"
    using less assms(2) m by fastforce+
  then consider "k a < k d" | "k a = k b" "k b = k d"
    by linarith
  then show "c a d = Inr Less"
  proof cases
    case 1
    then show ?thesis
      using assms(2) [OF m(1,3)] by simp
  next
    case 2
    then show ?thesis
      using cmp_order_trans [OF assms(1), of a "k a" b d] m less by simp
  qed
qed

section \<open>The order of XDR values\<close>

record value_order =
  cmp_scvals :: "ScVal cmp \<Rightarrow> ScVal list cmp"
  cmp_sc_entries :: "(ScVal \<times> ScVal) cmp \<Rightarrow> (ScVal \<times> ScVal) list cmp"
  cmp_instances :: "bytes option cmp \<Rightarrow> (ScVal \<times> ScVal) list cmp \<Rightarrow> (bytes option \<times> (ScVal \<times> ScVal) list option) cmp"
  cmp_vals :: "Val cmp \<Rightarrow> Val list cmp"
  cmp_val_pairs :: "Val cmp \<Rightarrow> (Val \<times> Val) list cmp"
  env_cmp :: "(Val \<Rightarrow> Val \<Rightarrow> host_error + int) \<Rightarrow> Val cmp"
  discriminant :: "ScVal \<Rightarrow> nat"
  val_type :: "Val \<Rightarrow> nat"
  small_u64 :: "Val \<Rightarrow> u64 option"
  small_i64 :: "Val \<Rightarrow> i64 option"
  small_timepoint :: "Val \<Rightarrow> u64 option"
  small_duration :: "Val \<Rightarrow> u64 option"
  small_u128 :: "Val \<Rightarrow> nat option"
  small_i128 :: "Val \<Rightarrow> int option"
  small_u256 :: "Val \<Rightarrow> nat option"
  small_i256 :: "Val \<Rightarrow> int option"

text \<open>Byte slices are compared lexicographically; the other orders are derived.\<close>

definition bytes_cmp :: "bytes cmp" where
  "bytes_cmp = lex_cmp ord_cmp"

definition signed_cmp :: "word64 cmp" where
  "signed_cmp a b = ord_cmp (sint a) (sint b)"

fun address_cmp :: "address cmp" where
  "address_cmp (Account a) (Account b) = ord_cmp a b"
| "address_cmp (Account a) (Contract b) = Inr Less"
| "address_cmp (Contract a) (Account b) = Inr Greater"
| "address_cmp (Contract a) (Contract b) = ord_cmp a b"

text \<open>\<open>ContractExecutable\<close>: \<open>Wasm\<close> with a hash comes before \<open>StellarAsset\<close>.\<close>

fun executable_cmp :: "bytes option cmp" where
  "executable_cmp (Some a) (Some b) = bytes_cmp a b"
| "executable_cmp (Some a) None = Inr Less"
| "executable_cmp None (Some b) = Inr Greater"
| "executable_cmp None None = Inr Equal"

definition scmap_entry_cmp :: "ScVal cmp \<Rightarrow> (ScVal \<times> ScVal) cmp" where
  "scmap_entry_cmp c a b = try_sum (c (fst a) (fst b)) (\<lambda>x. if x = Equal then c (snd a) (snd b) else Inr x)"

definition scmap_cmp :: "value_order \<Rightarrow> ScVal cmp \<Rightarrow> (ScVal \<times> ScVal) list cmp" where
  "scmap_cmp Q c = cmp_sc_entries Q (scmap_entry_cmp c)"

definition contract_instance_cmp :: "value_order \<Rightarrow> ScVal cmp \<Rightarrow> (bytes option \<times> (ScVal \<times> ScVal) list option) cmp" where
  "contract_instance_cmp Q c = cmp_instances Q executable_cmp (scmap_cmp Q c)"

text \<open>The cases of two values of one variant; \<open>None\<close> for any other pair.\<close>

definition scval_content_cmp :: "value_order \<Rightarrow> ScVal cmp \<Rightarrow> ScVal \<Rightarrow> ScVal \<Rightarrow> (host_error + Ordering) option" where
  "scval_content_cmp Q c a b =
     (case a of
        ScVec v \<Rightarrow> (case b of ScVec w \<Rightarrow> Some (cmp_scvals Q c (the v) (the w)) | _ \<Rightarrow> None)
      | ScMap m \<Rightarrow> (case b of ScMap n \<Rightarrow> Some (scmap_cmp Q c (the m) (the n)) | _ \<Rightarrow> None)
      | ScBytes x \<Rightarrow> (case b of ScBytes y \<Rightarrow> Some (bytes_cmp x y) | _ \<Rightarrow> None)
      | ScString x \<Rightarrow> (case b of ScString y \<Rightarrow> Some (bytes_cmp x y) | _ \<Rightarrow> None)
      | ScSymbol x \<Rightarrow> (case b of ScSymbol y \<Rightarrow> Some (bytes_cmp x y) | _ \<Rightarrow> None)
      | ScContractInstance x s \<Rightarrow>
          (case b of ScContractInstance y t \<Rightarrow> Some (contract_instance_cmp Q c (x, s) (y, t)) | _ \<Rightarrow> None)
      | ScVoid \<Rightarrow> (case b of ScVoid \<Rightarrow> Some (Inr Equal) | _ \<Rightarrow> None)
      | ScLedgerKeyContractInstance \<Rightarrow> (case b of ScLedgerKeyContractInstance \<Rightarrow> Some (Inr Equal) | _ \<Rightarrow> None)
      | ScBool x \<Rightarrow> (case b of ScBool y \<Rightarrow> Some (ord_cmp x y) | _ \<Rightarrow> None)
      | ScError t x \<Rightarrow> (case b of ScError u y \<Rightarrow> Some (pair_cmp ord_cmp ord_cmp (t, x) (u, y)) | _ \<Rightarrow> None)
      | ScU32 x \<Rightarrow> (case b of ScU32 y \<Rightarrow> Some (ord_cmp x y) | _ \<Rightarrow> None)
      | ScI32 x \<Rightarrow> (case b of ScI32 y \<Rightarrow> Some (ord_cmp x y) | _ \<Rightarrow> None)
      | ScU64 x \<Rightarrow> (case b of ScU64 y \<Rightarrow> Some (ord_cmp x y) | _ \<Rightarrow> None)
      | ScI64 x \<Rightarrow> (case b of ScI64 y \<Rightarrow> Some (ord_cmp x y) | _ \<Rightarrow> None)
      | ScTimepoint x \<Rightarrow> (case b of ScTimepoint y \<Rightarrow> Some (ord_cmp x y) | _ \<Rightarrow> None)
      | ScDuration x \<Rightarrow> (case b of ScDuration y \<Rightarrow> Some (ord_cmp x y) | _ \<Rightarrow> None)
      | ScU128 x1 x2 \<Rightarrow> (case b of ScU128 y1 y2 \<Rightarrow> Some (pair_cmp ord_cmp ord_cmp (x1, x2) (y1, y2)) | _ \<Rightarrow> None)
      | ScI128 x1 x2 \<Rightarrow> (case b of ScI128 y1 y2 \<Rightarrow> Some (pair_cmp signed_cmp ord_cmp (x1, x2) (y1, y2)) | _ \<Rightarrow> None)
      | ScU256 x1 x2 x3 x4 \<Rightarrow>
          (case b of ScU256 y1 y2 y3 y4 \<Rightarrow>
             Some (pair_cmp ord_cmp (pair_cmp ord_cmp (pair_cmp ord_cmp ord_cmp)) (x1, x2, x3, x4) (y1, y2, y3, y4)) | _ \<Rightarrow> None)
      | ScI256 x1 x2 x3 x4 \<Rightarrow>
          (case b of ScI256 y1 y2 y3 y4 \<Rightarrow>
             Some (pair_cmp signed_cmp (pair_cmp ord_cmp (pair_cmp ord_cmp ord_cmp)) (x1, x2, x3, x4) (y1, y2, y3, y4)) | _ \<Rightarrow> None)
      | ScAddress x \<Rightarrow> (case b of ScAddress y \<Rightarrow> Some (address_cmp x y) | _ \<Rightarrow> None)
      | ScLedgerKeyNonce x \<Rightarrow> (case b of ScLedgerKeyNonce y \<Rightarrow> Some (ord_cmp x y) | _ \<Rightarrow> None))"

definition no_content :: "ScVal \<Rightarrow> bool" where
  "no_content v \<longleftrightarrow> v = ScVec None \<or> v = ScMap None"

fun scval_compare :: "value_order \<Rightarrow> nat \<Rightarrow> ScVal cmp" where
  "scval_compare Q 0 a b = Inl depth_exceeded"
| "scval_compare Q (Suc depth) a b =
     (if no_content a \<or> no_content b then Inl (HostErr SCE_Value InvalidInput)
      else case scval_content_cmp Q (scval_compare Q depth) a b of
        Some r \<Rightarrow> r
      | None \<Rightarrow> ord_cmp (discriminant Q a) (discriminant Q b))"

subsection \<open>What the XDR crate promises\<close>

text \<open>The variants in the order of the XDR union\<close>

primrec scval_type :: "ScVal \<Rightarrow> nat" where
  "scval_type (ScBool _) = 0"
| "scval_type ScVoid = 1"
| "scval_type (ScError _ _) = 2"
| "scval_type (ScU32 _) = 3"
| "scval_type (ScI32 _) = 4"
| "scval_type (ScU64 _) = 5"
| "scval_type (ScI64 _) = 6"
| "scval_type (ScTimepoint _) = 7"
| "scval_type (ScDuration _) = 8"
| "scval_type (ScU128 _ _) = 9"
| "scval_type (ScI128 _ _) = 10"
| "scval_type (ScU256 _ _ _ _) = 11"
| "scval_type (ScI256 _ _ _ _) = 12"
| "scval_type (ScBytes _) = 13"
| "scval_type (ScString _) = 14"
| "scval_type (ScSymbol _) = 15"
| "scval_type (ScVec _) = 16"
| "scval_type (ScMap _) = 17"
| "scval_type (ScAddress _) = 18"
| "scval_type (ScContractInstance _ _) = 19"
| "scval_type ScLedgerKeyContractInstance = 20"
| "scval_type (ScLedgerKeyNonce _) = 21"

definition lexicographic :: "value_order \<Rightarrow> bool" where
  "lexicographic Q \<longleftrightarrow> cmp_scvals Q = lex_cmp \<and> cmp_sc_entries Q = lex_cmp \<and> (\<forall>c m. cmp_instances Q c m = pair_cmp c (option_cmp m))
     \<and> cmp_vals Q = lex_cmp \<and> (\<forall>c. cmp_val_pairs Q c = lex_cmp (pair_cmp c c))
     \<and> (\<forall>a b. ordering (discriminant Q a) (discriminant Q b) = ordering (scval_type a) (scval_type b))"

text \<open>Values nested at most so deep, with no absent vector or map\<close>

fun nested :: "nat \<Rightarrow> ScVal \<Rightarrow> bool" where
  "nested 0 v = False"
| "nested (Suc d) (ScVec v) \<longleftrightarrow> (case v of None \<Rightarrow> False | Some xs \<Rightarrow> list_all (nested d) xs)"
| "nested (Suc d) (ScMap m) \<longleftrightarrow> (case m of None \<Rightarrow> False | Some xs \<Rightarrow> list_all (\<lambda>(k, v). nested d k \<and> nested d v) xs)"
| "nested (Suc d) (ScContractInstance e s) \<longleftrightarrow> (case s of None \<Rightarrow> True | Some xs \<Rightarrow> list_all (\<lambda>(k, v). nested d k \<and> nested d v) xs)"
| "nested (Suc d) v = True"

lemma content_cmp_other: "scval_type a \<noteq> scval_type b \<Longrightarrow> scval_content_cmp Q c a b = None"
  by (cases a; cases b) (simp_all add: scval_content_cmp_def)

lemma nested_content: "nested d v \<Longrightarrow> \<not> no_content v"
  by (cases "(d, v)" rule: nested.cases) (auto simp: no_content_def split: option.splits)

lemma scval_variants:
  "scval_type a = 0 \<longleftrightarrow> (\<exists>x. a = ScBool x)" "scval_type a = Suc 0 \<longleftrightarrow> a = ScVoid" "scval_type a = 2 \<longleftrightarrow> (\<exists>x y. a = ScError x y)"
  "scval_type a = 3 \<longleftrightarrow> (\<exists>x. a = ScU32 x)" "scval_type a = 4 \<longleftrightarrow> (\<exists>x. a = ScI32 x)" "scval_type a = 5 \<longleftrightarrow> (\<exists>x. a = ScU64 x)"
  "scval_type a = 6 \<longleftrightarrow> (\<exists>x. a = ScI64 x)" "scval_type a = 7 \<longleftrightarrow> (\<exists>x. a = ScTimepoint x)" "scval_type a = 8 \<longleftrightarrow> (\<exists>x. a = ScDuration x)"
  "scval_type a = 9 \<longleftrightarrow> (\<exists>x y. a = ScU128 x y)" "scval_type a = 10 \<longleftrightarrow> (\<exists>x y. a = ScI128 x y)"
  "scval_type a = 11 \<longleftrightarrow> (\<exists>x y z w. a = ScU256 x y z w)" "scval_type a = 12 \<longleftrightarrow> (\<exists>x y z w. a = ScI256 x y z w)"
  "scval_type a = 13 \<longleftrightarrow> (\<exists>x. a = ScBytes x)" "scval_type a = 14 \<longleftrightarrow> (\<exists>x. a = ScString x)" "scval_type a = 15 \<longleftrightarrow> (\<exists>x. a = ScSymbol x)"
  "scval_type a = 16 \<longleftrightarrow> (\<exists>x. a = ScVec x)" "scval_type a = 17 \<longleftrightarrow> (\<exists>x. a = ScMap x)" "scval_type a = 18 \<longleftrightarrow> (\<exists>x. a = ScAddress x)"
  "scval_type a = 19 \<longleftrightarrow> (\<exists>x y. a = ScContractInstance x y)" "scval_type a = 20 \<longleftrightarrow> a = ScLedgerKeyContractInstance"
  "scval_type a = 21 \<longleftrightarrow> (\<exists>x. a = ScLedgerKeyNonce x)" "scval_type a < 22"
  by (cases a; simp)+

lemma bytes_order: "cmp_order UNIV bytes_cmp"
  using cmp_order_lex [OF cmp_order_ord [of UNIV]] by (simp add: bytes_cmp_def)

lemma signed_order: "cmp_order UNIV signed_cmp"
proof -
  have "sint a = sint b \<longleftrightarrow> a = b" for a b :: word64
    by (rule iffI, rule signed_word_eqI) simp_all
  then show ?thesis
    by (auto simp: cmp_order_def signed_cmp_def ord_cmp_def ordering_flip [symmetric])
qed

lemma address_order: "cmp_order UNIV address_cmp"
  unfolding cmp_order_def
proof (intro conjI ballI impI)
  fix a b
  show "\<exists>x. address_cmp a b = Inr x \<and> address_cmp b a = Inr (flip x) \<and> (x = Equal \<longleftrightarrow> a = b)"
    by (cases a; cases b) (auto simp: ord_cmp_def ordering_flip [symmetric])
next
  fix a b d
  assume "address_cmp a b = Inr Less" "address_cmp b d = Inr Less"
  then show "address_cmp a d = Inr Less"
    by (cases a; cases b; cases d) (auto simp: ord_cmp_def)
qed

lemma executable_order: "cmp_order UNIV executable_cmp"
  unfolding cmp_order_def
proof (intro conjI ballI impI)
  fix a b
  show "\<exists>x. executable_cmp a b = Inr x \<and> executable_cmp b a = Inr (flip x) \<and> (x = Equal \<longleftrightarrow> a = b)"
    using cmp_order_total [OF bytes_order] by (cases a; cases b) auto
next
  fix a b d
  assume "executable_cmp a b = Inr Less" "executable_cmp b d = Inr Less"
  then show "executable_cmp a d = Inr Less"
    using cmp_order_trans [OF bytes_order, of "the a" "the b" "the d"] by (cases a; cases b; cases d) auto
qed

lemma entry_cmp_pair: "scmap_entry_cmp c = pair_cmp c c"
  by (simp add: fun_eq_iff scmap_entry_cmp_def pair_cmp_def then_cmp_def)

definition nested_entries :: "nat \<Rightarrow> (ScVal \<times> ScVal) list set" where
  "nested_entries d = lists ({v. nested d v} \<times> {v. nested d v})"

lemma nested_entries_iff: "xs \<in> nested_entries d \<longleftrightarrow> list_all (\<lambda>(k, v). nested d k \<and> nested d v) xs"
  by (auto simp: nested_entries_def in_lists_conv_set list_all_iff)

text \<open>The values of one variant, and their comparison\<close>

definition variant :: "nat \<Rightarrow> nat \<Rightarrow> ScVal set" where
  "variant d n = {a \<in> {v. nested (Suc d) v}. scval_type a = n}"

lemmas variant_defs = variant_def scval_variants scval_content_cmp_def no_content_def

lemma variants_plain:
  "cmp_order (variant d 0) (scval_compare Q (Suc d))"
  "cmp_order (variant d 3) (scval_compare Q (Suc d))"
  "cmp_order (variant d 4) (scval_compare Q (Suc d))"
  "cmp_order (variant d 5) (scval_compare Q (Suc d))"
  "cmp_order (variant d 6) (scval_compare Q (Suc d))"
  "cmp_order (variant d 7) (scval_compare Q (Suc d))"
  "cmp_order (variant d 8) (scval_compare Q (Suc d))"
  "cmp_order (variant d 13) (scval_compare Q (Suc d))"
  "cmp_order (variant d 14) (scval_compare Q (Suc d))"
  "cmp_order (variant d 15) (scval_compare Q (Suc d))"
  "cmp_order (variant d 18) (scval_compare Q (Suc d))"
  "cmp_order (variant d 21) (scval_compare Q (Suc d))"
  by (rule cmp_order_image [OF cmp_order_ord, where K = ScBool], (auto simp: variant_defs)[3])
    (rule cmp_order_image [OF cmp_order_ord, where K = ScU32], (auto simp: variant_defs)[3],
     rule cmp_order_image [OF cmp_order_ord, where K = ScI32], (auto simp: variant_defs)[3],
     rule cmp_order_image [OF cmp_order_ord, where K = ScU64], (auto simp: variant_defs)[3],
     rule cmp_order_image [OF cmp_order_ord, where K = ScI64], (auto simp: variant_defs)[3],
     rule cmp_order_image [OF cmp_order_ord, where K = ScTimepoint], (auto simp: variant_defs)[3],
     rule cmp_order_image [OF cmp_order_ord, where K = ScDuration], (auto simp: variant_defs)[3],
     rule cmp_order_image [OF bytes_order, where K = ScBytes], (auto simp: variant_defs)[3],
     rule cmp_order_image [OF bytes_order, where K = ScString], (auto simp: variant_defs)[3],
     rule cmp_order_image [OF bytes_order, where K = ScSymbol], (auto simp: variant_defs)[3],
     rule cmp_order_image [OF address_order, where K = ScAddress], (auto simp: variant_defs)[3],
     rule cmp_order_image [OF cmp_order_ord, where K = ScLedgerKeyNonce], (auto simp: variant_defs)[3])

lemma pair_order: "cmp_order UNIV c \<Longrightarrow> cmp_order UNIV d \<Longrightarrow> cmp_order UNIV (pair_cmp c d)"
  using cmp_order_pair [of UNIV c UNIV d] by simp

lemma unit_order: "cmp_order UNIV (\<lambda>(a :: unit) b. Inr Equal)"
  by (simp add: cmp_order_def)

lemma variants_parts:
  "cmp_order (variant d 1) (scval_compare Q (Suc d))"
  "cmp_order (variant d 2) (scval_compare Q (Suc d))"
  "cmp_order (variant d 9) (scval_compare Q (Suc d))"
  "cmp_order (variant d 10) (scval_compare Q (Suc d))"
  "cmp_order (variant d 11) (scval_compare Q (Suc d))"
  "cmp_order (variant d 12) (scval_compare Q (Suc d))"
  "cmp_order (variant d 20) (scval_compare Q (Suc d))"
proof -
  note ord = cmp_order_ord [of UNIV]
  note three = pair_order [OF ord pair_order [OF ord ord]]
  show "cmp_order (variant d 1) (scval_compare Q (Suc d))"
    by (rule cmp_order_image [OF unit_order, where K = "\<lambda>_. ScVoid"]) (auto simp: variant_defs)
  show "cmp_order (variant d 2) (scval_compare Q (Suc d))"
    by (rule cmp_order_image [OF pair_order [OF ord ord], where K = "\<lambda>(t, x). ScError t x"]) (auto simp: variant_defs)
  show "cmp_order (variant d 9) (scval_compare Q (Suc d))"
    by (rule cmp_order_image [OF pair_order [OF ord ord], where K = "\<lambda>(x, y). ScU128 x y"]) (auto simp: variant_defs)
  show "cmp_order (variant d 10) (scval_compare Q (Suc d))"
    by (rule cmp_order_image [OF pair_order [OF signed_order ord], where K = "\<lambda>(x, y). ScI128 x y"]) (auto simp: variant_defs)
  show "cmp_order (variant d 11) (scval_compare Q (Suc d))"
    by (rule cmp_order_image [OF pair_order [OF ord three], where K = "\<lambda>(x, y, z, w). ScU256 x y z w"]) (auto simp: variant_defs image_iff)
  show "cmp_order (variant d 12) (scval_compare Q (Suc d))"
    by (rule cmp_order_image [OF pair_order [OF signed_order three], where K = "\<lambda>(x, y, z, w). ScI256 x y z w"]) (auto simp: variant_defs image_iff)
  show "cmp_order (variant d 20) (scval_compare Q (Suc d))"
    by (rule cmp_order_image [OF unit_order, where K = "\<lambda>_. ScLedgerKeyContractInstance"]) (auto simp: variant_defs)
qed

lemma variants_nested:
  assumes "lexicographic Q" and "cmp_order {v. nested d v} (scval_compare Q d)"
  shows "cmp_order (variant d 16) (scval_compare Q (Suc d))"
    and "cmp_order (variant d 17) (scval_compare Q (Suc d))"
    and "cmp_order (variant d 19) (scval_compare Q (Suc d))"
proof -
  have entries: "cmp_order (nested_entries d) (scmap_cmp Q (scval_compare Q d))"
    using cmp_order_lex [OF cmp_order_pair [OF assms(2,2)]] assms(1)
    by (simp add: nested_entries_def scmap_cmp_def entry_cmp_pair lexicographic_def)
  note instances = cmp_order_pair [OF executable_order cmp_order_option [OF entries]]
  show "cmp_order (variant d 16) (scval_compare Q (Suc d))"
    by (rule cmp_order_image [OF cmp_order_lex [OF assms(2)], where K = "\<lambda>xs. ScVec (Some xs)"])
      (use assms(1) in \<open>auto simp: variant_defs lexicographic_def list_all_iff in_lists_conv_set image_iff split: option.splits\<close>)
  show "cmp_order (variant d 17) (scval_compare Q (Suc d))"
    by (rule cmp_order_image [OF entries, where K = "\<lambda>xs. ScMap (Some xs)"])
      (auto simp: variant_defs nested_entries_iff split: option.splits)
  show "cmp_order (variant d 19) (scval_compare Q (Suc d))"
    by (rule cmp_order_image [OF instances, where K = "\<lambda>(e, s). ScContractInstance e s"])
      (use assms(1) in \<open>auto simp: variant_defs contract_instance_cmp_def lexicographic_def nested_entries_iff image_iff split: option.splits\<close>)
qed

lemma variants_order:
  assumes "lexicographic Q" and "cmp_order {v. nested d v} (scval_compare Q d)"
  shows "cmp_order (variant d n) (scval_compare Q (Suc d))"
proof (cases "n < 22")
  case True
  then have "n \<in> {0, 1, 2, 3, 4, 5, 6, 7, 8, 9, 10, 11, 12, 13, 14, 15, 16, 17, 18, 19, 20, 21}"
    unfolding insert_iff empty_iff by arith
  then show ?thesis
    using variants_plain [of d Q] variants_parts [of d Q] variants_nested [OF assms] by (elim insertE) simp_all
next
  case False
  then have "variant d n = {}"
    using scval_variants(23) by (auto simp: variant_def)
  then show ?thesis
    by (simp add: cmp_order_def)
qed

lemma scval_order:
  assumes "lexicographic Q"
  shows "cmp_order {v. nested d v} (scval_compare Q d)"
proof (induction d)
  case 0
  then show ?case
    by (simp add: cmp_order_def)
next
  case (Suc d)
  show ?case
  proof (rule cmp_order_variants [where k = scval_type])
    show "cmp_order {a \<in> {v. nested (Suc d) v}. scval_type a = n} (scval_compare Q (Suc d))" for n
      using variants_order [OF assms Suc] by (simp add: variant_def)
    show "scval_compare Q (Suc d) a b = Inr (ordering (scval_type a) (scval_type b))"
      if "a \<in> {v. nested (Suc d) v}" "b \<in> {v. nested (Suc d) v}" "scval_type a \<noteq> scval_type b" for a b
      using that nested_content [of "Suc d"] assms by (auto simp: content_cmp_other ord_cmp_def lexicographic_def)
  qed
qed

section \<open>The order of host values\<close>

fun host_obj_discriminant :: "HostObject \<Rightarrow> nat" where
  "host_obj_discriminant (HU64 _) = 0"
| "host_obj_discriminant (HI64 _) = 1"
| "host_obj_discriminant (HTimePoint _) = 2"
| "host_obj_discriminant (HDuration _) = 3"
| "host_obj_discriminant (HU128 _) = 4"
| "host_obj_discriminant (HI128 _) = 5"
| "host_obj_discriminant (HU256 _) = 6"
| "host_obj_discriminant (HI256 _) = 7"
| "host_obj_discriminant (HBytes _) = 8"
| "host_obj_discriminant (HString _) = 9"
| "host_obj_discriminant (HSymbol _) = 10"
| "host_obj_discriminant (HVec _) = 11"
| "host_obj_discriminant (HMap _) = 12"
| "host_obj_discriminant (HAddress _) = 13"

text \<open>The cases of two objects of one type; \<open>None\<close> for any other pair.\<close>

definition host_content_cmp :: "value_order \<Rightarrow> Val cmp \<Rightarrow> HostObject \<Rightarrow> HostObject \<Rightarrow> (host_error + Ordering) option" where
  "host_content_cmp Q c a b =
     (case a of
        HU64 x \<Rightarrow> (case b of HU64 y \<Rightarrow> Some (ord_cmp x y) | _ \<Rightarrow> None)
      | HI64 x \<Rightarrow> (case b of HI64 y \<Rightarrow> Some (ord_cmp x y) | _ \<Rightarrow> None)
      | HTimePoint x \<Rightarrow> (case b of HTimePoint y \<Rightarrow> Some (ord_cmp x y) | _ \<Rightarrow> None)
      | HDuration x \<Rightarrow> (case b of HDuration y \<Rightarrow> Some (ord_cmp x y) | _ \<Rightarrow> None)
      | HU128 x \<Rightarrow> (case b of HU128 y \<Rightarrow> Some (ord_cmp x y) | _ \<Rightarrow> None)
      | HI128 x \<Rightarrow> (case b of HI128 y \<Rightarrow> Some (ord_cmp x y) | _ \<Rightarrow> None)
      | HU256 x \<Rightarrow> (case b of HU256 y \<Rightarrow> Some (ord_cmp x y) | _ \<Rightarrow> None)
      | HI256 x \<Rightarrow> (case b of HI256 y \<Rightarrow> Some (ord_cmp x y) | _ \<Rightarrow> None)
      | HVec x \<Rightarrow> (case b of HVec y \<Rightarrow> Some (cmp_vals Q c x y) | _ \<Rightarrow> None)
      | HMap x \<Rightarrow> (case b of HMap y \<Rightarrow> Some (cmp_val_pairs Q c x y) | _ \<Rightarrow> None)
      | HBytes x \<Rightarrow> (case b of HBytes y \<Rightarrow> Some (bytes_cmp x y) | _ \<Rightarrow> None)
      | HString x \<Rightarrow> (case b of HString y \<Rightarrow> Some (bytes_cmp x y) | _ \<Rightarrow> None)
      | HSymbol x \<Rightarrow> (case b of HSymbol y \<Rightarrow> Some (bytes_cmp x y) | _ \<Rightarrow> None)
      | HAddress x \<Rightarrow> (case b of HAddress y \<Rightarrow> Some (address_cmp x y) | _ \<Rightarrow> None))"

definition host_cases :: "value_order \<Rightarrow> Val cmp \<Rightarrow> HostObject cmp" where
  "host_cases Q c a b =
     (case host_content_cmp Q c a b of
        Some r \<Rightarrow> r
      | None \<Rightarrow> ord_cmp (host_obj_discriminant a) (host_obj_discriminant b))"

fun try_compare_to_small :: "value_order \<Rightarrow> HostObject \<Rightarrow> Val \<Rightarrow> Ordering option" where
  "try_compare_to_small Q (HU64 u) rv = map_option (ordering u) (small_u64 Q rv)"
| "try_compare_to_small Q (HI64 i) rv = map_option (ordering i) (small_i64 Q rv)"
| "try_compare_to_small Q (HTimePoint tp) rv = map_option (ordering tp) (small_timepoint Q rv)"
| "try_compare_to_small Q (HDuration d) rv = map_option (ordering d) (small_duration Q rv)"
| "try_compare_to_small Q (HU128 u) rv = map_option (ordering u) (small_u128 Q rv)"
| "try_compare_to_small Q (HI128 i) rv = map_option (ordering i) (small_i128 Q rv)"
| "try_compare_to_small Q (HU256 u) rv = map_option (ordering u) (small_u256 Q rv)"
| "try_compare_to_small Q (HI256 i) rv = map_option (ordering i) (small_i256 Q rv)"
| "try_compare_to_small Q (HSymbol s) rv = (case rv of SymbolSmall small \<Rightarrow> Some (projr (bytes_cmp s small)) | _ \<Rightarrow> None)"
| "try_compare_to_small Q _ rv = None"

definition obj_cmp :: "value_order \<Rightarrow> obj_host \<Rightarrow> HostObject cmp \<Rightarrow> Val \<Rightarrow> Val \<Rightarrow> host_error + int" where
  "obj_cmp Q s compare a b =
     try_sum (case (a, b) of
        (ObjVal _ ha, ObjVal _ hb) \<Rightarrow>
          visit_obj_untyped ha (\<lambda>ao. visit_obj_untyped hb (\<lambda>bo. try_sum (compare ao bo) (\<lambda>x. Inr (Some x))) s) s
      | (ObjVal _ ha, _) \<Rightarrow> visit_obj_untyped ha (\<lambda>aobj. Inr (try_compare_to_small Q aobj b)) s
      | (_, ObjVal _ hb) \<Rightarrow> visit_obj_untyped hb (\<lambda>bobj. Inr (map_option flip (try_compare_to_small Q bobj a))) s
      | _ \<Rightarrow> Inl (HostErr SCE_Value UnexpectedType)) (\<lambda>r.
     try_sum (case r of
        Some x \<Rightarrow> Inr x
      | None \<Rightarrow>
          if val_type Q a = val_type Q b then Inl (HostErr SCE_Value InternalError)
          else ord_cmp (val_type Q a) (val_type Q b)) (\<lambda>res.
     Inr (case res of Less \<Rightarrow> - 1 | Equal \<Rightarrow> 0 | Greater \<Rightarrow> 1)))"

fun host_compare :: "value_order \<Rightarrow> obj_host \<Rightarrow> nat \<Rightarrow> HostObject cmp" where
  "host_compare Q s 0 a b = Inl depth_exceeded"
| "host_compare Q s (Suc depth) a b = host_cases Q (env_cmp Q (obj_cmp Q s (host_compare Q s depth))) a b"

subsection \<open>What the common crate promises\<close>

fun obj_in_range :: "HostObject \<Rightarrow> bool" where
  "obj_in_range (HU128 n) \<longleftrightarrow> n < 2 ^ 128"
| "obj_in_range (HI128 i) \<longleftrightarrow> - (2 ^ 127) \<le> i \<and> i < 2 ^ 127"
| "obj_in_range (HU256 n) \<longleftrightarrow> n < 2 ^ 256"
| "obj_in_range (HI256 i) \<longleftrightarrow> - (2 ^ 255) \<le> i \<and> i < 2 ^ 255"
| "obj_in_range _ \<longleftrightarrow> True"

text \<open>The pieces of a wide integer order like the integer.\<close>

definition pieces_ordered :: "conversion \<Rightarrow> bool" where
  "pieces_ordered V \<longleftrightarrow>
     (\<forall>m n. m < 2 ^ 128 \<longrightarrow> n < 2 ^ 128 \<longrightarrow> pair_cmp ord_cmp ord_cmp (u128_into_pieces V m) (u128_into_pieces V n) = ord_cmp m n)
   \<and> (\<forall>i j. - (2 ^ 127) \<le> i \<longrightarrow> i < 2 ^ 127 \<longrightarrow> - (2 ^ 127) \<le> j \<longrightarrow> j < 2 ^ 127 \<longrightarrow>
        pair_cmp signed_cmp ord_cmp (i128_into_pieces V i) (i128_into_pieces V j) = ord_cmp i j)
   \<and> (\<forall>m n. m < 2 ^ 256 \<longrightarrow> n < 2 ^ 256 \<longrightarrow>
        pair_cmp ord_cmp (pair_cmp ord_cmp (pair_cmp ord_cmp ord_cmp)) (u256_into_pieces V m) (u256_into_pieces V n) = ord_cmp m n)
   \<and> (\<forall>i j. - (2 ^ 255) \<le> i \<longrightarrow> i < 2 ^ 255 \<longrightarrow> - (2 ^ 255) \<le> j \<longrightarrow> j < 2 ^ 255 \<longrightarrow>
        pair_cmp signed_cmp (pair_cmp ord_cmp (pair_cmp ord_cmp ord_cmp)) (i256_into_pieces V i) (i256_into_pieces V j) = ord_cmp i j)"

text \<open>The object that a small value of the type of a given object stands for\<close>

fun small_like :: "value_order \<Rightarrow> HostObject \<Rightarrow> Val \<Rightarrow> HostObject option" where
  "small_like Q (HU64 _) v = map_option HU64 (small_u64 Q v)"
| "small_like Q (HI64 _) v = map_option HI64 (small_i64 Q v)"
| "small_like Q (HTimePoint _) v = map_option HTimePoint (small_timepoint Q v)"
| "small_like Q (HDuration _) v = map_option HDuration (small_duration Q v)"
| "small_like Q (HU128 _) v = map_option HU128 (small_u128 Q v)"
| "small_like Q (HI128 _) v = map_option HI128 (small_i128 Q v)"
| "small_like Q (HU256 _) v = map_option HU256 (small_u256 Q v)"
| "small_like Q (HI256 _) v = map_option HI256 (small_i256 Q v)"
| "small_like Q (HSymbol _) v = (case v of SymbolSmall s \<Rightarrow> Some (HSymbol s) | _ \<Rightarrow> None)"
| "small_like Q _ v = None"

fun is_obj :: "Val \<Rightarrow> bool" where
  "is_obj (ObjVal _ _) = True"
| "is_obj _ = False"

text \<open>A small value converts like the object it stands for, and each type that a small value converts to has small
  values; the type of a value is the variant it converts to; \<open>Env\<close> compares with the help of \<open>obj_cmp\<close> if
  an object is involved and otherwise orders small values as their XDR values.\<close>

definition small_ok :: "common \<Rightarrow> conversion \<Rightarrow> value_order \<Rightarrow> bool" where
  "small_ok X V Q \<longleftrightarrow>
     (\<forall>ho v ho' f. \<not> is_obj v \<longrightarrow> small_like Q ho v = Some ho' \<longrightarrow> obj_in_range ho' \<and> small_from_val V v = host_object_to_scval X V f ho')
   \<and> (\<forall>ho v sv so f. \<not> is_obj v \<longrightarrow> small_like Q ho v = None \<longrightarrow> small_from_val V v = Inr sv \<longrightarrow>
        host_object_to_scval X V f ho = Inr so \<longrightarrow> scval_type so \<noteq> scval_type sv)
   \<and> (\<forall>v sv. \<not> is_obj v \<longrightarrow> small_from_val V v = Inr sv \<longrightarrow> val_type Q v = discriminant Q sv)
   \<and> (\<forall>ho h so f. host_object_to_scval X V f ho = Inr so \<longrightarrow> val_type Q (ObjVal (tag_of ho) h) = discriminant Q so)
   \<and> (\<forall>f a b. is_obj a \<or> is_obj b \<longrightarrow> env_cmp Q f a b = try_sum (f a b) (\<lambda>i. Inr (ordering i 0)))
   \<and> (\<forall>f a b sa sb d. \<not> is_obj a \<longrightarrow> \<not> is_obj b \<longrightarrow> small_from_val V a = Inr sa \<longrightarrow> small_from_val V b = Inr sb \<longrightarrow>
        env_cmp Q f a b = scval_compare Q (Suc d) sa sb)"

subsection \<open>Objects of one type\<close>

lemma host_content_other: "host_obj_discriminant a \<noteq> host_obj_discriminant b \<Longrightarrow> host_content_cmp Q c a b = None"
  by (cases a; cases b) (simp_all add: host_content_cmp_def)

lemma converted_type: "host_object_to_scval X V f ho = Inr so \<Longrightarrow> scval_type so = host_obj_discriminant ho + 5"
  by (cases ho) (auto simp: try_sum_ok split: if_splits prod.splits)

lemma converted_content: "host_object_to_scval X V f ho = Inr so \<Longrightarrow> \<not> no_content so"
  by (cases ho) (auto simp: try_sum_ok no_content_def split: if_splits prod.splits)

text \<open>Vectors order like their elements.\<close>

lemma lex_agree:
  assumes "\<And>u v su sv y. f u = Inr su \<Longrightarrow> f v = Inr sv \<Longrightarrow> c' su sv = Inr y \<Longrightarrow> c u v = Inr (y :: Ordering)"
  shows "collect f us = Inr sus \<Longrightarrow> collect f vs = Inr svs \<Longrightarrow> lex_cmp c' sus svs = Inr x \<Longrightarrow> lex_cmp c us vs = Inr x"
proof (induction us vs arbitrary: sus svs rule: list_induct2')
  case (4 u us v vs)
  then obtain su sus' sv svs' where s: "sus = su # sus'" "svs = sv # svs'" "f u = Inr su" "f v = Inr sv"
      "collect f us = Inr sus'" "collect f vs = Inr svs'"
    by (auto simp: try_sum_ok)
  then obtain y where y: "c' su sv = Inr y" "y = Equal \<and> lex_cmp c' sus' svs' = Inr x \<or> y \<noteq> Equal \<and> y = x"
    using "4.prems"(3) by (auto simp: then_cmp_def try_sum_ok split: if_splits)
  then show ?case
    using assms [OF s(3,4) y(1)] "4.IH" [OF s(5,6)] by (auto simp: then_cmp_def)
qed (auto simp: try_sum_ok)

lemma pair_agree:
  assumes "\<And>u v su sv y. f u = Inr su \<Longrightarrow> f v = Inr sv \<Longrightarrow> c' su sv = Inr y \<Longrightarrow> c u v = Inr (y :: Ordering)"
    and "(\<lambda>(k, v). try_sum (f k) (\<lambda>key. try_sum (f v) (\<lambda>val. Inr (key, val)))) p = Inr sp"
    and "(\<lambda>(k, v). try_sum (f k) (\<lambda>key. try_sum (f v) (\<lambda>val. Inr (key, val)))) q = Inr sq"
    and "pair_cmp c' c' sp sq = Inr y"
  shows "pair_cmp c c p q = Inr y"
proof -
  obtain k v k' v' where pq: "p = (k, v)" "q = (k', v')"
    by fastforce
  then obtain sk sv sk' sv' where s: "f k = Inr sk" "f v = Inr sv" "f k' = Inr sk'" "f v' = Inr sv'" "sp = (sk, sv)" "sq = (sk', sv')"
    using assms(2,3) by (auto simp: try_sum_ok)
  then obtain z where z: "c' sk sk' = Inr z" "z = Equal \<and> c' sv sv' = Inr y \<or> z \<noteq> Equal \<and> z = y"
    using assms(4) by (auto simp: pair_cmp_def then_cmp_def try_sum_ok split: if_splits)
  then show ?thesis
    using assms(1) [OF s(1,3) z(1)] assms(1) [OF s(2,4), of y] by (auto simp: pq pair_cmp_def then_cmp_def)
qed

lemma wide_agree:
  assumes "pieces_ordered V"
  shows "obj_in_range (HU128 m) \<Longrightarrow> obj_in_range (HU128 n) \<Longrightarrow> u128_into_pieces V m = p \<Longrightarrow> u128_into_pieces V n = q \<Longrightarrow>
      pair_cmp ord_cmp ord_cmp p q = Inr x \<Longrightarrow> ord_cmp m n = Inr x"
    and "obj_in_range (HI128 i) \<Longrightarrow> obj_in_range (HI128 j) \<Longrightarrow> i128_into_pieces V i = p \<Longrightarrow> i128_into_pieces V j = q \<Longrightarrow>
      pair_cmp signed_cmp ord_cmp p q = Inr x \<Longrightarrow> ord_cmp i j = Inr x"
    and "obj_in_range (HU256 m) \<Longrightarrow> obj_in_range (HU256 n) \<Longrightarrow> u256_into_pieces V m = p' \<Longrightarrow> u256_into_pieces V n = q' \<Longrightarrow>
      pair_cmp ord_cmp (pair_cmp ord_cmp (pair_cmp ord_cmp ord_cmp)) p' q' = Inr x \<Longrightarrow> ord_cmp m n = Inr x"
    and "obj_in_range (HI256 i) \<Longrightarrow> obj_in_range (HI256 j) \<Longrightarrow> i256_into_pieces V i = p' \<Longrightarrow> i256_into_pieces V j = q' \<Longrightarrow>
      pair_cmp signed_cmp (pair_cmp ord_cmp (pair_cmp ord_cmp ord_cmp)) p' q' = Inr x \<Longrightarrow> ord_cmp i j = Inr x"
  using assms unfolding pieces_ordered_def obj_in_range.simps by metis+

lemma content_agree:
  assumes elem: "\<And>u v su sv y. f u = Inr su \<Longrightarrow> f v = Inr sv \<Longrightarrow> scval_compare Q d su sv = Inr y \<Longrightarrow> c u v = Inr y"
    and Q: "lexicographic Q" and V: "pieces_ordered V" and range: "obj_in_range a" "obj_in_range b"
    and conv: "host_object_to_scval X V f a = Inr sa" "host_object_to_scval X V f b = Inr sb"
    and same: "host_obj_discriminant a = host_obj_discriminant b"
    and x: "scval_content_cmp Q (scval_compare Q d) sa sb = Some (Inr x)"
  shows "host_content_cmp Q c a b = Some (Inr x)"
proof -
  have lexs: "cmp_scvals Q = lex_cmp" "cmp_vals Q = lex_cmp" "scmap_cmp Q e = lex_cmp (pair_cmp e e)" "cmp_val_pairs Q c = lex_cmp (pair_cmp c c)" for e
    using Q by (simp_all add: lexicographic_def scmap_cmp_def entry_cmp_pair)
  have vec: "lex_cmp c us vs = Inr x" if "collect f us = Inr sus" "collect f vs = Inr svs" "lex_cmp (scval_compare Q d) sus svs = Inr x" for us vs sus svs
    using lex_agree [OF elem that] .
  have map: "lex_cmp (pair_cmp c c) us vs = Inr x"
    if "host_map_to_scmap X f us = Inr sus" "host_map_to_scmap X f vs = Inr svs"
      "lex_cmp (pair_cmp (scval_compare Q d) (scval_compare Q d)) sus svs = Inr x" for us vs sus svs
  proof (rule lex_agree [OF pair_agree])
    show "collect (\<lambda>(k, v). try_sum (f k) (\<lambda>key. try_sum (f v) (\<lambda>val. Inr (key, val)))) us = Inr sus"
      "collect (\<lambda>(k, v). try_sum (f k) (\<lambda>key. try_sum (f v) (\<lambda>val. Inr (key, val)))) vs = Inr svs"
      using that(1,2) by (auto simp: host_map_to_scmap_def try_sum_ok split: if_splits)
  qed (use that(3) elem in auto)
  show ?thesis
  proof (cases "\<exists>n. host_obj_discriminant a = n \<and> 4 \<le> n \<and> n \<le> 7")
    case True
    then show ?thesis
      using conv same x range
      by (cases a; cases b)
        (auto simp: scval_content_cmp_def host_content_cmp_def simp del: obj_in_range.simps split: prod.splits intro: wide_agree [OF V])
  next
    case False
    then show ?thesis
      using conv same x
      by (cases a; cases b)
        (auto simp: scval_content_cmp_def host_content_cmp_def try_sum_ok lexs vec map split: if_splits)
  qed
qed

lemma cases_agree:
  assumes elem: "\<And>u v su sv y. f u = Inr su \<Longrightarrow> f v = Inr sv \<Longrightarrow> scval_compare Q d su sv = Inr y \<Longrightarrow> c u v = Inr y"
    and Q: "lexicographic Q" and V: "pieces_ordered V" and range: "obj_in_range a" "obj_in_range b"
    and conv: "host_object_to_scval X V f a = Inr sa" "host_object_to_scval X V f b = Inr sb"
    and x: "scval_compare Q (Suc d) sa sb = Inr x"
  shows "host_cases Q c a b = Inr x"
proof -
  have types: "scval_type sa = host_obj_discriminant a + 5" "scval_type sb = host_obj_discriminant b + 5"
    using conv [THEN converted_type] by simp_all
  have content: "\<not> no_content sa" "\<not> no_content sb"
    using conv [THEN converted_content] by simp_all
  show ?thesis
  proof (cases "host_obj_discriminant a = host_obj_discriminant b")
    case True
    have "scval_content_cmp Q (scval_compare Q d) sa sb \<noteq> None"
      using conv True by (cases a; cases b) (auto simp: scval_content_cmp_def try_sum_ok split: if_splits prod.splits)
    then have "scval_content_cmp Q (scval_compare Q d) sa sb = Some (Inr x)"
      using x content by auto
    from content_agree [OF elem Q V range conv True this] show ?thesis
      by (simp add: host_cases_def)
  next
    case False
    then have "ordering (host_obj_discriminant a) (host_obj_discriminant b) = x"
      using x content Q types by (auto simp: content_cmp_other ord_cmp_def lexicographic_def ordering_def)
    with False show ?thesis
      by (simp add: host_cases_def host_content_other ord_cmp_def)
  qed
qed

lemma small_compared:
  assumes "small_like Q ho v = Some ho'"
  obtains y where "try_compare_to_small Q ho v = Some y" and "host_cases Q c ho ho' = Inr y" and "host_cases Q c ho' ho = Inr (flip y)"
proof -
  have bytes: "bytes_cmp a b = Inr (projr (bytes_cmp a b))" "bytes_cmp b a = Inr (flip (projr (bytes_cmp a b)))" for a b
    using cmp_order_total [OF bytes_order, of a b] by auto
  have "\<exists>y. try_compare_to_small Q ho v = Some y \<and> host_cases Q c ho ho' = Inr y \<and> host_cases Q c ho' ho = Inr (flip y)"
    using assms
    by (cases ho) (auto simp: host_cases_def host_content_cmp_def ord_cmp_def ordering_flip [symmetric] split: Val.splits intro: bytes)
  with that show thesis
    by blast
qed

lemma small_like_none: "small_like Q ho v = None \<Longrightarrow> try_compare_to_small Q ho v = None"
  by (cases ho) (auto split: Val.splits)

lemma answer_sign [simp]: "ordering (case x of Less \<Rightarrow> - 1 | Equal \<Rightarrow> 0 | Greater \<Rightarrow> (1 :: int)) 0 = x"
  by (cases x) (simp_all add: ordering_def)

text \<open>A host whose references lead to objects of their type and whose wide integers are in range\<close>

definition sound_objects :: "obj_host \<Rightarrow> bool" where
  "sound_objects s \<longleftrightarrow> (\<forall>ho\<in>set (objects s). obj_in_range ho \<and> (\<forall>tag h. ObjVal tag h \<in> set (obj_vals ho) \<longrightarrow> ref_ok (objects s) tag h))"

definition sound_val :: "obj_host \<Rightarrow> Val \<Rightarrow> bool" where
  "sound_val s v \<longleftrightarrow> (\<forall>tag h. v = ObjVal tag h \<longrightarrow> ref_ok (objects s) tag h)"

lemma collect_cong: "(\<And>x. x \<in> set xs \<Longrightarrow> f x = g x) \<Longrightarrow> collect f xs = collect g xs"
  by (induction xs) auto

lemma converted_cong:
  assumes "\<And>v. v \<in> set (obj_vals ho) \<Longrightarrow> f v = g v"
  shows "host_object_to_scval X V f ho = host_object_to_scval X V g ho"
proof (cases ho)
  case (HVec vs)
  then show ?thesis
    using assms by (simp cong: collect_cong)
next
  case (HMap m)
  have "f k = g k \<and> f v = g v" if "(k, v) \<in> set m" for k v
    using assms that by (force simp: HMap)
  then have "collect (\<lambda>(k, v). try_sum (f k) (\<lambda>key. try_sum (f v) (\<lambda>val. Inr (key, val)))) m
      = collect (\<lambda>(k, v). try_sum (g k) (\<lambda>key. try_sum (g v) (\<lambda>val. Inr (key, val)))) m"
    by (intro collect_cong) auto
  then show ?thesis
    by (simp add: HMap host_map_to_scmap_def)
qed simp_all

lemma converted_object:
  assumes "from_host_val X V s (Suc n) (ObjVal tag h) = Inr sv" and "sound_val s (ObjVal tag h)"
  obtains ho where "ho \<in> set (objects s)" and "\<And>g. visit_obj_untyped h g s = g ho" and "tag_of ho = tag"
    and "host_object_to_scval X V (from_host_val X V s n) ho = Inr sv"
proof (rule that [of "objects s ! handle_to_index h"])
  show visit: "visit_obj_untyped h g s = g (objects s ! handle_to_index h)" for g :: "HostObject \<Rightarrow> host_error + 'b"
    using assms(2) by (simp add: visit_obj_untyped_def sound_val_def ref_ok_def)
  show "objects s ! handle_to_index h \<in> set (objects s)" "tag_of (objects s ! handle_to_index h) = tag"
    using assms(2) by (simp_all add: sound_val_def ref_ok_def)
  have "visit_obj_untyped h g s = g (objects s ! handle_to_index h)" for g :: "HostObject \<Rightarrow> host_error + ScVal"
    using assms(2) by (simp add: visit_obj_untyped_def sound_val_def ref_ok_def)
  then show "host_object_to_scval X V (from_host_val X V s n) (objects s ! handle_to_index h) = Inr sv"
    using assms(1) by (auto simp: from_host_obj_def try_sum_ok)
qed

definition order_laws :: "common \<Rightarrow> conversion \<Rightarrow> value_order \<Rightarrow> bool" where
  "order_laws X V Q \<longleftrightarrow> lexicographic Q \<and> pieces_ordered V \<and> small_ok X V Q"

text \<open>The comparison that the host gives to vectors and maps\<close>

definition val_compare :: "value_order \<Rightarrow> obj_host \<Rightarrow> nat \<Rightarrow> Val cmp" where
  "val_compare Q s d = env_cmp Q (obj_cmp Q s (host_compare Q s d))"

text \<open>A comparison of host values that agrees with that of the XDR values they convert to\<close>

definition agrees :: "common \<Rightarrow> conversion \<Rightarrow> value_order \<Rightarrow> obj_host \<Rightarrow> nat \<Rightarrow> nat \<Rightarrow> Val cmp \<Rightarrow> bool" where
  "agrees X V Q s n d c \<longleftrightarrow> (\<forall>u v su sv y. sound_val s u \<longrightarrow> sound_val s v \<longrightarrow> from_host_val X V s n u = Inr su \<longrightarrow>
     from_host_val X V s n v = Inr sv \<longrightarrow> scval_compare Q d su sv = Inr y \<longrightarrow> c u v = Inr y)"

lemma objects_agree:
  assumes laws: "order_laws X V Q" and s: "sound_objects s"
    and IH: "agrees X V Q s n d c"
    and a: "obj_in_range a" "set (obj_vals a) \<subseteq> {v. sound_val s v}" "host_object_to_scval X V (from_host_val X V s n) a = Inr sa"
    and b: "obj_in_range b" "set (obj_vals b) \<subseteq> {v. sound_val s v}" "host_object_to_scval X V (from_host_val X V s n) b = Inr sb"
    and x: "scval_compare Q (Suc d) sa sb = Inr x"
  shows "host_cases Q c a b = Inr x"
proof -
  define f where "f v = (if sound_val s v then from_host_val X V s n v else Inl depth_exceeded)" for v
  have f: "host_object_to_scval X V f ho = host_object_to_scval X V (from_host_val X V s n) ho"
    if "set (obj_vals ho) \<subseteq> {v. sound_val s v}" for ho
    using that by (intro converted_cong) (auto simp: f_def)
  show ?thesis
  proof (rule cases_agree [where f = f and X = X and V = V])
    show "c u v = Inr y" if "f u = Inr su" "f v = Inr sv" "scval_compare Q d su sv = Inr y" for u v su sv y
      using that IH by (auto simp: f_def agrees_def split: if_splits)
  qed (use laws a b x f in \<open>simp_all add: order_laws_def\<close>)
qed

lemma small_laws:
  assumes "order_laws X V Q"
  shows "\<not> is_obj v \<Longrightarrow> small_like Q ho v = Some ho' \<Longrightarrow> obj_in_range ho' \<and> small_from_val V v = host_object_to_scval X V f ho'"
    and "\<not> is_obj v \<Longrightarrow> small_like Q ho v = None \<Longrightarrow> small_from_val V v = Inr sv \<Longrightarrow> host_object_to_scval X V f ho = Inr so \<Longrightarrow>
      scval_type so \<noteq> scval_type sv"
    and "\<not> is_obj v \<Longrightarrow> small_from_val V v = Inr sv \<Longrightarrow> val_type Q v = discriminant Q sv"
    and "host_object_to_scval X V f ho = Inr so \<Longrightarrow> val_type Q (ObjVal (tag_of ho) h) = discriminant Q so"
    and "is_obj a \<or> is_obj b \<Longrightarrow> env_cmp Q g a b = try_sum (g a b) (\<lambda>i. Inr (ordering i 0))"
    and "\<not> is_obj a \<Longrightarrow> \<not> is_obj b \<Longrightarrow> small_from_val V a = Inr sa \<Longrightarrow> small_from_val V b = Inr sb \<Longrightarrow>
      env_cmp Q g a b = scval_compare Q (Suc d) sa sb"
proof -
  note small = assms [unfolded order_laws_def small_ok_def, THEN conjunct2, THEN conjunct2]
  show "\<not> is_obj v \<Longrightarrow> small_like Q ho v = Some ho' \<Longrightarrow> obj_in_range ho' \<and> small_from_val V v = host_object_to_scval X V f ho'"
    using small [THEN conjunct1] by blast
  show "\<not> is_obj v \<Longrightarrow> small_like Q ho v = None \<Longrightarrow> small_from_val V v = Inr sv \<Longrightarrow> host_object_to_scval X V f ho = Inr so \<Longrightarrow>
      scval_type so \<noteq> scval_type sv"
    using small [THEN conjunct2, THEN conjunct1] by blast
  show "\<not> is_obj v \<Longrightarrow> small_from_val V v = Inr sv \<Longrightarrow> val_type Q v = discriminant Q sv"
    using small [THEN conjunct2, THEN conjunct2, THEN conjunct1] by blast
  show "host_object_to_scval X V f ho = Inr so \<Longrightarrow> val_type Q (ObjVal (tag_of ho) h) = discriminant Q so"
    using small [THEN conjunct2, THEN conjunct2, THEN conjunct2, THEN conjunct1] by blast
  show "is_obj a \<or> is_obj b \<Longrightarrow> env_cmp Q g a b = try_sum (g a b) (\<lambda>i. Inr (ordering i 0))"
    using small [THEN conjunct2, THEN conjunct2, THEN conjunct2, THEN conjunct2, THEN conjunct1] by blast
  show "\<not> is_obj a \<Longrightarrow> \<not> is_obj b \<Longrightarrow> small_from_val V a = Inr sa \<Longrightarrow> small_from_val V b = Inr sb \<Longrightarrow>
      env_cmp Q g a b = scval_compare Q (Suc d) sa sb"
    using small [THEN conjunct2, THEN conjunct2, THEN conjunct2, THEN conjunct2, THEN conjunct2] by blast
qed

lemma small_like_vals: "small_like Q ho v = Some ho' \<Longrightarrow> obj_vals ho' = []"
  by (cases ho) (auto split: Val.splits)

lemma types_decide:
  assumes "lexicographic Q" and "scval_type sa \<noteq> scval_type sb" and "scval_compare Q (Suc d) sa sb = Inr x"
  shows "discriminant Q sa \<noteq> discriminant Q sb \<and> x = ordering (discriminant Q sa) (discriminant Q sb)"
proof -
  have "ordering (discriminant Q sa) (discriminant Q sb) \<noteq> Equal"
    using assms(1,2) by (simp add: lexicographic_def)
  then show ?thesis
    using assms(2,3) by (auto simp: content_cmp_other ord_cmp_def split: if_splits)
qed

lemma small_converts: "from_host_val X V s (Suc n) v = Inr sv \<Longrightarrow> \<not> is_obj v \<Longrightarrow> small_from_val V v = Inr sv"
  by (cases v) (auto simp: try_sum_ok)

text \<open>An object against a small value, in both directions\<close>

lemma object_small_agree:
  assumes laws: "order_laws X V Q" and s: "sound_objects s"
    and IH: "agrees X V Q s n d c"
    and ho: "ho \<in> set (objects s)" "host_object_to_scval X V (from_host_val X V s n) ho = Inr so"
    and v: "\<not> is_obj v" "small_from_val V v = Inr sv"
  shows "scval_compare Q (Suc d) so sv = Inr x \<Longrightarrow>
      (case try_compare_to_small Q ho v of Some y \<Rightarrow> y = x
       | None \<Rightarrow> discriminant Q so \<noteq> discriminant Q sv \<and> x = ordering (discriminant Q so) (discriminant Q sv))"
    and "scval_compare Q (Suc d) sv so = Inr x \<Longrightarrow>
      (case try_compare_to_small Q ho v of Some y \<Rightarrow> flip y = x
       | None \<Rightarrow> discriminant Q sv \<noteq> discriminant Q so \<and> x = ordering (discriminant Q sv) (discriminant Q so))"
proof -
  have obj: "obj_in_range ho" "set (obj_vals ho) \<subseteq> {v. sound_val s v}"
    using s ho(1) by (auto simp: sound_objects_def sound_val_def)
  have Q: "lexicographic Q"
    using laws by (simp add: order_laws_def)
  have obj_case: "host_cases Q c a b = Inr x"
    if "obj_in_range a" "set (obj_vals a) \<subseteq> {v. sound_val s v}" "host_object_to_scval X V (from_host_val X V s n) a = Inr sa"
      "obj_in_range b" "set (obj_vals b) \<subseteq> {v. sound_val s v}" "host_object_to_scval X V (from_host_val X V s n) b = Inr sb"
      "scval_compare Q (Suc d) sa sb = Inr x" for a b sa sb x
    by (rule objects_agree [OF laws s IH that])
  have none: "try_compare_to_small Q ho v = None \<and> scval_type so \<noteq> scval_type sv" if "small_like Q ho v = None"
    using small_laws(2) [OF laws v(1) that v(2) ho(2)] small_like_none [OF that] by simp
  have some: "\<exists>ho' y. obj_in_range ho' \<and> obj_vals ho' = [] \<and> host_object_to_scval X V (from_host_val X V s n) ho' = Inr sv
      \<and> try_compare_to_small Q ho v = Some y \<and> host_cases Q c ho ho' = Inr y \<and> host_cases Q c ho' ho = Inr (flip y)"
    if "small_like Q ho v = Some ho'" for ho'
    using small_laws(1) [OF laws v(1) that, of "from_host_val X V s n"] small_like_vals [OF that] v(2) small_compared [OF that, of c] by metis
  show "case try_compare_to_small Q ho v of Some y \<Rightarrow> y = x
       | None \<Rightarrow> discriminant Q so \<noteq> discriminant Q sv \<and> x = ordering (discriminant Q so) (discriminant Q sv)"
    if x: "scval_compare Q (Suc d) so sv = Inr x"
  proof (cases "small_like Q ho v")
    case None
    then show ?thesis
      using types_decide [OF Q _ x] none by simp
  next
    case (Some ho')
    from some [OF this] obtain ho' y where y: "obj_in_range ho'" "obj_vals ho' = []" "host_object_to_scval X V (from_host_val X V s n) ho' = Inr sv"
        "try_compare_to_small Q ho v = Some y" "host_cases Q c ho ho' = Inr y"
      by blast
    then show ?thesis
      using obj_case [OF obj ho(2) y(1) _ y(3) x] by simp
  qed
  show "case try_compare_to_small Q ho v of Some y \<Rightarrow> flip y = x
       | None \<Rightarrow> discriminant Q sv \<noteq> discriminant Q so \<and> x = ordering (discriminant Q sv) (discriminant Q so)"
    if x: "scval_compare Q (Suc d) sv so = Inr x"
  proof (cases "small_like Q ho v")
    case None
    then show ?thesis
      using types_decide [OF Q _ x] none by simp
  next
    case (Some ho')
    from some [OF this] obtain ho' y where y: "obj_in_range ho'" "obj_vals ho' = []" "host_object_to_scval X V (from_host_val X V s n) ho' = Inr sv"
        "try_compare_to_small Q ho v = Some y" "host_cases Q c ho' ho = Inr (flip y)"
      by blast
    then show ?thesis
      using obj_case [OF y(1) _ y(3) obj ho(2) x] by simp
  qed
qed

definition answer :: "Ordering \<Rightarrow> int" where
  "answer x = (case x of Less \<Rightarrow> - 1 | Equal \<Rightarrow> 0 | Greater \<Rightarrow> 1)"

lemma answered:
  assumes "order_laws X V Q" and "is_obj a \<or> is_obj b" and "obj_cmp Q s (host_compare Q s d) a b = Inr (answer x)"
  shows "val_compare Q s d a b = Inr x"
  unfolding val_compare_def using assms(3) by (subst small_laws(5) [OF assms(1,2)]) (simp add: answer_def)

lemma object_object:
  assumes laws: "order_laws X V Q" and s: "sound_objects s" and IH: "agrees X V Q s m d (val_compare Q s d)"
    and a: "sound_val s (ObjVal ta ha)" "from_host_val X V s (Suc m) (ObjVal ta ha) = Inr sa"
    and b: "sound_val s (ObjVal tb hb)" "from_host_val X V s (Suc m) (ObjVal tb hb) = Inr sb"
    and x: "scval_compare Q (Suc d) sa sb = Inr x"
  shows "val_compare Q s (Suc d) (ObjVal ta ha) (ObjVal tb hb) = Inr x"
proof -
  obtain oa where oa: "oa \<in> set (objects s)" "\<And>g. visit_obj_untyped ha g s = (g oa :: host_error + Ordering option)"
      "host_object_to_scval X V (from_host_val X V s m) oa = Inr sa"
    by (rule converted_object [OF a(2,1)]) blast
  obtain ob where ob: "ob \<in> set (objects s)" "\<And>g. visit_obj_untyped hb g s = (g ob :: host_error + Ordering option)"
      "host_object_to_scval X V (from_host_val X V s m) ob = Inr sb"
    by (rule converted_object [OF b(2,1)]) blast
  have vals: "obj_in_range oa" "set (obj_vals oa) \<subseteq> {v. sound_val s v}" "obj_in_range ob" "set (obj_vals ob) \<subseteq> {v. sound_val s v}"
    using s oa(1) ob(1) by (auto simp: sound_objects_def sound_val_def)
  from objects_agree [OF laws s IH vals(1,2) oa(3) vals(3,4) ob(3) x]
  show ?thesis
    by (intro answered [OF laws]) (simp_all add: obj_cmp_def oa(2) ob(2) val_compare_def answer_def)
qed

lemma object_small:
  assumes laws: "order_laws X V Q" and s: "sound_objects s" and IH: "agrees X V Q s m d (val_compare Q s d)"
    and a: "sound_val s (ObjVal ta ha)" "from_host_val X V s (Suc m) (ObjVal ta ha) = Inr sa"
    and b: "\<not> is_obj b" "small_from_val V b = Inr sb"
  shows "scval_compare Q (Suc d) sa sb = Inr x \<Longrightarrow> val_compare Q s (Suc d) (ObjVal ta ha) b = Inr x"
    and "scval_compare Q (Suc d) sb sa = Inr x \<Longrightarrow> val_compare Q s (Suc d) b (ObjVal ta ha) = Inr x"
proof -
  obtain oa where oa: "oa \<in> set (objects s)" "\<And>g. visit_obj_untyped ha g s = (g oa :: host_error + Ordering option)" "tag_of oa = ta"
      "host_object_to_scval X V (from_host_val X V s m) oa = Inr sa"
    by (rule converted_object [OF a(2,1)]) blast
  have types: "val_type Q (ObjVal ta ha) = discriminant Q sa" "val_type Q b = discriminant Q sb"
    using small_laws(4) [OF laws oa(4)] small_laws(3) [OF laws b] oa(3) by simp_all
  note agree = object_small_agree [OF laws s IH oa(1,4) b]
  show "val_compare Q s (Suc d) (ObjVal ta ha) b = Inr x" if "scval_compare Q (Suc d) sa sb = Inr x"
    using agree(1) [OF that] types b(1)
    by (intro answered [OF laws])
      (cases b; auto simp: obj_cmp_def oa(2) ord_cmp_def answer_def simp del: host_compare.simps split: option.splits)+
  show "val_compare Q s (Suc d) b (ObjVal ta ha) = Inr x" if "scval_compare Q (Suc d) sb sa = Inr x"
    using agree(2) [OF that] types b(1)
    by (intro answered [OF laws])
      (cases b; auto simp: obj_cmp_def oa(2) ord_cmp_def answer_def simp del: host_compare.simps split: option.splits)+
qed

lemma values_agree:
  assumes laws: "order_laws X V Q" and s: "sound_objects s"
  shows "agrees X V Q s n d (val_compare Q s d)"
proof (induction d arbitrary: n)
  case (Suc d)
  have "val_compare Q s (Suc d) a b = Inr x"
    if v: "sound_val s a" "sound_val s b" "from_host_val X V s n a = Inr sa" "from_host_val X V s n b = Inr sb"
      "scval_compare Q (Suc d) sa sb = Inr x" for a b sa sb x
  proof -
    obtain m where n: "n = Suc m"
      using v(3) by (cases n) auto
    note IH = Suc [of m]
    consider ta ha tb hb where "a = ObjVal ta ha" "b = ObjVal tb hb" | ta ha where "a = ObjVal ta ha" "\<not> is_obj b"
      | tb hb where "\<not> is_obj a" "b = ObjVal tb hb" | "\<not> is_obj a" "\<not> is_obj b"
      by (cases a; cases b) auto
    then show ?thesis
    proof cases
      case 1
      then show ?thesis
        using object_object [OF laws s IH] v n by blast
    next
      case 2
      then show ?thesis
        using object_small(1) [OF laws s IH] small_converts v n by blast
    next
      case 3
      then show ?thesis
        using object_small(2) [OF laws s IH] small_converts v n by blast
    next
      case 4
      then show ?thesis
        using small_laws(6) [OF laws, of a b sa sb] small_converts v n by (metis val_compare_def)
    qed
  qed
  then show ?case
    by (simp only: agrees_def) blast
qed (simp add: agrees_def)

section \<open>Laws at work\<close>

text \<open>The pieces of a wide integer: its quotients and remainders.\<close>

lemma then_assoc: "then_cmp r (then_cmp r' r'') = then_cmp (then_cmp r r') r''"
  by (auto simp: then_cmp_def try_sum_def split: sum.split)

lemma split_order_nat:
  assumes "0 < (k :: nat)"
  shows "then_cmp (ord_cmp (m div k) (n div k)) (ord_cmp (m mod k) (n mod k)) = ord_cmp m n"
proof -
  have "m < n" if "m div k < n div k"
    using that by (meson div_le_mono leD not_le_imp_less)
  moreover have "n < m" if "n div k < m div k"
    using that by (meson div_le_mono leD not_le_imp_less)
  moreover have "(m mod k < n mod k) = (m < n)" "(m mod k = n mod k) = (m = n)" if "m div k = n div k"
    using that by (metis add_less_cancel_left div_mult_mod_eq, metis div_mult_mod_eq)
  ultimately show ?thesis
    by (auto simp: then_cmp_def ord_cmp_def ordering_def)
qed

lemma split_order_int:
  assumes "0 < (k :: int)"
  shows "then_cmp (ord_cmp (m div k) (n div k)) (ord_cmp (m mod k) (n mod k)) = ord_cmp m n"
proof -
  have "m < n" if "m div k < n div k"
    using that assms by (meson zdiv_mono1 leD not_le_imp_less)
  moreover have "n < m" if "n div k < m div k"
    using that assms by (meson zdiv_mono1 leD not_le_imp_less)
  moreover have "(m mod k < n mod k) = (m < n)" "(m mod k = n mod k) = (m = n)" if "m div k = n div k"
    using that by (metis add_less_cancel_left div_mult_mod_eq, metis div_mult_mod_eq)
  ultimately show ?thesis
    by (auto simp: then_cmp_def ord_cmp_def ordering_def)
qed

lemma word_order_nat: "ord_cmp (word_of_nat a :: word64) (word_of_nat b) = ord_cmp (a mod 2 ^ 64) (b mod 2 ^ 64)"
  by (simp add: ord_cmp_def ordering_def word_less_nat_alt unat_of_nat word_unat_eq_iff)

lemma word_order_int: "ord_cmp (word_of_int i :: word64) (word_of_int j) = ord_cmp (i mod 2 ^ 64) (j mod 2 ^ 64)"
  by (simp add: ord_cmp_def ordering_def word_less_def uint_word_of_int word_uint_eq_iff)

lemma signed_order_int:
  assumes "- (2 ^ 63) \<le> i" "i < 2 ^ 63" "- (2 ^ 63) \<le> j" "j < 2 ^ 63"
  shows "signed_cmp (word_of_int i) (word_of_int j) = ord_cmp i j"
proof -
  have "sint (word_of_int x :: word64) = x" if "- (2 ^ 63) \<le> x" "x < 2 ^ 63" for x
    using that by (simp add: sint_sbintrunc' signed_take_bit_int_eq_self)
  then show ?thesis
    using assms by (simp add: signed_cmp_def)
qed

lemma plain_u128:
  assumes "m < 2 ^ 128" and "n < 2 ^ 128"
  shows "pair_cmp ord_cmp ord_cmp (word_of_nat (m div 2 ^ 64) :: word64, word_of_nat m :: word64)
      (word_of_nat (n div 2 ^ 64), word_of_nat n) = ord_cmp m n"
proof -
  have "x div 2 ^ 64 mod 2 ^ 64 = x div 2 ^ 64" if "x < 2 ^ 128" for x :: nat
    using that by (intro mod_less) (simp add: less_mult_imp_div_less)
  then show ?thesis
    unfolding pair_cmp_def fst_conv snd_conv word_order_nat using assms split_order_nat [of "2 ^ 64" m n] by simp
qed

lemma top_piece:
  assumes "- a * 2 ^ 64 \<le> x" and "x < a * 2 ^ 64"
  shows "- a \<le> x div 2 ^ 64 \<and> x div 2 ^ 64 < (a :: int)"
proof -
  define q r where "q = x div 2 ^ 64" and "r = x mod 2 ^ 64"
  then have "x = q * 2 ^ 64 + r" "0 \<le> r" "r < 2 ^ 64"
    by simp_all
  with assms have "- a \<le> q" "q < a"
    by simp_all
  then show ?thesis
    by (simp add: q_def)
qed

lemma plain_i128:
  assumes "- (2 ^ 127) \<le> i" and "i < 2 ^ 127" and "- (2 ^ 127) \<le> j" and "j < 2 ^ 127"
  shows "pair_cmp signed_cmp ord_cmp (word_of_int (i div 2 ^ 64), word_of_int i :: word64)
      (word_of_int (j div 2 ^ 64), word_of_int j) = ord_cmp i j"
proof -
  have "- (2 ^ 63) \<le> x div 2 ^ 64 \<and> x div 2 ^ 64 < 2 ^ 63" if "- (2 ^ 127) \<le> x" "x < 2 ^ 127" for x :: int
    using that by (intro top_piece) simp_all
  then have "signed_cmp (word_of_int (i div 2 ^ 64)) (word_of_int (j div 2 ^ 64)) = ord_cmp (i div 2 ^ 64) (j div 2 ^ 64)"
    using assms by (intro signed_order_int) blast+
  then show ?thesis
    unfolding pair_cmp_def fst_conv snd_conv word_order_int using split_order_int [of "2 ^ 64" i j] by simp
qed

lemma plain_u256:
  assumes "m < 2 ^ 256" and "n < 2 ^ 256"
  shows "pair_cmp ord_cmp (pair_cmp ord_cmp (pair_cmp ord_cmp ord_cmp))
      (word_of_nat (m div 2 ^ 64 div 2 ^ 64 div 2 ^ 64) :: word64, word_of_nat (m div 2 ^ 64 div 2 ^ 64) :: word64,
       word_of_nat (m div 2 ^ 64) :: word64, word_of_nat m :: word64)
      (word_of_nat (n div 2 ^ 64 div 2 ^ 64 div 2 ^ 64), word_of_nat (n div 2 ^ 64 div 2 ^ 64), word_of_nat (n div 2 ^ 64), word_of_nat n)
    = ord_cmp m n"
proof -
  have top: "x div 2 ^ 64 div 2 ^ 64 div 2 ^ 64 mod 2 ^ 64 = x div 2 ^ 64 div 2 ^ 64 div 2 ^ 64" if "x < 2 ^ 256" for x :: nat
    using that by (intro mod_less) (simp add: less_mult_imp_div_less)
  have k: "0 < (2 ^ 64 :: nat)"
    by simp
  show ?thesis
    unfolding pair_cmp_def fst_conv snd_conv word_order_nat top [OF assms(1)] top [OF assms(2)] then_assoc split_order_nat [OF k] ..
qed

lemma plain_i256:
  assumes "- (2 ^ 255) \<le> i" and "i < 2 ^ 255" and "- (2 ^ 255) \<le> j" and "j < 2 ^ 255"
  shows "pair_cmp signed_cmp (pair_cmp ord_cmp (pair_cmp ord_cmp ord_cmp))
      (word_of_int (i div 2 ^ 64 div 2 ^ 64 div 2 ^ 64), word_of_int (i div 2 ^ 64 div 2 ^ 64) :: word64,
       word_of_int (i div 2 ^ 64) :: word64, word_of_int i :: word64)
      (word_of_int (j div 2 ^ 64 div 2 ^ 64 div 2 ^ 64), word_of_int (j div 2 ^ 64 div 2 ^ 64), word_of_int (j div 2 ^ 64), word_of_int j)
    = ord_cmp i j"
proof -
  have "- (2 ^ 63) \<le> x div 2 ^ 64 div 2 ^ 64 div 2 ^ 64 \<and> x div 2 ^ 64 div 2 ^ 64 div 2 ^ 64 < 2 ^ 63"
    if x: "- (2 ^ 255) \<le> x" "x < 2 ^ 255" for x :: int
  proof -
    have a: "- (2 ^ 191) \<le> x div 2 ^ 64 \<and> x div 2 ^ 64 < 2 ^ 191"
      using x by (intro top_piece) simp_all
    have "- (2 ^ 127) \<le> x div 2 ^ 64 div 2 ^ 64 \<and> x div 2 ^ 64 div 2 ^ 64 < 2 ^ 127"
      using a by (intro top_piece) simp_all
    then show ?thesis
      by (intro top_piece) simp_all
  qed
  then have top: "signed_cmp (word_of_int (i div 2 ^ 64 div 2 ^ 64 div 2 ^ 64)) (word_of_int (j div 2 ^ 64 div 2 ^ 64 div 2 ^ 64))
      = ord_cmp (i div 2 ^ 64 div 2 ^ 64 div 2 ^ 64) (j div 2 ^ 64 div 2 ^ 64 div 2 ^ 64)"
    using assms by (intro signed_order_int) blast+
  have k: "0 < (2 ^ 64 :: int)"
    by simp
  show ?thesis
    unfolding pair_cmp_def fst_conv snd_conv word_order_int top then_assoc split_order_int [OF k] ..
qed

text \<open>An instance of the parameters: \<open>OtherSmall n\<close> is the small unsigned number \<open>n\<close>.\<close>

fun sample_from_val :: "Val \<Rightarrow> host_error + ScVal" where
  "sample_from_val (SymbolSmall b) = Inr (ScSymbol b)"
| "sample_from_val (OtherSmall n) = Inr (ScU64 n)"
| "sample_from_val v = plain_from_val v"

definition sample_conversion :: conversion where
  "sample_conversion = plain_conversion\<lparr>small_from_val := sample_from_val\<rparr>"

fun tag_type :: "Tag \<Rightarrow> nat" where
  "tag_type U64Object = 5" | "tag_type I64Object = 6" | "tag_type TimepointObject = 7" | "tag_type DurationObject = 8"
| "tag_type U128Object = 9" | "tag_type I128Object = 10" | "tag_type U256Object = 11" | "tag_type I256Object = 12"
| "tag_type BytesObject = 13" | "tag_type StringObject = 14" | "tag_type SymbolObject = 15" | "tag_type VecObject = 16"
| "tag_type MapObject = 17" | "tag_type AddressObject = 18"

fun sample_val_type :: "Val \<Rightarrow> nat" where
  "sample_val_type (ObjVal tag _) = tag_type tag"
| "sample_val_type (BoolVal _) = 0"
| "sample_val_type VoidVal = 1"
| "sample_val_type (U32Val _) = 3"
| "sample_val_type (OtherSmall _) = 5"
| "sample_val_type (SymbolSmall _) = 15"

fun sample_small_cmp :: "Val cmp" where
  "sample_small_cmp (BoolVal a) (BoolVal b) = ord_cmp a b"
| "sample_small_cmp VoidVal VoidVal = Inr Equal"
| "sample_small_cmp (U32Val a) (U32Val b) = ord_cmp a b"
| "sample_small_cmp (OtherSmall a) (OtherSmall b) = ord_cmp a b"
| "sample_small_cmp (SymbolSmall a) (SymbolSmall b) = bytes_cmp a b"
| "sample_small_cmp a b = ord_cmp (sample_val_type a) (sample_val_type b)"

definition sample_order :: value_order where
  "sample_order = \<lparr>cmp_scvals = lex_cmp, cmp_sc_entries = lex_cmp, cmp_instances = (\<lambda>c m. pair_cmp c (option_cmp m)),
     cmp_vals = lex_cmp, cmp_val_pairs = (\<lambda>c. lex_cmp (pair_cmp c c)),
     env_cmp = (\<lambda>f a b. if is_obj a \<or> is_obj b then try_sum (f a b) (\<lambda>i. Inr (ordering i 0)) else sample_small_cmp a b),
     discriminant = scval_type, val_type = sample_val_type, small_u64 = (\<lambda>v. case v of OtherSmall n \<Rightarrow> Some n | _ \<Rightarrow> None),
     small_i64 = (\<lambda>_. None), small_timepoint = (\<lambda>_. None), small_duration = (\<lambda>_. None), small_u128 = (\<lambda>_. None),
     small_i128 = (\<lambda>_. None), small_u256 = (\<lambda>_. None), small_i256 = (\<lambda>_. None)\<rparr>"

lemma sample_lexicographic: "lexicographic sample_order"
  by (simp add: lexicographic_def sample_order_def)

lemma sample_pieces: "pieces_ordered sample_conversion"
  unfolding pieces_ordered_def sample_conversion_def plain_conversion_def conversion.simps
  using plain_u128 plain_i128 plain_u256 plain_i256 by blast

lemma sample_small: "small_ok X sample_conversion sample_order"
proof -
  have from_val: "small_from_val sample_conversion = sample_from_val"
    by (simp add: sample_conversion_def)
  have like: "small_like sample_order ho v = (case (ho, v) of (HU64 _, OtherSmall n) \<Rightarrow> Some (HU64 n) | (HSymbol _, SymbolSmall b) \<Rightarrow> Some (HSymbol b) | _ \<Rightarrow> None)" for ho v
    by (cases ho; cases v) (simp_all add: sample_order_def)
  show ?thesis
    unfolding small_ok_def from_val like
  proof (intro conjI allI impI)
    fix ho v ho' f
    assume "(case (ho, v) of (HU64 _, OtherSmall n) \<Rightarrow> Some (HU64 n) | (HSymbol _, SymbolSmall b) \<Rightarrow> Some (HSymbol b) | _ \<Rightarrow> None) = Some ho'"
    then show "obj_in_range ho'" "sample_from_val v = host_object_to_scval X sample_conversion f ho'"
      by (auto split: HostObject.splits Val.splits)
  next
    fix ho v sv so f
    assume "\<not> is_obj v" and "(case (ho, v) of (HU64 _, OtherSmall n) \<Rightarrow> Some (HU64 n) | (HSymbol _, SymbolSmall b) \<Rightarrow> Some (HSymbol b) | _ \<Rightarrow> None) = None"
      and "sample_from_val v = Inr sv" and so: "host_object_to_scval X sample_conversion f ho = Inr so"
    then show "scval_type so \<noteq> scval_type sv"
      unfolding converted_type [OF so] by (cases v; cases ho) auto
  next
    fix v sv
    assume "\<not> is_obj v" "sample_from_val v = Inr sv"
    then show "val_type sample_order v = discriminant sample_order sv"
      by (cases v) (auto simp: sample_order_def)
  next
    fix ho h so f
    assume so: "host_object_to_scval X sample_conversion f ho = Inr so"
    then show "val_type sample_order (ObjVal (tag_of ho) h) = discriminant sample_order so"
      using converted_type [OF so] by (cases ho) (simp_all add: sample_order_def)
  next
    fix f a b
    assume "is_obj a \<or> is_obj b"
    then show "env_cmp sample_order f a b = try_sum (f a b) (\<lambda>i. Inr (ordering i 0))"
      by (simp add: sample_order_def)
  next
    fix f a b sa sb d
    assume "\<not> is_obj a" "\<not> is_obj b" "sample_from_val a = Inr sa" "sample_from_val b = Inr sb"
    then show "env_cmp sample_order f a b = scval_compare sample_order (Suc d) sa sb"
      by (cases a; cases b) (auto simp: sample_order_def no_content_def scval_content_cmp_def)
  qed
qed

lemma sample_laws: "order_laws X sample_conversion sample_order"
  using sample_lexicographic sample_pieces sample_small by (simp add: order_laws_def)

section \<open>Properties\<close>

text \<open>XDR values are totally ordered.  On values whose vectors and maps are present and nested at most as deep as the
  limit, the comparison always answers; it says equal exactly for equal values, gives the
  opposite answer when the two are exchanged, and is transitive.\<close>

lemma scval_order_total:
  assumes "lexicographic Q" and "nested d a" and "nested d b" and "nested d e"
  shows "(\<exists>x. scval_compare Q d a b = Inr x \<and> scval_compare Q d b a = Inr (flip x) \<and> (x = Equal \<longleftrightarrow> a = b))
    \<and> (scval_compare Q d a b = Inr Less \<longrightarrow> scval_compare Q d b e = Inr Less \<longrightarrow> scval_compare Q d a e = Inr Less)"
  using cmp_order_total [OF scval_order [OF assms(1)], of a d b] cmp_order_trans [OF scval_order [OF assms(1)], of a d b e] assms(2-4)
  by simp

lemma scval_order_total_witness:
  "\<exists>x. scval_compare sample_order 2 (ScVec (Some [ScU32 1, ScI128 (- 1) 5])) (ScVec (Some [ScU32 1, ScSymbol [97]])) = Inr x \<and> x \<noteq> Equal"
proof -
  have "nested 2 (ScVec (Some [ScU32 1, ScI128 (- 1) 5]))" "nested 2 (ScVec (Some [ScU32 1, ScSymbol [97]]))"
    by (simp_all add: numeral_2_eq_2)
  from scval_order_total [OF sample_lexicographic this this(1)] show ?thesis
    by auto
qed

text \<open>C23: host values order like the XDR values they convert to.  On a host whose references lead to objects of their
  type: if two host values convert to XDR values within the depth limit of the comparison, then
  the host's comparison of the two, with its recursion through objects and its mixed cases of small values and
  objects, always answers, and gives exactly the answer of the XDR values; so a vector or map sorted in the host is sorted
  when it leaves.\<close>

theorem host_order_agrees:
  assumes "order_laws X V Q" and "sound_objects s" and "sound_val s a" and "sound_val s b"
    and "from_host_val X V s n a = Inr sa" and "from_host_val X V s n b = Inr sb" and "nested d sa" and "nested d sb"
  shows "val_compare Q s d a b = scval_compare Q d sa sb \<and> (\<exists>x. scval_compare Q d sa sb = Inr x)"
proof -
  have "lexicographic Q"
    using assms(1) by (simp add: order_laws_def)
  then obtain x where "scval_compare Q d sa sb = Inr x"
    using cmp_order_total [OF scval_order, of Q sa d sb] assms(7,8) by auto
  with values_agree [OF assms(1,2), of n d] assms(3-6) show ?thesis
    by (auto simp: agrees_def)
qed

definition sample_objects :: obj_host where
  "sample_objects = \<lparr>objects = [HU64 9, HVec [OtherSmall 7, U32Val 1], HVec [ObjVal U64Object 1, U32Val 0]], cur_frame = None\<rparr>"

theorem host_order_agrees_witness:
  "val_compare sample_order sample_objects 2 (ObjVal VecObject 3) (ObjVal VecObject 5) = Inr Less"
proof -
  have h: "\<not> is_relative_object_handle 1" "\<not> is_relative_object_handle 3" "\<not> is_relative_object_handle 5"
      "handle_to_index 1 = 0" "handle_to_index 3 = 1" "handle_to_index 5 = 2"
    by (simp_all add: is_relative_object_handle_def handle_to_index_def)
  have refs: "sound_objects sample_objects" "sound_val sample_objects (ObjVal VecObject 3)" "sound_val sample_objects (ObjVal VecObject 5)"
    using h by (auto simp: sound_objects_def sound_val_def ref_ok_def sample_objects_def)
  have conv: "from_host_val plain_common sample_conversion sample_objects 2 (ObjVal VecObject 3) = Inr (ScVec (Some [ScU64 7, ScU32 1]))"
      "from_host_val plain_common sample_conversion sample_objects 2 (ObjVal VecObject 5) = Inr (ScVec (Some [ScU64 9, ScU32 0]))"
    using h
    by (simp_all add: numeral_2_eq_2 from_host_obj_def visit_obj_untyped_def sample_objects_def sample_conversion_def plain_conversion_def
        check_val_representable_scval_def U32_MAX_def)
  have nest: "nested 2 (ScVec (Some [ScU64 7, ScU32 1]))" "nested 2 (ScVec (Some [ScU64 9, ScU32 0]))"
    by (simp_all add: numeral_2_eq_2)
  have "scval_compare sample_order 2 (ScVec (Some [ScU64 7, ScU32 1])) (ScVec (Some [ScU64 9, ScU32 0])) = Inr Less"
    by (simp add: numeral_2_eq_2 no_content_def scval_content_cmp_def sample_order_def ord_cmp_def ordering_def)
  with host_order_agrees [OF sample_laws refs conv nest] show ?thesis
    by simp
qed

end
