(* ===== verification/Call_Frames.thy ===== *)
theory Call_Frames
  imports Value_Conversion Host_Storage
begin

text \<open>
  Frames as units of transactions, \<open>src/soroban-env-host-patch/src/host/frame.rs\<close>, with the events
  buffer of \<open>events/internal.rs\<close> and the diagnostics of \<open>events/diagnostic.rs\<close>.  A frame remembers the
  storage map and the length of the events buffer; when its contract fails, the map is restored and
  the events since then are marked.  Contracts call each other with \<open>call\<close>, where an error of the
  callee is an error of the caller, or with \<open>try_call\<close>, which turns a recoverable error into a value.

  The roll back of authorizations is in \<open>Auth_Manager\<close>.  The context stack keeps the contract of
  each frame, innermost first.  Hooks for tracing and tests are left out.
\<close>

section \<open>Events\<close>

datatype ContractEventType = SystemEvent | ContractEvent | DiagnosticEvent

record InternalContractEvent =
  ice_type :: ContractEventType
  ice_contract_id :: "u32 option"
  ice_topics :: u32
  ice_data :: Val

datatype InternalDiagnosticArg = HostVal Val | XdrVal ScVal

record InternalDiagnosticEvent =
  ide_contract_id :: "bytes option"
  ide_topics :: "InternalDiagnosticArg list"
  ide_args :: "InternalDiagnosticArg list"

datatype InternalEvent = IE_Contract InternalContractEvent | IE_Diagnostic InternalDiagnosticEvent

datatype EventError = FromFailedCall | FromSuccessfulCall

type_synonym InternalEventsBuffer = "(InternalEvent \<times> EventError) list"

datatype xdr_contract_event =
  XdrContractEvent (xce_contract_id: "bytes option") (xce_type: ContractEventType) (xce_topics: "ScVal list") (xce_data: ScVal)

datatype HostEvent = HostEvent (he_event: xdr_contract_event) (failed_call: bool)

definition contract_event_to_xdr ::
  "common \<Rightarrow> conversion \<Rightarrow> nat \<Rightarrow> obj_host \<Rightarrow> InternalContractEvent \<Rightarrow> host_error + xdr_contract_event" where
  "contract_event_to_xdr X V depth s e =
     try_sum (vecobject_to_scval_vec X V depth (ice_topics e) s) (\<lambda>topics.
     try_sum (from_host_val X V s depth (ice_data e)) (\<lambda>data.
     try_sum (case ice_contract_id e of
        Some cid \<Rightarrow> try_sum (hash_from_bytesobj_input cid s) (\<lambda>h. Inr (Some h))
      | None \<Rightarrow> Inr None) (\<lambda>contract_id.
     Inr (XdrContractEvent contract_id (ice_type e) topics data))))"

definition externalize_args ::
  "common \<Rightarrow> conversion \<Rightarrow> nat \<Rightarrow> obj_host \<Rightarrow> bool \<Rightarrow> InternalDiagnosticArg list \<Rightarrow> host_error + ScVal list" where
  "externalize_args X V depth s in_shadow_mode args =
     (if \<not> in_shadow_mode then Inl (HostErr SCE_Events InternalError)
      else collect (\<lambda>arg. case arg of HostVal h \<Rightarrow> from_host_val X V s depth h | XdrVal v \<Rightarrow> Inr v) args)"

definition diagnostic_event_to_xdr ::
  "common \<Rightarrow> conversion \<Rightarrow> nat \<Rightarrow> obj_host \<Rightarrow> bool \<Rightarrow> InternalDiagnosticEvent \<Rightarrow> host_error + xdr_contract_event" where
  "diagnostic_event_to_xdr X V depth s in_shadow_mode e =
     (if \<not> in_shadow_mode then Inl (HostErr SCE_Events InternalError)
      else
        try_sum (externalize_args X V depth s in_shadow_mode (ide_topics e)) (\<lambda>topics.
        if length topics > U32_MAX then Inl (xdr_error X)
        else
          try_sum (externalize_args X V depth s in_shadow_mode (ide_args e)) (\<lambda>args.
          try_sum (if length args > 1
                   then (if length args > U32_MAX then Inl (xdr_error X) else Inr (ScVec (Some args)))
                   else case args of arg # _ \<Rightarrow> Inr arg | [] \<Rightarrow> Inr ScVoid) (\<lambda>data.
          Inr (XdrContractEvent (ide_contract_id e) DiagnosticEvent topics data)))))"

text \<open>\<open>with_debug_mode\<close> runs its argument in shadow mode when diagnostics are on, and drops its error.\<close>

definition with_debug_mode :: "bool \<Rightarrow> (bool \<Rightarrow> 'a \<Rightarrow> host_error + 'a) \<Rightarrow> 'a \<Rightarrow> 'a" where
  "with_debug_mode debug f x = (if debug then (case f True x of Inl _ \<Rightarrow> x | Inr y \<Rightarrow> y) else x)"

definition buffer_record :: "bool \<Rightarrow> InternalEvent \<Rightarrow> InternalEventsBuffer \<Rightarrow> InternalEventsBuffer" where
  "buffer_record debug e vec =
     (case e of
        IE_Contract _ \<Rightarrow> vec @ [(e, FromSuccessfulCall)]
      | IE_Diagnostic _ \<Rightarrow> with_debug_mode debug (\<lambda>_ v. Inr (v @ [(e, FromSuccessfulCall)])) vec)"

definition buffer_rollback :: "nat \<Rightarrow> InternalEventsBuffer \<Rightarrow> InternalEventsBuffer" where
  "buffer_rollback events vec = take events vec @ map (\<lambda>(e, _). (e, FromFailedCall)) (drop events vec)"

fun externalize_from ::
  "common \<Rightarrow> conversion \<Rightarrow> nat \<Rightarrow> obj_host \<Rightarrow> bool \<Rightarrow> InternalEventsBuffer \<Rightarrow> HostEvent list \<Rightarrow> host_error + HostEvent list" where
  "externalize_from X V depth s debug [] vec = Inr vec"
| "externalize_from X V depth s debug ((IE_Contract c, status) # rest) vec =
     try_sum (contract_event_to_xdr X V depth s c) (\<lambda>ev.
     externalize_from X V depth s debug rest (vec @ [HostEvent ev (status = FromFailedCall)]))"
| "externalize_from X V depth s debug ((IE_Diagnostic d, status) # rest) vec =
     externalize_from X V depth s debug rest
       (with_debug_mode debug (\<lambda>shadow v.
          try_sum (diagnostic_event_to_xdr X V depth s shadow d) (\<lambda>ev.
          Inr (v @ [HostEvent ev (status = FromFailedCall)]))) vec)"

definition externalize ::
  "common \<Rightarrow> conversion \<Rightarrow> nat \<Rightarrow> obj_host \<Rightarrow> bool \<Rightarrow> InternalEventsBuffer \<Rightarrow> host_error + HostEvent list" where
  "externalize X V depth s debug vec = externalize_from X V depth s debug vec []"

definition observable :: "HostEvent \<Rightarrow> bool" where
  "observable e \<longleftrightarrow> \<not> failed_call e \<and> xce_type (he_event e) \<noteq> DiagnosticEvent"

definition encode_contract_events :: "(xdr_contract_event \<Rightarrow> host_error + bytes) \<Rightarrow> HostEvent list \<Rightarrow> host_error + bytes list" where
  "encode_contract_events write_event events = collect (\<lambda>e. write_event (he_event e)) (filter observable events)"

section \<open>Frames\<close>

text \<open>What a contract returns: a value, or a value of type \<open>Error\<close>.\<close>

datatype frame_value = RetVal Val | RetError host_error

record ('k, 'e) tx_host =
  tx_storage :: "('k, 'e) Storage"
  tx_events :: InternalEventsBuffer
  context_stack :: "bytes option list"
  tx_debug :: bool

type_synonym ('k, 'e, 'a) tx_op = "('k, 'e) tx_host \<Rightarrow> (host_error + 'a) \<times> ('k, 'e) tx_host"

record ('k, 'e) RollbackPoint =
  rp_storage :: "('k, 'e) StorageMap"
  rp_events :: nat

definition FRAME_DEPTH_LIMIT :: u32 where
  "FRAME_DEPTH_LIMIT = 100"

definition tx_push_context :: "bytes option \<Rightarrow> ('k, 'e) tx_host \<Rightarrow> ('k, 'e) RollbackPoint \<times> ('k, 'e) tx_host" where
  "tx_push_context ctx h =
     (\<lparr>rp_storage = smap (tx_storage h), rp_events = length (tx_events h)\<rparr>, h\<lparr>context_stack := ctx # context_stack h\<rparr>)"

definition tx_pop_context :: "('k, 'e) RollbackPoint option \<Rightarrow> ('k, 'e, unit) tx_op" where
  "tx_pop_context orp h =
     (let popped = h\<lparr>context_stack := tl (context_stack h)\<rparr>;
          rolled = (case orp of
             Some rp \<Rightarrow> popped\<lparr>tx_storage := (tx_storage popped)\<lparr>smap := rp_storage rp\<rparr>,
                               tx_events := buffer_rollback (rp_events rp) (tx_events popped)\<rparr>
           | None \<Rightarrow> popped)
      in (if context_stack h = [] then Inl (HostErr SCE_Context InternalError) else Inr (), rolled))"

definition frame_exit :: "host_error + frame_value \<Rightarrow> host_error + frame_value" where
  "frame_exit res =
     (case res of
        Inr (RetError err) \<Rightarrow>
          (case err of ContractErr _ \<Rightarrow> Inl err | _ \<Rightarrow> Inl (HostErr SCE_Context InvalidAction))
      | _ \<Rightarrow> res)"

text \<open>\<open>persist\<close> stands for \<open>persist_instance_storage\<close>, which writes a changed instance to the storage.\<close>

definition with_frame ::
  "('k, 'e, unit) tx_op \<Rightarrow> bytes option \<Rightarrow> ('k, 'e, frame_value) tx_op \<Rightarrow> ('k, 'e, frame_value) tx_op" where
  "with_frame persist frame f h =
     (let start_depth = length (context_stack h) in
      if start_depth \<ge> FRAME_DEPTH_LIMIT then (Inl (HostErr SCE_Context ExceededLimit), h)
      else
        case tx_push_context frame h of (rp, h1) \<Rightarrow>
        case f h1 of (r, h2) \<Rightarrow>
        case (case frame_exit r of
                Inl e \<Rightarrow> (Inl e, h2)
              | Inr v \<Rightarrow> (case persist h2 of (Inl e, h3) \<Rightarrow> (Inl e, h3) | (Inr _, h3) \<Rightarrow> (Inr v, h3))) of (res, h3) \<Rightarrow>
        case tx_pop_context (case res of Inl _ \<Rightarrow> Some rp | Inr _ \<Rightarrow> None) h3 of
          (Inl e, h4) \<Rightarrow> (Inl e, h4)
        | (Inr _, h4) \<Rightarrow>
            if start_depth \<noteq> length (context_stack h4) then (Inl (HostErr SCE_Context InternalError), h4) else (res, h4))"

section \<open>Calls\<close>

datatype ContractReentryMode = Prohibited | SelfAllowed | ReentryAllowed

text \<open>The distance of the callee from the top of the stack, over the frames that run a contract.\<close>

fun reentry_distance :: "bytes \<Rightarrow> bytes option list \<Rightarrow> nat option" where
  "reentry_distance cid [] = None"
| "reentry_distance cid (None # rest) = reentry_distance cid rest"
| "reentry_distance cid (Some caller # rest) =
     (if caller = cid then Some 0 else map_option Suc (reentry_distance cid rest))"

definition reentry_ok :: "ContractReentryMode \<Rightarrow> bytes \<Rightarrow> bytes option list \<Rightarrow> bool" where
  "reentry_ok mode cid stack =
     (case (mode, reentry_distance cid stack) of
        (_, None) \<Rightarrow> True
      | (ReentryAllowed, _) \<Rightarrow> True
      | (SelfAllowed, Some d) \<Rightarrow> d = 0
      | (Prohibited, Some _) \<Rightarrow> False)"

definition current_contract :: "('k, 'e) tx_host \<Rightarrow> bytes option" where
  "current_contract h = (case context_stack h of [] \<Rightarrow> None | f # _ \<Rightarrow> f)"

definition record_diagnostic_event ::
  "bytes option \<Rightarrow> InternalDiagnosticArg list \<Rightarrow> InternalDiagnosticArg list \<Rightarrow> ('k, 'e) tx_host \<Rightarrow> ('k, 'e) tx_host" where
  "record_diagnostic_event cid topics args h =
     h\<lparr>tx_events := with_debug_mode (tx_debug h) (\<lambda>_ vec.
         Inr (buffer_record (tx_debug h)
           (IE_Diagnostic \<lparr>ide_contract_id = cid, ide_topics = topics, ide_args = args\<rparr>) vec)) (tx_events h)\<rparr>"

text \<open>The symbols \<open>fn_call\<close> and \<open>fn_return\<close> as bytes.  In these diagnostics a function's name stands for its
  symbol, also when it is longer than the nine characters of a small one.\<close>

definition fn_call_sym :: Val where
  "fn_call_sym = SymbolSmall [102, 110, 95, 99, 97, 108, 108]"

definition fn_return_sym :: Val where
  "fn_return_sym = SymbolSmall [102, 110, 95, 114, 101, 116, 117, 114, 110]"

definition fn_call_diagnostics :: "bytes \<Rightarrow> bytes \<Rightarrow> Val list \<Rightarrow> ('k, 'e) tx_host \<Rightarrow> ('k, 'e) tx_host" where
  "fn_call_diagnostics cid func args h =
     record_diagnostic_event (current_contract h)
       [HostVal fn_call_sym, XdrVal (ScBytes cid), HostVal (SymbolSmall func)] (map HostVal args) h"

definition fn_return_diagnostics :: "bytes \<Rightarrow> bytes \<Rightarrow> frame_value \<Rightarrow> ('k, 'e) tx_host \<Rightarrow> ('k, 'e) tx_host" where
  "fn_return_diagnostics cid func res h =
     (case res of
        RetVal v \<Rightarrow> record_diagnostic_event (Some cid) [HostVal fn_return_sym, HostVal (SymbolSmall func)] [HostVal v] h
      | RetError _ \<Rightarrow> h)"

text \<open>\<open>call_contract_fn\<close> reads the instance and the code (\<open>load\<close>) and runs the contract in a frame.\<close>

definition call_contract_fn ::
  "('k, 'e, unit) tx_op \<Rightarrow> ('k, 'e, unit) tx_op \<Rightarrow> bytes \<Rightarrow> ('k, 'e, frame_value) tx_op \<Rightarrow> ('k, 'e, frame_value) tx_op" where
  "call_contract_fn load persist cid body h =
     (case load h of (Inl e, h1) \<Rightarrow> (Inl e, h1) | (Inr _, h1) \<Rightarrow> with_frame persist (Some cid) body h1)"

definition RESERVED_CONTRACT_FN_PREFIX :: bytes where
  "RESERVED_CONTRACT_FN_PREFIX = [95, 95]"

definition call_n_internal ::
  "('k, 'e, unit) tx_op \<Rightarrow> ('k, 'e, unit) tx_op \<Rightarrow> bytes \<Rightarrow> bytes \<Rightarrow> Val list \<Rightarrow> ContractReentryMode \<Rightarrow> bool \<Rightarrow>
   ('k, 'e, frame_value) tx_op \<Rightarrow> ('k, 'e, frame_value) tx_op" where
  "call_n_internal load persist cid func args reentry_mode internal_host_call body h =
     (if \<not> internal_host_call \<and> take 2 func = RESERVED_CONTRACT_FN_PREFIX then (Inl (HostErr SCE_Context InvalidAction), h)
      else if \<not> reentry_ok reentry_mode cid (context_stack h) then (Inl (HostErr SCE_Context InvalidAction), h)
      else
        case call_contract_fn load persist cid body (fn_call_diagnostics cid func args h) of
          (Inl e, h1) \<Rightarrow> (Inl e, h1)
        | (Inr v, h1) \<Rightarrow> (Inr v, fn_return_diagnostics cid func v h1))"

fun is_recoverable :: "host_error \<Rightarrow> bool" where
  "is_recoverable (ContractErr _) = True"
| "is_recoverable (HostErr t c) \<longleftrightarrow> c \<noteq> InternalError \<and> \<not> (c = ExceededLimit \<and> (t = SCE_Storage \<or> t = SCE_Budget))"

definition try_call_result :: "host_error + frame_value \<Rightarrow> host_error + frame_value" where
  "try_call_result res =
     (case res of
        Inr rv \<Rightarrow> Inr rv
      | Inl e \<Rightarrow>
          if is_recoverable e
          then (case e of ContractErr _ \<Rightarrow> Inr (RetError e) | _ \<Rightarrow> Inr (RetError (HostErr SCE_Context InvalidAction)))
          else Inl e)"

definition contract_call ::
  "('k, 'e, unit) tx_op \<Rightarrow> ('k, 'e, unit) tx_op \<Rightarrow> bytes \<Rightarrow> bytes \<Rightarrow> Val list \<Rightarrow>
   ('k, 'e, frame_value) tx_op \<Rightarrow> ('k, 'e, frame_value) tx_op" where
  "contract_call load persist cid func args body = call_n_internal load persist cid func args Prohibited False body"

definition try_call ::
  "('k, 'e, unit) tx_op \<Rightarrow> ('k, 'e, unit) tx_op \<Rightarrow> bytes \<Rightarrow> bytes \<Rightarrow> Val list \<Rightarrow>
   ('k, 'e, frame_value) tx_op \<Rightarrow> ('k, 'e, frame_value) tx_op" where
  "try_call load persist cid func args body h =
     (case call_n_internal load persist cid func args Prohibited False body h of (res, h1) \<Rightarrow> (try_call_result res, h1))"

section \<open>Runs\<close>

text \<open>What a host does during a transaction: storage calls, events, and calls of contracts with all
  they do.  For a call the tree records how the load of the contract, the contract itself and the
  write of its instance ended; the tree ranges over everything that contracts can do.\<close>

record ('k, 'e) call_info =
  ci_id :: bytes
  ci_func :: bytes
  ci_args :: "Val list"
  ci_mode :: ContractReentryMode
  ci_internal :: bool
  ci_load :: "('k, 'e) storage_call list"
  ci_loaded :: "host_error + unit"
  ci_result :: "host_error + frame_value"
  ci_persist :: "('k, 'e) storage_call list"
  ci_persisted :: "host_error + unit"

datatype ('k, 'e) act =
  DoStore "('k, 'e) storage_call" | DoEmit InternalContractEvent | DoDebug InternalDiagnosticEvent
  | DoCall "('k, 'e) call_info" "('k, 'e) act list"

definition storage_phase ::
  "('k::linorder, 'e) xdr_types \<Rightarrow> ledger_info \<Rightarrow> ('k, 'e) storage_call list \<Rightarrow> host_error + unit \<Rightarrow> ('k, 'e, unit) tx_op" where
  "storage_phase T li cs res h = (res, h\<lparr>tx_storage := snd (run_calls T li cs (tx_storage h))\<rparr>)"

fun run_act :: "('k::linorder, 'e) xdr_types \<Rightarrow> ledger_info \<Rightarrow> ('k, 'e) act \<Rightarrow> ('k, 'e) tx_host \<Rightarrow> ('k, 'e) tx_host"
and run_acts :: "('k::linorder, 'e) xdr_types \<Rightarrow> ledger_info \<Rightarrow> ('k, 'e) act list \<Rightarrow> ('k, 'e) tx_host \<Rightarrow> ('k, 'e) tx_host" where
  "run_act T li (DoStore c) h = h\<lparr>tx_storage := snd (run_call T li c (tx_storage h))\<rparr>"
| "run_act T li (DoEmit e) h = h\<lparr>tx_events := buffer_record (tx_debug h) (IE_Contract e) (tx_events h)\<rparr>"
| "run_act T li (DoDebug e) h = h\<lparr>tx_events := buffer_record (tx_debug h) (IE_Diagnostic e) (tx_events h)\<rparr>"
| "run_act T li (DoCall i body) h =
     snd (call_n_internal (storage_phase T li (ci_load i) (ci_loaded i)) (storage_phase T li (ci_persist i) (ci_persisted i))
       (ci_id i) (ci_func i) (ci_args i) (ci_mode i) (ci_internal i) (\<lambda>h. (ci_result i, run_acts T li body h)) h)"
| "run_acts T li [] h = h"
| "run_acts T li (a # acts) h = run_acts T li acts (run_act T li a h)"

subsection \<open>What a frame does\<close>

definition rolled :: "('k, 'e) tx_host \<Rightarrow> ('k, 'e) tx_host \<Rightarrow> ('k, 'e) tx_host" where
  "rolled h t = t\<lparr>context_stack := context_stack h, tx_storage := (tx_storage t)\<lparr>smap := smap (tx_storage h)\<rparr>,
     tx_events := buffer_rollback (length (tx_events h)) (tx_events t)\<rparr>"

lemma with_frame_run:
  assumes "length (context_stack h) < FRAME_DEPTH_LIMIT" and "f (h\<lparr>context_stack := frame # context_stack h\<rparr>) = (r, h2)"
    and "context_stack h2 = frame # context_stack h" and "persist h2 = (p, h3)" and "context_stack h3 = context_stack h2"
  shows "with_frame persist frame f h =
    (case frame_exit r of
       Inl e \<Rightarrow> (Inl e, rolled h h2)
     | Inr v \<Rightarrow> (case p of Inl e \<Rightarrow> (Inl e, rolled h h3) | Inr _ \<Rightarrow> (Inr v, h3\<lparr>context_stack := context_stack h\<rparr>)))"
  using assms
  by (cases "frame_exit r"; cases p)
    (simp_all add: with_frame_def tx_push_context_def tx_pop_context_def rolled_def Let_def)

lemma with_frame_deep:
  "\<not> length (context_stack h) < FRAME_DEPTH_LIMIT \<Longrightarrow> with_frame persist frame f h = (Inl (HostErr SCE_Context ExceededLimit), h)"
  by (simp add: with_frame_def Let_def)

definition enters :: "('k, 'e) call_info \<Rightarrow> bytes option list \<Rightarrow> bool" where
  "enters i stack \<longleftrightarrow> (ci_internal i \<or> take 2 (ci_func i) \<noteq> RESERVED_CONTRACT_FN_PREFIX)
     \<and> reentry_ok (ci_mode i) (ci_id i) stack \<and> ci_loaded i = Inr () \<and> length stack < FRAME_DEPTH_LIMIT"

definition succeeds :: "('k, 'e) call_info \<Rightarrow> bytes option list \<Rightarrow> bool" where
  "succeeds i stack \<longleftrightarrow> enters i stack \<and> (\<exists>v. frame_exit (ci_result i) = Inr v) \<and> ci_persisted i = Inr ()"

section \<open>Which events count\<close>

text \<open>The specification: an event counts if every call around it succeeds.\<close>

fun committed :: "bytes option list \<Rightarrow> ('k, 'e) act \<Rightarrow> InternalContractEvent list"
and committed_all :: "bytes option list \<Rightarrow> ('k, 'e) act list \<Rightarrow> InternalContractEvent list" where
  "committed stack (DoEmit e) = [e]"
| "committed stack (DoCall i body) = (if succeeds i stack then committed_all (Some (ci_id i) # stack) body else [])"
| "committed stack _ = []"
| "committed_all stack [] = []"
| "committed_all stack (a # acts) = committed stack a @ committed_all stack acts"

text \<open>All events, also those of calls that fail.\<close>

fun emitted :: "bytes option list \<Rightarrow> ('k, 'e) act \<Rightarrow> InternalContractEvent list"
and emitted_all :: "bytes option list \<Rightarrow> ('k, 'e) act list \<Rightarrow> InternalContractEvent list" where
  "emitted stack (DoEmit e) = [e]"
| "emitted stack (DoCall i body) = (if enters i stack then emitted_all (Some (ci_id i) # stack) body else [])"
| "emitted stack _ = []"
| "emitted_all stack [] = []"
| "emitted_all stack (a # acts) = emitted stack a @ emitted_all stack acts"

fun good :: "InternalEventsBuffer \<Rightarrow> InternalContractEvent list" where
  "good [] = []"
| "good ((IE_Contract c, status) # buf) = (if status = FromSuccessfulCall then c # good buf else good buf)"
| "good ((IE_Diagnostic d, status) # buf) = good buf"

fun contracts :: "InternalEventsBuffer \<Rightarrow> InternalContractEvent list" where
  "contracts [] = []"
| "contracts ((IE_Contract c, status) # buf) = c # contracts buf"
| "contracts ((IE_Diagnostic d, status) # buf) = contracts buf"

lemma good_append [simp]: "good (a @ b) = good a @ good b"
  by (induction a rule: good.induct) auto

lemma contracts_append [simp]: "contracts (a @ b) = contracts a @ contracts b"
  by (induction a rule: contracts.induct) auto

lemma marked [simp]:
  "good (map (\<lambda>(e, _). (e, FromFailedCall)) buf) = []"
  "contracts (map (\<lambda>(e, _). (e, FromFailedCall)) buf) = contracts buf"
  by (induction buf rule: contracts.induct) auto

definition logs :: "('k, 'e) tx_host \<Rightarrow> ('k, 'e) tx_host \<Rightarrow> InternalContractEvent list \<Rightarrow> InternalContractEvent list \<Rightarrow> bool" where
  "logs h t g c \<longleftrightarrow> context_stack t = context_stack h \<and> tx_debug t = tx_debug h
     \<and> (\<exists>new. tx_events t = tx_events h @ new \<and> good new = g \<and> contracts new = c)"

lemma logs_refl: "context_stack t = context_stack h \<Longrightarrow> tx_debug t = tx_debug h \<Longrightarrow> tx_events t = tx_events h \<Longrightarrow> logs h t [] []"
  by (simp add: logs_def)

lemma logs_trans: "logs h t g c \<Longrightarrow> logs t u g' c' \<Longrightarrow> logs h u (g @ g') (c @ c')"
  unfolding logs_def by (elim conjE exE) auto

lemma logs_diagnostic: "logs h (record_diagnostic_event cid topics args h) [] []"
  by (simp add: logs_def record_diagnostic_event_def with_debug_mode_def buffer_record_def)

lemma logs_storage: "logs h (snd (storage_phase T li cs res h)) [] []"
  by (simp add: storage_phase_def logs_refl)

lemma logs_call_diagnostics: "logs h (fn_call_diagnostics cid func args h) [] []"
  by (simp add: fn_call_diagnostics_def logs_diagnostic)

lemma logs_return_diagnostics: "logs h (fn_return_diagnostics cid func v h) [] []"
  by (cases v) (simp_all add: fn_return_diagnostics_def logs_diagnostic logs_refl)

lemma rollback_append: "buffer_rollback (length a) (a @ b) = a @ map (\<lambda>(e, _). (e, FromFailedCall)) b"
  by (simp add: buffer_rollback_def)

lemma logs_rolled:
  assumes "logs (h\<lparr>context_stack := st\<rparr>) t g c"
  shows "logs h (rolled h t) [] c"
  using assms by (auto simp: logs_def rolled_def rollback_append)

lemma logs_popped: "logs (h\<lparr>context_stack := st\<rparr>) t g c \<Longrightarrow> logs h (t\<lparr>context_stack := context_stack h\<rparr>) g c"
  by (auto simp: logs_def)

lemma frame_logs:
  assumes "length (context_stack h) < FRAME_DEPTH_LIMIT"
    and "logs (h\<lparr>context_stack := frame # context_stack h\<rparr>) (snd (f (h\<lparr>context_stack := frame # context_stack h\<rparr>))) g c"
    and "fst (f (h\<lparr>context_stack := frame # context_stack h\<rparr>)) = r"
  shows "logs h (snd (with_frame (storage_phase T li cs p) frame f h)) (if (\<exists>v. frame_exit r = Inr v) \<and> p = Inr () then g else []) c"
    and "(\<exists>v. fst (with_frame (storage_phase T li cs p) frame f h) = Inr v) \<longleftrightarrow> (\<exists>v. frame_exit r = Inr v) \<and> p = Inr ()"
proof -
  obtain h2 where h2: "f (h\<lparr>context_stack := frame # context_stack h\<rparr>) = (r, h2)"
    using assms(3) by (metis prod.collapse)
  define h3 where "h3 = snd (storage_phase T li cs p h2)"
  have h3: "storage_phase T li cs p h2 = (p, h3)" "logs h2 h3 [] []"
    using logs_storage [of h2] by (simp_all add: h3_def storage_phase_def)
  have l2: "logs (h\<lparr>context_stack := frame # context_stack h\<rparr>) h2 g c"
    using assms(2) h2 by simp
  then have l3: "logs (h\<lparr>context_stack := frame # context_stack h\<rparr>) h3 g c"
    using logs_trans [OF l2 h3(2)] by simp
  have run: "with_frame (storage_phase T li cs p) frame f h =
    (case frame_exit r of
       Inl e \<Rightarrow> (Inl e, rolled h h2)
     | Inr v \<Rightarrow> (case p of Inl e \<Rightarrow> (Inl e, rolled h h3) | Inr _ \<Rightarrow> (Inr v, h3\<lparr>context_stack := context_stack h\<rparr>)))"
    by (rule with_frame_run [where ?f = f and ?frame = frame and ?h = h and ?persist = "storage_phase T li cs p" and ?h2.0 = h2])
      (use assms(1) h2 h3 l2 in \<open>simp_all add: logs_def\<close>)
  then show "logs h (snd (with_frame (storage_phase T li cs p) frame f h)) (if (\<exists>v. frame_exit r = Inr v) \<and> p = Inr () then g else []) c"
    using logs_rolled [OF l2] logs_rolled [OF l3] logs_popped [OF l3] by (auto split: sum.split)
  show "(\<exists>v. fst (with_frame (storage_phase T li cs p) frame f h) = Inr v) \<longleftrightarrow> (\<exists>v. frame_exit r = Inr v) \<and> p = Inr ()"
    using run by (auto split: sum.split)
qed

lemma call_logs:
  assumes "enters i (context_stack h)" and "\<And>u. logs u (run_acts T li body u) (committed_all (context_stack u) body) (emitted_all (context_stack u) body)"
  shows "logs h (run_act T li (DoCall i body) h) (committed (context_stack h) (DoCall i body)) (emitted (context_stack h) (DoCall i body))"
proof -
  define h0 where "h0 = fn_call_diagnostics (ci_id i) (ci_func i) (ci_args i) h"
  define h1 where "h1 = snd (storage_phase T li (ci_load i) (ci_loaded i) h0)"
  have l1: "logs h h1 [] []"
    using logs_trans [OF logs_call_diagnostics logs_storage] by (simp add: h0_def h1_def)
  then have st: "context_stack h1 = context_stack h"
    by (simp add: logs_def)
  let ?push = "h1\<lparr>context_stack := Some (ci_id i) # context_stack h1\<rparr>"
  let ?frame = "with_frame (storage_phase T li (ci_persist i) (ci_persisted i)) (Some (ci_id i)) (\<lambda>h. (ci_result i, run_acts T li body h)) h1"
  have body: "logs ?push (run_acts T li body ?push) (committed_all (Some (ci_id i) # context_stack h) body)
      (emitted_all (Some (ci_id i) # context_stack h) body)"
    using assms(2) [of ?push] st by simp
  have ok: "succeeds i (context_stack h) \<longleftrightarrow> (\<exists>v. frame_exit (ci_result i) = Inr v) \<and> ci_persisted i = Inr ()"
    using assms(1) by (simp add: succeeds_def)
  have l2: "logs h1 (snd ?frame) (committed (context_stack h) (DoCall i body)) (emitted (context_stack h) (DoCall i body))"
    using frame_logs(1) [where ?f = "\<lambda>h. (ci_result i, run_acts T li body h)" and ?frame = "Some (ci_id i)" and ?h = h1
        and ?cs = "ci_persist i" and ?p = "ci_persisted i" and ?T = T and ?li = li] body assms(1) ok
    by (simp add: enters_def st)
  have call: "run_act T li (DoCall i body) h =
      (case ?frame of (Inl e, t) \<Rightarrow> t | (Inr v, t) \<Rightarrow> fn_return_diagnostics (ci_id i) (ci_func i) v t)"
    using assms(1)
    by (simp add: call_n_internal_def call_contract_fn_def enters_def h0_def [symmetric])
      (auto simp: h1_def storage_phase_def split: prod.split sum.split)
  have "logs (snd ?frame) (run_act T li (DoCall i body) h) [] []"
    unfolding call by (simp add: logs_refl logs_return_diagnostics split: prod.split sum.split)
  from logs_trans [OF logs_trans [OF l1 l2] this] show ?thesis
    by (simp only: append_Nil append_Nil2)
qed

lemma call_rejected:
  assumes "\<not> enters i (context_stack h)"
  shows "logs h (run_act T li (DoCall i body) h) [] []"
proof (cases "(\<not> ci_internal i \<and> take 2 (ci_func i) = RESERVED_CONTRACT_FN_PREFIX) \<or> \<not> reentry_ok (ci_mode i) (ci_id i) (context_stack h)")
  case True
  then show ?thesis
    by (auto simp: call_n_internal_def logs_refl)
next
  case False
  let ?h1 = "snd (storage_phase T li (ci_load i) (ci_loaded i) (fn_call_diagnostics (ci_id i) (ci_func i) (ci_args i) h))"
  have l: "logs h ?h1 [] []"
    using logs_trans [OF logs_call_diagnostics logs_storage] by simp
  have "run_act T li (DoCall i body) h = ?h1"
  proof (cases "ci_loaded i")
    case (Inl e)
    then show ?thesis
      using False by (auto simp: call_n_internal_def call_contract_fn_def storage_phase_def)
  next
    case (Inr x)
    then have "\<not> length (context_stack ?h1) < FRAME_DEPTH_LIMIT"
      using assms False l by (auto simp: enters_def logs_def)
    then show ?thesis
      using False Inr with_frame_deep [of ?h1]
      by (auto simp: call_n_internal_def call_contract_fn_def storage_phase_def)
  qed
  with l show ?thesis
    by simp
qed

lemma run_logs:
  "logs h (run_act T li a h) (committed (context_stack h) a) (emitted (context_stack h) a)"
  "logs h (run_acts T li acts h) (committed_all (context_stack h) acts) (emitted_all (context_stack h) acts)"
proof (induction T li a h and T li acts h rule: run_act_run_acts.induct)
  case (4 T li i body h)
  show ?case
  proof (cases "enters i (context_stack h)")
    case True
    then show ?thesis
      using 4 by (rule call_logs)
  next
    case False
    then show ?thesis
      using call_rejected [OF False] by (simp add: succeeds_def del: run_act.simps)
  qed
next
  case (6 T li a acts h)
  then show ?case
    using logs_trans [OF 6(1)] by (simp add: logs_def)
qed (simp_all add: logs_def buffer_record_def with_debug_mode_def)

subsection \<open>Externalisation\<close>

definition host_event :: "xdr_contract_event \<Rightarrow> EventError \<Rightarrow> HostEvent" where
  "host_event ev status = HostEvent ev (status = FromFailedCall)"

fun external :: "common \<Rightarrow> conversion \<Rightarrow> nat \<Rightarrow> obj_host \<Rightarrow> bool \<Rightarrow> InternalEventsBuffer \<Rightarrow> HostEvent list" where
  "external X V depth s debug [] = []"
| "external X V depth s debug ((IE_Contract c, status) # rest) =
     host_event (projr (contract_event_to_xdr X V depth s c)) status # external X V depth s debug rest"
| "external X V depth s debug ((IE_Diagnostic d, status) # rest) =
     (if debug then
        (case diagnostic_event_to_xdr X V depth s True d of
           Inl _ \<Rightarrow> []
         | Inr ev \<Rightarrow> [host_event ev status])
      else []) @ external X V depth s debug rest"

lemma externalize_external:
  "externalize_from X V depth s debug buf vec =
     try_sum (collect (contract_event_to_xdr X V depth s) (contracts buf)) (\<lambda>_. Inr (vec @ external X V depth s debug buf))"
proof (induction buf arbitrary: vec rule: contracts.induct)
  case (2 c status buf)
  then show ?case
    by (cases "contract_event_to_xdr X V depth s c"; cases "collect (contract_event_to_xdr X V depth s) (contracts buf)") (simp_all add: host_event_def)
next
  case (3 d status buf)
  then show ?case
    by (cases "collect (contract_event_to_xdr X V depth s) (contracts buf)")
      (simp_all add: with_debug_mode_def try_sum_def host_event_def split: sum.split)
qed simp

lemma diagnostic_type: "diagnostic_event_to_xdr X V depth s m d = Inr ev \<Longrightarrow> xce_type ev = DiagnosticEvent"
  by (auto simp: diagnostic_event_to_xdr_def try_sum_ok split: if_splits)

lemma contract_type: "contract_event_to_xdr X V depth s c = Inr ev \<Longrightarrow> xce_type ev = ice_type c"
  by (auto simp: contract_event_to_xdr_def try_sum_ok)

definition counts :: "InternalContractEvent \<Rightarrow> bool" where
  "counts c \<longleftrightarrow> ice_type c \<noteq> DiagnosticEvent"

lemma observable_event [simp]:
  "observable (host_event ev status) \<longleftrightarrow> status = FromSuccessfulCall \<and> xce_type ev \<noteq> DiagnosticEvent"
  "he_event (host_event ev status) = ev"
  by (cases status; simp add: observable_def host_event_def)+

lemma encode_external:
  assumes "collect (contract_event_to_xdr X V depth s) (contracts buf) = Inr evs"
  shows "encode_contract_events w (external X V depth s debug buf) =
    collect (\<lambda>c. try_sum (contract_event_to_xdr X V depth s c) w) (filter counts (good buf))"
  using assms
proof (induction buf arbitrary: evs rule: contracts.induct)
  case (2 c status buf)
  then obtain ev where "contract_event_to_xdr X V depth s c = Inr ev" "xce_type ev = ice_type c"
    using contract_type by (fastforce simp: try_sum_ok)
  then show ?case
    using 2 by (cases status) (auto simp: encode_contract_events_def counts_def try_sum_ok)
next
  case (3 d status buf)
  have "filter observable (external X V depth s debug ((IE_Diagnostic d, status) # buf)) = filter observable (external X V depth s debug buf)"
  proof (cases "debug \<and> (\<exists>ev. diagnostic_event_to_xdr X V depth s True d = Inr ev)")
    case True
    then obtain ev where ev: "debug" "diagnostic_event_to_xdr X V depth s True d = Inr ev"
      by blast
    have "external X V depth s debug ((IE_Diagnostic d, status) # buf) = host_event ev status # external X V depth s debug buf"
      unfolding external.simps ev(2) by (simp only: ev(1) if_True sum.case append_Cons append_Nil)
    moreover have "\<not> observable (host_event ev status)"
      unfolding observable_event diagnostic_type [OF ev(2)] by blast
    ultimately show ?thesis
      by (simp only: filter.simps if_False)
  next
    case False
    then have "external X V depth s debug ((IE_Diagnostic d, status) # buf) = external X V depth s debug buf"
      by (cases "diagnostic_event_to_xdr X V depth s True d") (auto simp only: external.simps if_False if_True sum.case append_Nil split: if_split)
    then show ?thesis
      by (rule arg_cong)
  qed
  then show ?case
    using "3.IH" [of evs] "3.prems" unfolding encode_contract_events_def contracts.simps good.simps by (simp only:)
qed (simp add: encode_contract_events_def)

section \<open>What stays of the storage\<close>

definition stays :: "('k::linorder, 'e) Storage \<Rightarrow> ('k, 'e) Storage \<Rightarrow> bool" where
  "stays s t \<longleftrightarrow> enforcing t \<and> within_footprint s t \<and> dom (map_of (smap s)) \<subseteq> dom (map_of (smap t))"

lemma stays_refl: "enforcing s \<Longrightarrow> stays s s"
  by (simp add: stays_def)

lemma stays_trans: "stays s t \<Longrightarrow> stays t u \<Longrightarrow> stays s u"
  using within_trans unfolding stays_def by blast

lemma stays_enforcing: "stays s t \<Longrightarrow> enforcing t"
  by (simp add: stays_def)

lemma insert_dom: "mm_invar (smap s) \<Longrightarrow> dom (map_of (smap s)) \<subseteq> dom (map_of (smap (snd (insert_smap k v s))))"
  using mm.lookup_update [of "smap s" k v] by (auto simp: insert_smap_def split: sum.split)

lemma put_dom:
  assumes "enforcing s"
  shows "dom (map_of (smap s)) \<subseteq> dom (map_of (smap (snd (put_opt T k v s))))"
  using insert_dom [of s k v] assms access_enforcing(1) [OF assms, of k ReadWrite]
  by (auto simp: put_opt_def then_op_cases lift_res_def enforcing_def split: sum.splits)

lemma extend_dom:
  assumes "enforcing s"
  shows "dom (map_of (smap s)) \<subseteq> dom (map_of (smap (snd (storage_extend_ttl T li k n m s))))"
  using insert_dom [of s k] assms read_enforcing(4) [OF assms, of T k]
  by (auto simp: storage_extend_ttl_def then_op_cases lift_res_def enforcing_def split: sum.splits option.splits)

lemma map_res_state: "snd (map_res r f s) = snd (f s)"
  by (simp add: map_res_def then_op_cases lift_res_def split: sum.split)

lemma run_call_stays: "enforcing s \<Longrightarrow> stays s (snd (run_call T li c s))"
  using run_call_enforcing [of s T li c] put_dom [of s T] extend_dom [of s T li] read_enforcing [of s T]
  by (cases c) (simp_all add: stays_def map_res_state storage_put_def storage_del_def)

lemma run_calls_stays: "enforcing s \<Longrightarrow> stays s (snd (run_calls T li cs s))"
proof (induction cs arbitrary: s)
  case (Cons c cs)
  then have "stays s (snd (run_call T li c s))"
    by (simp add: run_call_stays)
  then show ?case
    using stays_trans Cons.IH [OF stays_enforcing] by (fastforce split: prod.split)
qed (simp add: stays_refl)

lemma stays_rolled: "enforcing s \<Longrightarrow> stays s t \<Longrightarrow> t\<lparr>smap := smap s\<rparr> = s"
  by (simp add: stays_def within_footprint_def enforcing_def)

subsection \<open>A frame and the storage\<close>

lemma stays_phase: "enforcing (tx_storage h) \<Longrightarrow> stays (tx_storage h) (tx_storage (snd (storage_phase T li cs res h)))"
  by (simp add: storage_phase_def run_calls_stays)

lemma diagnostics_storage [simp]:
  "tx_storage (fn_call_diagnostics cid func args h) = tx_storage h"
  "tx_storage (fn_return_diagnostics cid func v h) = tx_storage h"
  by (simp_all add: fn_call_diagnostics_def fn_return_diagnostics_def record_diagnostic_event_def split: frame_value.split)

lemma frame_stays:
  assumes "enforcing (tx_storage h)" and "length (context_stack h) < FRAME_DEPTH_LIMIT"
    and "fst (f (h\<lparr>context_stack := frame # context_stack h\<rparr>)) = r" and "snd (f (h\<lparr>context_stack := frame # context_stack h\<rparr>)) = h2"
    and "context_stack h2 = frame # context_stack h" and "stays (tx_storage h) (tx_storage h2)"
  shows "stays (tx_storage h) (tx_storage (snd (with_frame (storage_phase T li cs p) frame f h)))"
    and "\<not> ((\<exists>v. frame_exit r = Inr v) \<and> p = Inr ()) \<Longrightarrow> tx_storage (snd (with_frame (storage_phase T li cs p) frame f h)) = tx_storage h"
proof -
  define h3 where "h3 = snd (storage_phase T li cs p h2)"
  have h3: "storage_phase T li cs p h2 = (p, h3)" "context_stack h3 = context_stack h2"
    by (simp_all add: h3_def storage_phase_def)
  have s3: "stays (tx_storage h) (tx_storage h3)"
    using stays_trans [OF assms(6) stays_phase [OF stays_enforcing [OF assms(6)]]] by (simp add: h3_def)
  have run: "with_frame (storage_phase T li cs p) frame f h =
    (case frame_exit r of
       Inl e \<Rightarrow> (Inl e, rolled h h2)
     | Inr v \<Rightarrow> (case p of Inl e \<Rightarrow> (Inl e, rolled h h3) | Inr _ \<Rightarrow> (Inr v, h3\<lparr>context_stack := context_stack h\<rparr>)))"
    by (rule with_frame_run [where ?f = f and ?frame = frame and ?h = h and ?persist = "storage_phase T li cs p" and ?h2.0 = h2])
      (use assms(2-5) h3 in \<open>auto simp: prod_eq_iff\<close>)
  have undone: "tx_storage (rolled h h2) = tx_storage h" "tx_storage (rolled h h3) = tx_storage h"
    using stays_rolled [OF assms(1) assms(6)] stays_rolled [OF assms(1) s3] by (simp_all add: rolled_def)
  show "stays (tx_storage h) (tx_storage (snd (with_frame (storage_phase T li cs p) frame f h)))"
    using run undone s3 stays_refl [OF assms(1)] by (simp split: sum.split)
  assume "\<not> ((\<exists>v. frame_exit r = Inr v) \<and> p = Inr ())"
  then show "tx_storage (snd (with_frame (storage_phase T li cs p) frame f h)) = tx_storage h"
    using run undone by (auto split: sum.split)
qed

definition after_load :: "('k::linorder, 'e) xdr_types \<Rightarrow> ledger_info \<Rightarrow> ('k, 'e) call_info \<Rightarrow> ('k, 'e) tx_host \<Rightarrow> ('k, 'e) tx_host" where
  "after_load T li i h = snd (storage_phase T li (ci_load i) (ci_loaded i) (fn_call_diagnostics (ci_id i) (ci_func i) (ci_args i) h))"

lemma after_load_stack: "context_stack (after_load T li i h) = context_stack h"
  using logs_trans [OF logs_call_diagnostics logs_storage] unfolding after_load_def logs_def by blast

lemma after_load_stays: "enforcing (tx_storage h) \<Longrightarrow> stays (tx_storage h) (tx_storage (after_load T li i h))"
  using stays_phase [of "fn_call_diagnostics (ci_id i) (ci_func i) (ci_args i) h"] by (simp add: after_load_def)

text \<open>The storage a call leaves: that before it, that after the load, or what the frame leaves.\<close>

lemma call_storage:
  assumes "enforcing (tx_storage h)" and "\<And>u. enforcing (tx_storage u) \<Longrightarrow> stays (tx_storage u) (tx_storage (run_acts T li body u))"
  shows "stays (tx_storage h) (tx_storage (run_act T li (DoCall i body) h))
    \<and> (\<not> succeeds i (context_stack h) \<longrightarrow>
        tx_storage (run_act T li (DoCall i body) h) \<in> {tx_storage h, tx_storage (after_load T li i h)})"
proof (cases "(\<not> ci_internal i \<and> take 2 (ci_func i) = RESERVED_CONTRACT_FN_PREFIX) \<or> \<not> reentry_ok (ci_mode i) (ci_id i) (context_stack h)")
  case True
  then show ?thesis
    using stays_refl [OF assms(1)] by (auto simp: call_n_internal_def)
next
  case False
  let ?h1 = "after_load T li i h"
  let ?f = "\<lambda>h. (ci_result i, run_acts T li body h)"
  let ?frame = "with_frame (storage_phase T li (ci_persist i) (ci_persisted i)) (Some (ci_id i)) ?f ?h1"
  note load = after_load_stays [OF assms(1), of T li i]
  have ph: "storage_phase T li (ci_load i) (ci_loaded i) (fn_call_diagnostics (ci_id i) (ci_func i) (ci_args i) h) = (ci_loaded i, ?h1)"
    by (simp add: after_load_def storage_phase_def)
  have call: "tx_storage (run_act T li (DoCall i body) h) =
      (case ci_loaded i of Inl e \<Rightarrow> tx_storage ?h1 | Inr _ \<Rightarrow> tx_storage (snd ?frame))"
    using False ph by (auto simp: call_n_internal_def call_contract_fn_def split: prod.split sum.split)
  show ?thesis
  proof (cases "ci_loaded i = Inr () \<and> length (context_stack ?h1) < FRAME_DEPTH_LIMIT")
    case True
    let ?push = "?h1\<lparr>context_stack := Some (ci_id i) # context_stack ?h1\<rparr>"
    have "stays (tx_storage ?h1) (tx_storage (run_acts T li body ?push))"
      using assms(2) [of ?push] stays_enforcing [OF load] by simp
    moreover have "context_stack (run_acts T li body ?push) = Some (ci_id i) # context_stack ?h1"
      using run_logs(2) [of ?push T li body] by (simp add: logs_def)
    ultimately have "stays (tx_storage ?h1) (tx_storage (snd ?frame))"
        "\<not> succeeds i (context_stack h) \<Longrightarrow> tx_storage (snd ?frame) = tx_storage ?h1"
      using frame_stays [where ?f = ?f and ?frame = "Some (ci_id i)" and ?h = ?h1 and ?h2.0 = "run_acts T li body ?push"
          and ?cs = "ci_persist i" and ?p = "ci_persisted i" and ?T = T and ?li = li] True False stays_enforcing [OF load]
      by (auto simp: succeeds_def enters_def after_load_stack)
    then show ?thesis
      using call True stays_trans [OF load] by auto
  next
    case no: False
    then have "tx_storage (run_act T li (DoCall i body) h) = tx_storage ?h1"
      using call with_frame_deep [of ?h1] by (cases "ci_loaded i") auto
    then show ?thesis
      using load by simp
  qed
qed

lemma run_stays:
  "enforcing (tx_storage h) \<Longrightarrow> stays (tx_storage h) (tx_storage (run_act T li a h))"
  "enforcing (tx_storage h) \<Longrightarrow> stays (tx_storage h) (tx_storage (run_acts T li acts h))"
proof (induction T li a h and T li acts h rule: run_act_run_acts.induct)
  case (4 T li i body h)
  then show ?case
    using call_storage by blast
next
  case (6 T li a acts h)
  then show ?case
    using stays_trans stays_enforcing by (metis run_acts.simps(2))
qed (simp_all add: run_call_stays stays_refl)

section \<open>Properties\<close>

definition fresh_host :: "('k, 'e) Storage \<Rightarrow> bool \<Rightarrow> ('k, 'e) tx_host" where
  "fresh_host st debug = \<lparr>tx_storage = st, tx_events = [], context_stack = [], tx_debug = debug\<rparr>"

text \<open>C14: exactly the events of successful calls are published.  Whatever contracts do on a fresh host, in
  whatever nesting: the events that leave the host are those for which every call around them
  succeeded, in the order in which they were emitted, each converted and encoded; the result does
  not depend on whether diagnostics are on, and fails only if the conversion of some emitted event
  or the encoding of a published one fails.\<close>

theorem events_committed:
  "try_sum (externalize X V depth s debug (tx_events (run_acts T li acts (fresh_host st debug)))) (encode_contract_events w) =
   try_sum (collect (contract_event_to_xdr X V depth s) (emitted_all [] acts)) (\<lambda>_.
     collect (\<lambda>c. try_sum (contract_event_to_xdr X V depth s c) w)
       (filter (\<lambda>c. ice_type c \<noteq> DiagnosticEvent) (committed_all [] acts)))"
proof -
  have "logs (fresh_host st debug) (run_acts T li acts (fresh_host st debug)) (committed_all [] acts) (emitted_all [] acts)"
    using run_logs(2) [of "fresh_host st debug" T li acts] by (simp add: fresh_host_def)
  then obtain buf where buf: "tx_events (run_acts T li acts (fresh_host st debug)) = buf"
      "good buf = committed_all [] acts" "contracts buf = emitted_all [] acts"
    unfolding logs_def fresh_host_def by auto
  show ?thesis
  proof (cases "collect (contract_event_to_xdr X V depth s) (contracts buf)")
    case (Inl e)
    then show ?thesis
      unfolding buf(1) externalize_def externalize_external buf(3) [symmetric] by (simp only: try_sum_simps)
  next
    case (Inr evs)
    then show ?thesis
      using encode_external [OF Inr, of w debug]
      unfolding buf(1) externalize_def externalize_external buf(2,3) [symmetric] counts_def [abs_def]
      by (simp only: try_sum_simps append_Nil)
  qed
qed

definition reads_only :: "('k, 'e) storage_call list \<Rightarrow> bool" where
  "reads_only cs \<longleftrightarrow> (\<forall>c\<in>set cs. case c of CPut _ _ _ \<Rightarrow> False | CDel _ \<Rightarrow> False | CExtend _ _ _ \<Rightarrow> False | _ \<Rightarrow> True)"

lemma reads_only_state:
  assumes "enforcing s" and "reads_only cs"
  shows "snd (run_calls T li cs s) = s"
  using assms(2)
proof (induction cs)
  case (Cons c cs)
  then have "snd (run_call T li c s) = s"
    using read_enforcing [OF assms(1), of T] by (cases c) (simp_all add: reads_only_def map_res_state)
  with Cons show ?case
    by (cases "run_call T li c s") (auto simp: reads_only_def split: prod.split)
qed simp

text \<open>C13: a failed call leaves no trace.  If a call is refused (reserved function, re-entry, too deep), can
  not load its contract, or its contract, or the write of its instance, fails, then whatever the
  contract and the contracts it called did: the storage is what it was before the call, every contract event
  since is marked as failed, those before are not, and the stack is balanced.\<close>

theorem failed_call_no_trace:
  assumes "enforcing (tx_storage h)" and "reads_only (ci_load i)" and "\<not> succeeds i (context_stack h)"
  shows "tx_storage (run_act T li (DoCall i body) h) = tx_storage h
    \<and> context_stack (run_act T li (DoCall i body) h) = context_stack h
    \<and> (\<exists>new. tx_events (run_act T li (DoCall i body) h) = tx_events h @ new \<and> good new = [])"
proof -
  have "tx_storage (after_load T li i h) = tx_storage h"
    using reads_only_state [OF assms(1,2)] by (simp add: after_load_def storage_phase_def)
  moreover have "tx_storage (run_act T li (DoCall i body) h) \<in> {tx_storage h, tx_storage (after_load T li i h)}"
    using call_storage [OF assms(1) run_stays(2)] assms(3) by blast
  ultimately show ?thesis
    using run_logs(1) [of h T li "DoCall i body"] assms(3) by (auto simp: logs_def simp del: run_act.simps)
qed

definition failing_call :: "(nat, nat) call_info" where
  "failing_call = \<lparr>ci_id = [7], ci_func = [102], ci_args = [], ci_mode = Prohibited, ci_internal = False, ci_load = [CGet 1],
     ci_loaded = Inr (), ci_result = Inr (RetError (ContractErr 3)), ci_persist = [], ci_persisted = Inr ()\<rparr>"

definition some_event :: InternalContractEvent where
  "some_event = \<lparr>ice_type = ContractEvent, ice_contract_id = None, ice_topics = 1, ice_data = VoidVal\<rparr>"

theorem failed_call_no_trace_witness:
  "smap (tx_storage (run_act sample_types sample_ledger (DoCall failing_call [DoStore (CPut 2 9 (Some 80)), DoEmit some_event])
     (fresh_host (with_enforcing_footprint_and_map [(1, ReadOnly), (2, ReadWrite)] [(1, Some (7, Some 100)), (2, None)]) True)))
   = [(1, Some (7, Some 100)), (2, None)]"
proof -
  have "enforcing (with_enforcing_footprint_and_map [(1::nat, ReadOnly), (2, ReadWrite)] [(1, Some (7::nat, Some 100)), (2, None)])"
    by (simp add: enforcing_def with_enforcing_footprint_and_map_def mm_invar_def U32_MAX_def)
  then show ?thesis
    using failed_call_no_trace [of "fresh_host (with_enforcing_footprint_and_map [(1, ReadOnly), (2, ReadWrite)]
        [(1, Some (7, Some 100)), (2, None)]) True" failing_call sample_types sample_ledger "[DoStore (CPut 2 9 (Some 80)), DoEmit some_event]"]
    by (simp add: fresh_host_def failing_call_def reads_only_def succeeds_def frame_exit_def with_enforcing_footprint_and_map_def
        del: run_act.simps)
qed

end
