(* ===== verification/Ledger_Changes.thy ===== *)
theory Ledger_Changes
  imports Call_Frames Fees
begin

text \<open>
  The entry point of an embedder, \<open>src/soroban-env-host-patch/src/e2e_invoke.rs\<close>: the footprint and the
  storage are built from the encoded inputs, one host function runs, and the difference to the
  initial storage is reported as ledger changes, from which the rent is computed.

  XDR encoding and SHA-256 are fields of \<open>codec\<close>; an encoder or decoder may fail.  The inputs that
  only configure the host (source account, authorization entries, seed, trace hook) enter as
  the result of their decoding.
\<close>

section \<open>Data\<close>

record TtlEntry =
  ttl_key_hash :: bytes
  live_until_ledger_seq :: u32

record ('k, 'e) codec =
  write_key :: "'k \<Rightarrow> host_error + bytes"
  write_entry :: "'e \<Rightarrow> host_error + bytes"
  read_entry :: "bytes \<Rightarrow> host_error + 'e"
  read_ttl :: "bytes \<Rightarrow> host_error + TtlEntry"
  key_of_entry :: "'e \<Rightarrow> 'k"
  sha256 :: "bytes \<Rightarrow> bytes"

record LedgerEntryLiveUntilChange =
  tc_key_hash :: bytes
  tc_durability :: durability
  tc_old_live_until :: u32
  tc_new_live_until :: u32

record LedgerEntryChange =
  read_only :: bool
  encoded_key :: bytes
  old_entry_size_bytes :: u32
  encoded_new_value :: "bytes option"
  ttl_change :: "LedgerEntryLiveUntilChange option"

type_synonym 'k TtlEntryMap = "('k, TtlEntry) metered_map"

definition storage_internal_error :: host_error where
  "storage_internal_error = HostErr SCE_Storage InternalError"

text \<open>\<open>len() as u32\<close>\<close>

definition len_u32 :: "bytes \<Rightarrow> u32" where
  "len_u32 buf = length buf mod (U32_MAX + 1)"

section \<open>The difference of two storages\<close>

definition set_old_live_until :: "u32 option \<Rightarrow> LedgerEntryLiveUntilChange option \<Rightarrow> host_error + LedgerEntryLiveUntilChange option" where
  "set_old_live_until live tc =
     (case tc of
        None \<Rightarrow> Inr None
      | Some t \<Rightarrow>
          (case live of None \<Rightarrow> Inl storage_internal_error | Some l \<Rightarrow> Inr (Some (t\<lparr>tc_old_live_until := l\<rparr>))))"

definition set_new_live_until :: "u32 option \<Rightarrow> LedgerEntryLiveUntilChange option \<Rightarrow> host_error + LedgerEntryLiveUntilChange option" where
  "set_new_live_until live tc =
     (case tc of
        None \<Rightarrow> Inr None
      | Some t \<Rightarrow>
          (case live of
             None \<Rightarrow> Inl storage_internal_error
           | Some l \<Rightarrow> Inr (Some (t\<lparr>tc_new_live_until := max l (tc_old_live_until t)\<rparr>))))"

definition initial_ttl_change ::
  "('k::linorder, 'e) codec \<Rightarrow> ('k, 'e) xdr_types \<Rightarrow> 'k TtlEntryMap \<Rightarrow> 'k \<Rightarrow> bytes \<Rightarrow> host_error + LedgerEntryLiveUntilChange option" where
  "initial_ttl_change C T ttls key enc =
     (case get_key_durability T key of
        None \<Rightarrow> Inr None
      | Some d \<Rightarrow>
          try_sum (mm_get key ttls) (\<lambda>r.
          Inr (Some \<lparr>tc_key_hash = (case r of Some ttl_entry \<Rightarrow> ttl_key_hash ttl_entry | None \<Rightarrow> sha256 C enc),
            tc_durability = d, tc_old_live_until = 0, tc_new_live_until = 0\<rparr>)))"

definition old_entry_change ::
  "('k, 'e) codec \<Rightarrow> 'e EntryWithLiveUntil option \<Rightarrow> LedgerEntryLiveUntilChange option \<Rightarrow>
   host_error + u32 \<times> LedgerEntryLiveUntilChange option" where
  "old_entry_change C old tc =
     (case old of
        None \<Rightarrow> Inr (0, tc)
      | Some (old_entry, old_live_until) \<Rightarrow>
          try_sum (write_entry C old_entry) (\<lambda>buf.
          try_sum (set_old_live_until old_live_until tc) (\<lambda>tc'. Inr (len_u32 buf, tc'))))"

definition new_entry_change ::
  "'e EntryWithLiveUntil option \<Rightarrow> LedgerEntryLiveUntilChange option \<Rightarrow> host_error + LedgerEntryLiveUntilChange option" where
  "new_entry_change slot tc =
     (case slot of None \<Rightarrow> Inr tc | Some (_, new_live_until) \<Rightarrow> set_new_live_until new_live_until tc)"

definition new_value_for_access ::
  "('k, 'e) codec \<Rightarrow> AccessType option \<Rightarrow> 'e EntryWithLiveUntil option \<Rightarrow> host_error + bool \<times> bytes option" where
  "new_value_for_access C maybe_access_type slot =
     (case maybe_access_type of
        Some ReadOnly \<Rightarrow> Inr (True, None)
      | Some ReadWrite \<Rightarrow>
          (case slot of
             None \<Rightarrow> Inr (False, None)
           | Some (entry, _) \<Rightarrow> try_sum (write_entry C entry) (\<lambda>entry_buf. Inr (False, Some entry_buf)))
      | None \<Rightarrow> Inl storage_internal_error)"

definition entry_change ::
  "('k::linorder, 'e) codec \<Rightarrow> ('k, 'e) xdr_types \<Rightarrow> 'k FootprintMap \<Rightarrow> ('k, 'e) SnapshotSource \<Rightarrow> 'k TtlEntryMap \<Rightarrow>
   'k \<times> 'e EntryWithLiveUntil option \<Rightarrow> host_error + LedgerEntryChange" where
  "entry_change C T footprint_map snapshot ttls = (\<lambda>(key, entry_with_live_until_ledger).
     try_sum (write_key C key) (\<lambda>enc.
     try_sum (initial_ttl_change C T ttls key enc) (\<lambda>tc0.
     try_sum (snapshot key) (\<lambda>old.
     try_sum (old_entry_change C old tc0) (\<lambda>(old_size, tc1).
     try_sum (new_entry_change entry_with_live_until_ledger tc1) (\<lambda>tc2.
     try_sum (mm_get key footprint_map) (\<lambda>maybe_access_type.
     try_sum (new_value_for_access C maybe_access_type entry_with_live_until_ledger) (\<lambda>(ro, new_value).
     Inr \<lparr>read_only = ro, encoded_key = enc, old_entry_size_bytes = old_size, encoded_new_value = new_value,
       ttl_change = tc2\<rparr>))))))))"

definition get_ledger_changes ::
  "('k::linorder, 'e) codec \<Rightarrow> ('k, 'e) xdr_types \<Rightarrow> ('k, 'e) Storage \<Rightarrow> ('k, 'e) SnapshotSource \<Rightarrow> 'k TtlEntryMap \<Rightarrow>
   host_error + LedgerEntryChange list" where
  "get_ledger_changes C T st init_storage_snapshot init_ttl_entries =
     collect (entry_change C T (footprint st) init_storage_snapshot init_ttl_entries) (smap st)"

text \<open>\<open>StorageMapSnapshotSource::get\<close>\<close>

definition storage_map_snapshot :: "('k::linorder, 'e) StorageMap \<Rightarrow> ('k, 'e) SnapshotSource" where
  "storage_map_snapshot m key = try_sum (mm_get key m) (\<lambda>r. Inr (case r of Some (Some e) \<Rightarrow> Some e | _ \<Rightarrow> None))"

definition rent_change :: "LedgerEntryChange \<Rightarrow> LedgerEntryRentChange option" where
  "rent_change ch =
     (case (ttl_change ch, encoded_new_value ch) of
        (Some tc, Some new_value) \<Rightarrow>
          if tc_old_live_until tc \<ge> tc_new_live_until tc \<and> old_entry_size_bytes ch \<ge> len_u32 new_value then None
          else Some \<lparr>is_persistent = (tc_durability tc = Persistent), old_size_bytes = old_entry_size_bytes ch,
            new_size_bytes = len_u32 new_value, old_live_until_ledger = tc_old_live_until tc,
            new_live_until_ledger = tc_new_live_until tc\<rparr>
      | _ \<Rightarrow> None)"

definition extract_rent_changes :: "LedgerEntryChange list \<Rightarrow> LedgerEntryRentChange list" where
  "extract_rent_changes changes = List.map_filter rent_change changes"

section \<open>Building the storage\<close>

definition ledger_entry_to_ledger_key :: "('k, 'e) codec \<Rightarrow> ('k, 'e) xdr_types \<Rightarrow> 'e \<Rightarrow> host_error + 'k" where
  "ledger_entry_to_ledger_key C T le =
     (if supported_kind (entry_kind T le) then Inr (key_of_entry C le) else Inl storage_internal_error)"

fun add_footprint_keys ::
  "('k::linorder, 'e) xdr_types \<Rightarrow> AccessType \<Rightarrow> 'k list \<Rightarrow> 'k FootprintMap \<Rightarrow> host_error + 'k FootprintMap" where
  "add_footprint_keys T ty [] fp = Inr fp"
| "add_footprint_keys T ty (key # keys) fp =
     try_sum (check_supported_ledger_key_type T key) (\<lambda>_.
     try_sum (mm_insert key ty fp) (add_footprint_keys T ty keys))"

definition build_storage_footprint_from_xdr ::
  "('k::linorder, 'e) xdr_types \<Rightarrow> 'k list \<Rightarrow> 'k list \<Rightarrow> host_error + 'k FootprintMap" where
  "build_storage_footprint_from_xdr T read_only_keys read_write_keys =
     try_sum (add_footprint_keys T ReadWrite read_write_keys []) (add_footprint_keys T ReadOnly read_only_keys)"

fun is_contract_kind :: "ledger_kind \<Rightarrow> bool" where
  "is_contract_kind (LK_ContractData _) = True"
| "is_contract_kind LK_ContractCode = True"
| "is_contract_kind _ = False"

text \<open>The \<open>live_until\<close> ledger of an entry, and the TTL entry noted for its key\<close>

definition entry_live_until ::
  "('k::linorder, 'e) codec \<Rightarrow> ('k, 'e) xdr_types \<Rightarrow> u32 \<Rightarrow> 'e \<Rightarrow> 'k \<Rightarrow> bytes \<Rightarrow> 'k TtlEntryMap \<Rightarrow>
   host_error + u32 option \<times> 'k TtlEntryMap" where
  "entry_live_until C T ledger_num le key ttl_buf ttls =
     (if ttl_buf \<noteq> [] then
        try_sum (read_ttl C ttl_buf) (\<lambda>ttl_entry.
        if live_until_ledger_seq ttl_entry < ledger_num then Inl storage_internal_error
        else try_sum (mm_insert key ttl_entry ttls) (\<lambda>ttls'. Inr (Some (live_until_ledger_seq ttl_entry), ttls')))
      else if is_contract_kind (entry_kind T le) then Inl storage_internal_error
      else Inr (None, ttls))"

fun add_entries ::
  "('k::linorder, 'e) codec \<Rightarrow> ('k, 'e) xdr_types \<Rightarrow> 'k FootprintMap \<Rightarrow> u32 \<Rightarrow> (bytes \<times> bytes) list \<Rightarrow>
   ('k, 'e) StorageMap \<Rightarrow> 'k TtlEntryMap \<Rightarrow> host_error + ('k, 'e) StorageMap \<times> 'k TtlEntryMap" where
  "add_entries C T fp ledger_num [] m ttls = Inr (m, ttls)"
| "add_entries C T fp ledger_num ((entry_buf, ttl_buf) # rest) m ttls =
     try_sum (read_entry C entry_buf) (\<lambda>le.
     try_sum (ledger_entry_to_ledger_key C T le) (\<lambda>key.
     try_sum (entry_live_until C T ledger_num le key ttl_buf ttls) (\<lambda>(live_until_ledger, ttls').
     if \<not> mm_contains_key key fp then Inl storage_internal_error
     else
       try_sum (mm_insert key (Some (le, live_until_ledger)) m) (\<lambda>m'.
       add_entries C T fp ledger_num rest m' ttls'))))"

fun add_missing :: "'k::linorder list \<Rightarrow> ('k, 'e) StorageMap \<Rightarrow> host_error + ('k, 'e) StorageMap" where
  "add_missing [] m = Inr m"
| "add_missing (k # ks) m =
     (if mm_contains_key k m then add_missing ks m else try_sum (mm_insert k None m) (add_missing ks))"

definition build_storage_map_from_xdr_ledger_entries ::
  "('k::linorder, 'e) codec \<Rightarrow> ('k, 'e) xdr_types \<Rightarrow> 'k FootprintMap \<Rightarrow> bytes list \<Rightarrow> bytes list \<Rightarrow> u32 \<Rightarrow>
   host_error + ('k, 'e) StorageMap \<times> 'k TtlEntryMap" where
  "build_storage_map_from_xdr_ledger_entries C T fp encoded_ledger_entries encoded_ttl_entries ledger_num =
     (if length encoded_ledger_entries \<noteq> length encoded_ttl_entries then Inl storage_internal_error
      else
        try_sum (add_entries C T fp ledger_num (zip encoded_ledger_entries encoded_ttl_entries) [] []) (\<lambda>(m, ttls).
        try_sum (add_missing (mm_keys fp) m) (\<lambda>m'. Inr (m', ttls))))"

section \<open>The invocation\<close>

record InvokeHostFunctionResult =
  encoded_invoke_result :: "host_error + bytes"
  ledger_changes :: "LedgerEntryChange list"
  encoded_contract_events :: "bytes list"

text \<open>The inputs after decoding, and what the host function does: its tree of actions in the frame of
  the host function, its result, and the objects of the host at the end.\<close>

record ('k, 'e) invocation =
  inv_read_only :: "'k list"
  inv_read_write :: "'k list"
  inv_entries :: "bytes list"
  inv_ttls :: "bytes list"
  inv_configured :: "host_error + unit"
  inv_seed :: bytes
  inv_diagnostics :: bool
  inv_acts :: "('k, 'e) act list"
  inv_result :: "host_error + frame_value"
  inv_objects :: obj_host

definition host_function_frame ::
  "('k::linorder, 'e) xdr_types \<Rightarrow> ledger_info \<Rightarrow> ('k, 'e) invocation \<Rightarrow> ('k, 'e, frame_value) tx_op" where
  "host_function_frame T li I = with_frame (\<lambda>h. (Inr (), h)) None (\<lambda>h. (inv_result I, run_acts T li (inv_acts I) h))"

definition result_value :: "common \<Rightarrow> conversion \<Rightarrow> nat \<Rightarrow> obj_host \<Rightarrow> host_error + frame_value \<Rightarrow> host_error + ScVal" where
  "result_value X V depth s res =
     try_sum res (\<lambda>v. case v of RetVal val \<Rightarrow> from_host_val X V s depth val | RetError e \<Rightarrow> Inl e)"

definition invoke_host_function ::
  "common \<Rightarrow> conversion \<Rightarrow> nat \<Rightarrow> ('k::linorder, 'e) codec \<Rightarrow> ('k, 'e) xdr_types \<Rightarrow> (ScVal \<Rightarrow> host_error + bytes) \<Rightarrow>
   (xdr_contract_event \<Rightarrow> host_error + bytes) \<Rightarrow> ledger_info \<Rightarrow> ('k, 'e) invocation \<Rightarrow> host_error + InvokeHostFunctionResult" where
  "invoke_host_function X V depth C T write_scval write_event li I =
     try_sum (build_storage_footprint_from_xdr T (inv_read_only I) (inv_read_write I)) (\<lambda>fp.
     try_sum (build_storage_map_from_xdr_ledger_entries C T fp (inv_entries I) (inv_ttls I) (sequence_number li)) (\<lambda>(init_map, init_ttls).
     try_sum (inv_configured I) (\<lambda>_.
     if length (inv_seed I) \<noteq> 32 then Inl (HostErr SCE_Context InternalError)
     else
       case host_function_frame T li I (fresh_host (with_enforcing_footprint_and_map fp init_map) (inv_diagnostics I)) of
         (res, h) \<Rightarrow>
           try_sum (externalize X V depth (inv_objects I) (inv_diagnostics I) (tx_events h)) (\<lambda>events.
           case try_sum (result_value X V depth (inv_objects I) res) write_scval of
             Inr bs \<Rightarrow>
               try_sum (get_ledger_changes C T (tx_storage h) (storage_map_snapshot init_map) init_ttls) (\<lambda>changes.
               try_sum (encode_contract_events write_event events) (\<lambda>evs.
               Inr \<lparr>encoded_invoke_result = Inr bs, ledger_changes = changes, encoded_contract_events = evs\<rparr>))
           | Inl e \<Rightarrow> Inr \<lparr>encoded_invoke_result = Inl e, ledger_changes = [], encoded_contract_events = []\<rparr>))))"

section \<open>What the builders build\<close>

lemma add_footprint_keys_ok:
  "mm_invar fp \<Longrightarrow> add_footprint_keys T ty keys fp = Inr fp' \<Longrightarrow>
     mm_invar fp' \<and> map_of fp' = (\<lambda>k. if k \<in> set keys then Some ty else map_of fp k)"
proof (induction keys arbitrary: fp)
  case (Cons key keys)
  then obtain m where m: "mm_insert key ty fp = Inr m" "add_footprint_keys T ty keys m = Inr fp'"
    by (auto simp: try_sum_ok)
  then show ?case
    using Cons.IH [OF mm.invar_update [OF Cons.prems(1) m(1)] m(2)] mm.lookup_update [OF Cons.prems(1) m(1)] by (auto simp: fun_eq_iff)
qed simp

lemma mm_invar_Nil [simp]: "mm_invar []"
  by (simp add: mm_invar_def)

lemma footprint_built:
  assumes "build_storage_footprint_from_xdr T ro rw = Inr fp"
  shows "mm_invar fp \<and> map_of fp = (\<lambda>k. if k \<in> set ro then Some ReadOnly else if k \<in> set rw then Some ReadWrite else None)"
proof -
  obtain m where m: "add_footprint_keys T ReadWrite rw [] = Inr m" "add_footprint_keys T ReadOnly ro m = Inr fp"
    using assms by (auto simp: build_storage_footprint_from_xdr_def try_sum_ok)
  from add_footprint_keys_ok [OF mm_invar_Nil m(1)] add_footprint_keys_ok [OF _ m(2)] show ?thesis
    by (auto simp: fun_eq_iff)
qed

text \<open>An entry in the initial storage is stored under its own key; a contract entry has a life time, and
  a life time reaches the current ledger.\<close>

definition entry_ok :: "('k, 'e) codec \<Rightarrow> ('k, 'e) xdr_types \<Rightarrow> u32 \<Rightarrow> 'k \<Rightarrow> 'e EntryWithLiveUntil option \<Rightarrow> bool" where
  "entry_ok C T n k slot \<longleftrightarrow>
     (case slot of
        None \<Rightarrow> True
      | Some (le, live) \<Rightarrow> k = key_of_entry C le \<and> supported_kind (entry_kind T le)
          \<and> (is_contract_kind (entry_kind T le) \<longrightarrow> live \<noteq> None) \<and> (\<forall>l. live = Some l \<longrightarrow> n \<le> l))"

definition map_ok :: "('k::linorder, 'e) codec \<Rightarrow> ('k, 'e) xdr_types \<Rightarrow> 'k FootprintMap \<Rightarrow> u32 \<Rightarrow> ('k, 'e) StorageMap \<Rightarrow> bool" where
  "map_ok C T fp n m \<longleftrightarrow> mm_invar m \<and> dom (map_of m) \<subseteq> dom (map_of fp) \<and> (\<forall>k slot. map_of m k = Some slot \<longrightarrow> entry_ok C T n k slot)"

lemma map_ok_insert:
  assumes "map_ok C T fp n m" and "mm_insert k slot m = Inr m'" and "k \<in> dom (map_of fp)" and "entry_ok C T n k slot"
  shows "map_ok C T fp n m'"
  using assms mm.lookup_update [of m k slot m'] mm.invar_update [of m k slot m'] by (auto simp: map_ok_def)

lemma add_entries_ok:
  "mm_invar fp \<Longrightarrow> map_ok C T fp n m \<Longrightarrow> mm_invar ttls \<Longrightarrow> add_entries C T fp n es m ttls = Inr (m', ttls') \<Longrightarrow> map_ok C T fp n m' \<and> mm_invar ttls'"
proof (induction es arbitrary: m ttls)
  case (Cons e es)
  obtain entry_buf ttl_buf where e: "e = (entry_buf, ttl_buf)"
    by fastforce
  from Cons.prems(4) obtain le key live t1 m1 where
    le: "ledger_entry_to_ledger_key C T le = Inr key"
    and ttl: "entry_live_until C T n le key ttl_buf ttls = Inr (live, t1)"
    and m1: "mm_contains_key key fp" "mm_insert key (Some (le, live)) m = Inr m1" "add_entries C T fp n es m1 t1 = Inr (m', ttls')"
    unfolding e add_entries.simps try_sum_ok by (auto simp: try_sum_ok split: if_splits)
  have "entry_ok C T n key (Some (le, live))"
    using le ttl by (auto simp: entry_ok_def entry_live_until_def ledger_entry_to_ledger_key_def try_sum_ok split: if_splits)
  then have "map_ok C T fp n m1"
    using map_ok_insert [OF Cons.prems(2) m1(2)] m1(1) mm_contains_key_lookup [OF Cons.prems(1)] by blast
  moreover have "mm_invar t1"
    using ttl Cons.prems(3) mm.invar_update by (fastforce simp: entry_live_until_def try_sum_ok split: if_splits)
  ultimately show ?case
    using Cons.IH Cons.prems(1) m1(3) by blast
qed simp

lemma add_missing_ok:
  "map_ok C T fp n m \<Longrightarrow> set ks \<subseteq> dom (map_of fp) \<Longrightarrow> add_missing ks m = Inr m' \<Longrightarrow>
     map_ok C T fp n m' \<and> set ks \<union> dom (map_of m) \<subseteq> dom (map_of m')"
proof (induction ks arbitrary: m)
  case (Cons k ks)
  have inv: "mm_invar m"
    using Cons.prems(1) by (simp add: map_ok_def)
  show ?case
  proof (cases "mm_contains_key k m")
    case True
    then have "k \<in> dom (map_of m)" "add_missing ks m = Inr m'"
      using Cons.prems(3) mm_contains_key_lookup [OF inv] by simp_all
    then show ?thesis
      using Cons.IH [OF Cons.prems(1)] Cons.prems(2) by auto
  next
    case False
    then obtain m1 where m1: "mm_insert k None m = Inr m1" "add_missing ks m1 = Inr m'"
      using Cons.prems(3) by (auto simp: try_sum_ok)
    have "map_ok C T fp n m1"
      using map_ok_insert [OF Cons.prems(1) m1(1)] Cons.prems(2) by (simp add: entry_ok_def)
    then show ?thesis
      using Cons.IH [OF _ _ m1(2)] Cons.prems(2) mm.lookup_update [OF inv m1(1)] by (auto simp: dom_fun_upd simp del: fun_upd_apply)
  qed
qed simp

lemma keys_dom: "dom (map_of m) = set (mm_keys m)"
  by (simp add: mm_keys_def dom_map_of_conv_image_fst)

lemma map_built:
  assumes "mm_invar fp" and "build_storage_map_from_xdr_ledger_entries C T fp es ts n = Inr (m, ttls)"
  shows "map_ok C T fp n m" and "dom (map_of m) = dom (map_of fp)" and "mm_invar ttls"
proof -
  obtain m1 where m1: "add_entries C T fp n (zip es ts) [] [] = Inr (m1, ttls)" "add_missing (mm_keys fp) m1 = Inr m"
    using assms(2) by (auto simp: build_storage_map_from_xdr_ledger_entries_def try_sum_ok split: if_splits)
  have "map_ok C T fp n m1" and ttls: "mm_invar ttls"
    using add_entries_ok [OF assms(1) _ mm_invar_Nil m1(1)] by (simp_all add: map_ok_def)
  from add_missing_ok [OF this(1) _ m1(2)] ttls
  show "map_ok C T fp n m" "dom (map_of m) = dom (map_of fp)" "mm_invar ttls"
    by (auto simp: keys_dom map_ok_def)
qed

lemma same_keys: "mm_invar m \<Longrightarrow> mm_invar n \<Longrightarrow> dom (map_of m) = dom (map_of n) \<Longrightarrow> mm_keys m = mm_keys n"
  by (simp add: keys_dom mm_invar_def windows_increasing_sorted strict_sorted_equal mm_keys_def)

section \<open>What the changes do to a ledger\<close>

text \<open>The ledger of an embedder: encoded entries under encoded keys, with the \<open>live_until\<close> ledger of those
  that have one.  A change of a read-only key only touches the \<open>live_until\<close> ledger of an existing entry; any
  other change puts or removes the entry.\<close>

type_synonym ledger = "bytes \<rightharpoonup> bytes \<times> u32 option"

definition apply_change :: "LedgerEntryChange \<Rightarrow> ledger \<Rightarrow> ledger" where
  "apply_change ch L =
     (if read_only ch then
        (case (L (encoded_key ch), ttl_change ch) of
           (Some (v, _), Some tc) \<Rightarrow> L(encoded_key ch \<mapsto> (v, Some (tc_new_live_until tc)))
         | _ \<Rightarrow> L)
      else L(encoded_key ch := map_option (\<lambda>v. (v, map_option tc_new_live_until (ttl_change ch))) (encoded_new_value ch)))"

text \<open>The specification: what the ledger has to hold for a key after the run, from the slot of the initial and the
  slot of the final storage.  A life time is never shortened.\<close>

definition live_before :: "'e EntryWithLiveUntil option \<Rightarrow> u32" where
  "live_before old = (case old of Some (_, Some l) \<Rightarrow> l | _ \<Rightarrow> 0)"

definition ledger_slot ::
  "('k, 'e) codec \<Rightarrow> ('k, 'e) xdr_types \<Rightarrow> 'k \<Rightarrow> 'e EntryWithLiveUntil option \<Rightarrow> 'e EntryWithLiveUntil option \<Rightarrow> (bytes \<times> u32 option) option" where
  "ledger_slot C T k old slot =
     map_option (\<lambda>(e, live). (projr (write_entry C e), map_option (\<lambda>_. max (the live) (live_before old)) (get_key_durability T k))) slot"

lemma entry_change_ok:
  assumes "entry_change C T fp snap ttls (k, slot) = Inr ch" and "snap k = Inr old" and "mm_invar fp"
  obtains enc tc where "write_key C k = Inr enc" and "encoded_key ch = enc" and "ttl_change ch = tc"
    and "map_of fp k = Some (if read_only ch then ReadOnly else ReadWrite)"
    and "(tc = None) = (get_key_durability T k = None)"
    and "\<And>t. tc = Some t \<Longrightarrow> (\<forall>e l. old = Some (e, l) \<longrightarrow> l \<noteq> None) \<and> tc_old_live_until t = live_before old"
    and "\<And>t e l. tc = Some t \<Longrightarrow> slot = Some (e, l) \<Longrightarrow> l \<noteq> None \<and> tc_new_live_until t = max (the l) (live_before old)"
    and "\<And>t. tc = Some t \<Longrightarrow> slot = None \<Longrightarrow> tc_new_live_until t = 0"
    and "encoded_new_value ch = (if read_only ch then None else map_option (\<lambda>(e, _). projr (write_entry C e)) slot)"
    and "\<And>e l. old = Some (e, l) \<Longrightarrow> \<exists>buf. write_entry C e = Inr buf \<and> old_entry_size_bytes ch = len_u32 buf"
    and "\<And>e l. slot = Some (e, l) \<Longrightarrow> \<not> read_only ch \<Longrightarrow> \<exists>buf. write_entry C e = Inr buf"
proof -
  from assms obtain enc tc0 old_size tc1 tc2 where
    e: "write_key C k = Inr enc" "initial_ttl_change C T ttls k enc = Inr tc0" "old_entry_change C old tc0 = Inr (old_size, tc1)"
      "new_entry_change slot tc1 = Inr tc2" "new_value_for_access C (map_of fp k) slot = Inr (read_only ch, encoded_new_value ch)"
    and c: "encoded_key ch = enc" "ttl_change ch = tc2" "old_entry_size_bytes ch = old_size"
    by (auto simp: entry_change_def try_sum_ok mm.get_lookup)
  have t0: "(tc0 = None) = (get_key_durability T k = None)" "\<And>t. tc0 = Some t \<Longrightarrow> tc_old_live_until t = 0 \<and> tc_new_live_until t = 0"
    using e(2) by (auto simp: initial_ttl_change_def try_sum_ok split: option.splits)
  have t1: "(tc1 = None) = (tc0 = None)"
      "\<And>t. tc1 = Some t \<Longrightarrow> (\<forall>e l. old = Some (e, l) \<longrightarrow> l \<noteq> None) \<and> tc_old_live_until t = live_before old \<and> tc_new_live_until t = 0"
      "\<And>e l. old = Some (e, l) \<Longrightarrow> \<exists>buf. write_entry C e = Inr buf \<and> old_size = len_u32 buf"
    using e(3) t0(2) by (auto simp: old_entry_change_def set_old_live_until_def live_before_def try_sum_ok split: option.splits prod.splits)
  have t2: "(tc2 = None) = (tc1 = None)" "\<And>t. tc2 = Some t \<Longrightarrow> tc_old_live_until t = live_before old"
      "\<And>t e l. tc2 = Some t \<Longrightarrow> slot = Some (e, l) \<Longrightarrow> l \<noteq> None \<and> tc_new_live_until t = max (the l) (live_before old)"
      "\<And>t. tc2 = Some t \<Longrightarrow> slot = None \<Longrightarrow> tc_new_live_until t = 0"
    using e(4) t1(2) by (auto simp: new_entry_change_def set_new_live_until_def split: option.splits prod.splits)
  have v: "map_of fp k = Some (if read_only ch then ReadOnly else ReadWrite)"
      "encoded_new_value ch = (if read_only ch then None else map_option (\<lambda>(e, _). projr (write_entry C e)) slot)"
      "\<And>e l. slot = Some (e, l) \<Longrightarrow> \<not> read_only ch \<Longrightarrow> \<exists>buf. write_entry C e = Inr buf"
    using e(5) by (auto simp: new_value_for_access_def try_sum_ok split: AccessType.splits option.splits prod.splits)
  show thesis
    by (rule that [OF e(1) c(1,2) v(1) _ _ _ _ v(2)]) (use t0 t1 t2 c(3) v(3) in auto)
qed

text \<open>One change brings the ledger to what the specification demands of its key.\<close>

lemma change_applies:
  assumes "entry_change C T fp snap ttls (k, slot) = Inr ch" and "snap k = Inr old" and "mm_invar fp"
    and "map_of fp k = Some ReadOnly \<Longrightarrow> slot_grows (Some old) (Some slot)"
    and "L (encoded_key ch) = ledger_slot C T k old old"
  shows "apply_change ch L = L(encoded_key ch := ledger_slot C T k old slot)"
  using assms(1-3)
proof (rule entry_change_ok)
  fix enc tc
  assume ch: "encoded_key ch = enc" "ttl_change ch = tc" "map_of fp k = Some (if read_only ch then ReadOnly else ReadWrite)"
    and tc: "(tc = None) = (get_key_durability T k = None)"
      "\<And>t e l. tc = Some t \<Longrightarrow> slot = Some (e, l) \<Longrightarrow> l \<noteq> None \<and> tc_new_live_until t = max (the l) (live_before old)"
    and new: "encoded_new_value ch = (if read_only ch then None else map_option (\<lambda>(e, _). projr (write_entry C e)) slot)"
  show ?thesis
  proof (cases "read_only ch")
    case True
    then have grows: "slot_grows (Some old) (Some slot)"
      using assms(4) ch(3) by simp
    show ?thesis
      using True grows assms(5) tc ch(1,2)
      by (cases slot; cases tc) (auto simp: apply_change_def ledger_slot_def slot_grows_def fun_upd_idem split: option.splits)
  next
    case False
    then show ?thesis
      using tc ch(1,2) new by (cases slot; cases tc) (auto simp: apply_change_def ledger_slot_def)
  qed
qed

definition keys_apart :: "('k, 'e) codec \<Rightarrow> bool" where
  "keys_apart C \<longleftrightarrow> (\<forall>k k' b. write_key C k = Inr b \<longrightarrow> write_key C k' = Inr b \<longrightarrow> k = k')"

text \<open>All changes together: each encoded key once, in the order of the storage, and nothing else.\<close>

lemma changes_apply:
  assumes "keys_apart C" and "mm_invar fp" and "\<And>k. snap k = Inr (old k)"
  shows "collect (entry_change C T fp snap ttls) ps = Inr chs \<Longrightarrow> distinct (map fst ps) \<Longrightarrow>
    (\<And>k slot. (k, slot) \<in> set ps \<Longrightarrow> map_of fp k = Some ReadOnly \<Longrightarrow> slot_grows (Some (old k)) (Some slot)) \<Longrightarrow>
    (\<And>k b. k \<in> fst ` set ps \<Longrightarrow> write_key C k = Inr b \<Longrightarrow> L b = ledger_slot C T k (old k) (old k)) \<Longrightarrow>
    collect (write_key C) (map fst ps) = Inr (map encoded_key chs)
    \<and> (\<forall>k slot b. (k, slot) \<in> set ps \<longrightarrow> write_key C k = Inr b \<longrightarrow> fold apply_change chs L b = ledger_slot C T k (old k) slot)
    \<and> (\<forall>b. b \<notin> set (map encoded_key chs) \<longrightarrow> fold apply_change chs L b = L b)"
proof (induction ps arbitrary: chs L)
  case (Cons p ps)
  obtain k slot where p: "p = (k, slot)"
    by fastforce
  obtain ch cs where ch: "entry_change C T fp snap ttls (k, slot) = Inr ch" "collect (entry_change C T fp snap ttls) ps = Inr cs"
      "chs = ch # cs"
    using Cons.prems(1) by (auto simp: p try_sum_ok)
  have k: "write_key C k = Inr (encoded_key ch)"
    using entry_change_ok [OF ch(1) assms(3,2)] by metis
  let ?L = "L(encoded_key ch := ledger_slot C T k (old k) slot)"
  have step: "apply_change ch L = ?L"
    using change_applies [OF ch(1) assms(3,2)] Cons.prems(3) Cons.prems(4) [of k] k by (simp add: p)
  have apart: "b \<noteq> encoded_key ch" if "k' \<in> fst ` set ps" "write_key C k' = Inr b" for k' b
    using that k assms(1) Cons.prems(2) by (auto simp: keys_apart_def p)
  have IH: "collect (write_key C) (map fst ps) = Inr (map encoded_key cs)
    \<and> (\<forall>k slot b. (k, slot) \<in> set ps \<longrightarrow> write_key C k = Inr b \<longrightarrow> fold apply_change cs ?L b = ledger_slot C T k (old k) slot)
    \<and> (\<forall>b. b \<notin> set (map encoded_key cs) \<longrightarrow> fold apply_change cs ?L b = ?L b)"
  proof (rule Cons.IH [OF ch(2)])
    show "distinct (map fst ps)"
      using Cons.prems(2) by simp
    show "slot_grows (Some (old k)) (Some slot)" if "(k, slot) \<in> set ps" "map_of fp k = Some ReadOnly" for k slot
      using that Cons.prems(3) by simp
    show "?L b = ledger_slot C T k (old k) (old k)" if "k \<in> fst ` set ps" "write_key C k = Inr b" for k b
      using that apart [OF that] Cons.prems(4) [of k b] by simp
  qed
  have "encoded_key ch \<notin> set (map encoded_key cs)"
  proof
    assume "encoded_key ch \<in> set (map encoded_key cs)"
    then obtain k' where "k' \<in> fst ` set ps" "write_key C k' = Inr (encoded_key ch)"
      using IH collect_set by (metis list.set_map)
    then show False
      using apart by blast
  qed
  then show ?case
    using IH k step ch(3) by (auto simp: p)
qed simp

lemma frame_storage:
  assumes "host_function_frame T li I (fresh_host st debug) = (Inr v, h)" and "enforcing st"
  defines "h2 \<equiv> run_acts T li (inv_acts I) ((fresh_host st debug)\<lparr>context_stack := [None]\<rparr>)"
  shows "tx_storage h = tx_storage h2" and "stays st (tx_storage h)"
proof -
  let ?h0 = "fresh_host st debug"
  have st: "context_stack h2 = [None]"
    using run_logs(2) [of "?h0\<lparr>context_stack := [None]\<rparr>" T li "inv_acts I"] by (simp add: h2_def logs_def)
  have "host_function_frame T li I ?h0 =
    (case frame_exit (inv_result I) of
       Inl e \<Rightarrow> (Inl e, rolled ?h0 h2)
     | Inr v \<Rightarrow> (case Inr () of Inl e \<Rightarrow> (Inl e, rolled ?h0 h2) | Inr _ \<Rightarrow> (Inr v, h2\<lparr>context_stack := context_stack ?h0\<rparr>)))"
    unfolding host_function_frame_def
    by (rule with_frame_run) (simp_all add: st h2_def [symmetric], simp_all add: fresh_host_def FRAME_DEPTH_LIMIT_def h2_def)
  then show eq: "tx_storage h = tx_storage h2"
    using assms(1) by (auto split: sum.splits)
  show "stays st (tx_storage h)"
    unfolding eq h2_def using run_stays(2) [of "?h0\<lparr>context_stack := [None]\<rparr>" T li "inv_acts I"] assms(2) by (simp add: fresh_host_def)
qed

section \<open>Properties\<close>

definition slot_in :: "('k, 'e) StorageMap \<Rightarrow> 'k \<Rightarrow> 'e EntryWithLiveUntil option" where
  "slot_in m k = (case map_of m k of Some slot \<Rightarrow> slot | None \<Rightarrow> None)"

text \<open>The storage the host function itself leaves, in its frame on a fresh host\<close>

definition storage_after ::
  "('k::linorder, 'e) xdr_types \<Rightarrow> ledger_info \<Rightarrow> ('k, 'e) invocation \<Rightarrow> 'k FootprintMap \<Rightarrow> ('k, 'e) StorageMap \<Rightarrow> ('k, 'e) StorageMap" where
  "storage_after T li I fp m =
     smap (tx_storage (run_acts T li (inv_acts I)
       ((fresh_host (with_enforcing_footprint_and_map fp m) (inv_diagnostics I))\<lparr>context_stack := [None]\<rparr>)))"

lemma snapshot_slot: "mm_invar m \<Longrightarrow> storage_map_snapshot m k = Inr (slot_in m k)"
  by (auto simp: storage_map_snapshot_def slot_in_def mm.get_lookup split: option.splits)

lemma slot_in_mem: "mm_invar m \<Longrightarrow> (k, slot) \<in> set m \<Longrightarrow> map_of m k = Some slot \<and> slot_in m k = slot"
  by (simp add: slot_in_def mm_invar_distinct)

text \<open>What a successful invocation went through\<close>

lemma invocation_ok:
  assumes "invoke_host_function X V depth C T ws we li I = Inr R" and "encoded_invoke_result R = Inr bs"
  obtains fp m ttls v h where "build_storage_footprint_from_xdr T (inv_read_only I) (inv_read_write I) = Inr fp"
    and "build_storage_map_from_xdr_ledger_entries C T fp (inv_entries I) (inv_ttls I) (sequence_number li) = Inr (m, ttls)"
    and "host_function_frame T li I (fresh_host (with_enforcing_footprint_and_map fp m) (inv_diagnostics I)) = (Inr v, h)"
    and "get_ledger_changes C T (tx_storage h) (storage_map_snapshot m) ttls = Inr (ledger_changes R)"
proof -
  from assms(1) obtain fp m ttls res h events where fp: "build_storage_footprint_from_xdr T (inv_read_only I) (inv_read_write I) = Inr fp"
    and m: "build_storage_map_from_xdr_ledger_entries C T fp (inv_entries I) (inv_ttls I) (sequence_number li) = Inr (m, ttls)"
    and h: "host_function_frame T li I (fresh_host (with_enforcing_footprint_and_map fp m) (inv_diagnostics I)) = (res, h)"
    and R: "(case try_sum (result_value X V depth (inv_objects I) res) ws of
             Inr bs \<Rightarrow>
               try_sum (get_ledger_changes C T (tx_storage h) (storage_map_snapshot m) ttls) (\<lambda>changes.
               try_sum (encode_contract_events we events) (\<lambda>evs.
               Inr \<lparr>encoded_invoke_result = Inr bs, ledger_changes = changes, encoded_contract_events = evs\<rparr>))
           | Inl e \<Rightarrow> Inr \<lparr>encoded_invoke_result = Inl e, ledger_changes = [], encoded_contract_events = []\<rparr>) = Inr R"
    unfolding invoke_host_function_def by (auto simp: try_sum_ok split: if_splits prod.splits simp del: sum.case_eq_if)
  from R assms(2) obtain bs' where "try_sum (result_value X V depth (inv_objects I) res) ws = Inr bs'"
    by (cases "try_sum (result_value X V depth (inv_objects I) res) ws") auto
  with R have "get_ledger_changes C T (tx_storage h) (storage_map_snapshot m) ttls = Inr (ledger_changes R)"
      and "\<exists>v. res = Inr v"
    by (auto simp: try_sum_ok result_value_def)
  with that fp m h show thesis
    by blast
qed

text \<open>The storage after a successful run holds exactly the keys of the footprint.\<close>

lemma final_storage:
  assumes fp: "mm_invar fp" and m: "mm_invar m" "dom (map_of m) = dom (map_of fp)"
    and h: "host_function_frame T li I (fresh_host (with_enforcing_footprint_and_map fp m) (inv_diagnostics I)) = (Inr v, h)"
  shows "storage_after T li I fp m = smap (tx_storage h)" and "footprint (tx_storage h) = fp" and "mm_invar (smap (tx_storage h))"
    and "mm_keys (smap (tx_storage h)) = mm_keys fp"
    and "(k, slot) \<in> set (smap (tx_storage h)) \<Longrightarrow> map_of fp k = Some ReadOnly \<Longrightarrow> slot_grows (Some (slot_in m k)) (Some slot)"
proof -
  let ?st = "with_enforcing_footprint_and_map fp m" and ?m' = "smap (tx_storage h)"
  have enf: "enforcing ?st"
    using fp m by (simp add: enforcing_def with_enforcing_footprint_and_map_def)
  show "storage_after T li I fp m = ?m'"
    using frame_storage(1) [OF h enf] by (simp add: storage_after_def)
  have stays: "stays ?st (tx_storage h)"
    using frame_storage(2) [OF h enf] .
  then show "footprint (tx_storage h) = fp" and m': "mm_invar ?m'"
    by (simp_all add: stays_def within_footprint_def enforcing_def with_enforcing_footprint_and_map_def)
  have slots: "map_of fp k = None \<Longrightarrow> map_of ?m' k = map_of m k"
      "map_of fp k = Some ReadOnly \<Longrightarrow> slot_grows (map_of m k) (map_of ?m' k)" for k
    using stays by (simp_all add: stays_def within_footprint_def with_enforcing_footprint_and_map_def)
  have "dom (map_of m) \<subseteq> dom (map_of ?m')"
    using stays by (simp add: stays_def with_enforcing_footprint_and_map_def)
  then have "dom (map_of ?m') = dom (map_of fp)"
    using m(2) slots(1) by (force simp: set_eq_iff)
  then show "mm_keys ?m' = mm_keys fp"
    using same_keys m' fp by blast
  assume ro: "(k, slot) \<in> set ?m'" "map_of fp k = Some ReadOnly"
  then obtain slot0 where "map_of m k = Some slot0"
    using m(2) by auto
  then show "slot_grows (Some (slot_in m k)) (Some slot)"
    using slots(2) [OF ro(2)] slot_in_mem [OF m' ro(1)] by (simp add: slot_in_def)
qed

text \<open>C12: the reported ledger changes are exactly the effect of the run.  If an invocation succeeds, the changes name
  each key of the declared footprint once, in key order; an embedder that applies them to a ledger
  that holds the initial entries gets, under every key of the footprint, the entry that the run left (with a life
  time never below the initial one), no entry where the run left none, and every entry outside
  the footprint as it was.  Read-only keys keep their entry although their change carries no value.\<close>

theorem ledger_changes_exact:
  assumes "keys_apart C"
    and "invoke_host_function X V depth C T ws we li I = Inr R" and "encoded_invoke_result R = Inr bs"
    and "build_storage_footprint_from_xdr T (inv_read_only I) (inv_read_write I) = Inr fp"
    and "build_storage_map_from_xdr_ledger_entries C T fp (inv_entries I) (inv_ttls I) (sequence_number li) = Inr (m, ttls)"
    and "\<forall>k\<in>set (mm_keys fp). \<forall>b. write_key C k = Inr b \<longrightarrow> L b = ledger_slot C T k (slot_in m k) (slot_in m k)"
  shows "collect (write_key C) (mm_keys fp) = Inr (map encoded_key (ledger_changes R))
    \<and> (\<forall>k\<in>set (mm_keys fp). \<forall>b. write_key C k = Inr b \<longrightarrow>
         fold apply_change (ledger_changes R) L b = ledger_slot C T k (slot_in m k) (slot_in (storage_after T li I fp m) k))
    \<and> (\<forall>b. b \<notin> set (map encoded_key (ledger_changes R)) \<longrightarrow> fold apply_change (ledger_changes R) L b = L b)"
proof -
  obtain v h where h: "host_function_frame T li I (fresh_host (with_enforcing_footprint_and_map fp m) (inv_diagnostics I)) = (Inr v, h)"
      "get_ledger_changes C T (tx_storage h) (storage_map_snapshot m) ttls = Inr (ledger_changes R)"
    by (rule invocation_ok [OF assms(2,3)]) (use assms(4,5) in auto)
  have fp: "mm_invar fp"
    using footprint_built [OF assms(4)] by blast
  have m: "mm_invar m" "dom (map_of m) = dom (map_of fp)"
    using map_built(1,2) [OF fp assms(5)] by (simp_all add: map_ok_def)
  note final = final_storage [OF fp m h(1)]
  let ?m' = "smap (tx_storage h)"
  have keys: "map fst ?m' = mm_keys fp"
    using final(4) by (simp add: mm_keys_def)
  have mem: "k \<in> fst ` set ?m' \<longleftrightarrow> k \<in> set (mm_keys fp)" for k
    by (simp flip: keys)
  have chs: "collect (entry_change C T fp (storage_map_snapshot m) ttls) ?m' = Inr (ledger_changes R)"
    using h(2) by (simp add: get_ledger_changes_def final(2))
  have all: "collect (write_key C) (map fst ?m') = Inr (map encoded_key (ledger_changes R))
    \<and> (\<forall>k slot b. (k, slot) \<in> set ?m' \<longrightarrow> write_key C k = Inr b \<longrightarrow>
         fold apply_change (ledger_changes R) L b = ledger_slot C T k (slot_in m k) slot)
    \<and> (\<forall>b. b \<notin> set (map encoded_key (ledger_changes R)) \<longrightarrow> fold apply_change (ledger_changes R) L b = L b)"
    by (rule changes_apply [OF assms(1) fp snapshot_slot [OF m(1)] chs mm_invar_distinct [OF final(3)]])
      (use final(5) assms(6) mem in auto)
  have "fold apply_change (ledger_changes R) L b = ledger_slot C T k (slot_in m k) (slot_in ?m' k)"
    if k: "k \<in> set (mm_keys fp)" "write_key C k = Inr b" for k b
  proof -
    obtain slot where "(k, slot) \<in> set ?m'"
      using k(1) by (auto simp flip: keys)
    then show ?thesis
      using all k(2) slot_in_mem [OF final(3)] by metis
  qed
  then show ?thesis
    using all keys final(1) by simp
qed

text \<open>A small invocation: key 1 may be read, keys 2 and 3 written.  The host function extends the entry of key 1,
  overwrites that of key 2 with a shorter life time and creates that of key 3; a call that fails in between
  had removed the entry of key 2.\<close>

definition sample_codec :: "(nat, nat) codec" where
  "sample_codec = \<lparr>write_key = (\<lambda>k. Inr [k]), write_entry = (\<lambda>e. Inr [e div 100, e mod 100]),
     read_entry = (\<lambda>b. Inr (b ! 0 * 100 + b ! 1)), read_ttl = (\<lambda>b. Inr \<lparr>ttl_key_hash = [0], live_until_ledger_seq = b ! 0\<rparr>),
     key_of_entry = (\<lambda>e. e div 100), sha256 = (\<lambda>_. [1])\<rparr>"

definition sample_invocation :: "(nat, nat) invocation" where
  "sample_invocation = \<lparr>inv_read_only = [1], inv_read_write = [3, 2], inv_entries = [[1, 7], [2, 5]], inv_ttls = [[100], [90]],
     inv_configured = Inr (), inv_seed = replicate 32 0, inv_diagnostics = False,
     inv_acts = [DoStore (CExtend 1 500 500), DoStore (CPut 2 209 (Some 80)), DoCall failing_call [DoStore (CDel 2)],
       DoStore (CPut 3 301 (Some 120))],
     inv_result = Inr (RetVal VoidVal), inv_objects = \<lparr>objects = [], cur_frame = None\<rparr>\<rparr>"

definition sample_ledger_map :: ledger where
  "sample_ledger_map = [[1] \<mapsto> ([1, 7], Some 100), [2] \<mapsto> ([2, 5], Some 90), [9] \<mapsto> ([9, 9], Some 60)]"

definition sample_changes :: "LedgerEntryChange list" where
  "sample_changes =
     [\<lparr>read_only = True, encoded_key = [1], old_entry_size_bytes = 2, encoded_new_value = None,
        ttl_change = Some \<lparr>tc_key_hash = [0], tc_durability = Persistent, tc_old_live_until = 100, tc_new_live_until = 550\<rparr>\<rparr>,
      \<lparr>read_only = False, encoded_key = [2], old_entry_size_bytes = 2, encoded_new_value = Some [2, 9],
        ttl_change = Some \<lparr>tc_key_hash = [0], tc_durability = Persistent, tc_old_live_until = 90, tc_new_live_until = 90\<rparr>\<rparr>,
      \<lparr>read_only = False, encoded_key = [3], old_entry_size_bytes = 0, encoded_new_value = Some [3, 1],
        ttl_change = Some \<lparr>tc_key_hash = [1], tc_durability = Persistent, tc_old_live_until = 0, tc_new_live_until = 120\<rparr>\<rparr>]"

definition sample_footprint :: "nat FootprintMap" where
  "sample_footprint = [(1, ReadOnly), (2, ReadWrite), (3, ReadWrite)]"

definition sample_storage :: "(nat, nat) StorageMap" where
  "sample_storage = [(1, Some (107, Some 100)), (2, Some (205, Some 90)), (3, None)]"

definition sample_ttls :: "nat TtlEntryMap" where
  "sample_ttls = [(1, \<lparr>ttl_key_hash = [0], live_until_ledger_seq = 100\<rparr>), (2, \<lparr>ttl_key_hash = [0], live_until_ledger_seq = 90\<rparr>)]"

lemma sample_built:
  "build_storage_footprint_from_xdr sample_types (inv_read_only sample_invocation) (inv_read_write sample_invocation) = Inr sample_footprint"
  "build_storage_map_from_xdr_ledger_entries sample_codec sample_types sample_footprint
     (inv_entries sample_invocation) (inv_ttls sample_invocation) (sequence_number sample_ledger) = Inr (sample_storage, sample_ttls)"
  by code_simp+

definition sample_end :: "(host_error + frame_value) \<times> (nat, nat) tx_host" where
  "sample_end = host_function_frame sample_types sample_ledger sample_invocation
     (fresh_host (with_enforcing_footprint_and_map sample_footprint sample_storage) False)"

lemma sample_run_end:
  "fst sample_end = Inr (RetVal VoidVal)"
  "tx_events (snd sample_end) = []"
  "get_ledger_changes sample_codec sample_types (tx_storage (snd sample_end)) (storage_map_snapshot sample_storage) sample_ttls = Inr sample_changes"
  by code_simp+

lemma sample_run_storage:
  "smap (tx_storage (snd sample_end)) = [(1, Some (107, Some 550)), (2, Some (209, Some 80)), (3, Some (301, Some 120))]"
  by code_simp

lemma sample_run_footprint: "footprint (tx_storage (snd sample_end)) = sample_footprint"
  by code_simp

lemma sample_invoked:
  "invoke_host_function plain_common plain_conversion (Suc 0) sample_codec sample_types (\<lambda>_. Inr [42]) (\<lambda>_. Inr []) sample_ledger sample_invocation
   = Inr \<lparr>encoded_invoke_result = Inr [42], ledger_changes = sample_changes, encoded_contract_events = []\<rparr>"
proof -
  have conf: "inv_configured sample_invocation = Inr ()" "length (inv_seed sample_invocation) = 32" "\<not> inv_diagnostics sample_invocation"
    by (simp_all add: sample_invocation_def)
  obtain h where h: "sample_end = (Inr (RetVal VoidVal), h)"
    using sample_run_end(1) by (metis prod.collapse)
  have "from_host_val plain_common plain_conversion (inv_objects sample_invocation) (Suc 0) VoidVal = Inr ScVoid"
    by (simp add: plain_conversion_def check_val_representable_scval_def)
  then have "result_value plain_common plain_conversion (Suc 0) (inv_objects sample_invocation) (Inr (RetVal VoidVal)) = Inr ScVoid"
    by (simp add: result_value_def)
  then show ?thesis
    using sample_run_end(2,3) unfolding invoke_host_function_def sample_built try_sum_simps prod.case conf
    by (simp add: conf sample_end_def [symmetric] h externalize_def encode_contract_events_def)
qed

lemma sample_after:
  "storage_after sample_types sample_ledger sample_invocation sample_footprint sample_storage
   = [(1, Some (107, Some 550)), (2, Some (209, Some 80)), (3, Some (301, Some 120))]"
  by code_simp

theorem ledger_changes_exact_witness:
  "fold apply_change sample_changes sample_ledger_map [1] = Some ([1, 7], Some 550)
    \<and> fold apply_change sample_changes sample_ledger_map [2] = Some ([2, 9], Some 90)
    \<and> fold apply_change sample_changes sample_ledger_map [3] = Some ([3, 1], Some 120)
    \<and> fold apply_change sample_changes sample_ledger_map [9] = Some ([9, 9], Some 60)"
proof -
  have init: "\<forall>k\<in>set (mm_keys sample_footprint). \<forall>b. write_key sample_codec k = Inr b \<longrightarrow>
      sample_ledger_map b = ledger_slot sample_codec sample_types k (slot_in sample_storage k) (slot_in sample_storage k)"
    by (auto simp: mm_keys_def sample_footprint_def sample_codec_def sample_ledger_map_def ledger_slot_def slot_in_def sample_storage_def
        get_key_durability_def sample_types_def live_before_def)
  have apart: "keys_apart sample_codec"
    by (simp add: keys_apart_def sample_codec_def)
  note effect = ledger_changes_exact [OF apart sample_invoked _ sample_built init, simplified]
  have keys: "1 \<in> set (mm_keys sample_footprint)" "2 \<in> set (mm_keys sample_footprint)" "3 \<in> set (mm_keys sample_footprint)"
      "write_key sample_codec k = Inr [k]" for k
    by (simp_all add: mm_keys_def sample_footprint_def sample_codec_def)
  have slots: "ledger_slot sample_codec sample_types 1 (slot_in sample_storage 1)
        (slot_in (storage_after sample_types sample_ledger sample_invocation sample_footprint sample_storage) 1) = Some ([1, 7], Some 550)"
      "ledger_slot sample_codec sample_types 2 (slot_in sample_storage 2)
        (slot_in (storage_after sample_types sample_ledger sample_invocation sample_footprint sample_storage) 2) = Some ([2, 9], Some 90)"
      "ledger_slot sample_codec sample_types 3 (slot_in sample_storage 3)
        (slot_in (storage_after sample_types sample_ledger sample_invocation sample_footprint sample_storage) 3) = Some ([3, 1], Some 120)"
    unfolding sample_after
    by (simp_all add: ledger_slot_def slot_in_def sample_storage_def sample_codec_def get_key_durability_def sample_types_def live_before_def)
  have "[9] \<notin> encoded_key ` set sample_changes" "sample_ledger_map [9] = Some ([9, 9], Some 60)"
    by (auto simp: sample_changes_def sample_ledger_map_def)
  then show ?thesis
    using effect keys slots by auto
qed

text \<open>Which rent changes the code extracts.  Along the storage, the change of an entry that is present never
  shortens its life time and that of a removed one reports zero; a rent change is extracted if and only if the key may be
  written, the entry is present, has a life time, and was extended or became larger.  The comments of
  \<open>e2e_invoke.rs\<close> say otherwise: that the new life time is never below the old one, and that only changes
  without an effect are skipped, which the extension of an entry that may only be read is not.\<close>

lemma rent_only_for_written:
  assumes "get_ledger_changes C T st snap ttls = Inr changes" and "mm_invar (footprint st)" and "\<And>k. \<exists>old. snap k = Inr old"
  shows "list_all2 (\<lambda>(k, slot) ch.
      (\<forall>tc. ttl_change ch = Some tc \<longrightarrow>
         (if slot = None then tc_new_live_until tc = 0 else tc_old_live_until tc \<le> tc_new_live_until tc))
      \<and> (rent_change ch \<noteq> None \<longleftrightarrow>
          map_of (footprint st) k = Some ReadWrite
          \<and> (\<exists>e l tc buf. slot = Some (e, l) \<and> write_entry C e = Inr buf \<and> ttl_change ch = Some tc
               \<and> (tc_old_live_until tc < tc_new_live_until tc \<or> old_entry_size_bytes ch < len_u32 buf))))
    (smap st) changes"
proof (rule collect_all2 [OF assms(1) [unfolded get_ledger_changes_def]], clarify)
  fix k slot ch
  assume ch: "entry_change C T (footprint st) snap ttls (k, slot) = Inr ch"
  obtain old where "snap k = Inr old"
    using assms(3) by blast
  with ch show "(\<forall>tc. ttl_change ch = Some tc \<longrightarrow>
         (if slot = None then tc_new_live_until tc = 0 else tc_old_live_until tc \<le> tc_new_live_until tc))
      \<and> (rent_change ch \<noteq> None \<longleftrightarrow>
          map_of (footprint st) k = Some ReadWrite
          \<and> (\<exists>e l tc buf. slot = Some (e, l) \<and> write_entry C e = Inr buf \<and> ttl_change ch = Some tc
               \<and> (tc_old_live_until tc < tc_new_live_until tc \<or> old_entry_size_bytes ch < len_u32 buf)))"
  proof (rule entry_change_ok [OF _ _ assms(2)])
    fix enc tc
    assume f: "ttl_change ch = tc" "map_of (footprint st) k = Some (if read_only ch then ReadOnly else ReadWrite)"
      "\<And>t. tc = Some t \<Longrightarrow> (\<forall>e l. old = Some (e, l) \<longrightarrow> l \<noteq> None) \<and> tc_old_live_until t = live_before old"
      "\<And>t e l. tc = Some t \<Longrightarrow> slot = Some (e, l) \<Longrightarrow> l \<noteq> None \<and> tc_new_live_until t = max (the l) (live_before old)"
      "\<And>t. tc = Some t \<Longrightarrow> slot = None \<Longrightarrow> tc_new_live_until t = 0"
      "encoded_new_value ch = (if read_only ch then None else map_option (\<lambda>(e, _). projr (write_entry C e)) slot)"
      "\<And>e l. slot = Some (e, l) \<Longrightarrow> \<not> read_only ch \<Longrightarrow> \<exists>buf. write_entry C e = Inr buf"
    have "\<forall>tc. ttl_change ch = Some tc \<longrightarrow>
         (if slot = None then tc_new_live_until tc = 0 else tc_old_live_until tc \<le> tc_new_live_until tc)"
      using f(1,3,4,5) by fastforce
    moreover have "rent_change ch \<noteq> None \<longleftrightarrow>
          map_of (footprint st) k = Some ReadWrite
          \<and> (\<exists>e l tc buf. slot = Some (e, l) \<and> write_entry C e = Inr buf \<and> ttl_change ch = Some tc
               \<and> (tc_old_live_until tc < tc_new_live_until tc \<or> old_entry_size_bytes ch < len_u32 buf))"
      using f(1,2,6,7) by (cases slot; cases tc) (auto simp: rent_change_def split: if_splits)
    ultimately show ?thesis
      by blast
  qed
qed

lemma rent_only_for_written_witness:
  "rent_change (sample_changes ! 0) = None \<and> rent_change (sample_changes ! 1) = None \<and> rent_change (sample_changes ! 2) \<noteq> None"
proof -
  have inv: "mm_invar sample_storage" "mm_invar (footprint (tx_storage (snd sample_end)))"
    unfolding sample_run_footprint by (simp_all add: mm_invar_def sample_storage_def sample_footprint_def U32_MAX_def)
  show ?thesis
    using rent_only_for_written [OF sample_run_end(3) inv(2)] snapshot_slot [OF inv(1)]
    unfolding sample_run_storage sample_run_footprint sample_changes_def
    by (simp add: sample_footprint_def sample_codec_def len_u32_def U32_MAX_def)
qed

end
