(* ===== verification/Contract_Creation.thy ===== *)
theory Contract_Creation
  imports Call_Frames Auth_Manager
begin

text \<open>
  Deployment, \<open>src/soroban-env-host-patch/src/host/lifecycle.rs\<close> and the instance and code
  entries of \<open>host/data_helper.rs\<close>: uploading code, creating a contract under the authorization
  of its deployer, initialising an asset contract, replacing the code of the running contract
  and writing its instance back.  A contract is named by the 32 bytes of its id and code by the
  hash it is stored under.  The ledger keys of XDR, SHA-256, the parser and the virtual machine
  are the fields of \<open>deployment\<close>; charges to the budget are left out, and an object the code
  allocates for its caller is the value it holds.
\<close>

section \<open>Data\<close>

record contract_instance =
  inst_executable :: executable
  inst_storage :: "(ScVal \<times> ScVal) list option"

text \<open>The values of contract data: an instance, or any other value.\<close>

datatype data_val = InstanceVal contract_instance | OtherVal ScVal

record ContractDataEntry =
  cde_contract :: bytes
  cde_key :: ScVal
  cde_durability :: durability
  cde_val :: data_val

record 'c ContractCodeEntry =
  cce_hash :: wasm_code
  cce_ext :: "'c option"
  cce_code :: bytes

datatype 'c LedgerEntryData =
  ContractData ContractDataEntry | ContractCode "'c ContractCodeEntry" | OtherData ledger_kind

datatype LedgerEntryExt = ExtV0 | ExtV1 "key32 option"

record 'c LedgerEntry =
  last_modified_ledger_seq :: u32
  le_data :: "'c LedgerEntryData"
  le_ext :: LedgerEntryExt

datatype 'c VersionedContractCodeCostInputs = CostV0 nat | CostV1 'c

record CreateContractArgs =
  cca_preimage :: contract_id_preimage
  cca_executable :: executable

text \<open>Code outside this component.  \<open>init_asset\<close> is the initialiser of the asset contract, which
  writes nothing but its instance storage (\<open>stellar_asset_contract/contract.rs\<close>): the storage it
  leaves; \<open>wasm_init\<close> is the function of that name of a Wasm contract.\<close>

record ('k, 'c) deployment =
  data_key :: "bytes \<Rightarrow> ScVal \<Rightarrow> durability \<Rightarrow> 'k"
  code_key :: "wasm_code \<Rightarrow> 'k"
  kind_of_key :: "'k \<Rightarrow> ledger_kind"
  sha256_hash :: "bytes \<Rightarrow> wasm_code"
  vm_new :: "wasm_code \<Rightarrow> bytes \<Rightarrow> host_error + unit"
  charge_for_parsing :: "bytes \<Rightarrow> host_error + unit"
  extract_cost_inputs :: "bytes \<Rightarrow> host_error + 'c"
  hash_id_preimage :: "bytes \<Rightarrow> contract_id_preimage \<Rightarrow> bytes"
  write_asset :: "asset \<Rightarrow> host_error + bytes"
  bytes_object :: "bytes \<Rightarrow> Val"
  update_event_objects :: "executable \<Rightarrow> executable \<Rightarrow> u32 \<times> u32 \<times> Val"
  init_asset :: "bytes \<Rightarrow> bytes \<Rightarrow> host_error + (ScVal \<times> ScVal) list"
  wasm_init :: "wasm_code \<Rightarrow> bytes \<Rightarrow> ('k, 'c LedgerEntry, frame_value) tx_op"

fun entry_kind_of :: "'c LedgerEntryData \<Rightarrow> ledger_kind" where
  "entry_kind_of (ContractData d) = LK_ContractData (cde_durability d)"
| "entry_kind_of (ContractCode _) = LK_ContractCode"
| "entry_kind_of (OtherData kind) = kind"

definition deploy_types :: "('k, 'c) deployment \<Rightarrow> ('k, 'c LedgerEntry) xdr_types" where
  "deploy_types K = \<lparr>key_kind = kind_of_key K, entry_kind = entry_kind_of \<circ> le_data\<rparr>"

section \<open>Instances and code in the storage\<close>

definition contract_instance_ledger_key :: "('k, 'c) deployment \<Rightarrow> bytes \<Rightarrow> 'k" where
  "contract_instance_ledger_key K contract_id = data_key K contract_id ScLedgerKeyContractInstance Persistent"

definition contract_code_ledger_key :: "('k, 'c) deployment \<Rightarrow> wasm_code \<Rightarrow> 'k" where
  "contract_code_ledger_key K wasm_hash = code_key K wasm_hash"

definition new_contract_data :: "ContractDataEntry \<Rightarrow> 'c LedgerEntry" where
  "new_contract_data d = \<lparr>last_modified_ledger_seq = 0, le_data = ContractData d, le_ext = ExtV0\<rparr>"

definition new_contract_code :: "'c ContractCodeEntry \<Rightarrow> 'c LedgerEntry" where
  "new_contract_code d = \<lparr>last_modified_ledger_seq = 0, le_data = ContractCode d, le_ext = ExtV0\<rparr>"

definition modify_ledger_entry_data :: "'c LedgerEntry \<Rightarrow> 'c LedgerEntryData \<Rightarrow> 'c LedgerEntry" where
  "modify_ledger_entry_data original new_data =
     \<lparr>last_modified_ledger_seq = 0, le_data = new_data, le_ext = le_ext original\<rparr>"

definition retrieve_contract_instance_from_storage ::
  "('k::linorder, 'c) deployment \<Rightarrow> 'k \<Rightarrow> ('k, 'c LedgerEntry, contract_instance) storage_op" where
  "retrieve_contract_instance_from_storage K key =
     then_op (storage_get (deploy_types K) key) (\<lambda>entry. lift_res (\<lambda>_.
       case le_data entry of
         ContractData e \<Rightarrow>
           (case cde_val e of
              InstanceVal inst \<Rightarrow> Inr inst
            | OtherVal _ \<Rightarrow> Inl (HostErr SCE_Storage InternalError))
       | _ \<Rightarrow> Inl (HostErr SCE_Storage InternalError)))"

definition retrieve_wasm_from_storage ::
  "('k::linorder, 'c) deployment \<Rightarrow> wasm_code \<Rightarrow>
   ('k, 'c LedgerEntry, bytes \<times> 'c VersionedContractCodeCostInputs) storage_op" where
  "retrieve_wasm_from_storage K wasm_hash =
     then_op (storage_get (deploy_types K) (contract_code_ledger_key K wasm_hash)) (\<lambda>entry. lift_res (\<lambda>_.
       case le_data entry of
         ContractCode e \<Rightarrow>
           Inr (cce_code e, case cce_ext e of None \<Rightarrow> CostV0 (length (cce_code e)) | Some v1 \<Rightarrow> CostV1 v1)
       | _ \<Rightarrow> Inl (HostErr SCE_Storage InternalError)))"

definition wasm_exists :: "('k::linorder, 'c) deployment \<Rightarrow> wasm_code \<Rightarrow> ('k, 'c LedgerEntry, bool) storage_op" where
  "wasm_exists K wasm_hash = storage_has (deploy_types K) (contract_code_ledger_key K wasm_hash)"

text \<open>The new parts of an instance replace the old ones; the entry keeps the rest.\<close>

definition update_instance ::
  "executable option \<Rightarrow> (ScVal \<times> ScVal) list option \<Rightarrow> 'c LedgerEntry \<Rightarrow> host_error + 'c LedgerEntry" where
  "update_instance executable instance_storage current =
     (case le_data current of
        ContractData entry \<Rightarrow>
          (case cde_val entry of
             InstanceVal inst \<Rightarrow>
               (let inst1 = (case executable of Some x \<Rightarrow> inst\<lparr>inst_executable := x\<rparr> | None \<Rightarrow> inst);
                    inst2 = (case instance_storage of
                       Some m \<Rightarrow> inst1\<lparr>inst_storage := Some m\<rparr> | None \<Rightarrow> inst1)
                in Inr (current\<lparr>le_data := ContractData (entry\<lparr>cde_val := InstanceVal inst2\<rparr>)\<rparr>))
           | OtherVal _ \<Rightarrow> Inl (HostErr SCE_Storage InternalError))
      | _ \<Rightarrow> Inl (HostErr SCE_Storage InternalError))"

definition store_contract_instance ::
  "('k::linorder, 'c) deployment \<Rightarrow> ledger_info \<Rightarrow> executable option \<Rightarrow> (ScVal \<times> ScVal) list option \<Rightarrow>
   bytes \<Rightarrow> 'k \<Rightarrow> ('k, 'c LedgerEntry, unit) storage_op" where
  "store_contract_instance K li executable instance_storage contract_id key =
     then_op (storage_has (deploy_types K) key) (\<lambda>present.
       if present then
         then_op (get_with_live_until_ledger (deploy_types K) key) (\<lambda>(current, live_until_ledger).
         then_op (lift_res (\<lambda>_. update_instance executable instance_storage current)) (\<lambda>updated.
           storage_put (deploy_types K) key updated live_until_ledger))
       else
         then_op (lift_res (\<lambda>_. case executable of
             None \<Rightarrow> Inl (HostErr SCE_Context InternalError) | Some x \<Rightarrow> Inr x)) (\<lambda>x.
         then_op (lift_res (\<lambda>_. get_min_live_until_ledger li Persistent)) (\<lambda>live.
           storage_put (deploy_types K) key
             (new_contract_data
                \<lparr>cde_contract = contract_id, cde_key = ScLedgerKeyContractInstance, cde_durability = Persistent,
                 cde_val = InstanceVal \<lparr>inst_executable = x, inst_storage = instance_storage\<rparr>\<rparr>)
             (Some live))))"

text \<open>\<open>updated\<close> is the instance storage of the frame if it was modified.\<close>

definition persist_instance_storage ::
  "('k::linorder, 'c) deployment \<Rightarrow> ledger_info \<Rightarrow> bytes \<Rightarrow> (ScVal \<times> ScVal) list option \<Rightarrow>
   ('k, 'c LedgerEntry, unit) storage_op" where
  "persist_instance_storage K li contract_id updated =
     (case updated of
        None \<Rightarrow> lift_res (\<lambda>_. Inr ())
      | Some m \<Rightarrow> store_contract_instance K li None (Some m) contract_id (contract_instance_ledger_key K contract_id))"

definition extend_contract_code_ttl_from_contract_id ::
  "('k::linorder, 'c) deployment \<Rightarrow> ledger_info \<Rightarrow> 'k \<Rightarrow> u32 \<Rightarrow> u32 \<Rightarrow> ('k, 'c LedgerEntry, unit) storage_op" where
  "extend_contract_code_ttl_from_contract_id K li instance_key threshold extend_to =
     then_op (retrieve_contract_instance_from_storage K instance_key) (\<lambda>inst.
       case inst_executable inst of
         Wasm wasm_hash \<Rightarrow>
           storage_extend_ttl (deploy_types K) li (contract_code_ledger_key K wasm_hash) threshold extend_to
       | StellarAsset \<Rightarrow> lift_res (\<lambda>_. Inr ()))"

section \<open>Creating a contract\<close>

definition create_contract_with_id ::
  "('k::linorder, 'c) deployment \<Rightarrow> ledger_info \<Rightarrow> bytes \<Rightarrow> executable \<Rightarrow> ('k, 'c LedgerEntry, unit) storage_op" where
  "create_contract_with_id K li contract_id contract_executable =
     (let storage_key = contract_instance_ledger_key K contract_id in
      then_op (storage_has (deploy_types K) storage_key) (\<lambda>present.
        if present then lift_res (\<lambda>_. Inl (HostErr SCE_Storage ExistingValue))
        else
          then_op (case contract_executable of
              Wasm wasm_hash \<Rightarrow>
                then_op (wasm_exists K wasm_hash) (\<lambda>found.
                  lift_res (\<lambda>_. if found then Inr () else Inl (HostErr SCE_Storage MissingValue)))
            | StellarAsset \<Rightarrow> lift_res (\<lambda>_. Inr ())) (\<lambda>_.
            store_contract_instance K li (Some contract_executable) None contract_id storage_key)))"

definition contract_id_hash :: "('k, 'c) deployment \<Rightarrow> ledger_info \<Rightarrow> contract_id_preimage \<Rightarrow> bytes" where
  "contract_id_hash K li preimage = hash_id_preimage K (network_id li) preimage"

definition get_contract_id_hash ::
  "('k, 'c) deployment \<Rightarrow> ledger_info \<Rightarrow> address \<Rightarrow> bytes \<Rightarrow> host_error + bytes" where
  "get_contract_id_hash K li deployer salt =
     try_sum (fixed_length_bytes_from_slice 32 salt) (\<lambda>s. Inr (contract_id_hash K li (PreimageAddress deployer s)))"

definition get_asset_contract_id_hash :: "('k, 'c) deployment \<Rightarrow> ledger_info \<Rightarrow> asset \<Rightarrow> bytes" where
  "get_asset_contract_id_hash K li a = contract_id_hash K li (PreimageAsset a)"

text \<open>The host with its authorization manager and the nonces that authorizations use up\<close>

record ('k, 'c) deploy_host =
  d_tx :: "('k, 'c LedgerEntry) tx_host"
  d_auth :: auth_manager
  d_nonces :: nonces

type_synonym ('k, 'c, 'a) deploy_op = "('k, 'c) deploy_host \<Rightarrow> (host_error + 'a) \<times> ('k, 'c) deploy_host"

definition on_storage :: "('k, 'e, 'a) storage_op \<Rightarrow> ('k, 'e, 'a) tx_op" where
  "on_storage f h = (case f (tx_storage h) of (r, s) \<Rightarrow> (r, h\<lparr>tx_storage := s\<rparr>))"

definition on_tx :: "('k, 'c LedgerEntry, 'a) tx_op \<Rightarrow> ('k, 'c, 'a) deploy_op" where
  "on_tx f d = (case f (d_tx d) of (r, h) \<Rightarrow> (r, d\<lparr>d_tx := h\<rparr>))"

definition seq_op :: "('s \<Rightarrow> (host_error + 'a) \<times> 's) \<Rightarrow> ('a \<Rightarrow> 's \<Rightarrow> (host_error + 'b) \<times> 's) \<Rightarrow> 's \<Rightarrow> (host_error + 'b) \<times> 's" where
  "seq_op f g s = (case f s of (Inl e, s') \<Rightarrow> (Inl e, s') | (Inr a, s') \<Rightarrow> g a s')"

text \<open>What a call reads before it runs the contract: the instance, and the code of a Wasm contract
  (\<open>call_contract_fn\<close>, without the cache of parsed modules).\<close>

definition load_contract :: "('k::linorder, 'c) deployment \<Rightarrow> bytes \<Rightarrow> ('k, 'c LedgerEntry, executable) storage_op" where
  "load_contract K contract_id =
     then_op (retrieve_contract_instance_from_storage K (contract_instance_ledger_key K contract_id)) (\<lambda>inst.
       case inst_executable inst of
         Wasm wasm_hash \<Rightarrow>
           then_op (retrieve_wasm_from_storage K wasm_hash) (\<lambda>_. lift_res (\<lambda>_. Inr (Wasm wasm_hash)))
       | StellarAsset \<Rightarrow> lift_res (\<lambda>_. Inr StellarAsset))"

text \<open>The symbol \<open>init_asset\<close> as bytes\<close>

definition init_asset_sym :: bytes where
  "init_asset_sym = [105, 110, 105, 116, 95, 97, 115, 115, 101, 116]"

definition run_init_asset ::
  "('k::linorder, 'c) deployment \<Rightarrow> bytes \<Rightarrow> bytes \<Rightarrow> ('k, 'c LedgerEntry, frame_value) tx_op" where
  "run_init_asset K contract_id asset_bytes =
     seq_op (on_storage (load_contract K contract_id)) (\<lambda>x h.
       case x of
         StellarAsset \<Rightarrow>
           (case init_asset K contract_id asset_bytes of Inl e \<Rightarrow> (Inl e, h) | Inr _ \<Rightarrow> (Inr (RetVal VoidVal), h))
       | Wasm w \<Rightarrow> wasm_init K w asset_bytes h)"

text \<open>The instance storage that \<open>init_asset\<close> leaves is written back when its frame ends.\<close>

definition persist_init_asset ::
  "('k::linorder, 'c) deployment \<Rightarrow> ledger_info \<Rightarrow> bytes \<Rightarrow> bytes \<Rightarrow> ('k, 'c LedgerEntry, unit) tx_op" where
  "persist_init_asset K li contract_id asset_bytes =
     seq_op (on_storage (load_contract K contract_id)) (\<lambda>x.
       case (x, init_asset K contract_id asset_bytes) of
         (StellarAsset, Inr m) \<Rightarrow> on_storage (persist_instance_storage K li contract_id (Some m))
       | _ \<Rightarrow> (\<lambda>h. (Inr (), h)))"

definition maybe_initialize_stellar_asset_contract ::
  "('k::linorder, 'c) deployment \<Rightarrow> ledger_info \<Rightarrow> bytes \<Rightarrow> contract_id_preimage \<Rightarrow> ('k, 'c LedgerEntry, unit) tx_op" where
  "maybe_initialize_stellar_asset_contract K li contract_id id_preimage h =
     (case id_preimage of
        PreimageAsset a \<Rightarrow>
          (case write_asset K a of
             Inl e \<Rightarrow> (Inl e, h)
           | Inr asset_bytes \<Rightarrow>
               seq_op (call_n_internal (seq_op (on_storage (load_contract K contract_id)) (\<lambda>_ h. (Inr (), h)))
                   (persist_init_asset K li contract_id asset_bytes) contract_id init_asset_sym [bytes_object K asset_bytes]
                   Prohibited False (run_init_asset K contract_id asset_bytes))
                 (\<lambda>_ h. (Inr (), h)) h)
      | PreimageAddress _ _ \<Rightarrow> (Inr (), h))"

definition require_deployer ::
  "externals \<Rightarrow> accounts \<Rightarrow> ledger_info \<Rightarrow> address option \<Rightarrow> ('k, 'c, unit) deploy_op" where
  "require_deployer X accs li deployer d =
     (case deployer of
        None \<Rightarrow> (Inr (), d)
      | Some a \<Rightarrow>
          (case am_require_auth X accs li a [] (d_auth d) (d_nonces d) of
             Inl e \<Rightarrow> (Inl e, d)
           | Inr (m, ns) \<Rightarrow> (Inr (), d\<lparr>d_auth := m, d_nonces := ns\<rparr>)))"

definition create_contract_with_optional_auth ::
  "('k::linorder, 'c) deployment \<Rightarrow> externals \<Rightarrow> accounts \<Rightarrow> ledger_info \<Rightarrow> address option \<Rightarrow> CreateContractArgs \<Rightarrow>
   ('k, 'c, bytes) deploy_op" where
  "create_contract_with_optional_auth K X accs li deployer args =
     seq_op (require_deployer X accs li deployer) (\<lambda>_.
       let hash_id = contract_id_hash K li (cca_preimage args) in
       seq_op (on_tx (on_storage (create_contract_with_id K li hash_id (cca_executable args)))) (\<lambda>_.
       seq_op (on_tx (maybe_initialize_stellar_asset_contract K li hash_id (cca_preimage args))) (\<lambda>_ d.
         (Inr hash_id, d))))"

definition create_contract_internal ::
  "('k::linorder, 'c) deployment \<Rightarrow> externals \<Rightarrow> accounts \<Rightarrow> ledger_info \<Rightarrow> address option \<Rightarrow> CreateContractArgs \<Rightarrow>
   ('k, 'c, bytes) deploy_op" where
  "create_contract_internal K X accs li deployer args d =
     (let has_deployer = (deployer \<noteq> None);
          pushed = (if has_deployer
             then d\<lparr>d_auth := am_push_frame (CreateContractFrame (cca_preimage args) (cca_executable args)) (d_auth d)\<rparr>
             else d)
      in case create_contract_with_optional_auth K X accs li deployer args pushed of
           (res, d') \<Rightarrow> (res, if has_deployer then d'\<lparr>d_auth := am_pop_frame (d_auth d')\<rparr> else d'))"

text \<open>The host functions; \<open>create_asset_contract\<close> has decoded its asset.\<close>

definition create_contract ::
  "('k::linorder, 'c) deployment \<Rightarrow> externals \<Rightarrow> accounts \<Rightarrow> ledger_info \<Rightarrow> address \<Rightarrow> wasm_code \<Rightarrow> bytes \<Rightarrow>
   ('k, 'c, bytes) deploy_op" where
  "create_contract K X accs li deployer wasm_hash salt d =
     (case fixed_length_bytes_from_slice 32 salt of
        Inl e \<Rightarrow> (Inl e, d)
      | Inr s \<Rightarrow> create_contract_internal K X accs li (Some deployer)
          \<lparr>cca_preimage = PreimageAddress deployer s, cca_executable = Wasm wasm_hash\<rparr> d)"

definition create_asset_contract ::
  "('k::linorder, 'c) deployment \<Rightarrow> externals \<Rightarrow> accounts \<Rightarrow> ledger_info \<Rightarrow> asset \<Rightarrow> ('k, 'c, bytes) deploy_op" where
  "create_asset_contract K X accs li a =
     create_contract_internal K X accs li None \<lparr>cca_preimage = PreimageAsset a, cca_executable = StellarAsset\<rparr>"

section \<open>Code\<close>

definition MIN_LEDGER_VERSION :: u32 where
  "MIN_LEDGER_VERSION = 21"

definition code_entry_ext :: "('k, 'c) deployment \<Rightarrow> ledger_info \<Rightarrow> bytes \<Rightarrow> host_error + 'c option" where
  "code_entry_ext K li wasm =
     (if protocol_version li \<ge> MIN_LEDGER_VERSION
      then try_sum (charge_for_parsing K wasm) (\<lambda>_.
           try_sum (extract_cost_inputs K wasm) (\<lambda>cost_inputs. Inr (Some cost_inputs)))
      else Inr None)"

definition should_put_contract ::
  "('k::linorder, 'c) deployment \<Rightarrow> ledger_info \<Rightarrow> 'k \<Rightarrow> 'c option \<Rightarrow> ('k, 'c LedgerEntry, bool) storage_op" where
  "should_put_contract K li key code_ext =
     then_op (storage_has (deploy_types K) key) (\<lambda>present.
       if present \<and> protocol_version li \<ge> MIN_LEDGER_VERSION then
         then_op (storage_get (deploy_types K) key) (\<lambda>entry. lift_res (\<lambda>_. Inr (
           case le_data entry of ContractCode e \<Rightarrow> cce_ext e \<noteq> code_ext | _ \<Rightarrow> False)))
       else lift_res (\<lambda>_. Inr (\<not> present)))"

definition upload_contract_wasm ::
  "('k::linorder, 'c) deployment \<Rightarrow> ledger_info \<Rightarrow> bytes \<Rightarrow> ('k, 'c LedgerEntry, wasm_code) storage_op" where
  "upload_contract_wasm K li wasm =
     (let hash = sha256_hash K wasm; code_key = contract_code_ledger_key K hash in
      then_op (lift_res (\<lambda>_. if length wasm > U32_MAX then Inl (HostErr SCE_Value ExceededLimit) else Inr ())) (\<lambda>_.
      then_op (lift_res (\<lambda>_. vm_new K hash wasm)) (\<lambda>_.
      then_op (lift_res (\<lambda>_. code_entry_ext K li wasm)) (\<lambda>code_ext.
      then_op (should_put_contract K li code_key code_ext) (\<lambda>put.
      then_op (if put
          then then_op (lift_res (\<lambda>_. get_min_live_until_ledger li Persistent)) (\<lambda>live.
                 storage_put (deploy_types K) code_key
                   (new_contract_code \<lparr>cce_hash = hash, cce_ext = code_ext, cce_code = wasm\<rparr>) (Some live))
          else lift_res (\<lambda>_. Inr ())) (\<lambda>_.
        lift_res (\<lambda>_. Inr hash)))))))"

definition get_current_contract_id_internal :: "('k, 'e) tx_host \<Rightarrow> host_error + bytes" where
  "get_current_contract_id_internal h =
     (case current_contract h of None \<Rightarrow> Inl (HostErr SCE_Context InternalError) | Some c \<Rightarrow> Inr c)"

definition emit_update_contract_event ::
  "('k, 'c) deployment \<Rightarrow> executable \<Rightarrow> executable \<Rightarrow> ('k, 'e) tx_host \<Rightarrow> (host_error + unit) \<times> ('k, 'e) tx_host" where
  "emit_update_contract_event K old_executable new_executable h =
     (case update_event_objects K old_executable new_executable of (contract_id, topics, data) \<Rightarrow>
        (Inr (), h\<lparr>tx_events := buffer_record (tx_debug h)
           (IE_Contract \<lparr>ice_type = SystemEvent, ice_contract_id = Some contract_id, ice_topics = topics, ice_data = data\<rparr>)
           (tx_events h)\<rparr>))"

definition update_current_contract_wasm ::
  "('k::linorder, 'c) deployment \<Rightarrow> ledger_info \<Rightarrow> wasm_code \<Rightarrow> ('k, 'c LedgerEntry, unit) tx_op" where
  "update_current_contract_wasm K li wasm_hash =
     seq_op (on_storage (wasm_exists K wasm_hash)) (\<lambda>found.
     if \<not> found then (\<lambda>h. (Inl (HostErr SCE_Storage MissingValue), h))
     else
       seq_op (\<lambda>h. (get_current_contract_id_internal h, h)) (\<lambda>curr_contract_id.
       let key = contract_instance_ledger_key K curr_contract_id; new_executable = Wasm wasm_hash in
       seq_op (on_storage (retrieve_contract_instance_from_storage K key)) (\<lambda>old_instance.
       seq_op (emit_update_contract_event K (inst_executable old_instance) new_executable) (\<lambda>_.
         on_storage (store_contract_instance K li (Some new_executable) None curr_contract_id key)))))"

section \<open>What the storage holds\<close>

definition stored :: "('k, 'e) Storage \<Rightarrow> 'k \<Rightarrow> 'e EntryWithLiveUntil option" where
  "stored s k = (case map_of (smap s) k of Some slot \<Rightarrow> slot | None \<Rightarrow> None)"

definition executable_at :: "('k, 'c) deployment \<Rightarrow> ('k, 'c LedgerEntry) Storage \<Rightarrow> bytes \<Rightarrow> executable option" where
  "executable_at K s contract_id =
     (case stored s (contract_instance_ledger_key K contract_id) of
        Some (entry, _) \<Rightarrow>
          (case le_data entry of
             ContractData d \<Rightarrow>
               (case cde_val d of InstanceVal inst \<Rightarrow> Some (inst_executable inst) | OtherVal _ \<Rightarrow> None)
           | _ \<Rightarrow> None)
      | None \<Rightarrow> None)"

definition instance_exists :: "('k, 'c) deployment \<Rightarrow> ('k, 'c LedgerEntry) Storage \<Rightarrow> bytes \<Rightarrow> bool" where
  "instance_exists K s contract_id \<longleftrightarrow> stored s (contract_instance_ledger_key K contract_id) \<noteq> None"

definition code_exists :: "('k, 'c) deployment \<Rightarrow> ('k, 'c LedgerEntry) Storage \<Rightarrow> wasm_code \<Rightarrow> bool" where
  "code_exists K s wasm_hash \<longleftrightarrow> stored s (contract_code_ledger_key K wasm_hash) \<noteq> None"

text \<open>Ledger keys of XDR are what their parts are, and know their kind.\<close>

definition ledger_keys_ok :: "('k, 'c) deployment \<Rightarrow> bool" where
  "ledger_keys_ok K \<longleftrightarrow>
     inj (contract_instance_ledger_key K) \<and> inj (contract_code_ledger_key K)
     \<and> (\<forall>c. kind_of_key K (contract_instance_ledger_key K c) = LK_ContractData Persistent)
     \<and> (\<forall>w. kind_of_key K (contract_code_ledger_key K w) = LK_ContractCode)"

lemma keys_differ:
  assumes "ledger_keys_ok K"
  shows "contract_instance_ledger_key K c \<noteq> contract_code_ledger_key K w"
    "contract_instance_ledger_key K c = contract_instance_ledger_key K c' \<longleftrightarrow> c = c'"
    "contract_code_ledger_key K w = contract_code_ledger_key K w' \<longleftrightarrow> w = w'"
  using assms unfolding ledger_keys_ok_def by (metis ledger_kind.distinct injD)+

subsection \<open>Operations of the storage\<close>

lemma has_stored:
  assumes "enforcing s" and "storage_has T k s = (Inr b, t)"
  shows "t = s" "b \<longleftrightarrow> stored s k \<noteq> None"
  using assms read_enforcing(3) [OF assms(1), of T k] prepare_enforcing(1) [OF assms(1), of k]
  by (auto simp: storage_has_def then_op_cases lift_res_def enforcing_def mm.get_lookup stored_def
      split: sum.splits option.splits)

lemma get_live_stored:
  assumes "enforcing s" and "get_with_live_until_ledger T k s = (Inr x, t)"
  shows "t = s" "stored s k = Some x"
  using assms read_enforcing(4) [OF assms(1), of T k] try_get_full_enforcing [OF assms(1), of T k]
  by (fastforce simp: get_with_live_until_ledger_def then_op_cases lift_res_def stored_def
      split: sum.splits option.splits)+

lemma get_stored:
  assumes "enforcing s" and "storage_get T k s = (Inr e, t)"
  shows "t = s" "\<exists>l. stored s k = Some (e, l)"
  using assms read_enforcing(1) [OF assms(1), of T k] try_get_full_enforcing [OF assms(1), of T k]
  by (fastforce simp: storage_get_def then_op_cases lift_res_def stored_def
      split: sum.splits option.splits prod.splits)+

lemma put_stored:
  assumes s: "enforcing s"
  shows "case storage_put T k v l s of
      (Inl e, t) \<Rightarrow> t = s
    | (Inr _, t) \<Rightarrow> enforcing t \<and> stored t = (stored s)(k \<mapsto> (v, l))"
proof -
  have "case insert_smap k (Some (v, l)) s of
      (Inl e, t) \<Rightarrow> t = s
    | (Inr _, t) \<Rightarrow> enforcing t \<and> stored t = (stored s)(k \<mapsto> (v, l))"
  proof (cases "mm_insert k (Some (v, l)) (smap s)")
    case (Inr m)
    have inv: "mm_invar (smap s)"
      using s by (simp add: enforcing_def)
    show ?thesis
      using s Inr mm.lookup_update [OF inv Inr] mm.invar_update [OF inv Inr]
      by (auto simp: insert_smap_def enforcing_def stored_def fun_eq_iff)
  qed (simp add: insert_smap_def)
  then show ?thesis
    using access_enforcing(1) [OF s, of k ReadWrite] s
    by (cases "access_footprint k ReadWrite s")
      (auto simp: storage_put_def put_opt_def then_op_cases lift_res_def split: sum.splits prod.splits)
qed

text \<open>A write of an instance fails and leaves the storage, or writes the entry of the contract.\<close>

lemma store_stored:
  assumes s: "enforcing s"
  shows "case store_contract_instance K li x m c k s of
      (Inl e, t) \<Rightarrow> t = s
    | (Inr _, t) \<Rightarrow> enforcing t \<and> (\<exists>entry l. stored t = (stored s)(k \<mapsto> (entry, l))
        \<and> (case stored s k of
             Some (old, live) \<Rightarrow> update_instance x m old = Inr entry \<and> l = live
           | None \<Rightarrow> \<exists>y. x = Some y \<and> entry = new_contract_data
               \<lparr>cde_contract = c, cde_key = ScLedgerKeyContractInstance, cde_durability = Persistent,
                cde_val = InstanceVal \<lparr>inst_executable = y, inst_storage = m\<rparr>\<rparr>))"
proof (cases "storage_has (deploy_types K) k s")
  case (Pair r t)
  show ?thesis
  proof (cases r)
    case (Inl e)
    then show ?thesis
      using Pair read_enforcing(3) [OF s, of "deploy_types K" k] by (simp add: store_contract_instance_def then_op_def)
  next
    case (Inr present)
    have has: "t = s" "present \<longleftrightarrow> stored s k \<noteq> None"
      using has_stored [OF s] Pair Inr by blast+
    show ?thesis
    proof (cases present)
      case True
      obtain r2 t2 where get: "get_with_live_until_ledger (deploy_types K) k s = (r2, t2)"
        by fastforce
      show ?thesis
        using Pair Inr True has get get_live_stored [OF s] read_enforcing(4) [OF s, of "deploy_types K" k]
          put_stored [OF s, where T = "deploy_types K" and k = k]
        by (cases r2; fastforce simp: store_contract_instance_def then_op_def lift_res_def split: sum.splits prod.splits)
    next
      case False
      then show ?thesis
        using Pair Inr has put_stored [OF s, where T = "deploy_types K" and k = k]
        by (fastforce simp: store_contract_instance_def then_op_def lift_res_def split: option.splits sum.splits prod.splits)
    qed
  qed
qed

subsection \<open>Deployment never loses a contract or its code\<close>

text \<open>From one storage to a later one: no contract and no code disappears, and an executable that
  a contract has not had before is code the ledger holds.\<close>

definition deploys :: "('k::linorder, 'c) deployment \<Rightarrow> ('k, 'c LedgerEntry) Storage \<Rightarrow> ('k, 'c LedgerEntry) Storage \<Rightarrow> bool" where
  "deploys K s t \<longleftrightarrow> enforcing t
     \<and> (\<forall>c. instance_exists K s c \<longrightarrow> instance_exists K t c)
     \<and> (\<forall>w. code_exists K s w \<longrightarrow> code_exists K t w)
     \<and> (\<forall>c w. executable_at K t c = Some (Wasm w) \<longrightarrow> executable_at K s c = Some (Wasm w) \<or> code_exists K t w)"

lemma deploys_refl: "enforcing s \<Longrightarrow> deploys K s s"
  by (simp add: deploys_def)

lemma deploys_trans: "deploys K s t \<Longrightarrow> deploys K t u \<Longrightarrow> deploys K s u"
  unfolding deploys_def by blast

lemma deploys_enforcing: "deploys K s t \<Longrightarrow> enforcing t"
  by (simp add: deploys_def)

lemma store_deploys:
  assumes "ledger_keys_ok K" and s: "enforcing s" and new: "\<And>w. x = Some (Wasm w) \<Longrightarrow> code_exists K s w"
    and t: "store_contract_instance K li x m c (contract_instance_ledger_key K c) s = (r, t)"
  shows "deploys K s t"
proof (cases r)
  case (Inr u)
  note keys = keys_differ [OF assms(1)]
  obtain entry l where put: "enforcing t" "stored t = (stored s)(contract_instance_ledger_key K c \<mapsto> (entry, l))"
      and old: "case stored s (contract_instance_ledger_key K c) of
             Some (old, live) \<Rightarrow> update_instance x m old = Inr entry \<and> l = live
           | None \<Rightarrow> \<exists>y. x = Some y \<and> entry = new_contract_data
               \<lparr>cde_contract = c, cde_key = ScLedgerKeyContractInstance, cde_durability = Persistent,
                cde_val = InstanceVal \<lparr>inst_executable = y, inst_storage = m\<rparr>\<rparr>"
    using store_stored [OF s, where K = K and li = li and x = x and m = m and c = c and k = "contract_instance_ledger_key K c"] t Inr by auto
  have "executable_at K t c = (case x of Some y \<Rightarrow> Some y | None \<Rightarrow> executable_at K s c)"
    using put(2) old
    by (auto simp: executable_at_def update_instance_def new_contract_data_def Let_def
        split: option.splits LedgerEntryData.splits data_val.splits prod.splits)
  moreover have "executable_at K t c' = executable_at K s c'" if "c' \<noteq> c" for c'
    using put(2) keys(2) that by (simp add: executable_at_def)
  ultimately have "executable_at K t c' = (if c' = c \<and> x \<noteq> None then x else executable_at K s c')" for c'
    by (cases "c' = c") (auto split: option.splits)
  moreover have "code_exists K t w = code_exists K s w" for w
    using put(2) keys(1) [symmetric] by (simp add: code_exists_def)
  moreover have "instance_exists K s c' \<Longrightarrow> instance_exists K t c'" for c'
    using put(2) by (simp add: instance_exists_def)
  ultimately show ?thesis
    using put(1) new by (auto simp: deploys_def)
next
  case (Inl e)
  then show ?thesis
    using store_stored [OF s, where K = K and li = li and x = x and m = m and c = c and k = "contract_instance_ledger_key K c"] t deploys_refl [OF s] by simp
qed

lemma create_with_id_cases:
  assumes s: "enforcing s" and r: "create_contract_with_id K li c x s = (r, t)"
  shows "(\<exists>e. r = Inl e) \<and> t = s
    \<or> \<not> instance_exists K s c \<and> (\<forall>w. x = Wasm w \<longrightarrow> code_exists K s w)
        \<and> store_contract_instance K li (Some x) None c (contract_instance_ledger_key K c) s = (r, t)"
proof -
  have read: "snd (storage_has T k s) = s" for T k
    by (rule read_enforcing(3) [OF s])
  have code: "fst (wasm_exists K w s) = Inr True \<Longrightarrow> code_exists K s w" "snd (wasm_exists K w s) = s" for w
    using has_stored(2) [OF s, where T = "deploy_types K" and k = "contract_code_ledger_key K w" and b = True] read
    by (fastforce simp: wasm_exists_def code_exists_def prod_eq_iff)+
  have inst: "fst (storage_has (deploy_types K) (contract_instance_ledger_key K c) s) = Inr False \<Longrightarrow> \<not> instance_exists K s c"
    using has_stored(2) [OF s, where T = "deploy_types K" and k = "contract_instance_ledger_key K c" and b = False] read
    by (fastforce simp: instance_exists_def prod_eq_iff)
  show ?thesis
    using r code inst read
    by (auto simp: create_contract_with_id_def then_op_cases lift_res_def Let_def split: sum.splits if_splits executable.splits)
qed

lemma create_with_id_deploys:
  assumes "ledger_keys_ok K" and "enforcing s" and "create_contract_with_id K li c x s = (r, t)"
  shows "deploys K s t"
  using create_with_id_cases [OF assms(2,3)]
proof (elim disjE conjE)
  assume code: "\<forall>w. x = Wasm w \<longrightarrow> code_exists K s w"
    and t: "store_contract_instance K li (Some x) None c (contract_instance_ledger_key K c) s = (r, t)"
  show ?thesis
    by (rule store_deploys [OF assms(1,2) _ t]) (use code in auto)
qed (use deploys_refl [OF assms(2)] in simp)

lemma create_with_id_done:
  assumes s: "enforcing s" and r: "create_contract_with_id K li c x s = (Inr u, t)"
  shows "\<not> instance_exists K s c" "instance_exists K t c" "executable_at K t c = Some x"
proof -
  have c: "\<not> instance_exists K s c" "store_contract_instance K li (Some x) None c (contract_instance_ledger_key K c) s = (Inr u, t)"
    using create_with_id_cases [OF s r] by auto
  show "\<not> instance_exists K s c"
    by (rule c)
  show "instance_exists K t c" "executable_at K t c = Some x"
    using store_stored [OF s, where K = K and li = li and x = "Some x" and m = None and c = c
        and k = "contract_instance_ledger_key K c"] c
    by (auto simp: instance_exists_def executable_at_def new_contract_data_def split: option.splits)
qed

lemma upload_deploys:
  assumes keys: "ledger_keys_ok K" and s: "enforcing s" and r: "upload_contract_wasm K li wasm s = (r, t)"
  shows "deploys K s t"
proof -
  have put: "deploys K s u" if "storage_put (deploy_types K) (contract_code_ledger_key K w) e l s = (q, u)" for w e l q u
  proof (cases q)
    case (Inr v)
    then have "enforcing u" "stored u = (stored s)(contract_code_ledger_key K w \<mapsto> (e, l))"
      using put_stored [OF s, where T = "deploy_types K" and k = "contract_code_ledger_key K w" and v = e and l = l] that
      by simp_all
    then show ?thesis
      using keys_differ [OF keys] by (simp add: deploys_def instance_exists_def code_exists_def executable_at_def)
  next
    case (Inl v)
    then show ?thesis
      using put_stored [OF s, where T = "deploy_types K" and k = "contract_code_ledger_key K w" and v = e and l = l] that
        deploys_refl [OF s] by simp
  qed
  have "snd (should_put_contract K li k ex s) = s" for k ex
    using read_enforcing(1,3) [OF s] by (simp add: should_put_contract_def then_op_cases lift_res_def split: sum.split)
  then show ?thesis
    using r put deploys_refl [OF s]
    by (auto simp: upload_contract_wasm_def Let_def then_op_cases lift_res_def prod_eq_iff split: sum.splits if_splits)
qed

subsection \<open>Initialising an asset contract\<close>

lemma load_reads:
  assumes "enforcing s"
  shows "snd (load_contract K c s) = s" "fst (load_contract K c s) = Inr x \<Longrightarrow> executable_at K s c = Some x"
proof -
  have read: "snd (storage_get (deploy_types K) k s) = s" for k
    by (rule read_enforcing(1) [OF assms])
  have "\<exists>l. stored s k = Some (e, l)" if "fst (storage_get (deploy_types K) k s) = Inr e" for k e
    using get_stored(2) [OF assms, where T = "deploy_types K" and k = k] that by (metis prod.collapse)
  note get = this
  show "snd (load_contract K c s) = s"
    using read
    by (simp add: load_contract_def retrieve_contract_instance_from_storage_def retrieve_wasm_from_storage_def
        then_op_cases lift_res_def split: sum.split executable.split)
  assume "fst (load_contract K c s) = Inr x"
  then obtain e where "fst (storage_get (deploy_types K) (contract_instance_ledger_key K c) s) = Inr e"
      and "case le_data e of
         ContractData d \<Rightarrow> (case cde_val d of InstanceVal inst \<Rightarrow> inst_executable inst = x | OtherVal _ \<Rightarrow> False)
       | _ \<Rightarrow> False"
    using read
    by (auto simp: load_contract_def retrieve_contract_instance_from_storage_def retrieve_wasm_from_storage_def
        then_op_cases lift_res_def split: sum.splits executable.splits LedgerEntryData.splits data_val.splits)
  then show "executable_at K s c = Some x"
    using get by (fastforce simp: executable_at_def split: LedgerEntryData.splits data_val.splits)
qed

lemma load_on_storage:
  assumes "enforcing (tx_storage h)"
  shows "on_storage (load_contract K c) h = (fst (load_contract K c (tx_storage h)), h)"
  using load_reads(1) [OF assms, of K c] by (cases "load_contract K c (tx_storage h)") (simp add: on_storage_def)

text \<open>The call of \<open>init_asset\<close> leaves the storage alone or writes the instance storage of the contract.\<close>

lemma init_storage:
  assumes s: "enforcing (tx_storage h)" and x: "executable_at K (tx_storage h) c = Some StellarAsset"
    and r: "maybe_initialize_stellar_asset_contract K li c p h = (r, h')"
  shows "tx_storage h' = tx_storage h
    \<or> (\<exists>m. tx_storage h' = snd (store_contract_instance K li None (Some m) c (contract_instance_ledger_key K c) (tx_storage h)))"
proof -
  let ?store = "\<lambda>m. store_contract_instance K li None (Some m) c (contract_instance_ledger_key K c) (tx_storage h)"
  have load: "fst (load_contract K c (tx_storage h)) \<in> {Inr StellarAsset} \<union> range Inl"
    using load_reads(2) [OF s, of K c] x by (cases "fst (load_contract K c (tx_storage h))") auto
  have store_failed: "snd (?store m) = tx_storage h" if "fst (?store m) = Inl e" for m e
    using store_stored [OF s, where K = K and li = li and x = None and m = "Some m" and c = c
        and k = "contract_instance_ledger_key K c"] that by (auto split: prod.splits)
  have frame: "tx_storage (snd (with_frame (persist_init_asset K li c bs) (Some c) (run_init_asset K c bs) g)) = tx_storage h
      \<or> (\<exists>m. tx_storage (snd (with_frame (persist_init_asset K li c bs) (Some c) (run_init_asset K c bs) g)) = snd (?store m))"
    if g: "tx_storage g = tx_storage h" for bs g
  proof (cases "length (context_stack g) < FRAME_DEPTH_LIMIT")
    case True
    let ?g = "g\<lparr>context_stack := Some c # context_stack g\<rparr>"
    have "snd (run_init_asset K c bs ?g) = ?g"
      using load load_on_storage [of ?g K c] s g
      by (auto simp: run_init_asset_def seq_op_def split: sum.split)
    then have body: "run_init_asset K c bs ?g = (fst (run_init_asset K c bs ?g), ?g)"
      by (metis prod.collapse)
    obtain q g3 where persist: "persist_init_asset K li c bs ?g = (q, g3)"
      by fastforce
    have run: "persist_init_asset K li c bs ?g =
        (case (fst (load_contract K c (tx_storage h)), init_asset K c bs) of
           (Inr _, Inr m) \<Rightarrow> (fst (?store m), ?g\<lparr>tx_storage := snd (?store m)\<rparr>)
         | (Inl e, _) \<Rightarrow> (Inl e, ?g)
         | (Inr _, Inl _) \<Rightarrow> (Inr (), ?g))"
      using load load_on_storage [of ?g K c] s g
      by (auto simp: persist_init_asset_def persist_instance_storage_def seq_op_def on_storage_def[of "store_contract_instance K li None (Some m) c k" for m k]
          split: sum.split prod.split)
    have p3: "context_stack g3 = context_stack ?g" "tx_storage g3 = tx_storage h \<or> (\<exists>m. tx_storage g3 = snd (?store m))"
      using persist g unfolding run by (auto split: sum.splits)
    have failed: "tx_storage g3 = tx_storage h" if "q = Inl e" for e
      using persist g that store_failed unfolding run by (auto split: sum.splits)
    show ?thesis
      using with_frame_run [where h = g and f = "run_init_asset K c bs" and frame = "Some c" and persist = "persist_init_asset K li c bs",
          OF True body _ persist p3(1)] p3(2) failed g by (auto simp: rolled_def split: sum.split)
  qed (simp add: with_frame_deep that)
  show ?thesis
  proof (cases p)
    case (PreimageAsset a)
    show ?thesis
    proof (cases "write_asset K a")
      case (Inr bs)
      let ?g = "fn_call_diagnostics c init_asset_sym [bytes_object K bs] h"
      obtain q g' where run: "with_frame (persist_init_asset K li c bs) (Some c) (run_init_asset K c bs) ?g = (q, g')"
        by fastforce
      have "tx_storage h' = tx_storage h \<or> tx_storage h' = tx_storage g'"
        using r PreimageAsset Inr run load load_on_storage [of ?g K c] s
        by (cases q) (auto simp: maybe_initialize_stellar_asset_contract_def seq_op_def call_n_internal_def call_contract_fn_def
            split: if_splits)
      then show ?thesis
        using frame [of ?g bs] run by auto
    qed (use r PreimageAsset in \<open>simp add: maybe_initialize_stellar_asset_contract_def\<close>)
  qed (use r in \<open>simp add: maybe_initialize_stellar_asset_contract_def\<close>)
qed

lemma init_deploys:
  assumes "ledger_keys_ok K" and "enforcing (tx_storage h)" and "executable_at K (tx_storage h) c = Some StellarAsset \<or> (\<exists>a z. p = PreimageAddress a z)"
    and "maybe_initialize_stellar_asset_contract K li c p h = (r, h')"
  shows "deploys K (tx_storage h) (tx_storage h')"
proof (cases "\<exists>a z. p = PreimageAddress a z")
  case True
  then show ?thesis
    using assms(2,4) deploys_refl by (auto simp: maybe_initialize_stellar_asset_contract_def)
next
  case False
  then show ?thesis
    using init_storage [OF assms(2) _ assms(4)] assms(3) deploys_refl [OF assms(2), of K]
      store_deploys [OF assms(1,2), where x = None and li = li and c = c] by (metis option.distinct(1) prod.collapse)
qed

subsection \<open>Runs of deployments\<close>

text \<open>What deployment can do: the host functions, the write of an instance at the end of a frame,
  and \<open>update_current_contract_wasm\<close> in the frame of a contract.\<close>

datatype deploy_call =
  CreateContract address wasm_code bytes | CreateAssetContract asset | UploadWasm bytes
| UpdateWasm bytes wasm_code | PersistInstance bytes "(ScVal \<times> ScVal) list option"
| InvokeCreateContract CreateContractArgs

text \<open>The deployer that \<open>HostFunction::CreateContract\<close> takes from its arguments.\<close>

fun preimage_deployer :: "contract_id_preimage \<Rightarrow> address option" where
  "preimage_deployer (PreimageAddress a _) = Some a"
| "preimage_deployer (PreimageAsset _) = None"

definition in_contract :: "bytes \<Rightarrow> ('k, 'e, 'a) tx_op \<Rightarrow> ('k, 'e, 'a) tx_op" where
  "in_contract c f h =
     (case f (h\<lparr>context_stack := Some c # context_stack h\<rparr>) of (r, h') \<Rightarrow> (r, h'\<lparr>context_stack := context_stack h\<rparr>))"

fun run_deploy ::
  "('k::linorder, 'c) deployment \<Rightarrow> externals \<Rightarrow> accounts \<Rightarrow> ledger_info \<Rightarrow> deploy_call \<Rightarrow> ('k, 'c) deploy_host \<Rightarrow> ('k, 'c) deploy_host" where
  "run_deploy K X accs li (CreateContract deployer w salt) d = snd (create_contract K X accs li deployer w salt d)"
| "run_deploy K X accs li (CreateAssetContract a) d = snd (create_asset_contract K X accs li a d)"
| "run_deploy K X accs li (UploadWasm wasm) d = snd (on_tx (on_storage (upload_contract_wasm K li wasm)) d)"
| "run_deploy K X accs li (UpdateWasm c w) d = snd (on_tx (in_contract c (update_current_contract_wasm K li w)) d)"
| "run_deploy K X accs li (PersistInstance c m) d = snd (on_tx (on_storage (persist_instance_storage K li c m)) d)"
| "run_deploy K X accs li (InvokeCreateContract args) d =
     snd (create_contract_internal K X accs li (preimage_deployer (cca_preimage args)) args d)"

fun run_deploys ::
  "('k::linorder, 'c) deployment \<Rightarrow> externals \<Rightarrow> accounts \<Rightarrow> ledger_info \<Rightarrow> deploy_call list \<Rightarrow> ('k, 'c) deploy_host \<Rightarrow> ('k, 'c) deploy_host" where
  "run_deploys K X accs li [] d = d"
| "run_deploys K X accs li (c # cs) d = run_deploys K X accs li cs (run_deploy K X accs li c d)"

definition d_storage :: "('k, 'c) deploy_host \<Rightarrow> ('k, 'c LedgerEntry) Storage" where
  "d_storage d = tx_storage (d_tx d)"

text \<open>\<open>HostFunction::CreateContract\<close> takes any pair of a preimage and an executable.  With the preimage of
  an asset and Wasm code, that code's own \<open>init_asset\<close> is run, of which nothing is known; the
  other pairs are proper.\<close>

definition proper :: "CreateContractArgs \<Rightarrow> bool" where
  "proper args \<longleftrightarrow> (case cca_preimage args of PreimageAddress _ _ \<Rightarrow> True | PreimageAsset _ \<Rightarrow> cca_executable args = StellarAsset)"

fun proper_call :: "deploy_call \<Rightarrow> bool" where
  "proper_call (InvokeCreateContract args) = proper args"
| "proper_call _ = True"

text \<open>A creation reaches its storage phase with the storage it started from.\<close>

lemma create_internal_storage:
  assumes "ledger_keys_ok K" and s: "enforcing (d_storage d)" and p: "proper args"
    and r: "create_contract_internal K X accs li deployer args d = (r, d')"
  shows "deploys K (d_storage d) (d_storage d')"
    and "r = Inr c \<Longrightarrow> c = contract_id_hash K li (cca_preimage args) \<and> \<not> instance_exists K (d_storage d) c
      \<and> instance_exists K (d_storage d') c"
proof -
  let ?c = "contract_id_hash K li (cca_preimage args)"
  let ?x = "cca_executable args"
  obtain q t where with_id: "create_contract_with_id K li ?c ?x (d_storage d) = (q, t)"
    by fastforce
  note created = create_with_id_deploys [OF assms(1) s with_id]
  let ?h = "(d_tx d)\<lparr>tx_storage := t\<rparr>"
  obtain r' h' where init: "maybe_initialize_stellar_asset_contract K li ?c (cca_preimage args) ?h = (r', h')"
    by fastforce
  have step: "(\<exists>e. r = Inl e) \<and> d_storage d' \<in> {d_storage d, t}
      \<or> q = Inr () \<and> d_storage d' = tx_storage h' \<and> r = (case r' of Inl e \<Rightarrow> Inl e | Inr _ \<Rightarrow> Inr ?c)"
    using r with_id init
    by (auto simp: create_contract_internal_def create_contract_with_optional_auth_def require_deployer_def d_storage_def
        seq_op_def on_tx_def on_storage_def Let_def split: prod.splits sum.splits option.splits if_splits)
  have later: "deploys K t (tx_storage h')" if "q = Inr ()"
    using init_deploys [OF assms(1) _ _ init] that created create_with_id_done(3) [OF s] with_id p
    by (auto simp: proper_def deploys_def split: contract_id_preimage.splits)
  show "deploys K (d_storage d) (d_storage d')"
    using step created deploys_refl [OF s] deploys_trans [OF created later] by auto
  assume "r = Inr c"
  then show "c = contract_id_hash K li (cca_preimage args) \<and> \<not> instance_exists K (d_storage d) c \<and> instance_exists K (d_storage d') c"
    using step create_with_id_done(1,2) [OF s] with_id later by (auto simp: deploys_def split: sum.splits)
qed

lemma update_deploys:
  assumes keys: "ledger_keys_ok K" and s: "enforcing (tx_storage h)" and r: "update_current_contract_wasm K li w h = (r, h')"
  shows "deploys K (tx_storage h) (tx_storage h')"
proof -
  obtain q t where ex: "wasm_exists K w (tx_storage h) = (q, t)"
    by fastforce
  have t: "t = tx_storage h"
    using read_enforcing(3) [OF s] ex by (metis wasm_exists_def snd_conv)
  have code: "code_exists K (tx_storage h) w" if "q = Inr True"
    using has_stored(2) [OF s] ex that by (simp add: wasm_exists_def code_exists_def)
  have inst: "snd (retrieve_contract_instance_from_storage K k (tx_storage h)) = tx_storage h" for k
    using read_enforcing(1) [OF s] by (simp add: retrieve_contract_instance_from_storage_def then_op_cases lift_res_def split: sum.split)
  have "tx_storage h' = tx_storage h
    \<or> q = Inr True \<and> (\<exists>c. tx_storage h' =
        snd (store_contract_instance K li (Some (Wasm w)) None c (contract_instance_ledger_key K c) (tx_storage h)))"
  proof (cases "current_contract h")
    case (Some c)
    have "tx_storage h' = tx_storage h
      \<or> q = Inr True \<and> tx_storage h' =
        snd (store_contract_instance K li (Some (Wasm w)) None c (contract_instance_ledger_key K c) (tx_storage h))"
      using r ex t inst [of "contract_instance_ledger_key K c"] Some
      by (auto simp: update_current_contract_wasm_def seq_op_def on_storage_def get_current_contract_id_internal_def
          emit_update_contract_event_def Let_def split: prod.splits sum.splits if_splits)
    then show ?thesis
      by blast
  qed (use r ex t in \<open>auto simp: update_current_contract_wasm_def seq_op_def on_storage_def get_current_contract_id_internal_def
        split: sum.splits if_splits\<close>)
  then show ?thesis
    using deploys_refl [OF s] store_deploys [OF keys s, where x = "Some (Wasm w)"] code by (metis option.inject executable.inject prod.collapse)
qed

lemma run_deploy_deploys:
  assumes keys: "ledger_keys_ok K" and s: "enforcing (d_storage d)" and "proper_call c"
  shows "deploys K (d_storage d) (d_storage (run_deploy K X accs li c d))"
proof (cases c)
  case (CreateContract deployer w salt)
  then show ?thesis
    using create_internal_storage(1) [OF keys s, where args = "\<lparr>cca_preimage = PreimageAddress deployer salt, cca_executable = Wasm w\<rparr>"]
      deploys_refl [OF s]
    by (auto simp: create_contract_def fixed_length_bytes_from_slice_def proper_def split: sum.split)
      (metis prod.collapse)
next
  case (CreateAssetContract a)
  then show ?thesis
    using create_internal_storage(1) [OF keys s, where args = "\<lparr>cca_preimage = PreimageAsset a, cca_executable = StellarAsset\<rparr>"]
    by (simp add: create_asset_contract_def proper_def) (metis prod.collapse)
next
  case (UploadWasm wasm)
  then show ?thesis
    using upload_deploys [OF keys s] by (auto simp: d_storage_def on_tx_def on_storage_def split: prod.splits)
next
  case (UpdateWasm cid w)
  then show ?thesis
    using update_deploys [OF keys, where h = "(d_tx d)\<lparr>context_stack := Some cid # context_stack (d_tx d)\<rparr>"] s
    by (auto simp: d_storage_def on_tx_def in_contract_def split: prod.splits)
next
  case (PersistInstance cid m)
  then show ?thesis
    using store_deploys [OF keys s, where x = None and li = li and c = cid] deploys_refl [OF s]
    by (auto simp: d_storage_def on_tx_def on_storage_def persist_instance_storage_def lift_res_def split: prod.splits option.splits)
next
  case (InvokeCreateContract args)
  then show ?thesis
    using create_internal_storage(1) [OF keys s] assms(3) by simp (metis prod.collapse)
qed

lemma run_deploys_deploys:
  "ledger_keys_ok K \<Longrightarrow> enforcing (d_storage d) \<Longrightarrow> list_all proper_call cs \<Longrightarrow>
     deploys K (d_storage d) (d_storage (run_deploys K X accs li cs d))"
proof (induction cs arbitrary: d)
  case (Cons c cs)
  have c: "proper_call c" "list_all proper_call cs"
    using Cons.prems(3) by simp_all
  note one = run_deploy_deploys [OF Cons.prems(1,2) c(1)]
  show ?case
    using deploys_trans [OF one Cons.IH [OF Cons.prems(1) deploys_enforcing [OF one] c(2)]] by simp
qed (simp add: deploys_refl)

section \<open>Properties\<close>

text \<open>C15: a contract that deployment leaves can be run: whatever is created, uploaded, replaced
  and written back (no creation in the host function's general form pairs the id of an asset with Wasm code), an
  executable that a contract did not have at the start is Wasm code the
  storage holds at the end, and neither a contract nor code is ever lost on the way.\<close>

theorem deployed_code_exists:
  assumes "ledger_keys_ok K" and "fp_mode (d_storage d) = Enforcing" and "mm_invar (footprint (d_storage d))"
    and "mm_invar (smap (d_storage d))" and "list_all proper_call cs" and "t = d_storage (run_deploys K X accs li cs d)"
  shows "(\<forall>c w. executable_at K t c = Some (Wasm w) \<longrightarrow> executable_at K (d_storage d) c = Some (Wasm w) \<or> code_exists K t w)
    \<and> (\<forall>c. instance_exists K (d_storage d) c \<longrightarrow> instance_exists K t c)
    \<and> (\<forall>w. code_exists K (d_storage d) w \<longrightarrow> code_exists K t w)"
  using run_deploys_deploys [OF assms(1), of d cs X accs li] assms(2-6) by (auto simp: enforcing_def deploys_def)

text \<open>C16: a contract id is given away once: a creation that succeeds found no contract under its
  id, leaves one there, and after any further deployments no creation under the same id succeeds,
  whoever asks and with whatever authorization (an id derived from an asset belongs to the asset contract).\<close>

theorem contract_created_once:
  assumes "ledger_keys_ok K" and "fp_mode (d_storage d) = Enforcing" and "mm_invar (footprint (d_storage d))"
    and "mm_invar (smap (d_storage d))" and "proper args"
    and "create_contract_internal K X accs li deployer args d = (Inr c, d')"
    and "proper args'" and "contract_id_hash K li (cca_preimage args') = c" and "list_all proper_call cs"
  shows "\<not> instance_exists K (d_storage d) c \<and> instance_exists K (d_storage d') c
    \<and> (\<exists>e. fst (create_contract_internal K X' accs' li deployer' args' (run_deploys K X'' accs'' li cs d')) = Inl e)"
proof -
  let ?d = "run_deploys K X'' accs'' li cs d'"
  have s: "enforcing (d_storage d)"
    using assms(2-4) by (simp add: enforcing_def)
  note first = create_internal_storage [OF assms(1) s assms(5,6)]
  have later: "deploys K (d_storage d') (d_storage ?d)"
    by (rule run_deploys_deploys [OF assms(1) deploys_enforcing [OF first(1)] assms(9)])
  then have "instance_exists K (d_storage ?d) c"
    using first(2) [of c] unfolding deploys_def by blast
  then have "fst (create_contract_internal K X' accs' li deployer' args' ?d) \<noteq> Inr c'" for c'
    using create_internal_storage(2) [OF assms(1) deploys_enforcing [OF later] assms(7)] assms(8) by (metis prod.collapse)
  then show ?thesis
    using first(2) by (cases "fst (create_contract_internal K X' accs' li deployer' args' ?d)") auto
qed

subsection \<open>A deployment\<close>

fun code_number :: "wasm_code \<Rightarrow> nat list" where
  "code_number CampaignEscrow = [1, 0]"
| "code_number ContributorPool = [1, 1]"
| "code_number ReputationAnchor = [1, 2]"
| "code_number (OtherWasm h) = [1, 3, h]"

definition sample_deployment :: "(nat list, nat) deployment" where
  "sample_deployment =
     \<lparr>data_key = (\<lambda>c _ _. 0 # c), code_key = code_number,
      kind_of_key = (\<lambda>k. if hd k = 0 then LK_ContractData Persistent else LK_ContractCode),
      sha256_hash = (\<lambda>bs. OtherWasm (sum_list bs)), vm_new = (\<lambda>_ _. Inr ()), charge_for_parsing = (\<lambda>_. Inr ()),
      extract_cost_inputs = (\<lambda>bs. Inr (length bs)),
      hash_id_preimage = (\<lambda>_ p. case p of PreimageAsset _ \<Rightarrow> [5] | PreimageAddress _ salt \<Rightarrow> 6 # salt),
      write_asset = (\<lambda>_. Inr [9]), bytes_object = (\<lambda>_. VoidVal), update_event_objects = (\<lambda>_ _. (1, 3, VoidVal)),
      init_asset = (\<lambda>_ _. Inr [(ScVoid, ScBool True)]), wasm_init = (\<lambda>_ _ h. (Inr (RetVal VoidVal), h))\<rparr>"

definition sample_deploy_host :: "(nat list, nat) deploy_host" where
  "sample_deploy_host =
     \<lparr>d_tx = \<lparr>tx_storage = \<lparr>footprint = [([0, 5], ReadWrite), ([1, 3, 7], ReadWrite)], fp_mode = Enforcing,
                smap = [([0, 5], None), ([1, 3, 7], None)]\<rparr>,
             tx_events = [], context_stack = [None], tx_debug = False\<rparr>,
      d_auth = \<lparr>account_trackers = [], invoker_contract_trackers = [], call_stack = []\<rparr>, d_nonces = (\<lambda>_. None)\<rparr>"

definition sample_asset_args :: CreateContractArgs where
  "sample_asset_args = \<lparr>cca_preimage = PreimageAsset Native, cca_executable = StellarAsset\<rparr>"

definition sample_externals :: externals where
  "sample_externals =
     \<lparr>x_verify_sig = (\<lambda>_ _ _. False), x_payload_hash = (\<lambda>_ _ _ _. 0), x_check_auth = (\<lambda>_ _ _ _. False),
      x_contract_id = (\<lambda>_. 0), x_strkey = (\<lambda>_. [])\<rparr>"

lemma sample_keys_ok: "ledger_keys_ok sample_deployment"
proof -
  have "inj code_number"
  proof (rule injI)
    fix v w assume "code_number v = code_number w"
    then show "v = w"
      by (cases v; cases w) simp_all
  qed
  moreover have "hd (code_number w) = 1" for w
    by (cases w) simp_all
  ultimately show ?thesis
    by (simp add: ledger_keys_ok_def sample_deployment_def contract_instance_ledger_key_def contract_code_ledger_key_def inj_def)
qed

definition sample_created :: "(host_error + bytes) \<times> (nat list, nat) deploy_host" where
  "sample_created =
     create_contract_internal sample_deployment sample_externals Map.empty sample_ledger None sample_asset_args sample_deploy_host"

lemma sample_created_run: "fst sample_created = Inr [5]"
  by code_simp

lemma sample_enforcing:
  "fp_mode (d_storage sample_deploy_host) = Enforcing" "mm_invar (footprint (d_storage sample_deploy_host))"
  "mm_invar (smap (d_storage sample_deploy_host))"
  by (simp_all add: d_storage_def sample_deploy_host_def mm_invar_def U32_MAX_def)

theorem contract_created_once_witness:
  "\<exists>e. fst (create_contract_internal sample_deployment sample_externals Map.empty sample_ledger None sample_asset_args
     (run_deploys sample_deployment sample_externals Map.empty sample_ledger [UploadWasm [3, 4]] (snd sample_created))) = Inl e"
proof -
  have "create_contract_internal sample_deployment sample_externals Map.empty sample_ledger None sample_asset_args sample_deploy_host
      = (Inr [5], snd sample_created)"
    using sample_created_run by (simp add: sample_created_def prod_eq_iff)
  moreover have "proper sample_asset_args" "contract_id_hash sample_deployment sample_ledger (cca_preimage sample_asset_args) = [5]"
    by code_simp+
  ultimately show ?thesis
    using contract_created_once [OF sample_keys_ok sample_enforcing, of sample_asset_args sample_externals Map.empty sample_ledger None "[5]"
        "snd sample_created" sample_asset_args "[UploadWasm [3, 4]]"] by simp
qed

text \<open>Code is uploaded, an asset contract created, and its executable replaced by that code.\<close>

definition sample_deploys :: "deploy_call list" where
  "sample_deploys = [UploadWasm [3, 4], InvokeCreateContract sample_asset_args, UpdateWasm [5] (OtherWasm 7)]"

definition sample_deployed :: "(nat list, nat LedgerEntry) Storage" where
  "sample_deployed = d_storage (run_deploys sample_deployment sample_externals Map.empty sample_ledger sample_deploys sample_deploy_host)"

lemma sample_deployed_run:
  "executable_at sample_deployment sample_deployed [5] = Some (Wasm (OtherWasm 7))"
  "executable_at sample_deployment (d_storage sample_deploy_host) [5] = None"
  by code_simp+

theorem deployed_code_exists_witness:
  "executable_at sample_deployment sample_deployed [5] = Some (Wasm (OtherWasm 7))
    \<and> code_exists sample_deployment sample_deployed (OtherWasm 7)"
proof -
  have "list_all proper_call sample_deploys"
    by code_simp
  from deployed_code_exists [OF sample_keys_ok sample_enforcing this sample_deployed_def] sample_deployed_run show ?thesis
    by (metis option.distinct(1))
qed

end
