(* ===== verification/Guest_Properties.thy ===== *)
theory Guest_Properties
  imports Value_Order
begin

text \<open>
  What a contract can do to the objects of the host.  \<open>Guest_Isolation\<close> proves it from the laws of the
  locale \<open>common_laws\<close>; here these laws are discharged for the host's own comparison and integrity check
  (\<open>obj_cmp\<close> and \<open>check_obj_integrity\<close> of \<open>host.rs\<close>, \<open>host/comparison.rs\<close>, as modelled in \<open>Value_Order\<close> and
  \<open>Host_Objects\<close>).  What remains assumed, the locale \<open>env_laws\<close>, concerns only \<open>soroban-env-common\<close>.
\<close>

section \<open>The host's comparison and integrity check\<close>

text \<open>\<open>Env::check_val_integrity\<close> checks the representation of a value (\<open>check_small\<close>) and gives objects to
  \<open>check_obj_integrity\<close>; \<open>Env\<close> compares values with the help of \<open>obj_cmp\<close>.\<close>

definition host_common :: "value_order \<Rightarrow> (Val \<Rightarrow> host_error + unit) \<Rightarrow> nat \<Rightarrow> common \<Rightarrow> common" where
  "host_common Q check_small depth X =
     X\<lparr>check_val_integrity := (\<lambda>os v.
          try_sum (check_small v) (\<lambda>_. case v of
            ObjVal tag h \<Rightarrow> check_obj_integrity tag h \<lparr>objects = os, cur_frame = None\<rparr>
          | _ \<Rightarrow> Inr ())),
       compare_val := (\<lambda>os. val_compare Q \<lparr>objects = os, cur_frame = None\<rparr> depth)\<rparr>"

definition any_internal :: "host_error \<Rightarrow> bool" where
  "any_internal e \<longleftrightarrow> (\<exists>t. e = HostErr t InternalError)"

text \<open>Two results are the same and no internal error.\<close>

definition same :: "host_error + 'a \<Rightarrow> host_error + 'a \<Rightarrow> bool" where
  "same r r' \<longleftrightarrow> r = r' \<and> (\<forall>e. r = Inl e \<longrightarrow> \<not> any_internal e)"

lemma same_Inr [simp]: "same (Inr a) (Inr a)"
  by (simp add: same_def)

lemma same_then: "same r r' \<Longrightarrow> same q q' \<Longrightarrow> same (then_cmp r q) (then_cmp r' q')"
  by (cases r) (auto simp: same_def then_cmp_def split: if_splits)

lemma same_lex: "(\<And>x y. x \<in> set xs \<Longrightarrow> y \<in> set ys \<Longrightarrow> same (c x y) (c' x y)) \<Longrightarrow> same (lex_cmp c xs ys) (lex_cmp c' xs ys)"
  by (induction xs ys rule: list_induct2') (auto intro: same_then)

lemma same_ord [simp]: "same (ord_cmp a b) (ord_cmp a b)"
  by (simp add: ord_cmp_def)

lemma same_bytes [simp]: "same (bytes_cmp a b) (bytes_cmp a b)"
  unfolding bytes_cmp_def by (rule same_lex) simp

lemma same_address [simp]: "same (address_cmp a b) (address_cmp a b)"
  by (cases a; cases b) simp_all

text \<open>What is relied on of \<open>soroban-env-common\<close>: vectors and maps are compared lexicographically, the comparison
  of two values uses \<open>obj_cmp\<close> on these two only and adds no internal error, a value that is no object
  but has the type of one is the small form of that type, and no error of its own is an internal one.\<close>

locale env_laws =
  fixes Q :: value_order and check_small :: "Val \<Rightarrow> host_error + unit" and X :: common
  assumes vals_lex: "cmp_vals Q = lex_cmp" "cmp_val_pairs Q c = lex_cmp (pair_cmp c c)"
    and env_cmp_local: "f a b = g a b \<Longrightarrow> env_cmp Q f a b = env_cmp Q g a b"
    and env_cmp_error: "env_cmp Q f a b = Inl e \<Longrightarrow> f a b = Inl e \<or> \<not> any_internal e"
    and small_types: "\<not> is_obj v \<Longrightarrow> val_type Q v = val_type Q (ObjVal (tag_of ho) h) \<Longrightarrow> small_like Q ho v \<noteq> None"
    and check_small_error: "check_small v = Inl e \<Longrightarrow> \<not> any_internal e"
    and own_errors: "\<not> any_internal (conversion_error X)" "\<not> any_internal (xdr_error X)" "\<not> any_internal (memory_error X)"
begin

lemma same_env: "same (f a b) (g a b) \<Longrightarrow> same (env_cmp Q f a b) (env_cmp Q g a b)"
  using env_cmp_local [of f a b g] env_cmp_error [of f a b] unfolding same_def by metis

lemma same_cases:
  assumes "\<And>v w. v \<in> set (obj_vals ao) \<Longrightarrow> w \<in> set (obj_vals bo) \<Longrightarrow> same (c v w) (c' v w)"
  shows "same (host_cases Q c ao bo) (host_cases Q c' ao bo)"
proof -
  have maps: "same (lex_cmp (pair_cmp c c) m n) (lex_cmp (pair_cmp c' c') m n)" if "ao = HMap m" "bo = HMap n" for m n
    by (rule same_lex) (use assms that in \<open>force simp: pair_cmp_def intro!: same_then\<close>)
  have vecs: "same (lex_cmp c m n) (lex_cmp c' m n)" if "ao = HVec m" "bo = HVec n" for m n
    by (rule same_lex) (use assms that in simp)
  show ?thesis
    by (cases ao; cases bo) (simp_all add: host_cases_def host_content_cmp_def vals_lex maps vecs)
qed

lemma small_decided:
  assumes "\<not> is_obj v" and "try_compare_to_small Q ho v = None"
  shows "val_type Q v \<noteq> val_type Q (ObjVal (tag_of ho) h)"
proof
  assume "val_type Q v = val_type Q (ObjVal (tag_of ho) h)"
  from small_types [OF assms(1) this] assms(2) show False
    by (cases ho) (auto split: Val.splits)
qed

lemma same_obj_cmp:
  assumes al: "alike R s t" and v: "val_ok R (objects s) v" and w: "val_ok R (objects s) w"
    and c: "\<And>ao bo. (\<And>u. u \<in> set (obj_vals ao) \<union> set (obj_vals bo) \<Longrightarrow> val_ok R (objects s) u) \<Longrightarrow> same (c ao bo) (c' ao bo)"
  shows "same (obj_cmp Q \<lparr>objects = objects s, cur_frame = None\<rparr> c v w) (obj_cmp Q \<lparr>objects = objects t, cur_frame = None\<rparr> c' v w)"
proof -
  let ?s = "\<lparr>objects = objects s, cur_frame = None\<rparr>" and ?t = "\<lparr>objects = objects t, cur_frame = None\<rparr>"
  define obj where "obj h = objects s ! handle_to_index h" for h
  have visit: "visit_obj_untyped h g ?s = g (obj h)" "visit_obj_untyped h g ?t = g (obj h)"
    if "val_ok R (objects s) (ObjVal tag h)" for tag h and g :: "HostObject \<Rightarrow> host_error + Ordering option"
    using that alike_objects(1) [OF al] alike_length [OF al]
    by (auto simp: visit_obj_untyped_def val_ok_def ref_ok_def obj_def)
  have obj: "tag_of (obj h) = tag" "u \<in> set (obj_vals (obj h)) \<Longrightarrow> val_ok R (objects s) u"
    if "val_ok R (objects s) (ObjVal tag h)" for tag h u
    using that alike_objects(2) [OF al] by (auto simp: val_ok_def ref_ok_def obj_def vals_ok_def)
  have small: "val_type Q (ObjVal tag h) \<noteq> val_type Q u" "val_type Q u \<noteq> val_type Q (ObjVal tag h)"
    if "val_ok R (objects s) (ObjVal tag h)" "\<not> is_obj u" "try_compare_to_small Q (obj h) u = None" for tag h u
    using small_decided [OF that(2,3), of h] obj(1) [OF that(1)] by auto
  consider (both) g h g' h' where "v = ObjVal g h" "w = ObjVal g' h'" | (left) g h where "v = ObjVal g h" "\<not> is_obj w"
    | (right) g h where "w = ObjVal g h" "\<not> is_obj v" | (none) "\<not> is_obj v" "\<not> is_obj w"
    by (cases v; cases w) auto
  then show ?thesis
  proof cases
    case both
    have "same (c (obj h) (obj h')) (c' (obj h) (obj h'))"
      by (rule c) (use both v w obj(2) in blast)
    then obtain r where "c (obj h) (obj h') = r" "c' (obj h) (obj h') = r" "same r r"
      by (auto simp: same_def)
    then show ?thesis
      using both v w by (cases r) (simp_all add: obj_cmp_def visit same_def)
  next
    case left
    then show ?thesis
      using v small [of g h w]
      by (cases w; cases "try_compare_to_small Q (obj h) w") (simp_all add: obj_cmp_def visit ord_cmp_def same_def)
  next
    case right
    then show ?thesis
      using w small [of g h v]
      by (cases v; cases "try_compare_to_small Q (obj h) v") (simp_all add: obj_cmp_def visit ord_cmp_def same_def)
  next
    case none
    then show ?thesis
      by (cases v; cases w) (simp_all add: obj_cmp_def same_def any_internal_def)
  qed
qed

lemma same_compare:
  assumes al: "alike R s t"
  shows "(\<And>u. u \<in> set (obj_vals ao) \<union> set (obj_vals bo) \<Longrightarrow> val_ok R (objects s) u) \<Longrightarrow>
    same (host_compare Q \<lparr>objects = objects s, cur_frame = None\<rparr> d ao bo) (host_compare Q \<lparr>objects = objects t, cur_frame = None\<rparr> d ao bo)"
proof (induction d arbitrary: ao bo)
  case 0
  then show ?case
    by (simp add: same_def any_internal_def depth_exceeded_def)
next
  case (Suc d)
  show ?case
    unfolding host_compare.simps
    by (rule same_cases, rule same_env, rule same_obj_cmp [OF al]) (use Suc in auto)
qed

lemma same_val_compare:
  assumes "alike R s t" and "val_ok R (objects s) v" and "val_ok R (objects s) w"
  shows "same (compare_val (host_common Q check_small d X) (objects s) v w) (compare_val (host_common Q check_small d X) (objects t) v w)"
proof -
  have "compare_val (host_common Q check_small d X) (objects u) v w =
      env_cmp Q (obj_cmp Q \<lparr>objects = objects u, cur_frame = None\<rparr> (host_compare Q \<lparr>objects = objects u, cur_frame = None\<rparr> d)) v w" for u :: obj_host
    by (simp add: host_common_def val_compare_def)
  moreover have "same (obj_cmp Q \<lparr>objects = objects s, cur_frame = None\<rparr> (host_compare Q \<lparr>objects = objects s, cur_frame = None\<rparr> d) v w)
      (obj_cmp Q \<lparr>objects = objects t, cur_frame = None\<rparr> (host_compare Q \<lparr>objects = objects t, cur_frame = None\<rparr> d) v w)"
    by (rule same_obj_cmp [OF assms]) (rule same_compare [OF assms(1)])
  note same_env [where f = "obj_cmp Q \<lparr>objects = objects s, cur_frame = None\<rparr> (host_compare Q \<lparr>objects = objects s, cur_frame = None\<rparr> d)"
      and g = "obj_cmp Q \<lparr>objects = objects t, cur_frame = None\<rparr> (host_compare Q \<lparr>objects = objects t, cur_frame = None\<rparr> d)", OF this]
  ultimately show ?thesis
    by simp
qed

end

text \<open>So the host's own functions keep the laws from which isolation follows.\<close>

sublocale env_laws \<subseteq> host: common_laws "host_common Q check_small d X" for d
proof
  fix R s t v e
  assume al: "alike R s t" and v: "val_ok R (objects s) v"
  have "(case v of ObjVal tag h \<Rightarrow> check_obj_integrity tag h \<lparr>objects = objects u, cur_frame = None\<rparr> | _ \<Rightarrow> Inr ()) = Inr ()"
    if "u = s \<or> u = t" for u
    using that v alike_objects(1) [OF al] alike_length [OF al]
    by (cases v) (auto simp: check_obj_integrity_def visit_obj_untyped_def val_ok_def ref_ok_def)
  then have check: "check_val_integrity (host_common Q check_small d X) (objects u) v = check_small v" if "u = s \<or> u = t" for u
    using that by (cases "check_small v") (auto simp: host_common_def)
  show "check_val_integrity (host_common Q check_small d X) (objects t) v = check_val_integrity (host_common Q check_small d X) (objects s) v"
    by (simp add: check)
  assume "check_val_integrity (host_common Q check_small d X) (objects s) v = Inl e"
  then show "\<not> internal_error e"
    using check check_small_error [of v e] by (auto simp: any_internal_def internal_error_def)
next
  fix R s t v w e
  assume "alike R s t" and "val_ok R (objects s) v" and "val_ok R (objects s) w"
  note same = same_val_compare [OF this, of d, unfolded same_def]
  show "compare_val (host_common Q check_small d X) (objects t) v w = compare_val (host_common Q check_small d X) (objects s) v w"
    using same by simp
  assume "compare_val (host_common Q check_small d X) (objects s) v w = Inl e"
  then show "\<not> internal_error e"
    using same by (auto simp: any_internal_def internal_error_def)
qed (use own_errors in \<open>auto simp: host_common_def any_internal_def internal_error_def\<close>)

context env_laws
begin

lemma host_laws: "common_laws (host_common Q check_small d X)"
  by (rule host.common_laws_axioms)

end

section \<open>An instance\<close>

text \<open>Every small value is well represented, and \<open>OtherSmall\<close> is a small number (\<open>sample_order\<close>).\<close>

interpretation sample_env: env_laws sample_order "\<lambda>_. Inr ()" plain_common
proof
  show "small_like sample_order ho v \<noteq> None" if "\<not> is_obj v" "val_type sample_order v = val_type sample_order (ObjVal (tag_of ho) h)" for v ho h
    using that by (cases v; cases ho) (simp_all add: sample_order_def)
  have plain: "\<not> any_internal e" if "sample_small_cmp a b = Inl e" for a b e
    using that same_bytes by (cases "(a, b)" rule: sample_small_cmp.cases) (auto simp: ord_cmp_def same_def)
  show "f a b = Inl e \<or> \<not> any_internal e" if "env_cmp sample_order f a b = Inl e" for f a b e
    using that plain [of a b e] by (auto simp: sample_order_def try_sum_def split: if_splits sum.splits)
qed (simp_all add: sample_order_def plain_common_def any_internal_def)

section \<open>Properties\<close>

text \<open>C10: a contract can not see what it was not given.  Take two hosts with the same running frame and
  the same number of objects, whose objects differ arbitrarily except for those the frame can reach.
  Whatever program the contract runs, with forged references or not, it traps with the same error
  in both, or gets the same results and ends with the same table and memory in both.  The values are
  compared and checked by the host's own code; the laws \<open>env_laws\<close> are those of \<open>soroban-env-common\<close>.\<close>

theorem guest_isolation:
  assumes "env_laws Q check_small X" and "well_formed s" and "cur_frame t = cur_frame s" and "length (objects t) = length (objects s)"
    and "\<And>i. i \<in> reachable s \<Longrightarrow> i < length (objects s) \<Longrightarrow> objects t ! i = objects s ! i"
  shows "(\<exists>e. run_guest (host_common Q check_small d X) g n [] s = Inl e \<and> run_guest (host_common Q check_small d X) g n [] t = Inl e)
    \<or> (\<exists>rs s' t'. run_guest (host_common Q check_small d X) g n [] s = Inr (rs, s')
        \<and> run_guest (host_common Q check_small d X) g n [] t = Inr (rs, t') \<and> cur_frame s' = cur_frame t')"
  using common_laws.run_guest_safe [OF env_laws.host_laws [OF assms(1), of d] alike_reachable [OF assms(2-5)], of g n "[]"]
  by (auto simp: alike_def)

theorem guest_isolation_witness:
  "(\<exists>e. run_guest (host_common sample_order (\<lambda>_. Inr ()) 2 plain_common) reader 2 [] (host_with [1, 2]) = Inl e
      \<and> run_guest (host_common sample_order (\<lambda>_. Inr ()) 2 plain_common) reader 2 [] (host_with [9]) = Inl e)
    \<or> (\<exists>rs s' t'. run_guest (host_common sample_order (\<lambda>_. Inr ()) 2 plain_common) reader 2 [] (host_with [1, 2]) = Inr (rs, s')
        \<and> run_guest (host_common sample_order (\<lambda>_. Inr ()) 2 plain_common) reader 2 [] (host_with [9]) = Inr (rs, t')
        \<and> cur_frame s' = cur_frame t')"
proof (rule guest_isolation [OF sample_env.env_laws_axioms host_with_wf])
  show "objects (host_with [9]) ! i = objects (host_with [1, 2]) ! i" if "i \<in> reachable (host_with [1, 2])" for i
    using host_with_reachable [OF that] by (simp add: host_with_def)
qed (simp_all add: host_with_def)

text \<open>C19: the object graph is type safe.  From a well-formed host, whatever program a contract runs, no
  host function ends in an internal error of the objects, the frames or the machine; every reference stays absolute, in range and
  correctly tagged, and the objects that existed are still there unchanged; and on the host that is left
  the comparison of two references, with all that it reads, meets no internal error of any kind.\<close>

theorem objects_well_typed:
  assumes "env_laws Q check_small X" and "well_formed s"
  shows "case run_guest (host_common Q check_small d X) g n [] s of
      Inl e \<Rightarrow> \<not> internal_error e
    | Inr (rs, s') \<Rightarrow> well_formed s' \<and> take (length (objects s)) (objects s') = objects s
        \<and> (\<forall>(tag, h)\<in>set (table_of s'). \<forall>(tag', h')\<in>set (table_of s'). \<forall>t.
             val_compare Q \<lparr>objects = objects s', cur_frame = None\<rparr> d (ObjVal tag h) (ObjVal tag' h') \<noteq> Inl (HostErr t InternalError))"
proof -
  have "alike UNIV s s"
    using assms(2) by (simp add: alike_UNIV)
  note run = common_laws.run_guest_safe [OF env_laws.host_laws [OF assms(1), of d] this, of g n "[]"]
  have "val_compare Q \<lparr>objects = objects u, cur_frame = None\<rparr> d (ObjVal tag h) (ObjVal tag' h') \<noteq> Inl (HostErr t InternalError)"
    if "alike UNIV u u" "(tag, h) \<in> set (table_of u)" "(tag', h') \<in> set (table_of u)" for u tag h tag' h' t
  proof -
    have "ref_ok (objects u) tag h" "ref_ok (objects u) tag' h'"
      using that by (force simp: alike_UNIV well_formed_def)+
    then have "val_ok UNIV (objects u) (ObjVal tag h)" "val_ok UNIV (objects u) (ObjVal tag' h')"
      by (simp_all add: val_ok_def)
    from env_laws.same_val_compare [OF assms(1) that(1) this, of d] show ?thesis
      by (auto simp: same_def any_internal_def host_common_def)
  qed
  note compared = this
  show ?thesis
  proof (cases "run_guest (host_common Q check_small d X) g n [] s")
    case (Inr r)
    obtain rs u where r: "r = (rs, u)"
      by fastforce
    then obtain new where "alike UNIV u u" "objects u = objects s @ new"
      using run Inr by auto
    with compared [OF this(1)] show ?thesis
      unfolding Inr r by (auto simp: alike_UNIV)
  qed (use run in auto)
qed

theorem objects_well_typed_witness:
  "case run_guest (host_common sample_order (\<lambda>_. Inr ()) 2 plain_common) reader 2 [] (host_with [1]) of
      Inl e \<Rightarrow> \<not> internal_error e
    | Inr (rs, s') \<Rightarrow> well_formed s' \<and> take (length (objects (host_with [1]))) (objects s') = objects (host_with [1])"
  using objects_well_typed [OF sample_env.env_laws_axioms host_with_wf [of "[1]"], where d = 2 and g = reader and n = 2]
  by (simp split: sum.splits prod.splits)

end
