(* ===== verification/Spec2Isabelle.thy ===== *)
theory Spec2Isabelle
  imports Settlement_System Escrow_Properties Pool_Properties Token_Properties Host_Properties
    Anchor_Properties Host_Storage Fees Budget Object_Laws Value_Order Ledger_Changes
    Contract_Creation Guest_Properties
begin

text \<open>
  TogetherFi on Stellar: campaign settlement on Soroban.

  \<^bold>\<open>The program.\<close>  Three contracts run on a patched Soroban host.  A sponsor funds a campaign in the
  escrow (\<open>src/contracts/campaign_escrow/src/lib.rs\<close>), activates it for a creator, and a 2-of-3
  settlement authority completes it: the escrow splits the amount over the creator, a treasury,
  two contributor pools and a referrer, and credits the pools.  A campaign nobody completed in
  30 days is refunded.  A pool (\<open>src/contracts/contributor_pool/src/lib.rs\<close>) turns its credits into
  manifests of allocations, which governance and an eligibility authority publish together and
  which the recipients claim.  The reputation anchor (\<open>src/contracts/reputation_anchor/src/lib.rs\<close>)
  keeps one score per profile.  All of them run in \<open>src/soroban-env-host-patch/src/\<close>: frames and
  calls, the authorization manager, ledger entries with a life time, the token contract, fees, the
  budget, and the objects a contract reaches through handles.

  \<^bold>\<open>Theories.\<close>
  \<^item> \<open>Prelude\<close>: checked integers, the combinators of fallible state passing (\<open>steps\<close>, \<open>reject\<close>,
    \<open>ok_or\<close>, \<open>bindq\<close>), the logic \<open>keeps\<close> of frame conditions, sums over maps, the locale
    \<open>component\<close> of invariants under interleaving.
  \<^item> \<open>Host_Types\<close>: values, errors, ledger parameters, one ledger entry and its life time
    (\<open>ledger_info.rs\<close>, \<open>host/data_helper.rs\<close>, \<open>storage.rs\<close>).
  \<^item> \<open>Metered_Map\<close> (\<open>host/metered_map.rs\<close>): the sorted vector and its binary search; the locale
    \<open>fallible_map\<close> is its contract.
  \<^item> \<open>Host_Storage\<close> (\<open>storage.rs\<close>): footprints, recording and enforcing mode, built on \<open>fallible_map\<close>.
  \<^item> \<open>Account_Auth\<close> (\<open>builtin_contracts/account_contract.rs\<close>): signer weights and thresholds.
  \<^item> \<open>Auth_Manager\<close> (\<open>auth.rs\<close>, \<open>invoker_contract_auth.rs\<close>): authorization trees, matching, roll
    back, nonces.
  \<^item> \<open>Host_Env\<close> (\<open>host.rs\<close>, \<open>host/frame.rs\<close>): the state \<open>host\<close>, calls, \<open>require_auth\<close>, events, life-time
    extension of instances and code.
  \<^item> \<open>Token_Interface\<close>: the locale \<open>token_ledger\<close>, what a holder relies on, and the algebra of legs;
    \<open>Stellar_Asset\<close> (\<open>builtin_contracts/stellar_asset_contract/\<close>) is the code,
    \<open>Stellar_Asset_Laws\<close> interprets the locale on it, and \<open>Token_Steps\<close> is the asset contract as a state
    machine with what protects a holder from it.
  \<^item> \<open>Contributor_Pool\<close> and \<open>Campaign_Escrow\<close> are the two contracts, statement by statement; the two
    \<open>_Laws\<close> theories hold their abstract specifications (\<open>spec_\<close> functions, \<open>escrow_move\<close>), the
    refinement, the invariants \<open>pool_inv\<close> and \<open>escrow_inv\<close> and solvency.  \<open>pool_step\<close> and \<open>escrow_step\<close> are all
    exported functions, the reads included, some of which extend life times.
  \<^item> \<open>Reputation_Anchor\<close> is the third contract; \<open>Fees\<close> (\<open>fees.rs\<close>) the fee arithmetic.
  \<^item> \<open>Budget\<close> (\<open>budget.rs\<close>, \<open>budget/\<close>, \<open>vm/fuel_refillable.rs\<close>): cost models, charging, shadow mode, depth
    limits and fuel.
  \<^item> \<open>Host_Objects\<close> (\<open>host_object.rs\<close>, \<open>host/validity.rs\<close>, \<open>host/mem_helper.rs\<close>, \<open>host/metered_vector.rs\<close>): the
    object table, handles, vectors, linear memory; \<open>Object_Functions\<close> (\<open>host.rs\<close>): the functions on bytes,
    strings, symbols and maps; \<open>Guest_Boundary\<close> (\<open>vm/dispatch.rs\<close>): how a Wasm contract calls them.
  \<^item> \<open>Object_Safety\<close>: a relational logic on two hosts that look alike to a contract; \<open>Guest_Isolation\<close>
    applies it to every function of the boundary; \<open>Object_Laws\<close>: what the functions compute;
    \<open>Guest_Properties\<close> puts the host's own comparison and integrity check in the place of the parameters
    of these theories and proves their laws.
  \<^item> \<open>Value_Conversion\<close> (\<open>host/conversion.rs\<close>, \<open>host/num.rs\<close>): host values to XDR values and back, number objects;
    \<open>Value_Order\<close> (\<open>host/comparison.rs\<close>): the order of both.
  \<^item> \<open>Call_Frames\<close> (\<open>events/\<close>, \<open>host/frame.rs\<close>): the event buffer, and frames over the transactional storage, with
    the state a failed call leaves; \<open>act\<close> is the tree of what contracts do in a transaction.
  \<^item> \<open>Ledger_Changes\<close> (\<open>e2e_invoke.rs\<close>): from the encoded inputs of an invocation to its ledger and rent changes.
  \<^item> \<open>Contract_Creation\<close> (\<open>host/lifecycle.rs\<close>, \<open>host/data_helper.rs\<close>): uploading code, creating contracts,
    replacing their code, on frames, storage and authorization.
  \<^item> \<open>Held_Tokens\<close>: escrow and pools give no allowance; \<open>Settlement_System\<close>: escrow, pools and token as one
    transition system, and the refund, statement by statement up to its payment.
  \<^item> \<open>Scenario\<close> and \<open>Scenario_Runs\<close>: one concrete deployment and its runs, for the instances of the
    theorems.
  \<^item> \<open>Escrow_Properties\<close>, \<open>Pool_Properties\<close>, \<open>Token_Properties\<close>, \<open>Host_Properties\<close>,
    \<open>Anchor_Properties\<close>, \<open>Guest_Properties\<close> and this theory: what the program guarantees.

  \<^bold>\<open>Correspondence.\<close>  A contract's storage is a record: an instance key of \<open>DataKey\<close> is an option
  field, a persistent or temporary key a map to slots (value, live-until ledger).  An exported
  function is a definition of the same name (\<open>escrow_\<close>, \<open>pool_\<close>, \<open>sac_\<close> in front) with the id of
  the running contract as argument; it returns an error or the new host state.  An error carries
  no state, because the host rolls a failed frame back and no contract catches an error;
  \<open>Host_Storage\<close>, \<open>Budget\<close> and \<open>Call_Frames\<close>, which are below that, return the state also on failure,
  and \<open>Call_Frames\<close> proves that the host rolls a failed frame back.  A Rust panic is the
  error \<open>wasm_trap\<close>.  Integers are \<open>nat\<close> and \<open>int\<close> with the range checks of the code.

  \<^bold>\<open>What is shown.\<close>  For the system: solvency and books of all three contracts in every state
  reachable after initialization, reconciliation of pool credits with completed campaigns, and
  that a refund of an expired campaign depends on the token alone and on nobody's authorization.  For the escrow and the pools: the invariants,
  the refinement of abstract moves, the effect of each operation on storage and balances, who
  must have authorized it, and which calls fail.  For the token: exact transfers, and that no
  call takes from a contract that gave no allowance and can not be clawed back.  For the host:
  soundness and single use of authorizations, exact roll back, nonces, the 2-of-3 policy, preflight
  soundness, footprints, the map and the termination of its search.  For the objects: a contract
  neither sees nor names an object it was not given, every object keeps its type, vectors and maps
  refine lists and finite maps, values survive linear memory and the conversion from XDR,
  XDR values are totally ordered and host values order like them.
  For the run of a transaction: a failed call leaves no trace, the published events are
  those of successful calls, and the ledger changes given to the embedder are the effect of the run.  For deployment: a contract id is
  given away once and a new executable is code the ledger holds.  For the budget: charges are exact
  and a run that succeeds is within its limits.  For the fees: ranges and monotonicity.

  \<^bold>\<open>Bounds.\<close>  Every function of the model is total; no fuel is used except in \<open>bsearch_rounds\<close>, a
  counting copy of the binary search with which its number of rounds is bounded.

  \<^bold>\<open>Parameters.\<close>  Signature verification, the hash that names a contract and the \<open>__check_auth\<close> of
  custom accounts are fields of \<open>externals\<close>; \<open>num_integer::div_ceil\<close> is an argument with its
  documented law (\<open>ceiled_division\<close>); XDR keys and entries are type variables with \<open>xdr_types\<close>.
  What \<open>soroban-env-common\<close> does with values (payload, comparison of small values, vectors and tuples, integrity of small values, small
  symbols) has the laws \<open>env_laws\<close>; the object theories use them, together with the host's own comparison of objects and
  integrity check, through the record \<open>common\<close> and its laws \<open>common_laws\<close>, which a \<open>sublocale\<close> of
  \<open>Guest_Properties\<close> derives from \<open>env_laws\<close> and the code of the host; its conversion of small values and of wide
  integers the record \<open>conversion\<close> with \<open>conversion_ok\<close>; its comparison of vectors, tuples and small values the
  record \<open>value_order\<close> with \<open>order_laws\<close>; XDR encoding and SHA-256 are in \<open>codec\<close>; ledger keys,
  SHA-256, the parser and the machine of a deployment in \<open>deployment\<close> with \<open>ledger_keys_ok\<close>; the store of the Wasm machine and the order
  of the cost types are arguments in \<open>Budget\<close>.
  The settlement token is the built-in asset contract.

  \<^bold>\<open>Assumptions of the system.\<close>  \<open>system_step\<close> contains every exported function of the escrow, of
  both pools and of the asset contract, classic operations on accounts and trustlines, and arbitrary changes of
  the transaction and the ledger between calls.  A call comes from outside: none of the three contracts has
  authorized it, which holds for every transaction as long as they are no custom accounts
  (\<open>no_self_authorization\<close>).  The books need nothing else.  Solvency needs in addition that at the start
  nobody has an allowance from the three contracts and their balances can not be clawed back (\<open>all_safe\<close>), which every step
  keeps; it is why a classic operation may not change the issuer's clawback flag.  An issuer who has enabled clawback can take
  any balance.

  \<^bold>\<open>Not modelled.\<close>  Where the host charges its budget inside the other components (a run that exceeds
  it has no effect), the recording mode of authorization (used by simulation), what the \<open>__check_auth\<close> of a
  custom account does beyond its verdict (it is contract code that may write its storage, emit events and call
  others), the WebAssembly
  machine (a contract of the settlement is its Rust source, a guest of \<open>Guest_Isolation\<close> an arbitrary
  strategy; a call of \<open>Call_Frames\<close> an arbitrary tree of actions), XDR encoding, the comparison of ledger keys,
  arithmetic on 256-bit integers, cryptography, the recording entry point of
  \<open>e2e_invoke.rs\<close>, the display of events, test utilities and scripts.
\<close>

section \<open>The system as a whole\<close>

text \<open>C1: the system stays solvent.  Initialize an escrow on two pools that name it and have no
  credits yet, where nobody has an allowance from the escrow or a pool, and their balances can not be
  clawed back (the issuer of the token has not enabled clawback).  Then let anybody call any exported function of
  the escrow, of its pools and of the token (transfers, allowances, burning, clawback, authorization, minting and a change of
  administrator included) in any order, in any transactions and ledgers, as long as the
  issuer's clawback flag stays off and the three contracts are no custom accounts.  In every state that is reached
  the escrow's stored liability is the
  sum of its open campaigns and covered by its tokens, and each pool's stored liability is the
  sum of what its manifests still owe, within what was credited and not paid out, which in turn
  is covered by the pool's tokens.\<close>

theorem settlement_system_solvent:
  assumes "escrow_initialize X e g sa (Contract t) tr (Contract p) (Contract q) dep salt h = Inr h'"
    and "escrow_inv (escrows h e)" and "e \<noteq> p" and "e \<noteq> q" and "0 \<le> sac_bal t h (Contract e)"
    and "new_pool t e p h" and "new_pool t e q h" and "all_safe t [e, p, q] h" and "(system_step X t e p q)\<^sup>*\<^sup>* h' h''"
  shows "e_liability (escrows h'' e) = map_sum (\<lambda>(x, _). open_amount x) (e_campaigns (escrows h'' e))
    \<and> e_liability (escrows h'' e) \<le> sac_bal t h'' (Contract e)
    \<and> (\<forall>r\<in>{p, q}. liability_of (pools h'' r) = map_sum (\<lambda>(m, _). remaining_amount m) (p_manifests (pools h'' r))
         \<and> liability_of (pools h'' r) \<le> credited_of (pools h'' r) - paid_of (pools h'' r)
         \<and> credited_of (pools h'' r) - paid_of (pools h'' r) \<le> sac_bal t h'' (Contract r))"
proof -
  have "all_safe t [e, p, q] h'"
    using assms(8) contracts_keep_safe(1) [OF escrow_step.initialize [OF assms(1)]] by (simp add: all_safe_def)
  then show ?thesis
    using system_reach_inv [OF assms(9) system_starts [OF assms(1-7)]]
    by (auto simp: system_inv_def pool_ok_def escrow_inv_def escrow_solvent_def pool_inv_def pool_solvent_def)
qed

text \<open>The pools of the deployment before any credit.\<close>

lemma new_pools0:
  assumes "pools h r = fresh_pool" and "sacs h 200 = token0 b" and "b = Map.empty \<or> b = [Contract 100 \<mapsto> bal0 1000]" and "r \<noteq> 100"
  shows "new_pool 200 100 r h"
  using assms
  by (auto simp: new_pool_def pool_inv_def pool_solvent_def fresh_pool_def no_pool_def liability_of_def credited_of_def paid_of_def
      unwrap_or_def map_sum_def sac_bal_def token0_def)

lemma init_call_safe: "all_safe 200 [100, 101, 102] init_call"
proof -
  have "is_asset_clawback_enabled 200 init_call = Inr False"
    by code_simp
  then show ?thesis
    by (simp add: all_safe_def holds_safely_def clawable_def) (simp add: init_call_def token0_def)
qed

theorem settlement_system_solvent_witness:
  "let h = projr (escrow_initialize X0 100 (Account 1) (Account 2) (Contract 200) (Account 6)
       (Contract 101) (Contract 102) (Account 1) [100] init_call)
   in e_liability (escrows (h\<lparr>frames := [], auth := auth empty0\<rparr>\<lparr>ledger := ledger (later empty0)\<rparr>) 100)
     \<le> sac_bal 200 (h\<lparr>frames := [], auth := auth empty0\<rparr>\<lparr>ledger := ledger (later empty0)\<rparr>) (Contract 100)"
proof -
  have steps: "(system_step X0 200 100 101 102)\<^sup>*\<^sup>* h (h\<lparr>frames := [], auth := auth empty0\<rparr>\<lparr>ledger := ledger (later empty0)\<rparr>)" for h
    by (rule rtranclp.rtrancl_into_rtrancl, rule r_into_rtranclp, rule system_step.transaction, rule system_step.close_ledger)
  show ?thesis
    unfolding Let_def
    by (rule conjunct1 [OF conjunct2 [OF settlement_system_solvent [OF is_ok_projr [OF init_call_ok] _ _ _ _ _ _ init_call_safe steps]]])
      (simp_all add: init_call_def new_pools0 no_escrow_def escrow_inv_def e_liability_def unwrap_or_def map_sum_def sac_bal_def token0_def)
qed

text \<open>C2: the books of the contracts agree.  In every reachable state the NFT pool has been credited
  with exactly the sum of the NFT shares of the campaigns the escrow has completed, and the
  revenue pool with exactly the sum of the revenue shares: no credit without a settlement, none
  lost and none recorded twice.\<close>

theorem pools_reconcile:
  assumes "system_inv t e p q h" and "(system_step X t e p q)\<^sup>*\<^sup>* h h'"
  shows "credited_of (pools h' p) = settled NFT_POOL (escrows h' e) \<and> credited_of (pools h' q) = settled REVENUE (escrows h' e)"
  using system_reach_books [OF assms(2)] assms(1) by (simp add: system_inv_split books_inv_def pool_books_def)

lemma complete_call_system: "system_inv 200 100 101 102 complete_call"
proof -
  have e: "escrows complete_call 100 = escrow_with active0" "pools complete_call 101 = fresh_pool" "pools complete_call 102 = fresh_pool"
      "sacs complete_call 200 = token0 [Contract 100 \<mapsto> bal0 1000]"
    by (simp_all add: call_defs)
  have n: "new_pool 200 100 101 complete_call" "new_pool 200 100 102 complete_call"
    using new_pools0 [of complete_call 101 "[Contract 100 \<mapsto> bal0 1000]"]
      new_pools0 [of complete_call 102 "[Contract 100 \<mapsto> bal0 1000]"] by (simp_all add: e)
  have "settled share (escrow_with active0) = 0" for share
    by (simp add: settled_def escrow_with_def map_sum_one active0_sel)
  then have "pool_ok 200 100 share r complete_call" if "new_pool 200 100 r complete_call" for share r
    using that by (simp add: new_pool_def pool_ok_def e)
  then show ?thesis
    using n escrow_with_inv [of active0] escrow_with_solvent [OF e(1,4)]
    by (simp add: system_inv_def e) (simp add: escrow_with_def fresh_escrow_def)
qed

theorem pools_reconcile_witness:
  "credited_of (pools (projr (escrow_complete X0 100 1 1 complete_call)) 101) =
     settled NFT_POOL (escrows (projr (escrow_complete X0 100 1 1 complete_call)) 100)"
proof -
  have "outside X0 [100, 101, 102] complete_call"
    by (simp add: outside_def complete_call_def calling_unauthorized)
  then have "system_step X0 200 100 101 102 complete_call (projr (escrow_complete X0 100 1 1 complete_call))"
    by (rule system_step.call_escrow [OF _ escrow_step.complete [OF runs(1)]])
  then show ?thesis
    using pools_reconcile [OF complete_call_system r_into_rtranclp] by blast
qed

text \<open>C6: a refund can not be blocked.  If a campaign is open and expired, its record live and the
  escrow within its invariant, then the outcome of \<open>refund_expired\<close>, running as the current
  contract, is determined by the token alone, whatever has been signed and whether or not the escrow is paused:
  an error of the balance query is returned as it is; otherwise the escrow does
  its own part without fail, marks the campaign refunded and lowers its liability by the amount, and then an error of the payment,
  which asks for nobody's authorization, is returned as it is, or the payment succeeds and so does the refund, with its event.\<close>

theorem refund_not_blocked:
  assumes "refundable t c k x h" and "escrow_init c h = Inr h1" and "running c h"
  shows "case token_balance (Contract t) (Contract c) h1 of
      Inl e \<Rightarrow> escrow_refund_expired X c k h = Inl e
    | Inr (b, h2) \<Rightarrow> \<exists>l. (case plain_payment t (Contract c) (sponsor x) (amount x) (refunded c k x l h2) of
        Inl e \<Rightarrow> escrow_refund_expired X c k h = Inl e
      | Inr h3 \<Rightarrow> escrow_refund_expired X c k h = Inr (h3\<lparr>events := events h3 @ [\<lparr>event_contract = c,
          event_topics = [SSymbol ''refunded'', SU64 k], event_data = SVec [SAddress (sponsor x), SI128 (amount x)]\<rparr>]\<rparr>))"
  by (rule refund_progress [OF assms])

theorem refund_not_blocked_witness:
  "case token_balance (Contract 200) (Contract 100) (projr (escrow_init 100 refund_call)) of
      Inl e \<Rightarrow> escrow_refund_expired X0 100 1 refund_call = Inl e
    | Inr (b, h2) \<Rightarrow> \<exists>l. (case plain_payment 200 (Contract 100) (sponsor active0) (amount active0) (refunded 100 1 active0 l h2) of
        Inl e \<Rightarrow> escrow_refund_expired X0 100 1 refund_call = Inl e
      | Inr h3 \<Rightarrow> escrow_refund_expired X0 100 1 refund_call = Inr (h3\<lparr>events := events h3 @ [\<lparr>event_contract = 100,
          event_topics = [SSymbol ''refunded'', SU64 1], event_data = SVec [SAddress (sponsor active0), SI128 (amount active0)]\<rparr>]\<rparr>))"
proof (rule refund_not_blocked)
  show "refundable 200 100 1 active0 refund_call"
    using escrow_with_inv [of active0] escrow_with_solvent [of refund_call active0]
    by (simp add: refundable_def call_defs) (simp add: escrow_with_def e_liability_def unwrap_or_def active0_def activated_def
        funded0_def new_campaign_def EXPIRY_def DAY_def I128_MAX_def ESCROW_TTL_def U32_MAX_def later_def li0_def)
  have "is_ok (escrow_init 100 refund_call)"
    by code_simp
  then show "escrow_init 100 refund_call = Inr (projr (escrow_init 100 refund_call))"
    by (rule is_ok_projr)
  show "running 100 refund_call"
    by (simp add: running_def refund_call_def calling_def get_current_contract_id_def am_push_frame_def)
qed

end
